(* ===== verification/Prelude.thy ===== *)
theory Prelude
  imports Main
begin

text \<open>
  Shared vocabulary of the development.

  \<^item> \<open>('e, 'a, 's) tx\<close>: the body of a database transaction. It reads and writes a state \<open>'s\<close>
    and either throws an error \<open>'e\<close> or returns a value. The TypeScript callbacks handed to
    \<open>withTenant\<close> are translated to this type, statement by statement, with \<open>bind_tx\<close> for
    sequencing (the \<open>await\<close> of the source).
  \<^item> \<open>run_tx\<close>: commit or roll back, as \<open>withTenant\<close> does.
  \<^item> \<open>sql_update\<close> and \<open>find_row\<close>: the two list operations behind \<open>UPDATE ... WHERE\<close> and
    \<open>SELECT ... LIMIT 1\<close>.
  \<^item> the locale \<open>tx_preorder\<close>: a contract shared by every transaction body of the model. A
    relation between the state before and after that is reflexive and transitive holds for a
    whole body as soon as it holds for each statement. Tenant isolation, the table constraints
    and the append-only discipline are all instances of it.
\<close>

named_theorems tx_defs \<open>the transaction combinators, unfolded\<close>
named_theorems within_intros \<open>introduction rules for a relation respected by a body\<close>

section \<open>Transaction bodies\<close>

type_synonym ('e, 'a, 's) tx = "'s \<Rightarrow> 'e + ('a \<times> 's)"

definition ret :: "'a \<Rightarrow> ('e, 'a, 's) tx" where
  "ret a = (\<lambda>s. Inr (a, s))"

definition throw :: "'e \<Rightarrow> ('e, 'a, 's) tx" where
  "throw e = (\<lambda>s. Inl e)"

definition bind_tx :: "('e, 'a, 's) tx \<Rightarrow> ('a \<Rightarrow> ('e, 'b, 's) tx) \<Rightarrow> ('e, 'b, 's) tx" where
  "bind_tx m f = (\<lambda>s. case m s of Inl e \<Rightarrow> Inl e | Inr (a, s') \<Rightarrow> f a s')"

text \<open>A statement that only reads.\<close>

definition query :: "('s \<Rightarrow> 'a) \<Rightarrow> ('e, 'a, 's) tx" where
  "query g = (\<lambda>s. Inr (g s, s))"

text \<open>
  A point where the transaction waits (for an advisory or a row lock) and other transactions
  may commit: the state moves by \<open>g\<close>.
\<close>

definition wait_for :: "('s \<Rightarrow> 's) \<Rightarrow> ('e, unit, 's) tx" where
  "wait_for g = (\<lambda>s. Inr ((), g s))"

text \<open>\<open>try { m } catch (e) { throw h(e) }\<close>: the error is mapped, the state is not touched.\<close>

definition map_error :: "('e \<Rightarrow> 'e) \<Rightarrow> ('e, 'a, 's) tx \<Rightarrow> ('e, 'a, 's) tx" where
  "map_error h m = (\<lambda>s. case m s of Inl e \<Rightarrow> Inl (h e) | Inr r \<Rightarrow> Inr r)"

text \<open>\<open>for (const x of xs) await body(x)\<close>.\<close>

fun for_each :: "'x list \<Rightarrow> ('x \<Rightarrow> ('e, 'a, 's) tx) \<Rightarrow> ('e, 'a list, 's) tx" where
  "for_each [] body = ret []"
| "for_each (x # xs) body =
     bind_tx (body x) (\<lambda>a. bind_tx (for_each xs body) (\<lambda>as. ret (a # as)))"

text \<open>Commit or roll back: an error leaves the state as it was.\<close>

definition run_tx :: "('e, 'a, 's) tx \<Rightarrow> 's \<Rightarrow> ('e + 'a) \<times> 's" where
  "run_tx m s = (case m s of Inl e \<Rightarrow> (Inl e, s) | Inr (a, s') \<Rightarrow> (Inr a, s'))"

lemmas [tx_defs] = ret_def throw_def bind_tx_def query_def wait_for_def map_error_def run_tx_def

lemma bind_tx_Inr:
  "bind_tx m f s = Inr (b, s'') \<longleftrightarrow> (\<exists>a s'. m s = Inr (a, s') \<and> f a s' = Inr (b, s''))"
  by (auto simp: bind_tx_def split: sum.splits prod.splits)

lemma bind_tx_run: "m s = Inr (a, s') \<Longrightarrow> bind_tx m f s = f a s'"
  by (simp add: bind_tx_def)

text \<open>A guard: a body that returns nothing and leaves the state as it is.\<close>

lemma bind_guard_Inr:
  assumes "\<And>s'. m s = Inr ((), s') \<Longrightarrow> s' = s"
  shows "bind_tx m (\<lambda>_. k) s = Inr r \<longleftrightarrow> m s = Inr ((), s) \<and> k s = Inr r"
  using assms by (auto simp: bind_tx_def split: sum.splits prod.splits)

lemma ret_run: "ret a s = Inr (a, s)"
  by (simp add: ret_def)

lemma throw_run: "throw e s = Inl e"
  by (simp add: throw_def)

lemma bind_query [simp]: "bind_tx (query g) f s = f (g s) s"
  by (simp add: bind_tx_def query_def)

lemma bind_ret [simp]: "bind_tx (ret a) f s = f a s"
  by (simp add: bind_tx_def ret_def)

lemma bind_throw [simp]: "bind_tx (throw e) f s = Inl e"
  by (simp add: bind_tx_def throw_def)

lemma ret_Inr [simp]: "ret a s = Inr (b, s') \<longleftrightarrow> a = b \<and> s = s'"
  by (auto simp: ret_def)

lemma throw_Inr [simp]: "throw e s = Inr r \<longleftrightarrow> False"
  by (simp add: throw_def)

lemma query_Inr [simp]: "query g s = Inr (b, s') \<longleftrightarrow> b = g s \<and> s' = s"
  by (auto simp: query_def)

lemma run_tx_error: "run_tx m s = (Inl e, s') \<Longrightarrow> s' = s"
  by (auto simp: run_tx_def split: sum.splits)

lemma run_tx_ok: "run_tx m s = (Inr a, s') \<longleftrightarrow> m s = Inr (a, s')"
  by (auto simp: run_tx_def split: sum.splits)

lemma run_tx_Inl: "run_tx m s = (Inl e, s') \<longleftrightarrow> m s = Inl e \<and> s' = s"
  by (auto simp: run_tx_def split: sum.splits)

lemma bind_wait [simp]: "bind_tx (wait_for g) f s = f () (g s)"
  by (simp add: bind_tx_def wait_for_def)

text \<open>Decomposing a body that returned: one equation per combinator.\<close>

named_theorems tx_Inr \<open>what it takes for a body to return\<close>

lemma case_list_Inr [tx_Inr]:
  "(case rows of [] \<Rightarrow> m | x # xs \<Rightarrow> f x xs) s = Inr r \<longleftrightarrow>
   (rows = [] \<and> m s = Inr r) \<or> (\<exists>x xs. rows = x # xs \<and> f x xs s = Inr r)"
  by (cases rows) auto

lemma case_option_Inr [tx_Inr]:
  "(case x of None \<Rightarrow> m | Some a \<Rightarrow> f a) s = Inr r \<longleftrightarrow>
   (x = None \<and> m s = Inr r) \<or> (\<exists>a. x = Some a \<and> f a s = Inr r)"
  by (cases x) auto

lemma if_tx_Inr [tx_Inr]:
  "(if b then m else n) s = Inr r \<longleftrightarrow> (b \<and> m s = Inr r) \<or> (\<not> b \<and> n s = Inr r)"
  by simp

lemma wait_Inr [tx_Inr]: "wait_for g s = Inr (a, s') \<longleftrightarrow> s' = g s"
  by (auto simp: wait_for_def)

lemma map_error_Inr [tx_Inr]: "map_error h m s = Inr r \<longleftrightarrow> m s = Inr r"
  by (auto simp: map_error_def split: sum.splits)

lemmas [tx_Inr] = bind_tx_Inr

section \<open>Table statements\<close>

definition sql_update :: "('r \<Rightarrow> bool) \<Rightarrow> ('r \<Rightarrow> 'r) \<Rightarrow> 'r list \<Rightarrow> 'r list" where
  "sql_update p f rows = map (\<lambda>r. if p r then f r else r) rows"

definition sql_returning :: "('r \<Rightarrow> bool) \<Rightarrow> ('r \<Rightarrow> 'r) \<Rightarrow> 'r list \<Rightarrow> 'r list" where
  "sql_returning p f rows = map f (filter p rows)"

definition find_row :: "('r \<Rightarrow> bool) \<Rightarrow> 'r list \<Rightarrow> 'r option" where
  "find_row p rows = (case filter p rows of [] \<Rightarrow> None | r # _ \<Rightarrow> Some r)"

lemma find_row_Some: "find_row p rows = Some r \<Longrightarrow> r \<in> set rows \<and> p r"
proof -
  assume "find_row p rows = Some r"
  then have "r \<in> set (filter p rows)"
    by (cases "filter p rows") (auto simp: find_row_def)
  then show ?thesis by simp
qed

lemma find_row_None: "find_row p rows = None \<longleftrightarrow> (\<forall>r \<in> set rows. \<not> p r)"
proof -
  have "find_row p rows = None \<longleftrightarrow> filter p rows = []"
    by (simp add: find_row_def split: list.splits)
  then show ?thesis by (simp add: filter_empty_conv)
qed

lemma find_row_Cons: "find_row p (r # rows) = (if p r then Some r else find_row p rows)"
  by (simp add: find_row_def)

lemma find_row_Nil [simp]: "find_row p [] = None"
  by (simp add: find_row_def)

lemma find_row_append:
  "find_row p (xs @ ys) = (case find_row p xs of None \<Rightarrow> find_row p ys | Some r \<Rightarrow> Some r)"
  by (induction xs) (auto simp: find_row_Cons)

text \<open>A predicate that a unique key makes hold of at most one row finds that row.\<close>

lemma find_row_unique:
  assumes "distinct (map key rows)" and "r \<in> set rows" and "p r"
    and "\<And>r'. r' \<in> set rows \<Longrightarrow> p r' \<Longrightarrow> key r' = key r"
  shows "find_row p rows = Some r"
proof -
  obtain r' where r': "find_row p rows = Some r'"
    using assms(2,3) by (cases "find_row p rows") (auto simp: find_row_None)
  then have mem: "r' \<in> set rows" and "p r'" by (auto dest: find_row_Some)
  then have "key r' = key r" by (rule assms(4))
  moreover from assms(1) have "inj_on key (set rows)" by (simp add: distinct_map)
  ultimately have "r' = r" using mem assms(2) by (simp add: inj_on_def)
  with r' show ?thesis by simp
qed

lemma find_row_update:
  assumes "\<And>r. p r \<Longrightarrow> q (f r) = q r"
  shows "find_row q (sql_update p f rows) =
    map_option (\<lambda>r. if p r then f r else r) (find_row q rows)"
proof (induction rows)
  case (Cons r rows)
  have "q (if p r then f r else r) = q r" using assms [of r] by simp
  with Cons show ?case by (simp add: sql_update_def find_row_Cons)
qed (simp add: sql_update_def)

lemma find_row_update_same:
  assumes "\<And>r. p r \<Longrightarrow> p (f r)"
  shows "find_row p (sql_update p f rows) = map_option f (find_row p rows)"
proof -
  have "find_row p (sql_update p f rows) = map_option (\<lambda>r. if p r then f r else r) (find_row p rows)"
    by (rule find_row_update) (simp add: assms)
  also have "\<dots> = map_option f (find_row p rows)"
    by (cases "find_row p rows") (auto dest: find_row_Some)
  finally show ?thesis .
qed

lemma sql_update_Nil [simp]: "sql_update p f [] = []"
  by (simp add: sql_update_def)

lemma sql_update_append: "sql_update p f (xs @ ys) = sql_update p f xs @ sql_update p f ys"
  by (simp add: sql_update_def)

lemma length_sql_update [simp]: "length (sql_update p f rows) = length rows"
  by (simp add: sql_update_def)

lemma sql_update_cong_key:
  "(\<And>r. r \<in> set rows \<Longrightarrow> p r \<Longrightarrow> key (f r) = key r) \<Longrightarrow>
   map key (sql_update p f rows) = map key rows"
  by (auto simp: sql_update_def)

lemma map_eq_image: "map f xs = map g ys \<Longrightarrow> f ` set xs = g ` set ys"
  by (drule arg_cong [where f = set]) simp

lemma set_sql_update:
  "set (sql_update p f rows) = f ` {r \<in> set rows. p r} \<union> {r \<in> set rows. \<not> p r}"
  by (auto simp: sql_update_def)

lemma set_update_one: "c \<in> set rows \<Longrightarrow> set (sql_update (\<lambda>d. d = c) f rows) = insert (f c) (set rows - {c})"
  by (auto simp: set_sql_update)

lemma sql_update_none: "(\<And>r. r \<in> set rows \<Longrightarrow> \<not> p r) \<Longrightarrow> sql_update p f rows = rows"
  by (induction rows) (auto simp: sql_update_def)

lemma filter_sql_update_other:
  "(\<And>r. p r \<Longrightarrow> \<not> q r) \<Longrightarrow> (\<And>r. p r \<Longrightarrow> \<not> q (f r)) \<Longrightarrow>
   filter q (sql_update p f rows) = filter q rows"
  by (induction rows) (auto simp: sql_update_def)

lemma sql_update_nth:
  "i < length rows \<Longrightarrow> sql_update p f rows ! i = (if p (rows ! i) then f (rows ! i) else rows ! i)"
  by (simp add: sql_update_def)

lemma sql_returning_Nil: "sql_returning p f rows = [] \<longleftrightarrow> (\<forall>r \<in> set rows. \<not> p r)"
  by (auto simp: sql_returning_def filter_empty_conv)

lemma sql_returning_find:
  "find_row p rows = Some r \<Longrightarrow> \<exists>rs. sql_returning p f rows = f r # rs"
  by (cases "filter p rows") (auto simp: find_row_def sql_returning_def)

lemma sql_returning_find_None: "find_row p rows = None \<longleftrightarrow> sql_returning p f rows = []"
  by (simp add: find_row_None sql_returning_Nil)

lemma sql_returning_mem: "r' \<in> set (sql_returning p f rows) \<Longrightarrow> \<exists>r \<in> set rows. p r \<and> r' = f r"
  by (auto simp: sql_returning_def)

section \<open>Relations respected by a transaction body\<close>

definition moves :: "('s \<Rightarrow> 's \<Rightarrow> bool) \<Rightarrow> ('e, 'a, 's) tx \<Rightarrow> bool" where
  "moves R m \<longleftrightarrow> (\<forall>s a s'. m s = Inr (a, s') \<longrightarrow> R s s')"

lemma withinD: "moves R m \<Longrightarrow> m s = Inr (a, s') \<Longrightarrow> R s s'"
  by (auto simp: moves_def)

lemma withinI: "(\<And>s a s'. m s = Inr (a, s') \<Longrightarrow> R s s') \<Longrightarrow> moves R m"
  by (auto simp: moves_def)

locale tx_preorder =
  fixes R :: "'s \<Rightarrow> 's \<Rightarrow> bool"
  assumes R_refl: "R s s"
    and R_trans: "R s t \<Longrightarrow> R t u \<Longrightarrow> R s u"
begin

lemma within_ret [within_intros]: "moves R (ret a)"
  by (auto simp: moves_def R_refl)

lemma within_throw [within_intros]: "moves R (throw e)"
  by (auto simp: moves_def)

lemma within_query [within_intros]: "moves R (query g)"
  by (auto simp: moves_def R_refl)

lemma within_bind [within_intros]:
  assumes "moves R m" and "\<And>a. moves R (f a)"
  shows "moves R (bind_tx m f)"
  using assms by (fastforce simp: moves_def bind_tx_Inr intro: R_trans)

lemma within_wait [within_intros]: "(\<And>s. R s (g s)) \<Longrightarrow> moves R (wait_for g)"
  by (auto simp: moves_def wait_for_def)

lemma within_map_error [within_intros]: "moves R m \<Longrightarrow> moves R (map_error h m)"
  by (auto simp: moves_def map_error_def split: sum.splits)

lemma within_if [within_intros]:
  "(b \<Longrightarrow> moves R m) \<Longrightarrow> (\<not> b \<Longrightarrow> moves R n) \<Longrightarrow> moves R (if b then m else n)"
  by simp

lemma within_case_option [within_intros]:
  "(x = None \<Longrightarrow> moves R m) \<Longrightarrow> (\<And>a. x = Some a \<Longrightarrow> moves R (f a)) \<Longrightarrow>
   moves R (case x of None \<Rightarrow> m | Some a \<Rightarrow> f a)"
  by (cases x) simp_all

lemma within_case_list [within_intros]:
  "(x = [] \<Longrightarrow> moves R m) \<Longrightarrow> (\<And>a as. x = a # as \<Longrightarrow> moves R (f a as)) \<Longrightarrow>
   moves R (case x of [] \<Rightarrow> m | a # as \<Rightarrow> f a as)"
  by (cases x) simp_all

lemma within_case_prod [within_intros]:
  "(\<And>a b. x = (a, b) \<Longrightarrow> moves R (f a b)) \<Longrightarrow> moves R (case x of (a, b) \<Rightarrow> f a b)"
  by (cases x) simp

lemma within_let [within_intros]: "moves R (f a) \<Longrightarrow> moves R (let x = a in f x)"
  by simp

lemma within_for_each [within_intros]:
  "(\<And>x. x \<in> set xs \<Longrightarrow> moves R (body x)) \<Longrightarrow> moves R (for_each xs body)"
  by (induction xs) (auto intro!: within_ret within_bind)

text \<open>A transaction that commits or rolls back moves the state by the relation.\<close>

lemma run_within: "moves R m \<Longrightarrow> R s (snd (run_tx m s))"
  by (auto simp: run_tx_def moves_def R_refl split: sum.splits)

end

section \<open>Triples: what a body returns and which errors it throws\<close>

definition spec ::
  "('s \<Rightarrow> bool) \<Rightarrow> ('e, 'a, 's) tx \<Rightarrow> ('a \<Rightarrow> 's \<Rightarrow> bool) \<Rightarrow> ('e \<Rightarrow> bool) \<Rightarrow> bool" where
  "spec P m Q E \<longleftrightarrow>
     (\<forall>s. P s \<longrightarrow> (case m s of Inl e \<Rightarrow> E e | Inr (a, s') \<Rightarrow> Q a s'))"

named_theorems spec_intros \<open>rules for triples\<close>

lemma specI:
  "(\<And>s e. P s \<Longrightarrow> m s = Inl e \<Longrightarrow> E e) \<Longrightarrow> (\<And>s a s'. P s \<Longrightarrow> m s = Inr (a, s') \<Longrightarrow> Q a s') \<Longrightarrow>
   spec P m Q E"
  by (auto simp: spec_def split: sum.splits)

lemma spec_Inl: "spec P m Q E \<Longrightarrow> P s \<Longrightarrow> m s = Inl e \<Longrightarrow> E e"
  by (force simp: spec_def)

lemma spec_Inr: "spec P m Q E \<Longrightarrow> P s \<Longrightarrow> m s = Inr (a, s') \<Longrightarrow> Q a s'"
  by (force simp: spec_def)

lemma spec_pre: "spec P' m Q E \<Longrightarrow> (\<And>s. P s \<Longrightarrow> P' s) \<Longrightarrow> spec P m Q E"
  by (simp add: spec_def)

lemma spec_weaken:
  "spec P m Q' E' \<Longrightarrow> (\<And>a s. Q' a s \<Longrightarrow> Q a s) \<Longrightarrow> (\<And>e. E' e \<Longrightarrow> E e) \<Longrightarrow> spec P m Q E"
  by (fastforce simp: spec_def split: sum.splits)

lemma spec_bind: "spec P m Q' E \<Longrightarrow> (\<And>a. spec (Q' a) (f a) Q E) \<Longrightarrow> spec P (bind_tx m f) Q E"
  by (fastforce simp: spec_def bind_tx_def split: sum.splits)

lemma spec_ret [spec_intros]: "(\<And>s. P s \<Longrightarrow> Q a s) \<Longrightarrow> spec P (ret a) Q E"
  by (simp add: spec_def ret_def)

lemma spec_throw [spec_intros]: "(\<And>s. P s \<Longrightarrow> E e) \<Longrightarrow> spec P (throw e) Q E"
  by (auto simp: spec_def throw_def)

lemma spec_query: "spec P (query g) (\<lambda>a s. P s \<and> a = g s) E"
  by (simp add: spec_def query_def)

lemma spec_wait: "(\<And>s. P s \<Longrightarrow> P' (g s)) \<Longrightarrow> spec P (wait_for g) (\<lambda>_. P') E"
  by (simp add: spec_def wait_for_def)

lemma spec_map_error:
  "spec P m Q E' \<Longrightarrow> (\<And>e. E' e \<Longrightarrow> E (h e)) \<Longrightarrow> spec P (map_error h m) Q E"
  by (fastforce simp: spec_def map_error_def split: sum.splits)

lemma spec_if [spec_intros]:
  "(b \<Longrightarrow> spec P m Q E) \<Longrightarrow> (\<not> b \<Longrightarrow> spec P n Q E) \<Longrightarrow> spec P (if b then m else n) Q E"
  by simp

lemma spec_case_option [spec_intros]:
  "(x = None \<Longrightarrow> spec P m Q E) \<Longrightarrow> (\<And>a. x = Some a \<Longrightarrow> spec P (f a) Q E) \<Longrightarrow>
   spec P (case x of None \<Rightarrow> m | Some a \<Rightarrow> f a) Q E"
  by (cases x) simp_all

lemma spec_case_list [spec_intros]:
  "(x = [] \<Longrightarrow> spec P m Q E) \<Longrightarrow> (\<And>a as. x = a # as \<Longrightarrow> spec P (f a as) Q E) \<Longrightarrow>
   spec P (case x of [] \<Rightarrow> m | a # as \<Rightarrow> f a as) Q E"
  by (cases x) simp_all

text \<open>A fact that a body keeps, and the errors it can throw, give its triple.\<close>

lemma spec_within:
  "moves (\<lambda>s s'. P s \<longrightarrow> P s') m \<Longrightarrow> (\<And>s e. P s \<Longrightarrow> m s = Inl e \<Longrightarrow> E e) \<Longrightarrow>
   spec P m (\<lambda>_. P) E"
  by (rule specI) (auto simp: moves_def)

lemma spec_false: "(\<And>s. \<not> P s) \<Longrightarrow> spec P m Q E"
  by (simp add: spec_def)

text \<open>What it takes for a body to throw.\<close>

named_theorems tx_Inl \<open>what it takes for a body to throw\<close>

lemma bind_tx_Inl [tx_Inl]:
  "bind_tx m f s = Inl e \<longleftrightarrow> m s = Inl e \<or> (\<exists>a s'. m s = Inr (a, s') \<and> f a s' = Inl e)"
  by (auto simp: bind_tx_def split: sum.splits prod.splits)

lemma basic_Inl [tx_Inl]:
  "ret a s \<noteq> Inl e" "throw e' s = Inl e \<longleftrightarrow> e' = e" "query g s \<noteq> Inl e" "wait_for h s \<noteq> Inl e"
  by (auto simp: ret_def throw_def query_def wait_for_def)

lemma map_error_Inl [tx_Inl]: "map_error h m s = Inl e \<longleftrightarrow> (\<exists>e'. m s = Inl e' \<and> e = h e')"
  by (auto simp: map_error_def split: sum.splits)

lemma case_list_Inl [tx_Inl]:
  "(case rows of [] \<Rightarrow> m | x # xs \<Rightarrow> f x xs) s = Inl e \<longleftrightarrow>
   (rows = [] \<and> m s = Inl e) \<or> (\<exists>x xs. rows = x # xs \<and> f x xs s = Inl e)"
  by (cases rows) auto

lemma case_option_Inl [tx_Inl]:
  "(case x of None \<Rightarrow> m | Some a \<Rightarrow> f a) s = Inl e \<longleftrightarrow>
   (x = None \<and> m s = Inl e) \<or> (\<exists>a. x = Some a \<and> f a s = Inl e)"
  by (cases x) auto

lemma if_tx_Inl [tx_Inl]:
  "(if b then m else n) s = Inl e \<longleftrightarrow> (b \<and> m s = Inl e) \<or> (\<not> b \<and> n s = Inl e)"
  by simp

end
