(* ===== verification/CommitmentFsm.thy ===== *)
theory CommitmentFsm
  imports Prelude
begin

text \<open>
  The commitment lifecycle of \<open>packages/schema/src/commitment.ts\<close>: four states, the transition
  table every service consults through \<open>canTransition\<close>, and the database trigger generated from
  the same table (\<open>packages/db/src/fsm-trigger.ts\<close>).
\<close>

datatype commitment_status = StOpen | StWaiting | StResolved | StExpired

fun COMMITMENT_TRANSITIONS :: "commitment_status \<Rightarrow> commitment_status list" where
  "COMMITMENT_TRANSITIONS StOpen = [StWaiting, StResolved, StExpired]"
| "COMMITMENT_TRANSITIONS StWaiting = [StOpen, StResolved, StExpired]"
| "COMMITMENT_TRANSITIONS StResolved = [StOpen]"
| "COMMITMENT_TRANSITIONS StExpired = [StOpen]"

definition canTransition :: "commitment_status \<Rightarrow> commitment_status \<Rightarrow> bool" where
  "canTransition frm to \<longleftrightarrow> to \<in> set (COMMITMENT_TRANSITIONS frm)"

text \<open>
  The \<open>BEFORE UPDATE OF status\<close> trigger: a row that keeps its status passes, any other change
  must be an edge of the table. \<open>False\<close> is the raised check violation.
\<close>

definition enforce_commitment_fsm :: "commitment_status \<Rightarrow> commitment_status \<Rightarrow> bool" where
  "enforce_commitment_fsm old new \<longleftrightarrow> (if old = new then True else new \<in> set (COMMITMENT_TRANSITIONS old))"

lemma canTransition_simps [simp]:
  "canTransition StOpen to \<longleftrightarrow> to \<noteq> StOpen"
  "canTransition StWaiting to \<longleftrightarrow> to \<noteq> StWaiting"
  "canTransition StResolved to \<longleftrightarrow> to = StOpen"
  "canTransition StExpired to \<longleftrightarrow> to = StOpen"
  by (cases to; simp add: canTransition_def)+

lemma canTransition_irrefl: "\<not> canTransition s s"
  by (cases s) simp_all

lemma enforce_commitment_fsm_iff:
  "enforce_commitment_fsm old new \<longleftrightarrow> old = new \<or> canTransition old new"
  by (auto simp: enforce_commitment_fsm_def canTransition_def)

lemma canTransition_to_resolved: "canTransition s StResolved \<longleftrightarrow> s = StOpen \<or> s = StWaiting"
  by (cases s) simp_all

text \<open>No state is terminal: every state can get back to \<open>open\<close>.\<close>

lemma canTransition_to_open: "s \<noteq> StOpen \<Longrightarrow> canTransition s StOpen"
  by (cases s) simp_all

end
