(* ===== verification/Store.thy ===== *)
theory Store
  imports CommitmentFsm
begin

text \<open>
  The tables of \<open>packages/db/src/schema\<close> and the SQL statements the write paths issue against
  them. A table is the list of its rows in insertion order. Every row carries its tenant
  (\<open>user_id\<close>) and every statement is scoped to one tenant, as row-level security and the
  \<open>eq(table.userId, userId)\<close> predicates of the source scope it. A statement checks what Postgres
  checks: CHECK constraints, unique indexes, foreign keys and the commitment trigger.

  Ids stand for the server-generated \<open>uuidv7()\<close> keys: a counter that never repeats.
  SQL instants (\<open>timestamptz\<close>) are microseconds; JavaScript dates are milliseconds.

  An embedding and a commitment's \<open>recurrence\<close> are opaque values kept as text: the vector literal and
  the JSON document. An imported event's payload is opaque too.
\<close>

type_synonym uid = nat
type_synonym rid = nat
type_synonym instant = int
type_synonym jsdate = int

definition sql_of_date :: "jsdate \<Rightarrow> instant" where
  "sql_of_date d = 1000 * d"

text \<open>A timestamp read back into a JavaScript \<open>Date\<close> loses its microseconds.\<close>

definition date_of_sql :: "instant \<Rightarrow> jsdate" where
  "date_of_sql t = t div 1000"

section \<open>Enumerations (packages/schema/src/memory.ts)\<close>

datatype memory_type = Decision | Commitment | Blocker | Fact | Preference | Pattern | Note | Event

datatype memory_status = Active | Archived

datatype edge_type = Supersedes | Updates | Extends | Derives

datatype event_kind = EvCreate | EvRevise | EvSupersede | EvResolve | EvUnresolve | EvArchive
  | EvImport | EvEmbedFailed | EvReaffirm

datatype actor_kind = UserDashboard | UserApi | UserMcp | Worker | Importer | SystemActor

datatype session_source = Startup | Resume

datatype triage_status = TrIdle | TrPending | TrCompleted | TrExpired | TrOverflowed

section \<open>Rows\<close>

record memory =
  mem_id :: rid
  mem_user :: uid
  mem_type :: memory_type
  mem_topic :: string
  mem_content :: string
  mem_scope :: string
  mem_project :: "string option"
  mem_status :: memory_status
  mem_tags :: "string list"
  mem_hash :: string
  mem_valid_from :: instant
  mem_valid_to :: "instant option"
  mem_recorded_at :: instant
  mem_created_at :: instant
  mem_updated_at :: instant
  mem_embedding :: "string option"
  mem_last_reviewed :: "instant option"

record memory_edge =
  edge_id :: rid
  edge_user :: uid
  edge_from :: rid
  edge_to :: rid
  edge_kind :: edge_type
  edge_created_by :: actor_kind
  edge_created_at :: instant

text \<open>Filing metadata as the move event records it: scope, project and the number of tags.\<close>

record filing =
  fil_scope :: string
  fil_project :: "string option"
  fil_tag_count :: nat

datatype disposition_kind = DispArchive | DispReaffirm

datatype payload = SessionPayload rid | MovePayload "rid option" filing filing
  | DispositionPayload "rid option" disposition_kind | ReasonPayload string | SourcePayload string

record memory_event =
  ev_id :: rid
  ev_user :: uid
  ev_memory :: rid
  ev_kind :: event_kind
  ev_actor :: actor_kind
  ev_payload :: "payload option"
  ev_created_at :: instant

record commitment =
  com_id :: rid
  com_user :: uid
  com_memory :: rid
  com_status :: commitment_status
  com_owner :: "string option"
  com_due_at :: "instant option"
  com_recurrence :: "string option"
  com_next_surfacing_at :: "instant option"
  com_resolved_at :: "instant option"
  com_last_resolution_reason :: "string option"
  com_created_at :: instant
  com_updated_at :: instant

record fact =
  fact_id :: rid
  fact_user :: uid
  fact_memory :: rid
  fact_subject :: string
  fact_predicate :: string
  fact_value :: string
  fact_confidence :: "int option"
  fact_valid_from :: instant
  fact_valid_to :: "instant option"
  fact_recorded_at :: instant

datatype selector = SelAll | SelScope string | SelProject string | SelScopeProject string string bool

record briefed_memory =
  bm_id :: rid
  bm_topic :: string
  bm_status :: string

datatype triage_outcome = OutCompleted | OutExpired | OutOverflowed

datatype triage_log_entry = Armed rid jsdate | Finalized rid jsdate jsdate triage_outcome

record agent_session =
  ses_id :: rid
  ses_user :: uid
  ses_agent :: string
  ses_session :: string
  ses_source :: session_source
  ses_project :: "string option"
  ses_scope :: "string option"
  ses_selector :: selector
  ses_opened_at :: jsdate
  ses_closed_at :: "jsdate option"
  ses_last_seen :: jsdate
  ses_epoch :: nat
  ses_triage_status :: triage_status
  ses_triage_attempt :: "rid option"
  ses_triage_armed_at :: "jsdate option"
  ses_attempt_log :: "triage_log_entry list"
  ses_attempt_count :: nat
  ses_triaged_events :: "rid list"
  ses_briefing_delivered :: "jsdate option"
  ses_briefed :: "briefed_memory list"
  ses_excerpt :: "string option"
  ses_needs_look :: bool
  ses_closer_failures :: nat
  ses_closer_next_attempt :: "jsdate option"

record user =
  usr_id :: uid
  usr_email :: string
  usr_password_hash :: string
  usr_verified_at :: "instant option"

record store =
  tbl_users :: "user list"
  tbl_memories :: "memory list"
  tbl_edges :: "memory_edge list"
  tbl_events :: "memory_event list"
  tbl_commitments :: "commitment list"
  tbl_facts :: "fact list"
  tbl_sessions :: "agent_session list"
  next_id :: rid

definition empty_store :: "user list \<Rightarrow> store" where
  "empty_store us = \<lparr>tbl_users = us, tbl_memories = [], tbl_edges = [], tbl_events = [],
     tbl_commitments = [], tbl_facts = [], tbl_sessions = [], next_id = 0\<rparr>"

section \<open>Errors\<close>

datatype not_found_key = KeyCommitment | KeyMemory

text \<open>
  First the driver's errors (a unique violation, a check violation, a foreign key violation, the
  trigger's raise with the pair in its message), then the typed errors of the source's classes.
\<close>

datatype err =
    UniqueViolation
  | CheckViolation
  | ForeignKeyViolation
  | FsmViolation commitment_status commitment_status
  | CommitmentExists rid
  | NotCommitmentMemory rid
  | CommitmentNotFound rid not_found_key
  | CommitmentStateChanged rid commitment_status
  | SessionEpochFenced rid nat
  | IllegalCommitmentTransition commitment_status commitment_status
  | InvalidCommitmentTransition commitment_status commitment_status
  | ResolveReasonNotSupported rid
  | DuplicateMemory string
  | ResourceLimitExceeded
  | PredecessorNotFound rid
  | PredecessorAlreadySuperseded rid
  | BlockerNotFound rid
  | EdgeConflict rid rid edge_type
  | UnknownSessionRun rid
  | AgentSessionNotFound string string
  | AgentSessionParamsConflict string string
  | AccountDeleted
  | NoRowReturned
  | TriageConflict string string rid
  | BudgetExceeded string
  | CloserVerdictError nat
  | NotImplemented
  | GatewayFailed string
  | ProposalNotFound rid
  | Diverged
  | ClientLimitExceeded
  | DuplicateEmail
  | EmailNotVerified
  | InvalidCurrentPassword
  | InvalidResetToken
  | InvalidVerificationToken
  | InvalidGrant
  | InvalidTarget
  | InvalidToken
  | MalformedHash
  | InvalidUrl
  | InvalidCursor
  | PasswordBreached
  | ValidationError
  | ActiveMemoryNotFound rid
  | MemoryNotFound rid
  | ImportTargetNotFound rid
  | EpisodicSupersession rid memory_type
  | SuccessorNotLive rid rid
  | FactProposalSourceNotLive rid
  | RetentionProposalNotApplicable rid string
  | BadProbabilityKey
  | ScopeNameConflict string
  | ScopeNotFound string
  | UnscopedWrite "string list"
  | UnscopedRetrieval "string list"
  | AccessDenied bool
  | UnregisteredOperation string
  | StoreUnavailable
  | InvalidEmbedding nat
  | CursorQueryMismatch

type_synonym 'a stm = "(err, 'a, store) tx"

text \<open>\<open>withTenant(userId, fn)\<close>: run the body in one transaction.\<close>

definition withTenant :: "uid \<Rightarrow> 'a stm \<Rightarrow> store \<Rightarrow> (err + 'a) \<times> store" where
  "withTenant u fn s = run_tx fn s"

lemma withTenant_error: "withTenant u m s = (Inl e, s') \<Longrightarrow> s' = s"
  by (simp add: withTenant_def run_tx_error)

lemma withTenant_ok: "withTenant u m s = (Inr a, s') \<longleftrightarrow> m s = Inr (a, s')"
  by (simp add: withTenant_def run_tx_ok)

section \<open>Constraints\<close>

definition mem_live :: "memory \<Rightarrow> bool" where
  "mem_live m \<longleftrightarrow> mem_valid_to m = None"

definition live_hashes :: "memory list \<Rightarrow> (uid \<times> string) list" where
  "live_hashes ms = map (\<lambda>m. (mem_user m, mem_hash m)) (filter mem_live ms)"

definition mem_keys :: "memory list \<Rightarrow> (uid \<times> rid) set" where
  "mem_keys ms = set (map (\<lambda>m. (mem_user m, mem_id m)) ms)"

definition window_ok :: "instant \<Rightarrow> instant option \<Rightarrow> bool" where
  "window_ok frm to = (case to of None \<Rightarrow> True | Some t \<Rightarrow> frm \<le> t)"

definition edge_key :: "memory_edge \<Rightarrow> uid \<times> rid \<times> rid \<times> edge_type" where
  "edge_key e = (edge_user e, edge_from e, edge_to e, edge_kind e)"

definition com_key :: "commitment \<Rightarrow> uid \<times> rid" where
  "com_key c = (com_user c, com_memory c)"

definition ses_key :: "agent_session \<Rightarrow> uid \<times> string \<times> string" where
  "ses_key x = (ses_user x, ses_agent x, ses_session x)"

definition ids_ok :: "('r \<Rightarrow> rid) \<Rightarrow> 'r list \<Rightarrow> rid \<Rightarrow> bool" where
  "ids_ok getid rows n \<longleftrightarrow> distinct (map getid rows) \<and> (\<forall>r \<in> set rows. getid r < n)"

definition memories_ok :: "store \<Rightarrow> bool" where
  "memories_ok s \<longleftrightarrow>
     ids_ok mem_id (tbl_memories s) (next_id s) \<and>
     distinct (live_hashes (tbl_memories s)) \<and>
     (\<forall>m \<in> set (tbl_memories s). window_ok (mem_valid_from m) (mem_valid_to m))"

definition commitments_ok :: "store \<Rightarrow> bool" where
  "commitments_ok s \<longleftrightarrow>
     ids_ok com_id (tbl_commitments s) (next_id s) \<and>
     distinct (map com_key (tbl_commitments s)) \<and>
     com_key ` set (tbl_commitments s) \<subseteq> mem_keys (tbl_memories s)"

definition edges_ok :: "store \<Rightarrow> bool" where
  "edges_ok s \<longleftrightarrow>
     ids_ok edge_id (tbl_edges s) (next_id s) \<and>
     distinct (map edge_key (tbl_edges s)) \<and>
     (\<forall>e \<in> set (tbl_edges s). edge_from e \<noteq> edge_to e \<and>
        (edge_user e, edge_from e) \<in> mem_keys (tbl_memories s) \<and>
        (edge_user e, edge_to e) \<in> mem_keys (tbl_memories s))"

definition events_ok :: "store \<Rightarrow> bool" where
  "events_ok s \<longleftrightarrow>
     ids_ok ev_id (tbl_events s) (next_id s) \<and>
     (\<forall>e \<in> set (tbl_events s). (ev_user e, ev_memory e) \<in> mem_keys (tbl_memories s))"

definition facts_ok :: "store \<Rightarrow> bool" where
  "facts_ok s \<longleftrightarrow>
     ids_ok fact_id (tbl_facts s) (next_id s) \<and>
     (\<forall>f \<in> set (tbl_facts s). window_ok (fact_valid_from f) (fact_valid_to f) \<and>
        (fact_user f, fact_memory f) \<in> mem_keys (tbl_memories s))"

definition sessions_ok :: "store \<Rightarrow> bool" where
  "sessions_ok s \<longleftrightarrow>
     ids_ok ses_id (tbl_sessions s) (next_id s) \<and>
     distinct (map ses_key (tbl_sessions s))"

definition constraints :: "store \<Rightarrow> bool" where
  "constraints s \<longleftrightarrow> memories_ok s \<and> commitments_ok s \<and> edges_ok s \<and> events_ok s \<and> facts_ok s \<and>
     sessions_ok s"

lemmas table_ok_defs =
  memories_ok_def commitments_ok_def edges_ok_def events_ok_def facts_ok_def sessions_ok_def

section \<open>Statements\<close>

text \<open>
  An INSERT takes the row without its id, checks it against the table and returns the new id.
\<close>

definition insert_memory :: "memory \<Rightarrow> rid stm" where
  "insert_memory row = (\<lambda>s.
     let m = row\<lparr>mem_id := next_id s\<rparr>; rows = tbl_memories s @ [m] in
     if \<not> window_ok (mem_valid_from m) (mem_valid_to m) then Inl CheckViolation
     else if \<not> distinct (live_hashes rows) then Inl UniqueViolation
     else Inr (mem_id m, s\<lparr>tbl_memories := rows, next_id := Suc (next_id s)\<rparr>))"

definition insert_edge_row :: "memory_edge \<Rightarrow> rid stm" where
  "insert_edge_row row = (\<lambda>s.
     let e = row\<lparr>edge_id := next_id s\<rparr>; rows = tbl_edges s @ [e] in
     if edge_from e = edge_to e then Inl CheckViolation
     else if edge_key e \<in> set (map edge_key (tbl_edges s)) then Inl UniqueViolation
     else if (edge_user e, edge_from e) \<notin> mem_keys (tbl_memories s)
       \<or> (edge_user e, edge_to e) \<notin> mem_keys (tbl_memories s) then Inl ForeignKeyViolation
     else Inr (edge_id e, s\<lparr>tbl_edges := rows, next_id := Suc (next_id s)\<rparr>))"

definition insert_event :: "memory_event \<Rightarrow> rid stm" where
  "insert_event row = (\<lambda>s.
     let e = row\<lparr>ev_id := next_id s\<rparr> in
     if (ev_user e, ev_memory e) \<notin> mem_keys (tbl_memories s) then Inl ForeignKeyViolation
     else Inr (ev_id e, s\<lparr>tbl_events := tbl_events s @ [e], next_id := Suc (next_id s)\<rparr>))"

definition insert_commitment :: "commitment \<Rightarrow> rid stm" where
  "insert_commitment row = (\<lambda>s.
     let c = row\<lparr>com_id := next_id s\<rparr> in
     if com_key c \<in> set (map com_key (tbl_commitments s)) then Inl UniqueViolation
     else if com_key c \<notin> mem_keys (tbl_memories s) then Inl ForeignKeyViolation
     else Inr (com_id c, s\<lparr>tbl_commitments := tbl_commitments s @ [c], next_id := Suc (next_id s)\<rparr>))"

definition insert_fact_row :: "fact \<Rightarrow> rid stm" where
  "insert_fact_row row = (\<lambda>s.
     let f = row\<lparr>fact_id := next_id s\<rparr> in
     if \<not> window_ok (fact_valid_from f) (fact_valid_to f) then Inl CheckViolation
     else if (fact_user f, fact_memory f) \<notin> mem_keys (tbl_memories s) then Inl ForeignKeyViolation
     else Inr (fact_id f, s\<lparr>tbl_facts := tbl_facts s @ [f], next_id := Suc (next_id s)\<rparr>))"

definition insert_session_row :: "agent_session \<Rightarrow> agent_session stm" where
  "insert_session_row row = (\<lambda>s.
     let x = row\<lparr>ses_id := next_id s\<rparr> in
     if ses_key x \<in> set (map ses_key (tbl_sessions s)) then Inl UniqueViolation
     else Inr (x, s\<lparr>tbl_sessions := tbl_sessions s @ [x], next_id := Suc (next_id s)\<rparr>))"

text \<open>
  An UPDATE scoped to tenant \<open>u\<close> with the rest of its WHERE clause \<open>p\<close> and its SET list \<open>f\<close>
  returns the rows it changed (\<open>RETURNING\<close>).
\<close>

definition update_memories :: "uid \<Rightarrow> (memory \<Rightarrow> bool) \<Rightarrow> (memory \<Rightarrow> memory) \<Rightarrow> memory list stm" where
  "update_memories u p f = (\<lambda>s.
     let q = (\<lambda>m. mem_user m = u \<and> p m); rows = sql_update q f (tbl_memories s);
         changed = sql_returning q f (tbl_memories s) in
     if \<not> (\<forall>m \<in> set changed. window_ok (mem_valid_from m) (mem_valid_to m)) then Inl CheckViolation
     else if \<not> distinct (live_hashes rows) then Inl UniqueViolation
     else Inr (changed, s\<lparr>tbl_memories := rows\<rparr>))"

definition update_commitments ::
  "uid \<Rightarrow> (commitment \<Rightarrow> bool) \<Rightarrow> (commitment \<Rightarrow> commitment) \<Rightarrow> commitment list stm" where
  "update_commitments u p f = (\<lambda>s.
     let q = (\<lambda>c. com_user c = u \<and> p c); rows = sql_update q f (tbl_commitments s) in
     case find_row (\<lambda>c. q c \<and> \<not> enforce_commitment_fsm (com_status c) (com_status (f c)))
            (tbl_commitments s) of
       Some c \<Rightarrow> Inl (FsmViolation (com_status c) (com_status (f c)))
     | None \<Rightarrow>
         if \<not> distinct (map com_key rows) then Inl UniqueViolation
         else if \<not> com_key ` set rows \<subseteq> mem_keys (tbl_memories s) then Inl ForeignKeyViolation
         else Inr (sql_returning q f (tbl_commitments s), s\<lparr>tbl_commitments := rows\<rparr>))"

definition update_facts :: "uid \<Rightarrow> (fact \<Rightarrow> bool) \<Rightarrow> (fact \<Rightarrow> fact) \<Rightarrow> fact list stm" where
  "update_facts u p f = (\<lambda>s.
     let q = (\<lambda>x. fact_user x = u \<and> p x); rows = sql_update q f (tbl_facts s);
         changed = sql_returning q f (tbl_facts s) in
     if \<not> (\<forall>x \<in> set changed. window_ok (fact_valid_from x) (fact_valid_to x)) then Inl CheckViolation
     else Inr (changed, s\<lparr>tbl_facts := rows\<rparr>))"

definition update_sessions ::
  "uid \<Rightarrow> (agent_session \<Rightarrow> bool) \<Rightarrow> (agent_session \<Rightarrow> agent_session) \<Rightarrow> agent_session list stm" where
  "update_sessions u p f = (\<lambda>s.
     let q = (\<lambda>x. ses_user x = u \<and> p x) in
     Inr (sql_returning q f (tbl_sessions s), s\<lparr>tbl_sessions := sql_update q f (tbl_sessions s)\<rparr>))"

text \<open>A SELECT of at most one row, scoped to tenant \<open>u\<close>.\<close>

definition select_memory :: "uid \<Rightarrow> (memory \<Rightarrow> bool) \<Rightarrow> memory option stm" where
  "select_memory u p = query (\<lambda>s. find_row (\<lambda>m. mem_user m = u \<and> p m) (tbl_memories s))"

definition select_commitment :: "uid \<Rightarrow> (commitment \<Rightarrow> bool) \<Rightarrow> commitment option stm" where
  "select_commitment u p = query (\<lambda>s. find_row (\<lambda>c. com_user c = u \<and> p c) (tbl_commitments s))"

definition select_session :: "uid \<Rightarrow> (agent_session \<Rightarrow> bool) \<Rightarrow> agent_session option stm" where
  "select_session u p = query (\<lambda>s. find_row (\<lambda>x. ses_user x = u \<and> p x) (tbl_sessions s))"

lemmas select_defs = select_memory_def select_commitment_def select_session_def

end
