(* ===== verification/StoreContract.thy ===== *)
theory StoreContract
  imports Store
begin

text \<open>
  The contract the write paths have with the store, as a locale: a relation between stores that
  every statement scoped to one tenant respects. A transaction body built from those statements
  then respects it, whatever its branches. Three instances are proved here:
  \<^item> the table constraints are kept (\<open>inv_step\<close>);
  \<^item> the rows of every other tenant are untouched (\<open>tenant_step\<close>);
  \<^item> rows are never deleted and evolve only as append-and-supersede allows (\<open>evolves\<close>).
\<close>

section \<open>How a row may change\<close>

text \<open>
  A memory keeps its identity, its content and its knowledge times. Its validity may be closed
  once and is never reopened or moved. Filing (scope, project, tags) and status are not content.
\<close>

definition mem_step :: "memory \<Rightarrow> memory \<Rightarrow> bool" where
  "mem_step m m' \<longleftrightarrow> mem_id m' = mem_id m \<and> mem_user m' = mem_user m \<and> mem_type m' = mem_type m \<and>
     mem_topic m' = mem_topic m \<and> mem_content m' = mem_content m \<and> mem_hash m' = mem_hash m \<and>
     mem_valid_from m' = mem_valid_from m \<and> mem_recorded_at m' = mem_recorded_at m \<and>
     mem_created_at m' = mem_created_at m \<and>
     (mem_valid_to m \<noteq> None \<longrightarrow> mem_valid_to m' = mem_valid_to m)"

definition com_step :: "commitment \<Rightarrow> commitment \<Rightarrow> bool" where
  "com_step c c' \<longleftrightarrow> com_id c' = com_id c \<and> com_user c' = com_user c \<and> com_owner c' = com_owner c \<and>
     com_due_at c' = com_due_at c \<and> com_recurrence c' = com_recurrence c \<and>
     com_created_at c' = com_created_at c"

definition fact_step :: "fact \<Rightarrow> fact \<Rightarrow> bool" where
  "fact_step f f' \<longleftrightarrow> fact_id f' = fact_id f \<and> fact_user f' = fact_user f \<and>
     fact_memory f' = fact_memory f \<and> fact_subject f' = fact_subject f \<and>
     fact_predicate f' = fact_predicate f \<and> fact_value f' = fact_value f \<and>
     fact_confidence f' = fact_confidence f \<and> fact_valid_from f' = fact_valid_from f \<and>
     fact_recorded_at f' = fact_recorded_at f \<and>
     (fact_valid_to f \<noteq> None \<longrightarrow> fact_valid_to f' = fact_valid_to f)"

text \<open>
  A session keeps its identity and its open parameters. Its activation epoch never goes back
  (it is the closer's fence) and neither does its last-seen instant (the lease is a floor).
\<close>

definition ses_step :: "agent_session \<Rightarrow> agent_session \<Rightarrow> bool" where
  "ses_step x x' \<longleftrightarrow> ses_id x' = ses_id x \<and> ses_user x' = ses_user x \<and> ses_agent x' = ses_agent x \<and>
     ses_session x' = ses_session x \<and> ses_source x' = ses_source x \<and>
     ses_project x' = ses_project x \<and> ses_scope x' = ses_scope x \<and>
     ses_selector x' = ses_selector x \<and> ses_opened_at x' = ses_opened_at x \<and>
     ses_epoch x \<le> ses_epoch x' \<and> ses_last_seen x \<le> ses_last_seen x'"

lemmas row_step_defs = mem_step_def com_step_def fact_step_def ses_step_def

lemma mem_step_refl [simp]: "mem_step m m"
  and com_step_refl [simp]: "com_step c c"
  and fact_step_refl [simp]: "fact_step f f"
  and ses_step_refl [simp]: "ses_step x x"
  by (simp_all add: row_step_defs)

lemma mem_step_trans: "mem_step a b \<Longrightarrow> mem_step b c \<Longrightarrow> mem_step a c"
  by (auto simp: mem_step_def)

lemma com_step_trans: "com_step a b \<Longrightarrow> com_step b c \<Longrightarrow> com_step a c"
  by (auto simp: com_step_def)

lemma fact_step_trans: "fact_step a b \<Longrightarrow> fact_step b c \<Longrightarrow> fact_step a c"
  by (auto simp: fact_step_def)

lemma ses_step_trans: "ses_step a b \<Longrightarrow> ses_step b c \<Longrightarrow> ses_step a c"
  by (auto simp: ses_step_def)

section \<open>The contract\<close>

locale tenant_contract = tx_preorder R for R :: "store \<Rightarrow> store \<Rightarrow> bool" +
  fixes u :: uid
  assumes ins_memory: "mem_user row = u \<Longrightarrow> moves R (insert_memory row)"
    and ins_edge: "edge_user e = u \<Longrightarrow> moves R (insert_edge_row e)"
    and ins_event: "ev_user ev = u \<Longrightarrow> moves R (insert_event ev)"
    and ins_commitment: "com_user c = u \<Longrightarrow> moves R (insert_commitment c)"
    and ins_fact: "fact_user x = u \<Longrightarrow> moves R (insert_fact_row x)"
    and ins_session: "ses_user y = u \<Longrightarrow> moves R (insert_session_row y)"
    and upd_memories: "(\<And>m. pm m \<Longrightarrow> mem_step m (fm m)) \<Longrightarrow> moves R (update_memories u pm fm)"
    and upd_commitments: "(\<And>d. pc d \<Longrightarrow> com_step d (fc d)) \<Longrightarrow> moves R (update_commitments u pc fc)"
    and upd_facts: "(\<And>z. pf z \<Longrightarrow> fact_step z (ff z)) \<Longrightarrow> moves R (update_facts u pf ff)"
    and upd_sessions: "(\<And>w. ps w \<Longrightarrow> ses_step w (fs w)) \<Longrightarrow> moves R (update_sessions u ps fs)"
begin

lemma within_select [within_intros]:
  "moves R (select_memory v p)" "moves R (select_commitment v q)" "moves R (select_session v r)"
  by (simp_all add: select_defs within_query)

lemmas within_statements = ins_memory ins_edge ins_event ins_commitment ins_fact ins_session
  upd_memories upd_commitments upd_facts upd_sessions within_select
  within_ret within_throw within_query within_bind within_wait within_map_error within_if
  within_case_option within_case_list within_case_prod within_let within_for_each

lemma withTenant_within: "moves R m \<Longrightarrow> R s (snd (withTenant v m s))"
  unfolding withTenant_def by (rule run_within)

end

section \<open>Instance 1: the table constraints\<close>

lemma ids_ok_snoc: "ids_ok g rows n \<Longrightarrow> g r = n \<Longrightarrow> ids_ok g (rows @ [r]) (Suc n)"
  by (auto simp: ids_ok_def less_Suc_eq)

lemma ids_ok_mono: "ids_ok g rows n \<Longrightarrow> n \<le> n' \<Longrightarrow> ids_ok g rows n'"
  by (fastforce simp: ids_ok_def)

lemma ids_ok_update:
  assumes "ids_ok g rows n" and "\<And>r. p r \<Longrightarrow> g (f r) = g r"
  shows "ids_ok g (sql_update p f rows) n"
proof -
  have "map g (sql_update p f rows) = map g rows"
    by (rule sql_update_cong_key) (rule assms(2))
  moreover from this have "g ` set (sql_update p f rows) = g ` set rows"
    by (rule map_eq_image)
  ultimately show ?thesis
    using assms(1) unfolding ids_ok_def by (metis (no_types, lifting) image_iff)
qed

lemma mem_keys_update:
  assumes "\<And>m. p m \<Longrightarrow> mem_step m (f m)"
  shows "mem_keys (sql_update p f ms) = mem_keys ms"
proof -
  have "map (\<lambda>m. (mem_user m, mem_id m)) (sql_update p f ms) = map (\<lambda>m. (mem_user m, mem_id m)) ms"
    using assms by (intro sql_update_cong_key) (auto simp: mem_step_def)
  then show ?thesis unfolding mem_keys_def by simp
qed

lemma mem_keys_append: "mem_keys (ms @ [m]) = insert (mem_user m, mem_id m) (mem_keys ms)"
  by (auto simp: mem_keys_def)

definition inv_step :: "store \<Rightarrow> store \<Rightarrow> bool" where
  "inv_step s s' \<longleftrightarrow> (constraints s \<longrightarrow> constraints s')"

text \<open>Each table's constraints, under the change of another table.\<close>

lemma ok_frames:
  "memories_ok (s\<lparr>tbl_edges := es\<rparr>) = memories_ok s"
  "memories_ok (s\<lparr>tbl_events := vs\<rparr>) = memories_ok s"
  "memories_ok (s\<lparr>tbl_commitments := cs\<rparr>) = memories_ok s"
  "memories_ok (s\<lparr>tbl_facts := fs\<rparr>) = memories_ok s"
  "memories_ok (s\<lparr>tbl_sessions := xs\<rparr>) = memories_ok s"
  by (simp_all add: memories_ok_def)

lemma constraints_insert:
  assumes "constraints s"
  shows "window_ok (mem_valid_from m) (mem_valid_to m) \<Longrightarrow> mem_id m = next_id s \<Longrightarrow>
      distinct (live_hashes (tbl_memories s @ [m])) \<Longrightarrow>
      constraints (s\<lparr>tbl_memories := tbl_memories s @ [m], next_id := Suc (next_id s)\<rparr>)"
    and "edge_from e \<noteq> edge_to e \<Longrightarrow> edge_id e = next_id s \<Longrightarrow>
      edge_key e \<notin> set (map edge_key (tbl_edges s)) \<Longrightarrow>
      (edge_user e, edge_from e) \<in> mem_keys (tbl_memories s) \<Longrightarrow>
      (edge_user e, edge_to e) \<in> mem_keys (tbl_memories s) \<Longrightarrow>
      constraints (s\<lparr>tbl_edges := tbl_edges s @ [e], next_id := Suc (next_id s)\<rparr>)"
    and "ev_id v = next_id s \<Longrightarrow> (ev_user v, ev_memory v) \<in> mem_keys (tbl_memories s) \<Longrightarrow>
      constraints (s\<lparr>tbl_events := tbl_events s @ [v], next_id := Suc (next_id s)\<rparr>)"
    and "com_id c = next_id s \<Longrightarrow> com_key c \<notin> set (map com_key (tbl_commitments s)) \<Longrightarrow>
      com_key c \<in> mem_keys (tbl_memories s) \<Longrightarrow>
      constraints (s\<lparr>tbl_commitments := tbl_commitments s @ [c], next_id := Suc (next_id s)\<rparr>)"
    and "fact_id f = next_id s \<Longrightarrow> window_ok (fact_valid_from f) (fact_valid_to f) \<Longrightarrow>
      (fact_user f, fact_memory f) \<in> mem_keys (tbl_memories s) \<Longrightarrow>
      constraints (s\<lparr>tbl_facts := tbl_facts s @ [f], next_id := Suc (next_id s)\<rparr>)"
    and "ses_id x = next_id s \<Longrightarrow> ses_key x \<notin> set (map ses_key (tbl_sessions s)) \<Longrightarrow>
      constraints (s\<lparr>tbl_sessions := tbl_sessions s @ [x], next_id := Suc (next_id s)\<rparr>)"
  using assms
  by (auto simp: constraints_def table_ok_defs ids_ok_snoc mem_keys_append
      elim: ids_ok_mono [where n' = "Suc (next_id s)"])

lemma constraints_update:
  assumes "constraints s"
  shows "(\<And>m. p m \<Longrightarrow> mem_step m (g m)) \<Longrightarrow>
      (\<forall>m \<in> set (sql_returning p g (tbl_memories s)). window_ok (mem_valid_from m) (mem_valid_to m)) \<Longrightarrow>
      distinct (live_hashes (sql_update p g (tbl_memories s))) \<Longrightarrow>
      constraints (s\<lparr>tbl_memories := sql_update p g (tbl_memories s)\<rparr>)"
    and "(\<And>c. pc c \<Longrightarrow> com_step c (gc c)) \<Longrightarrow>
      distinct (map com_key (sql_update pc gc (tbl_commitments s))) \<Longrightarrow>
      com_key ` set (sql_update pc gc (tbl_commitments s)) \<subseteq> mem_keys (tbl_memories s) \<Longrightarrow>
      constraints (s\<lparr>tbl_commitments := sql_update pc gc (tbl_commitments s)\<rparr>)"
    and "(\<And>z. pf z \<Longrightarrow> fact_step z (gf z)) \<Longrightarrow>
      (\<forall>z \<in> set (sql_returning pf gf (tbl_facts s)). window_ok (fact_valid_from z) (fact_valid_to z)) \<Longrightarrow>
      constraints (s\<lparr>tbl_facts := sql_update pf gf (tbl_facts s)\<rparr>)"
    and "(\<And>x. px x \<Longrightarrow> ses_step x (gx x)) \<Longrightarrow>
      constraints (s\<lparr>tbl_sessions := sql_update px gx (tbl_sessions s)\<rparr>)"
proof -
  show "constraints (s\<lparr>tbl_memories := sql_update p g (tbl_memories s)\<rparr>)"
    if step: "\<And>m. p m \<Longrightarrow> mem_step m (g m)"
      and win: "\<forall>m \<in> set (sql_returning p g (tbl_memories s)). window_ok (mem_valid_from m) (mem_valid_to m)"
      and dist: "distinct (live_hashes (sql_update p g (tbl_memories s)))"
  proof -
    have "ids_ok mem_id (sql_update p g (tbl_memories s)) (next_id s)"
      using assms step
      by (intro ids_ok_update) (auto simp: constraints_def memories_ok_def mem_step_def)
    moreover have "\<forall>m \<in> set (sql_update p g (tbl_memories s)). window_ok (mem_valid_from m) (mem_valid_to m)"
      using assms win by (auto simp: constraints_def memories_ok_def set_sql_update sql_returning_def)
    ultimately show ?thesis
      using assms dist mem_keys_update [OF step] by (simp add: constraints_def table_ok_defs)
  qed
  show "constraints (s\<lparr>tbl_commitments := sql_update pc gc (tbl_commitments s)\<rparr>)"
    if step: "\<And>c. pc c \<Longrightarrow> com_step c (gc c)"
      and "distinct (map com_key (sql_update pc gc (tbl_commitments s)))"
      and "com_key ` set (sql_update pc gc (tbl_commitments s)) \<subseteq> mem_keys (tbl_memories s)"
  proof -
    have "ids_ok com_id (sql_update pc gc (tbl_commitments s)) (next_id s)"
      using assms step
      by (intro ids_ok_update) (auto simp: constraints_def commitments_ok_def com_step_def)
    with that(2,3) assms show ?thesis by (simp add: constraints_def table_ok_defs)
  qed
  show "constraints (s\<lparr>tbl_facts := sql_update pf gf (tbl_facts s)\<rparr>)"
    if step: "\<And>z. pf z \<Longrightarrow> fact_step z (gf z)"
      and win: "\<forall>z \<in> set (sql_returning pf gf (tbl_facts s)). window_ok (fact_valid_from z) (fact_valid_to z)"
  proof -
    have "ids_ok fact_id (sql_update pf gf (tbl_facts s)) (next_id s)"
      using assms step by (intro ids_ok_update) (auto simp: constraints_def facts_ok_def fact_step_def)
    moreover have "\<forall>z \<in> set (sql_update pf gf (tbl_facts s)).
        window_ok (fact_valid_from z) (fact_valid_to z) \<and>
        (fact_user z, fact_memory z) \<in> mem_keys (tbl_memories s)"
      using assms win step
      by (fastforce simp: constraints_def facts_ok_def set_sql_update sql_returning_def fact_step_def)
    ultimately show ?thesis using assms by (simp add: constraints_def table_ok_defs)
  qed
  show "constraints (s\<lparr>tbl_sessions := sql_update px gx (tbl_sessions s)\<rparr>)"
    if step: "\<And>x. px x \<Longrightarrow> ses_step x (gx x)"
  proof -
    have "map ses_key (sql_update px gx (tbl_sessions s)) = map ses_key (tbl_sessions s)"
      using step by (intro sql_update_cong_key) (auto simp: ses_step_def ses_key_def)
    moreover have "ids_ok ses_id (sql_update px gx (tbl_sessions s)) (next_id s)"
      using assms step by (intro ids_ok_update) (auto simp: constraints_def sessions_ok_def ses_step_def)
    ultimately show ?thesis using assms by (simp add: constraints_def table_ok_defs)
  qed
qed

lemmas statement_defs =
  insert_memory_def insert_edge_row_def insert_event_def insert_commitment_def insert_fact_row_def
  insert_session_row_def update_memories_def update_commitments_def update_facts_def
  update_sessions_def

interpretation inv: tenant_contract inv_step u
proof unfold_locales
  show "inv_step s s" for s by (simp add: inv_step_def)
  show "inv_step s t \<Longrightarrow> inv_step t v \<Longrightarrow> inv_step s v" for s t v by (simp add: inv_step_def)
  show "moves inv_step (insert_memory row)" for row
    by (auto simp: moves_def inv_step_def insert_memory_def Let_def split: if_splits
        intro!: constraints_insert(1))
  show "moves inv_step (insert_edge_row e)" for e
    by (auto simp: moves_def inv_step_def insert_edge_row_def Let_def split: if_splits
        intro!: constraints_insert(2))
  show "moves inv_step (insert_event v)" for v
    by (auto simp: moves_def inv_step_def insert_event_def Let_def split: if_splits
        intro!: constraints_insert(3))
  show "moves inv_step (insert_commitment c)" for c
    by (auto simp: moves_def inv_step_def insert_commitment_def Let_def split: if_splits
        intro!: constraints_insert(4))
  show "moves inv_step (insert_fact_row x)" for x
    by (auto simp: moves_def inv_step_def insert_fact_row_def Let_def split: if_splits
        intro!: constraints_insert(5))
  show "moves inv_step (insert_session_row y)" for y
    by (auto simp: moves_def inv_step_def insert_session_row_def Let_def split: if_splits
        intro!: constraints_insert(6))
  show "moves inv_step (update_memories u p f)" if "\<And>m. p m \<Longrightarrow> mem_step m (f m)" for p f
    using that by (auto simp: moves_def inv_step_def update_memories_def Let_def split: if_splits
        intro!: constraints_update(1))
  show "moves inv_step (update_commitments u p f)" if "\<And>c. p c \<Longrightarrow> com_step c (f c)" for p f
    using that by (auto simp: moves_def inv_step_def update_commitments_def Let_def
        split: if_splits option.splits intro!: constraints_update(2))
  show "moves inv_step (update_facts u p f)" if "\<And>z. p z \<Longrightarrow> fact_step z (f z)" for p f
    using that by (auto simp: moves_def inv_step_def update_facts_def Let_def split: if_splits
        intro!: constraints_update(3))
  show "moves inv_step (update_sessions u p f)" if "\<And>x. p x \<Longrightarrow> ses_step x (f x)" for p f
    using that by (auto simp: moves_def inv_step_def update_sessions_def Let_def
        intro!: constraints_update(4))
qed

lemma inv_stepD: "inv_step s s' \<Longrightarrow> constraints s \<Longrightarrow> constraints s'"
  by (simp add: inv_step_def)

section \<open>Instance 2: the other tenants' rows\<close>

definition foreign_rows :: "uid \<Rightarrow> store \<Rightarrow> memory list \<times> memory_edge list \<times> memory_event list \<times>
    commitment list \<times> fact list \<times> agent_session list \<times> user list" where
  "foreign_rows u s =
     (filter (\<lambda>r. mem_user r \<noteq> u) (tbl_memories s), filter (\<lambda>r. edge_user r \<noteq> u) (tbl_edges s),
      filter (\<lambda>r. ev_user r \<noteq> u) (tbl_events s), filter (\<lambda>r. com_user r \<noteq> u) (tbl_commitments s),
      filter (\<lambda>r. fact_user r \<noteq> u) (tbl_facts s), filter (\<lambda>r. ses_user r \<noteq> u) (tbl_sessions s),
      tbl_users s)"

definition tenant_step :: "uid \<Rightarrow> store \<Rightarrow> store \<Rightarrow> bool" where
  "tenant_step u s s' \<longleftrightarrow> foreign_rows u s' = foreign_rows u s"

interpretation tenant: tenant_contract "tenant_step u" u
proof unfold_locales
  show "tenant_step u s s" for s by (simp add: tenant_step_def)
  show "tenant_step u s t \<Longrightarrow> tenant_step u t v \<Longrightarrow> tenant_step u s v" for s t v
    by (simp add: tenant_step_def)
  show "moves (tenant_step u) (update_memories u p f)" if "\<And>m. p m \<Longrightarrow> mem_step m (f m)" for p f
    using that by (auto simp: moves_def tenant_step_def foreign_rows_def update_memories_def Let_def
        mem_step_def split: if_splits intro!: filter_sql_update_other)
  show "moves (tenant_step u) (update_commitments u p f)" if "\<And>c. p c \<Longrightarrow> com_step c (f c)" for p f
    using that by (auto simp: moves_def tenant_step_def foreign_rows_def update_commitments_def Let_def
        com_step_def split: if_splits option.splits intro!: filter_sql_update_other)
  show "moves (tenant_step u) (update_facts u p f)" if "\<And>z. p z \<Longrightarrow> fact_step z (f z)" for p f
    using that by (auto simp: moves_def tenant_step_def foreign_rows_def update_facts_def Let_def
        fact_step_def split: if_splits intro!: filter_sql_update_other)
  show "moves (tenant_step u) (update_sessions u p f)" if "\<And>x. p x \<Longrightarrow> ses_step x (f x)" for p f
    using that by (auto simp: moves_def tenant_step_def foreign_rows_def update_sessions_def Let_def
        ses_step_def intro!: filter_sql_update_other)
qed (auto simp: moves_def tenant_step_def foreign_rows_def insert_memory_def insert_edge_row_def
    insert_event_def insert_commitment_def insert_fact_row_def insert_session_row_def Let_def
    split: if_splits)

section \<open>Instance 3: append and supersede\<close>

text \<open>Every old row is still there, at its place, changed only as \<open>stp\<close> allows.\<close>

definition rows_evolve :: "('r \<Rightarrow> 'r \<Rightarrow> bool) \<Rightarrow> 'r list \<Rightarrow> 'r list \<Rightarrow> bool" where
  "rows_evolve stp rows rows' \<longleftrightarrow>
     length rows \<le> length rows' \<and> (\<forall>i < length rows. stp (rows ! i) (rows' ! i))"

lemma rows_evolve_refl: "(\<And>r. stp r r) \<Longrightarrow> rows_evolve stp rows rows"
  by (simp add: rows_evolve_def)

lemma rows_evolve_trans:
  "transp stp \<Longrightarrow> rows_evolve stp a b \<Longrightarrow> rows_evolve stp b c \<Longrightarrow> rows_evolve stp a c"
  unfolding rows_evolve_def by (meson less_le_trans order_trans transpE)

lemma rows_evolve_snoc: "(\<And>r. stp r r) \<Longrightarrow> rows_evolve stp rows (rows @ [r])"
  by (simp add: rows_evolve_def nth_append)

lemma rows_evolve_update:
  "(\<And>r. stp r r) \<Longrightarrow> (\<And>r. p r \<Longrightarrow> stp r (f r)) \<Longrightarrow> rows_evolve stp rows (sql_update p f rows)"
  by (simp add: rows_evolve_def sql_update_nth)

lemma rows_evolve_mem: "rows_evolve stp rows rows' \<Longrightarrow> r \<in> set rows \<Longrightarrow> \<exists>r' \<in> set rows'. stp r r'"
  unfolding rows_evolve_def by (metis in_set_conv_nth less_le_trans nth_mem)

definition evolves :: "store \<Rightarrow> store \<Rightarrow> bool" where
  "evolves s s' \<longleftrightarrow>
     rows_evolve mem_step (tbl_memories s) (tbl_memories s') \<and>
     rows_evolve com_step (tbl_commitments s) (tbl_commitments s') \<and>
     rows_evolve fact_step (tbl_facts s) (tbl_facts s') \<and>
     rows_evolve ses_step (tbl_sessions s) (tbl_sessions s') \<and>
     rows_evolve (=) (tbl_edges s) (tbl_edges s') \<and>
     rows_evolve (=) (tbl_events s) (tbl_events s') \<and>
     next_id s \<le> next_id s'"

lemma row_steps_transp: "transp mem_step" "transp com_step" "transp fact_step" "transp ses_step"
  by (auto intro!: transpI elim: mem_step_trans com_step_trans fact_step_trans ses_step_trans)

lemmas rows_evolve_transs = row_steps_transp [THEN rows_evolve_trans]
  transp_on_equality [THEN rows_evolve_trans]

lemma evolves_trans: "evolves s t \<Longrightarrow> evolves t v \<Longrightarrow> evolves s v"
  unfolding evolves_def by (blast intro: rows_evolve_transs order_trans)

interpretation hist: tenant_contract evolves u
proof unfold_locales
  show "evolves s s" for s by (simp add: evolves_def rows_evolve_refl)
  show "evolves s t \<Longrightarrow> evolves t v \<Longrightarrow> evolves s v" for s t v by (rule evolves_trans)
  show "moves evolves (update_memories u p f)" if "\<And>m. p m \<Longrightarrow> mem_step m (f m)" for p f
    using that by (auto simp: moves_def evolves_def update_memories_def Let_def rows_evolve_refl
        split: if_splits intro!: rows_evolve_update)
  show "moves evolves (update_commitments u p f)" if "\<And>c. p c \<Longrightarrow> com_step c (f c)" for p f
    using that by (auto simp: moves_def evolves_def update_commitments_def Let_def rows_evolve_refl
        split: if_splits option.splits intro!: rows_evolve_update)
  show "moves evolves (update_facts u p f)" if "\<And>z. p z \<Longrightarrow> fact_step z (f z)" for p f
    using that by (auto simp: moves_def evolves_def update_facts_def Let_def rows_evolve_refl
        split: if_splits intro!: rows_evolve_update)
  show "moves evolves (update_sessions u p f)" if "\<And>x. p x \<Longrightarrow> ses_step x (f x)" for p f
    using that by (auto simp: moves_def evolves_def update_sessions_def Let_def rows_evolve_refl
        intro!: rows_evolve_update)
qed (auto simp: moves_def evolves_def insert_memory_def insert_edge_row_def insert_event_def
    insert_commitment_def insert_fact_row_def insert_session_row_def Let_def rows_evolve_refl
    rows_evolve_snoc split: if_splits)

text \<open>What \<open>evolves\<close> says of one memory: it is still there, with its content, and closed stays closed.\<close>

lemma evolves_memory:
  "evolves s s' \<Longrightarrow> m \<in> set (tbl_memories s) \<Longrightarrow> \<exists>m' \<in> set (tbl_memories s'). mem_step m m'"
  by (auto simp: evolves_def dest: rows_evolve_mem)

lemma evolves_session:
  "evolves s s' \<Longrightarrow> x \<in> set (tbl_sessions s) \<Longrightarrow> \<exists>x' \<in> set (tbl_sessions s'). ses_step x x'"
  by (auto simp: evolves_def dest: rows_evolve_mem)

lemma evolves_event: "evolves s s' \<Longrightarrow> v \<in> set (tbl_events s) \<Longrightarrow> v \<in> set (tbl_events s')"
  by (auto simp: evolves_def dest: rows_evolve_mem)

end
