(* ===== verification/SessionProvenance.thy ===== *)
theory SessionProvenance
  imports StoreContract
begin

text \<open>
  Agent-session leases (\<open>packages/db/src/session-lease.ts\<close>) and the write-time attribution of a
  memory operation to a session run (\<open>packages/db/src/session-provenance.ts\<close>).

  A body that takes an advisory or a row lock may have to wait for it, and other transactions can
  commit meanwhile. The argument \<open>gap\<close> gives what they do: \<open>gap k\<close> is applied to the store at
  the wait numbered \<open>k\<close>. With \<open>no_gap\<close> the transaction runs alone.
\<close>

type_synonym interference = "nat \<Rightarrow> store \<Rightarrow> store"

definition no_gap :: interference where
  "no_gap = (\<lambda>_ s. s)"

lemma no_gap_simp [simp]: "no_gap k s = s"
  by (simp add: no_gap_def)

section \<open>The lease\<close>

definition SESSION_LEASE_MS :: int where
  "SESSION_LEASE_MS = 24 * 60 * 60 * 1000"

definition leaseFloor :: "jsdate \<Rightarrow> jsdate" where
  "leaseFloor now = now - SESSION_LEASE_MS"

definition isLeased :: "jsdate \<Rightarrow> jsdate \<Rightarrow> bool" where
  "isLeased lastSeen now \<longleftrightarrow> leaseFloor now < lastSeen"

definition isExplicitClose :: "jsdate option \<Rightarrow> jsdate \<Rightarrow> bool" where
  "isExplicitClose closedAt lastSeen =
     (case closedAt of None \<Rightarrow> False | Some c \<Rightarrow> c \<le> lastSeen + SESSION_LEASE_MS)"

definition monotonicLastSeen :: "jsdate \<Rightarrow> agent_session \<Rightarrow> jsdate" where
  "monotonicLastSeen now x = max (ses_last_seen x) now"

lemma isLeased_iff: "isLeased l now \<longleftrightarrow> now < l + SESSION_LEASE_MS"
  by (auto simp: isLeased_def leaseFloor_def)

lemma isLeased_refreshed: "now < l + SESSION_LEASE_MS \<Longrightarrow> isLeased (max k l) now"
  by (simp add: isLeased_iff)

section \<open>Statements on one session row\<close>

definition rearmTriage :: "agent_session \<Rightarrow> triage_status" where
  "rearmTriage x = (if ses_triage_status x = TrCompleted then TrIdle else ses_triage_status x)"

definition flagNeedsLook :: "agent_session \<Rightarrow> bool" where
  "flagNeedsLook x = (if ses_triage_status x = TrCompleted then True else ses_needs_look x)"

definition heartbeat_row :: "jsdate \<Rightarrow> agent_session \<Rightarrow> agent_session" where
  "heartbeat_row now x = x\<lparr>ses_last_seen := monotonicLastSeen now x,
     ses_triage_status := rearmTriage x, ses_needs_look := flagNeedsLook x\<rparr>"

definition heartbeat :: "uid \<Rightarrow> rid \<Rightarrow> jsdate \<Rightarrow> unit stm" where
  "heartbeat u i now =
     bind_tx (update_sessions u (\<lambda>x. ses_id x = i) (heartbeat_row now)) (\<lambda>_. ret ())"

definition resurrect_row :: "jsdate \<Rightarrow> agent_session \<Rightarrow> agent_session" where
  "resurrect_row now x = x\<lparr>ses_closed_at := None, ses_last_seen := monotonicLastSeen now x,
     ses_epoch := ses_epoch x + 1, ses_triage_status := rearmTriage x,
     ses_needs_look := flagNeedsLook x, ses_closer_failures := 0, ses_closer_next_attempt := None\<rparr>"

definition resurrect :: "uid \<Rightarrow> rid \<Rightarrow> jsdate \<Rightarrow> unit stm" where
  "resurrect u i now =
     bind_tx (update_sessions u (\<lambda>x. ses_id x = i) (resurrect_row now)) (\<lambda>_. ret ())"

definition readSession :: "uid \<Rightarrow> rid \<Rightarrow> agent_session option stm" where
  "readSession u i = select_session u (\<lambda>x. ses_id x = i)"

lemma ses_step_heartbeat_row: "ses_step x (heartbeat_row now x)"
  by (simp add: ses_step_def heartbeat_row_def monotonicLastSeen_def)

lemma ses_step_resurrect_row: "ses_step x (resurrect_row now x)"
  by (simp add: ses_step_def resurrect_row_def monotonicLastSeen_def)

section \<open>Attach\<close>

definition MAX_ATTACH_LOCK_ATTEMPTS :: nat where
  "MAX_ATTACH_LOCK_ATTEMPTS = 3"

text \<open>
  The loop of \<open>attachKnownRun\<close>: take the attach lock keyed by the observed project, re-read the
  row under the lock, decide again; lock again when the project moved. \<open>k\<close> counts the attempts
  left and numbers the waits.
\<close>

fun attach_loop :: "interference \<Rightarrow> uid \<Rightarrow> rid \<Rightarrow> jsdate \<Rightarrow> nat \<Rightarrow> string option \<Rightarrow> rid option stm" where
  "attach_loop gap u i now 0 lockedProject = ret None"
| "attach_loop gap u i now (Suc k) lockedProject =
     bind_tx (wait_for (gap (Suc k))) (\<lambda>_.
     bind_tx (readSession u i) (\<lambda>fresh. case fresh of
       None \<Rightarrow> throw (UnknownSessionRun i)
     | Some x \<Rightarrow>
         if isExplicitClose (ses_closed_at x) (ses_last_seen x) then ret None
         else if isLeased (ses_last_seen x) now then
           bind_tx (heartbeat u (ses_id x) now) (\<lambda>_. ret (Some (ses_id x)))
         else if ses_project x \<noteq> lockedProject then
           attach_loop gap u i now k (ses_project x)
         else bind_tx (resurrect u (ses_id x) now) (\<lambda>_. ret (Some (ses_id x)))))"

definition attachKnownRun :: "interference \<Rightarrow> uid \<Rightarrow> rid \<Rightarrow> jsdate \<Rightarrow> rid option stm" where
  "attachKnownRun gap u i now =
     bind_tx (readSession u i) (\<lambda>row. case row of
       None \<Rightarrow> throw (UnknownSessionRun i)
     | Some x \<Rightarrow>
         if isExplicitClose (ses_closed_at x) (ses_last_seen x) then ret None
         else if isLeased (ses_last_seen x) now then
           bind_tx (heartbeat u (ses_id x) now) (\<lambda>_. ret (Some (ses_id x)))
         else attach_loop gap u i now MAX_ATTACH_LOCK_ATTEMPTS (ses_project x))"

definition leased_open :: "uid \<Rightarrow> string option \<Rightarrow> jsdate \<Rightarrow> agent_session \<Rightarrow> bool" where
  "leased_open u project now x \<longleftrightarrow> ses_user x = u \<and> ses_closed_at x = None \<and>
     leaseFloor now < ses_last_seen x \<and> ses_project x = project"

definition attachSingleOpen :: "interference \<Rightarrow> uid \<Rightarrow> string option \<Rightarrow> jsdate \<Rightarrow> rid option stm" where
  "attachSingleOpen gap u project now =
     bind_tx (wait_for (gap 0)) (\<lambda>_.
     bind_tx (query (\<lambda>s. take 2 (filter (leased_open u project now) (tbl_sessions s)))) (\<lambda>open.
       case open of
         [x] \<Rightarrow>
           if ses_closed_at x \<noteq> None \<or> \<not> isLeased (ses_last_seen x) now then ret None
           else bind_tx (heartbeat u (ses_id x) now) (\<lambda>_. ret (Some (ses_id x)))
       | _ \<Rightarrow> ret None))"

text \<open>The optional \<open>sessionRunId\<close> of a write: omitted, explicit \<open>null\<close>, or an id.\<close>

datatype run_arg = RunOmitted | RunNull | RunId rid

definition resolveSessionProvenance ::
  "interference \<Rightarrow> uid \<Rightarrow> run_arg \<Rightarrow> string option \<Rightarrow> jsdate \<Rightarrow> rid option stm" where
  "resolveSessionProvenance gap u run project now = (case run of
       RunNull \<Rightarrow> ret None
     | RunId i \<Rightarrow> attachKnownRun gap u i now
     | RunOmitted \<Rightarrow> attachSingleOpen gap u project now)"

definition sessionPayload :: "rid option \<Rightarrow> payload option" where
  "sessionPayload r = map_option SessionPayload r"

definition assertSessionRunOwnedIn :: "uid \<Rightarrow> rid \<Rightarrow> unit stm" where
  "assertSessionRunOwnedIn u i =
     bind_tx (readSession u i) (\<lambda>row. case row of None \<Rightarrow> throw (UnknownSessionRun i) | Some _ \<Rightarrow> ret ())"

definition assertSessionRunOwned :: "uid \<Rightarrow> rid \<Rightarrow> store \<Rightarrow> (err + unit) \<times> store" where
  "assertSessionRunOwned u i = withTenant u (assertSessionRunOwnedIn u i)"

section \<open>What attribution keeps\<close>

context tenant_contract
begin

lemma within_heartbeat: "moves R (heartbeat u i now)"
  unfolding heartbeat_def by (intro within_statements) (rule ses_step_heartbeat_row)

lemma within_resurrect: "moves R (resurrect u i now)"
  unfolding resurrect_def by (intro within_statements) (rule ses_step_resurrect_row)

lemma within_attach_loop:
  assumes "\<And>k s. R s (gap k s)"
  shows "moves R (attach_loop gap u i now k p)"
  using assms
  by (induction k arbitrary: p)
    (auto intro!: within_statements within_heartbeat within_resurrect simp: readSession_def
      split: option.splits)

lemma within_resolveSessionProvenance:
  assumes "\<And>k s. R s (gap k s)"
  shows "moves R (resolveSessionProvenance gap u run project now)"
  unfolding resolveSessionProvenance_def attachKnownRun_def attachSingleOpen_def readSession_def
  using assms
  by (cases run)
    (auto intro!: within_statements within_heartbeat within_attach_loop split: list.splits)

lemma within_assertSessionRunOwnedIn: "moves R (assertSessionRunOwnedIn u i)"
  unfolding assertSessionRunOwnedIn_def readSession_def by (intro within_statements)

lemma no_gap_R: "R s (no_gap k s)"
  by (simp add: R_refl)

end

text \<open>Attribution writes to the session table only.\<close>

definition only_sessions :: "store \<Rightarrow> store \<Rightarrow> bool" where
  "only_sessions s s' \<longleftrightarrow> s' = s\<lparr>tbl_sessions := tbl_sessions s'\<rparr>"

lemma only_sessions_trans: "only_sessions s t \<Longrightarrow> only_sessions t v \<Longrightarrow> only_sessions s v"
  by (cases s; cases t; cases v) (simp add: only_sessions_def)

lemma only_sessionsD:
  "only_sessions s s' \<Longrightarrow> tbl_users s' = tbl_users s \<and> tbl_memories s' = tbl_memories s \<and>
     tbl_edges s' = tbl_edges s \<and> tbl_events s' = tbl_events s \<and>
     tbl_commitments s' = tbl_commitments s \<and> tbl_facts s' = tbl_facts s \<and> next_id s' = next_id s"
  by (cases s; cases s') (simp add: only_sessions_def)

interpretation sess_frame: tx_preorder only_sessions
  by unfold_locales (simp add: only_sessions_def, rule only_sessions_trans)

lemma only_sessions_update: "moves only_sessions (update_sessions u p f)"
  by (auto simp: moves_def only_sessions_def update_sessions_def Let_def)

lemma only_sessions_attach_loop:
  "(\<And>k s. only_sessions s (gap k s)) \<Longrightarrow> moves only_sessions (attach_loop gap u i now k p)"
  by (induction k arbitrary: p)
    (auto intro!: within_intros only_sessions_update
      simp: readSession_def select_defs heartbeat_def resurrect_def split: option.splits)

lemma only_sessions_resolve:
  "moves only_sessions (resolveSessionProvenance no_gap u run project now)"
  unfolding resolveSessionProvenance_def attachKnownRun_def attachSingleOpen_def
  by (cases run)
    (auto intro!: within_intros only_sessions_update only_sessions_attach_loop sess_frame.R_refl
      simp: readSession_def select_defs heartbeat_def split: list.splits)

text \<open>The only error attribution throws.\<close>

lemma statement_Inl [tx_Inl]:
  "select_memory u pm s \<noteq> Inl e" "select_commitment u pc s \<noteq> Inl e" "select_session u ps s \<noteq> Inl e"
  "update_sessions u ps f s \<noteq> Inl e"
  by (auto simp: select_defs update_sessions_def Let_def query_def)

lemma attach_loop_error: "attach_loop gap u i now k p s = Inl e \<Longrightarrow> e = UnknownSessionRun i"
  by (induction k arbitrary: p s)
    (auto simp: tx_Inl readSession_def heartbeat_def resurrect_def split: if_splits)

lemma resolveSessionProvenance_error:
  "resolveSessionProvenance gap u run project now s = Inl e \<Longrightarrow> \<exists>i. e = UnknownSessionRun i"
  by (cases run) (auto simp: resolveSessionProvenance_def attachKnownRun_def attachSingleOpen_def tx_Inl
      readSession_def heartbeat_def dest: attach_loop_error split: if_splits list.splits)

section \<open>The attach decision\<close>

definition session_of :: "uid \<Rightarrow> rid \<Rightarrow> store \<Rightarrow> agent_session option" where
  "session_of u i s = find_row (\<lambda>x. ses_user x = u \<and> ses_id x = i) (tbl_sessions s)"

text \<open>One row of tenant \<open>u\<close> rewritten by \<open>f\<close>.\<close>

definition with_session :: "uid \<Rightarrow> rid \<Rightarrow> (agent_session \<Rightarrow> agent_session) \<Rightarrow> store \<Rightarrow> store" where
  "with_session u i f s =
     s\<lparr>tbl_sessions := sql_update (\<lambda>x. ses_user x = u \<and> ses_id x = i) f (tbl_sessions s)\<rparr>"

lemma session_of_Some: "session_of u i s = Some x \<Longrightarrow> ses_id x = i \<and> ses_user x = u"
  unfolding session_of_def by (drule find_row_Some) simp

lemma session_of_with_session:
  "(\<And>x. ses_step x (f x)) \<Longrightarrow> session_of u i (with_session u i f s) = map_option f (session_of u i s)"
  unfolding session_of_def with_session_def
  by (simp add: find_row_update_same ses_step_def)

lemma heartbeat_run: "heartbeat u i now s = Inr ((), with_session u i (heartbeat_row now) s)"
  by (simp add: heartbeat_def update_sessions_def with_session_def bind_tx_def ret_def Let_def)

lemma resurrect_run: "resurrect u i now s = Inr ((), with_session u i (resurrect_row now) s)"
  by (simp add: resurrect_def update_sessions_def with_session_def bind_tx_def ret_def Let_def)

lemma readSession_run: "readSession u i s = Inr (session_of u i s, s)"
  by (simp add: readSession_def select_session_def session_of_def query_def)

lemmas bind_runs =
  bind_tx_run [OF heartbeat_run] bind_tx_run [OF resurrect_run] bind_tx_run [OF readSession_run]

text \<open>One turn of the loop, on the row as it stands after the wait.\<close>

lemma attach_loop_Suc:
  "attach_loop gap u i now (Suc k) p s = (let t = gap (Suc k) s in case session_of u i t of
       None \<Rightarrow> Inl (UnknownSessionRun i)
     | Some x \<Rightarrow>
         if isExplicitClose (ses_closed_at x) (ses_last_seen x) then Inr (None, t)
         else if isLeased (ses_last_seen x) now then Inr (Some i, with_session u i (heartbeat_row now) t)
         else if ses_project x \<noteq> p then attach_loop gap u i now k (ses_project x) t
         else Inr (Some i, with_session u i (resurrect_row now) t))"
  by (auto simp: bind_runs Let_def ret_def throw_def dest: session_of_Some split: option.splits)

lemma attachKnownRun_run:
  "attachKnownRun gap u i now s = (case session_of u i s of
       None \<Rightarrow> Inl (UnknownSessionRun i)
     | Some x \<Rightarrow>
         if isExplicitClose (ses_closed_at x) (ses_last_seen x) then Inr (None, s)
         else if isLeased (ses_last_seen x) now then Inr (Some i, with_session u i (heartbeat_row now) s)
         else attach_loop gap u i now 3 (ses_project x) s)"
  by (auto simp: attachKnownRun_def MAX_ATTACH_LOCK_ATTEMPTS_def bind_runs ret_def throw_def
      dest: session_of_Some split: option.splits)

declare attach_loop.simps [simp del]

text \<open>
  A write naming a run id, with no other writer in the way: an id that is not a row of the
  tenant fails the write, an explicitly closed run is left alone and the write goes unattributed,
  a live lease is refreshed, and a stale lease is resurrected with the next activation epoch.
\<close>

theorem attachKnownRun_decision:
  "attachKnownRun no_gap u i now s = (case session_of u i s of
       None \<Rightarrow> Inl (UnknownSessionRun i)
     | Some x \<Rightarrow>
         if isExplicitClose (ses_closed_at x) (ses_last_seen x) then Inr (None, s)
         else if isLeased (ses_last_seen x) now then Inr (Some i, with_session u i (heartbeat_row now) s)
         else Inr (Some i, with_session u i (resurrect_row now) s))"
  by (simp add: attachKnownRun_run numeral_3_eq_3 attach_loop_Suc Let_def split: option.splits)

text \<open>
  C9. Two concurrent writes carry the same stale run id. Both see the row stale; the second waits
  for the attach lock while the first resurrects the row and commits. The second re-decides on the
  committed row and only refreshes the lease: the activation epoch advances once.
\<close>

theorem concurrent_resurrection_once:
  assumes "session_of u i s = Some x"
    and "\<not> isExplicitClose (ses_closed_at x) (ses_last_seen x)"
    and "\<not> isLeased (ses_last_seen x) nowA" and "\<not> isLeased (ses_last_seen x) nowB"
    and "nowB < nowA + SESSION_LEASE_MS"
    and "attachKnownRun no_gap u i nowA s = Inr (ra, sA)"
    and "attachKnownRun (\<lambda>_ _. sA) u i nowB s = Inr (rb, sB)"
  shows "ra = Some i \<and> rb = Some i \<and>
    (\<exists>y. session_of u i sB = Some y \<and> ses_epoch y = ses_epoch x + 1 \<and> ses_closed_at y = None)"
proof -
  from assms(1-3,6) have A: "ra = Some i" "sA = with_session u i (resurrect_row nowA) s"
    by (simp_all add: attachKnownRun_decision)
  then have row: "session_of u i sA = Some (resurrect_row nowA x)"
    using assms(1) by (simp add: session_of_with_session ses_step_resurrect_row)
  have seen: "isLeased (ses_last_seen (resurrect_row nowA x)) nowB"
    "ses_closed_at (resurrect_row nowA x) = None"
    using assms(5) by (simp_all add: resurrect_row_def monotonicLastSeen_def isLeased_iff)
  have "rb = Some i \<and> sB = with_session u i (heartbeat_row nowB) sA"
    using assms(1,2,4,7) row seen
    by (simp add: attachKnownRun_run numeral_3_eq_3 attach_loop_Suc isExplicitClose_def)
  moreover from this row
  have "session_of u i sB = Some (heartbeat_row nowB (resurrect_row nowA x))"
    by (simp add: session_of_with_session ses_step_heartbeat_row)
  ultimately show ?thesis
    using A(1) by (simp add: heartbeat_row_def resurrect_row_def)
qed

text \<open>
  A close that commits while the write waits for the attach lock is respected: the write goes
  unattributed and changes nothing, whatever the row looked like before the wait.
\<close>

theorem close_during_wait_respected:
  assumes "session_of u i s = Some x" and "\<not> isLeased (ses_last_seen x) now"
    and "session_of u i (gap 3 s) = Some y"
    and "isExplicitClose (ses_closed_at y) (ses_last_seen y)"
  shows "attachKnownRun gap u i now s = Inr (None, s) \<or> attachKnownRun gap u i now s = Inr (None, gap 3 s)"
  using assms by (simp add: attachKnownRun_run numeral_3_eq_3 attach_loop_Suc)

text \<open>
  An omitted run id attaches to a session exactly when it is the only leased open session of
  the tenant for that project; with none or several the write goes unattributed.
\<close>

theorem attachSingleOpen_unique:
  "attachSingleOpen no_gap u project now s =
     (case filter (leased_open u project now) (tbl_sessions s) of
        [x] \<Rightarrow> Inr (Some (ses_id x), with_session u (ses_id x) (heartbeat_row now) s)
      | _ \<Rightarrow> Inr (None, s))"
proof -
  let ?xs = "filter (leased_open u project now) (tbl_sessions s)"
  have mem: "x \<in> set ?xs \<Longrightarrow> ses_closed_at x = None \<and> isLeased (ses_last_seen x) now" for x
    by (simp add: leased_open_def isLeased_def)
  show ?thesis
  proof (cases ?xs)
    case Nil
    then show ?thesis by (simp add: attachSingleOpen_def ret_def)
  next
    case (Cons x xs)
    with mem [of x] show ?thesis
      by (cases xs) (simp_all add: attachSingleOpen_def bind_runs ret_def numeral_2_eq_2)
  qed
qed

end
