(* ===== verification/SessionLifecycle.thy ===== *)
theory SessionLifecycle
  imports SessionProvenance
begin

text \<open>
  Hook-facing session bookkeeping: open, close and heartbeat by natural key
  (\<open>packages/db/src/session-lifecycle.ts\<close>) with its facade (\<open>packages/core/src/session/lifecycle.ts\<close>)
  and the erased-account guard (\<open>packages/db/src/credential-guard.ts\<close>, \<open>account-delete.ts\<close>).
  Inputs are the parsed bodies of the schema boundary.
\<close>

section \<open>The erased-account guard\<close>

fun decimal :: "nat \<Rightarrow> string" where
  "decimal n = (if n < 10 then [char_of (48 + n)] else decimal (n div 10) @ [char_of (48 + n mod 10)])"

declare decimal.simps [simp del]

definition deletedEmail :: "uid \<Rightarrow> string" where
  "deletedEmail u = ''deleted-'' @ decimal u @ ''@deleted.invalid''"

definition ERASED_PASSWORD_HASH :: string where
  "ERASED_PASSWORD_HASH = ''!erased''"

definition isAccountTombstoned :: "uid \<Rightarrow> user \<Rightarrow> bool" where
  "isAccountTombstoned u x \<longleftrightarrow> usr_email x = deletedEmail u \<or> usr_password_hash x = ERASED_PASSWORD_HASH"

definition select_user :: "uid \<Rightarrow> store \<Rightarrow> user option" where
  "select_user u s = find_row (\<lambda>x. usr_id x = u) (tbl_users s)"

definition getLiveAccountId :: "uid \<Rightarrow> uid option stm" where
  "getLiveAccountId u = bind_tx (query (select_user u)) (\<lambda>x. case x of
       None \<Rightarrow> ret None
     | Some r \<Rightarrow> if isAccountTombstoned u r then ret None else ret (Some u))"

definition userIsLiveForIssuance :: "uid \<Rightarrow> bool stm" where
  "userIsLiveForIssuance u = bind_tx (getLiveAccountId u) (\<lambda>r. ret (r \<noteq> None))"

definition guardSessionMutation :: "(store \<Rightarrow> store) \<Rightarrow> uid \<Rightarrow> unit stm" where
  "guardSessionMutation g u =
     bind_tx (wait_for g) (\<lambda>_.
     bind_tx (userIsLiveForIssuance u) (\<lambda>live. if live then ret () else throw AccountDeleted))"

definition user_live :: "uid \<Rightarrow> store \<Rightarrow> bool" where
  "user_live u s = (case select_user u s of None \<Rightarrow> False | Some x \<Rightarrow> \<not> isAccountTombstoned u x)"

lemma guardSessionMutation_run:
  "guardSessionMutation g u s = (if user_live u (g s) then Inr ((), g s) else Inl AccountDeleted)"
  by (auto simp: guardSessionMutation_def userIsLiveForIssuance_def getLiveAccountId_def
      user_live_def bind_tx_def query_def ret_def throw_def wait_for_def split: option.splits)

section \<open>Reads by natural key\<close>

record session_key =
  key_agent :: string
  key_session :: string

definition naturalKeyPredicate :: "session_key \<Rightarrow> agent_session \<Rightarrow> bool" where
  "naturalKeyPredicate k x \<longleftrightarrow> ses_agent x = key_agent k \<and> ses_session x = key_session k"

definition readByKey :: "uid \<Rightarrow> session_key \<Rightarrow> agent_session option stm" where
  "readByKey u k = select_session u (naturalKeyPredicate k)"

definition keyed_session :: "uid \<Rightarrow> session_key \<Rightarrow> store \<Rightarrow> agent_session option" where
  "keyed_session u k s = find_row (\<lambda>x. ses_user x = u \<and> naturalKeyPredicate k x) (tbl_sessions s)"

lemma readByKey_run: "readByKey u k s = Inr (keyed_session u k s, s)"
  by (simp add: readByKey_def keyed_session_def select_session_def query_def)

lemma keyed_session_Some: "keyed_session u k s = Some x \<Longrightarrow> ses_user x = u \<and> naturalKeyPredicate k x"
  unfolding keyed_session_def by (drule find_row_Some) simp

definition NotFound :: "session_key \<Rightarrow> err" where
  "NotFound k = AgentSessionNotFound (key_agent k) (key_session k)"

section \<open>Open\<close>

record open_input = session_key +
  in_source :: session_source
  in_project :: "string option"
  in_scope :: "string option"
  in_selector :: selector
  in_briefed :: "briefed_memory list option"

text \<open>The natural key of an input that carries more fields.\<close>

definition key_of :: "open_input \<Rightarrow> session_key" where
  "key_of inp = \<lparr>key_agent = key_agent inp, key_session = key_session inp\<rparr>"

definition paramsDiffer :: "agent_session \<Rightarrow> open_input \<Rightarrow> bool" where
  "paramsDiffer x inp \<longleftrightarrow> ses_project x \<noteq> in_project inp \<or> ses_scope x \<noteq> in_scope inp \<or>
     ses_selector x \<noteq> in_selector inp"

definition briefingStamp :: "open_input \<Rightarrow> jsdate \<Rightarrow> agent_session \<Rightarrow> agent_session" where
  "briefingStamp inp now x = (case in_briefed inp of None \<Rightarrow> x
     | Some bs \<Rightarrow> x\<lparr>ses_briefed := bs, ses_briefing_delivered := Some now\<rparr>)"

record open_result =
  or_row :: agent_session
  or_created :: bool
  or_reopened :: bool

definition toOpenResult :: "agent_session \<Rightarrow> bool \<Rightarrow> bool \<Rightarrow> open_result" where
  "toOpenResult x c r = \<lparr>or_row = x, or_created = c, or_reopened = r\<rparr>"

text \<open>The row of an INSERT: given columns plus the column defaults of the table.\<close>

definition fresh_session :: "uid \<Rightarrow> open_input \<Rightarrow> jsdate \<Rightarrow> agent_session" where
  "fresh_session u inp now = briefingStamp inp now
     \<lparr>ses_id = 0, ses_user = u, ses_agent = key_agent inp, ses_session = key_session inp,
      ses_source = in_source inp, ses_project = in_project inp, ses_scope = in_scope inp,
      ses_selector = in_selector inp, ses_opened_at = now, ses_closed_at = None, ses_last_seen = now,
      ses_epoch = 1, ses_triage_status = TrIdle, ses_triage_attempt = None,
      ses_triage_armed_at = None, ses_attempt_log = [], ses_attempt_count = 0,
      ses_triaged_events = [], ses_briefing_delivered = None, ses_briefed = [], ses_excerpt = None,
      ses_needs_look = False, ses_closer_failures = 0, ses_closer_next_attempt = None\<rparr>"

definition conflict_of :: "open_input \<Rightarrow> err" where
  "conflict_of inp = AgentSessionParamsConflict (key_agent inp) (key_session inp)"

definition insertSession :: "uid \<Rightarrow> open_input \<Rightarrow> jsdate \<Rightarrow> open_result stm" where
  "insertSession u inp now =
     bind_tx (map_error (\<lambda>e. if e = UniqueViolation then conflict_of inp else e)
                (insert_session_row (fresh_session u inp now)))
       (\<lambda>x. ret (toOpenResult x True False))"

definition isReopen :: "agent_session \<Rightarrow> jsdate \<Rightarrow> bool" where
  "isReopen x now \<longleftrightarrow> ses_closed_at x \<noteq> None \<or> \<not> isLeased (ses_last_seen x) now"

definition open_row :: "open_input \<Rightarrow> jsdate \<Rightarrow> bool \<Rightarrow> bool \<Rightarrow> agent_session \<Rightarrow> agent_session" where
  "open_row inp now reopened bumpEpoch x = (let
     a = x\<lparr>ses_last_seen := monotonicLastSeen now x\<rparr>;
     b = (if reopened then a\<lparr>ses_closed_at := None\<rparr> else a);
     c = (if bumpEpoch then b\<lparr>ses_epoch := ses_epoch x + 1\<rparr> else b);
     d = (if reopened \<and> in_source inp = Startup then briefingStamp inp now c else c)
   in if reopened then d\<lparr>ses_closer_failures := 0, ses_closer_next_attempt := None\<rparr> else d)"

definition openSession :: "interference \<Rightarrow> uid \<Rightarrow> open_input \<Rightarrow> jsdate \<Rightarrow> open_result stm" where
  "openSession gap u inp now =
     bind_tx (guardSessionMutation (gap 0) u) (\<lambda>_.
     bind_tx (readByKey u (key_of inp)) (\<lambda>observed.
     bind_tx (wait_for (gap 1)) (\<lambda>_.
     bind_tx (readByKey u (key_of inp)) (\<lambda>existing. case existing of
       None \<Rightarrow> insertSession u inp now
     | Some x \<Rightarrow>
         if in_source inp = Startup \<and> paramsDiffer x inp then throw (conflict_of inp)
         else
           (let reopened = isReopen x now; bumpEpoch = reopened \<or> in_source inp = Resume in
            bind_tx (update_sessions u (naturalKeyPredicate (key_of inp))
                       (open_row inp now reopened bumpEpoch)) (\<lambda>rows. case rows of
              [] \<Rightarrow> throw (NotFound (key_of inp))
            | row # _ \<Rightarrow> ret (toOpenResult row False reopened)))))))"

section \<open>Close\<close>

record close_result =
  cr_row :: agent_session
  cr_closed_at :: jsdate
  cr_already :: bool

definition closeSession :: "(store \<Rightarrow> store) \<Rightarrow> uid \<Rightarrow> session_key \<Rightarrow> jsdate \<Rightarrow> close_result stm" where
  "closeSession g u k now =
     bind_tx (wait_for g) (\<lambda>_.
     bind_tx (readByKey u k) (\<lambda>existing. case existing of
       None \<Rightarrow> throw (NotFound k)
     | Some x \<Rightarrow> (case ses_closed_at x of
         Some t \<Rightarrow> ret \<lparr>cr_row = x, cr_closed_at = t, cr_already = True\<rparr>
       | None \<Rightarrow>
           bind_tx (update_sessions u (naturalKeyPredicate k) (\<lambda>y. y\<lparr>ses_closed_at := Some now\<rparr>)) (\<lambda>rows.
             case rows of
               [] \<Rightarrow> throw (NotFound k)
             | row # _ \<Rightarrow> ret \<lparr>cr_row = row,
                   cr_closed_at = (case ses_closed_at row of None \<Rightarrow> now | Some t \<Rightarrow> t),
                   cr_already = False\<rparr>))))"

section \<open>Heartbeat\<close>

record heartbeat_input = session_key +
  in_excerpt :: "string option"

definition hb_key :: "heartbeat_input \<Rightarrow> session_key" where
  "hb_key inp = \<lparr>key_agent = key_agent inp, key_session = key_session inp\<rparr>"

record heartbeat_result =
  hr_row :: agent_session
  hr_resurrected :: bool

text \<open>
  The excerpt to write: none when the input carries none, and none on an account that is gone or
  erased (the tombstoned email).
\<close>

definition excerptPatch :: "(store \<Rightarrow> store) \<Rightarrow> uid \<Rightarrow> heartbeat_input \<Rightarrow> string option stm" where
  "excerptPatch g u inp = (case in_excerpt inp of
       None \<Rightarrow> ret None
     | Some txt \<Rightarrow>
         bind_tx (wait_for g) (\<lambda>_.
         bind_tx (query (select_user u)) (\<lambda>x. case x of
           None \<Rightarrow> ret None
         | Some r \<Rightarrow> if usr_email r = deletedEmail u then ret None else ret (Some txt))))"

definition lease_row :: "jsdate \<Rightarrow> bool \<Rightarrow> string option \<Rightarrow> agent_session \<Rightarrow> agent_session" where
  "lease_row now resurrected excerpt x = (let
     a = x\<lparr>ses_last_seen := monotonicLastSeen now x\<rparr>;
     b = (case excerpt of None \<Rightarrow> a | Some txt \<Rightarrow> a\<lparr>ses_excerpt := Some txt\<rparr>)
   in if resurrected then b\<lparr>ses_closed_at := None, ses_epoch := ses_epoch x + 1,
        ses_closer_failures := 0, ses_closer_next_attempt := None\<rparr> else b)"

definition refreshLease ::
  "interference \<Rightarrow> uid \<Rightarrow> heartbeat_input \<Rightarrow> jsdate \<Rightarrow> bool \<Rightarrow> bool \<Rightarrow> heartbeat_result option stm" where
  "refreshLease gap u inp now resurrected onlyOpen =
     bind_tx (excerptPatch (gap 0) u inp) (\<lambda>excerpt.
     bind_tx (wait_for (gap 1)) (\<lambda>_.
     bind_tx (update_sessions u
                (\<lambda>x. naturalKeyPredicate (hb_key inp) x \<and> (onlyOpen \<longrightarrow> ses_closed_at x = None))
                (lease_row now resurrected excerpt)) (\<lambda>rows. case rows of
       [] \<Rightarrow> if onlyOpen then ret None else throw (NotFound (hb_key inp))
     | row # _ \<Rightarrow> ret (Some \<lparr>hr_row = row, hr_resurrected = resurrected\<rparr>))))"

text \<open>
  The fast path refreshes a live row guarded on \<open>closed_at IS NULL\<close>; when a close won the race, or
  the row was closed or stale to begin with, the slow path decides under the attach lock (wait 3)
  and a row lock, so nothing can interfere with its own refresh.
\<close>

definition heartbeatSession :: "interference \<Rightarrow> uid \<Rightarrow> heartbeat_input \<Rightarrow> jsdate \<Rightarrow> heartbeat_result stm" where
  "heartbeatSession gap u inp now =
     bind_tx (readByKey u (hb_key inp)) (\<lambda>obs. case obs of
       None \<Rightarrow> throw (NotFound (hb_key inp))
     | Some observed \<Rightarrow>
         bind_tx (if ses_closed_at observed = None \<and> isLeased (ses_last_seen observed) now
                  then refreshLease gap u inp now False True else ret None) (\<lambda>fast.
         case fast of Some r \<Rightarrow> ret r
         | None \<Rightarrow>
           bind_tx (if in_excerpt inp \<noteq> None then wait_for (gap 2) else ret ()) (\<lambda>_.
           bind_tx (wait_for (gap 3)) (\<lambda>_.
           bind_tx (readByKey u (hb_key inp)) (\<lambda>fr. case fr of
             None \<Rightarrow> throw (NotFound (hb_key inp))
           | Some fresh \<Rightarrow>
               (let stillDead = isReopen fresh now in
                bind_tx (refreshLease no_gap u inp now stillDead False) (\<lambda>beat.
                  case beat of None \<Rightarrow> throw (NotFound (hb_key inp)) | Some r \<Rightarrow> ret r)))))))"

section \<open>The facade\<close>

definition openAgentSession :: "uid \<Rightarrow> open_input \<Rightarrow> jsdate \<Rightarrow> store \<Rightarrow> (err + open_result) \<times> store" where
  "openAgentSession u parsed now = withTenant u (openSession no_gap u parsed now)"

definition closeAgentSession :: "uid \<Rightarrow> session_key \<Rightarrow> jsdate \<Rightarrow> store \<Rightarrow> (err + close_result) \<times> store" where
  "closeAgentSession u parsed now = withTenant u (closeSession (\<lambda>s. s) u parsed now)"

definition heartbeatAgentSession ::
  "uid \<Rightarrow> heartbeat_input \<Rightarrow> jsdate \<Rightarrow> store \<Rightarrow> (err + heartbeat_result) \<times> store" where
  "heartbeatAgentSession u parsed now = withTenant u (heartbeatSession no_gap u parsed now)"

definition getAgentSession :: "uid \<Rightarrow> session_key \<Rightarrow> store \<Rightarrow> (err + agent_session) \<times> store" where
  "getAgentSession u k = withTenant u (bind_tx (readByKey u k) (\<lambda>row.
     case row of None \<Rightarrow> throw (NotFound k) | Some x \<Rightarrow> ret x))"

definition getAgentSessionRun :: "uid \<Rightarrow> rid \<Rightarrow> store \<Rightarrow> (err + agent_session) \<times> store" where
  "getAgentSessionRun u i = withTenant u (bind_tx (readSession u i) (\<lambda>row.
     case row of None \<Rightarrow> throw (UnknownSessionRun i) | Some x \<Rightarrow> ret x))"

record triage_attempts =
  ta_run :: rid
  ta_items :: "triage_log_entry list"
  ta_count :: nat
  ta_truncated :: bool

definition getSessionTriageAttempts :: "uid \<Rightarrow> rid \<Rightarrow> store \<Rightarrow> (err + triage_attempts) \<times> store" where
  "getSessionTriageAttempts u i s = (case getAgentSessionRun u i s of
       (Inl e, s') \<Rightarrow> (Inl e, s')
     | (Inr x, s') \<Rightarrow> (Inr \<lparr>ta_run = ses_id x, ta_items = ses_attempt_log x,
          ta_count = ses_attempt_count x,
          ta_truncated = (length (ses_attempt_log x) < ses_attempt_count x)\<rparr>, s'))"

section \<open>What the bookkeeping keeps\<close>

lemma ses_step_briefingStamp: "ses_step x y \<Longrightarrow> ses_step x (briefingStamp inp now y)"
  by (auto simp: briefingStamp_def ses_step_def split: option.splits)

lemma ses_step_open_row: "ses_step x (open_row inp now reopened bump x)"
  by (auto simp: open_row_def ses_step_def briefingStamp_def monotonicLastSeen_def Let_def
      split: option.splits)

lemma ses_step_lease_row: "ses_step x (lease_row now resurrected excerpt x)"
  by (auto simp: lease_row_def ses_step_def monotonicLastSeen_def Let_def split: option.splits)

lemma fresh_session_user [simp]: "ses_user (fresh_session u inp now) = u"
  by (simp add: fresh_session_def briefingStamp_def split: option.splits)

context tenant_contract
begin

lemma within_openSession:
  assumes "\<And>k s. R s (gap k s)"
  shows "moves R (openSession gap u inp now)"
  unfolding openSession_def guardSessionMutation_def userIsLiveForIssuance_def getLiveAccountId_def
    readByKey_def insertSession_def Let_def
  by (intro within_statements assms ses_step_open_row fresh_session_user)

lemma within_closeSession:
  assumes "\<And>s. R s (g s)"
  shows "moves R (closeSession g u k now)"
  unfolding closeSession_def readByKey_def
  by (intro within_statements assms) (simp add: ses_step_def)

lemma within_refreshLease:
  assumes "\<And>k s. R s (gap k s)"
  shows "moves R (refreshLease gap u inp now resurrected onlyOpen)"
  unfolding refreshLease_def excerptPatch_def
  by (intro within_statements assms ses_step_lease_row)

lemma within_heartbeatSession:
  assumes "\<And>k s. R s (gap k s)"
  shows "moves R (heartbeatSession gap u inp now)"
  unfolding heartbeatSession_def readByKey_def Let_def
  by (intro within_statements within_refreshLease assms no_gap_R)

end

section \<open>Opening a session\<close>

lemma keyed_session_update:
  "(\<And>x. ses_step x (f x)) \<Longrightarrow> keyed_session u k
     (s\<lparr>tbl_sessions := sql_update (\<lambda>x. ses_user x = u \<and> naturalKeyPredicate k x) f (tbl_sessions s)\<rparr>) =
   map_option f (keyed_session u k s)"
  unfolding keyed_session_def by (simp add: find_row_update_same ses_step_def naturalKeyPredicate_def)

lemma update_keyed_session:
  assumes "keyed_session u k s = Some x" and "\<And>x. ses_step x (f x)"
  shows "\<exists>rs. update_sessions u (naturalKeyPredicate k) f s = Inr (f x # rs,
     s\<lparr>tbl_sessions := sql_update (\<lambda>x. ses_user x = u \<and> naturalKeyPredicate k x) f (tbl_sessions s)\<rparr>)"
  using sql_returning_find [OF assms(1) [unfolded keyed_session_def], of f]
  by (auto simp: update_sessions_def Let_def)

text \<open>The two cases of an open that is not refused.\<close>

lemma openSession_existing:
  assumes "user_live u s" and "keyed_session u (key_of inp) s = Some x"
    and "\<not> (in_source inp = Startup \<and> paramsDiffer x inp)"
  shows "openSession no_gap u inp now s = Inr
    (toOpenResult (open_row inp now (isReopen x now) (isReopen x now \<or> in_source inp = Resume) x)
       False (isReopen x now),
     s\<lparr>tbl_sessions := sql_update (\<lambda>y. ses_user y = u \<and> naturalKeyPredicate (key_of inp) y)
       (open_row inp now (isReopen x now) (isReopen x now \<or> in_source inp = Resume)) (tbl_sessions s)\<rparr>)"
proof -
  let ?f = "open_row inp now (isReopen x now) (isReopen x now \<or> in_source inp = Resume)"
  obtain rs where "update_sessions u (naturalKeyPredicate (key_of inp)) ?f s = Inr (?f x # rs,
     s\<lparr>tbl_sessions := sql_update (\<lambda>y. ses_user y = u \<and> naturalKeyPredicate (key_of inp) y) ?f
       (tbl_sessions s)\<rparr>)"
    using update_keyed_session [OF assms(2), of ?f] ses_step_open_row by blast
  with assms show ?thesis
    by (auto simp: openSession_def guardSessionMutation_run bind_tx_def ret_def Let_def
        wait_for_def readByKey_run)
qed

lemma openSession_absent:
  assumes "user_live u s" and "keyed_session u (key_of inp) s = None"
  shows "openSession no_gap u inp now s = insertSession u inp now s"
  using assms by (simp add: openSession_def bind_tx_def guardSessionMutation_run wait_for_def readByKey_run)

lemma openSession_conflict:
  assumes "user_live u s" and "keyed_session u (key_of inp) s = Some x"
    and "in_source inp = Startup" and "paramsDiffer x inp"
  shows "openSession no_gap u inp now s = Inl (conflict_of inp)"
  using assms
  by (simp add: openSession_def bind_tx_def guardSessionMutation_run wait_for_def readByKey_run throw_def)

lemma openSession_erased: "\<not> user_live u s \<Longrightarrow> openSession no_gap u inp now s = Inl AccountDeleted"
  by (simp add: openSession_def bind_tx_def guardSessionMutation_run)

text \<open>
  SessionStart by cases. No row: one is inserted, at epoch 1. A row with other open parameters
  refuses a \<open>startup\<close>. Otherwise the row is reused, open and leased: the epoch advances exactly
  when the row was closed or stale or the source is \<open>resume\<close>, and the briefing is restamped
  exactly when a \<open>startup\<close> reopens the row.
\<close>

theorem openSession_table:
  assumes "openSession no_gap u inp now s = Inr (r, s')"
  shows "case keyed_session u (key_of inp) s of
      None \<Rightarrow> or_created r \<and> \<not> or_reopened r \<and> ses_epoch (or_row r) = 1 \<and>
        ses_last_seen (or_row r) = now \<and> keyed_session u (key_of inp) s' = Some (or_row r)
    | Some x \<Rightarrow> \<not> or_created r \<and> (or_reopened r \<longleftrightarrow> isReopen x now) \<and>
        (in_source inp = Startup \<longrightarrow> \<not> paramsDiffer x inp) \<and>
        ses_epoch (or_row r) = ses_epoch x + (if isReopen x now \<or> in_source inp = Resume then 1 else 0) \<and>
        ses_closed_at (or_row r) = None \<and> isLeased (ses_last_seen (or_row r)) now \<and>
        ses_briefed (or_row r) = (case in_briefed inp of
          Some bs \<Rightarrow> if isReopen x now \<and> in_source inp = Startup then bs else ses_briefed x
        | None \<Rightarrow> ses_briefed x) \<and>
        keyed_session u (key_of inp) s' = Some (or_row r)"
proof -
  have live: "user_live u s" using assms openSession_erased by fastforce
  show ?thesis
  proof (cases "keyed_session u (key_of inp) s")
    case None
    with assms live have ins: "insertSession u inp now s = Inr (r, s')"
      by (simp add: openSession_absent)
    let ?x = "(fresh_session u inp now)\<lparr>ses_id := next_id s\<rparr>"
    from ins have r: "r = toOpenResult ?x True False"
      and s': "s' = s\<lparr>tbl_sessions := tbl_sessions s @ [?x], next_id := Suc (next_id s)\<rparr>"
      by (auto simp: insertSession_def bind_tx_def map_error_def insert_session_row_def Let_def
          ret_def split: if_splits)
    have "ses_epoch ?x = 1" "ses_last_seen ?x = now" "ses_user ?x = u"
      "naturalKeyPredicate (key_of inp) ?x"
      by (auto simp: fresh_session_def briefingStamp_def naturalKeyPredicate_def key_of_def
          split: option.splits)
    with None show ?thesis
      by (simp add: r s' toOpenResult_def keyed_session_def find_row_append find_row_Cons)
  next
    case (Some x)
    have ok: "\<not> (in_source inp = Startup \<and> paramsDiffer x inp)"
      using assms openSession_conflict [OF live Some] by fastforce
    let ?f = "open_row inp now (isReopen x now) (isReopen x now \<or> in_source inp = Resume)"
    from assms openSession_existing [OF live Some ok, of now]
    have r: "r = toOpenResult (?f x) False (isReopen x now)"
      and s': "s' = s\<lparr>tbl_sessions := sql_update
        (\<lambda>y. ses_user y = u \<and> naturalKeyPredicate (key_of inp) y) ?f (tbl_sessions s)\<rparr>"
      by auto
    have "keyed_session u (key_of inp) s' = Some (?f x)"
      unfolding s' using Some keyed_session_update [of ?f, OF ses_step_open_row] by simp
    moreover have "isLeased (monotonicLastSeen now x) now"
      by (simp add: isLeased_iff monotonicLastSeen_def SESSION_LEASE_MS_def)
    ultimately show ?thesis
      using Some ok
      by (auto simp: r toOpenResult_def open_row_def Let_def briefingStamp_def isReopen_def
          split: option.splits)
  qed
qed

section \<open>Erased accounts\<close>

definition erased :: "uid \<Rightarrow> store \<Rightarrow> bool" where
  "erased u s \<longleftrightarrow> (case select_user u s of None \<Rightarrow> False | Some x \<Rightarrow> usr_email x = deletedEmail u)"

definition excerpts_kept :: "uid \<Rightarrow> store \<Rightarrow> store \<Rightarrow> bool" where
  "excerpts_kept u s s' \<longleftrightarrow> (erased u s \<longrightarrow>
     tbl_users s' = tbl_users s \<and>
     map ses_excerpt (tbl_sessions s') = map ses_excerpt (tbl_sessions s))"

interpretation excerpts: tx_preorder "excerpts_kept u"
  by unfold_locales (auto simp: excerpts_kept_def erased_def select_user_def)

lemma excerptPatch_erased: "erased u s \<Longrightarrow> excerptPatch (no_gap k) u inp s = Inr (None, s)"
  by (auto simp: excerptPatch_def erased_def bind_tx_def ret_def query_def wait_for_def
      split: option.splits)

lemma excerpts_refreshLease: "moves (excerpts_kept u) (refreshLease no_gap u inp now rs oo)"
proof (rule withinI)
  fix s r s'
  assume run: "refreshLease no_gap u inp now rs oo s = Inr (r, s')"
  have row: "ses_excerpt (lease_row now rs None y) = ses_excerpt y" for y
    by (simp add: lease_row_def Let_def)
  show "excerpts_kept u s s'"
  proof (cases "erased u s")
    case True
    with run row show ?thesis
      by (auto simp: refreshLease_def bind_tx_run [OF excerptPatch_erased] bind_tx_Inr
          update_sessions_def Let_def excerpts_kept_def intro!: sql_update_cong_key
          split: list.splits if_splits)
  qed (simp add: excerpts_kept_def)
qed

text \<open>
  Erasure is final for session content: on an account whose email is the deletion marker an
  open is refused, and a heartbeat, though it may refresh the lease, writes no message excerpt.
\<close>

theorem erased_account_gets_no_content:
  assumes "erased u s"
  shows "openSession no_gap u inp now s = Inl AccountDeleted \<and>
    (heartbeatSession no_gap u hb t s = Inr (r, s') \<longrightarrow>
       map ses_excerpt (tbl_sessions s') = map ses_excerpt (tbl_sessions s))"
proof -
  have "\<not> user_live u s"
    using assms by (simp add: user_live_def erased_def isAccountTombstoned_def split: option.splits)
  then have "openSession no_gap u inp now s = Inl AccountDeleted" by (rule openSession_erased)
  moreover have "moves (excerpts_kept u) (heartbeatSession no_gap u hb t)"
    unfolding heartbeatSession_def readByKey_def select_defs Let_def
    by (intro within_intros excerpts_refreshLease)
      (simp_all add: excerpts.R_refl select_session_def excerpts.within_query)
  ultimately show ?thesis using assms by (auto simp: moves_def excerpts_kept_def)
qed

section \<open>Heartbeat and close\<close>

text \<open>The row a refresh returns.\<close>

lemma refreshLease_row:
  assumes "refreshLease gap u inp now rs oo s = Inr (Some r, s')"
  shows "hr_resurrected r = rs \<and> hr_row r \<in> set (tbl_sessions s') \<and>
    isLeased (ses_last_seen (hr_row r)) now \<and> (rs \<or> oo \<longrightarrow> ses_closed_at (hr_row r) = None)"
proof -
  have leased: "isLeased (ses_last_seen (lease_row now rs e y)) now" for e y
    by (simp add: lease_row_def Let_def isLeased_iff monotonicLastSeen_def SESSION_LEASE_MS_def
        max_def split: option.splits)
  have closed: "ses_closed_at (lease_row now rs e y) = (if rs then None else ses_closed_at y)" for e y
    by (simp add: lease_row_def Let_def split: option.splits)
  from assms obtain e t row rows where
    upd: "update_sessions u (\<lambda>x. naturalKeyPredicate (hb_key inp) x \<and> (oo \<longrightarrow> ses_closed_at x = None))
       (lease_row now rs e) t = Inr (row # rows, s')" and r: "r = \<lparr>hr_row = row, hr_resurrected = rs\<rparr>"
    by (auto simp: refreshLease_def tx_Inr)
  from upd have "row \<in> set (sql_returning (\<lambda>x. ses_user x = u \<and> naturalKeyPredicate (hb_key inp) x \<and>
      (oo \<longrightarrow> ses_closed_at x = None)) (lease_row now rs e) (tbl_sessions t))"
    by (auto simp: update_sessions_def Let_def)
  then obtain y where y: "y \<in> set (tbl_sessions t)" "ses_user y = u"
      "naturalKeyPredicate (hb_key inp) y" "oo \<longrightarrow> ses_closed_at y = None"
      "row = lease_row now rs e y"
    by (auto dest!: sql_returning_mem)
  from upd y have "row \<in> set (tbl_sessions s')"
    by (auto simp: update_sessions_def Let_def set_sql_update)
  with r y leased closed show ?thesis by simp
qed

lemma refreshLease_alone:
  assumes "keyed_session u (hb_key inp) s = Some x"
    and "refreshLease no_gap u inp now rs False s = Inr (Some r, s')"
  shows "\<exists>e. hr_row r = lease_row now rs e x"
proof -
  from assms(2) obtain e where "excerptPatch (no_gap 0) u inp s = Inr (e, s)"
    and upd: "\<exists>rows. update_sessions u (naturalKeyPredicate (hb_key inp)) (lease_row now rs e) s =
      Inr (hr_row r # rows, s')"
    by (auto simp: refreshLease_def excerptPatch_def tx_Inr)
  from upd update_keyed_session [OF assms(1), of "lease_row now rs e"]
  have "hr_row r = lease_row now rs e x" by (auto simp: ses_step_lease_row)
  then show ?thesis ..
qed

text \<open>
  Whatever other transactions do while a heartbeat waits, the row it reports is in the store,
  open, and leased at the heartbeat's instant: a session that a close ended in the gap is reopened
  by the slow path, never left stamped but closed.
\<close>

theorem heartbeat_leaves_session_alive:
  assumes "heartbeatSession gap u inp now s = Inr (r, s')"
  shows "hr_row r \<in> set (tbl_sessions s') \<and> ses_closed_at (hr_row r) = None \<and>
    isLeased (ses_last_seen (hr_row r)) now"
proof -
  have "(\<exists>t. refreshLease gap u inp now False True t = Inr (Some r, s')) \<or>
    (\<exists>t x. keyed_session u (hb_key inp) t = Some x \<and>
       refreshLease no_gap u inp now (isReopen x now) False t = Inr (Some r, s'))"
    using assms
    by (auto simp: heartbeatSession_def tx_Inr Let_def readByKey_run)
  then show ?thesis
  proof
    assume "\<exists>t. refreshLease gap u inp now False True t = Inr (Some r, s')"
    then show ?thesis using refreshLease_row by blast
  next
    assume "\<exists>t x. keyed_session u (hb_key inp) t = Some x \<and>
       refreshLease no_gap u inp now (isReopen x now) False t = Inr (Some r, s')"
    then obtain t x where x: "keyed_session u (hb_key inp) t = Some x"
      and run: "refreshLease no_gap u inp now (isReopen x now) False t = Inr (Some r, s')"
      by blast
    from refreshLease_alone [OF x run] obtain e where "hr_row r = lease_row now (isReopen x now) e x"
      by blast
    then have "\<not> isReopen x now \<longrightarrow> ses_closed_at (hr_row r) = None"
      by (simp add: lease_row_def Let_def isReopen_def split: option.splits)
    with refreshLease_row [OF run] show ?thesis by blast
  qed
qed

lemma closeSession_open:
  assumes "keyed_session u k s = Some x" and "ses_closed_at x = None"
  shows "closeSession (\<lambda>s. s) u k now s = Inr
    (\<lparr>cr_row = x\<lparr>ses_closed_at := Some now\<rparr>, cr_closed_at = now, cr_already = False\<rparr>,
     s\<lparr>tbl_sessions := sql_update (\<lambda>y. ses_user y = u \<and> naturalKeyPredicate k y)
       (\<lambda>y. y\<lparr>ses_closed_at := Some now\<rparr>) (tbl_sessions s)\<rparr>)"
  using assms update_keyed_session [OF assms(1), of "\<lambda>y. y\<lparr>ses_closed_at := Some now\<rparr>"]
  by (auto simp: closeSession_def bind_tx_def wait_for_def readByKey_run ret_def ses_step_def)

lemma closeSession_closed:
  assumes "keyed_session u k s = Some x" and "ses_closed_at x = Some t"
  shows "closeSession (\<lambda>s. s) u k now s = Inr (\<lparr>cr_row = x, cr_closed_at = t, cr_already = True\<rparr>, s)"
  using assms by (simp add: closeSession_def bind_tx_def wait_for_def readByKey_run ret_def)

text \<open>
  SessionEnd is idempotent: a second close, at any later instant, changes nothing and reports
  the instant the first close stamped.
\<close>

theorem closeSession_idempotent:
  assumes "closeSession (\<lambda>s. s) u k now s = Inr (r, s')"
  shows "closeSession (\<lambda>s. s) u k later s' =
    Inr (\<lparr>cr_row = cr_row r, cr_closed_at = cr_closed_at r, cr_already = True\<rparr>, s')"
proof -
  from assms obtain x where x: "keyed_session u k s = Some x"
    by (auto simp: closeSession_def bind_tx_def wait_for_def readByKey_run throw_def split: option.splits)
  show ?thesis
  proof (cases "ses_closed_at x")
    case None
    from closeSession_open [OF x None, of now] assms
    have r: "r = \<lparr>cr_row = x\<lparr>ses_closed_at := Some now\<rparr>, cr_closed_at = now, cr_already = False\<rparr>"
      and s': "s' = s\<lparr>tbl_sessions := sql_update (\<lambda>y. ses_user y = u \<and> naturalKeyPredicate k y)
       (\<lambda>y. y\<lparr>ses_closed_at := Some now\<rparr>) (tbl_sessions s)\<rparr>" by auto
    have "keyed_session u k s' = Some (x\<lparr>ses_closed_at := Some now\<rparr>)"
      unfolding s' using x by (subst keyed_session_update) (simp_all add: ses_step_def)
    then show ?thesis by (simp add: closeSession_closed r)
  next
    case (Some t)
    from closeSession_closed [OF x Some, of now] assms closeSession_closed [OF x Some, of later]
    show ?thesis by auto
  qed
qed

text \<open>
  A SessionEnd that arrives while the lease is live ends the session for writers: a later write
  that names the run, however late, is not attributed to it and does not reopen it.
\<close>

theorem ended_session_takes_no_writes:
  assumes "constraints s" and "keyed_session u k s = Some x" and "ses_closed_at x = None"
    and "isLeased (ses_last_seen x) now"
    and "closeSession (\<lambda>s. s) u k now s = Inr (r, s')"
  shows "attachKnownRun no_gap u (ses_id x) later s' = Inr (None, s')"
proof -
  let ?y = "x\<lparr>ses_closed_at := Some now\<rparr>"
  from closeSession_open [OF assms(2,3), of now] assms(5)
  have s': "s' = s\<lparr>tbl_sessions := sql_update (\<lambda>y. ses_user y = u \<and> naturalKeyPredicate k y)
       (\<lambda>y. y\<lparr>ses_closed_at := Some now\<rparr>) (tbl_sessions s)\<rparr>" by auto
  have "x \<in> set (tbl_sessions s)" "ses_user x = u" "naturalKeyPredicate k x"
    using assms(2) by (auto simp: keyed_session_def dest: find_row_Some)
  moreover have "map ses_id (tbl_sessions s') = map ses_id (tbl_sessions s)"
    unfolding s' by (simp add: sql_update_cong_key)
  ultimately have "session_of u (ses_id x) s' = Some ?y"
    unfolding session_of_def using assms(1)
    by (intro find_row_unique [where key = ses_id])
      (auto simp: s' set_sql_update constraints_def sessions_ok_def ids_ok_def)
  then show ?thesis
    using assms(4) by (simp add: attachKnownRun_decision isExplicitClose_def isLeased_iff)
qed

text \<open>
  The two lease predicates disagree at one instant: a session closed exactly when its lease
  ends counts as explicitly closed although its lease is no longer live then.
\<close>

theorem explicit_close_boundary:
  "isExplicitClose (Some c) l \<and> \<not> isLeased l c \<longleftrightarrow> c = l + SESSION_LEASE_MS"
  by (auto simp: isExplicitClose_def isLeased_iff)

end
