(* ===== verification/FactsWrite.thy ===== *)
theory FactsWrite
  imports SessionLifecycle "HOL-Library.List_Lexorder" "HOL-Library.Char_ord"
    "HOL-Library.Product_Lexorder" "HOL-Library.Multiset"
begin

text \<open>
  Bi-temporal facts (\<open>packages/db/src/facts-write.ts\<close>). A single-valued fact replaces the current
  value of its key (subject, predicate): it closes the open values that started before it and is
  stored open, or as history that ends where a newer open value starts. \<open>now\<close> is the
  transaction's \<open>now()\<close>, in microseconds; the dates a caller gives are JavaScript milliseconds.

  The advisory lock per key is not modelled: it serialises whole writes of a key, and the model
  runs one transaction at a time.
\<close>

datatype cardinality = CardOne | CardMany

record fact_write =
  fw_user :: uid
  fw_memory :: rid
  fw_subject :: string
  fw_predicate :: string
  fw_value :: string
  fw_confidence :: "int option"
  fw_valid_from :: "jsdate option"
  fw_valid_to :: "jsdate option"
  fw_recorded_at :: "jsdate option"
  fw_cardinality :: "cardinality option"

section \<open>Grouping by key\<close>

text \<open>\<open>JSON.stringify\<close> of a string and of the key array, over byte characters.\<close>

definition hex_digit :: "nat \<Rightarrow> char" where
  "hex_digit n = (if n < 10 then char_of (48 + n) else char_of (87 + n))"

definition json_char :: "char \<Rightarrow> string" where
  "json_char c = (
     if c = CHR 0x22 then [CHR 0x5C, CHR 0x22]
     else if c = CHR 0x5C then [CHR 0x5C, CHR 0x5C]
     else if c = CHR 0x08 then [CHR 0x5C, CHR ''b'']
     else if c = CHR 0x0C then [CHR 0x5C, CHR ''f'']
     else if c = CHR 0x0A then [CHR 0x5C, CHR ''n'']
     else if c = CHR 0x0D then [CHR 0x5C, CHR ''r'']
     else if c = CHR 0x09 then [CHR 0x5C, CHR ''t'']
     else if of_char c < (32 :: nat) then
       [CHR 0x5C, CHR ''u'', CHR ''0'', CHR ''0'',
        hex_digit (of_char c div 16), hex_digit (of_char c mod 16)]
     else [c])"

definition json_string :: "string \<Rightarrow> string" where
  "json_string s = [CHR 0x22] @ concat (map json_char s) @ [CHR 0x22]"

definition fact_key :: "fact_write \<Rightarrow> string" where
  "fact_key r = ''['' @ json_string (decimal (fw_user r)) @ '','' @ json_string (fw_subject r) @ '',''
     @ json_string (fw_predicate r) @ '']''"

text \<open>Rows that take no part in supersession.\<close>

definition is_plain :: "bool \<Rightarrow> fact_write \<Rightarrow> bool" where
  "is_plain supersede r \<longleftrightarrow> \<not> supersede \<or> fw_cardinality r = Some CardMany \<or> fw_valid_to r \<noteq> None"

definition plain_indexes :: "bool \<Rightarrow> fact_write list \<Rightarrow> nat list" where
  "plain_indexes supersede rows = filter (\<lambda>i. is_plain supersede (rows ! i)) [0..<length rows]"

definition key_group :: "bool \<Rightarrow> fact_write list \<Rightarrow> string \<Rightarrow> nat list" where
  "key_group supersede rows k =
     filter (\<lambda>i. \<not> is_plain supersede (rows ! i) \<and> fact_key (rows ! i) = k) [0..<length rows]"

definition sorted_keys :: "bool \<Rightarrow> fact_write list \<Rightarrow> string list" where
  "sorted_keys supersede rows =
     sort (remdups (map fact_key (filter (\<lambda>r. \<not> is_plain supersede r) rows)))"

section \<open>Order inside a call\<close>

definition startOf :: "instant \<Rightarrow> fact_write \<Rightarrow> instant" where
  "startOf now r = (case fw_valid_from r of None \<Rightarrow> now | Some d \<Rightarrow> sql_of_date d)"

text \<open>
  \<open>byStart\<close> compares milliseconds: a row without \<open>validFrom\<close> counts as the truncated transaction
  start and sorts after an explicit instant of the same millisecond. The sort is stable.
\<close>

definition start_rank :: "jsdate \<Rightarrow> fact_write \<Rightarrow> int \<times> nat" where
  "start_rank now r = (case fw_valid_from r of None \<Rightarrow> (now, 1) | Some d \<Rightarrow> (d, 0))"

definition byStart :: "nat list \<Rightarrow> fact_write list \<Rightarrow> jsdate \<Rightarrow> nat list" where
  "byStart indexes rows now =
     (if length indexes < 2 then indexes else sort_key (\<lambda>i. start_rank now (rows ! i)) indexes)"

section \<open>Writing\<close>

definition default_instant :: "instant \<Rightarrow> jsdate option \<Rightarrow> instant" where
  "default_instant now d = (case d of None \<Rightarrow> now | Some t \<Rightarrow> sql_of_date t)"

definition factColumns :: "instant \<Rightarrow> fact_write \<Rightarrow> fact" where
  "factColumns now r =
     \<lparr>fact_id = 0, fact_user = fw_user r, fact_memory = fw_memory r, fact_subject = fw_subject r,
      fact_predicate = fw_predicate r, fact_value = fw_value r, fact_confidence = fw_confidence r,
      fact_valid_from = default_instant now (fw_valid_from r),
      fact_valid_to = map_option sql_of_date (fw_valid_to r),
      fact_recorded_at = default_instant now (fw_recorded_at r)\<rparr>"

definition openForKey :: "fact_write \<Rightarrow> fact \<Rightarrow> bool" where
  "openForKey r x \<longleftrightarrow> fact_subject x = fw_subject r \<and> fact_predicate x = fw_predicate r \<and>
     fact_valid_to x = None"

text \<open>\<open>SELECT min(valid_from)\<close> over the open values of the key that start after \<open>start\<close>.\<close>

fun sql_min :: "int list \<Rightarrow> int option" where
  "sql_min [] = None"
| "sql_min (x # xs) = (case sql_min xs of None \<Rightarrow> Some x | Some y \<Rightarrow> Some (min x y))"

definition nextOpen :: "fact_write \<Rightarrow> instant \<Rightarrow> store \<Rightarrow> instant option" where
  "nextOpen r start s = sql_min (map fact_valid_from
     (filter (\<lambda>x. fact_user x = fw_user r \<and> openForKey r x \<and> start < fact_valid_from x) (tbl_facts s)))"

definition end_of :: "instant \<Rightarrow> instant option \<Rightarrow> instant option \<Rightarrow> instant option" where
  "end_of start nextInCall nxt = (case nextInCall of
       None \<Rightarrow> nxt
     | Some n \<Rightarrow> Some (max start (case nxt of None \<Rightarrow> n | Some m \<Rightarrow> min n m)))"

definition replaceValue :: "instant \<Rightarrow> fact_write \<Rightarrow> instant option \<Rightarrow> rid stm" where
  "replaceValue now r nextInCall = (let start = startOf now r in
     bind_tx (update_facts (fw_user r) (\<lambda>x. openForKey r x \<and> fact_valid_from x \<le> start)
                (\<lambda>x. x\<lparr>fact_valid_to := Some start\<rparr>)) (\<lambda>_.
     bind_tx (query (nextOpen r start)) (\<lambda>nxt.
     insert_fact_row ((factColumns now r)\<lparr>fact_valid_from := start,
       fact_valid_to := end_of start nextInCall nxt\<rparr>))))"

text \<open>The inner loop of \<open>writeSingleValued\<close>, over one key's ordered indexes.\<close>

fun write_chain :: "instant \<Rightarrow> fact_write list \<Rightarrow> nat list \<Rightarrow> (nat \<times> rid) list stm" where
  "write_chain now rows [] = ret []"
| "write_chain now rows (i # rest) =
     bind_tx (replaceValue now (rows ! i)
        (case rest of [] \<Rightarrow> None | j # _ \<Rightarrow> Some (startOf now (rows ! j)))) (\<lambda>newId.
     bind_tx (write_chain now rows rest) (\<lambda>ids. ret ((i, newId) # ids)))"

definition writeSingleValued :: "instant \<Rightarrow> bool \<Rightarrow> fact_write list \<Rightarrow> (nat \<times> rid) list stm" where
  "writeSingleValued now supersede rows =
     bind_tx (for_each (sorted_keys supersede rows) (\<lambda>k.
        write_chain now rows (byStart (key_group supersede rows k) rows (date_of_sql now))))
       (\<lambda>idss. ret (concat idss))"

definition insertPlain :: "instant \<Rightarrow> fact_write list \<Rightarrow> rid list stm" where
  "insertPlain now rows = for_each rows (\<lambda>r. insert_fact_row (factColumns now r))"

text \<open>The ids in the positions of the rows they belong to.\<close>

definition positional :: "nat \<Rightarrow> (nat \<times> rid) list \<Rightarrow> rid list" where
  "positional n ids = map (\<lambda>i. case map_of ids i of None \<Rightarrow> 0 | Some v \<Rightarrow> v) [0..<n]"

definition insertFacts :: "instant \<Rightarrow> fact_write list \<Rightarrow> bool \<Rightarrow> rid list stm" where
  "insertFacts now rows supersede =
     (if rows = [] then ret [] else (let plain = plain_indexes supersede rows in
        bind_tx (writeSingleValued now supersede rows) (\<lambda>ids.
        bind_tx (insertPlain now (map (\<lambda>i. rows ! i) plain)) (\<lambda>plainIds.
        ret (positional (length rows) (ids @ zip plain plainIds))))))"

definition insertFact :: "instant \<Rightarrow> fact_write \<Rightarrow> bool \<Rightarrow> rid stm" where
  "insertFact now r supersede = bind_tx (insertFacts now [r] supersede) (\<lambda>ids. case ids of
       [] \<Rightarrow> throw NoRowReturned | i # _ \<Rightarrow> ret i)"

section \<open>The contract\<close>

lemma factColumns_user [simp]: "fact_user (factColumns now r) = fw_user r"
  by (simp add: factColumns_def)

context tenant_contract
begin

lemma within_close_open:
  "moves R (update_facts u (\<lambda>x. openForKey r x \<and> P x) (\<lambda>x. x\<lparr>fact_valid_to := t\<rparr>))"
  by (rule upd_facts) (simp add: fact_step_def openForKey_def)

lemma within_replaceValue:
  assumes "fw_user r = u"
  shows "moves R (replaceValue now r nx)"
  unfolding replaceValue_def Let_def assms
  by (intro within_bind within_query ins_fact within_close_open) (simp add: assms)

lemma within_write_chain:
  "(\<And>i. i \<in> set ixs \<Longrightarrow> fw_user (rows ! i) = u) \<Longrightarrow> moves R (write_chain now rows ixs)"
  by (induction ixs) (auto intro!: within_ret within_bind within_replaceValue)

lemma within_insertFacts:
  assumes "\<And>r. r \<in> set rows \<Longrightarrow> fw_user r = u"
  shows "moves R (insertFacts now rows supersede)"
proof -
  have "fw_user (rows ! i) = u" if "i \<in> set (byStart (key_group supersede rows k) rows t)" for i k t
    using that assms by (auto simp: byStart_def key_group_def split: if_splits)
  moreover have "fw_user (rows ! i) = u" if "i \<in> set (plain_indexes supersede rows)" for i
    using that assms by (auto simp: plain_indexes_def)
  ultimately show ?thesis
    unfolding insertFacts_def writeSingleValued_def insertPlain_def Let_def
    by (auto intro!: within_if within_ret within_bind within_for_each within_write_chain ins_fact)
qed

end

section \<open>Order inside a call, proved\<close>

lemma start_rank_le:
  "start_rank (date_of_sql now) a \<le> start_rank (date_of_sql now) b \<Longrightarrow> startOf now a \<le> startOf now b"
  by (cases "fw_valid_from a"; cases "fw_valid_from b")
    (auto simp: start_rank_def startOf_def sql_of_date_def date_of_sql_def)

text \<open>
  The order in which one call writes the values of a key is the order of their starts in SQL,
  although the code compares truncated milliseconds, and no row is lost or repeated.
\<close>

theorem byStart_orders_by_sql_start:
  "sorted (map (\<lambda>i. startOf now (rows ! i)) (byStart ixs rows (date_of_sql now))) \<and>
   mset (byStart ixs rows (date_of_sql now)) = mset ixs"
proof -
  let ?f = "\<lambda>i. start_rank (date_of_sql now) (rows ! i)"
  have "sorted (map (\<lambda>i. startOf now (rows ! i)) (sort_key ?f ixs))"
    using sorted_sort_key [of ?f ixs]
    by (auto simp: sorted_map elim: sorted_wrt_mono_rel [rotated] intro: start_rank_le)
  moreover have "length ixs < 2 \<Longrightarrow> sorted (map (\<lambda>i. startOf now (rows ! i)) ixs)"
    by (cases ixs) (auto simp: numeral_2_eq_2)
  ultimately show ?thesis by (simp add: byStart_def)
qed

section \<open>The current value of a key\<close>

definition open_values :: "uid \<Rightarrow> string \<Rightarrow> string \<Rightarrow> store \<Rightarrow> fact list" where
  "open_values u subj pred s = filter (\<lambda>x. fact_user x = u \<and> fact_subject x = subj \<and>
     fact_predicate x = pred \<and> fact_valid_to x = None) (tbl_facts s)"

abbreviation open_for :: "fact_write \<Rightarrow> store \<Rightarrow> fact list" where
  "open_for r \<equiv> open_values (fw_user r) (fw_subject r) (fw_predicate r)"

abbreviation later_open :: "fact_write \<Rightarrow> instant \<Rightarrow> store \<Rightarrow> fact list" where
  "later_open r t s \<equiv> filter (\<lambda>x. t < fact_valid_from x) (open_for r s)"

lemma sql_min_None: "sql_min xs = None \<longleftrightarrow> xs = []"
  by (cases xs) (auto split: option.splits)

lemma sql_min_Some: "sql_min xs = Some m \<Longrightarrow> m \<in> set xs \<and> (\<forall>x \<in> set xs. m \<le> x)"
proof (induction xs arbitrary: m)
  case (Cons x xs)
  then show ?case
    by (cases "sql_min xs") (auto simp: sql_min_None min_def split: if_splits)
qed simp

lemma nextOpen_eq: "nextOpen r t s = sql_min (map fact_valid_from (later_open r t s))"
  unfolding nextOpen_def open_values_def openForKey_def
  by (rule arg_cong [where f = "\<lambda>xs. sql_min (map fact_valid_from xs)"])
    (auto intro: filter_cong)

definition close_at :: "fact_write \<Rightarrow> instant \<Rightarrow> fact list \<Rightarrow> fact list" where
  "close_at r t = sql_update (\<lambda>x. fact_user x = fw_user r \<and> openForKey r x \<and> fact_valid_from x \<le> t)
     (\<lambda>x. x\<lparr>fact_valid_to := Some t\<rparr>)"

definition new_fact :: "instant \<Rightarrow> fact_write \<Rightarrow> instant option \<Rightarrow> store \<Rightarrow> fact" where
  "new_fact now r nx s = (factColumns now r)\<lparr>fact_id := next_id s, fact_valid_from := startOf now r,
     fact_valid_to := end_of (startOf now r) nx (nextOpen r (startOf now r) s)\<rparr>"

lemma filter_later_close:
  "filter (\<lambda>x. fact_user x = fw_user r \<and> openForKey r x \<and> t < fact_valid_from x) (close_at r t xs) =
   filter (\<lambda>x. fact_user x = fw_user r \<and> openForKey r x \<and> t < fact_valid_from x) xs"
  unfolding close_at_def by (rule filter_sql_update_other) (auto simp: openForKey_def)

lemma end_of_window:
  "nextOpen r t s = nxt \<Longrightarrow> window_ok t (end_of t nx nxt)"
  by (cases nx; cases nxt)
    (auto simp: end_of_def window_ok_def nextOpen_eq dest!: sql_min_Some)

text \<open>
  Replacing a value never breaks the validity CHECK: with the source memory in place the
  statement pair succeeds, closing exactly the open values of the key that started no later, at
  the new value's own start, and appending the new value.
\<close>

theorem replaceValue_effect:
  assumes "(fw_user r, fw_memory r) \<in> mem_keys (tbl_memories s)"
  shows "replaceValue now r nx s = Inr (next_id s,
     s\<lparr>tbl_facts := close_at r (startOf now r) (tbl_facts s) @ [new_fact now r nx s],
       next_id := Suc (next_id s)\<rparr>)"
proof -
  let ?t = "startOf now r"
  have "nextOpen r ?t (s\<lparr>tbl_facts := close_at r ?t (tbl_facts s)\<rparr>) = nextOpen r ?t s"
    by (simp add: nextOpen_def filter_later_close)
  moreover have "\<forall>x \<in> set (sql_returning (\<lambda>x. fact_user x = fw_user r \<and> openForKey r x \<and>
      fact_valid_from x \<le> ?t) (\<lambda>x. x\<lparr>fact_valid_to := Some ?t\<rparr>) (tbl_facts s)).
      window_ok (fact_valid_from x) (fact_valid_to x)"
    by (auto simp: sql_returning_def window_ok_def)
  ultimately show ?thesis
    using assms end_of_window [of r ?t s]
    by (simp add: replaceValue_def Let_def bind_tx_def query_def update_facts_def insert_fact_row_def
        new_fact_def factColumns_def flip: close_at_def)
qed

lemma replaceValue_Inr:
  "replaceValue now r nx s = Inr (i, s') \<longleftrightarrow>
   (fw_user r, fw_memory r) \<in> mem_keys (tbl_memories s) \<and> i = next_id s \<and>
   s' = s\<lparr>tbl_facts := close_at r (startOf now r) (tbl_facts s) @ [new_fact now r nx s],
       next_id := Suc (next_id s)\<rparr>" (is "?l \<longleftrightarrow> ?r")
proof
  assume ?l
  then have "(fw_user r, fw_memory r) \<in> mem_keys (tbl_memories s)"
    by (auto simp: replaceValue_def Let_def tx_Inr update_facts_def insert_fact_row_def
        factColumns_def split: if_splits)
  with replaceValue_effect [OF this, of now nx] \<open>?l\<close> show ?r by auto
qed (auto simp: replaceValue_effect)

text \<open>The open values of the written key, and of any other key, after a replacement.\<close>

lemma open_values_replace_same:
  assumes "replaceValue now r nx s = Inr (i, s')"
  shows "open_for r s' = (let later = later_open r (startOf now r) s in
     if nx = None \<and> later = [] then [new_fact now r nx s] else later)"
proof -
  let ?t = "startOf now r"
  have old: "filter (\<lambda>x. fact_user x = fw_user r \<and> fact_subject x = fw_subject r \<and>
      fact_predicate x = fw_predicate r \<and> fact_valid_to x = None) (close_at r ?t xs) =
    filter (\<lambda>x. ?t < fact_valid_from x) (filter (\<lambda>x. fact_user x = fw_user r \<and>
      fact_subject x = fw_subject r \<and> fact_predicate x = fw_predicate r \<and> fact_valid_to x = None) xs)" for xs
    by (induction xs) (auto simp: close_at_def sql_update_def openForKey_def)
  have new: "fact_valid_to (new_fact now r nx s) = None \<longleftrightarrow> nx = None \<and> later_open r ?t s = []"
    by (auto simp: new_fact_def end_of_def nextOpen_eq sql_min_None split: option.splits)
  from assms old [of "tbl_facts s"] new show ?thesis
    by (auto simp: replaceValue_Inr open_values_def new_fact_def factColumns_def Let_def)
qed

lemma open_values_replace_other:
  assumes "replaceValue now r nx s = Inr (i, s')"
    and "(u, subj, pred) \<noteq> (fw_user r, fw_subject r, fw_predicate r)"
  shows "open_values u subj pred s' = open_values u subj pred s"
proof -
  have "filter (\<lambda>x. fact_user x = u \<and> fact_subject x = subj \<and> fact_predicate x = pred \<and>
      fact_valid_to x = None) (close_at r (startOf now r) (tbl_facts s)) =
    filter (\<lambda>x. fact_user x = u \<and> fact_subject x = subj \<and> fact_predicate x = pred \<and>
      fact_valid_to x = None) (tbl_facts s)"
    unfolding close_at_def using assms(2)
    by (intro filter_sql_update_other) (auto simp: openForKey_def)
  with assms show ?thesis
    by (auto simp: replaceValue_Inr open_values_def new_fact_def factColumns_def)
qed

text \<open>The bound \<open>max 1\<close> on the open values of a key is a relation that every replacement stays within.\<close>

definition open_bound :: "uid \<Rightarrow> string \<Rightarrow> string \<Rightarrow> store \<Rightarrow> store \<Rightarrow> bool" where
  "open_bound u subj pred s s' \<longleftrightarrow>
     length (open_values u subj pred s') \<le> max 1 (length (open_values u subj pred s))"

interpretation bound: tx_preorder "open_bound u subj pred"
  by unfold_locales (auto simp: open_bound_def)

lemma bound_replaceValue: "moves (open_bound u subj pred) (replaceValue now r nx)"
proof (rule withinI)
  fix s i s'
  assume run: "replaceValue now r nx s = Inr (i, s')"
  show "open_bound u subj pred s s'"
  proof (cases "(u, subj, pred) = (fw_user r, fw_subject r, fw_predicate r)")
    case True
    with open_values_replace_same [OF run] show ?thesis
      by (auto simp: open_bound_def Let_def intro: le_trans [OF length_filter_le])
  next
    case False
    with open_values_replace_other [OF run] show ?thesis by (simp add: open_bound_def)
  qed
qed

lemma bound_write_chain: "moves (open_bound u subj pred) (write_chain now rows ixs)"
  by (induction ixs) (auto intro!: within_intros bound_replaceValue)

lemma bound_plain:
  assumes "(fw_user r, fw_subject r, fw_predicate r) = (u, subj, pred) \<longrightarrow> fw_valid_to r \<noteq> None"
  shows "moves (open_bound u subj pred) (insert_fact_row (factColumns now r))"
  using assms
  by (auto simp: moves_def open_bound_def insert_fact_row_def open_values_def factColumns_def Let_def
      split: if_splits)

text \<open>
  One current value per key. A key that holds at most one open value still does after any
  call of \<open>insertFacts\<close>, whatever keys and instants its rows carry, as long as the call writes no
  open \<open>many\<close> (or verbatim) value of that key.
\<close>

theorem insertFacts_single_current:
  assumes "length (open_values u subj pred s) \<le> 1"
    and "\<And>r. r \<in> set rows \<Longrightarrow> is_plain supersede r \<Longrightarrow>
      (fw_user r, fw_subject r, fw_predicate r) = (u, subj, pred) \<Longrightarrow> fw_valid_to r \<noteq> None"
    and "insertFacts now rows supersede s = Inr (ids, s')"
  shows "length (open_values u subj pred s') \<le> 1"
proof -
  have "moves (open_bound u subj pred) (insert_fact_row (factColumns now (rows ! i)))"
    if "i \<in> set (plain_indexes supersede rows)" for i
    using that assms(2) [of "rows ! i"] by (intro bound_plain) (auto simp: plain_indexes_def)
  then have "moves (open_bound u subj pred) (insertFacts now rows supersede)"
    unfolding insertFacts_def writeSingleValued_def insertPlain_def Let_def
    by (auto intro!: within_intros bound_write_chain)
  then have "open_bound u subj pred s s'" using assms(3) by (rule withinD)
  with assms(1) show ?thesis by (simp add: open_bound_def)
qed

text \<open>One row at a time.\<close>

lemma insertFact_single:
  assumes "\<not> is_plain True r"
  shows "insertFact now r True s = replaceValue now r None s"
proof -
  have "plain_indexes True [r] = []" "sorted_keys True [r] = [fact_key r]"
    "byStart (key_group True [r] (fact_key r)) [r] (date_of_sql now) = [0]"
    using assms by (simp_all add: plain_indexes_def sorted_keys_def key_group_def byStart_def)
  then show ?thesis
    by (auto simp: insertFact_def insertFacts_def writeSingleValued_def insertPlain_def
        positional_def bind_tx_def ret_def split: sum.splits)
qed

text \<open>
  A value that starts no earlier than every open value of its key becomes the one current
  value; the values it replaces stay, each closed exactly at its start. A value backdated before
  an open one is history: it ends where the earliest of those starts, and the current value is
  not touched.
\<close>

theorem insertFact_latest_or_history:
  assumes "\<not> is_plain True r" and "insertFact now r True s = Inr (i, s')"
  shows "if \<forall>x \<in> set (open_for r s). fact_valid_from x \<le> startOf now r
    then (\<exists>x. open_for r s' = [x] \<and> fact_id x = i \<and> fact_value x = fw_value r \<and>
            fact_valid_from x = startOf now r) \<and>
         (\<forall>x \<in> set (open_for r s). x\<lparr>fact_valid_to := Some (startOf now r)\<rparr> \<in> set (tbl_facts s'))
    else (\<exists>x e. x \<in> set (tbl_facts s') \<and> fact_id x = i \<and> fact_valid_to x = Some e \<and>
            e \<in> fact_valid_from ` set (later_open r (startOf now r) s) \<and>
            (\<forall>y \<in> set (later_open r (startOf now r) s). e \<le> fact_valid_from y)) \<and>
         open_for r s' = later_open r (startOf now r) s"
proof -
  let ?t = "startOf now r" and ?n = "new_fact now r None s"
  from assms have run: "replaceValue now r None s = Inr (i, s')" by (simp add: insertFact_single)
  then have i: "fact_id ?n = i" "fact_value ?n = fw_value r" "fact_valid_from ?n = ?t"
    and facts: "tbl_facts s' = close_at r ?t (tbl_facts s) @ [?n]"
    by (auto simp: replaceValue_Inr new_fact_def factColumns_def)
  show ?thesis
  proof (cases "\<forall>x \<in> set (open_for r s). fact_valid_from x \<le> ?t")
    case True
    then have "later_open r ?t s = []" by (auto simp: filter_empty_conv not_less)
    with open_values_replace_same [OF run] have "open_for r s' = [?n]" by simp
    moreover have "x\<lparr>fact_valid_to := Some ?t\<rparr> \<in> set (tbl_facts s')" if "x \<in> set (open_for r s)" for x
      using that True facts
      by (auto simp: close_at_def set_sql_update open_values_def openForKey_def)
    ultimately show ?thesis using True i by auto
  next
    case False
    then have ne: "later_open r ?t s \<noteq> []" by (auto simp: filter_empty_conv not_le)
    then obtain e where e: "nextOpen r ?t s = Some e"
      by (cases "nextOpen r ?t s") (auto simp: nextOpen_eq sql_min_None)
    then have "fact_valid_to ?n = Some e" by (simp add: new_fact_def end_of_def)
    moreover have "open_for r s' = later_open r ?t s"
      using open_values_replace_same [OF run] ne by (simp add: Let_def)
    moreover have "e \<in> fact_valid_from ` set (later_open r ?t s) \<and>
        (\<forall>y \<in> set (later_open r ?t s). e \<le> fact_valid_from y)"
      using e by (auto simp: nextOpen_eq dest!: sql_min_Some)
    ultimately show ?thesis using False i facts by auto
  qed
qed

end
