(* ===== verification/MemoryWrite.thy ===== *)
theory MemoryWrite
  imports FactsWrite
begin

text \<open>
  Appending a memory: \<open>packages/db/src/memory-write.ts\<close> and the typed edges of
  \<open>packages/db/src/memory-edges.ts\<close>.

  \<open>t\<close> is the transaction's \<open>now()\<close>; \<open>now\<close> is the injected JavaScript clock. \<open>gap\<close> is what other
  transactions commit at the waits: 0 to 3 are the attach lock of the provenance, 4 is the advisory
  lock of the cap, and 5 is the window between the duplicate SELECT and the INSERT, which READ
  COMMITTED leaves open.
\<close>

section \<open>Inputs and results\<close>

record commitment_write =
  cw_due_at :: "jsdate option"
  cw_owner :: "string option"

record memory_write =
  mw_user :: uid
  mw_type :: memory_type
  mw_topic :: string
  mw_content :: string
  mw_scope :: string
  mw_project :: "string option"
  mw_tags :: "string list"
  mw_hash :: string
  mw_actor :: actor_kind
  mw_run :: run_arg
  mw_commitment :: "commitment_write option"
  mw_status :: "memory_status option"
  mw_valid_from :: "jsdate option"
  mw_valid_to :: "jsdate option"
  mw_recorded_at :: "jsdate option"

record event_write =
  ew_kind :: event_kind
  ew_payload :: "payload option"
  ew_created_at :: "jsdate option"

record written_memory =
  wm_id :: rid
  wm_commitment :: "rid option"
  wm_facts :: "rid list option"

section \<open>The append\<close>

text \<open>The row of the INSERT: omitted columns take their defaults.\<close>

definition memory_row :: "instant \<Rightarrow> memory_write \<Rightarrow> memory" where
  "memory_row t w = \<lparr>mem_id = 0, mem_user = mw_user w, mem_type = mw_type w, mem_topic = mw_topic w,
     mem_content = mw_content w, mem_scope = mw_scope w, mem_project = mw_project w,
     mem_status = (case mw_status w of None \<Rightarrow> Active | Some x \<Rightarrow> x), mem_tags = mw_tags w,
     mem_hash = mw_hash w, mem_valid_from = default_instant t (mw_valid_from w),
     mem_valid_to = map_option sql_of_date (mw_valid_to w),
     mem_recorded_at = default_instant t (mw_recorded_at w),
     mem_created_at = t, mem_updated_at = t, mem_embedding = None,
     mem_last_reviewed = None\<rparr>"

definition event_row ::
  "instant \<Rightarrow> uid \<Rightarrow> rid \<Rightarrow> event_kind \<Rightarrow> actor_kind \<Rightarrow> payload option \<Rightarrow> memory_event" where
  "event_row t u m k a p = \<lparr>ev_id = 0, ev_user = u, ev_memory = m, ev_kind = k, ev_actor = a,
     ev_payload = p, ev_created_at = t\<rparr>"

definition live_with_hash :: "string \<Rightarrow> memory \<Rightarrow> bool" where
  "live_with_hash h m \<longleftrightarrow> mem_hash m = h \<and> mem_valid_to m = None"

definition active_live :: "uid \<Rightarrow> memory \<Rightarrow> bool" where
  "active_live u m \<longleftrightarrow> mem_user m = u \<and> mem_status m = Active \<and> mem_valid_to m = None"

definition live_count :: "uid \<Rightarrow> store \<Rightarrow> nat" where
  "live_count u s = length (filter (active_live u) (tbl_memories s))"

definition consumesLiveSlot :: "memory_write \<Rightarrow> bool" where
  "consumesLiveSlot w \<longleftrightarrow>
     (case mw_status w of None \<Rightarrow> Active | Some x \<Rightarrow> x) = Active \<and> mw_valid_to w = None"

definition duplicate_guard :: "memory_write \<Rightarrow> unit stm" where
  "duplicate_guard w = (if mw_valid_to w = None then
       bind_tx (select_memory (mw_user w) (live_with_hash (mw_hash w))) (\<lambda>existing.
         case existing of Some _ \<Rightarrow> throw (DuplicateMemory (mw_hash w)) | None \<Rightarrow> ret ())
     else ret ())"

definition cap_guard :: "memory_write \<Rightarrow> nat option \<Rightarrow> unit stm" where
  "cap_guard w cap = (case cap of None \<Rightarrow> ret ()
     | Some mx \<Rightarrow> if consumesLiveSlot w then
         bind_tx (query (live_count (mw_user w))) (\<lambda>n.
           if mx \<le> n then throw ResourceLimitExceeded else ret ())
       else ret ())"

definition insertMemoryWithEvent ::
  "interference \<Rightarrow> instant \<Rightarrow> memory_write \<Rightarrow> event_write \<Rightarrow> nat option \<Rightarrow> rid stm" where
  "insertMemoryWithEvent gap t w ev cap =
     bind_tx (if cap \<noteq> None then wait_for (gap 4) else ret ()) (\<lambda>_.
     bind_tx (duplicate_guard w) (\<lambda>_.
     bind_tx (cap_guard w cap) (\<lambda>_.
     bind_tx (wait_for (gap 5)) (\<lambda>_.
     bind_tx (insert_memory (memory_row t w)) (\<lambda>i.
     bind_tx (insert_event ((event_row t (mw_user w) i (ew_kind ev) (mw_actor w) (ew_payload ev))
                \<lparr>ev_created_at := default_instant t (ew_created_at ev)\<rparr>)) (\<lambda>_.
     ret i))))))"

text \<open>The auto-created commitment: status \<open>open\<close>, the deadline and owner when given.\<close>

definition commitment_row :: "instant \<Rightarrow> uid \<Rightarrow> rid \<Rightarrow> string option \<Rightarrow> jsdate option \<Rightarrow> commitment" where
  "commitment_row t u m own due = \<lparr>com_id = 0, com_user = u, com_memory = m, com_status = StOpen,
     com_owner = own, com_due_at = map_option sql_of_date due, com_recurrence = None,
     com_next_surfacing_at = None, com_resolved_at = None, com_last_resolution_reason = None,
     com_created_at = t, com_updated_at = t\<rparr>"

definition file_fact :: "uid \<Rightarrow> rid \<Rightarrow> fact_write \<Rightarrow> fact_write" where
  "file_fact u m f = f\<lparr>fw_user := u, fw_memory := m\<rparr>"

definition native_event :: "payload option \<Rightarrow> event_write" where
  "native_event p = \<lparr>ew_kind = EvCreate, ew_payload = p, ew_created_at = None\<rparr>"

definition auto_commitment :: "instant \<Rightarrow> memory_write \<Rightarrow> rid \<Rightarrow> rid option stm" where
  "auto_commitment t w i = (if mw_type w \<noteq> Commitment then ret None else
     bind_tx (insert_commitment (commitment_row t (mw_user w) i
         (case mw_commitment w of None \<Rightarrow> None | Some c \<Rightarrow> cw_owner c)
         (case mw_commitment w of None \<Rightarrow> None | Some c \<Rightarrow> cw_due_at c))) (\<lambda>c. ret (Some c)))"

definition writeMemory_tx ::
  "interference \<Rightarrow> instant \<Rightarrow> jsdate \<Rightarrow> memory_write \<Rightarrow> nat option \<Rightarrow> fact_write list \<Rightarrow>
   written_memory stm" where
  "writeMemory_tx gap t now w cap facts =
     bind_tx (resolveSessionProvenance gap (mw_user w) (mw_run w) (mw_project w) now) (\<lambda>runId.
     bind_tx (insertMemoryWithEvent gap t w (native_event (sessionPayload runId)) cap) (\<lambda>i.
     bind_tx (insertFacts t (map (file_fact (mw_user w) i) facts) True) (\<lambda>factIds.
     bind_tx (auto_commitment t w i) (\<lambda>c.
     ret \<lparr>wm_id = i, wm_commitment = c, wm_facts = (if factIds = [] then None else Some factIds)\<rparr>))))"

definition duplicate_of :: "string \<Rightarrow> err \<Rightarrow> err" where
  "duplicate_of h e = (if e = UniqueViolation then DuplicateMemory h else e)"

definition writeMemory ::
  "interference \<Rightarrow> instant \<Rightarrow> jsdate \<Rightarrow> memory_write \<Rightarrow> nat option \<Rightarrow> fact_write list \<Rightarrow>
   store \<Rightarrow> (err + written_memory) \<times> store" where
  "writeMemory gap t now w cap facts =
     withTenant (mw_user w) (map_error (duplicate_of (mw_hash w)) (writeMemory_tx gap t now w cap facts))"

section \<open>Edges\<close>

definition insertEdge :: "instant \<Rightarrow> uid \<Rightarrow> rid \<Rightarrow> rid \<Rightarrow> edge_type \<Rightarrow> actor_kind \<Rightarrow> unit stm" where
  "insertEdge t u frm to k a =
     bind_tx (map_error (\<lambda>e. if e = UniqueViolation then EdgeConflict frm to k else e)
       (insert_edge_row \<lparr>edge_id = 0, edge_user = u, edge_from = frm, edge_to = to, edge_kind = k,
          edge_created_by = a, edge_created_at = t\<rparr>)) (\<lambda>_. ret ())"

section \<open>The contract\<close>

lemma row_users [simp]:
  "mem_user (memory_row t w) = mw_user w" "ev_user (event_row t u m k a p) = u"
  "com_user (commitment_row t u m own due) = u" "fw_user (file_fact u m f) = u"
  by (simp_all add: memory_row_def event_row_def commitment_row_def file_fact_def)

context tenant_contract
begin

lemma within_insertMemoryWithEvent:
  assumes "\<And>k s. R s (gap k s)" and "mw_user w = u"
  shows "moves R (insertMemoryWithEvent gap t w ev cap)"
  unfolding insertMemoryWithEvent_def duplicate_guard_def cap_guard_def
  by (intro within_statements assms) (simp_all add: assms(2))

lemma within_insertEdge: "moves R (insertEdge t u frm to k a)"
  unfolding insertEdge_def by (intro within_statements) simp

lemma within_writeMemory_tx:
  assumes "\<And>k s. R s (gap k s)" and "mw_user w = u"
  shows "moves R (writeMemory_tx gap t now w cap facts)"
  unfolding writeMemory_tx_def auto_commitment_def assms(2)
  by (intro within_statements within_resolveSessionProvenance within_insertMemoryWithEvent
      within_insertFacts assms) (auto simp: assms(2))

end

section \<open>What an append does\<close>

abbreviation appended :: "instant \<Rightarrow> memory_write \<Rightarrow> event_write \<Rightarrow> store \<Rightarrow> store" where
  "appended t w ev s \<equiv> s\<lparr>
     tbl_memories := tbl_memories s @ [(memory_row t w)\<lparr>mem_id := next_id s\<rparr>],
     tbl_events := tbl_events s @ [(event_row t (mw_user w) (next_id s) (ew_kind ev) (mw_actor w) (ew_payload ev))
       \<lparr>ev_id := Suc (next_id s), ev_created_at := default_instant t (ew_created_at ev)\<rparr>],
     next_id := Suc (Suc (next_id s))\<rparr>"

definition row_fits :: "instant \<Rightarrow> memory_write \<Rightarrow> store \<Rightarrow> bool" where
  "row_fits t w s \<longleftrightarrow>
     window_ok (default_instant t (mw_valid_from w)) (map_option sql_of_date (mw_valid_to w)) \<and>
     distinct (live_hashes (tbl_memories s @ [(memory_row t w)\<lparr>mem_id := next_id s\<rparr>]))"

lemma insert_pair_Inr:
  "bind_tx (insert_memory (memory_row t w)) (\<lambda>i.
     bind_tx (insert_event ((event_row t (mw_user w) i (ew_kind ev) (mw_actor w) (ew_payload ev))
                \<lparr>ev_created_at := default_instant t (ew_created_at ev)\<rparr>)) (\<lambda>_. ret i)) s = Inr (i, s')
   \<longleftrightarrow> row_fits t w s \<and> i = next_id s \<and> s' = appended t w ev s"
  by (auto simp: bind_tx_Inr insert_memory_def insert_event_def Let_def row_fits_def memory_row_def
      event_row_def mem_keys_append split: if_splits)

lemma insertMemoryWithEvent_Inr:
  "insertMemoryWithEvent gap t w ev cap s = Inr (i, s') \<longleftrightarrow>
   (let s4 = (if cap \<noteq> None then gap 4 s else s); s5 = gap 5 s4 in
    duplicate_guard w s4 = Inr ((), s4) \<and> cap_guard w cap s4 = Inr ((), s4) \<and>
    row_fits t w s5 \<and> i = next_id s5 \<and> s' = appended t w ev s5)"
proof -
  have d: "duplicate_guard w s = Inr ((), s') \<Longrightarrow> s' = s" for s s'
    by (auto simp: duplicate_guard_def tx_Inr select_memory_def)
  have c: "cap_guard w cap s = Inr ((), s') \<Longrightarrow> s' = s" for s s'
    by (auto simp: cap_guard_def tx_Inr)
  show ?thesis
    by (cases cap) (simp_all add: insertMemoryWithEvent_def bind_guard_Inr [OF d]
        bind_guard_Inr [OF c] insert_pair_Inr Let_def)
qed

lemma duplicate_guard_ok:
  "duplicate_guard w s = Inr ((), s) \<longleftrightarrow> (mw_valid_to w = None \<longrightarrow>
     (\<forall>m \<in> set (tbl_memories s). mem_user m = mw_user w \<longrightarrow> \<not> live_with_hash (mw_hash w) m))"
  by (cases "find_row (\<lambda>m. mem_user m = mw_user w \<and> live_with_hash (mw_hash w) m) (tbl_memories s)")
    (auto simp: duplicate_guard_def select_memory_def throw_def ret_def
      dest: find_row_Some dest!: find_row_None [THEN iffD1])

lemma cap_guard_ok:
  "cap_guard w cap s = Inr ((), s) \<longleftrightarrow>
   (case cap of None \<Rightarrow> True | Some mx \<Rightarrow> consumesLiveSlot w \<longrightarrow> live_count (mw_user w) s < mx)"
  by (auto simp: cap_guard_def throw_def ret_def query_def bind_tx_def split: option.splits)

text \<open>Facts are written to their own table only.\<close>

definition only_facts :: "store \<Rightarrow> store \<Rightarrow> bool" where
  "only_facts s s' \<longleftrightarrow> (\<exists>fs n. s' = s\<lparr>tbl_facts := fs, next_id := n\<rparr>)"

lemma only_facts_I: "only_facts s (s\<lparr>tbl_facts := fs, next_id := n\<rparr>)"
  by (auto simp: only_facts_def)

lemma only_facts_keep: "only_facts s (s\<lparr>tbl_facts := fs\<rparr>)"
  using only_facts_I [where s = s and fs = fs and n = "next_id s"] by simp

lemma only_facts_refl: "only_facts s s"
  using only_facts_I [where s = s and fs = "tbl_facts s" and n = "next_id s"] by simp

lemma only_facts_trans: "only_facts s t \<Longrightarrow> only_facts t v \<Longrightarrow> only_facts s v"
  by (elim exE only_facts_def [THEN iffD1, elim_format]) (simp add: only_facts_I)

interpretation fact_frame: tx_preorder only_facts
  by unfold_locales (rule only_facts_refl, rule only_facts_trans)

lemma only_facts_insert: "moves only_facts (insert_fact_row x)"
  by (auto simp: moves_def insert_fact_row_def Let_def only_facts_I split: if_splits)

lemma only_facts_write_chain: "moves only_facts (write_chain t rows ixs)"
proof (induction ixs)
  case (Cons i ixs)
  have "moves only_facts (update_facts u p f)" for u p f
    by (auto simp: moves_def update_facts_def Let_def only_facts_keep split: if_splits)
  with Cons show ?case
    by (auto intro!: within_intros only_facts_insert simp: replaceValue_def Let_def)
qed (auto intro!: within_intros)

lemma only_facts_insertFacts: "moves only_facts (insertFacts t rows supersede)"
  unfolding insertFacts_def writeSingleValued_def insertPlain_def Let_def
  by (auto intro!: within_intros only_facts_write_chain only_facts_insert)

lemmas insertFacts_frame = only_facts_insertFacts [THEN withinD]

section \<open>Properties\<close>

lemma writeMemory_tx_Inr:
  assumes "writeMemory_tx gap t now w cap facts s = Inr (r, s')"
  obtains run s1 s2 s3 where
    "resolveSessionProvenance gap (mw_user w) (mw_run w) (mw_project w) now s = Inr (run, s1)"
    "insertMemoryWithEvent gap t w (native_event (sessionPayload run)) cap s1 = Inr (wm_id r, s2)"
    "only_facts s2 s3"
    "auto_commitment t w (wm_id r) s3 = Inr (wm_commitment r, s')"
  using assms by (auto simp: writeMemory_tx_def bind_tx_Inr dest: insertFacts_frame)

lemma auto_commitment_Inr:
  assumes "auto_commitment t w i s = Inr (c, s')"
  shows "tbl_memories s' = tbl_memories s \<and> tbl_events s' = tbl_events s \<and> tbl_edges s' = tbl_edges s \<and>
    tbl_sessions s' = tbl_sessions s \<and> tbl_facts s' = tbl_facts s \<and> tbl_users s' = tbl_users s \<and>
    (case c of None \<Rightarrow> mw_type w \<noteq> Commitment \<and> tbl_commitments s' = tbl_commitments s
     | Some k \<Rightarrow> mw_type w = Commitment \<and> tbl_commitments s' = tbl_commitments s @
         [(commitment_row t (mw_user w) i (case mw_commitment w of None \<Rightarrow> None | Some x \<Rightarrow> cw_owner x)
            (case mw_commitment w of None \<Rightarrow> None | Some x \<Rightarrow> cw_due_at x))\<lparr>com_id := k\<rparr>])"
  using assms
  by (auto simp: auto_commitment_def tx_Inr insert_commitment_def Let_def split: if_splits)

text \<open>
  A remembered memory is appended whole: one new memory row with the input's columns, one
  \<open>create\<close> event on it carrying the resolved session run, an open commitment with the given
  deadline and owner exactly when the type is \<open>commitment\<close>, and no edge; the session table
  changes only as provenance changed it.
\<close>

theorem writeMemory_effect:
  assumes "writeMemory no_gap t now w cap facts s = (Inr r, s')"
  shows "\<exists>run s1 e. resolveSessionProvenance no_gap (mw_user w) (mw_run w) (mw_project w) now s = Inr (run, s1) \<and>
    tbl_sessions s' = tbl_sessions s1 \<and>
    tbl_memories s' = tbl_memories s @ [(memory_row t w)\<lparr>mem_id := wm_id r\<rparr>] \<and>
    tbl_events s' = tbl_events s @ [(event_row t (mw_user w) (wm_id r) EvCreate (mw_actor w)
      (sessionPayload run))\<lparr>ev_id := e\<rparr>] \<and>
    tbl_edges s' = tbl_edges s \<and>
    (case wm_commitment r of
       None \<Rightarrow> mw_type w \<noteq> Commitment \<and> tbl_commitments s' = tbl_commitments s
     | Some c \<Rightarrow> mw_type w = Commitment \<and> tbl_commitments s' = tbl_commitments s @
         [(commitment_row t (mw_user w) (wm_id r)
            (case mw_commitment w of None \<Rightarrow> None | Some x \<Rightarrow> cw_owner x)
            (case mw_commitment w of None \<Rightarrow> None | Some x \<Rightarrow> cw_due_at x))\<lparr>com_id := c\<rparr>])"
proof -
  from assms have "writeMemory_tx no_gap t now w cap facts s = Inr (r, s')"
    by (simp add: writeMemory_def withTenant_ok map_error_Inr)
  then obtain run s1 s2 s3 where
    prov: "resolveSessionProvenance no_gap (mw_user w) (mw_run w) (mw_project w) now s = Inr (run, s1)"
    and app: "insertMemoryWithEvent no_gap t w (native_event (sessionPayload run)) cap s1 = Inr (wm_id r, s2)"
    and facts: "only_facts s2 s3"
    and auto: "auto_commitment t w (wm_id r) s3 = Inr (wm_commitment r, s')"
    by (rule writeMemory_tx_Inr)
  from prov have "only_sessions s s1" by (rule withinD [OF only_sessions_resolve])
  then obtain xs where s1: "s1 = s\<lparr>tbl_sessions := xs\<rparr>" by (auto simp: only_sessions_def)
  from app have s2: "wm_id r = next_id s" "s2 = appended t w (native_event (sessionPayload run)) s1"
    by (simp_all add: insertMemoryWithEvent_Inr Let_def s1)
  have "ev\<lparr>ev_id := n, ev_created_at := ev_created_at ev\<rparr> = ev\<lparr>ev_id := n\<rparr>" for ev :: memory_event and n
    by simp
  with facts auto_commitment_Inr [OF auto] prov s2 show ?thesis
    by (auto simp: only_facts_def s1 native_event_def event_row_def default_instant_def
        split: option.splits)
qed

text \<open>
  Whatever other transactions commit while the append waits or between its duplicate check and
  its INSERT, a live memory that was written is the only live one of its tenant with its content
  hash.
\<close>

theorem writeMemory_single_live:
  assumes "writeMemory gap t now w cap facts s = (Inr r, s')" and "mw_valid_to w = None"
  shows "\<exists>m. filter (\<lambda>m. mem_user m = mw_user w \<and> live_with_hash (mw_hash w) m) (tbl_memories s') = [m] \<and>
    mem_id m = wm_id r"
proof -
  from assms(1) have "writeMemory_tx gap t now w cap facts s = Inr (r, s')"
    by (simp add: writeMemory_def withTenant_ok map_error_Inr)
  then obtain run s1 s2 s3 where
    app: "insertMemoryWithEvent gap t w (native_event (sessionPayload run)) cap s1 = Inr (wm_id r, s2)"
    and facts: "only_facts s2 s3"
    and auto: "auto_commitment t w (wm_id r) s3 = Inr (wm_commitment r, s')"
    by (rule writeMemory_tx_Inr)
  from facts auto_commitment_Inr [OF auto] have mems: "tbl_memories s' = tbl_memories s2"
    by (auto simp: only_facts_def)
  obtain s5 where s5: "row_fits t w s5" "wm_id r = next_id s5"
      "s2 = appended t w (native_event (sessionPayload run)) s5"
    using app unfolding insertMemoryWithEvent_Inr Let_def by blast
  from s5(1) assms(2) have "filter (\<lambda>m. mem_user m = mw_user w \<and> live_with_hash (mw_hash w) m) (tbl_memories s5) = []"
    by (force simp: row_fits_def live_hashes_def memory_row_def mem_live_def live_with_hash_def filter_empty_conv)
  with s5 assms(2) show ?thesis
    by (simp add: mems memory_row_def live_with_hash_def)
qed

text \<open>
  A write whose content is live in its tenant when the row is inserted is refused as a
  duplicate and leaves the store as it was, whether the duplicate check saw the other row or the
  row was committed behind its back and the partial unique index caught it.
\<close>

theorem duplicate_write_refused:
  assumes "resolveSessionProvenance gap (mw_user w) (mw_run w) (mw_project w) now s = Inr (run, s1)"
    and "mw_valid_to w = None"
    and "\<exists>m \<in> set (tbl_memories (gap 5 s1)). mem_user m = mw_user w \<and> live_with_hash (mw_hash w) m"
  shows "writeMemory gap t now w None facts s = (Inl (DuplicateMemory (mw_hash w)), s)"
proof -
  have fits: "\<not> distinct (live_hashes (tbl_memories (gap 5 s1) @ [(memory_row t w)\<lparr>mem_id := n\<rparr>]))" for n
    using assms(2,3)
    by (force simp: live_hashes_def memory_row_def mem_live_def live_with_hash_def)
  then have "insertMemoryWithEvent gap t w ev None s1 = Inl (DuplicateMemory (mw_hash w)) \<or>
      insertMemoryWithEvent gap t w ev None s1 = Inl UniqueViolation" for ev
    using assms(2)
    by (auto simp: insertMemoryWithEvent_def duplicate_guard_def cap_guard_def select_memory_def
        bind_tx_def query_def throw_def ret_def wait_for_def insert_memory_def Let_def
        memory_row_def window_ok_def split: option.splits)
  then have app: "\<exists>e. insertMemoryWithEvent gap t w ev None s1 = Inl e \<and>
      duplicate_of (mw_hash w) e = DuplicateMemory (mw_hash w)" for ev
    by (force simp: duplicate_of_def)
  obtain e where "insertMemoryWithEvent gap t w (native_event (sessionPayload run)) None s1 = Inl e"
      "duplicate_of (mw_hash w) e = DuplicateMemory (mw_hash w)"
    using app by blast
  then have "map_error (duplicate_of (mw_hash w)) (writeMemory_tx gap t now w None facts) s =
      Inl (DuplicateMemory (mw_hash w))"
    using assms(1) by (simp add: writeMemory_tx_def map_error_def bind_tx_def)
  then show ?thesis by (simp add: writeMemory_def withTenant_def run_tx_def)
qed

text \<open>
  The live-memory cap is exact. While the tenant's cap lock is held nobody else adds a live
  memory, so a capped append either is refused because the cap is reached, or leaves at most
  \<open>mx\<close> active live memories.
\<close>

theorem live_cap_exact:
  assumes "insertMemoryWithEvent gap t w ev (Some mx) s = Inr (i, s')" and "consumesLiveSlot w"
    and "live_count (mw_user w) (gap 5 (gap 4 s)) \<le> live_count (mw_user w) (gap 4 s)"
  shows "live_count (mw_user w) s' \<le> mx \<and>
    live_count (mw_user w) s' = Suc (live_count (mw_user w) (gap 5 (gap 4 s)))"
proof -
  let ?s = "gap 5 (gap 4 s)"
  from assms(1) have "s' = appended t w ev ?s" and "live_count (mw_user w) (gap 4 s) < mx"
    using assms(2) by (auto simp: insertMemoryWithEvent_Inr Let_def cap_guard_ok)
  moreover from assms(2) have "active_live (mw_user w) ((memory_row t w)\<lparr>mem_id := n\<rparr>)" for n
    by (simp add: consumesLiveSlot_def active_live_def memory_row_def)
  ultimately show ?thesis using assms(3) by (simp add: live_count_def)
qed

end
