(* ===== verification/MemoryRevise.thy ===== *)
theory MemoryRevise
  imports MemoryWrite
begin

text \<open>
  Revising, refiling and archiving memories: \<open>packages/db/src/memory-revise.ts\<close>. A revision closes
  the predecessor, appends the successor, links them and keeps the commitment with the live memory.

  Waits beyond those of an append: 6 is the predecessor's row lock, 7 the commitment's row lock,
  8 the account lock of a move, 9 the moved row's lock, 10 the archived blocker's lock.
\<close>

section \<open>Inputs\<close>

text \<open>
  \<open>rv_in\<close> holds the fields a revision shares with an append; its \<open>mw_scope\<close> and \<open>mw_tags\<close> are not
  read (the source's \<open>Omit\<close>), the optional \<open>rv_scope\<close> and \<open>rv_tags\<close> are.
\<close>

record revise_write =
  rv_in :: memory_write
  rv_scope :: "string option"
  rv_tags :: "string list option"
  rv_predecessor :: rid
  rv_edge :: edge_type

record revised_memory =
  rm_id :: rid
  rm_type :: memory_type
  rm_topic :: string
  rm_scope :: string
  rm_project :: "string option"
  rm_tags :: "string list"

record move_write =
  mv_user :: uid
  mv_memory :: rid
  mv_scope :: "string option"
  mv_project :: "string option"
  mv_tags :: "string list option"
  mv_actor :: actor_kind
  mv_run :: run_arg

record filed =
  fd_scope :: string
  fd_project :: "string option"
  fd_tags :: "string list"

record moved_memory =
  mm_id :: rid
  mm_type :: memory_type
  mm_topic :: string
  mm_filed :: filed
  mm_changed :: bool

section \<open>Move\<close>

text \<open>\<open>a ?? b\<close>.\<close>

definition orElse :: "'a option \<Rightarrow> 'a \<Rightarrow> 'a" where
  "orElse a b = (case a of None \<Rightarrow> b | Some x \<Rightarrow> x)"

definition orElse_opt :: "'a option \<Rightarrow> 'a option \<Rightarrow> 'a option" where
  "orElse_opt a b = (case a of None \<Rightarrow> b | Some x \<Rightarrow> Some x)"

definition filed_of :: "memory \<Rightarrow> filed" where
  "filed_of m = \<lparr>fd_scope = mem_scope m, fd_project = mem_project m, fd_tags = mem_tags m\<rparr>"

definition resolve_filing :: "move_write \<Rightarrow> memory \<Rightarrow> filed" where
  "resolve_filing inp m = \<lparr>fd_scope = orElse (mv_scope inp) (mem_scope m),
     fd_project = orElse_opt (mv_project inp) (mem_project m),
     fd_tags = orElse (mv_tags inp) (mem_tags m)\<rparr>"

definition filing_of :: "filed \<Rightarrow> filing" where
  "filing_of f = \<lparr>fil_scope = fd_scope f, fil_project = fd_project f, fil_tag_count = length (fd_tags f)\<rparr>"

definition refile :: "instant \<Rightarrow> filed \<Rightarrow> memory \<Rightarrow> memory" where
  "refile t f m = m\<lparr>mem_scope := fd_scope f, mem_project := fd_project f, mem_tags := fd_tags f,
     mem_updated_at := t\<rparr>"

definition moved :: "rid \<Rightarrow> memory \<Rightarrow> filed \<Rightarrow> bool \<Rightarrow> moved_memory" where
  "moved i peek f c = \<lparr>mm_id = i, mm_type = mem_type peek, mm_topic = mem_topic peek, mm_filed = f, mm_changed = c\<rparr>"

definition moveMemory_tx :: "interference \<Rightarrow> instant \<Rightarrow> jsdate \<Rightarrow> move_write \<Rightarrow> moved_memory stm" where
  "moveMemory_tx gap t now inp = (let u = mv_user inp; i = mv_memory inp; target = (\<lambda>m. mem_id m = i) in
     bind_tx (guardSessionMutation (gap 8) u) (\<lambda>_.
     bind_tx (select_memory u target) (\<lambda>pk. case pk of
       None \<Rightarrow> throw (PredecessorNotFound i)
     | Some peek \<Rightarrow> (let planned = resolve_filing inp peek in
         if planned = filed_of peek then
           bind_tx (case mv_run inp of RunId r \<Rightarrow> assertSessionRunOwnedIn u r | _ \<Rightarrow> ret ()) (\<lambda>_.
           ret (moved i peek planned False))
         else
           bind_tx (resolveSessionProvenance gap u (mv_run inp) (fd_project planned) now) (\<lambda>runId.
           bind_tx (wait_for (gap 9)) (\<lambda>_.
           bind_tx (select_memory u target) (\<lambda>cur. case cur of
             None \<Rightarrow> throw (PredecessorNotFound i)
           | Some current \<Rightarrow> (let nxt = resolve_filing inp current in
               if nxt = filed_of current then ret (moved i peek nxt False)
               else
                 bind_tx (update_memories u target (refile t nxt)) (\<lambda>_.
                 bind_tx (insert_event (event_row t u i EvRevise (mv_actor inp)
                    (Some (MovePayload runId (filing_of (filed_of current)) (filing_of nxt))))) (\<lambda>_.
                 ret (moved i peek nxt True)))))))))))"

definition moveMemory ::
  "interference \<Rightarrow> instant \<Rightarrow> jsdate \<Rightarrow> move_write \<Rightarrow> store \<Rightarrow> (err + moved_memory) \<times> store" where
  "moveMemory gap t now inp = withTenant (mv_user inp) (moveMemory_tx gap t now inp)"

section \<open>Carrying the commitment\<close>

definition is_live_status :: "commitment_status \<Rightarrow> bool" where
  "is_live_status st \<longleftrightarrow> st = StOpen \<or> st = StWaiting"

definition resolve_row :: "instant \<Rightarrow> commitment \<Rightarrow> commitment" where
  "resolve_row t c = c\<lparr>com_status := StResolved, com_resolved_at := Some t,
     com_last_resolution_reason := None, com_updated_at := t\<rparr>"

definition carryCommitment ::
  "interference \<Rightarrow> instant \<Rightarrow> revise_write \<Rightarrow> rid \<Rightarrow> payload option \<Rightarrow> unit stm" where
  "carryCommitment gap t inp successor payload = (let u = mw_user (rv_in inp); p = rv_predecessor inp;
      successorIsCommitment = (mw_type (rv_in inp) = Commitment) in
     bind_tx (select_commitment u (\<lambda>c. com_memory c = p)) (\<lambda>pc. case pc of
       Some c \<Rightarrow>
         if \<not> successorIsCommitment then
           if \<not> is_live_status (com_status c) then ret ()
           else
             bind_tx (wait_for (gap 7)) (\<lambda>_.
             bind_tx (update_commitments u (\<lambda>d. com_id d = com_id c \<and> is_live_status (com_status d))
                        (resolve_row t)) (\<lambda>resolved. case resolved of
               [] \<Rightarrow> ret ()
             | _ # _ \<Rightarrow>
                 bind_tx (insert_event (event_row t u p EvResolve (mw_actor (rv_in inp)) payload)) (\<lambda>_. ret ())))
         else
           bind_tx (update_commitments u (\<lambda>d. com_id d = com_id c)
                      (\<lambda>d. d\<lparr>com_memory := successor, com_updated_at := t\<rparr>)) (\<lambda>_. ret ())
     | None \<Rightarrow>
         if \<not> successorIsCommitment then ret ()
         else bind_tx (insert_commitment (commitment_row t u successor None None)) (\<lambda>_. ret ())))"

section \<open>Revise\<close>

definition successor_write :: "revise_write \<Rightarrow> memory \<Rightarrow> memory_write" where
  "successor_write inp p = (rv_in inp)\<lparr>mw_scope := orElse (rv_scope inp) (mem_scope p),
     mw_project := orElse_opt (mw_project (rv_in inp)) (mem_project p),
     mw_tags := orElse (rv_tags inp) (mem_tags p)\<rparr>"

definition close_row :: "instant \<Rightarrow> memory \<Rightarrow> memory" where
  "close_row t m = m\<lparr>mem_valid_to := Some t, mem_updated_at := t\<rparr>"

definition open_row_of :: "rid \<Rightarrow> memory \<Rightarrow> bool" where
  "open_row_of i m \<longleftrightarrow> mem_id m = i \<and> mem_valid_to m = None"

definition reviseMemory_tx :: "interference \<Rightarrow> instant \<Rightarrow> jsdate \<Rightarrow> revise_write \<Rightarrow> revised_memory stm" where
  "reviseMemory_tx gap t now inp = (let u = mw_user (rv_in inp); p = rv_predecessor inp in
     bind_tx (select_memory u (\<lambda>m. mem_id m = p)) (\<lambda>pr. case pr of
       None \<Rightarrow> throw (PredecessorNotFound p)
     | Some predecessor \<Rightarrow>
         if mem_valid_to predecessor \<noteq> None then throw (PredecessorAlreadySuperseded p)
         else (let w = successor_write inp predecessor in
           bind_tx (resolveSessionProvenance gap u (mw_run (rv_in inp)) (mw_project w) now) (\<lambda>runId.
           (let payload = sessionPayload runId in
           bind_tx (wait_for (gap 6)) (\<lambda>_.
           bind_tx (update_memories u (open_row_of p) (close_row t)) (\<lambda>closed. case closed of
             [] \<Rightarrow> throw (PredecessorAlreadySuperseded p)
           | _ # _ \<Rightarrow>
               bind_tx (insertMemoryWithEvent gap t w (native_event payload) None) (\<lambda>successor.
               bind_tx (insertEdge t u successor p (rv_edge inp) (mw_actor (rv_in inp))) (\<lambda>_.
               bind_tx (insert_event (event_row t u p EvSupersede (mw_actor (rv_in inp)) payload)) (\<lambda>_.
               bind_tx (carryCommitment gap t inp successor payload) (\<lambda>_.
               ret \<lparr>rm_id = successor, rm_type = mw_type (rv_in inp), rm_topic = mw_topic (rv_in inp),
                    rm_scope = mw_scope w, rm_project = mw_project w, rm_tags = mw_tags w\<rparr>)))))))))))"

definition reviseMemory ::
  "interference \<Rightarrow> instant \<Rightarrow> jsdate \<Rightarrow> revise_write \<Rightarrow> store \<Rightarrow> (err + revised_memory) \<times> store" where
  "reviseMemory gap t now inp = withTenant (mw_user (rv_in inp))
     (map_error (duplicate_of (mw_hash (rv_in inp))) (reviseMemory_tx gap t now inp))"

section \<open>Archiving a blocker\<close>

definition live_blocker :: "rid \<Rightarrow> memory \<Rightarrow> bool" where
  "live_blocker i m \<longleftrightarrow> mem_id m = i \<and> mem_type m = Blocker \<and> mem_status m = Active \<and> mem_valid_to m = None"

definition archive_row :: "instant \<Rightarrow> memory \<Rightarrow> memory" where
  "archive_row t m = m\<lparr>mem_status := Archived, mem_valid_to := Some t, mem_updated_at := t\<rparr>"

definition archiveBlockerMemory_tx ::
  "interference \<Rightarrow> instant \<Rightarrow> jsdate \<Rightarrow> uid \<Rightarrow> rid \<Rightarrow> actor_kind \<Rightarrow> run_arg \<Rightarrow> (rid \<times> memory_status) stm" where
  "archiveBlockerMemory_tx gap t now u i a run =
     bind_tx (select_memory u (live_blocker i)) (\<lambda>tg. case tg of
       None \<Rightarrow> throw (BlockerNotFound i)
     | Some target \<Rightarrow>
         bind_tx (resolveSessionProvenance gap u run (mem_project target) now) (\<lambda>runId.
         bind_tx (wait_for (gap 10)) (\<lambda>_.
         bind_tx (update_memories u (live_blocker i) (archive_row t)) (\<lambda>archived. case archived of
           [] \<Rightarrow> throw (BlockerNotFound i)
         | m # _ \<Rightarrow>
             bind_tx (insert_event (event_row t u i EvArchive a (sessionPayload runId))) (\<lambda>_.
             ret (mem_id m, Archived))))))"

definition archiveBlockerMemory ::
  "interference \<Rightarrow> instant \<Rightarrow> jsdate \<Rightarrow> uid \<Rightarrow> rid \<Rightarrow> actor_kind \<Rightarrow> run_arg \<Rightarrow> store \<Rightarrow>
   (err + rid \<times> memory_status) \<times> store" where
  "archiveBlockerMemory gap t now u i a run = withTenant u (archiveBlockerMemory_tx gap t now u i a run)"

section \<open>The contract\<close>

lemma mem_step_refile: "mem_step m (refile t f m)"
  and mem_step_close: "open_row_of i m \<Longrightarrow> mem_step m (close_row t m)"
  and mem_step_archive: "live_blocker i m \<Longrightarrow> mem_step m (archive_row t m)"
  by (simp_all add: mem_step_def refile_def close_row_def archive_row_def open_row_of_def live_blocker_def)

lemma com_step_resolve_row: "com_step c (resolve_row t c)"
  and com_step_move: "com_step c (c\<lparr>com_memory := m, com_updated_at := t\<rparr>)"
  by (simp_all add: com_step_def resolve_row_def)

lemma successor_write_user [simp]: "mw_user (successor_write inp p) = mw_user (rv_in inp)"
  by (simp add: successor_write_def)

context tenant_contract
begin

lemma within_moveMemory_tx:
  assumes "\<And>k s. R s (gap k s)" and "mv_user inp = u"
  shows "moves R (moveMemory_tx gap t now inp)"
  unfolding moveMemory_tx_def guardSessionMutation_def userIsLiveForIssuance_def getLiveAccountId_def
    Let_def assms(2)
  by (intro within_statements within_resolveSessionProvenance mem_step_refile assms(1) row_users)
    (auto intro!: within_statements within_assertSessionRunOwnedIn split: run_arg.splits)

lemma within_carryCommitment:
  assumes "\<And>k s. R s (gap k s)" and "mw_user (rv_in inp) = u"
  shows "moves R (carryCommitment gap t inp i p)"
  unfolding carryCommitment_def Let_def assms(2)
  by (intro within_statements com_step_resolve_row com_step_move assms(1) row_users)

lemma within_reviseMemory_tx:
  assumes "\<And>k s. R s (gap k s)" and "mw_user (rv_in inp) = u"
  shows "moves R (reviseMemory_tx gap t now inp)"
  unfolding reviseMemory_tx_def Let_def assms(2)
  by (intro within_statements within_resolveSessionProvenance within_insertMemoryWithEvent
      within_insertEdge within_carryCommitment assms(1) row_users)
    (auto simp: assms(2) mem_step_close)

lemma within_archiveBlockerMemory_tx:
  assumes "\<And>k s. R s (gap k s)"
  shows "moves R (archiveBlockerMemory_tx gap t now u i a run)"
  unfolding archiveBlockerMemory_tx_def
  by (intro within_statements within_resolveSessionProvenance assms mem_step_archive row_users)

end

section \<open>What a revision does\<close>

abbreviation predecessor_of :: "uid \<Rightarrow> rid \<Rightarrow> store \<Rightarrow> memory option" where
  "predecessor_of u i s \<equiv> find_row (\<lambda>m. mem_user m = u \<and> mem_id m = i) (tbl_memories s)"

definition commitment_on :: "uid \<Rightarrow> rid \<Rightarrow> store \<Rightarrow> commitment option" where
  "commitment_on u m s = find_row (\<lambda>c. com_user c = u \<and> com_memory c = m) (tbl_commitments s)"

text \<open>Carrying writes commitments and events only.\<close>

definition memories_kept :: "store \<Rightarrow> store \<Rightarrow> bool" where
  "memories_kept s s' \<longleftrightarrow> tbl_memories s' = tbl_memories s \<and> tbl_edges s' = tbl_edges s \<and>
     tbl_facts s' = tbl_facts s \<and> tbl_sessions s' = tbl_sessions s \<and> tbl_users s' = tbl_users s \<and>
     (\<exists>vs. tbl_events s' = tbl_events s @ vs)"

interpretation kept: tx_preorder memories_kept
  by unfold_locales (auto simp: memories_kept_def)

lemma kept_statements:
  "moves memories_kept (update_commitments u p f)" "moves memories_kept (insert_event e)"
  "moves memories_kept (insert_commitment c)" "moves memories_kept (select_commitment u p)"
  by (auto simp: moves_def memories_kept_def update_commitments_def insert_event_def
      insert_commitment_def select_commitment_def Let_def split: if_splits option.splits)

lemma kept_carry: "moves memories_kept (carryCommitment no_gap t inp i p)"
  unfolding carryCommitment_def Let_def
  by (intro within_intros kept_statements) (simp add: kept.R_refl)

text \<open>The store of a revision just before it carries the commitment.\<close>

definition edge_row :: "instant \<Rightarrow> uid \<Rightarrow> rid \<Rightarrow> rid \<Rightarrow> edge_type \<Rightarrow> actor_kind \<Rightarrow> memory_edge" where
  "edge_row t u frm to k a = \<lparr>edge_id = 0, edge_user = u, edge_from = frm, edge_to = to, edge_kind = k,
     edge_created_by = a, edge_created_at = t\<rparr>"

definition revised_store ::
  "instant \<Rightarrow> revise_write \<Rightarrow> memory_write \<Rightarrow> payload option \<Rightarrow> store \<Rightarrow> store" where
  "revised_store t inp w payload s = (let u = mw_user (rv_in inp); p = rv_predecessor inp; n = next_id s in
     s\<lparr>tbl_memories := sql_update (\<lambda>m. mem_user m = u \<and> open_row_of p m) (close_row t) (tbl_memories s)
         @ [(memory_row t w)\<lparr>mem_id := n\<rparr>],
       tbl_edges := tbl_edges s @ [(edge_row t u n p (rv_edge inp) (mw_actor (rv_in inp)))\<lparr>edge_id := n + 2\<rparr>],
       tbl_events := tbl_events s @ [(event_row t u n EvCreate (mw_actor (rv_in inp)) payload)\<lparr>ev_id := n + 1\<rparr>,
         (event_row t u p EvSupersede (mw_actor (rv_in inp)) payload)\<lparr>ev_id := n + 3\<rparr>],
       next_id := n + 4\<rparr>)"

lemma insertEdge_Inr:
  "insertEdge t u frm to k a s = Inr ((), s') \<longleftrightarrow>
   frm \<noteq> to \<and> (u, frm, to, k) \<notin> set (map edge_key (tbl_edges s)) \<and>
   (u, frm) \<in> mem_keys (tbl_memories s) \<and> (u, to) \<in> mem_keys (tbl_memories s) \<and>
   s' = s\<lparr>tbl_edges := tbl_edges s @ [(edge_row t u frm to k a)\<lparr>edge_id := next_id s\<rparr>],
          next_id := Suc (next_id s)\<rparr>"
  by (auto simp: insertEdge_def tx_Inr insert_edge_row_def Let_def edge_row_def edge_key_def
      split: if_splits)

lemma insert_event_row_Inr:
  "insert_event (event_row t u m k a p) s = Inr (i, s') \<longleftrightarrow>
   (u, m) \<in> mem_keys (tbl_memories s) \<and> i = next_id s \<and>
   s' = s\<lparr>tbl_events := tbl_events s @ [(event_row t u m k a p)\<lparr>ev_id := next_id s\<rparr>],
          next_id := Suc (next_id s)\<rparr>"
  by (auto simp: insert_event_def event_row_def Let_def split: if_splits)

lemma reviseMemory_Inr:
  assumes "reviseMemory_tx no_gap t now inp s = Inr (r, s')"
  obtains pred run s1 where
    "predecessor_of (mw_user (rv_in inp)) (rv_predecessor inp) s = Some pred" "mem_valid_to pred = None"
    "resolveSessionProvenance no_gap (mw_user (rv_in inp)) (mw_run (rv_in inp))
       (mw_project (successor_write inp pred)) now s = Inr (run, s1)"
    "only_sessions s s1"
    "carryCommitment no_gap t inp (next_id s) (sessionPayload run)
       (revised_store t inp (successor_write inp pred) (sessionPayload run) s1) = Inr ((), s')"
    "r = \<lparr>rm_id = next_id s, rm_type = mw_type (rv_in inp), rm_topic = mw_topic (rv_in inp),
       rm_scope = mw_scope (successor_write inp pred), rm_project = mw_project (successor_write inp pred),
       rm_tags = mw_tags (successor_write inp pred)\<rparr>"
proof -
  let ?u = "mw_user (rv_in inp)" and ?p = "rv_predecessor inp"
  from assms obtain pred run s1 closed s2 i s3 s4 e s5 where
    pred: "predecessor_of ?u ?p s = Some pred" "mem_valid_to pred = None"
    and prov: "resolveSessionProvenance no_gap ?u (mw_run (rv_in inp))
       (mw_project (successor_write inp pred)) now s = Inr (run, s1)"
    and close: "update_memories ?u (open_row_of ?p) (close_row t) s1 = Inr (closed, s2)"
    and app: "insertMemoryWithEvent no_gap t (successor_write inp pred)
       (native_event (sessionPayload run)) None s2 = Inr (i, s3)"
    and edge: "insertEdge t ?u i ?p (rv_edge inp) (mw_actor (rv_in inp)) s3 = Inr ((), s4)"
    and ev: "insert_event (event_row t ?u ?p EvSupersede (mw_actor (rv_in inp)) (sessionPayload run)) s4
       = Inr (e, s5)"
    and carry: "carryCommitment no_gap t inp i (sessionPayload run) s5 = Inr ((), s')"
    and r: "r = \<lparr>rm_id = i, rm_type = mw_type (rv_in inp), rm_topic = mw_topic (rv_in inp),
       rm_scope = mw_scope (successor_write inp pred), rm_project = mw_project (successor_write inp pred),
       rm_tags = mw_tags (successor_write inp pred)\<rparr>"
    by (auto simp: reviseMemory_tx_def Let_def tx_Inr select_memory_def)
  from prov have frame: "only_sessions s s1" by (rule withinD [OF only_sessions_resolve])
  then have n: "next_id s1 = next_id s"
    by (simp add: only_sessionsD)
  from close have s2: "s2 = s1\<lparr>tbl_memories := sql_update (\<lambda>m. mem_user m = ?u \<and> open_row_of ?p m)
      (close_row t) (tbl_memories s1)\<rparr>"
    by (auto simp: update_memories_def Let_def split: if_splits)
  have evrow: "v\<lparr>ev_id := k, ev_created_at := ev_created_at v\<rparr> = v\<lparr>ev_id := k\<rparr>" for v :: memory_event and k
    by simp
  have i: "i = next_id s1" and s3: "s3 = appended t (successor_write inp pred)
      (native_event (sessionPayload run)) s2"
    using app by (auto simp: insertMemoryWithEvent_Inr Let_def s2)
  have "s5 = revised_store t inp (successor_write inp pred) (sessionPayload run) s1"
    using edge ev [unfolded insert_event_row_Inr]
    by (simp add: insertEdge_Inr s3 s2 i revised_store_def Let_def native_event_def
        default_instant_def event_row_def successor_write_def eval_nat_numeral)
  with that pred prov frame carry r i n show ?thesis by auto
qed

section \<open>Properties of a revision\<close>

lemma reviseMemory_ok:
  "reviseMemory gap t now inp s = (Inr r, s') \<longleftrightarrow> reviseMemory_tx gap t now inp s = Inr (r, s')"
  by (simp add: reviseMemory_def withTenant_ok map_error_Inr)

text \<open>
  Append and supersede. A revision changes no memory but the validity of the predecessor, adds
  the successor filed as asked or as the predecessor was, links successor to predecessor (not the
  other way), and records a \<open>create\<close> on the successor and a \<open>supersede\<close> on the predecessor.
\<close>

theorem revise_appends_and_closes:
  assumes "reviseMemory no_gap t now inp s = (Inr r, s')"
  shows "\<exists>pred payload e a b vs. predecessor_of (mw_user (rv_in inp)) (rv_predecessor inp) s = Some pred \<and>
    mem_valid_to pred = None \<and>
    tbl_memories s' = sql_update (\<lambda>m. mem_user m = mw_user (rv_in inp) \<and> open_row_of (rv_predecessor inp) m)
      (close_row t) (tbl_memories s) @ [(memory_row t (successor_write inp pred))\<lparr>mem_id := rm_id r\<rparr>] \<and>
    tbl_edges s' = tbl_edges s @ [(edge_row t (mw_user (rv_in inp)) (rm_id r) (rv_predecessor inp)
      (rv_edge inp) (mw_actor (rv_in inp)))\<lparr>edge_id := e\<rparr>] \<and>
    tbl_events s' = tbl_events s @
      [(event_row t (mw_user (rv_in inp)) (rm_id r) EvCreate (mw_actor (rv_in inp)) payload)\<lparr>ev_id := a\<rparr>,
       (event_row t (mw_user (rv_in inp)) (rv_predecessor inp) EvSupersede (mw_actor (rv_in inp)) payload)\<lparr>ev_id := b\<rparr>]
      @ vs"
proof -
  from assms have "reviseMemory_tx no_gap t now inp s = Inr (r, s')" by (simp add: reviseMemory_ok)
  then obtain pred run s1 where
    pred: "predecessor_of (mw_user (rv_in inp)) (rv_predecessor inp) s = Some pred" "mem_valid_to pred = None"
    and frame: "only_sessions s s1"
    and carry: "carryCommitment no_gap t inp (next_id s) (sessionPayload run)
       (revised_store t inp (successor_write inp pred) (sessionPayload run) s1) = Inr ((), s')"
    and r: "rm_id r = next_id s"
    by (rule reviseMemory_Inr) auto
  from kept_carry carry
  have kept: "memories_kept (revised_store t inp (successor_write inp pred) (sessionPayload run) s1) s'"
    by (rule withinD)
  from kept obtain vs where "tbl_events s' = tbl_events (revised_store t inp (successor_write inp pred)
      (sessionPayload run) s1) @ vs"
    by (auto simp: memories_kept_def)
  with kept pred r only_sessionsD [OF frame] show ?thesis
    by (simp add: memories_kept_def revised_store_def Let_def) blast
qed

text \<open>
  A memory is revised once: after a revision, another one of the same predecessor is refused and
  changes nothing.
\<close>

theorem second_revise_refused:
  assumes "reviseMemory no_gap t now inp s = (Inr r, s')"
    and "mw_user (rv_in inp') = mw_user (rv_in inp)" and "rv_predecessor inp' = rv_predecessor inp"
  shows "reviseMemory gap t' now' inp' s' = (Inl (PredecessorAlreadySuperseded (rv_predecessor inp)), s')"
proof -
  from assms(1) have "reviseMemory_tx no_gap t now inp s = Inr (r, s')" by (simp add: reviseMemory_ok)
  then obtain pred run s1 where
    pred: "predecessor_of (mw_user (rv_in inp)) (rv_predecessor inp) s = Some pred" "mem_valid_to pred = None"
    and frame: "only_sessions s s1"
    and carry: "carryCommitment no_gap t inp (next_id s) (sessionPayload run)
       (revised_store t inp (successor_write inp pred) (sessionPayload run) s1) = Inr ((), s')"
    by (rule reviseMemory_Inr) auto
  from withinD [OF kept_carry carry] only_sessionsD [OF frame]
  have mems: "tbl_memories s' = sql_update (\<lambda>m. mem_user m = mw_user (rv_in inp) \<and>
      open_row_of (rv_predecessor inp) m) (close_row t) (tbl_memories s) @
      [(memory_row t (successor_write inp pred))\<lparr>mem_id := next_id s1\<rparr>]"
    by (simp add: memories_kept_def revised_store_def Let_def)
  have "mem_id pred = rv_predecessor inp" "mem_user pred = mw_user (rv_in inp)"
    using pred(1) by (auto dest: find_row_Some)
  then have "predecessor_of (mw_user (rv_in inp)) (rv_predecessor inp) s' = Some (close_row t pred)"
    using pred by (simp add: mems find_row_append find_row_update close_row_def open_row_of_def)
  with assms(2,3) show ?thesis
    by (simp add: reviseMemory_def reviseMemory_tx_def withTenant_def run_tx_def map_error_def
        bind_tx_def select_memory_def query_def throw_def duplicate_of_def close_row_def Let_def)
qed

text \<open>
  The race of two revisions: when the predecessor is closed by another transaction while this
  one waits for its row lock, this revision is refused and nothing of it is kept.
\<close>

theorem revise_race_loser:
  assumes "predecessor_of (mw_user (rv_in inp)) (rv_predecessor inp) s = Some pred"
    and "mem_valid_to pred = None"
    and "resolveSessionProvenance gap (mw_user (rv_in inp)) (mw_run (rv_in inp))
      (mw_project (successor_write inp pred)) now s = Inr (run, s1)"
    and "\<forall>m \<in> set (tbl_memories (gap 6 s1)). mem_user m = mw_user (rv_in inp) \<longrightarrow>
      mem_id m = rv_predecessor inp \<longrightarrow> mem_valid_to m \<noteq> None"
    and "constraints (gap 6 s1)"
  shows "reviseMemory gap t now inp s = (Inl (PredecessorAlreadySuperseded (rv_predecessor inp)), s)"
proof -
  let ?q = "\<lambda>m. mem_user m = mw_user (rv_in inp) \<and> open_row_of (rv_predecessor inp) m"
  have none: "\<And>m. m \<in> set (tbl_memories (gap 6 s1)) \<Longrightarrow> \<not> ?q m"
    using assms(4) by (auto simp: open_row_of_def)
  then have "sql_returning ?q (close_row t) (tbl_memories (gap 6 s1)) = []"
    "sql_update ?q (close_row t) (tbl_memories (gap 6 s1)) = tbl_memories (gap 6 s1)"
    by (simp_all add: sql_returning_Nil sql_update_none)
  moreover have "distinct (live_hashes (tbl_memories (gap 6 s1)))"
    using assms(5) by (simp add: constraints_def memories_ok_def)
  ultimately have "update_memories (mw_user (rv_in inp)) (open_row_of (rv_predecessor inp)) (close_row t)
      (gap 6 s1) = Inr ([], gap 6 s1)"
    by (simp add: update_memories_def Let_def)
  with assms(1-3) show ?thesis
    by (simp add: reviseMemory_def reviseMemory_tx_def withTenant_def run_tx_def map_error_def
        bind_tx_def select_memory_def query_def throw_def duplicate_of_def wait_for_def Let_def)
qed

section \<open>The commitment follows the live memory\<close>

lemma update_one:
  assumes "distinct (map com_id cs)" and "c \<in> set cs"
  shows "sql_update (\<lambda>d. com_user d = com_user c \<and> com_id d = com_id c \<and> P d) f cs =
    sql_update (\<lambda>d. d = c \<and> P c) f cs"
proof -
  have "\<And>d. d \<in> set cs \<Longrightarrow> (com_user d = com_user c \<and> com_id d = com_id c \<and> P d) = (d = c \<and> P c)"
    using assms by (auto simp: distinct_map dest: inj_onD)
  then show ?thesis by (simp add: sql_update_def)
qed

lemma commitment_on_mem:
  assumes "constraints s" and "d \<in> set (tbl_commitments s)" and "com_user d = u" and "com_memory d = n"
  shows "commitment_on u n s = Some d"
  unfolding commitment_on_def using assms
  by (intro find_row_unique [where key = com_key])
    (auto simp: constraints_def commitments_ok_def com_key_def)

lemma commitment_on_None:
  "commitment_on u n s = None \<longleftrightarrow> (\<forall>d \<in> set (tbl_commitments s). com_user d = u \<longrightarrow> com_memory d \<noteq> n)"
  by (auto simp: commitment_on_def find_row_None)

lemma commitment_on_Some:
  "commitment_on u n s = Some c \<Longrightarrow> c \<in> set (tbl_commitments s) \<and> com_user c = u \<and> com_memory c = n"
  unfolding commitment_on_def by (drule find_row_Some) simp

text \<open>Ids not yet given out name no memory and carry no commitment.\<close>

lemma fresh_no_commitment: "constraints s \<Longrightarrow> next_id s \<le> n \<Longrightarrow> commitment_on u n s = None"
  by (fastforce simp: commitment_on_None constraints_def commitments_ok_def memories_ok_def ids_ok_def
      mem_keys_def com_key_def)

lemma update_commitments_Inr:
  "update_commitments u p f s = Inr (rows, s') \<Longrightarrow>
   rows = sql_returning (\<lambda>c. com_user c = u \<and> p c) f (tbl_commitments s) \<and>
   s' = s\<lparr>tbl_commitments := sql_update (\<lambda>c. com_user c = u \<and> p c) f (tbl_commitments s)\<rparr>"
  by (auto simp: update_commitments_def Let_def split: if_splits option.splits)

lemma carryCommitment_Inr:
  assumes "carryCommitment no_gap t inp i payload s = Inr ((), s')"
    and "distinct (map com_id (tbl_commitments s))"
  shows "case commitment_on (mw_user (rv_in inp)) (rv_predecessor inp) s of
      Some c \<Rightarrow>
        if mw_type (rv_in inp) = Commitment then
          tbl_commitments s' = sql_update (\<lambda>d. d = c) (\<lambda>d. d\<lparr>com_memory := i, com_updated_at := t\<rparr>)
            (tbl_commitments s) \<and> tbl_events s' = tbl_events s
        else if is_live_status (com_status c) then
          tbl_commitments s' = sql_update (\<lambda>d. d = c) (resolve_row t) (tbl_commitments s) \<and>
          tbl_events s' = tbl_events s @ [(event_row t (mw_user (rv_in inp)) (rv_predecessor inp) EvResolve
            (mw_actor (rv_in inp)) payload)\<lparr>ev_id := next_id s\<rparr>]
        else s' = s
    | None \<Rightarrow>
        if mw_type (rv_in inp) = Commitment then
          tbl_commitments s' = tbl_commitments s @
            [(commitment_row t (mw_user (rv_in inp)) i None None)\<lparr>com_id := next_id s\<rparr>] \<and>
          tbl_events s' = tbl_events s
        else s' = s"
proof (cases "commitment_on (mw_user (rv_in inp)) (rv_predecessor inp) s")
  case None
  with assms(1) show ?thesis
    by (auto simp: carryCommitment_def Let_def select_commitment_def commitment_on_def tx_Inr
        insert_commitment_def split: if_splits)
next
  case (Some c)
  note mem = commitment_on_Some [OF Some]
  have one: "sql_update (\<lambda>d. com_user d = mw_user (rv_in inp) \<and> com_id d = com_id c \<and> P d) f
      (tbl_commitments s) = sql_update (\<lambda>d. d = c \<and> P c) f (tbl_commitments s)" for P f
    using update_one [OF assms(2), of c P f] mem by simp
  have hit: "is_live_status (com_status c) \<Longrightarrow> \<not> sql_returning (\<lambda>d. com_user d = mw_user (rv_in inp) \<and>
      com_id d = com_id c \<and> is_live_status (com_status d)) f (tbl_commitments s) = []" for f
    using mem by (auto simp: sql_returning_Nil)
  from assms(1) Some mem one [of "\<lambda>_. True"] one [of "\<lambda>d. is_live_status (com_status d)"] hit
  show ?thesis
    by (auto simp: carryCommitment_def Let_def select_commitment_def tx_Inr insert_event_row_Inr
        simp flip: commitment_on_def dest!: update_commitments_Inr split: if_splits)
qed

lemma inv_revise:
  "reviseMemory_tx no_gap t now inp s = Inr (r, s') \<Longrightarrow> constraints s \<Longrightarrow> constraints s'"
  using inv.within_reviseMemory_tx [of no_gap inp "mw_user (rv_in inp)" t now]
  by (auto simp: inv.no_gap_R moves_def inv_step_def)

text \<open>
  C8. The obligation follows the live memory. If the predecessor carried a commitment and the
  successor is a commitment, the very row moves over, status and dates kept; if the successor is of
  another type, a live obligation is resolved (with a \<open>resolve\<close> event) and a settled one stays as
  history; if there was none, a commitment successor gets a fresh open one.
\<close>

theorem commitment_follows_revision:
  assumes "reviseMemory no_gap t now inp s = (Inr r, s')" and "constraints s"
  shows "let u = mw_user (rv_in inp); p = rv_predecessor inp in
    case commitment_on u p s of
      Some c \<Rightarrow>
        if mw_type (rv_in inp) = Commitment then
          commitment_on u (rm_id r) s' = Some (c\<lparr>com_memory := rm_id r, com_updated_at := t\<rparr>) \<and>
          commitment_on u p s' = None
        else
          commitment_on u p s' = Some (if is_live_status (com_status c) then resolve_row t c else c) \<and>
          commitment_on u (rm_id r) s' = None \<and>
          (is_live_status (com_status c) \<longrightarrow> (\<exists>e \<in> set (tbl_events s') - set (tbl_events s).
             ev_kind e = EvResolve \<and> ev_user e = u \<and> ev_memory e = p))
    | None \<Rightarrow> commitment_on u p s' = None \<and>
        commitment_on u (rm_id r) s' = (if mw_type (rv_in inp) = Commitment
          then Some ((commitment_row t u (rm_id r) None None)\<lparr>com_id := next_id s + 4\<rparr>) else None)"
proof -
  let ?u = "mw_user (rv_in inp)" and ?p = "rv_predecessor inp" and ?n = "next_id s"
  from assms(1) have run: "reviseMemory_tx no_gap t now inp s = Inr (r, s')" by (simp add: reviseMemory_ok)
  then obtain pred w payload s1 where
    pred: "predecessor_of ?u ?p s = Some pred"
    and frame: "only_sessions s s1"
    and carry: "carryCommitment no_gap t inp ?n payload (revised_store t inp w payload s1) = Inr ((), s')"
    and r: "rm_id r = ?n"
    by (rule reviseMemory_Inr) auto
  let ?s5 = "revised_store t inp w payload s1"
  have s5: "tbl_commitments ?s5 = tbl_commitments s" "next_id ?s5 = ?n + 4"
      "set (tbl_events s) \<subseteq> set (tbl_events ?s5)" "\<And>e. e \<in> set (tbl_events s) \<Longrightarrow> ev_id e < ?n"
    using only_sessionsD [OF frame] assms(2)
    by (auto simp: revised_store_def Let_def constraints_def events_ok_def ids_ok_def)
  then have on5: "commitment_on ?u m ?s5 = commitment_on ?u m s" for m by (simp add: commitment_on_def)
  have p: "?p \<noteq> ?n" using pred assms(2)
    by (auto simp: constraints_def memories_ok_def ids_ok_def dest!: find_row_Some)
  have s': "constraints s'" using run assms(2) by (rule inv_revise)
  have d: "distinct (map com_id (tbl_commitments ?s5))"
    using assms(2) by (simp add: s5 constraints_def commitments_ok_def ids_ok_def)
  note fresh = fresh_no_commitment [OF assms(2) order_refl, of ?u, unfolded commitment_on_None]
  note C = carryCommitment_Inr [OF carry d, unfolded on5]
  show ?thesis
  proof (cases "commitment_on ?u ?p s")
    case None
    then have "\<forall>d \<in> set (tbl_commitments s). com_user d = ?u \<longrightarrow> com_memory d \<noteq> ?p"
      by (simp add: commitment_on_None)
    with C fresh p s' show ?thesis
      by (auto simp: None r s5 Let_def commitment_on_None commitment_row_def
          intro!: commitment_on_mem split: if_splits)
  next
    case (Some c)
    note mem = commitment_on_Some [OF Some]
    have only: "\<And>x. x \<in> set (tbl_commitments s) \<Longrightarrow> com_user x = ?u \<Longrightarrow> com_memory x = ?p \<Longrightarrow> x = c"
      using commitment_on_mem [OF assms(2)] Some by fastforce
    have key: "d \<in> set (tbl_commitments s') \<Longrightarrow> com_user d = ?u \<Longrightarrow> com_memory d = m \<Longrightarrow>
        commitment_on ?u m s' = Some d" for d m
      using s' by (rule commitment_on_mem)
    show ?thesis
    proof (cases "mw_type (rv_in inp) = Commitment")
      case True
      with C have cs: "tbl_commitments s' = sql_update (\<lambda>d. d = c)
          (\<lambda>d. d\<lparr>com_memory := ?n, com_updated_at := t\<rparr>) (tbl_commitments s)"
        by (simp add: Some s5)
      have "c\<lparr>com_memory := ?n, com_updated_at := t\<rparr> \<in> set (tbl_commitments s')"
        unfolding cs set_sql_update using mem by blast
      then have "commitment_on ?u ?n s' = Some (c\<lparr>com_memory := ?n, com_updated_at := t\<rparr>)"
        using mem by (intro key) simp_all
      moreover have "com_memory d \<noteq> ?p" if "d \<in> set (tbl_commitments s')" "com_user d = ?u" for d
      proof -
        from that(1) consider "d = c\<lparr>com_memory := ?n, com_updated_at := t\<rparr>"
          | "d \<in> set (tbl_commitments s)" "d \<noteq> c"
          unfolding cs set_update_one [OF conjunct1 [OF mem]] by blast
        then show ?thesis using only [of d] p that(2) by cases auto
      qed
      then have "commitment_on ?u ?p s' = None" by (simp add: commitment_on_None)
      ultimately show ?thesis using True by (simp add: Some r Let_def)
    next
      case False
      let ?c = "if is_live_status (com_status c) then resolve_row t c else c"
      have cs: "tbl_commitments s' = sql_update (\<lambda>d. d = c) (\<lambda>_. ?c) (tbl_commitments s)"
        using C False by (auto simp: Some s5 sql_update_def)
      have "?c \<in> set (tbl_commitments s')" unfolding cs set_sql_update using mem by blast
      then have "commitment_on ?u ?p s' = Some ?c" using mem by (intro key) (simp_all add: resolve_row_def)
      moreover have "commitment_on ?u ?n s' = None"
        using fresh p mem unfolding commitment_on_None cs set_sql_update
        by (auto simp: resolve_row_def)
      moreover have "\<exists>e \<in> set (tbl_events s') - set (tbl_events s).
          ev_kind e = EvResolve \<and> ev_user e = ?u \<and> ev_memory e = ?p" if "is_live_status (com_status c)"
      proof (rule bexI)
        let ?e = "(event_row t ?u ?p EvResolve (mw_actor (rv_in inp)) payload)\<lparr>ev_id := ?n + 4\<rparr>"
        show "ev_kind ?e = EvResolve \<and> ev_user ?e = ?u \<and> ev_memory ?e = ?p" by (simp add: event_row_def)
        show "?e \<in> set (tbl_events s') - set (tbl_events s)"
          using C False that s5(4) [of ?e] by (auto simp: Some s5(2))
      qed
      ultimately show ?thesis using False by (simp add: Some r Let_def)
    qed
  qed
qed

end
