(* ===== verification/ReviseConcurrency.thy ===== *)
theory ReviseConcurrency
  imports MemoryRevise
begin

text \<open>
  The write paths of \<open>memory-revise.ts\<close> under interference: which errors a revision can surface, a
  demotion that races with the sweep, concurrent moves of one row, and the archive of a blocker.
  The definitions are those of \<open>MemoryRevise\<close>.
\<close>

section \<open>Demotion against the sweep\<close>

text \<open>
  Losing the race to the sweep is not an error. When the obligation a demotion is about to
  resolve settles (expires, say) while the revision waits for its row, the carry returns, changes
  nothing and records no event: the update's liveness predicate keeps it off the illegal
  \<open>expired \<rightarrow> resolved\<close> edge that would abort the whole revision.
\<close>

theorem demotion_race_with_sweep:
  assumes "mw_type (rv_in inp) \<noteq> Commitment"
    and "commitment_on (mw_user (rv_in inp)) (rv_predecessor inp) s = Some c"
    and "\<forall>d \<in> set (tbl_commitments (gap 7 s)). com_id d = com_id c \<longrightarrow> \<not> is_live_status (com_status d)"
    and "constraints (gap 7 s)"
  shows "carryCommitment gap t inp i payload s = Inr ((), if is_live_status (com_status c) then gap 7 s else s)"
proof -
  let ?q = "\<lambda>d. com_user d = mw_user (rv_in inp) \<and> com_id d = com_id c \<and> is_live_status (com_status d)"
  have none: "\<And>d. d \<in> set (tbl_commitments (gap 7 s)) \<Longrightarrow> \<not> ?q d" using assms(3) by blast
  have "find_row (\<lambda>d. ?q d \<and> \<not> enforce_commitment_fsm (com_status d) (com_status (resolve_row t d)))
      (tbl_commitments (gap 7 s)) = None"
    using none by (auto simp: find_row_None)
  moreover have "sql_returning ?q (resolve_row t) (tbl_commitments (gap 7 s)) = []"
    "sql_update ?q (resolve_row t) (tbl_commitments (gap 7 s)) = tbl_commitments (gap 7 s)"
    using none by (simp_all add: sql_returning_Nil sql_update_none)
  ultimately have "update_commitments (mw_user (rv_in inp))
      (\<lambda>d. com_id d = com_id c \<and> is_live_status (com_status d)) (resolve_row t) (gap 7 s) = Inr ([], gap 7 s)"
    using assms(4) by (simp add: update_commitments_def Let_def constraints_def commitments_ok_def)
  with assms(1,2) show ?thesis
    by (simp add: carryCommitment_def Let_def select_commitment_def commitment_on_def bind_tx_def
        query_def wait_for_def ret_def)
qed

section \<open>Errors of a revision\<close>

text \<open>The tables are consistent and the predecessor's row exists.\<close>

definition anchored :: "uid \<Rightarrow> rid \<Rightarrow> store \<Rightarrow> bool" where
  "anchored u p s \<longleftrightarrow> constraints s \<and> (u, p) \<in> mem_keys (tbl_memories s)"

lemma evolves_mem_keys:
  assumes "evolves s s'" shows "mem_keys (tbl_memories s) \<subseteq> mem_keys (tbl_memories s')"
proof
  fix k assume "k \<in> mem_keys (tbl_memories s)"
  then obtain m where "m \<in> set (tbl_memories s)" "k = (mem_user m, mem_id m)"
    by (auto simp: mem_keys_def)
  moreover from this evolves_memory [OF assms] obtain m' where
    "m' \<in> set (tbl_memories s')" "mem_step m m'" by blast
  ultimately show "k \<in> mem_keys (tbl_memories s')"
    by (auto simp: mem_keys_def mem_step_def intro!: image_eqI [where x = m'])
qed

lemma anchored_step: "inv_step s s' \<Longrightarrow> evolves s s' \<Longrightarrow> anchored u p s \<Longrightarrow> anchored u p s'"
  using evolves_mem_keys by (auto simp: anchored_def inv_step_def)

lemma spec_anchored:
  assumes "moves inv_step m" and "moves evolves m"
    and "\<And>s e. anchored u p s \<Longrightarrow> m s = Inl e \<Longrightarrow> E e"
  shows "spec (anchored u p) m (\<lambda>_. anchored u p) E"
proof (rule spec_within)
  show "moves (\<lambda>s s'. anchored u p s \<longrightarrow> anchored u p s') m"
    using assms(1,2) by (blast intro: withinI anchored_step dest: withinD)
qed (rule assms(3))

text \<open>The errors a revision may surface; \<open>UniqueViolation\<close> is mapped to \<open>DuplicateMemory\<close> at the end.\<close>

definition revise_error :: "rid \<Rightarrow> string \<Rightarrow> err \<Rightarrow> bool" where
  "revise_error p h e \<longleftrightarrow> e = PredecessorNotFound p \<or> e = PredecessorAlreadySuperseded p \<or>
     e = DuplicateMemory h \<or> e = CheckViolation \<or> (\<exists>i. e = UnknownSessionRun i)"

abbreviation inner_error :: "rid \<Rightarrow> string \<Rightarrow> err \<Rightarrow> bool" where
  "inner_error p h e \<equiv> revise_error p h e \<or> e = UniqueViolation"

text \<open>What an append leaves for the edge and the commitment: a memory nothing refers to yet.\<close>

definition unreferenced :: "uid \<Rightarrow> rid \<Rightarrow> rid \<Rightarrow> store \<Rightarrow> bool" where
  "unreferenced u p i s \<longleftrightarrow> anchored u p s \<and> i \<noteq> p \<and> (u, i) \<in> mem_keys (tbl_memories s) \<and>
     (\<forall>c \<in> set (tbl_commitments s). com_memory c \<noteq> i)"

lemma spec_append:
  assumes "\<And>k s. inv_step s (gap k s) \<and> evolves s (gap k s)" and "mw_user w = u"
  shows "spec (anchored u p) (insertMemoryWithEvent gap t w ev None)
    (\<lambda>i s. unreferenced u p i s \<and> (\<forall>e \<in> set (tbl_edges s). edge_from e \<noteq> i)) (inner_error p (mw_hash w))"
proof (rule specI)
  fix s e
  assume "insertMemoryWithEvent gap t w ev None s = Inl e"
  then show "inner_error p (mw_hash w) e"
    by (auto simp: insertMemoryWithEvent_def duplicate_guard_def cap_guard_def tx_Inl tx_Inr
        insert_memory_def insert_event_def event_row_def memory_row_def mem_keys_append Let_def
        revise_error_def split: if_splits)
next
  fix s i s'
  assume a: "anchored u p s" and run: "insertMemoryWithEvent gap t w ev None s = Inr (i, s')"
  let ?t = "gap 5 s"
  from assms(1) a have t: "anchored u p ?t" by (blast intro: anchored_step)
  from run have s': "i = next_id ?t" "s' = appended t w ev ?t"
    by (simp_all add: insertMemoryWithEvent_Inr Let_def)
  have "moves inv_step (insertMemoryWithEvent gap t w ev None)"
    "moves evolves (insertMemoryWithEvent gap t w ev None)"
    using inv.within_insertMemoryWithEvent [OF _ assms(2), of gap] assms(1)
      hist.within_insertMemoryWithEvent [OF _ assms(2), of gap] by blast+
  with a run have "anchored u p s'" by (blast intro: anchored_step dest: withinD)
  moreover have "i \<noteq> p" "\<forall>c \<in> set (tbl_commitments ?t). com_memory c \<noteq> i"
      "\<forall>e \<in> set (tbl_edges ?t). edge_from e \<noteq> i"
    using t by (force simp: s'(1) anchored_def constraints_def memories_ok_def commitments_ok_def
        edges_ok_def ids_ok_def mem_keys_def com_key_def)+
  moreover have "(u, i) \<in> mem_keys (tbl_memories s')"
    using assms(2) by (simp add: s' mem_keys_append memory_row_def)
  ultimately show "unreferenced u p i s' \<and> (\<forall>e \<in> set (tbl_edges s'). edge_from e \<noteq> i)"
    by (simp add: unreferenced_def s')
qed

lemma spec_edge:
  "spec (\<lambda>s. unreferenced u p i s \<and> (\<forall>e \<in> set (tbl_edges s). edge_from e \<noteq> i))
     (insertEdge t u i p k a) (\<lambda>_. unreferenced u p i) E"
proof (rule specI)
  fix s e
  assume "unreferenced u p i s \<and> (\<forall>e \<in> set (tbl_edges s). edge_from e \<noteq> i)"
    and "insertEdge t u i p k a s = Inl e"
  then show "E e"
    by (force simp: insertEdge_def tx_Inl insert_edge_row_def unreferenced_def anchored_def
        edge_key_def Let_def split: if_splits)
next
  fix s x s'
  assume a: "unreferenced u p i s \<and> (\<forall>e \<in> set (tbl_edges s). edge_from e \<noteq> i)"
    and run: "insertEdge t u i p k a s = Inr (x, s')"
  from run inv.within_insertEdge hist.within_insertEdge a have "anchored u p s'"
    unfolding unreferenced_def by (blast intro: anchored_step dest: withinD)
  with a run show "unreferenced u p i s'"
    by (cases x) (auto simp: unreferenced_def insertEdge_Inr)
qed

lemma spec_supersede_event:
  "spec (unreferenced u p i) (insert_event (event_row t u p k a pl)) (\<lambda>_. unreferenced u p i) E"
proof (rule specI)
  fix s e
  assume "unreferenced u p i s" and "insert_event (event_row t u p k a pl) s = Inl e"
  then show "E e"
    by (auto simp: insert_event_def event_row_def unreferenced_def anchored_def Let_def split: if_splits)
next
  fix s x s'
  assume a: "unreferenced u p i s" and run: "insert_event (event_row t u p k a pl) s = Inr (x, s')"
  from run inv.ins_event hist.ins_event a have "anchored u p s'"
    unfolding unreferenced_def using row_users(2) by (blast intro: anchored_step dest: withinD)
  with a run show "unreferenced u p i s'"
    by (auto simp: unreferenced_def insert_event_row_Inr)
qed

lemma distinct_moved:
  assumes "distinct (map com_id cs)" and "distinct (map com_key cs)" and "\<forall>c \<in> set cs. com_memory c \<noteq> i"
  shows "distinct (map com_key (sql_update (\<lambda>d. com_user d = u \<and> com_id d = j)
    (\<lambda>d. d\<lparr>com_memory := i, com_updated_at := t\<rparr>) cs))"
  using assms
proof (induction cs)
  case (Cons c cs)
  let ?q = "\<lambda>d. com_user d = u \<and> com_id d = j" and ?f = "\<lambda>d. d\<lparr>com_memory := i, com_updated_at := t\<rparr>"
  show ?case
  proof (cases "?q c")
    case True
    with Cons.prems(1) have "j \<notin> com_id ` set cs" by simp
    then have "sql_update ?q ?f cs = cs" by (intro sql_update_none) auto
    with Cons True show ?thesis by (force simp: sql_update_def com_key_def)
  next
    case False
    have "com_key ` set (sql_update ?q ?f cs) \<subseteq> insert (u, i) (com_key ` set cs)"
      by (auto simp: set_sql_update com_key_def)
    with Cons False show ?thesis by (force simp: sql_update_def com_key_def)
  qed
qed (simp add: sql_update_def)

lemma spec_resolve_update:
  "spec (anchored u p) (update_commitments u (\<lambda>d. com_id d = j \<and> is_live_status (com_status d)) (resolve_row t))
     (\<lambda>_. anchored u p) E"
proof (rule spec_anchored)
  fix v e
  assume v: "anchored u p v"
    and run: "update_commitments u (\<lambda>d. com_id d = j \<and> is_live_status (com_status d)) (resolve_row t) v = Inl e"
  let ?q = "\<lambda>d. com_user d = u \<and> com_id d = j \<and> is_live_status (com_status d)"
  have "find_row (\<lambda>d. ?q d \<and> \<not> enforce_commitment_fsm (com_status d) (com_status (resolve_row t d)))
      (tbl_commitments v) = None"
    by (auto simp: find_row_None is_live_status_def resolve_row_def canTransition_to_resolved
        enforce_commitment_fsm_iff)
  moreover have keys: "map com_key (sql_update ?q (resolve_row t) (tbl_commitments v)) =
      map com_key (tbl_commitments v)"
    by (rule sql_update_cong_key) (simp add: resolve_row_def com_key_def)
  moreover from this have "com_key ` set (sql_update ?q (resolve_row t) (tbl_commitments v)) =
      com_key ` set (tbl_commitments v)" by (rule map_eq_image)
  ultimately show "E e"
    using run v by (simp add: update_commitments_def Let_def anchored_def constraints_def commitments_ok_def)
qed (rule inv.upd_commitments hist.upd_commitments, rule com_step_resolve_row)+

lemma spec_move_update:
  "spec (unreferenced u p i) (update_commitments u (\<lambda>d. com_id d = j)
     (\<lambda>d. d\<lparr>com_memory := i, com_updated_at := t\<rparr>)) (\<lambda>_ _. True) E"
proof (rule specI)
  fix s e
  assume a: "unreferenced u p i s" and run: "update_commitments u (\<lambda>d. com_id d = j)
     (\<lambda>d. d\<lparr>com_memory := i, com_updated_at := t\<rparr>) s = Inl e"
  let ?q = "\<lambda>d. com_user d = u \<and> com_id d = j" and ?f = "\<lambda>d. d\<lparr>com_memory := i, com_updated_at := t\<rparr>"
  have "distinct (map com_key (sql_update ?q ?f (tbl_commitments s)))"
    using a by (intro distinct_moved)
      (auto simp: unreferenced_def anchored_def constraints_def commitments_ok_def ids_ok_def)
  moreover have "com_key ` set (sql_update ?q ?f (tbl_commitments s)) \<subseteq>
      insert (u, i) (com_key ` set (tbl_commitments s))"
    by (auto simp: set_sql_update com_key_def)
  then have "com_key ` set (sql_update ?q ?f (tbl_commitments s)) \<subseteq> mem_keys (tbl_memories s)"
    using a by (auto simp: unreferenced_def anchored_def constraints_def commitments_ok_def)
  moreover have "find_row (\<lambda>d. ?q d \<and> \<not> enforce_commitment_fsm (com_status d) (com_status (?f d)))
      (tbl_commitments s) = None"
    by (simp add: find_row_None enforce_commitment_fsm_iff)
  ultimately show "E e" using run by (simp add: update_commitments_def Let_def)
qed simp

lemma spec_anchored_event:
  "spec (anchored u p) (insert_event (event_row t u p k a pl)) (\<lambda>_ _. True) E"
  by (rule specI) (auto simp: insert_event_def event_row_def anchored_def Let_def)

lemma spec_fresh_commitment:
  "spec (unreferenced u p i) (insert_commitment (commitment_row t u i None None)) (\<lambda>_ _. True) E"
proof (rule specI)
  fix s e
  assume a: "unreferenced u p i s" and run: "insert_commitment (commitment_row t u i None None) s = Inl e"
  from a have "(u, i) \<notin> com_key ` set (tbl_commitments s)" "(u, i) \<in> mem_keys (tbl_memories s)"
    by (auto simp: unreferenced_def com_key_def)
  with run show "E e" by (simp add: insert_commitment_def commitment_row_def com_key_def Let_def)
qed simp

lemma spec_carry:
  assumes "\<And>k s. inv_step s (gap k s) \<and> evolves s (gap k s)"
    and "mw_user (rv_in inp) = u" "rv_predecessor inp = p"
  shows "spec (unreferenced u p i) (carryCommitment gap t inp i pl) (\<lambda>_ _. True) E"
proof -
  have read: "spec (unreferenced u p i) (select_commitment u f) (\<lambda>_. unreferenced u p i) E" for f
    by (simp add: spec_def select_commitment_def query_def)
  have wait: "spec (unreferenced u p i) (wait_for (gap 7)) (\<lambda>_. anchored u p) E"
    using assms(1) by (intro spec_wait) (auto simp: unreferenced_def intro: anchored_step)
  show ?thesis
    unfolding carryCommitment_def Let_def assms(2,3)
    by (rule spec_bind, rule read)
      (intro spec_case_option spec_if spec_ret TrueI spec_bind [OF wait] spec_bind [OF spec_resolve_update]
        spec_case_list spec_bind [OF spec_anchored_event] spec_bind [OF spec_move_update]
        spec_bind [OF spec_fresh_commitment])
qed

lemma spec_revise:
  assumes "\<And>k s. inv_step s (gap k s) \<and> evolves s (gap k s)"
  shows "spec constraints (reviseMemory_tx gap t now inp) (\<lambda>_ _. True)
    (inner_error (rv_predecessor inp) (mw_hash (rv_in inp)))"
proof (rule specI)
  let ?u = "mw_user (rv_in inp)" and ?p = "rv_predecessor inp"
  let ?E = "inner_error ?p (mw_hash (rv_in inp))"
  fix s e
  assume c: "constraints s" and run: "reviseMemory_tx gap t now inp s = Inl e"
  have gaps: "inv_step s (gap k s)" "evolves s (gap k s)" for k s using assms by auto
  define rest where "rest run w = (let payload = sessionPayload run in
     bind_tx (wait_for (gap 6)) (\<lambda>_.
     bind_tx (update_memories ?u (open_row_of ?p) (close_row t)) (\<lambda>closed. case closed of
       [] \<Rightarrow> throw (PredecessorAlreadySuperseded ?p)
     | _ # _ \<Rightarrow>
         bind_tx (insertMemoryWithEvent gap t w (native_event payload) None) (\<lambda>successor.
         bind_tx (insertEdge t ?u successor ?p (rv_edge inp) (mw_actor (rv_in inp))) (\<lambda>_.
         bind_tx (insert_event (event_row t ?u ?p EvSupersede (mw_actor (rv_in inp)) payload)) (\<lambda>_.
         bind_tx (carryCommitment gap t inp successor payload) (\<lambda>_.
         ret \<lparr>rm_id = successor, rm_type = mw_type (rv_in inp), rm_topic = mw_topic (rv_in inp),
              rm_scope = mw_scope w, rm_project = mw_project w, rm_tags = mw_tags w\<rparr>)))))))" for run w
  have rest: "spec (anchored ?u ?p) (rest run w) (\<lambda>_ _. True) ?E"
    if "mw_user w = ?u" "mw_hash w = mw_hash (rv_in inp)" for run w
    unfolding rest_def Let_def
  proof (intro spec_bind spec_case_list spec_throw spec_ret)
    show "spec (anchored ?u ?p) (wait_for (gap 6)) (\<lambda>_. anchored ?u ?p) ?E"
      using gaps by (intro spec_wait) (rule anchored_step)
    show "spec (anchored ?u ?p) (update_memories ?u (open_row_of ?p) (close_row t)) (\<lambda>_. anchored ?u ?p) ?E"
      by (intro spec_anchored inv.upd_memories hist.upd_memories mem_step_close)
        (auto simp: update_memories_def revise_error_def Let_def split: if_splits)
    show "spec (anchored ?u ?p) (insertMemoryWithEvent gap t w ev None)
      (\<lambda>i s. unreferenced ?u ?p i s \<and> (\<forall>e \<in> set (tbl_edges s). edge_from e \<noteq> i)) ?E" for ev
      using spec_append [OF assms that(1)] that(2) by simp
    show "spec (\<lambda>s. unreferenced ?u ?p i s \<and> (\<forall>e \<in> set (tbl_edges s). edge_from e \<noteq> i))
      (insertEdge t ?u i ?p k a) (\<lambda>_. unreferenced ?u ?p i) ?E" for i k a
      by (rule spec_edge)
    show "spec (unreferenced ?u ?p i) (insert_event (event_row t ?u ?p k a pl)) (\<lambda>_. unreferenced ?u ?p i) ?E"
      for i k a pl by (rule spec_supersede_event)
    show "spec (unreferenced ?u ?p i) (carryCommitment gap t inp i pl) (\<lambda>_ _. True) ?E" for i pl
      using assms by (rule spec_carry) simp_all
  qed (simp_all add: revise_error_def)
  show "?E e"
  proof (cases "predecessor_of ?u ?p s")
    case None
    with run show ?thesis
      by (simp add: reviseMemory_tx_def Let_def select_memory_def throw_def revise_error_def)
  next
    case (Some pred)
    then have "(?u, ?p) \<in> mem_keys (tbl_memories s)"
      by (force simp: mem_keys_def dest: find_row_Some)
    with c have "anchored ?u ?p s" by (simp add: anchored_def)
    moreover have "spec (anchored ?u ?p) (resolveSessionProvenance gap ?u r pj now) (\<lambda>_. anchored ?u ?p) ?E" for r pj
      using gaps by (intro spec_anchored inv.within_resolveSessionProvenance hist.within_resolveSessionProvenance)
        (auto simp: revise_error_def dest: resolveSessionProvenance_error)
    then have "spec (anchored ?u ?p) (bind_tx (resolveSessionProvenance gap ?u r pj now)
        (\<lambda>run. rest run (successor_write inp pred))) (\<lambda>_ _. True) ?E" for r pj
      by (rule spec_bind) (rule rest, simp_all add: successor_write_def)
    ultimately show ?thesis
      using run Some spec_Inl
      by (fastforce simp: reviseMemory_tx_def Let_def select_memory_def throw_def revise_error_def rest_def
          split: if_splits)
  qed
qed simp

text \<open>
  Whatever the other transactions do, as long as they keep the tables consistent and delete
  nothing, a revision fails only with: predecessor absent, predecessor already superseded,
  duplicate content, an unknown session run, or a validity window the CHECK refuses. The edge
  conflict the source types and rethrows cannot happen, and neither can a foreign-key failure or a
  collision on the commitment's unique index.
\<close>

theorem revise_errors:
  assumes "constraints s" and "\<And>k s. inv_step s (gap k s) \<and> evolves s (gap k s)"
    and "reviseMemory gap t now inp s = (Inl e, s')"
  shows "revise_error (rv_predecessor inp) (mw_hash (rv_in inp)) e \<and> s' = s"
proof -
  from assms(3) obtain e' where "reviseMemory_tx gap t now inp s = Inl e'" "e = duplicate_of (mw_hash (rv_in inp)) e'"
    and "s' = s"
    by (auto simp: reviseMemory_def withTenant_def run_tx_Inl map_error_Inl)
  moreover from this have "inner_error (rv_predecessor inp) (mw_hash (rv_in inp)) e'"
    using spec_Inl [OF spec_revise [of gap, OF assms(2)] assms(1)] by blast
  ultimately show ?thesis by (auto simp: duplicate_of_def revise_error_def)
qed

section \<open>Moves\<close>

lemma update_memories_Inr:
  "update_memories u p f s = Inr (rows, s') \<Longrightarrow>
   rows = sql_returning (\<lambda>m. mem_user m = u \<and> p m) f (tbl_memories s) \<and>
   s' = s\<lparr>tbl_memories := sql_update (\<lambda>m. mem_user m = u \<and> p m) f (tbl_memories s)\<rparr> \<and>
   distinct (live_hashes (tbl_memories s'))"
  by (auto simp: update_memories_def Let_def split: if_splits)

lemma filed_of_refile: "filed_of (refile t f m) = f"
  by (simp add: filed_of_def refile_def)

text \<open>A move that wrote, taken apart: \<open>v\<close> is the store at the row lock.\<close>

lemma moveMemory_changed:
  assumes "moveMemory gap t now inp s = (Inr r, s')" and "mm_changed r"
  obtains run v cur where "predecessor_of (mv_user inp) (mv_memory inp) v = Some cur"
    "mm_filed r = resolve_filing inp cur" "resolve_filing inp cur \<noteq> filed_of cur"
    "\<exists>v'. v = gap 9 v'"
    "s' = v\<lparr>tbl_memories := sql_update (\<lambda>m. mem_user m = mv_user inp \<and> mem_id m = mv_memory inp)
        (refile t (resolve_filing inp cur)) (tbl_memories v),
      tbl_events := tbl_events v @ [(event_row t (mv_user inp) (mv_memory inp) EvRevise (mv_actor inp)
        (Some (MovePayload run (filing_of (filed_of cur)) (filing_of (resolve_filing inp cur)))))
        \<lparr>ev_id := next_id v\<rparr>], next_id := Suc (next_id v)\<rparr>"
proof -
  from assms(1) have "moveMemory_tx gap t now inp s = Inr (r, s')" by (simp add: moveMemory_def withTenant_ok)
  then obtain v' cur run where
    cur: "predecessor_of (mv_user inp) (mv_memory inp) (gap 9 v') = Some cur"
    "mm_filed r = resolve_filing inp cur" "resolve_filing inp cur \<noteq> filed_of cur"
    and s': "\<exists>rows w. update_memories (mv_user inp) (\<lambda>m. mem_id m = mv_memory inp)
        (refile t (resolve_filing inp cur)) (gap 9 v') = Inr (rows, w) \<and>
      (\<exists>i. insert_event (event_row t (mv_user inp) (mv_memory inp) EvRevise (mv_actor inp)
        (Some (MovePayload run (filing_of (filed_of cur)) (filing_of (resolve_filing inp cur))))) w = Inr (i, s'))"
    using assms(2)
    by (auto simp: moveMemory_tx_def Let_def tx_Inr guardSessionMutation_run select_memory_def
        moved_def split: if_splits) blast
  from s' have "s' = (gap 9 v')\<lparr>tbl_memories := sql_update (\<lambda>m. mem_user m = mv_user inp \<and> mem_id m = mv_memory inp)
        (refile t (resolve_filing inp cur)) (tbl_memories (gap 9 v')),
      tbl_events := tbl_events (gap 9 v') @ [(event_row t (mv_user inp) (mv_memory inp) EvRevise (mv_actor inp)
        (Some (MovePayload run (filing_of (filed_of cur)) (filing_of (resolve_filing inp cur)))))
        \<lparr>ev_id := next_id (gap 9 v')\<rparr>], next_id := Suc (next_id (gap 9 v'))\<rparr>"
    by (auto simp: insert_event_row_Inr dest!: update_memories_Inr)
  with cur that show ?thesis by blast
qed

text \<open>
  A move's audit is true. Whatever was committed while it waited, the one event it appends
  carries as \<open>from\<close> the filing the row had at the row lock and as \<open>to\<close> the filing it has after, and
  the row changes in nothing but its filing and \<open>updated_at\<close>.
\<close>

theorem move_event_is_true:
  assumes "moveMemory gap t now inp s = (Inr r, s')" and "mm_changed r"
  shows "\<exists>v cur run e. predecessor_of (mv_user inp) (mv_memory inp) v = Some cur \<and>
    predecessor_of (mv_user inp) (mv_memory inp) s' = Some (refile t (mm_filed r) cur) \<and>
    filed_of cur \<noteq> mm_filed r \<and>
    tbl_events s' = tbl_events v @ [(event_row t (mv_user inp) (mv_memory inp) EvRevise (mv_actor inp)
      (Some (MovePayload run (filing_of (filed_of cur)) (filing_of (mm_filed r)))))\<lparr>ev_id := e\<rparr>]"
proof -
  from assms obtain run v cur where
    cur: "predecessor_of (mv_user inp) (mv_memory inp) v = Some cur"
    and r: "mm_filed r = resolve_filing inp cur" "resolve_filing inp cur \<noteq> filed_of cur"
    and s': "s' = v\<lparr>tbl_memories := sql_update (\<lambda>m. mem_user m = mv_user inp \<and> mem_id m = mv_memory inp)
        (refile t (resolve_filing inp cur)) (tbl_memories v),
      tbl_events := tbl_events v @ [(event_row t (mv_user inp) (mv_memory inp) EvRevise (mv_actor inp)
        (Some (MovePayload run (filing_of (filed_of cur)) (filing_of (resolve_filing inp cur)))))
        \<lparr>ev_id := next_id v\<rparr>], next_id := Suc (next_id v)\<rparr>"
    by (rule moveMemory_changed) blast
  have "predecessor_of (mv_user inp) (mv_memory inp) s' = Some (refile t (mm_filed r) cur)"
    using cur by (simp add: s' r(1) find_row_update_same refile_def)
  with cur r s' show ?thesis by (intro exI conjI) auto
qed

text \<open>
  A move that asks for what the row already has writes nothing: no event, no session attached,
  no lease refreshed. It still fails on a run id the tenant does not own.
\<close>

theorem noop_move_writes_nothing:
  assumes "user_live (mv_user inp) s"
    and "predecessor_of (mv_user inp) (mv_memory inp) s = Some m" and "resolve_filing inp m = filed_of m"
  shows "moveMemory no_gap t now inp s = ((case mv_run inp of
      RunId i \<Rightarrow> if session_of (mv_user inp) i s = None then Inl (UnknownSessionRun i)
        else Inr (moved (mv_memory inp) m (filed_of m) False)
    | _ \<Rightarrow> Inr (moved (mv_memory inp) m (filed_of m) False)), s)"
proof -
  have guard: "guardSessionMutation (no_gap 8) (mv_user inp) s = Inr ((), s)"
    using assms(1) by (simp add: guardSessionMutation_run)
  have owned: "assertSessionRunOwnedIn (mv_user inp) i s =
      (if session_of (mv_user inp) i s = None then Inl (UnknownSessionRun i) else Inr ((), s))" for i
    by (auto simp: assertSessionRunOwnedIn_def bind_runs throw_def ret_def)
  show ?thesis
    using assms(2,3)
    by (cases "mv_run inp")
      (simp_all add: moveMemory_def withTenant_def run_tx_def moveMemory_tx_def Let_def guard
        select_memory_def ret_def owned bind_tx_def query_def)
qed

text \<open>
  Two concurrent moves of one memory that set different fields both land: the second waits for
  the row while the first commits, and its own field is applied to the filing the first one left.
\<close>

theorem concurrent_moves_both_land:
  assumes "moveMemory no_gap t now (inp\<lparr>mv_scope := Some sc, mv_project := None, mv_tags := None\<rparr>) s = (Inr ra, sA)"
    and "mm_changed ra"
    and "moveMemory (gap(9 := \<lambda>_. sA)) t' now' (inp\<lparr>mv_scope := None, mv_project := None, mv_tags := Some tg\<rparr>) s
      = (Inr rb, sB)"
    and "mm_changed rb"
  shows "\<exists>m. predecessor_of (mv_user inp) (mv_memory inp) sB = Some m \<and>
    mem_scope m = sc \<and> mem_tags m = tg"
proof -
  let ?A = "inp\<lparr>mv_scope := Some sc, mv_project := None, mv_tags := None\<rparr>"
  let ?B = "inp\<lparr>mv_scope := None, mv_project := None, mv_tags := Some tg\<rparr>"
  from assms(1,2) obtain v cur where "predecessor_of (mv_user inp) (mv_memory inp) v = Some cur"
    and "mm_filed ra = resolve_filing ?A cur"
    and "tbl_memories sA = sql_update (\<lambda>m. mem_user m = mv_user inp \<and> mem_id m = mv_memory inp)
        (refile t (resolve_filing ?A cur)) (tbl_memories v)"
    by (rule moveMemory_changed) auto
  then have A: "predecessor_of (mv_user inp) (mv_memory inp) sA = Some (refile t (resolve_filing ?A cur) cur)"
    by (simp add: find_row_update_same refile_def)
  from assms(3,4) obtain cur' where "predecessor_of (mv_user inp) (mv_memory inp) sA = Some cur'"
    and "tbl_memories sB = sql_update (\<lambda>m. mem_user m = mv_user inp \<and> mem_id m = mv_memory inp)
        (refile t' (resolve_filing ?B cur')) (tbl_memories sA)"
    by (rule moveMemory_changed) auto
  then have "predecessor_of (mv_user inp) (mv_memory inp) sB =
      Some (refile t' (resolve_filing ?B cur') cur')" and "cur' = refile t (resolve_filing ?A cur) cur"
    using A by (simp_all add: find_row_update_same refile_def)
  then show ?thesis by (simp add: refile_def resolve_filing_def orElse_def)
qed

section \<open>Archived blockers\<close>

text \<open>
  Resolving a blocker archives it and frees its content: the row stays, closed and archived with
  one \<open>archive\<close> event, and no live memory of the tenant has its content hash any more, so the same
  blocker can be recorded again.
\<close>

theorem archive_frees_the_hash:
  assumes "archiveBlockerMemory no_gap t now u i a run s = (Inr r, s')" and "constraints s"
  shows "\<exists>m e p. predecessor_of u i s = Some m \<and> mem_type m = Blocker \<and>
    predecessor_of u i s' = Some (archive_row t m) \<and>
    tbl_events s' = tbl_events s @ [(event_row t u i EvArchive a p)\<lparr>ev_id := e\<rparr>] \<and>
    (\<forall>x \<in> set (tbl_memories s'). mem_user x = u \<longrightarrow> \<not> live_with_hash (mem_hash m) x)"
proof -
  from assms(1) obtain m runId s1 rows s2 where
    sel: "find_row (\<lambda>m. mem_user m = u \<and> live_blocker i m) (tbl_memories s) = Some m"
    and prov: "resolveSessionProvenance no_gap u run (mem_project m) now s = Inr (runId, s1)"
    and upd: "update_memories u (live_blocker i) (archive_row t) s1 = Inr (rows, s2)"
    and ev: "\<exists>n. insert_event (event_row t u i EvArchive a (sessionPayload runId)) s2 = Inr (n, s')"
    by (auto simp: archiveBlockerMemory_def withTenant_ok archiveBlockerMemory_tx_def tx_Inr select_memory_def)
  note fr = only_sessionsD [OF withinD [OF only_sessions_resolve prov]]
  have m: "m \<in> set (tbl_memories s)" "mem_user m = u" "live_blocker i m"
    using sel by (auto dest: find_row_Some)
  have uniq: "x = m" if "x \<in> set (tbl_memories s)" "mem_id x = i" for x
    using that m assms(2)
    by (auto simp: constraints_def memories_ok_def ids_ok_def distinct_map live_blocker_def dest: inj_onD)
  have pred: "predecessor_of u i s = Some m"
    using m assms(2) by (intro find_row_unique [where key = mem_id])
      (auto simp: constraints_def memories_ok_def ids_ok_def live_blocker_def)
  have mems: "tbl_memories s' = sql_update (\<lambda>x. mem_user x = u \<and> live_blocker i x) (archive_row t) (tbl_memories s)"
    using update_memories_Inr [OF upd] ev fr by (auto simp: insert_event_row_Inr)
  have "predecessor_of u i s' = Some (archive_row t m)"
    using pred m by (simp add: mems find_row_update archive_row_def)
  moreover have "tbl_events s' = tbl_events s @ [(event_row t u i EvArchive a (sessionPayload runId))
      \<lparr>ev_id := next_id s2\<rparr>]"
    using update_memories_Inr [OF upd] ev fr by (auto simp: insert_event_row_Inr)
  moreover have "\<not> live_with_hash (mem_hash m) x" if "x \<in> set (tbl_memories s')" "mem_user x = u" for x
  proof
    assume live: "live_with_hash (mem_hash m) x"
    then have "\<nexists>y. x = archive_row t y" by (auto simp: archive_row_def live_with_hash_def)
    with that(1) have "x \<in> set (tbl_memories s) \<and> \<not> (mem_user x = u \<and> live_blocker i x)"
      unfolding mems set_sql_update by blast
    with m have x: "x \<in> set (tbl_memories s)" "x \<noteq> m" by auto
    have "inj_on (\<lambda>m. (mem_user m, mem_hash m)) (set (filter mem_live (tbl_memories s)))"
      using assms(2) by (simp add: constraints_def memories_ok_def live_hashes_def distinct_map)
    then have "x = m"
      by (rule inj_onD) (use x live that(2) m in \<open>simp_all add: live_with_hash_def mem_live_def live_blocker_def\<close>)
    with x show False by simp
  qed
  ultimately show ?thesis using pred m by (auto simp: live_blocker_def)
qed

end
