(* ===== verification/CommitmentsDb.thy ===== *)
theory CommitmentsDb
  imports ReviseConcurrency
begin

text \<open>
  Commitment persistence: \<open>packages/db/src/commitments.ts\<close>, with the error mapping of
  \<open>packages/db/src/pg-errors.ts\<close>. Waits: 11 is the parent memory's share lock, 12 the row lock the
  stamped (closer) path takes first, 13 the row lock of an unstamped transition's UPDATE.
\<close>

section \<open>Create and read\<close>

record commitment_create =
  cc_user :: uid
  cc_memory :: rid
  cc_owner :: "string option"
  cc_due_at :: "jsdate option"
  cc_recurrence :: "string option"
  cc_next_surfacing_at :: "jsdate option"
  cc_actor :: actor_kind

record commitment_state =
  cs_id :: rid
  cs_memory :: rid
  cs_status :: commitment_status

definition live_commitment_memory :: "rid \<Rightarrow> memory \<Rightarrow> bool" where
  "live_commitment_memory i m \<longleftrightarrow> mem_id m = i \<and> mem_type m = Commitment \<and> mem_valid_to m = None"

definition created_row :: "instant \<Rightarrow> commitment_create \<Rightarrow> commitment" where
  "created_row t inp = (commitment_row t (cc_user inp) (cc_memory inp) (cc_owner inp) (cc_due_at inp))
     \<lparr>com_recurrence := cc_recurrence inp,
      com_next_surfacing_at := map_option sql_of_date (cc_next_surfacing_at inp)\<rparr>"

definition createCommitment_tx :: "interference \<Rightarrow> instant \<Rightarrow> commitment_create \<Rightarrow> (rid \<times> commitment_status) stm" where
  "createCommitment_tx gap t inp =
     bind_tx (wait_for (gap 11)) (\<lambda>_.
     bind_tx (select_memory (cc_user inp) (live_commitment_memory (cc_memory inp))) (\<lambda>parent. case parent of
       None \<Rightarrow> throw (NotCommitmentMemory (cc_memory inp))
     | Some _ \<Rightarrow>
         bind_tx (insert_commitment (created_row t inp)) (\<lambda>i.
         bind_tx (insert_event (event_row t (cc_user inp) (cc_memory inp) EvCreate (cc_actor inp) None)) (\<lambda>_.
         ret (i, StOpen)))))"

definition createCommitment ::
  "interference \<Rightarrow> instant \<Rightarrow> commitment_create \<Rightarrow> store \<Rightarrow> (err + rid \<times> commitment_status) \<times> store" where
  "createCommitment gap t inp = withTenant (cc_user inp)
     (map_error (\<lambda>e. if e = UniqueViolation then CommitmentExists (cc_memory inp) else e)
       (createCommitment_tx gap t inp))"

definition toState :: "commitment \<Rightarrow> commitment_state" where
  "toState c = \<lparr>cs_id = com_id c, cs_memory = com_memory c, cs_status = com_status c\<rparr>"

definition getCommitment :: "uid \<Rightarrow> rid \<Rightarrow> store \<Rightarrow> commitment_state option" where
  "getCommitment u i s =
     map_option toState (find_row (\<lambda>c. com_user c = u \<and> com_id c = i) (tbl_commitments s))"

definition getCommitmentByMemoryId :: "uid \<Rightarrow> rid \<Rightarrow> store \<Rightarrow> commitment_state option" where
  "getCommitmentByMemoryId u m s =
     map_option toState (find_row (\<lambda>c. com_user c = u \<and> com_memory c = m) (tbl_commitments s))"

section \<open>Transition\<close>

record commitment_transition =
  ct_user :: uid
  ct_id :: rid
  ct_to :: commitment_status
  ct_actor :: actor_kind
  ct_expected :: "commitment_status option"
  ct_run :: run_arg
  ct_reason :: "string option"
  ct_stamped_run :: "rid option"
  ct_stamped_epoch :: "nat option"

fun TRANSITION_EVENT_KIND :: "commitment_status \<Rightarrow> event_kind" where
  "TRANSITION_EVENT_KIND StOpen = EvUnresolve"
| "TRANSITION_EVENT_KIND StWaiting = EvRevise"
| "TRANSITION_EVENT_KIND StResolved = EvResolve"
| "TRANSITION_EVENT_KIND StExpired = EvArchive"

definition transition_row :: "instant \<Rightarrow> commitment_transition \<Rightarrow> commitment \<Rightarrow> commitment" where
  "transition_row t inp c = c\<lparr>com_status := ct_to inp,
     com_resolved_at := (if ct_to inp = StResolved then Some t else None),
     com_last_resolution_reason := ct_reason inp, com_updated_at := t\<rparr>"

definition transition_where :: "commitment_transition \<Rightarrow> commitment \<Rightarrow> bool" where
  "transition_where inp c \<longleftrightarrow> com_id c = ct_id inp \<and>
     (case ct_expected inp of None \<Rightarrow> True | Some st \<Rightarrow> com_status c = st)"

text \<open>The epoch fence, present when the run and the epoch are both stamped.\<close>

definition epoch_fence :: "commitment_transition \<Rightarrow> unit stm" where
  "epoch_fence inp = (case (ct_stamped_run inp, ct_stamped_epoch inp) of
       (Some run, Some ep) \<Rightarrow>
         bind_tx (readSession (ct_user inp) run) (\<lambda>session. case session of
           None \<Rightarrow> throw (SessionEpochFenced run ep)
         | Some x \<Rightarrow> if ses_epoch x \<noteq> ep then throw (SessionEpochFenced run ep) else ret ())
     | _ \<Rightarrow> ret ())"

definition is_locked :: "commitment_transition \<Rightarrow> bool" where
  "is_locked inp \<longleftrightarrow> ct_stamped_run inp \<noteq> None \<and> ct_stamped_epoch inp \<noteq> None"

text \<open>The guarded UPDATE and its audit event.\<close>

definition transition_write ::
  "instant \<Rightarrow> commitment_transition \<Rightarrow> rid \<Rightarrow> rid option \<Rightarrow> (rid \<times> commitment_status) stm" where
  "transition_write t inp memory runId =
     bind_tx (update_commitments (ct_user inp) (transition_where inp) (transition_row t inp)) (\<lambda>rows. case rows of
       [] \<Rightarrow> (case ct_expected inp of
           Some st \<Rightarrow> throw (CommitmentStateChanged (ct_id inp) st)
         | None \<Rightarrow> throw (CommitmentNotFound (ct_id inp) KeyCommitment))
     | row # _ \<Rightarrow>
         bind_tx (insert_event (event_row t (ct_user inp) memory (TRANSITION_EVENT_KIND (ct_to inp))
           (ct_actor inp) (sessionPayload runId))) (\<lambda>_.
         ret (com_id row, com_status row)))"

definition transitionCommitment_tx ::
  "interference \<Rightarrow> instant \<Rightarrow> jsdate \<Rightarrow> commitment_transition \<Rightarrow> (rid \<times> commitment_status) stm" where
  "transitionCommitment_tx gap t now inp = (let u = ct_user inp in
     bind_tx (if is_locked inp then wait_for (gap 12) else ret ()) (\<lambda>_.
     bind_tx (select_commitment u (\<lambda>c. com_id c = ct_id inp)) (\<lambda>ex. case ex of
       None \<Rightarrow> throw (CommitmentNotFound (ct_id inp) KeyCommitment)
     | Some existing \<Rightarrow>
         bind_tx (epoch_fence inp) (\<lambda>_.
         bind_tx (select_memory u (\<lambda>m. mem_id m = com_memory existing)) (\<lambda>memory.
         bind_tx (case ct_stamped_run inp of
             Some run \<Rightarrow> ret (Some run)
           | None \<Rightarrow> resolveSessionProvenance gap u (ct_run inp)
               (case memory of None \<Rightarrow> None | Some m \<Rightarrow> mem_project m) now) (\<lambda>runId.
         bind_tx (if is_locked inp then ret () else wait_for (gap 13)) (\<lambda>_.
         transition_write t inp (com_memory existing) runId)))))))"

definition fsm_error :: "err \<Rightarrow> err" where
  "fsm_error e = (case e of FsmViolation frm to \<Rightarrow> IllegalCommitmentTransition frm to | _ \<Rightarrow> e)"

definition transitionCommitment ::
  "interference \<Rightarrow> instant \<Rightarrow> jsdate \<Rightarrow> commitment_transition \<Rightarrow> store \<Rightarrow>
   (err + rid \<times> commitment_status) \<times> store" where
  "transitionCommitment gap t now inp =
     withTenant (ct_user inp) (map_error fsm_error (transitionCommitment_tx gap t now inp))"

section \<open>Sweep\<close>

record sweep_result =
  sr_expired :: nat
  sr_surfaced :: nat

definition overdue :: "jsdate \<Rightarrow> commitment \<Rightarrow> bool" where
  "overdue expireBefore c \<longleftrightarrow> is_live_status (com_status c) \<and>
     (case com_due_at c of None \<Rightarrow> False | Some d \<Rightarrow> d < sql_of_date expireBefore)"

definition surfacing :: "jsdate \<Rightarrow> commitment \<Rightarrow> bool" where
  "surfacing now c \<longleftrightarrow> is_live_status (com_status c) \<and>
     (case com_next_surfacing_at c of None \<Rightarrow> False | Some d \<Rightarrow> d < sql_of_date now)"

definition expire_row :: "instant \<Rightarrow> commitment \<Rightarrow> commitment" where
  "expire_row t c = c\<lparr>com_status := StExpired, com_last_resolution_reason := None, com_updated_at := t\<rparr>"

definition surface_row :: "instant \<Rightarrow> commitment \<Rightarrow> commitment" where
  "surface_row t c = c\<lparr>com_next_surfacing_at := None, com_updated_at := t\<rparr>"

definition sweepCommitments :: "instant \<Rightarrow> uid \<Rightarrow> jsdate \<Rightarrow> jsdate \<Rightarrow> sweep_result stm" where
  "sweepCommitments t u now expireBefore =
     bind_tx (update_commitments u (overdue expireBefore) (expire_row t)) (\<lambda>expired.
     bind_tx (for_each expired (\<lambda>row. insert_event (event_row t u (com_memory row) EvArchive Worker None))) (\<lambda>_.
     bind_tx (update_commitments u (surfacing now) (surface_row t)) (\<lambda>surfaced.
     ret \<lparr>sr_expired = length expired, sr_surfaced = length surfaced\<rparr>)))"

section \<open>The contract\<close>

lemma created_row_user [simp]: "com_user (created_row t inp) = cc_user inp"
  by (simp add: created_row_def)

lemma com_steps: "com_step c (transition_row t inp c)" "com_step c (expire_row t c)" "com_step c (surface_row t c)"
  by (simp_all add: com_step_def transition_row_def expire_row_def surface_row_def)

context tenant_contract
begin

lemma within_createCommitment_tx:
  assumes "\<And>k s. R s (gap k s)" and "cc_user inp = u"
  shows "moves R (createCommitment_tx gap t inp)"
  unfolding createCommitment_tx_def assms(2)
  by (intro within_statements assms(1) row_users) (simp add: assms(2))

lemma within_transitionCommitment_tx:
  assumes "\<And>k s. R s (gap k s)" and "ct_user inp = u"
  shows "moves R (transitionCommitment_tx gap t now inp)"
proof -
  have "moves R (epoch_fence inp)"
    unfolding epoch_fence_def readSession_def
    by (auto intro!: within_statements split: option.splits)
  then show ?thesis
    unfolding transitionCommitment_tx_def transition_write_def Let_def assms(2)
    by (intro within_statements within_resolveSessionProvenance assms(1) row_users com_steps)
qed

lemma within_sweepCommitments: "moves R (sweepCommitments t u now before)"
  unfolding sweepCommitments_def by (intro within_statements row_users com_steps)

end

section \<open>Creating\<close>

lemma insert_commitment_Inr:
  "insert_commitment c s = Inr (i, s') \<longleftrightarrow> com_key c \<notin> com_key ` set (tbl_commitments s) \<and>
   com_key c \<in> mem_keys (tbl_memories s) \<and> i = next_id s \<and>
   s' = s\<lparr>tbl_commitments := tbl_commitments s @ [c\<lparr>com_id := next_id s\<rparr>], next_id := Suc (next_id s)\<rparr>"
  by (auto simp: insert_commitment_def Let_def com_key_def)

text \<open>
  A commitment rides a live commitment-type memory, one per memory. Whatever was committed while
  the parent's share lock was awaited: a parent that is of another type, superseded or absent is
  refused, a second commitment for the memory is refused, and otherwise the commitment is created
  open on a parent that is live at commit, with a \<open>create\<close> event.
\<close>

theorem createCommitment_cases:
  assumes "constraints (gap 11 s)"
  shows "case find_row (\<lambda>m. mem_user m = cc_user inp \<and> live_commitment_memory (cc_memory inp) m)
      (tbl_memories (gap 11 s)) of
    None \<Rightarrow> createCommitment gap t inp s = (Inl (NotCommitmentMemory (cc_memory inp)), s)
  | Some m \<Rightarrow>
      if commitment_on (cc_user inp) (cc_memory inp) (gap 11 s) \<noteq> None
      then createCommitment gap t inp s = (Inl (CommitmentExists (cc_memory inp)), s)
      else (\<exists>c s'. createCommitment gap t inp s = (Inr (com_id c, StOpen), s') \<and>
        m \<in> set (tbl_memories s') \<and> mem_valid_to m = None \<and>
        commitment_on (cc_user inp) (cc_memory inp) s' = Some c \<and> com_status c = StOpen \<and>
        com_owner c = cc_owner inp \<and> com_due_at c = map_option sql_of_date (cc_due_at inp) \<and>
        tbl_commitments s' = tbl_commitments (gap 11 s) @ [c])"
proof -
  let ?v = "gap 11 s" and ?u = "cc_user inp" and ?m = "cc_memory inp"
  have key: "com_key (created_row t inp) = (?u, ?m)"
    by (simp add: created_row_def commitment_row_def com_key_def)
  show ?thesis
  proof (cases "find_row (\<lambda>m. mem_user m = ?u \<and> live_commitment_memory ?m m) (tbl_memories ?v)")
    case None
    then show ?thesis
      by (simp add: createCommitment_def withTenant_def run_tx_def map_error_def createCommitment_tx_def
          select_memory_def throw_def)
  next
    case (Some m)
    then have m: "m \<in> set (tbl_memories ?v)" "mem_user m = ?u" "mem_id m = ?m" "mem_valid_to m = None"
      by (auto simp: live_commitment_memory_def dest: find_row_Some)
    then have fk: "(?u, ?m) \<in> mem_keys (tbl_memories ?v)" by (force simp: mem_keys_def)
    show ?thesis
    proof (cases "commitment_on ?u ?m ?v")
      case None
      then have "(?u, ?m) \<notin> com_key ` set (tbl_commitments ?v)"
        by (auto simp: commitment_on_None com_key_def)
      with key fk have ins: "insert_commitment (created_row t inp) ?v = Inr (next_id ?v, ?v\<lparr>tbl_commitments :=
          tbl_commitments ?v @ [(created_row t inp)\<lparr>com_id := next_id ?v\<rparr>], next_id := Suc (next_id ?v)\<rparr>)"
        by (simp add: insert_commitment_Inr)
      have "\<exists>s'. createCommitment gap t inp s = (Inr (next_id ?v, StOpen), s') \<and>
          tbl_memories s' = tbl_memories ?v \<and>
          tbl_commitments s' = tbl_commitments ?v @ [(created_row t inp)\<lparr>com_id := next_id ?v\<rparr>]"
        using Some ins fk
        by (simp add: createCommitment_def withTenant_ok map_error_Inr createCommitment_tx_def
            select_memory_def bind_tx_Inr insert_event_row_Inr)
      then obtain s' where s': "createCommitment gap t inp s = (Inr (next_id ?v, StOpen), s')"
        "tbl_memories s' = tbl_memories ?v"
        "tbl_commitments s' = tbl_commitments ?v @ [(created_row t inp)\<lparr>com_id := next_id ?v\<rparr>]" by blast
      have "commitment_on ?u ?m s' = Some ((created_row t inp)\<lparr>com_id := next_id ?v\<rparr>)"
        using None by (simp add: commitment_on_def s' find_row_append find_row_Cons created_row_def commitment_row_def)
      with s' m Some None show ?thesis
        by (auto intro!: exI [of _ "(created_row t inp)\<lparr>com_id := next_id ?v\<rparr>"] exI [of _ s']
            simp: created_row_def commitment_row_def)
    next
      case (Some c)
      then have "(?u, ?m) \<in> com_key ` set (tbl_commitments ?v)"
        by (force simp: com_key_def dest: commitment_on_Some)
      then have "insert_commitment (created_row t inp) ?v = Inl UniqueViolation"
        using key by (simp add: insert_commitment_def Let_def com_key_def)
      with \<open>find_row _ _ = Some m\<close> Some show ?thesis
        by (simp add: createCommitment_def withTenant_def run_tx_def map_error_def createCommitment_tx_def
            select_memory_def bind_tx_def wait_for_def query_def)
    qed
  qed
qed

section \<open>Transitions\<close>

lemma epoch_fence_Inr: "epoch_fence inp s = Inr ((), s') \<longleftrightarrow> s' = s \<and>
   (case (ct_stamped_run inp, ct_stamped_epoch inp) of
      (Some run, Some ep) \<Rightarrow> (\<exists>x. session_of (ct_user inp) run s = Some x \<and> ses_epoch x = ep)
    | _ \<Rightarrow> True)"
  by (auto simp: epoch_fence_def readSession_run bind_tx_def ret_def throw_def split: option.splits)

lemma transition_write_Inr:
  assumes "transition_write t inp m runId v = Inr (r, s')"
  shows "\<exists>c \<in> set (tbl_commitments v). com_user c = ct_user inp \<and> transition_where inp c \<and>
    enforce_commitment_fsm (com_status c) (ct_to inp) \<and> r = (ct_id inp, ct_to inp) \<and>
    s' = v\<lparr>tbl_commitments := sql_update (\<lambda>d. com_user d = ct_user inp \<and> transition_where inp d)
        (transition_row t inp) (tbl_commitments v),
      tbl_events := tbl_events v @ [(event_row t (ct_user inp) m (TRANSITION_EVENT_KIND (ct_to inp))
        (ct_actor inp) (sessionPayload runId))\<lparr>ev_id := next_id v\<rparr>], next_id := Suc (next_id v)\<rparr>"
proof -
  let ?q = "\<lambda>d. com_user d = ct_user inp \<and> transition_where inp d"
  from assms obtain row rows w where
    upd: "update_commitments (ct_user inp) (transition_where inp) (transition_row t inp) v = Inr (row # rows, w)"
    and r: "r = (com_id row, com_status row)"
    and ev: "\<exists>i. insert_event (event_row t (ct_user inp) m (TRANSITION_EVENT_KIND (ct_to inp))
        (ct_actor inp) (sessionPayload runId)) w = Inr (i, s')"
    by (auto simp: transition_write_def tx_Inr)
  have "row \<in> set (sql_returning ?q (transition_row t inp) (tbl_commitments v))"
    using update_commitments_Inr [OF upd] by (metis list.set_intros(1))
  then obtain c where c: "c \<in> set (tbl_commitments v)" "?q c" "row = transition_row t inp c"
    by (auto dest: sql_returning_mem)
  have "find_row (\<lambda>d. ?q d \<and> \<not> enforce_commitment_fsm (com_status d) (com_status (transition_row t inp d)))
      (tbl_commitments v) = None"
    using upd by (simp add: update_commitments_def Let_def split: option.splits)
  then have "enforce_commitment_fsm (com_status c) (ct_to inp)"
    using c by (simp add: find_row_None transition_row_def)
  moreover have "r = (ct_id inp, ct_to inp)"
    using r c by (simp add: transition_row_def transition_where_def)
  ultimately show ?thesis
    using c ev update_commitments_Inr [OF upd] by (auto simp: insert_event_row_Inr)
qed

text \<open>An UPDATE that matches no row.\<close>

lemma transition_write_none:
  assumes "constraints v"
    and "\<forall>d \<in> set (tbl_commitments v). com_user d = ct_user inp \<longrightarrow> \<not> transition_where inp d"
  shows "transition_write t inp m runId v = (case ct_expected inp of
      Some st \<Rightarrow> Inl (CommitmentStateChanged (ct_id inp) st)
    | None \<Rightarrow> Inl (CommitmentNotFound (ct_id inp) KeyCommitment))"
proof -
  let ?q = "\<lambda>d. com_user d = ct_user inp \<and> transition_where inp d"
  have none: "\<And>d. d \<in> set (tbl_commitments v) \<Longrightarrow> \<not> ?q d" using assms(2) by blast
  have "find_row (\<lambda>d. ?q d \<and> \<not> enforce_commitment_fsm (com_status d) (com_status (transition_row t inp d)))
      (tbl_commitments v) = None"
    using none by (auto simp: find_row_None)
  moreover have "sql_returning ?q (transition_row t inp) (tbl_commitments v) = []"
    "sql_update ?q (transition_row t inp) (tbl_commitments v) = tbl_commitments v"
    using none by (simp_all add: sql_returning_Nil sql_update_none)
  ultimately have "update_commitments (ct_user inp) (transition_where inp) (transition_row t inp) v = Inr ([], v)"
    using assms(1) by (simp add: update_commitments_def Let_def constraints_def commitments_ok_def)
  then show ?thesis by (simp add: transition_write_def bind_tx_def throw_def split: option.splits)
qed

abbreviation commitment_by :: "uid \<Rightarrow> rid \<Rightarrow> store \<Rightarrow> commitment option" where
  "commitment_by u i s \<equiv> find_row (\<lambda>c. com_user c = u \<and> com_id c = i) (tbl_commitments s)"

lemma commitment_by_mem:
  "constraints s \<Longrightarrow> d \<in> set (tbl_commitments s) \<Longrightarrow> com_user d = u \<Longrightarrow> com_id d = i \<Longrightarrow>
   commitment_by u i s = Some d"
  by (rule find_row_unique [where key = com_id]) (auto simp: constraints_def commitments_ok_def ids_ok_def)

text \<open>The two shapes of the transaction: locked and fenced, or unlocked and attributed.\<close>

lemma transition_locked:
  assumes "is_locked inp"
  shows "transitionCommitment_tx gap t now inp s = (case commitment_by (ct_user inp) (ct_id inp) (gap 12 s) of
      None \<Rightarrow> Inl (CommitmentNotFound (ct_id inp) KeyCommitment)
    | Some c \<Rightarrow> (case epoch_fence inp (gap 12 s) of Inl e \<Rightarrow> Inl e
        | Inr _ \<Rightarrow> transition_write t inp (com_memory c) (ct_stamped_run inp) (gap 12 s)))"
proof -
  have "epoch_fence inp v = Inr (x, v') \<Longrightarrow> v' = v" for v v' x
    using epoch_fence_Inr [of inp v v'] by (cases x) simp
  with assms show ?thesis
    by (auto simp: transitionCommitment_tx_def Let_def is_locked_def select_commitment_def select_memory_def
        bind_tx_def wait_for_def query_def throw_def ret_def split: option.splits sum.splits)
qed

lemma transition_unlocked:
  assumes "\<not> is_locked inp"
  shows "transitionCommitment_tx gap t now inp s = (case commitment_by (ct_user inp) (ct_id inp) s of
      None \<Rightarrow> Inl (CommitmentNotFound (ct_id inp) KeyCommitment)
    | Some c \<Rightarrow> (case (case ct_stamped_run inp of Some run \<Rightarrow> Inr (Some run, s) | None \<Rightarrow> resolveSessionProvenance gap (ct_user inp) (ct_run inp)
          (case predecessor_of (ct_user inp) (com_memory c) s of None \<Rightarrow> None | Some m \<Rightarrow> mem_project m) now s) of
        Inl e \<Rightarrow> Inl e
      | Inr (runId, s1) \<Rightarrow> transition_write t inp (com_memory c) runId (gap 13 s1)))"
proof -
  have "epoch_fence inp = ret ()"
    using assms by (auto simp: epoch_fence_def is_locked_def split: option.splits)
  with assms show ?thesis
    by (auto simp: transitionCommitment_tx_def Let_def select_commitment_def select_memory_def
        bind_tx_def wait_for_def query_def throw_def ret_def split: option.splits sum.splits)
qed

text \<open>
  A transition that commits moves the commitment along an edge of the table (or keeps its
  status, which the trigger lets pass), only from the status the caller expected, and writes the
  reason of this very transition: \<open>resolved_at\<close> is set exactly when the target is \<open>resolved\<close> and an
  omitted reason clears the earlier one. Exactly one audit event is appended, and no memory changes.
\<close>

theorem transition_effect:
  assumes "transitionCommitment no_gap t now inp s = (Inr r, s')" and "constraints s"
  shows "\<exists>c runId e. commitment_by (ct_user inp) (ct_id inp) s = Some c \<and>
    (com_status c = ct_to inp \<or> canTransition (com_status c) (ct_to inp)) \<and>
    (ct_expected inp = None \<or> ct_expected inp = Some (com_status c)) \<and> r = (ct_id inp, ct_to inp) \<and>
    commitment_by (ct_user inp) (ct_id inp) s' = Some (c\<lparr>com_status := ct_to inp,
      com_resolved_at := (if ct_to inp = StResolved then Some t else None),
      com_last_resolution_reason := ct_reason inp, com_updated_at := t\<rparr>) \<and>
    tbl_events s' = tbl_events s @ [(event_row t (ct_user inp) (com_memory c) (TRANSITION_EVENT_KIND (ct_to inp))
      (ct_actor inp) (sessionPayload runId))\<lparr>ev_id := e\<rparr>] \<and>
    tbl_memories s' = tbl_memories s"
proof -
  from assms(1) have "transitionCommitment_tx no_gap t now inp s = Inr (r, s')"
    by (simp add: transitionCommitment_def withTenant_ok map_error_Inr)
  then obtain c runId v where c: "commitment_by (ct_user inp) (ct_id inp) s = Some c"
    and frame: "only_sessions s v" and wr: "transition_write t inp (com_memory c) runId v = Inr (r, s')"
  proof (cases "is_locked inp")
    case True
    assume "transitionCommitment_tx no_gap t now inp s = Inr (r, s')"
    with True that sess_frame.R_refl show thesis
      by (auto simp: transition_locked split: option.splits sum.splits)
  next
    case False
    assume "transitionCommitment_tx no_gap t now inp s = Inr (r, s')"
    with False that show thesis
      by (auto simp: transition_unlocked split: option.splits sum.splits
          intro: sess_frame.R_refl dest: withinD [OF only_sessions_resolve])
  qed
  note fr = only_sessionsD [OF frame]
  from transition_write_Inr [OF wr] obtain d where d: "d \<in> set (tbl_commitments v)"
      "com_user d = ct_user inp" "transition_where inp d" "enforce_commitment_fsm (com_status d) (ct_to inp)"
      "r = (ct_id inp, ct_to inp)"
    and s': "s' = v\<lparr>tbl_commitments := sql_update (\<lambda>d. com_user d = ct_user inp \<and> transition_where inp d)
        (transition_row t inp) (tbl_commitments v),
      tbl_events := tbl_events v @ [(event_row t (ct_user inp) (com_memory c) (TRANSITION_EVENT_KIND (ct_to inp))
        (ct_actor inp) (sessionPayload runId))\<lparr>ev_id := next_id v\<rparr>], next_id := Suc (next_id v)\<rparr>"
    by blast
  have "commitment_by (ct_user inp) (ct_id inp) s = Some d"
    using d fr by (intro commitment_by_mem assms(2)) (auto simp: transition_where_def)
  with c have "d = c" by simp
  then have "commitment_by (ct_user inp) (ct_id inp) s' = Some (transition_row t inp c)"
    using c d fr by (simp add: s' find_row_update transition_row_def)
  with c d fr s' \<open>d = c\<close> show ?thesis
    by (auto simp: transition_row_def enforce_commitment_fsm_iff transition_where_def split: option.splits)
qed

text \<open>
  Compare and set: a transition whose expected status no longer holds when its UPDATE runs is
  refused and keeps nothing, not even the attribution.
\<close>

lemma transition_state_changed:
  assumes "\<not> is_locked inp" and "ct_stamped_run inp = None" and "ct_expected inp = Some st"
    and "commitment_by (ct_user inp) (ct_id inp) s = Some c"
    and "resolveSessionProvenance gap (ct_user inp) (ct_run inp)
      (case predecessor_of (ct_user inp) (com_memory c) s of None \<Rightarrow> None | Some m \<Rightarrow> mem_project m) now s
      = Inr (runId, s1)"
    and "constraints (gap 13 s1)"
    and "\<forall>d. commitment_by (ct_user inp) (ct_id inp) (gap 13 s1) = Some d \<longrightarrow> com_status d \<noteq> st"
  shows "transitionCommitment gap t now inp s = (Inl (CommitmentStateChanged (ct_id inp) st), s)"
proof -
  have "\<forall>d \<in> set (tbl_commitments (gap 13 s1)). com_user d = ct_user inp \<longrightarrow> \<not> transition_where inp d"
    using assms(3,7) commitment_by_mem [OF assms(6)] by (auto simp: transition_where_def)
  from transition_write_none [OF assms(6) this] assms(1-5)
  show ?thesis
    by (simp add: transitionCommitment_def withTenant_def run_tx_def map_error_def transition_unlocked fsm_error_def)
qed

text \<open>
  The trigger is the backstop: a caller that bypasses the service's check and states no expected
  status gets the illegal pair it asked for as a typed error, and the row keeps its status.
\<close>

theorem trigger_backstop:
  assumes "\<not> is_locked inp" and "ct_stamped_run inp = None" and "ct_expected inp = None"
    and "commitment_by (ct_user inp) (ct_id inp) s = Some c" and "constraints s"
    and "resolveSessionProvenance no_gap (ct_user inp) (ct_run inp)
      (case predecessor_of (ct_user inp) (com_memory c) s of None \<Rightarrow> None | Some m \<Rightarrow> mem_project m) now s
      = Inr (runId, s1)"
    and "com_status c \<noteq> ct_to inp" and "\<not> canTransition (com_status c) (ct_to inp)"
  shows "transitionCommitment no_gap t now inp s =
    (Inl (IllegalCommitmentTransition (com_status c) (ct_to inp)), s)"
proof -
  note fr = only_sessionsD [OF withinD [OF only_sessions_resolve assms(6)]]
  have c: "c \<in> set (tbl_commitments s)" "com_user c = ct_user inp" "com_id c = ct_id inp"
    using assms(4) by (auto dest: find_row_Some)
  let ?p = "\<lambda>d. (com_user d = ct_user inp \<and> transition_where inp d) \<and>
      \<not> enforce_commitment_fsm (com_status d) (com_status (transition_row t inp d))"
  have "find_row ?p (tbl_commitments s) = Some c"
  proof (rule find_row_unique [where key = com_id])
    show "?p c" using c assms(3,7,8) by (simp add: transition_where_def transition_row_def enforce_commitment_fsm_iff)
  qed (use c assms(5) in \<open>auto simp: transition_where_def constraints_def commitments_ok_def ids_ok_def\<close>)
  then have "transition_write t inp (com_memory c) runId s1 =
      Inl (FsmViolation (com_status c) (ct_to inp))"
    using fr by (simp add: transition_write_def bind_tx_def update_commitments_def Let_def transition_row_def)
  with assms(1,2,4,6) show ?thesis
    by (simp add: transitionCommitment_def withTenant_def run_tx_def map_error_def transition_unlocked fsm_error_def)
qed

text \<open>
  C22. The closer's fence. A stamped transition decides after it holds the commitment's row lock, on
  the session as it then is: it commits only if the run's activation epoch is still the one the pass
  is fenced at, and then it stamps the run without touching any session row; if the epoch moved
  while it waited, it writes nothing.
\<close>

theorem closer_fence:
  assumes "ct_stamped_run inp = Some run" and "ct_stamped_epoch inp = Some ep"
  shows "(transitionCommitment gap t now inp s = (Inr r, s') \<longrightarrow>
      (\<exists>x. session_of (ct_user inp) run s' = Some x \<and> ses_epoch x = ep) \<and>
      tbl_sessions s' = tbl_sessions (gap 12 s) \<and>
      (\<exists>e. e \<in> set (tbl_events s') \<and> ev_payload e = Some (SessionPayload run) \<and>
         ev_kind e = TRANSITION_EVENT_KIND (ct_to inp))) \<and>
    (commitment_by (ct_user inp) (ct_id inp) (gap 12 s) \<noteq> None \<longrightarrow>
      \<not> (\<exists>x. session_of (ct_user inp) run (gap 12 s) = Some x \<and> ses_epoch x = ep) \<longrightarrow>
      transitionCommitment gap t now inp s = (Inl (SessionEpochFenced run ep), s))"
proof -
  have locked: "is_locked inp" using assms by (simp add: is_locked_def)
  have fence: "epoch_fence inp v = (if \<exists>x. session_of (ct_user inp) run v = Some x \<and> ses_epoch x = ep
      then Inr ((), v) else Inl (SessionEpochFenced run ep))" for v
    using assms by (auto simp: epoch_fence_def bind_runs ret_def throw_def split: option.splits)
  have "(\<exists>x. session_of (ct_user inp) run s' = Some x \<and> ses_epoch x = ep) \<and>
      tbl_sessions s' = tbl_sessions (gap 12 s) \<and>
      (\<exists>e. e \<in> set (tbl_events s') \<and> ev_payload e = Some (SessionPayload run) \<and>
         ev_kind e = TRANSITION_EVENT_KIND (ct_to inp))"
    if ok: "transitionCommitment gap t now inp s = (Inr r, s')"
  proof -
    from ok have tx: "transitionCommitment_tx gap t now inp s = Inr (r, s')"
      by (simp add: transitionCommitment_def withTenant_ok map_error_Inr)
    then obtain c where c: "commitment_by (ct_user inp) (ct_id inp) (gap 12 s) = Some c"
      by (auto simp: transition_locked [OF locked] split: option.splits)
    from tx have wr: "transition_write t inp (com_memory c) (Some run) (gap 12 s) = Inr (r, s')"
      and ep: "\<exists>x. session_of (ct_user inp) run (gap 12 s) = Some x \<and> ses_epoch x = ep"
      using assms(1) by (auto simp: transition_locked [OF locked] c fence split: if_splits)
    from transition_write_Inr [OF wr] ep show ?thesis
      by (auto simp: session_of_def sessionPayload_def event_row_def)
  qed
  moreover have "transitionCommitment gap t now inp s = (Inl (SessionEpochFenced run ep), s)"
    if "commitment_by (ct_user inp) (ct_id inp) (gap 12 s) \<noteq> None"
      and "\<not> (\<exists>x. session_of (ct_user inp) run (gap 12 s) = Some x \<and> ses_epoch x = ep)"
    using that by (auto simp: transitionCommitment_def withTenant_def run_tx_def map_error_def
        transition_locked [OF locked] fence fsm_error_def)
  ultimately show ?thesis by blast
qed

section \<open>The sweep\<close>

lemma for_each_events:
  "for_each rows (\<lambda>x. insert_event (event_row t u (f x) k a p)) s = Inr (ids, s') \<Longrightarrow>
   \<exists>vs n. s' = s\<lparr>tbl_events := tbl_events s @ vs, next_id := n\<rparr> \<and>
     map (\<lambda>e. (ev_user e, ev_memory e, ev_kind e, ev_actor e, ev_payload e)) vs =
     map (\<lambda>x. (u, f x, k, a, p)) rows"
proof (induction rows arbitrary: s ids)
  case Nil
  then have "s' = s\<lparr>tbl_events := tbl_events s @ [], next_id := next_id s\<rparr>" by (simp add: ret_def)
  then show ?case by (intro exI [of _ "[]"] exI [of _ "next_id s"]) simp
next
  case (Cons x rows)
  from Cons.prems obtain i ids' v where one: "insert_event (event_row t u (f x) k a p) s = Inr (i, v)"
    and rest: "for_each rows (\<lambda>x. insert_event (event_row t u (f x) k a p)) v = Inr (ids', s')"
    by (auto simp: tx_Inr)
  from one have v: "v = s\<lparr>tbl_events := tbl_events s @ [(event_row t u (f x) k a p)\<lparr>ev_id := next_id s\<rparr>],
      next_id := Suc (next_id s)\<rparr>" by (simp add: insert_event_row_Inr)
  from Cons.IH [OF rest] obtain vs n where "s' = v\<lparr>tbl_events := tbl_events v @ vs, next_id := n\<rparr>"
    "map (\<lambda>e. (ev_user e, ev_memory e, ev_kind e, ev_actor e, ev_payload e)) vs = map (\<lambda>x. (u, f x, k, a, p)) rows"
    by blast
  then show ?case
    by (intro exI [of _ "(event_row t u (f x) k a p)\<lparr>ev_id := next_id s\<rparr> # vs"] exI [of _ n])
      (simp add: v event_row_def)
qed

definition swept :: "instant \<Rightarrow> uid \<Rightarrow> jsdate \<Rightarrow> jsdate \<Rightarrow> commitment \<Rightarrow> commitment" where
  "swept t u now eb c = (if com_user c \<noteq> u then c else if overdue eb c then expire_row t c
     else if surfacing now c then surface_row t c else c)"

lemma expired_not_surfacing: "\<not> surfacing now (expire_row t c)" "\<not> overdue eb (expire_row t c)"
  by (simp_all add: surfacing_def overdue_def expire_row_def is_live_status_def)

text \<open>
  One sweep of a tenant: every live commitment past the grace instant expires (its reason
  cleared) with one \<open>archive\<close> event by the worker on its memory; every other live commitment whose
  surfacing instant has passed has it cleared; nothing else changes, and the counts are the rows.
\<close>

theorem sweep_effect:
  assumes "sweepCommitments t u now eb s = Inr (r, s')"
  shows "tbl_commitments s' = map (swept t u now eb) (tbl_commitments s) \<and>
    sr_expired r = length (filter (\<lambda>c. com_user c = u \<and> overdue eb c) (tbl_commitments s)) \<and>
    sr_surfaced r = length (filter (\<lambda>c. com_user c = u \<and> \<not> overdue eb c \<and> surfacing now c) (tbl_commitments s)) \<and>
    (\<exists>vs. tbl_events s' = tbl_events s @ vs \<and>
      map (\<lambda>e. (ev_user e, ev_memory e, ev_kind e, ev_actor e, ev_payload e)) vs =
      map (\<lambda>c. (u, com_memory c, EvArchive, Worker, None))
        (filter (\<lambda>c. com_user c = u \<and> overdue eb c) (tbl_commitments s))) \<and>
    tbl_memories s' = tbl_memories s"
proof -
  from assms obtain rows1 s1 ids s2 rows2 where
    u1: "update_commitments u (overdue eb) (expire_row t) s = Inr (rows1, s1)"
    and ev: "for_each rows1 (\<lambda>row. insert_event (event_row t u (com_memory row) EvArchive Worker None)) s1 = Inr (ids, s2)"
    and u2: "update_commitments u (surfacing now) (surface_row t) s2 = Inr (rows2, s')"
    and r: "r = \<lparr>sr_expired = length rows1, sr_surfaced = length rows2\<rparr>"
    by (auto simp: sweepCommitments_def tx_Inr)
  note a = update_commitments_Inr [OF u1] and b = update_commitments_Inr [OF u2]
  from for_each_events [OF ev] obtain vs n where
    s2: "s2 = s1\<lparr>tbl_events := tbl_events s1 @ vs, next_id := n\<rparr>"
    and vs: "map (\<lambda>e. (ev_user e, ev_memory e, ev_kind e, ev_actor e, ev_payload e)) vs =
      map (\<lambda>x. (u, com_memory x, EvArchive, Worker, None)) rows1" by blast
  have cs2: "tbl_commitments s2 = sql_update (\<lambda>c. com_user c = u \<and> overdue eb c) (expire_row t) (tbl_commitments s)"
    by (simp add: s2 a)
  have user: "com_user (expire_row t c) = com_user c" for c by (simp add: expire_row_def)
  have "tbl_commitments s' = map (swept t u now eb) (tbl_commitments s)"
    by (auto simp: b cs2 sql_update_def swept_def user expired_not_surfacing)
  moreover have "length rows2 = length (filter (\<lambda>c. com_user c = u \<and> surfacing now c) (tbl_commitments s2))"
    by (simp add: b sql_returning_def)
  moreover have "length (filter (\<lambda>c. com_user c = u \<and> surfacing now c)
      (sql_update (\<lambda>c. com_user c = u \<and> overdue eb c) (expire_row t) cs)) =
      length (filter (\<lambda>c. com_user c = u \<and> \<not> overdue eb c \<and> surfacing now c) cs)" for cs
    by (induction cs) (auto simp: sql_update_def user expired_not_surfacing)
  moreover have "com_memory (expire_row t c) = com_memory c" for c by (simp add: expire_row_def)
  moreover have "tbl_events s' = tbl_events s @ vs" "tbl_memories s' = tbl_memories s"
    by (simp_all add: b s2 a)
  ultimately show ?thesis
    using vs by (auto simp: r a cs2 sql_returning_def o_def)
qed

end
