(* ===== verification/CommitmentService.thy ===== *)
theory CommitmentService
  imports CommitmentsDb
begin

text \<open>
  Commitment orchestration: \<open>packages/core/src/write/commitments.ts\<close>. A service call runs several
  transactions; \<open>w_between w k\<close> is what other tenants' and sessions' transactions commit between
  two of them, \<open>w_gap w k\<close> what they commit inside the \<open>k\<close>-th, and \<open>w_t\<close>, \<open>w_now\<close> are the clocks.
  The attempts of the compare-and-set loop are numbered downwards.
\<close>

record world =
  w_between :: "nat \<Rightarrow> store \<Rightarrow> store"
  w_gap :: "nat \<Rightarrow> interference"
  w_t :: "nat \<Rightarrow> instant"
  w_now :: "nat \<Rightarrow> jsdate"

definition quiet :: "world \<Rightarrow> bool" where
  "quiet w \<longleftrightarrow> (\<forall>k s. w_between w k s = s) \<and> (\<forall>k. w_gap w k = no_gap)"

definition MAX_TRANSITION_ATTEMPTS :: nat where
  "MAX_TRANSITION_ATTEMPTS = 3"

datatype resolve_status = ToCommitment commitment_status | ToArchived

section \<open>The transition body\<close>

definition transition_input ::
  "uid \<Rightarrow> commitment_state \<Rightarrow> commitment_status \<Rightarrow> actor_kind \<Rightarrow> run_arg \<Rightarrow> string option \<Rightarrow>
   commitment_transition" where
  "transition_input u observed to a run reason = \<lparr>ct_user = u, ct_id = cs_id observed, ct_to = to,
     ct_actor = a, ct_expected = Some (cs_status observed), ct_run = run, ct_reason = reason,
     ct_stamped_run = None, ct_stamped_epoch = None\<rparr>"

text \<open>The no-op branch: a supplied run id is still checked for ownership.\<close>

definition same_state :: "uid \<Rightarrow> commitment_state \<Rightarrow> run_arg \<Rightarrow> store \<Rightarrow> (err + rid \<times> commitment_status) \<times> store" where
  "same_state u observed run s = (case run of
       RunId i \<Rightarrow> (case assertSessionRunOwned u i s of
           (Inl e, s') \<Rightarrow> (Inl e, s')
         | (Inr _, s') \<Rightarrow> (Inr (cs_id observed, cs_status observed), s'))
     | _ \<Rightarrow> (Inr (cs_id observed, cs_status observed), s))"

fun is_state_changed :: "err \<Rightarrow> bool" where
  "is_state_changed (CommitmentStateChanged _ _) = True"
| "is_state_changed _ = False"

fun apply_loop ::
  "world \<Rightarrow> uid \<Rightarrow> commitment_status \<Rightarrow> actor_kind \<Rightarrow> run_arg \<Rightarrow> string option \<Rightarrow> nat \<Rightarrow>
   commitment_state \<Rightarrow> err option \<Rightarrow> store \<Rightarrow> (err + rid \<times> commitment_status) \<times> store" where
  "apply_loop w u to a run reason 0 observed lastRace s =
     (Inl (case lastRace of Some e \<Rightarrow> e | None \<Rightarrow> InvalidCommitmentTransition (cs_status observed) to), s)"
| "apply_loop w u to a run reason (Suc k) observed lastRace s =
     (if cs_status observed = to then same_state u observed run s
      else if \<not> canTransition (cs_status observed) to then
        (Inl (InvalidCommitmentTransition (cs_status observed) to), s)
      else (case transitionCommitment (w_gap w (Suc k)) (w_t w (Suc k)) (w_now w (Suc k))
               (transition_input u observed to a run reason) (w_between w (2 * k + 1) s) of
          (Inr r, s') \<Rightarrow> (Inr r, s')
        | (Inl e, s') \<Rightarrow>
            if \<not> is_state_changed e then (Inl e, s')
            else (let s2 = w_between w (2 * k) s' in
              case getCommitment u (cs_id observed) s2 of
                None \<Rightarrow> (Inl (CommitmentNotFound (cs_id observed) KeyCommitment), s2)
              | Some latest \<Rightarrow> apply_loop w u to a run reason k latest (Some e) s2)))"

definition applyTransition ::
  "world \<Rightarrow> uid \<Rightarrow> commitment_state \<Rightarrow> commitment_status \<Rightarrow> actor_kind \<Rightarrow> run_arg \<Rightarrow> string option \<Rightarrow>
   store \<Rightarrow> (err + rid \<times> commitment_status) \<times> store" where
  "applyTransition w u current to a run reason =
     apply_loop w u to a run reason MAX_TRANSITION_ATTEMPTS current None"

section \<open>The surfaces\<close>

definition transition :: "world \<Rightarrow> uid \<Rightarrow> rid \<Rightarrow> commitment_status \<Rightarrow> actor_kind \<Rightarrow> store \<Rightarrow>
    (err + rid \<times> commitment_status) \<times> store" where
  "transition w u i to a s = (case getCommitment u i s of
       None \<Rightarrow> (Inl (CommitmentNotFound i KeyCommitment), s)
     | Some current \<Rightarrow> applyTransition w u current to a RunOmitted None s)"

definition getMemoryById :: "uid \<Rightarrow> rid \<Rightarrow> store \<Rightarrow> memory option" where
  "getMemoryById u m s = find_row (\<lambda>x. mem_user x = u \<and> mem_id x = m) (tbl_memories s)"

definition resolveByMemoryId ::
  "world \<Rightarrow> uid \<Rightarrow> rid \<Rightarrow> commitment_status \<Rightarrow> actor_kind \<Rightarrow> run_arg \<Rightarrow> string option \<Rightarrow> store \<Rightarrow>
   (err + rid \<times> resolve_status) \<times> store" where
  "resolveByMemoryId w u m to a run reason s = (case getCommitmentByMemoryId u m s of
       Some current \<Rightarrow> (case applyTransition w u current to a run reason s of
           (Inl e, s') \<Rightarrow> (Inl e, s') | (Inr (i, st), s') \<Rightarrow> (Inr (i, ToCommitment st), s'))
     | None \<Rightarrow> (let s1 = w_between w 8 s in case getMemoryById u m s1 of
         None \<Rightarrow> (Inl (CommitmentNotFound m KeyMemory), s1)
       | Some row \<Rightarrow>
           if mem_type row \<noteq> Blocker then (Inl (CommitmentNotFound m KeyMemory), s1)
           else if reason \<noteq> None then (Inl (ResolveReasonNotSupported m), s1)
           else (case archiveBlockerMemory (w_gap w 8) (w_t w 8) (w_now w 8) u m a run (w_between w 9 s1) of
               (Inr (i, _), s2) \<Rightarrow> (Inr (i, ToArchived), s2)
             | (Inl (BlockerNotFound _), s2) \<Rightarrow> (Inl (CommitmentNotFound m KeyMemory), s2)
             | (Inl e, s2) \<Rightarrow> (Inl e, s2))))"

definition resolveCommitmentByMemoryId ::
  "world \<Rightarrow> uid \<Rightarrow> rid \<Rightarrow> actor_kind \<Rightarrow> store \<Rightarrow> (err + rid \<times> commitment_status) \<times> store" where
  "resolveCommitmentByMemoryId w u m a s = (case getCommitmentByMemoryId u m s of
       None \<Rightarrow> (Inl (CommitmentNotFound m KeyMemory), s)
     | Some current \<Rightarrow> applyTransition w u current StResolved a RunOmitted None s)"

datatype closed_run_outcome = Resolved | AlreadyResolved | NotACommitment | IllegalTransition | EpochFenced

definition closer_input :: "uid \<Rightarrow> commitment_state \<Rightarrow> actor_kind \<Rightarrow> rid \<Rightarrow> nat \<Rightarrow> commitment_transition" where
  "closer_input u current a run ep = \<lparr>ct_user = u, ct_id = cs_id current, ct_to = StResolved, ct_actor = a,
     ct_expected = Some (cs_status current), ct_run = RunOmitted, ct_reason = None,
     ct_stamped_run = Some run, ct_stamped_epoch = Some ep\<rparr>"

definition resolveForClosedRun ::
  "world \<Rightarrow> uid \<Rightarrow> rid \<Rightarrow> actor_kind \<Rightarrow> rid \<Rightarrow> nat \<Rightarrow> store \<Rightarrow> (err + closed_run_outcome) \<times> store" where
  "resolveForClosedRun w u m a run ep s = (case getCommitmentByMemoryId u m s of
       None \<Rightarrow> (Inr NotACommitment, s)
     | Some current \<Rightarrow>
         if cs_status current = StResolved then (Inr AlreadyResolved, s)
         else if \<not> canTransition (cs_status current) StResolved then (Inr IllegalTransition, s)
         else (case transitionCommitment (w_gap w 1) (w_t w 1) (w_now w 1) (closer_input u current a run ep)
                  (w_between w 1 s) of
             (Inr _, s') \<Rightarrow> (Inr Resolved, s')
           | (Inl (SessionEpochFenced _ _), s') \<Rightarrow> (Inr EpochFenced, s')
           | (Inl (CommitmentStateChanged _ _), s') \<Rightarrow> (let s2 = w_between w 0 s' in
               (case getCommitmentByMemoryId u m s2 of
                  Some latest \<Rightarrow> if cs_status latest = StResolved then (Inr AlreadyResolved, s2)
                    else (Inr IllegalTransition, s2)
                | None \<Rightarrow> (Inr IllegalTransition, s2)))
           | (Inl (IllegalCommitmentTransition _ _), s') \<Rightarrow> (Inr IllegalTransition, s')
           | (Inl (CommitmentNotFound _ _), s') \<Rightarrow> (Inr NotACommitment, s')
           | (Inl e, s') \<Rightarrow> (Inl e, s')))"

section \<open>The compare-and-set loop\<close>

lemma apply_same: "cs_status observed = to \<Longrightarrow> 0 < k \<Longrightarrow>
    apply_loop w u to a run reason k observed l s = same_state u observed run s"
  by (cases k) simp_all

lemma apply_illegal: "cs_status observed \<noteq> to \<Longrightarrow> \<not> canTransition (cs_status observed) to \<Longrightarrow> 0 < k \<Longrightarrow>
    apply_loop w u to a run reason k observed l s = (Inl (InvalidCommitmentTransition (cs_status observed) to), s)"
  by (cases k) simp_all

text \<open>The first attempt, lost to another writer.\<close>

lemma apply_first_lost:
  assumes "cs_status observed \<noteq> to" and "canTransition (cs_status observed) to"
    and "transitionCommitment (w_gap w 3) (w_t w 3) (w_now w 3) (transition_input u observed to a run reason)
      (w_between w 5 s) = (Inl (CommitmentStateChanged i st), v)"
    and "getCommitment u (cs_id observed) (w_between w 4 v) = Some latest"
  shows "applyTransition w u observed to a run reason s =
    apply_loop w u to a run reason 2 latest (Some (CommitmentStateChanged i st)) (w_between w 4 v)"
  using assms apply_loop.simps(2) [of w u to a run reason 2 observed None s]
  by (simp add: applyTransition_def MAX_TRANSITION_ATTEMPTS_def)

lemma loop_unlocked: "\<not> is_locked (transition_input u c to a run reason)"
  "ct_stamped_run (transition_input u c to a run reason) = None"
  by (simp_all add: is_locked_def transition_input_def)

text \<open>
  The state machine is guarded in the service. A request for a transition the table does not
  have, when the commitment is not already there, fails before any transaction writes: the store is
  exactly as the read found it, whatever the database would have said.
\<close>

theorem illegal_transition_writes_nothing:
  assumes "commitment_by u i s = Some c" and "com_status c \<noteq> to" and "\<not> canTransition (com_status c) to"
  shows "transition w u i to a s = (Inl (InvalidCommitmentTransition (com_status c) to), s)"
  using assms
  by (simp add: transition_def getCommitment_def toState_def applyTransition_def
      MAX_TRANSITION_ATTEMPTS_def apply_illegal)

text \<open>
  A same-state request is a no-op: no event, no attribution and no reason stored; but a run id
  the tenant does not own still fails it.
\<close>

theorem same_state_is_noop:
  assumes "commitment_on u m s = Some c"
  shows "resolveByMemoryId w u m (com_status c) a run reason s = ((case run of
      RunId i \<Rightarrow> if session_of u i s = None then Inl (UnknownSessionRun i)
        else Inr (com_id c, ToCommitment (com_status c))
    | _ \<Rightarrow> Inr (com_id c, ToCommitment (com_status c))), s)"
  using assms
  by (auto simp: resolveByMemoryId_def getCommitmentByMemoryId_def commitment_on_def toState_def
      applyTransition_def MAX_TRANSITION_ATTEMPTS_def apply_same same_state_def
      assertSessionRunOwned_def withTenant_def run_tx_def assertSessionRunOwnedIn_def bind_runs
      throw_def ret_def split: run_arg.splits option.splits)

text \<open>
  Racing another resolver. The caller saw the commitment live; before its own transaction ran,
  somebody else (the closer, another session) moved it to the requested status. The caller gets its
  success and the store is exactly what the other writer left: no second audit event, no new
  \<open>resolved_at\<close>, no session attached.
\<close>

theorem race_is_honoured_without_a_second_event:
  assumes "commitment_on u m s = Some c" and "com_status c \<noteq> to" and "canTransition (com_status c) to"
    and "constraints v" and "commitment_by u (com_id c) v = Some d" and "com_status d = to"
    and "w_between w 5 s = v" and "w_between w 4 v = v" and "w_gap w 3 = no_gap"
    and "resolveSessionProvenance no_gap u run (case predecessor_of u (com_memory d) v of
      None \<Rightarrow> None | Some x \<Rightarrow> mem_project x) (w_now w 3) v = Inr (runId, v')"
  shows "resolveByMemoryId w u m to a run reason s = (Inr (com_id c, ToCommitment to), v)"
proof -
  let ?inp = "transition_input u (toState c) to a run reason"
  have "moves inv_step (resolveSessionProvenance no_gap u run p n)" for p n
    by (rule inv.within_resolveSessionProvenance) (simp add: inv_step_def)
  with assms(4,10) have v': "constraints v'" by (blast dest: withinD inv_stepD)
  have same: "commitment_by u i v' = commitment_by u i v" for i
    using only_sessionsD [OF withinD [OF only_sessions_resolve assms(10)]] by simp
  have "transitionCommitment no_gap (w_t w 3) (w_now w 3) ?inp v =
      (Inl (CommitmentStateChanged (ct_id ?inp) (com_status c)), v)"
  proof (rule transition_state_changed)
    show "commitment_by (ct_user ?inp) (ct_id ?inp) v = Some d"
      using assms(5) by (simp add: transition_input_def toState_def)
    show "resolveSessionProvenance no_gap (ct_user ?inp) (ct_run ?inp) (case predecessor_of (ct_user ?inp)
        (com_memory d) v of None \<Rightarrow> None | Some x \<Rightarrow> mem_project x) (w_now w 3) v = Inr (runId, v')"
      using assms(10) by (simp add: transition_input_def)
  qed (use v' same assms(2,5,6) in \<open>simp_all add: loop_unlocked, simp_all add: transition_input_def toState_def\<close>)
  moreover have "session_of u i v \<noteq> None" if "run = RunId i" for i
    using assms(10) that
    by (cases "session_of u i v") (auto simp: resolveSessionProvenance_def attachKnownRun_run)
  then have "same_state u (toState d) run v = (Inr (com_id d, com_status d), v)"
    by (auto simp: same_state_def toState_def assertSessionRunOwned_def withTenant_def
        run_tx_def assertSessionRunOwnedIn_def bind_runs ret_def split: run_arg.splits)
  moreover have "com_id d = com_id c" using assms(5) by (auto dest: find_row_Some)
  ultimately show ?thesis
    using assms apply_first_lost [of "toState c" to w u a run reason s "com_id c" "com_status c" v "toState d"]
    by (simp add: resolveByMemoryId_def getCommitmentByMemoryId_def commitment_on_def getCommitment_def
        apply_same toState_def transition_input_def)
qed

section \<open>Blockers\<close>

text \<open>
  Resolving by memory id dispatches on what the memory is. With no commitment on it: a blocker
  cannot take a reason and nothing is written then; without one it is archived whatever the
  requested status; anything else, and a blocker that is no longer live, is not found.
\<close>

theorem resolve_without_commitment:
  assumes "commitment_on u m s = None" and "quiet w"
  shows "case predecessor_of u m s of
      None \<Rightarrow> resolveByMemoryId w u m to a run reason s = (Inl (CommitmentNotFound m KeyMemory), s)
    | Some row \<Rightarrow>
        if mem_type row \<noteq> Blocker
        then resolveByMemoryId w u m to a run reason s = (Inl (CommitmentNotFound m KeyMemory), s)
        else if reason \<noteq> None
        then resolveByMemoryId w u m to a run reason s = (Inl (ResolveReasonNotSupported m), s)
        else case archiveBlockerMemory no_gap (w_t w 8) (w_now w 8) u m a run s of
          (Inr (i, st), s') \<Rightarrow> resolveByMemoryId w u m to a run reason s = (Inr (i, ToArchived), s')
        | (Inl e, s') \<Rightarrow> s' = s \<and> resolveByMemoryId w u m to a run reason s =
            (Inl (if \<exists>j. e = BlockerNotFound j then CommitmentNotFound m KeyMemory else e), s)"
proof -
  have "s' = s" if "archiveBlockerMemory no_gap (w_t w 8) (w_now w 8) u m a run s = (Inl e, s')" for e s'
    using that by (auto simp: archiveBlockerMemory_def dest: withTenant_error)
  with assms show ?thesis
    by (auto simp: resolveByMemoryId_def getCommitmentByMemoryId_def getMemoryById_def commitment_on_def
        quiet_def Let_def split: option.splits prod.splits sum.splits err.splits)
qed

section \<open>The closer\<close>

lemma closer_write:
  assumes "constraints s" and "c \<in> set (tbl_commitments s)" "com_user c = u" "com_memory c = m"
    and "is_live_status (com_status c)"
  shows "\<exists>e. transition_write t (closer_input u (toState c) a run ep) m (Some run) s = Inr ((com_id c, StResolved),
      s\<lparr>tbl_commitments := sql_update (\<lambda>d. d = c) (transition_row t (closer_input u (toState c) a run ep))
          (tbl_commitments s),
        tbl_events := tbl_events s @ [e], next_id := Suc (next_id s)\<rparr>)"
proof -
  let ?inp = "closer_input u (toState c) a run ep"
  let ?q = "\<lambda>d. com_user d = u \<and> transition_where ?inp d"
  have ids: "distinct (map com_id (tbl_commitments s))"
    using assms(1) by (simp add: constraints_def commitments_ok_def ids_ok_def)
  have q: "?q = (\<lambda>d. com_user d = com_user c \<and> com_id d = com_id c \<and> com_status d = com_status c)"
    using assms(3) by (auto simp: transition_where_def closer_input_def toState_def)
  have upd: "sql_update ?q f (tbl_commitments s) = sql_update (\<lambda>d. d = c) f (tbl_commitments s)" for f
    unfolding q using update_one [OF ids assms(2), of "\<lambda>d. com_status d = com_status c" f] by simp
  have "find_row ?q (tbl_commitments s) = Some c"
    using assms(2) ids unfolding q
    by (intro find_row_unique [where key = com_id]) auto
  then obtain rs where ret: "sql_returning ?q (transition_row t ?inp) (tbl_commitments s) = transition_row t ?inp c # rs"
    by (blast dest: sql_returning_find)
  have key: "com_key (transition_row t ?inp d) = com_key d" for d by (simp add: transition_row_def com_key_def)
  then have keys: "map com_key (sql_update (\<lambda>d. d = c) (transition_row t ?inp) (tbl_commitments s)) =
      map com_key (tbl_commitments s)" by (intro sql_update_cong_key)
  have "find_row (\<lambda>d. ?q d \<and> \<not> enforce_commitment_fsm (com_status d) (com_status (transition_row t ?inp d)))
      (tbl_commitments s) = None"
    using assms(5) by (auto simp: find_row_None enforce_commitment_fsm_iff canTransition_to_resolved
        is_live_status_def transition_row_def closer_input_def transition_where_def toState_def)
  then have "update_commitments u (transition_where ?inp) (transition_row t ?inp) s =
      Inr (transition_row t ?inp c # rs, s\<lparr>tbl_commitments := sql_update (\<lambda>d. d = c) (transition_row t ?inp)
        (tbl_commitments s)\<rparr>)"
    using assms(1) ret keys map_eq_image [OF keys]
    by (simp add: update_commitments_def Let_def upd constraints_def commitments_ok_def)
  moreover have "(u, m) \<in> mem_keys (tbl_memories s)"
    using assms(1-4) by (force simp: constraints_def commitments_ok_def com_key_def)
  ultimately show ?thesis
    by (intro exI [of _ "(event_row t u m EvResolve a (sessionPayload (Some run)))\<lparr>ev_id := next_id s\<rparr>"])
      (simp add: transition_write_def bind_tx_Inr insert_event_row_Inr closer_input_def toState_def
        transition_row_def)
qed

text \<open>
  The closer's only write, alone on the store: a memory without a commitment, a settled
  commitment and an expired one are skipped with the store untouched; a live one is resolved if the
  run still has the epoch the pass is fenced at, and otherwise the pass is told to abandon, again
  with the store untouched. It never throws.
\<close>

theorem closer_outcomes:
  assumes "quiet w" and "constraints s"
  shows "case commitment_on u m s of
      None \<Rightarrow> resolveForClosedRun w u m a run ep s = (Inr NotACommitment, s)
    | Some c \<Rightarrow> (case com_status c of
        StResolved \<Rightarrow> resolveForClosedRun w u m a run ep s = (Inr AlreadyResolved, s)
      | StExpired \<Rightarrow> resolveForClosedRun w u m a run ep s = (Inr IllegalTransition, s)
      | _ \<Rightarrow> if \<exists>x. session_of u run s = Some x \<and> ses_epoch x = ep
          then (\<exists>s'. resolveForClosedRun w u m a run ep s = (Inr Resolved, s') \<and>
            (\<exists>d. commitment_on u m s' = Some d \<and> com_status d = StResolved \<and> com_resolved_at d = Some (w_t w 1)) \<and>
            tbl_sessions s' = tbl_sessions s)
          else resolveForClosedRun w u m a run ep s = (Inr EpochFenced, s))"
proof (cases "commitment_on u m s")
  case None
  then show ?thesis by (simp add: resolveForClosedRun_def getCommitmentByMemoryId_def commitment_on_def)
next
  case (Some c)
  let ?inp = "closer_input u (toState c) a run ep"
  let ?t = "w_t w 1"
  have c: "c \<in> set (tbl_commitments s)" "com_user c = u" "com_memory c = m"
    using commitment_on_Some [OF Some] by simp_all
  have by_id: "commitment_by u (com_id c) s = Some c" by (rule commitment_by_mem [OF assms(2) c(1,2)]) simp
  have inp: "is_locked ?inp" "ct_user ?inp = u" "ct_id ?inp = com_id c" "ct_stamped_run ?inp = Some run"
    by (simp_all add: is_locked_def closer_input_def toState_def)
  have fence: "epoch_fence ?inp s = (if \<exists>x. session_of u run s = Some x \<and> ses_epoch x = ep
      then Inr ((), s) else Inl (SessionEpochFenced run ep))"
    by (auto simp: epoch_fence_def closer_input_def bind_runs ret_def throw_def split: option.splits)
  note unfold = resolveForClosedRun_def getCommitmentByMemoryId_def toState_def Let_def
  have at: "find_row (\<lambda>c. com_user c = u \<and> com_memory c = m) (tbl_commitments s) = Some c"
    using Some by (simp add: commitment_on_def)
  have gaps: "w_between w k v = v" "w_gap w k = no_gap" for k v using assms(1) by (simp_all add: quiet_def)
  show ?thesis
  proof (cases "is_live_status (com_status c)")
    case False
    then show ?thesis using Some at by (cases "com_status c") (simp_all add: unfold is_live_status_def)
  next
    case live: True
    then have ok: "com_status c \<noteq> StResolved" "canTransition (com_status c) StResolved"
      by (auto simp: is_live_status_def)
    have cases: "(case com_status c of StResolved \<Rightarrow> A | StExpired \<Rightarrow> B | _ \<Rightarrow> C) = C" for A B C :: bool
      using live by (auto simp: is_live_status_def)
    show ?thesis
    proof (cases "\<exists>x. session_of u run s = Some x \<and> ses_epoch x = ep")
      case False
      with fence have "epoch_fence ?inp s = Inl (SessionEpochFenced run ep)" by auto
      then have "transitionCommitment no_gap ?t (w_now w 1) ?inp s = (Inl (SessionEpochFenced run ep), s)"
        using by_id inp by (simp add: transitionCommitment_def withTenant_def run_tx_def map_error_def
            transition_locked fsm_error_def)
      then have "resolveForClosedRun w u m a run ep s = (Inr EpochFenced, s)"
        using at ok gaps by (simp add: unfold del: One_nat_def)
      with False Some show ?thesis by (simp add: cases)
    next
      case True
      obtain e where wr: "transition_write ?t ?inp m (Some run) s = Inr ((com_id c, StResolved),
          s\<lparr>tbl_commitments := sql_update (\<lambda>d. d = c) (transition_row ?t ?inp) (tbl_commitments s),
            tbl_events := tbl_events s @ [e], next_id := Suc (next_id s)\<rparr>)"
        using closer_write [OF assms(2) c live] by blast
      let ?s' = "s\<lparr>tbl_commitments := sql_update (\<lambda>d. d = c) (transition_row ?t ?inp) (tbl_commitments s),
            tbl_events := tbl_events s @ [e], next_id := Suc (next_id s)\<rparr>"
      from wr True have "transitionCommitment no_gap ?t (w_now w 1) ?inp s = (Inr (com_id c, StResolved), ?s')"
        using by_id inp fence c(3) by (simp add: transitionCommitment_def withTenant_ok map_error_Inr transition_locked)
      then have "resolveForClosedRun w u m a run ep s = (Inr Resolved, ?s')"
        using at ok gaps by (simp add: unfold del: One_nat_def)
      moreover have "commitment_on u m ?s' = Some (transition_row ?t ?inp c)"
      proof -
        have "(\<lambda>d. d = c) d \<Longrightarrow> (com_user (transition_row ?t ?inp d) = u \<and> com_memory (transition_row ?t ?inp d) = m) =
            (com_user d = u \<and> com_memory d = m)" for d by (simp add: transition_row_def)
        from find_row_update [of "\<lambda>d. d = c" "\<lambda>d. com_user d = u \<and> com_memory d = m", OF this] show ?thesis
          using at by (simp add: commitment_on_def)
      qed
      moreover have "com_status (transition_row ?t ?inp c) = StResolved"
        "com_resolved_at (transition_row ?t ?inp c) = Some ?t"
        by (simp_all add: transition_row_def closer_input_def)
      ultimately show ?thesis using True Some by (auto simp: cases)
    qed
  qed
qed

end
