(* ===== verification/SessionRows.thy ===== *)
theory SessionRows
  imports SessionLifecycle
begin

text \<open>
  Statements on one session row, by id or by natural key. The unique indexes make both address at
  most one row, so an UPDATE guarded on more columns either rewrites that row (\<open>with_session\<close>) or
  changes nothing. The triage handshake and the closer are written with these statements.
\<close>

lemma filter_the_one:
  assumes "distinct (map key xs)" and "r \<in> set xs" and "p r"
    and "\<And>x. x \<in> set xs \<Longrightarrow> p x \<Longrightarrow> key x = key r"
  shows "filter p xs = [r]"
  using assms
proof (induction xs)
  case (Cons x xs)
  show ?case
  proof (cases "x = r")
    case True
    have "\<not> p y" if "y \<in> set xs" for y
    proof
      assume "p y"
      then have "key y = key r" using Cons.prems(4) [of y] that by simp
      with Cons.prems(1) True that show False by (auto simp: image_iff)
    qed
    then have "filter p xs = []" by (simp add: filter_empty_conv)
    with True Cons.prems(3) show ?thesis by simp
  next
    case False
    then have r: "r \<in> set xs" using Cons.prems(2) by simp
    then have "\<not> p x" using Cons.prems(1,4) by (auto simp: image_iff)
    moreover have "filter p xs = [r]"
    proof (rule Cons.IH [OF _ r Cons.prems(3)])
      show "distinct (map key xs)" using Cons.prems(1) by simp
      show "key x' = key r" if "x' \<in> set xs" "p x'" for x' using Cons.prems(4) [of x'] that by simp
    qed
    ultimately show ?thesis by simp
  qed
qed simp

section \<open>By id\<close>

lemma session_of_iff:
  assumes "sessions_ok s"
  shows "session_of u i s = Some x \<longleftrightarrow> x \<in> set (tbl_sessions s) \<and> ses_user x = u \<and> ses_id x = i"
proof
  assume "session_of u i s = Some x"
  then show "x \<in> set (tbl_sessions s) \<and> ses_user x = u \<and> ses_id x = i"
    unfolding session_of_def by (auto dest: find_row_Some)
next
  assume "x \<in> set (tbl_sessions s) \<and> ses_user x = u \<and> ses_id x = i"
  then show "session_of u i s = Some x" using assms unfolding session_of_def
    by (intro find_row_unique [where key = ses_id]) (auto simp: sessions_ok_def ids_ok_def)
qed

lemma filter_session_id:
  "sessions_ok s \<Longrightarrow> session_of u i s = Some x \<Longrightarrow>
   filter (\<lambda>y. ses_user y = u \<and> ses_id y = i \<and> P y) (tbl_sessions s) = (if P x then [x] else [])"
proof -
  assume ok: "sessions_ok s" and x: "session_of u i s = Some x"
  then have mem: "x \<in> set (tbl_sessions s)" "ses_user x = u" "ses_id x = i" by (simp_all add: session_of_iff)
  have "filter (\<lambda>y. ses_user y = u \<and> ses_id y = i) (tbl_sessions s) = [x]"
    using ok mem by (intro filter_the_one [where key = ses_id]) (auto simp: sessions_ok_def ids_ok_def)
  then have "filter P (filter (\<lambda>y. ses_user y = u \<and> ses_id y = i) (tbl_sessions s)) = filter P [x]" by simp
  moreover have "filter P (filter (\<lambda>y. ses_user y = u \<and> ses_id y = i) ys) =
      filter (\<lambda>y. ses_user y = u \<and> ses_id y = i \<and> P y) ys" for ys
    by (induction ys) auto
  ultimately show ?thesis by simp
qed

lemma sql_update_same: "(\<And>x. x \<in> set xs \<Longrightarrow> p x = q x) \<Longrightarrow> sql_update p f xs = sql_update q f xs"
  by (simp add: sql_update_def)

text \<open>The guarded UPDATE by id.\<close>

lemma update_session_id:
  assumes "sessions_ok s" and "session_of u i s = Some x"
  shows "update_sessions u (\<lambda>y. ses_id y = i \<and> P y) f s =
    (if P x then Inr ([f x], with_session u i f s) else Inr ([], s))"
proof -
  have only: "y \<in> set (tbl_sessions s) \<Longrightarrow> ses_user y = u \<Longrightarrow> ses_id y = i \<Longrightarrow> y = x" for y
    using assms session_of_iff [OF assms(1), of u i y] by simp
  have "sql_update (\<lambda>y. ses_user y = u \<and> ses_id y = i \<and> P y) f (tbl_sessions s) =
    (if P x then sql_update (\<lambda>y. ses_user y = u \<and> ses_id y = i) f (tbl_sessions s) else tbl_sessions s)"
    by (auto intro!: sql_update_same sql_update_none dest: only)
  moreover have "filter (\<lambda>y. ses_user y = u \<and> ses_id y = i \<and> P y) (tbl_sessions s) = (if P x then [x] else [])"
    by (rule filter_session_id [OF assms])
  ultimately show ?thesis
    by (simp add: update_sessions_def with_session_def sql_returning_def Let_def)
qed

lemma update_session_missing:
  assumes "session_of u i s = None"
  shows "update_sessions u (\<lambda>y. ses_id y = i \<and> P y) f s = Inr ([], s)"
proof -
  have no: "\<not> (ses_user y = u \<and> ses_id y = i \<and> P y)" if "y \<in> set (tbl_sessions s)" for y
    using assms that by (auto simp: session_of_def find_row_None)
  then have "sql_returning (\<lambda>y. ses_user y = u \<and> ses_id y = i \<and> P y) f (tbl_sessions s) = []"
    by (simp add: sql_returning_Nil)
  moreover have "sql_update (\<lambda>y. ses_user y = u \<and> ses_id y = i \<and> P y) f (tbl_sessions s) = tbl_sessions s"
    by (rule sql_update_none) (use no in auto)
  ultimately show ?thesis by (simp add: update_sessions_def Let_def)
qed

lemma with_session_tables [simp]:
  "tbl_users (with_session u i f s) = tbl_users s" "tbl_memories (with_session u i f s) = tbl_memories s"
  "tbl_edges (with_session u i f s) = tbl_edges s" "tbl_events (with_session u i f s) = tbl_events s"
  "tbl_commitments (with_session u i f s) = tbl_commitments s" "tbl_facts (with_session u i f s) = tbl_facts s"
  "next_id (with_session u i f s) = next_id s"
  by (simp_all add: with_session_def)

lemma with_session_twice:
  assumes "\<And>x. ses_step x (f x)"
  shows "with_session u i g (with_session u i f s) = with_session u i (g \<circ> f) s"
proof -
  have "ses_user (f x) = ses_user x \<and> ses_id (f x) = ses_id x" for x using assms [of x] by (simp add: ses_step_def)
  then show ?thesis by (simp add: with_session_def sql_update_def)
qed

lemma sessions_ok_with_session:
  assumes "sessions_ok s" and "\<And>x. ses_step x (f x)"
  shows "sessions_ok (with_session u i f s)"
proof -
  have k: "ses_id (f x) = ses_id x \<and> ses_key (f x) = ses_key x" for x
    using assms(2) [of x] by (simp add: ses_step_def ses_key_def)
  have "map ses_key (tbl_sessions (with_session u i f s)) = map ses_key (tbl_sessions s)"
    by (simp add: with_session_def sql_update_cong_key k)
  moreover have "ids_ok ses_id (tbl_sessions (with_session u i f s)) (next_id s)"
    using assms(1) by (simp add: with_session_def sessions_ok_def ids_ok_update k)
  ultimately show ?thesis using assms(1) by (simp add: sessions_ok_def)
qed

lemma constraints_with_session:
  assumes "constraints s" and "\<And>x. ses_step x (f x)"
  shows "constraints (with_session u i f s)"
  using assms sessions_ok_with_session [of s f u i]
  by (simp add: constraints_def memories_ok_def commitments_ok_def edges_ok_def events_ok_def facts_ok_def)

section \<open>By natural key\<close>

lemma keyed_session_iff:
  assumes "sessions_ok s"
  shows "keyed_session u k s = Some x \<longleftrightarrow> x \<in> set (tbl_sessions s) \<and> ses_user x = u \<and> naturalKeyPredicate k x"
proof
  assume "keyed_session u k s = Some x"
  then show "x \<in> set (tbl_sessions s) \<and> ses_user x = u \<and> naturalKeyPredicate k x"
    unfolding keyed_session_def by (auto dest: find_row_Some)
next
  assume "x \<in> set (tbl_sessions s) \<and> ses_user x = u \<and> naturalKeyPredicate k x"
  then show "keyed_session u k s = Some x" using assms unfolding keyed_session_def
    by (intro find_row_unique [where key = ses_key])
      (auto simp: sessions_ok_def ses_key_def naturalKeyPredicate_def)
qed

lemma keyed_session_of: "sessions_ok s \<Longrightarrow> keyed_session u k s = Some x \<Longrightarrow> session_of u (ses_id x) s = Some x"
  by (simp add: keyed_session_iff session_of_iff)

text \<open>The natural key and the id of its row address the same row.\<close>

lemma same_row:
  assumes "sessions_ok s" and "keyed_session u k s = Some x" and "y \<in> set (tbl_sessions s)"
  shows "ses_user y = u \<and> naturalKeyPredicate k y \<longleftrightarrow> ses_user y = u \<and> ses_id y = ses_id x"
  using assms keyed_session_iff [OF assms(1), of u k y] session_of_iff [OF assms(1), of u "ses_id x" y]
    keyed_session_of [OF assms(1,2)] by auto

lemma update_session_key:
  assumes "sessions_ok s" and "keyed_session u k s = Some x"
  shows "update_sessions u (\<lambda>y. naturalKeyPredicate k y \<and> P y) f s =
    (if P x then Inr ([f x], with_session u (ses_id x) f s) else Inr ([], s))"
proof -
  have eq: "ses_user y = u \<and> naturalKeyPredicate k y \<and> P y \<longleftrightarrow> ses_user y = u \<and> ses_id y = ses_id x \<and> P y"
    if "y \<in> set (tbl_sessions s)" for y
    using same_row [OF assms that] by blast
  have "sql_update (\<lambda>y. ses_user y = u \<and> naturalKeyPredicate k y \<and> P y) f (tbl_sessions s) =
      sql_update (\<lambda>y. ses_user y = u \<and> ses_id y = ses_id x \<and> P y) f (tbl_sessions s)"
    and "filter (\<lambda>y. ses_user y = u \<and> naturalKeyPredicate k y \<and> P y) (tbl_sessions s) =
      filter (\<lambda>y. ses_user y = u \<and> ses_id y = ses_id x \<and> P y) (tbl_sessions s)"
    by (rule sql_update_same [OF eq], assumption) (rule filter_cong [OF refl eq])
  then have "update_sessions u (\<lambda>y. naturalKeyPredicate k y \<and> P y) f s =
      update_sessions u (\<lambda>y. ses_id y = ses_id x \<and> P y) f s"
    by (simp add: update_sessions_def sql_returning_def Let_def)
  then show ?thesis by (simp add: update_session_id [OF assms(1) keyed_session_of [OF assms]])
qed

lemmas update_session_key_all = update_session_key [where P = "\<lambda>_. True", simplified]
  and update_session_id_all = update_session_id [where P = "\<lambda>_. True", simplified]
  and update_session_missing_all = update_session_missing [where P = "\<lambda>_. True", simplified]

lemma bind_update_key:
  assumes "sessions_ok s" and "keyed_session u k s = Some x"
  shows "bind_tx (update_sessions u (naturalKeyPredicate k) f) m s = m [f x] (with_session u (ses_id x) f s)"
    and "P x \<Longrightarrow> bind_tx (update_sessions u (\<lambda>y. naturalKeyPredicate k y \<and> P y) f) m s =
      m [f x] (with_session u (ses_id x) f s)"
  by (simp_all add: bind_tx_def update_session_key_all [OF assms] update_session_key [OF assms, of P])

lemma bind_update_id:
  assumes "sessions_ok s"
  shows "bind_tx (update_sessions u (\<lambda>y. ses_id y = i \<and> P y) f) m s = (case session_of u i s of
      None \<Rightarrow> m [] s
    | Some x \<Rightarrow> if P x then m [f x] (with_session u i f s) else m [] s)"
  using update_session_id [OF assms, of u i _ P f] update_session_missing [of u i s P f]
  by (cases "session_of u i s") (simp_all add: bind_tx_def)

lemma keyed_with_session:
  assumes "sessions_ok s" and "keyed_session u k s = Some x" and "\<And>x. ses_step x (f x)"
  shows "keyed_session u k (with_session u (ses_id x) f s) = Some (f x)"
proof -
  have mem: "x \<in> set (tbl_sessions s)" "ses_user x = u" "naturalKeyPredicate k x"
    using assms(1,2) by (simp_all add: keyed_session_iff)
  have "f x \<in> set (tbl_sessions (with_session u (ses_id x) f s))"
    using mem by (auto simp: with_session_def set_sql_update)
  moreover have "ses_user (f x) = u \<and> naturalKeyPredicate k (f x)"
    using mem assms(3) [of x] by (simp add: ses_step_def naturalKeyPredicate_def)
  ultimately show ?thesis using sessions_ok_with_session [OF assms(1,3)] by (simp add: keyed_session_iff)
qed

end
