(* ===== verification/SessionEvents.thy ===== *)
theory SessionEvents
  imports SessionRows
begin

text \<open>
  The typed provenance read of one run (\<open>packages/db/src/session-events-read.ts\<close>): audit events
  stamped with a run id, oldest first, paginated by keyset on the event id under a per-run ceiling.
  \<open>listVisibleEventIds\<close> is the pagination loop the triage handshake
  (\<open>packages/db/src/session-triage.ts\<close>) and the closer (\<open>packages/core/src/admin/session-closer.ts\<close>)
  run over it; it is shown to be the plain listing it paginates. The triage handshake reads all pages
  of a walk from one store; the closer lists page by page (\<open>CloserPass\<close>).
\<close>

definition MAX_SESSION_EVENT_IDS :: nat where "MAX_SESSION_EVENT_IDS = 500"
definition MAX_SESSION_EVENTS_LIMIT :: nat where "MAX_SESSION_EVENTS_LIMIT = 100"

section \<open>One page\<close>

text \<open>\<open>payload->>'sessionRunId'\<close>. The boundary refuses that key in an imported payload.\<close>

fun payload_run :: "payload \<Rightarrow> rid option" where
  "payload_run (SessionPayload r) = Some r"
| "payload_run (MovePayload r _ _) = r"
| "payload_run (DispositionPayload r _) = r"
| "payload_run (ReasonPayload _) = None"
| "payload_run (SourcePayload _) = None"

definition sessionRunIdExpr :: "memory_event \<Rightarrow> rid option" where
  "sessionRunIdExpr e = (case ev_payload e of None \<Rightarrow> None | Some p \<Rightarrow> payload_run p)"

definition runPredicate :: "uid \<Rightarrow> rid \<Rightarrow> memory_event \<Rightarrow> bool" where
  "runPredicate u run e \<longleftrightarrow> ev_user e = u \<and> sessionRunIdExpr e = Some run"

text \<open>\<open>SELECT ... WHERE p ORDER BY id\<close>.\<close>

definition select_events :: "(memory_event \<Rightarrow> bool) \<Rightarrow> store \<Rightarrow> memory_event list" where
  "select_events p s = sort_key ev_id (filter p (tbl_events s))"

definition ceilingBoundary :: "uid \<Rightarrow> rid \<Rightarrow> nat \<Rightarrow> store \<Rightarrow> rid option" where
  "ceilingBoundary u run ceiling s = (case take 1 (drop ceiling (select_events (runPredicate u run) s)) of
       [] \<Rightarrow> None | row # _ \<Rightarrow> Some (ev_id row))"

record session_event_row =
  ser_id :: rid
  ser_memory :: rid
  ser_kind :: event_kind
  ser_actor :: actor_kind
  ser_run :: "rid option"
  ser_created_at :: instant

record session_events_page =
  sep_items :: "session_event_row list"
  sep_next :: "rid option"
  sep_truncated :: bool

record list_options =
  lo_cursor :: "rid option"
  lo_limit :: nat
  lo_ceiling :: "nat option"

definition event_item :: "memory_event \<Rightarrow> session_event_row" where
  "event_item e = \<lparr>ser_id = ev_id e, ser_memory = ev_memory e, ser_kind = ev_kind e, ser_actor = ev_actor e,
     ser_run = sessionRunIdExpr e, ser_created_at = ev_created_at e\<rparr>"

definition after_cursor :: "rid option \<Rightarrow> memory_event \<Rightarrow> bool" where
  "after_cursor c e = (case c of None \<Rightarrow> True | Some i \<Rightarrow> i < ev_id e)"

definition before_boundary :: "rid option \<Rightarrow> memory_event \<Rightarrow> bool" where
  "before_boundary b e = (case b of None \<Rightarrow> True | Some i \<Rightarrow> ev_id e < i)"

definition listSessionEvents :: "uid \<Rightarrow> rid \<Rightarrow> list_options \<Rightarrow> store \<Rightarrow> session_events_page" where
  "listSessionEvents u run opts s = (let
     ceiling = (case lo_ceiling opts of None \<Rightarrow> MAX_SESSION_EVENT_IDS | Some c \<Rightarrow> c);
     boundary = ceilingBoundary u run ceiling s;
     rows = take (lo_limit opts + 1) (select_events
       (\<lambda>e. runPredicate u run e \<and> after_cursor (lo_cursor opts) e \<and> before_boundary boundary e) s);
     hasMore = lo_limit opts < length rows;
     page = (if hasMore then take (lo_limit opts) rows else rows);
     items = map event_item page
   in \<lparr>sep_items = items,
       sep_next = (if hasMore \<and> items \<noteq> [] then Some (ser_id (last items)) else None),
       sep_truncated = (boundary \<noteq> None)\<rparr>)"

section \<open>The walk over the pages\<close>

definition page_options :: "nat \<Rightarrow> rid option \<Rightarrow> list_options" where
  "page_options ceiling cursor =
     \<lparr>lo_cursor = cursor, lo_limit = MAX_SESSION_EVENTS_LIMIT, lo_ceiling = Some ceiling\<rparr>"

text \<open>What the next page of a walk can still hold: the measure of the loop.\<close>

definition events_left :: "uid \<Rightarrow> rid \<Rightarrow> store \<Rightarrow> rid option \<Rightarrow> nat" where
  "events_left u run s cursor =
     length (filter (\<lambda>e. runPredicate u run e \<and> after_cursor cursor e) (tbl_events s))"

lemma set_select_events [simp]: "set (select_events p s) = {e \<in> set (tbl_events s). p e}"
  by (auto simp: select_events_def)

lemma length_filter_strict:
  "(\<And>x. Q x \<Longrightarrow> P x) \<Longrightarrow> z \<in> set xs \<Longrightarrow> P z \<Longrightarrow> \<not> Q z \<Longrightarrow> length (filter Q xs) < length (filter P xs)"
proof (induction xs)
  case (Cons x xs)
  have le: "length (filter Q xs) \<le> length (filter P xs)"
    using Cons.prems(1) by (induction xs) auto
  show ?case
  proof (cases "z \<in> set xs")
    case True
    with Cons show ?thesis by auto
  next
    case False
    with Cons.prems have "x = z" by simp
    with Cons.prems le show ?thesis by simp
  qed
qed simp

text \<open>A further page starts after an event of this one, so each turn of the loop leaves fewer events.\<close>

lemma page_progress:
  assumes "sep_next (listSessionEvents u run (page_options ceiling cursor) s) = Some c"
  shows "events_left u run s (Some c) < events_left u run s cursor"
proof -
  let ?q = "\<lambda>e. runPredicate u run e \<and> after_cursor cursor e \<and>
    before_boundary (ceilingBoundary u run ceiling s) e"
  let ?rows = "take (MAX_SESSION_EVENTS_LIMIT + 1) (select_events ?q s)"
  let ?page = "take MAX_SESSION_EVENTS_LIMIT ?rows"
  from assms have ne: "?page \<noteq> []" and c: "c = ev_id (last ?page)"
    by (auto simp: listSessionEvents_def page_options_def Let_def last_map event_item_def split: if_splits)
  from ne have "last ?page \<in> set ?page" by (rule last_in_set)
  then have "last ?page \<in> set ?rows" by (rule in_set_takeD)
  then have "last ?page \<in> set (select_events ?q s)" by (rule in_set_takeD)
  then have z: "last ?page \<in> set (tbl_events s)" "runPredicate u run (last ?page)"
      "after_cursor cursor (last ?page)"
    by auto
  moreover obtain e where e: "e = last ?page" by simp
  ultimately have "e \<in> set (tbl_events s)" "runPredicate u run e" "after_cursor cursor e" by simp_all
  then show ?thesis unfolding events_left_def c e [symmetric]
    by (intro length_filter_strict [of _ _ e]) (auto simp: after_cursor_def split: option.splits)
qed

function event_walk :: "uid \<Rightarrow> rid \<Rightarrow> nat \<Rightarrow> store \<Rightarrow> rid option \<Rightarrow> session_event_row list \<times> bool" where
  "event_walk u run ceiling s cursor = (let
     page = listSessionEvents u run (page_options ceiling cursor) s
   in case sep_next page of
        None \<Rightarrow> (sep_items page, sep_truncated page)
      | Some c \<Rightarrow> (let rest = event_walk u run ceiling s (Some c)
          in (sep_items page @ fst rest, sep_truncated page \<or> snd rest)))"
  by pat_completeness auto
termination
  by (relation "measure (\<lambda>(u, run, ceiling, s, cursor). events_left u run s cursor)")
    (auto dest: page_progress)

declare event_walk.simps [simp del]

definition listVisibleEventIds :: "uid \<Rightarrow> rid \<Rightarrow> nat \<Rightarrow> store \<Rightarrow> rid list \<times> bool" where
  "listVisibleEventIds u run ceiling s =
     (let w = event_walk u run ceiling s None in (map ser_id (fst w), snd w))"

section \<open>The walk is the listing\<close>

text \<open>All events of a run, oldest first.\<close>

definition run_events :: "uid \<Rightarrow> rid \<Rightarrow> store \<Rightarrow> memory_event list" where
  "run_events u run s = select_events (runPredicate u run) s"

definition event_ids :: "uid \<Rightarrow> rid \<Rightarrow> store \<Rightarrow> rid list" where
  "event_ids u run s = map ev_id (run_events u run s)"

lemma filter_sort_key: "filter q (sort_key f xs) = sort_key f (filter q xs)"
  by (rule filter_sort)

lemma select_events_and: "select_events (\<lambda>e. p e \<and> q e) s = filter q (select_events p s)"
  by (simp add: select_events_def filter_sort_key conj_commute)

lemma run_events_sorted: "events_ok s \<Longrightarrow> sorted_wrt (<) (event_ids u run s)"
proof -
  assume "events_ok s"
  then have "distinct (map ev_id (tbl_events s))" by (simp add: events_ok_def ids_ok_def)
  then have "distinct (map ev_id (filter (runPredicate u run) (tbl_events s)))"
    by (rule distinct_map_filter)
  then show ?thesis
    by (simp add: event_ids_def run_events_def select_events_def strict_sorted_iff distinct_map
        inj_on_def)
qed

text \<open>In a strictly ascending list the elements above or below one of them are a suffix or a prefix.\<close>

lemma filter_above:
  "sorted_wrt (<) (map f xs) \<Longrightarrow> k < length xs \<Longrightarrow>
   filter (\<lambda>x. (f (xs ! k) :: 'k :: linorder) < f x) xs = drop (Suc k) xs"
proof (induction xs arbitrary: k)
  case (Cons x xs)
  show ?case
  proof (cases k)
    case 0
    have "filter (\<lambda>y. f x < f y) xs = xs" using Cons.prems(1) by (simp add: filter_id_conv)
    with 0 show ?thesis by simp
  next
    case (Suc j)
    then have j: "j < length xs" using Cons.prems by simp
    then have "f x < f (xs ! j)" using Cons.prems(1) by simp
    then have "\<not> f (xs ! j) < f x" by simp
    with Suc j Cons show ?thesis by simp
  qed
qed simp

lemma filter_below:
  "sorted_wrt (<) (map f xs) \<Longrightarrow> k < length xs \<Longrightarrow>
   filter (\<lambda>x. f x < (f (xs ! k) :: 'k :: linorder)) xs = take k xs"
proof (induction xs arbitrary: k)
  case (Cons x xs)
  show ?case
  proof (cases k)
    case 0
    have "filter (\<lambda>y. f y < f x) xs = []" using Cons.prems(1) by (auto simp: filter_empty_conv)
    with 0 show ?thesis by simp
  next
    case (Suc j)
    then have j: "j < length xs" using Cons.prems by simp
    then have "f x < f (xs ! j)" using Cons.prems(1) by simp
    with Suc j Cons show ?thesis by simp
  qed
qed simp

lemma ceilingBoundary_eq: "ceilingBoundary u run ceiling s =
    (if ceiling < length (run_events u run s) then Some (ev_id (run_events u run s ! ceiling)) else None)"
  by (auto simp: ceilingBoundary_def run_events_def take_Suc hd_drop_conv_nth split: list.splits)

lemma before_boundary_eq:
  assumes "events_ok s"
  shows "filter (before_boundary (ceilingBoundary u run ceiling s)) (run_events u run s) =
    take ceiling (run_events u run s)"
  using filter_below [OF run_events_sorted [OF assms, of u run, unfolded event_ids_def], of ceiling]
  unfolding ceilingBoundary_eq before_boundary_def by (auto simp: filter_id_conv)

text \<open>The rows a page selects from: what is past its cursor among the first \<open>ceiling\<close> events.\<close>

definition past_cursor :: "uid \<Rightarrow> rid \<Rightarrow> nat \<Rightarrow> store \<Rightarrow> rid option \<Rightarrow> memory_event list" where
  "past_cursor u run ceiling s cursor =
     filter (after_cursor cursor) (take ceiling (run_events u run s))"

lemma page_rows:
  assumes "events_ok s"
  shows "select_events (\<lambda>e. runPredicate u run e \<and> after_cursor c e \<and>
      before_boundary (ceilingBoundary u run ceiling s) e) s = past_cursor u run ceiling s c"
proof -
  have "select_events (\<lambda>e. runPredicate u run e \<and> after_cursor c e \<and>
      before_boundary (ceilingBoundary u run ceiling s) e) s =
    filter (after_cursor c) (filter (before_boundary (ceilingBoundary u run ceiling s)) (run_events u run s))"
    by (simp add: run_events_def select_events_and conj_commute)
  then show ?thesis by (simp add: before_boundary_eq [OF assms] past_cursor_def)
qed

lemma past_cursor_sorted: "events_ok s \<Longrightarrow> sorted_wrt (<) (map ev_id (past_cursor u run ceiling s c))"
  using run_events_sorted [of s u run]
  by (simp add: past_cursor_def event_ids_def sorted_wrt_map sorted_wrt_filter sorted_wrt_take)

lemma past_cursor_next:
  assumes "events_ok s" and "k < length (past_cursor u run ceiling s c)"
  shows "past_cursor u run ceiling s (Some (ev_id (past_cursor u run ceiling s c ! k))) =
    drop (Suc k) (past_cursor u run ceiling s c)"
proof -
  let ?xs = "past_cursor u run ceiling s c"
  have "?xs ! k \<in> set ?xs" using assms(2) by simp
  then have "after_cursor c (?xs ! k)" by (simp add: past_cursor_def)
  then have "after_cursor (Some (ev_id (?xs ! k))) e \<Longrightarrow> after_cursor c e" for e
    by (auto simp: after_cursor_def split: option.splits)
  then have "past_cursor u run ceiling s (Some (ev_id (?xs ! k))) =
      filter (after_cursor (Some (ev_id (?xs ! k)))) ?xs"
    unfolding past_cursor_def filter_filter by (metis (mono_tags, lifting))
  also have "\<dots> = drop (Suc k) ?xs"
    using filter_above [OF past_cursor_sorted [OF assms(1)] assms(2)]
    unfolding after_cursor_def option.case .
  finally show ?thesis .
qed

lemma page_next:
  assumes "events_ok s"
  shows "sep_next (listSessionEvents u run (page_options ceiling c) s) =
    (let xs = past_cursor u run ceiling s c in if MAX_SESSION_EVENTS_LIMIT < length xs
     then Some (ev_id (xs ! (MAX_SESSION_EVENTS_LIMIT - 1))) else None)"
  by (auto simp: listSessionEvents_def page_options_def Let_def page_rows [OF assms] min_def
      MAX_SESSION_EVENTS_LIMIT_def last_map event_item_def last_conv_nth)

lemma event_walk_eq:
  assumes "events_ok s"
  shows "event_walk u run ceiling s c =
    (map event_item (past_cursor u run ceiling s c), ceiling < length (run_events u run s))"
  using assms
proof (induction u run ceiling s c rule: event_walk.induct)
  case (1 u run ceiling s c)
  let ?xs = "past_cursor u run ceiling s c" and ?L = MAX_SESSION_EVENTS_LIMIT
  let ?page = "listSessionEvents u run (page_options ceiling c) s"
  have trunc: "sep_truncated ?page \<longleftrightarrow> ceiling < length (run_events u run s)"
    by (simp add: listSessionEvents_def page_options_def ceilingBoundary_eq Let_def)
  have items: "sep_items ?page = map event_item (take ?L ?xs)"
    by (simp add: listSessionEvents_def page_options_def Let_def page_rows [OF "1.prems"] min_def)
  have step: "sep_next ?page = (if ?L < length ?xs then Some (ev_id (?xs ! (?L - 1))) else None)"
    by (simp add: page_next [OF "1.prems"] Let_def)
  show ?case
  proof (cases "?L < length ?xs")
    case False
    with trunc items step show ?thesis by (simp add: event_walk.simps [of u run ceiling s c] Let_def)
  next
    case True
    then have lt: "?L - 1 < length ?xs" and suc: "Suc (?L - 1) = ?L"
      by (simp_all add: MAX_SESSION_EVENTS_LIMIT_def)
    have rest: "event_walk u run ceiling s (Some (ev_id (?xs ! (?L - 1)))) =
        (map event_item (drop ?L ?xs), ceiling < length (run_events u run s))"
      using "1.IH" [OF refl, of "ev_id (?xs ! (?L - 1))"] True step "1.prems"
        past_cursor_next [OF "1.prems" lt] unfolding suc by simp
    have "map event_item (take ?L ?xs) @ map event_item (drop ?L ?xs) = map event_item ?xs"
      by (simp flip: map_append)
    with True trunc items step rest show ?thesis
      by (simp add: event_walk.simps [of u run ceiling s c] Let_def)
  qed
qed

lemma visible_ids:
  assumes "constraints s"
  shows "listVisibleEventIds u run ceiling s =
    (take ceiling (event_ids u run s), ceiling < length (event_ids u run s))"
proof -
  have "events_ok s" using assms by (simp add: constraints_def)
  moreover have "past_cursor u run ceiling s None = take ceiling (run_events u run s)"
    by (simp add: past_cursor_def after_cursor_def)
  ultimately show ?thesis
    by (simp add: listVisibleEventIds_def event_walk_eq Let_def event_ids_def event_item_def
        take_map comp_def)
qed

text \<open>
  C27. The paginated walk over a run's events returns (its loop ends), and lists exactly the first
  \<open>ceiling\<close> event ids of the run in ascending order, each once, across however many pages; it reports
  truncation exactly when the run holds more.
\<close>

theorem event_walk_is_the_listing:
  assumes "constraints s"
  shows "listVisibleEventIds u run ceiling s =
    (take ceiling (event_ids u run s), ceiling < length (event_ids u run s))"
  by (rule visible_ids [OF assms])

end
