(* ===== verification/SessionTriage.thy ===== *)
theory SessionTriage
  imports SessionEvents
begin

text \<open>
  The Stop-nudge handshake: \<open>packages/db/src/session-triage.ts\<close> with its facade
  (\<open>packages/core/src/session/triage.ts\<close>). \<open>beginSessionTriage\<close> arms an attempt or declines with a
  reason; \<open>completeSessionTriage\<close> absorbs what the continuation wrote and stamps the outcome. Both
  lock the session row first (the argument \<open>g\<close> is what commits while they wait) and hold it until
  they commit, so nothing interferes between their decision and their write.
\<close>

definition MAX_TRIAGE_ATTEMPT_LOG :: nat where "MAX_TRIAGE_ATTEMPT_LOG = 50"

section \<open>The entry rule\<close>

datatype decline_reason = NotLive | Terminal | PendingAttempt | PendingFresh | NoSignal | Debounce | OverflowedNow

datatype entry_decision = Arm | Decline decline_reason

record triage_thresholds =
  th_min_turns :: nat
  th_min_elapsed :: int
  th_min_attempt_age :: int

record entry_input =
  ei_live :: bool
  ei_status :: triage_status
  ei_untriaged :: bool
  ei_turns :: nat
  ei_elapsed :: int
  ei_attempt_age :: "int option"
  ei_stop_hook :: "bool option"
  ei_thresholds :: triage_thresholds

definition evaluateTriageEntry :: "entry_input \<Rightarrow> entry_decision" where
  "evaluateTriageEntry i =
     (if \<not> ei_live i then Decline NotLive
      else if ei_status i = TrOverflowed then Decline Terminal
      else if ei_status i = TrPending then
        (let fresh = ei_stop_hook i \<noteq> Some True \<and>
           (case ei_attempt_age i of None \<Rightarrow> False | Some a \<Rightarrow> a < th_min_attempt_age (ei_thresholds i))
         in Decline (if fresh then PendingFresh else PendingAttempt))
      else if ei_status i \<noteq> TrIdle \<and> \<not> ei_untriaged i then Decline NoSignal
      else (let substantial = ei_untriaged i \<or> th_min_turns (ei_thresholds i) \<le> ei_turns i \<or>
              th_min_elapsed (ei_thresholds i) \<le> ei_elapsed i
            in if substantial then Arm else Decline Debounce))"

section \<open>The attempt log\<close>

definition appendAttemptEntry :: "triage_log_entry list \<Rightarrow> triage_log_entry \<Rightarrow> triage_log_entry list" where
  "appendAttemptEntry log e = (let l = log @ [e] in drop (length l - MAX_TRIAGE_ATTEMPT_LOG) l)"

fun finalize_entry :: "rid \<Rightarrow> jsdate \<Rightarrow> triage_outcome \<Rightarrow> triage_log_entry \<Rightarrow> triage_log_entry" where
  "finalize_entry a t out (Armed b at) = (if b = a then Finalized b at t out else Armed b at)"
| "finalize_entry a t out (Finalized b at t' out') =
     (if b = a then Finalized b at t out else Finalized b at t' out')"

definition finalizeAttemptEntry ::
  "triage_log_entry list \<Rightarrow> rid \<Rightarrow> jsdate \<Rightarrow> triage_outcome \<Rightarrow> triage_log_entry list" where
  "finalizeAttemptEntry log a t out = map (finalize_entry a t out) log"

section \<open>The row and its signal\<close>

text \<open>\<open>EXISTS\<close> an event of the run outside the row's watermark (\<open>packages/db/src/session-closer.ts\<close>).\<close>

definition hasUntriagedSessionEvent :: "store \<Rightarrow> agent_session \<Rightarrow> bool" where
  "hasUntriagedSessionEvent s x = list_ex (\<lambda>e. ev_user e = ses_user x \<and>
     sessionRunIdExpr e = Some (ses_id x) \<and> ev_id e \<notin> set (ses_triaged_events x)) (tbl_events s)"

definition settleNeedsLook :: "uid \<Rightarrow> rid \<Rightarrow> unit stm" where
  "settleNeedsLook u run = bind_tx (query (\<lambda>s. s)) (\<lambda>s.
     bind_tx (update_sessions u (\<lambda>x. ses_id x = run)
       (\<lambda>x. x\<lparr>ses_needs_look := hasUntriagedSessionEvent s x\<rparr>)) (\<lambda>_. ret ()))"

definition lockTriageRow :: "(store \<Rightarrow> store) \<Rightarrow> uid \<Rightarrow> session_key \<Rightarrow> agent_session option stm" where
  "lockTriageRow g u k = bind_tx (wait_for g) (\<lambda>_. select_session u (naturalKeyPredicate k))"

definition hasUntriagedEvent :: "uid \<Rightarrow> rid \<Rightarrow> bool stm" where
  "hasUntriagedEvent u run = query (\<lambda>s.
     find_row (\<lambda>x. ses_user x = u \<and> ses_id x = run \<and> hasUntriagedSessionEvent s x) (tbl_sessions s) \<noteq> None)"

section \<open>Begin\<close>

record begin_options =
  bo_attempt :: rid
  bo_turns :: "nat option"
  bo_stop_hook :: "bool option"
  bo_thresholds :: triage_thresholds
  bo_now :: jsdate
  bo_arm_now :: "jsdate option"
  bo_ceiling :: "nat option"

record begin_result =
  br_run :: rid
  br_armed :: bool
  br_attempt :: "rid option"
  br_status :: triage_status
  br_reason :: "decline_reason option"

definition arm_row :: "rid \<Rightarrow> jsdate \<Rightarrow> rid list \<Rightarrow> triage_log_entry list \<Rightarrow> agent_session \<Rightarrow> agent_session" where
  "arm_row a t ids log x = x\<lparr>ses_triage_status := TrPending, ses_triage_attempt := Some a,
     ses_triage_armed_at := Some t, ses_triaged_events := ids,
     ses_attempt_log := appendAttemptEntry log (Armed a t), ses_attempt_count := ses_attempt_count x + 1\<rparr>"

definition overflow_row :: "agent_session \<Rightarrow> agent_session" where
  "overflow_row x = x\<lparr>ses_triage_status := TrOverflowed\<rparr>"

definition ceiling_of :: "nat option \<Rightarrow> nat" where
  "ceiling_of c = (case c of None \<Rightarrow> MAX_SESSION_EVENT_IDS | Some n \<Rightarrow> n)"

definition armAttempt :: "uid \<Rightarrow> session_key \<Rightarrow> agent_session \<Rightarrow> begin_options \<Rightarrow> begin_result stm" where
  "armAttempt u k row opts =
     bind_tx (query (listVisibleEventIds u (ses_id row) (ceiling_of (bo_ceiling opts)))) (\<lambda>visible.
       let overflowed = snd visible;
           armedAt = (case bo_arm_now opts of None \<Rightarrow> bo_now opts | Some t \<Rightarrow> t) in
       bind_tx (update_sessions u (naturalKeyPredicate k)
         (if overflowed then overflow_row
          else arm_row (bo_attempt opts) armedAt (fst visible) (ses_attempt_log row))) (\<lambda>_.
       if overflowed then ret \<lparr>br_run = ses_id row, br_armed = False, br_attempt = None,
         br_status = TrOverflowed, br_reason = Some OverflowedNow\<rparr>
       else ret \<lparr>br_run = ses_id row, br_armed = True, br_attempt = Some (bo_attempt opts),
         br_status = TrPending, br_reason = None\<rparr>))"

definition session_live :: "agent_session \<Rightarrow> jsdate \<Rightarrow> bool" where
  "session_live x now \<longleftrightarrow> ses_closed_at x = None \<and> isLeased (ses_last_seen x) now"

definition entry_of :: "begin_options \<Rightarrow> agent_session \<Rightarrow> bool \<Rightarrow> entry_input" where
  "entry_of opts row untriaged = \<lparr>ei_live = session_live row (bo_now opts),
     ei_status = ses_triage_status row, ei_untriaged = untriaged,
     ei_turns = (case bo_turns opts of None \<Rightarrow> 0 | Some n \<Rightarrow> n),
     ei_elapsed = bo_now opts - ses_opened_at row,
     ei_attempt_age = map_option (\<lambda>t. bo_now opts - t) (ses_triage_armed_at row),
     ei_stop_hook = bo_stop_hook opts, ei_thresholds = bo_thresholds opts\<rparr>"

definition beginSessionTriage :: "(store \<Rightarrow> store) \<Rightarrow> uid \<Rightarrow> session_key \<Rightarrow> begin_options \<Rightarrow> begin_result stm" where
  "beginSessionTriage g u k opts =
     bind_tx (lockTriageRow g u k) (\<lambda>found. case found of
       None \<Rightarrow> throw (NotFound k)
     | Some row \<Rightarrow>
         let needsSignal = session_live row (bo_now opts) \<and> ses_triage_status row \<noteq> TrOverflowed \<and>
           ses_triage_status row \<noteq> TrPending in
         bind_tx (if needsSignal then hasUntriagedEvent u (ses_id row) else ret False) (\<lambda>untriagedEvent.
         case evaluateTriageEntry (entry_of opts row untriagedEvent) of
           Decline reason \<Rightarrow> ret \<lparr>br_run = ses_id row, br_armed = False,
             br_attempt = (if reason = PendingAttempt then ses_triage_attempt row else None),
             br_status = ses_triage_status row, br_reason = Some reason\<rparr>
         | Arm \<Rightarrow> armAttempt u k row opts))"

section \<open>Complete\<close>

record complete_options =
  co_attempt :: rid
  co_now :: jsdate
  co_defensive :: "bool option"
  co_ceiling :: "nat option"

record complete_result =
  tc_run :: rid
  tc_outcome :: triage_outcome
  tc_event_count :: nat
  tc_since_begin :: nat
  tc_truncated :: bool

fun outcome_status :: "triage_outcome \<Rightarrow> triage_status" where
  "outcome_status OutCompleted = TrCompleted"
| "outcome_status OutExpired = TrExpired"
| "outcome_status OutOverflowed = TrOverflowed"

definition complete_outcome :: "bool \<Rightarrow> bool \<Rightarrow> rid list \<Rightarrow> triage_outcome" where
  "complete_outcome truncated defensive sinceBegin =
     (if truncated then OutOverflowed
      else if defensive \<or> sinceBegin = [] then OutExpired else OutCompleted)"

definition complete_row ::
  "complete_options \<Rightarrow> triage_outcome \<Rightarrow> rid list \<Rightarrow> triage_log_entry list \<Rightarrow> agent_session \<Rightarrow> agent_session" where
  "complete_row opts out watermark log x = x\<lparr>ses_triage_status := outcome_status out,
     ses_triaged_events := watermark,
     ses_attempt_log := finalizeAttemptEntry log (co_attempt opts) (co_now opts) out,
     ses_closer_failures := 0, ses_closer_next_attempt := None\<rparr>"

definition TriageConflictOn :: "session_key \<Rightarrow> rid \<Rightarrow> err" where
  "TriageConflictOn k a = TriageConflict (key_agent k) (key_session k) a"

definition completeSessionTriage ::
  "(store \<Rightarrow> store) \<Rightarrow> uid \<Rightarrow> session_key \<Rightarrow> complete_options \<Rightarrow> complete_result stm" where
  "completeSessionTriage g u k opts =
     bind_tx (lockTriageRow g u k) (\<lambda>found. case found of
       None \<Rightarrow> throw (NotFound k)
     | Some row \<Rightarrow>
         if ses_triage_status row \<noteq> TrPending \<or> ses_triage_attempt row \<noteq> Some (co_attempt opts)
         then throw (TriageConflictOn k (co_attempt opts))
         else
           bind_tx (query (listVisibleEventIds u (ses_id row) (ceiling_of (co_ceiling opts)))) (\<lambda>visible.
             let sinceBegin = filter (\<lambda>i. i \<notin> set (ses_triaged_events row)) (fst visible);
                 defensive = (co_defensive opts = Some True);
                 out = complete_outcome (snd visible) defensive sinceBegin;
                 watermark = (if defensive then ses_triaged_events row
                   else take MAX_SESSION_EVENT_IDS (fst visible)) in
             bind_tx (update_sessions u (\<lambda>x. naturalKeyPredicate k x \<and>
                 ses_triage_attempt x = Some (co_attempt opts) \<and> ses_triage_status x = TrPending)
               (complete_row opts out watermark (ses_attempt_log row))) (\<lambda>stamped.
             if length stamped \<noteq> 1 then throw (TriageConflictOn k (co_attempt opts))
             else bind_tx (settleNeedsLook u (ses_id row)) (\<lambda>_.
               ret \<lparr>tc_run = ses_id row, tc_outcome = out, tc_event_count = length watermark,
                 tc_since_begin = length sinceBegin, tc_truncated = snd visible\<rparr>))))"

section \<open>The facade\<close>

text \<open>
  The parsed bodies: \<open>minted\<close> is the fresh attempt token and \<open>armNow\<close> the clock re-read at the arm
  point.
\<close>

definition beginAgentSessionTriage ::
  "(store \<Rightarrow> store) \<Rightarrow> uid \<Rightarrow> session_key \<Rightarrow> nat option \<Rightarrow> bool option \<Rightarrow> triage_thresholds \<Rightarrow> jsdate \<Rightarrow>
   jsdate \<Rightarrow> rid \<Rightarrow> store \<Rightarrow> (err + begin_result) \<times> store" where
  "beginAgentSessionTriage g u k turns stop thresholds now armNow minted =
     withTenant u (beginSessionTriage g u k
       \<lparr>bo_attempt = minted, bo_turns = turns, bo_stop_hook = stop, bo_thresholds = thresholds,
        bo_now = now, bo_arm_now = Some armNow, bo_ceiling = None\<rparr>)"

definition completeAgentSessionTriage ::
  "(store \<Rightarrow> store) \<Rightarrow> uid \<Rightarrow> session_key \<Rightarrow> rid \<Rightarrow> bool option \<Rightarrow> jsdate \<Rightarrow> store \<Rightarrow>
   (err + complete_result) \<times> store" where
  "completeAgentSessionTriage g u k attempt defensive now =
     withTenant u (completeSessionTriage g u k
       \<lparr>co_attempt = attempt, co_now = now, co_defensive = defensive, co_ceiling = None\<rparr>)"

section \<open>What the handshake keeps\<close>

lemma ses_step_triage_rows:
  "ses_step x (arm_row a t ids log x)" "ses_step x (overflow_row x)"
  "ses_step x (complete_row opts out w log x)" "ses_step x (x\<lparr>ses_needs_look := b\<rparr>)"
  by (simp_all add: ses_step_def arm_row_def overflow_row_def complete_row_def)

context tenant_contract
begin

lemma within_settleNeedsLook: "moves R (settleNeedsLook u run)"
  unfolding settleNeedsLook_def by (intro within_statements ses_step_triage_rows)

lemma within_lockTriageRow: "(\<And>s. R s (g s)) \<Longrightarrow> moves R (lockTriageRow g u k)"
  unfolding lockTriageRow_def by (intro within_statements) 

lemma within_beginSessionTriage:
  assumes "\<And>s. R s (g s)"
  shows "moves R (beginSessionTriage g u k opts)"
  unfolding beginSessionTriage_def armAttempt_def hasUntriagedEvent_def Let_def
  by (auto intro!: within_statements within_lockTriageRow assms ses_step_triage_rows
      split: entry_decision.split)

lemma within_completeSessionTriage:
  assumes "\<And>s. R s (g s)"
  shows "moves R (completeSessionTriage g u k opts)"
  unfolding completeSessionTriage_def Let_def
  by (intro within_statements within_lockTriageRow within_settleNeedsLook assms ses_step_triage_rows)

end

section \<open>Running the handshake\<close>

lemma lockTriageRow_run: "lockTriageRow g u k s = Inr (keyed_session u k (g s), g s)"
  by (simp add: lockTriageRow_def select_session_def keyed_session_def query_def)

lemma hasUntriagedSessionEvent_iff:
  "hasUntriagedSessionEvent s x \<longleftrightarrow>
   \<not> set (event_ids (ses_user x) (ses_id x) s) \<subseteq> set (ses_triaged_events x)"
  by (auto simp: hasUntriagedSessionEvent_def list_ex_iff event_ids_def run_events_def runPredicate_def)

lemma hasUntriagedEvent_run:
  assumes "constraints s" and "keyed_session u k s = Some row"
  shows "hasUntriagedEvent u (ses_id row) s = Inr (hasUntriagedSessionEvent s row, s)"
proof -
  have ok: "sessions_ok s" using assms(1) by (simp add: constraints_def)
  let ?q = "\<lambda>x. ses_user x = u \<and> ses_id x = ses_id row \<and> hasUntriagedSessionEvent s x"
  have one: "filter ?q (tbl_sessions s) = (if hasUntriagedSessionEvent s row then [row] else [])"
    by (rule filter_session_id [OF ok keyed_session_of [OF ok assms(2)]])
  have "(find_row ?q (tbl_sessions s) \<noteq> None) = hasUntriagedSessionEvent s row"
    unfolding find_row_def one by simp
  then show ?thesis by (simp add: hasUntriagedEvent_def query_def)
qed

lemma settleNeedsLook_run:
  "settleNeedsLook u i s =
     Inr ((), with_session u i (\<lambda>x. x\<lparr>ses_needs_look := hasUntriagedSessionEvent s x\<rparr>) s)"
  by (simp add: settleNeedsLook_def update_sessions_def with_session_def bind_tx_def query_def ret_def Let_def)

text \<open>The entry rule as a condition.\<close>

definition eligible_entry :: "agent_session \<Rightarrow> begin_options \<Rightarrow> bool \<Rightarrow> bool" where
  "eligible_entry row opts new \<longleftrightarrow> session_live row (bo_now opts) \<and>
     (ses_triage_status row = TrIdle \<and> (new \<or>
        th_min_turns (bo_thresholds opts) \<le> (case bo_turns opts of None \<Rightarrow> 0 | Some n \<Rightarrow> n) \<or>
        th_min_elapsed (bo_thresholds opts) \<le> bo_now opts - ses_opened_at row)
      \<or> ses_triage_status row \<in> {TrCompleted, TrExpired} \<and> new)"

lemma entry_arms: "evaluateTriageEntry (entry_of opts row new) = Arm \<longleftrightarrow> eligible_entry row opts new"
  by (cases "ses_triage_status row")
    (auto simp: evaluateTriageEntry_def entry_of_def eligible_entry_def Let_def split: option.splits)

lemma entry_pending:
  "evaluateTriageEntry (entry_of opts row new) = Decline PendingAttempt \<longleftrightarrow>
     session_live row (bo_now opts) \<and> ses_triage_status row = TrPending \<and>
     (bo_stop_hook opts = Some True \<or> (case ses_triage_armed_at row of None \<Rightarrow> True
        | Some t \<Rightarrow> th_min_attempt_age (bo_thresholds opts) \<le> bo_now opts - t))"
  by (cases "ses_triage_status row"; cases "ses_triage_armed_at row")
    (auto simp: evaluateTriageEntry_def entry_of_def Let_def)

lemma beginSessionTriage_run:
  assumes "constraints (g s)" and "keyed_session u k (g s) = Some row"
  shows "beginSessionTriage g u k opts s = (let t = g s; new = hasUntriagedSessionEvent t row in
     case evaluateTriageEntry (entry_of opts row new) of
       Decline reason \<Rightarrow> Inr (\<lparr>br_run = ses_id row, br_armed = False,
         br_attempt = (if reason = PendingAttempt then ses_triage_attempt row else None),
         br_status = ses_triage_status row, br_reason = Some reason\<rparr>, t)
     | Arm \<Rightarrow> armAttempt u k row opts t)"
proof -
  let ?needs = "session_live row (bo_now opts) \<and> ses_triage_status row \<noteq> TrOverflowed \<and>
    ses_triage_status row \<noteq> TrPending"
  have unused: "\<not> ?needs \<Longrightarrow> evaluateTriageEntry (entry_of opts row False) = evaluateTriageEntry (entry_of opts row b)"
    for b
    by (cases "ses_triage_status row"; cases "ses_triage_armed_at row")
      (simp_all add: evaluateTriageEntry_def entry_of_def)
  have probe: "bind_tx (hasUntriagedEvent u (ses_id row)) m (g s) = m (hasUntriagedSessionEvent (g s) row) (g s)"
    for m :: "bool \<Rightarrow> begin_result stm"
    by (simp add: bind_tx_def hasUntriagedEvent_run [OF assms])
  have lock: "bind_tx (lockTriageRow g u k) m s = m (Some row) (g s)" for m :: "_ \<Rightarrow> begin_result stm"
    by (simp add: bind_tx_def lockTriageRow_run assms(2))
  show ?thesis
    using unused [of "hasUntriagedSessionEvent (g s) row"]
    by (cases ?needs) (auto simp: beginSessionTriage_def lock probe Let_def ret_run
        split: entry_decision.split)
qed

lemma armAttempt_run:
  assumes "constraints s" and "keyed_session u k s = Some row"
  shows "armAttempt u k row opts s = (let
      E = event_ids u (ses_id row) s;
      armedAt = (case bo_arm_now opts of None \<Rightarrow> bo_now opts | Some t \<Rightarrow> t) in
    if ceiling_of (bo_ceiling opts) < length E
    then Inr (\<lparr>br_run = ses_id row, br_armed = False, br_attempt = None, br_status = TrOverflowed,
        br_reason = Some OverflowedNow\<rparr>, with_session u (ses_id row) overflow_row s)
    else Inr (\<lparr>br_run = ses_id row, br_armed = True, br_attempt = Some (bo_attempt opts),
        br_status = TrPending, br_reason = None\<rparr>,
      with_session u (ses_id row) (arm_row (bo_attempt opts) armedAt E (ses_attempt_log row)) s))"
proof -
  have ok: "sessions_ok s" using assms(1) by (simp add: constraints_def)
  note listed = visible_ids [OF assms(1), of u "ses_id row" "ceiling_of (bo_ceiling opts)"]
  show ?thesis
    by (simp add: armAttempt_def listed Let_def ret_def bind_update_key(1) [OF ok assms(2)])
qed

lemma begin_armed:
  assumes "constraints (g s)" and "keyed_session u k (g s) = Some row"
    and "beginSessionTriage g u k opts s = Inr (r, s')" and "br_armed r"
  shows "\<exists>at. s' = with_session u (ses_id row)
    (arm_row (bo_attempt opts) at (event_ids u (ses_id row) (g s)) (ses_attempt_log row)) (g s)"
  using assms(3,4)
  by (auto simp: beginSessionTriage_run [of g, OF assms(1,2)] armAttempt_run [OF assms(1,2)] Let_def
      split: if_splits entry_decision.splits)

text \<open>
  Arm or explain. With the row locked, \<open>begin\<close> arms exactly when the session is live, its triage
  state admits an entry (\<open>idle\<close> with substance, \<open>completed\<close> or \<open>expired\<close> with new signal) and its
  events fit the ceiling; then the row is \<open>pending\<close> under the caller's token with every event of the
  run in the watermark. A run past the ceiling is stamped \<open>overflowed\<close>. Every other answer leaves
  the store as it is, and the only other token it hands out is that of an attempt that is pending and
  old enough to finalize.
\<close>

theorem begin_arms_or_declines:
  assumes "constraints (g s)" and "keyed_session u k (g s) = Some row"
    and "beginSessionTriage g u k opts s = Inr (r, s')"
  shows "let E = event_ids u (ses_id row) (g s);
      new = (\<not> set E \<subseteq> set (ses_triaged_events row));
      fits = (length E \<le> ceiling_of (bo_ceiling opts));
      armedAt = (case bo_arm_now opts of None \<Rightarrow> bo_now opts | Some t \<Rightarrow> t) in
    (br_armed r \<longleftrightarrow> eligible_entry row opts new \<and> fits) \<and>
    (br_armed r \<longrightarrow> br_attempt r = Some (bo_attempt opts) \<and>
       s' = with_session u (ses_id row) (arm_row (bo_attempt opts) armedAt E (ses_attempt_log row)) (g s)) \<and>
    (\<not> br_armed r \<longrightarrow> s' = (if eligible_entry row opts new
       then with_session u (ses_id row) overflow_row (g s) else g s)) \<and>
    (\<forall>a. \<not> br_armed r \<longrightarrow> br_attempt r = Some a \<longrightarrow>
       ses_triage_status row = TrPending \<and> ses_triage_attempt row = Some a \<and>
       (bo_stop_hook opts = Some True \<or> (case ses_triage_armed_at row of None \<Rightarrow> True
          | Some t \<Rightarrow> th_min_attempt_age (bo_thresholds opts) \<le> bo_now opts - t)))"
proof -
  have own: "ses_user row = u" using keyed_session_Some [OF assms(2)] by simp
  let ?new = "hasUntriagedSessionEvent (g s) row"
  have new: "?new \<longleftrightarrow> \<not> set (event_ids u (ses_id row) (g s)) \<subseteq> set (ses_triaged_events row)"
    by (simp add: hasUntriagedSessionEvent_iff own)
  show ?thesis
  proof (cases "evaluateTriageEntry (entry_of opts row ?new)")
    case Arm
    then have "eligible_entry row opts ?new" by (simp add: entry_arms)
    with Arm assms(3) show ?thesis unfolding Let_def new [symmetric]
      by (auto simp: beginSessionTriage_run [of g, OF assms(1,2)] armAttempt_run [OF assms(1,2)] Let_def
          split: if_splits)
  next
    case (Decline reason)
    then have no: "\<not> eligible_entry row opts ?new" by (metis entry_arms entry_decision.distinct(1))
    have pending: "reason = PendingAttempt \<Longrightarrow> ses_triage_status row = TrPending \<and>
       (bo_stop_hook opts = Some True \<or> (case ses_triage_armed_at row of None \<Rightarrow> True
          | Some t \<Rightarrow> th_min_attempt_age (bo_thresholds opts) \<le> bo_now opts - t))"
      using Decline entry_pending [of opts row ?new] by simp
    from Decline assms(3) no pending show ?thesis unfolding Let_def new [symmetric]
      by (auto simp: beginSessionTriage_run [of g, OF assms(1,2)] Let_def split: if_splits)
  qed
qed

section \<open>Completing an attempt\<close>

lemma hasUntriaged_cong: "tbl_events s = tbl_events t \<Longrightarrow> hasUntriagedSessionEvent s x = hasUntriagedSessionEvent t x"
  by (simp add: hasUntriagedSessionEvent_def)

lemma event_ids_cong: "tbl_events s = tbl_events t \<Longrightarrow> event_ids u i s = event_ids u i t"
  by (simp add: event_ids_def run_events_def select_events_def)

text \<open>What a complete computes from the row and the run's events.\<close>

definition since_begin :: "agent_session \<Rightarrow> rid list \<Rightarrow> rid list" where
  "since_begin row ids = filter (\<lambda>i. i \<notin> set (ses_triaged_events row)) ids"

definition verdict_of :: "complete_options \<Rightarrow> agent_session \<Rightarrow> rid list \<Rightarrow> triage_outcome" where
  "verdict_of opts row E = complete_outcome (ceiling_of (co_ceiling opts) < length E)
     (co_defensive opts = Some True) (since_begin row (take (ceiling_of (co_ceiling opts)) E))"

definition watermark_of :: "complete_options \<Rightarrow> agent_session \<Rightarrow> rid list \<Rightarrow> rid list" where
  "watermark_of opts row E = (if co_defensive opts = Some True then ses_triaged_events row
     else take MAX_SESSION_EVENT_IDS (take (ceiling_of (co_ceiling opts)) E))"

definition settled_row :: "store \<Rightarrow> complete_options \<Rightarrow> agent_session \<Rightarrow> agent_session" where
  "settled_row t opts row = (let E = event_ids (ses_user row) (ses_id row) t;
     y = complete_row opts (verdict_of opts row E) (watermark_of opts row E) (ses_attempt_log row) row
   in y\<lparr>ses_needs_look := hasUntriagedSessionEvent t y\<rparr>)"

lemma settled_row_simps [simp]:
  "ses_id (settled_row t opts row) = ses_id row" "ses_user (settled_row t opts row) = ses_user row"
  "ses_triage_status (settled_row t opts row) =
     outcome_status (verdict_of opts row (event_ids (ses_user row) (ses_id row) t))"
  "ses_triaged_events (settled_row t opts row) =
     watermark_of opts row (event_ids (ses_user row) (ses_id row) t)"
  by (simp_all add: settled_row_def complete_row_def Let_def)

lemma with_session_cong:
  assumes "sessions_ok s" and "session_of u i s = Some x" and "f x = h x"
  shows "with_session u i f s = with_session u i h s"
proof -
  have "y = x" if "y \<in> set (tbl_sessions s)" "ses_user y = u" "ses_id y = i" for y
    using that session_of_iff [OF assms(1), of u i y] assms(2) by simp
  with assms(3) have "map (\<lambda>r. if ses_user r = u \<and> ses_id r = i then f r else r) (tbl_sessions s) =
      map (\<lambda>r. if ses_user r = u \<and> ses_id r = i then h r else r) (tbl_sessions s)" by auto
  then show ?thesis by (simp add: with_session_def sql_update_def)
qed

lemma completeSessionTriage_run:
  assumes "constraints (g s)"
  shows "completeSessionTriage g u k opts s = (case keyed_session u k (g s) of
      None \<Rightarrow> Inl (NotFound k)
    | Some row \<Rightarrow> if ses_triage_status row \<noteq> TrPending \<or> ses_triage_attempt row \<noteq> Some (co_attempt opts)
        then Inl (TriageConflictOn k (co_attempt opts))
        else let E = event_ids u (ses_id row) (g s) in
          Inr (\<lparr>tc_run = ses_id row, tc_outcome = verdict_of opts row E,
            tc_event_count = length (watermark_of opts row E),
            tc_since_begin = length (since_begin row (take (ceiling_of (co_ceiling opts)) E)),
            tc_truncated = (ceiling_of (co_ceiling opts) < length E)\<rparr>,
            with_session u (ses_id row) (settled_row (g s) opts) (g s)))"
proof (cases "keyed_session u k (g s)")
  case None
  then show ?thesis by (simp add: completeSessionTriage_def bind_tx_def lockTriageRow_run throw_def)
next
  case (Some row)
  have ok: "sessions_ok (g s)" using assms by (simp add: constraints_def)
  have own: "ses_user row = u" using keyed_session_Some [OF Some] by simp
  have lock: "bind_tx (lockTriageRow g u k) m s = m (Some row) (g s)" for m :: "_ \<Rightarrow> complete_result stm"
    by (simp add: bind_tx_def lockTriageRow_run Some)
  show ?thesis
  proof (cases "ses_triage_status row \<noteq> TrPending \<or> ses_triage_attempt row \<noteq> Some (co_attempt opts)")
    case True
    then show ?thesis by (auto simp: completeSessionTriage_def lock throw_run Some)
  next
    case False
    let ?E = "event_ids u (ses_id row) (g s)"
    let ?f = "complete_row opts (verdict_of opts row ?E) (watermark_of opts row ?E) (ses_attempt_log row)"
    let ?v = "with_session u (ses_id row) ?f (g s)"
    have "with_session u (ses_id row) (\<lambda>x. x\<lparr>ses_needs_look := hasUntriagedSessionEvent ?v x\<rparr>) ?v =
        with_session u (ses_id row) (settled_row (g s) opts) (g s)"
      unfolding with_session_twice [OF ses_step_triage_rows(3)]
      by (rule with_session_cong [OF ok keyed_session_of [OF ok Some]])
        (simp add: settled_row_def own Let_def hasUntriaged_cong [of ?v "g s"])
    then have settle: "bind_tx (settleNeedsLook u (ses_id row)) m ?v =
        m () (with_session u (ses_id row) (settled_row (g s) opts) (g s))" for m :: "_ \<Rightarrow> complete_result stm"
      by (simp add: bind_tx_def settleNeedsLook_run)
    have wm: "watermark_of opts row ?E = (if co_defensive opts = Some True then ses_triaged_events row
        else take (min MAX_SESSION_EVENT_IDS (ceiling_of (co_ceiling opts))) ?E)"
      by (simp add: watermark_of_def)
    note run = completeSessionTriage_def lock visible_ids [OF assms] Let_def Some ret_run
      bind_update_key(2) [OF ok Some]
    show ?thesis
    proof (cases "co_defensive opts = Some True")
      case True
      note settle' = settle [unfolded wm if_P [OF True]]
      have vd: "complete_outcome (ceiling_of (co_ceiling opts) < length ?E) True
          (since_begin row (take (ceiling_of (co_ceiling opts)) ?E)) = verdict_of opts row ?E"
        by (simp add: verdict_of_def True)
      from True False show ?thesis
        by (simp add: run wm settle' vd flip: since_begin_def)
    next
      case notdef: False
      note settle' = settle [unfolded wm if_not_P [OF notdef]]
      have vd: "complete_outcome (ceiling_of (co_ceiling opts) < length ?E) False
          (since_begin row (take (ceiling_of (co_ceiling opts)) ?E)) = verdict_of opts row ?E"
        by (simp add: verdict_of_def notdef)
      from notdef False show ?thesis
        by (simp add: run wm settle' vd flip: since_begin_def)
    qed
  qed
qed

lemma ses_step_settled_row: "ses_step x (settled_row t opts x)"
  by (simp add: settled_row_def complete_row_def ses_step_def Let_def)

lemma verdict_defensive: "co_defensive opts = Some True \<Longrightarrow> length E \<le> ceiling_of (co_ceiling opts) \<Longrightarrow>
    verdict_of opts row E = OutExpired"
  by (simp add: verdict_of_def complete_outcome_def)

text \<open>The triage columns of a run.\<close>

definition same_triage :: "agent_session \<Rightarrow> agent_session \<Rightarrow> bool" where
  "same_triage x y \<longleftrightarrow> ses_id x = ses_id y \<and> ses_triage_status x = ses_triage_status y \<and>
     ses_triage_attempt x = ses_triage_attempt y \<and> ses_triaged_events x = ses_triaged_events y"

text \<open>
  C24. The handshake. \<open>begin\<close> arms an attempt; the session writes on (\<open>es\<close>), possibly refreshing its
  lease; the hook then completes the attempt it was given. The verdict is \<open>completed\<close> exactly when one
  of those writes was attributed to the run, \<open>expired\<close> when none was or the hook showed no debrief, and
  a defensive complete leaves the writes outside the watermark, flagged for the closer.
\<close>

theorem handshake_outcome:
  assumes "constraints (g s)" and "beginSessionTriage g u k opts s = Inr (b, s1)" and "br_armed b"
    and "keyed_session u k s1 = Some x1"
    and "constraints (g2 s2)" and "keyed_session u k (g2 s2) = Some y" and "same_triage x1 y"
    and "tbl_events (g2 s2) = tbl_events s1 @ es"
    and "co_attempt copts = bo_attempt opts"
    and "length (event_ids u (ses_id y) (g2 s2)) \<le> ceiling_of (co_ceiling copts)"
  shows "\<exists>r s3 z. completeSessionTriage g2 u k copts s2 = Inr (r, s3) \<and> keyed_session u k s3 = Some z \<and>
    tc_outcome r = (if co_defensive copts \<noteq> Some True \<and> (\<exists>e \<in> set es. runPredicate u (ses_id y) e)
      then OutCompleted else OutExpired) \<and>
    ses_triage_status z = outcome_status (tc_outcome r) \<and>
    (co_defensive copts = Some True \<longrightarrow>
       (ses_needs_look z \<longleftrightarrow> (\<exists>e \<in> set es. runPredicate u (ses_id y) e)))"
proof -
  have ok: "sessions_ok (g s)" "sessions_ok (g2 s2)" using assms(1,5) by (simp_all add: constraints_def)
  obtain row where row: "keyed_session u k (g s) = Some row"
    using assms(2) by (cases "keyed_session u k (g s)")
      (auto simp: beginSessionTriage_def bind_tx_def lockTriageRow_run throw_def)
  let ?E1 = "event_ids u (ses_id row) (g s)" and ?E2 = "event_ids u (ses_id y) (g2 s2)"
  obtain at where s1: "s1 = with_session u (ses_id row) (arm_row (bo_attempt opts) at ?E1 (ses_attempt_log row)) (g s)"
    using begin_armed [OF assms(1) row assms(2,3)] by blast
  have x1: "x1 = arm_row (bo_attempt opts) at ?E1 (ses_attempt_log row) row"
    using assms(4) keyed_with_session [OF ok(1) row ses_step_triage_rows(1)] by (simp add: s1)
  have y: "ses_id y = ses_id row" "ses_triage_status y = TrPending" "ses_user y = u"
    "ses_triage_attempt y = Some (co_attempt copts)" "ses_triaged_events y = ?E1"
    using assms(7,9) keyed_session_Some [OF assms(6)] by (auto simp: same_triage_def x1 arm_row_def)
  have "distinct (map ev_id (tbl_events (g2 s2)))" using assms(5) by (simp add: constraints_def events_ok_def ids_ok_def)
  then have new: "ev_id e \<notin> set ?E1" if "e \<in> set es" for e
    using that by (auto simp: assms(8) s1 event_ids_def run_events_def)
  have E2: "set ?E2 = set ?E1 \<union> ev_id ` {e \<in> set es. runPredicate u (ses_id y) e}"
    by (auto simp: event_ids_def run_events_def assms(8) s1 y(1))
  have none: "since_begin y ?E2 = [] \<longleftrightarrow> \<not> (\<exists>e \<in> set es. runPredicate u (ses_id y) e)"
    using E2 new unfolding since_begin_def filter_empty_conv y(5) by fastforce
  have fits: "take (ceiling_of (co_ceiling copts)) ?E2 = ?E2" "\<not> ceiling_of (co_ceiling copts) < length ?E2"
    using assms(10) by simp_all
  have v: "verdict_of copts y ?E2 = (if co_defensive copts \<noteq> Some True \<and>
      (\<exists>e \<in> set es. runPredicate u (ses_id y) e) then OutCompleted else OutExpired)"
    using none fits by (simp add: verdict_of_def complete_outcome_def)
  let ?s3 = "with_session u (ses_id y) (settled_row (g2 s2) copts) (g2 s2)"
  have key: "keyed_session u k ?s3 = Some (settled_row (g2 s2) copts y)"
    by (rule keyed_with_session [OF ok(2) assms(6) ses_step_settled_row])
  have flag: "co_defensive copts = Some True \<Longrightarrow> ses_needs_look (settled_row (g2 s2) copts y) \<longleftrightarrow>
      (\<exists>e \<in> set es. runPredicate u (ses_id y) e)"
    using E2 new y(3,5)
    by (fastforce simp: settled_row_def complete_row_def Let_def hasUntriagedSessionEvent_iff watermark_of_def)
  show ?thesis
    using key flag v y by (simp add: completeSessionTriage_run [of g2, OF assms(5)] assms(6) Let_def)
qed

text \<open>
  No second verdict and no nag. Once an attempt is completed, and until the run writes again, every
  later \<open>begin\<close> declines without touching the store, whatever the turn count and however much time has
  passed, and every further \<open>complete\<close> is refused.
\<close>

theorem settled_run_is_left_alone:
  assumes "constraints (g s)" and "completeSessionTriage g u k opts s = Inr (r, s')"
    and "co_defensive opts \<noteq> Some True" and "tc_outcome r \<noteq> OutOverflowed"
    and "ceiling_of (co_ceiling opts) \<le> MAX_SESSION_EVENT_IDS"
    and "keyed_session u k s' = Some z" and "constraints t" and "keyed_session u k t = Some y"
    and "same_triage z y" and "event_ids u (ses_id y) t = event_ids u (ses_id y) s'"
  shows "(\<exists>r2. beginSessionTriage (\<lambda>s. s) u k bopts t = Inr (r2, t) \<and> \<not> br_armed r2 \<and>
      br_attempt r2 = None \<and> br_reason r2 \<in> {Some NotLive, Some NoSignal}) \<and>
    completeSessionTriage (\<lambda>s. s) u k copts t = Inl (TriageConflictOn k (co_attempt copts))"
proof -
  have ok: "sessions_ok (g s)" using assms(1) by (simp add: constraints_def)
  from assms(2) obtain row where row: "keyed_session u k (g s) = Some row"
    and s': "s' = with_session u (ses_id row) (settled_row (g s) opts) (g s)"
    and out: "tc_outcome r = verdict_of opts row (event_ids u (ses_id row) (g s))"
    by (auto simp: completeSessionTriage_run [of g, OF assms(1)] Let_def split: option.splits if_splits)
  let ?E = "event_ids u (ses_id row) (g s)"
  have own: "ses_user row = u" using keyed_session_Some [OF row] by simp
  have z: "z = settled_row (g s) opts row"
    using assms(6) keyed_with_session [OF ok row ses_step_settled_row] by (simp add: s')
  have fits: "\<not> ceiling_of (co_ceiling opts) < length ?E"
    using assms(4) by (auto simp: out verdict_of_def complete_outcome_def)
  have mark: "ses_triaged_events y = ?E" and st: "ses_triage_status y \<in> {TrCompleted, TrExpired}"
    and i: "ses_id y = ses_id row" and uy: "ses_user y = u"
    using assms(3-5,9) fits keyed_session_Some [OF assms(8)]
    by (auto simp: same_triage_def z own watermark_of_def out verdict_of_def complete_outcome_def
        split: if_splits)
  have same: "event_ids u (ses_id row) t = ?E"
    using assms(10) event_ids_cong [of s' "g s"] by (simp add: i s')
  have quiet: "\<not> hasUntriagedSessionEvent t y"
    by (simp add: hasUntriagedSessionEvent_iff i uy mark same)
  have "beginSessionTriage (\<lambda>s. s) u k bopts t = Inr (\<lparr>br_run = ses_id y, br_armed = False,
      br_attempt = None, br_status = ses_triage_status y,
      br_reason = Some (if session_live y (bo_now bopts) then NoSignal else NotLive)\<rparr>, t)"
    using st quiet assms(7)
    by (auto simp: beginSessionTriage_run [of "\<lambda>s. s", OF _ assms(8)] Let_def evaluateTriageEntry_def entry_of_def)
  moreover have "completeSessionTriage (\<lambda>s. s) u k copts t = Inl (TriageConflictOn k (co_attempt copts))"
    using st assms(7) by (auto simp: completeSessionTriage_run assms(8))
  ultimately show ?thesis by auto
qed

end
