(* ===== verification/SessionCloser.thy ===== *)
theory SessionCloser
  imports SessionTriage
begin

text \<open>
  The lease-expiry sweep and the closer's statements: \<open>packages/db/src/session-closer.ts\<close>. The sweep
  closes sessions that went quiet; the closer claims a closed run by compare-and-set on its attempt
  token, fenced on the activation epoch, and writes the terminal triage state back under both. An
  argument \<open>g\<close> is what other transactions commit between two statements of one body.
\<close>

definition SESSION_SWEEP_GRACE_MS :: int where "SESSION_SWEEP_GRACE_MS = 60 * 60 * 1000"
definition SESSION_EXCERPT_TTL_MS :: int where "SESSION_EXCERPT_TTL_MS = 7 * 24 * 60 * 60 * 1000"
definition MAX_SESSION_SWEEP_BATCH :: nat where "MAX_SESSION_SWEEP_BATCH = 100"
definition CLOSER_BACKOFF_BASE_MS :: int where "CLOSER_BACKOFF_BASE_MS = 20 * 60 * 1000"
definition CLOSER_BACKOFF_MAX_MS :: int where "CLOSER_BACKOFF_MAX_MS = 4 * 60 * 60 * 1000"
definition MAX_BACKOFF_EXPONENT :: nat where "MAX_BACKOFF_EXPONENT = 32"

definition CLOSER_ELIGIBLE_STATUSES :: "triage_status list" where
  "CLOSER_ELIGIBLE_STATUSES = [TrIdle, TrPending, TrExpired]"

text \<open>The reference curve; the statement below computes the same in SQL.\<close>

definition closerBackoffDelayMs :: "int \<Rightarrow> int" where
  "closerBackoffDelayMs failureCount =
     (let n = max 1 failureCount in min CLOSER_BACKOFF_MAX_MS (CLOSER_BACKOFF_BASE_MS * 2 ^ nat (n - 1)))"

definition sweepFloor :: "jsdate \<Rightarrow> jsdate" where
  "sweepFloor now = now - SESSION_LEASE_MS - SESSION_SWEEP_GRACE_MS"

section \<open>The lease-expiry sweep\<close>

record closer_candidate =
  cand_run :: rid
  cand_epoch :: nat

definition candidate_of :: "agent_session \<Rightarrow> closer_candidate" where
  "candidate_of x = \<lparr>cand_run = ses_id x, cand_epoch = ses_epoch x\<rparr>"

definition lapsed :: "jsdate \<Rightarrow> agent_session \<Rightarrow> bool" where
  "lapsed now x \<longleftrightarrow> ses_closed_at x = None \<and> ses_last_seen x < sweepFloor now"

definition sweepExpiredLeases ::
  "(store \<Rightarrow> store) \<Rightarrow> uid \<Rightarrow> jsdate \<Rightarrow> nat \<Rightarrow> closer_candidate list stm" where
  "sweepExpiredLeases g u now limit =
     bind_tx (query (\<lambda>s. take limit (sort_key ses_last_seen
       (filter (\<lambda>x. ses_user x = u \<and> lapsed now x) (tbl_sessions s))))) (\<lambda>stale.
     if stale = [] then ret []
     else bind_tx (wait_for g) (\<lambda>_.
       bind_tx (update_sessions u (\<lambda>x. lapsed now x \<and> ses_id x \<in> set (map ses_id stale))
         (\<lambda>x. x\<lparr>ses_closed_at := Some now\<rparr>)) (\<lambda>closed.
       ret (map candidate_of closed))))"

section \<open>Candidates\<close>

definition closerCandidatePredicate :: "store \<Rightarrow> uid \<Rightarrow> jsdate \<Rightarrow> agent_session \<Rightarrow> bool" where
  "closerCandidatePredicate s u now x \<longleftrightarrow> ses_user x = u \<and> ses_closed_at x \<noteq> None \<and>
     ses_triage_status x \<noteq> TrOverflowed \<and>
     (ses_triage_status x \<noteq> TrCompleted \<or> ses_needs_look x) \<and>
     (ses_triage_status x \<noteq> TrCompleted \<or> hasUntriagedSessionEvent s x) \<and>
     (case ses_closer_next_attempt x of None \<Rightarrow> True | Some t \<Rightarrow> t \<le> now)"

definition closed_instant :: "agent_session \<Rightarrow> jsdate" where
  "closed_instant x = (case ses_closed_at x of None \<Rightarrow> 0 | Some t \<Rightarrow> t)"

definition listCloserCandidates :: "uid \<Rightarrow> jsdate \<Rightarrow> nat \<Rightarrow> closer_candidate list stm" where
  "listCloserCandidates u now limit = query (\<lambda>s. map candidate_of (take limit (sort_key closed_instant
     (filter (closerCandidatePredicate s u now) (tbl_sessions s)))))"

record closer_session_row =
  csr_run :: rid
  csr_epoch :: nat
  csr_status :: triage_status
  csr_attempt :: "rid option"
  csr_triaged :: "rid list"
  csr_briefed :: "briefed_memory list"
  csr_excerpt :: "string option"
  csr_project :: "string option"
  csr_scope :: "string option"
  csr_closed_at :: "jsdate option"
  csr_last_seen :: jsdate

definition closer_row_of :: "agent_session \<Rightarrow> closer_session_row" where
  "closer_row_of x = \<lparr>csr_run = ses_id x, csr_epoch = ses_epoch x, csr_status = ses_triage_status x,
     csr_attempt = ses_triage_attempt x, csr_triaged = ses_triaged_events x, csr_briefed = ses_briefed x,
     csr_excerpt = ses_excerpt x, csr_project = ses_project x, csr_scope = ses_scope x,
     csr_closed_at = ses_closed_at x, csr_last_seen = ses_last_seen x\<rparr>"

definition readCloserSession :: "uid \<Rightarrow> rid \<Rightarrow> closer_session_row option stm" where
  "readCloserSession u run =
     bind_tx (select_session u (\<lambda>x. ses_id x = run)) (\<lambda>row. ret (map_option closer_row_of row))"

section \<open>Claim, finish, fail\<close>

record closer_claim =
  cl_run :: rid
  cl_epoch :: nat
  cl_observed :: "rid option"
  cl_attempt :: rid

definition claim_row :: "rid \<Rightarrow> agent_session \<Rightarrow> agent_session" where
  "claim_row a x = x\<lparr>ses_triage_attempt := Some a,
     ses_triage_status := (if ses_triage_status x = TrPending then TrExpired else ses_triage_status x)\<rparr>"

definition claimable :: "closer_claim \<Rightarrow> agent_session \<Rightarrow> bool" where
  "claimable c x \<longleftrightarrow> ses_epoch x = cl_epoch c \<and> ses_closed_at x \<noteq> None \<and>
     ses_triage_attempt x = cl_observed c \<and>
     ses_triage_status x \<in> set (CLOSER_ELIGIBLE_STATUSES @ [TrCompleted])"

definition claimSessionTriage :: "uid \<Rightarrow> closer_claim \<Rightarrow> bool stm" where
  "claimSessionTriage u c =
     bind_tx (update_sessions u (\<lambda>x. ses_id x = cl_run c \<and> claimable c x) (claim_row (cl_attempt c)))
       (\<lambda>rows. ret (length rows = 1))"

record closer_finish =
  cf_run :: rid
  cf_epoch :: nat
  cf_attempt :: rid
  cf_status :: triage_status
  cf_visible :: "rid list"
  cf_clear :: bool

definition finish_row :: "closer_finish \<Rightarrow> agent_session \<Rightarrow> agent_session" where
  "finish_row f x = (let y = x\<lparr>ses_triage_status := cf_status f,
     ses_triaged_events := take MAX_SESSION_EVENT_IDS (cf_visible f),
     ses_closer_failures := 0, ses_closer_next_attempt := None\<rparr>
   in if cf_clear f then y\<lparr>ses_excerpt := None\<rparr> else y)"

definition finishable :: "closer_finish \<Rightarrow> agent_session \<Rightarrow> bool" where
  "finishable f x \<longleftrightarrow> ses_epoch x = cf_epoch f \<and> ses_triage_attempt x = Some (cf_attempt f)"

definition finishSessionTriage :: "(store \<Rightarrow> store) \<Rightarrow> uid \<Rightarrow> closer_finish \<Rightarrow> bool stm" where
  "finishSessionTriage g u f =
     bind_tx (update_sessions u (\<lambda>x. ses_id x = cf_run f \<and> finishable f x) (finish_row f)) (\<lambda>rows.
     if length rows \<noteq> 1 then ret False
     else bind_tx (wait_for g) (\<lambda>_. bind_tx (settleNeedsLook u (cf_run f)) (\<lambda>_. ret True)))"

record closer_failure =
  fl_run :: rid
  fl_epoch :: nat
  fl_now :: jsdate

text \<open>Every expression of the SET list reads the old row, as one SQL UPDATE does.\<close>

definition failure_row :: "jsdate \<Rightarrow> agent_session \<Rightarrow> agent_session" where
  "failure_row now x = x\<lparr>ses_closer_failures := ses_closer_failures x + 1,
     ses_closer_next_attempt := Some (now + min CLOSER_BACKOFF_MAX_MS
       (CLOSER_BACKOFF_BASE_MS * 2 ^ min (ses_closer_failures x) MAX_BACKOFF_EXPONENT))\<rparr>"

definition recordCloserFailure :: "uid \<Rightarrow> closer_failure \<Rightarrow> unit stm" where
  "recordCloserFailure u f =
     bind_tx (update_sessions u (\<lambda>x. ses_id x = fl_run f \<and> ses_epoch x = fl_epoch f)
       (failure_row (fl_now f))) (\<lambda>_. ret ())"

section \<open>Excerpt retention\<close>

definition expireStaleExcerpts :: "(store \<Rightarrow> store) \<Rightarrow> uid \<Rightarrow> jsdate \<Rightarrow> nat \<Rightarrow> nat stm" where
  "expireStaleExcerpts g u before limit =
     bind_tx (query (\<lambda>s. take limit (sort_key ses_last_seen (filter (\<lambda>x. ses_user x = u \<and>
       ses_excerpt x \<noteq> None \<and> ses_closed_at x \<noteq> None \<and> ses_last_seen x < before) (tbl_sessions s))))) (\<lambda>stale.
     if stale = [] then ret 0
     else bind_tx (wait_for g) (\<lambda>_.
       bind_tx (update_sessions u (\<lambda>x. ses_excerpt x \<noteq> None \<and> ses_closed_at x \<noteq> None \<and>
           ses_id x \<in> set (map ses_id stale)) (\<lambda>x. x\<lparr>ses_excerpt := None\<rparr>)) (\<lambda>rows.
       ret (length rows))))"

section \<open>What the statements keep\<close>

lemma ses_step_closer_rows:
  "ses_step x (claim_row a x)" "ses_step x (finish_row f x)" "ses_step x (failure_row t x)"
  "ses_step x (x\<lparr>ses_closed_at := c\<rparr>)" "ses_step x (x\<lparr>ses_excerpt := e\<rparr>)"
  by (simp_all add: ses_step_def claim_row_def finish_row_def failure_row_def Let_def)

context tenant_contract
begin

lemma within_sweepExpiredLeases: "(\<And>s. R s (g s)) \<Longrightarrow> moves R (sweepExpiredLeases g u now limit)"
  unfolding sweepExpiredLeases_def by (intro within_statements ses_step_closer_rows)

lemma within_claimSessionTriage: "moves R (claimSessionTriage u c)"
  unfolding claimSessionTriage_def by (intro within_statements ses_step_closer_rows)

lemma within_finishSessionTriage: "(\<And>s. R s (g s)) \<Longrightarrow> moves R (finishSessionTriage g u f)"
  unfolding finishSessionTriage_def by (intro within_statements within_settleNeedsLook ses_step_closer_rows)

lemma within_recordCloserFailure: "moves R (recordCloserFailure u f)"
  unfolding recordCloserFailure_def by (intro within_statements ses_step_closer_rows)

lemma within_expireStaleExcerpts: "(\<And>s. R s (g s)) \<Longrightarrow> moves R (expireStaleExcerpts g u before limit)"
  unfolding expireStaleExcerpts_def by (intro within_statements ses_step_closer_rows)

end

section \<open>Running the statements\<close>

lemma claimSessionTriage_run:
  assumes "sessions_ok s"
  shows "claimSessionTriage u c s = (case session_of u (cl_run c) s of
      None \<Rightarrow> Inr (False, s)
    | Some x \<Rightarrow> if claimable c x then Inr (True, with_session u (cl_run c) (claim_row (cl_attempt c)) s)
        else Inr (False, s))"
  by (auto simp: claimSessionTriage_def bind_update_id [OF assms] ret_run split: option.splits)

lemma finishSessionTriage_run:
  assumes "sessions_ok s"
  shows "finishSessionTriage g u f s = (case session_of u (cf_run f) s of
      None \<Rightarrow> Inr (False, s)
    | Some x \<Rightarrow> if finishable f x then (let t = g (with_session u (cf_run f) (finish_row f) s) in
          Inr (True, with_session u (cf_run f) (\<lambda>y. y\<lparr>ses_needs_look := hasUntriagedSessionEvent t y\<rparr>) t))
        else Inr (False, s))"
  by (auto simp: finishSessionTriage_def bind_update_id [OF assms] ret_run Let_def
      bind_tx_run [OF settleNeedsLook_run] split: option.splits)

lemma recordCloserFailure_run:
  assumes "sessions_ok s"
  shows "recordCloserFailure u f s = (case session_of u (fl_run f) s of
      None \<Rightarrow> Inr ((), s)
    | Some x \<Rightarrow> if ses_epoch x = fl_epoch f
        then Inr ((), with_session u (fl_run f) (failure_row (fl_now f)) s) else Inr ((), s))"
  by (auto simp: recordCloserFailure_def bind_update_id [OF assms] ret_run split: option.splits)

lemma session_of_with_session_step:
  "sessions_ok s \<Longrightarrow> session_of u i s = Some x \<Longrightarrow> (\<And>y. ses_step y (f y)) \<Longrightarrow>
   session_of u i (with_session u i f s) = Some (f x)"
  by (simp add: session_of_with_session)

section \<open>The backoff\<close>

lemma backoff_saturates: "CLOSER_BACKOFF_MAX_MS \<le> CLOSER_BACKOFF_BASE_MS * 2 ^ n" if "32 \<le> n"
proof -
  have "(2 :: int) ^ 32 \<le> 2 ^ n" using that by (rule power_increasing) simp
  then have "CLOSER_BACKOFF_BASE_MS * 2 ^ 32 \<le> CLOSER_BACKOFF_BASE_MS * 2 ^ n"
    by (rule mult_left_mono) (simp add: CLOSER_BACKOFF_BASE_MS_def)
  moreover have "CLOSER_BACKOFF_MAX_MS \<le> CLOSER_BACKOFF_BASE_MS * 2 ^ 32"
    by (simp add: CLOSER_BACKOFF_MAX_MS_def CLOSER_BACKOFF_BASE_MS_def)
  ultimately show ?thesis by linarith
qed

lemma backoff_curve: "min CLOSER_BACKOFF_MAX_MS (CLOSER_BACKOFF_BASE_MS * 2 ^ min n MAX_BACKOFF_EXPONENT) =
    closerBackoffDelayMs (int (n + 1))"
proof (cases "n \<le> 32")
  case True
  then show ?thesis by (simp add: closerBackoffDelayMs_def MAX_BACKOFF_EXPONENT_def Let_def)
next
  case False
  then show ?thesis using backoff_saturates [of n] backoff_saturates [of 32]
    by (simp add: closerBackoffDelayMs_def MAX_BACKOFF_EXPONENT_def Let_def min_absorb1)
qed

lemma backoff_bounds: "CLOSER_BACKOFF_BASE_MS \<le> closerBackoffDelayMs n \<and> closerBackoffDelayMs n \<le> CLOSER_BACKOFF_MAX_MS"
proof -
  have "(1 :: int) \<le> 2 ^ nat (max 1 n - 1)" by simp
  then have "CLOSER_BACKOFF_BASE_MS * 1 \<le> CLOSER_BACKOFF_BASE_MS * 2 ^ nat (max 1 n - 1)"
    by (rule mult_left_mono) (simp add: CLOSER_BACKOFF_BASE_MS_def)
  then show ?thesis
    by (simp add: closerBackoffDelayMs_def Let_def min_def CLOSER_BACKOFF_BASE_MS_def CLOSER_BACKOFF_MAX_MS_def)
qed

text \<open>
  The failure stamp. Recorded at the epoch the pass observed, a failure counts one up from the row's
  current count and gates the run for exactly the delay of the reference curve, never less than twenty
  minutes nor more than four hours, however large the count; at any other epoch nothing is written.
\<close>

theorem failure_follows_the_curve:
  assumes "constraints s" and "session_of u (fl_run f) s = Some x"
  shows "\<exists>s'. recordCloserFailure u f s = Inr ((), s') \<and>
    (if ses_epoch x = fl_epoch f
     then (let d = closerBackoffDelayMs (int (ses_closer_failures x + 1)) in
       session_of u (fl_run f) s' = Some (x\<lparr>ses_closer_failures := ses_closer_failures x + 1,
         ses_closer_next_attempt := Some (fl_now f + d)\<rparr>) \<and>
       20 * 60 * 1000 \<le> d \<and> d \<le> 4 * 60 * 60 * 1000)
     else s' = s)"
proof -
  have ok: "sessions_ok s" using assms(1) by (simp add: constraints_def)
  have row: "failure_row (fl_now f) x = x\<lparr>ses_closer_failures := ses_closer_failures x + 1,
      ses_closer_next_attempt := Some (fl_now f + closerBackoffDelayMs (int (ses_closer_failures x + 1)))\<rparr>"
    unfolding failure_row_def backoff_curve ..
  have bounds: "20 * 60 * 1000 \<le> closerBackoffDelayMs n \<and> closerBackoffDelayMs n \<le> 4 * 60 * 60 * 1000" for n
    using backoff_bounds [of n] unfolding CLOSER_BACKOFF_BASE_MS_def CLOSER_BACKOFF_MAX_MS_def .
  show ?thesis
    using bounds session_of_with_session_step [OF ok assms(2) ses_step_closer_rows(3)]
    by (simp add: recordCloserFailure_run [OF ok] assms(2) row Let_def)
qed

section \<open>A swept close is an implicit close\<close>

lemma sweep_run:
  assumes "sweepExpiredLeases g u now limit s = Inr (cs, s')"
  shows "(cs = [] \<and> s' = s) \<or> (\<exists>I. let q = (\<lambda>x. ses_user x = u \<and> lapsed now x \<and> ses_id x \<in> I) in
      cs = map candidate_of (filter q (tbl_sessions (g s))) \<and>
      s' = (g s)\<lparr>tbl_sessions := sql_update q (\<lambda>x. x\<lparr>ses_closed_at := Some now\<rparr>) (tbl_sessions (g s))\<rparr>)"
proof -
  have "map candidate_of (sql_returning q (\<lambda>x. x\<lparr>ses_closed_at := Some now\<rparr>) xs) = map candidate_of (filter q xs)"
    for q xs by (simp add: sql_returning_def candidate_of_def)
  then show ?thesis using assms
    by (auto simp: sweepExpiredLeases_def update_sessions_def Let_def bind_tx_def query_def wait_for_def
        ret_def split: if_splits)
qed

text \<open>
  C25. The sweep decides on the rows as they are when it writes: every run it reports was open then and
  silent for more than lease plus grace, a session that sent a heartbeat or was closed while the sweep
  ran is left alone, and a swept close is implicit: the first write that names the run brings it back,
  open, at the next activation epoch.
\<close>

theorem swept_sessions_come_back:
  assumes "constraints (g s)" and "sweepExpiredLeases g u now limit s = Inr (cs, s')" and "c \<in> set cs"
    and "now \<le> later"
  shows "\<exists>x y. session_of u (cand_run c) (g s) = Some x \<and> ses_closed_at x = None \<and>
    ses_last_seen x + SESSION_LEASE_MS + SESSION_SWEEP_GRACE_MS < now \<and> cand_epoch c = ses_epoch x \<and>
    session_of u (cand_run c) s' = Some y \<and> ses_closed_at y = Some now \<and> ses_epoch y = ses_epoch x \<and>
    \<not> isExplicitClose (ses_closed_at y) (ses_last_seen y) \<and>
    (\<exists>s2 z. attachKnownRun no_gap u (cand_run c) later s' = Inr (Some (cand_run c), s2) \<and>
       session_of u (cand_run c) s2 = Some z \<and> ses_closed_at z = None \<and> ses_epoch z = cand_epoch c + 1)"
proof -
  have ok: "sessions_ok (g s)" using assms(1) by (simp add: constraints_def)
  let ?f = "\<lambda>x. x\<lparr>ses_closed_at := Some now\<rparr>"
  from sweep_run [OF assms(2)] assms(3) obtain I
    where cs: "cs = map candidate_of (filter (\<lambda>x. ses_user x = u \<and> lapsed now x \<and> ses_id x \<in> I) (tbl_sessions (g s)))"
      and s': "s' = (g s)\<lparr>tbl_sessions := sql_update (\<lambda>x. ses_user x = u \<and> lapsed now x \<and> ses_id x \<in> I) ?f
        (tbl_sessions (g s))\<rparr>"
    by (auto simp: Let_def)
  from cs assms(3) obtain x where x: "x \<in> set (tbl_sessions (g s))" "ses_user x = u" "lapsed now x" "ses_id x \<in> I"
    and c: "c = candidate_of x" by auto
  have row: "session_of u (ses_id x) (g s) = Some x" using x session_of_iff [OF ok] by simp
  have "session_of u (ses_id x) s' = map_option (\<lambda>r. if ses_user r = u \<and> lapsed now r \<and> ses_id r \<in> I then ?f r else r)
      (session_of u (ses_id x) (g s))"
    unfolding session_of_def s' by (simp add: find_row_update)
  with row x have row': "session_of u (ses_id x) s' = Some (?f x)" by simp
  have quiet: "ses_last_seen x + SESSION_LEASE_MS + SESSION_SWEEP_GRACE_MS < now" "ses_closed_at x = None"
    using x(3) by (auto simp: lapsed_def sweepFloor_def)
  then have implicit: "\<not> isExplicitClose (Some now) (ses_last_seen x)" "\<not> isLeased (ses_last_seen x) later"
    using assms(4) by (simp_all add: isExplicitClose_def isLeased_iff SESSION_SWEEP_GRACE_MS_def)
  then have "attachKnownRun no_gap u (ses_id x) later s' =
      Inr (Some (ses_id x), with_session u (ses_id x) (resurrect_row later) s')"
    using attachKnownRun_run [of no_gap u "ses_id x" later s'] row'
    by (simp add: numeral_3_eq_3 attach_loop_Suc Let_def)
  moreover have "session_of u (ses_id x) (with_session u (ses_id x) (resurrect_row later) s') =
      Some (resurrect_row later (?f x))"
    by (simp add: session_of_with_session ses_step_resurrect_row row')
  ultimately show ?thesis
    using row row' quiet implicit by (auto simp: c candidate_of_def resurrect_row_def)
qed

section \<open>The claim retires an abandoned handshake\<close>

text \<open>How a run can come back to life after a claim.\<close>

definition revivals :: "(agent_session \<Rightarrow> agent_session) set" where
  "revivals = {id} \<union> {heartbeat_row t | t. True} \<union> {resurrect_row t | t. True} \<union>
     {lease_row t r e | t r e. True} \<union> {open_row inp t r b | inp t r b. True}"

lemma revival_keeps:
  assumes "f \<in> revivals"
  shows "ses_step x (f x)" and "ses_triage_status x \<noteq> TrPending \<Longrightarrow> ses_triage_status (f x) \<noteq> TrPending"
proof -
  show "ses_step x (f x)"
    using assms by (auto simp: revivals_def ses_step_heartbeat_row ses_step_resurrect_row
        ses_step_lease_row ses_step_open_row)
  show "ses_triage_status x \<noteq> TrPending \<Longrightarrow> ses_triage_status (f x) \<noteq> TrPending"
    using assms by (auto simp: revivals_def heartbeat_row_def resurrect_row_def lease_row_def open_row_def
        rearmTriage_def briefingStamp_def Let_def split: option.splits if_splits)
qed

lemma complete_not_pending:
  "constraints s \<Longrightarrow> keyed_session u k s = Some x \<Longrightarrow> ses_triage_status x \<noteq> TrPending \<Longrightarrow>
   completeSessionTriage (\<lambda>s. s) u k opts s = Inl (TriageConflictOn k (co_attempt opts))"
  by (simp add: completeSessionTriage_run)

lemma begin_not_pending:
  "constraints s \<Longrightarrow> keyed_session u k s = Some x \<Longrightarrow> ses_triage_status x \<noteq> TrPending \<Longrightarrow>
   beginSessionTriage (\<lambda>s. s) u k opts s = Inr (r, s') \<Longrightarrow> br_attempt r \<noteq> None \<Longrightarrow>
   br_armed r \<and> br_attempt r = Some (bo_attempt opts)"
  by (auto simp: beginSessionTriage_run [of "\<lambda>s. s"] armAttempt_run Let_def evaluateTriageEntry_def entry_of_def
      split: if_splits)

text \<open>
  The closer takes a closed run over. Once its claim succeeds the run is no longer \<open>pending\<close>, and
  whatever then revives the session (a heartbeat, a resurrection, a resume), no late \<open>complete\<close> of any
  token is accepted, and no \<open>begin\<close> hands out a token other than the one it arms itself: the closer's
  token never enters the interactive handshake.
\<close>

theorem claim_retires_the_handshake:
  assumes "constraints s" and "claimSessionTriage u c s = Inr (True, s')" and "f \<in> revivals"
  shows "\<exists>x. session_of u (cl_run c) s = Some x \<and> ses_closed_at x \<noteq> None \<and> ses_epoch x = cl_epoch c \<and>
    (let t = with_session u (cl_run c) f s' in
     \<forall>k. naturalKeyPredicate k x \<longrightarrow>
       (\<forall>opts. completeSessionTriage (\<lambda>s. s) u k opts t = Inl (TriageConflictOn k (co_attempt opts))) \<and>
       (\<forall>opts r t'. beginSessionTriage (\<lambda>s. s) u k opts t = Inr (r, t') \<longrightarrow> br_attempt r \<noteq> None \<longrightarrow>
          br_armed r \<and> br_attempt r = Some (bo_attempt opts)))"
proof -
  have ok: "sessions_ok s" using assms(1) by (simp add: constraints_def)
  from assms(2) obtain x where x: "session_of u (cl_run c) s = Some x" "claimable c x"
    and s': "s' = with_session u (cl_run c) (claim_row (cl_attempt c)) s"
    by (auto simp: claimSessionTriage_run [OF ok] split: option.splits if_splits)
  let ?h = "f \<circ> claim_row (cl_attempt c)" and ?t = "with_session u (cl_run c) f s'"
  have t: "?t = with_session u (cl_run c) ?h s"
    unfolding s' by (rule with_session_twice [OF ses_step_closer_rows(1)])
  have step: "ses_step y (?h y)" for y
    using ses_step_trans [OF ses_step_closer_rows(1) revival_keeps(1) [OF assms(3)]] by simp
  have con: "constraints ?t" unfolding t by (rule constraints_with_session [OF assms(1) step])
  have npend: "ses_triage_status (?h x) \<noteq> TrPending"
    using revival_keeps(2) [OF assms(3), of "claim_row (cl_attempt c) x"] by (simp add: claim_row_def)
  have key: "keyed_session u k ?t = Some (?h x)" if "naturalKeyPredicate k x" for k
  proof -
    have mem: "x \<in> set (tbl_sessions s)" "ses_user x = u" "ses_id x = cl_run c" using x(1) ok by (simp_all add: session_of_iff)
    then have "keyed_session u k s = Some x" using that ok by (simp add: keyed_session_iff)
    then show ?thesis unfolding t using keyed_with_session [OF ok _ step] mem(3) by metis
  qed
  show ?thesis
    using x complete_not_pending [OF con key npend] begin_not_pending [OF con key npend]
    by (auto simp: claimable_def Let_def)
qed

section \<open>The flag the scan index rests on\<close>

text \<open>\<open>needs_look = false\<close> promises that a completed run has no event outside its watermark.\<close>

definition flag_promise :: "store \<Rightarrow> agent_session \<Rightarrow> bool" where
  "flag_promise s x \<longleftrightarrow> (ses_triage_status x = TrCompleted \<and> \<not> ses_needs_look x \<longrightarrow> \<not> hasUntriagedSessionEvent s x)"

lemma candidate_without_flag:
  "flag_promise s x \<Longrightarrow> closerCandidatePredicate s u now x \<longleftrightarrow> ses_user x = u \<and> ses_closed_at x \<noteq> None \<and>
     (ses_triage_status x \<in> set CLOSER_ELIGIBLE_STATUSES \<or>
      ses_triage_status x = TrCompleted \<and> hasUntriagedSessionEvent s x) \<and>
     (case ses_closer_next_attempt x of None \<Rightarrow> True | Some t \<Rightarrow> t \<le> now)"
  by (cases "ses_triage_status x")
    (auto simp: closerCandidatePredicate_def flag_promise_def CLOSER_ELIGIBLE_STATUSES_def)

text \<open>A finished run, with what was committed behind its back in the meantime.\<close>

definition finished_row :: "store \<Rightarrow> closer_finish \<Rightarrow> agent_session \<Rightarrow> agent_session" where
  "finished_row t f x = (finish_row f x)\<lparr>ses_needs_look := hasUntriagedSessionEvent t (finish_row f x)\<rparr>"

lemma hasUntriaged_needs_look [simp]:
  "hasUntriagedSessionEvent t (x\<lparr>ses_needs_look := b\<rparr>) = hasUntriagedSessionEvent t x"
  by (simp add: hasUntriagedSessionEvent_def)

lemma finished_flag: "flag_promise t (finished_row t f x)"
  by (simp add: flag_promise_def finished_row_def)

end
