(* ===== verification/ResolutionProposals.thy ===== *)
theory ResolutionProposals
  imports CommitmentService SessionCloser Complex_Main
begin

text \<open>
  The review layer for commitments the closer judged plausibly done
  (\<open>packages/db/src/resolution-proposals.ts\<close>) and its accept path
  (\<open>packages/core/src/admin/proposals.ts\<close>). The proposals table sits beside the store; an accept is
  three transactions: claim the proposal, resolve the commitment, and hand the claim back when the
  resolve failed.

  A probability is the exact value of its double, a rational.
\<close>

datatype proposal_status = Proposed | Applied | Rejected

record resolution_proposal =
  rp_id :: rid
  rp_user :: uid
  rp_memory :: rid
  rp_run :: rid
  rp_probability :: rat
  rp_status :: proposal_status
  rp_decided_at :: "instant option"
  rp_created_at :: instant

record review_store =
  rs_store :: store
  rs_proposals :: "resolution_proposal list"
  rs_next :: rid

type_synonym 'a review_tx = "(err, 'a, review_store) tx"

record proposal_write =
  pw_memory :: rid
  pw_probability :: rat

section \<open>Staging\<close>

definition PROPOSABLE_COMMITMENT_STATUSES :: "commitment_status list" where
  "PROPOSABLE_COMMITMENT_STATUSES = [StOpen, StWaiting]"

text \<open>The two unique indexes: one open proposal per commitment, one per run and commitment ever.\<close>

definition proposal_conflict :: "resolution_proposal \<Rightarrow> resolution_proposal \<Rightarrow> bool" where
  "proposal_conflict p q \<longleftrightarrow> rp_user p = rp_user q \<and> rp_memory p = rp_memory q \<and>
     (rp_run p = rp_run q \<or> rp_status p = Proposed \<and> rp_status q = Proposed)"

text \<open>One row of \<open>INSERT ... ON CONFLICT DO NOTHING\<close>: its id if it was inserted.\<close>

definition insert_proposal :: "resolution_proposal \<Rightarrow> rid option review_tx" where
  "insert_proposal row = (\<lambda>w.
     let p = row\<lparr>rp_id := rs_next w\<rparr> in
     if \<not> (0 \<le> rp_probability p \<and> rp_probability p \<le> 1) then Inl CheckViolation
     else if (\<exists>q \<in> set (rs_proposals w). proposal_conflict p q) then Inr (None, w)
     else if (rp_user p, rp_memory p) \<notin> mem_keys (tbl_memories (rs_store w)) \<or>
       session_of (rp_user p) (rp_run p) (rs_store w) = None then Inl ForeignKeyViolation
     else Inr (Some (rp_id p), w\<lparr>rs_proposals := rs_proposals w @ [p], rs_next := Suc (rs_next w)\<rparr>))"

definition proposal_row :: "instant \<Rightarrow> uid \<Rightarrow> rid \<Rightarrow> proposal_write \<Rightarrow> resolution_proposal" where
  "proposal_row t u run c = \<lparr>rp_id = 0, rp_user = u, rp_memory = pw_memory c, rp_run = run,
     rp_probability = pw_probability c, rp_status = Proposed, rp_decided_at = None, rp_created_at = t\<rparr>"

definition proposable :: "uid \<Rightarrow> rid list \<Rightarrow> store \<Rightarrow> rid list" where
  "proposable u ids s = map com_memory (filter (\<lambda>c. com_user c = u \<and> com_memory c \<in> set ids \<and>
     com_status c \<in> set PROPOSABLE_COMMITMENT_STATUSES) (tbl_commitments s))"

definition insertResolutionProposals :: "instant \<Rightarrow> uid \<Rightarrow> rid \<Rightarrow> proposal_write list \<Rightarrow> nat review_tx" where
  "insertResolutionProposals t u run candidates =
     (if candidates = [] then ret 0
      else bind_tx (query (\<lambda>w. proposable u (map pw_memory candidates) (rs_store w))) (\<lambda>live.
        let staged = filter (\<lambda>c. pw_memory c \<in> set live) candidates in
        if staged = [] then ret 0
        else bind_tx (for_each staged (\<lambda>c. insert_proposal (proposal_row t u run c))) (\<lambda>rows.
          ret (length (filter (\<lambda>r. r \<noteq> None) rows)))))"

section \<open>Deciding\<close>

definition is_open :: "uid \<Rightarrow> rid \<Rightarrow> resolution_proposal \<Rightarrow> bool" where
  "is_open u i p \<longleftrightarrow> rp_user p = u \<and> rp_id p = i \<and> rp_status p = Proposed"

definition update_proposals ::
  "(resolution_proposal \<Rightarrow> bool) \<Rightarrow> (resolution_proposal \<Rightarrow> resolution_proposal) \<Rightarrow>
   resolution_proposal list review_tx" where
  "update_proposals q f = (\<lambda>w. Inr (sql_returning q f (rs_proposals w),
     w\<lparr>rs_proposals := sql_update q f (rs_proposals w)\<rparr>))"

definition getOpenResolutionProposal :: "uid \<Rightarrow> rid \<Rightarrow> resolution_proposal review_tx" where
  "getOpenResolutionProposal u i = bind_tx (query (\<lambda>w. find_row (is_open u i) (rs_proposals w))) (\<lambda>row.
     case row of None \<Rightarrow> throw (ProposalNotFound i) | Some p \<Rightarrow> ret p)"

definition decide_row :: "instant \<Rightarrow> proposal_status \<Rightarrow> resolution_proposal \<Rightarrow> resolution_proposal" where
  "decide_row t st p = p\<lparr>rp_status := st, rp_decided_at := Some t\<rparr>"

definition decideResolutionProposal ::
  "instant \<Rightarrow> uid \<Rightarrow> rid \<Rightarrow> proposal_status \<Rightarrow> resolution_proposal review_tx" where
  "decideResolutionProposal t u i st =
     bind_tx (update_proposals (is_open u i) (decide_row t st)) (\<lambda>rows.
       case rows of [] \<Rightarrow> throw (ProposalNotFound i) | p # _ \<Rightarrow> ret p)"

definition reopen_row :: "resolution_proposal \<Rightarrow> resolution_proposal" where
  "reopen_row p = p\<lparr>rp_status := Proposed, rp_decided_at := None\<rparr>"

definition reopenResolutionProposal :: "uid \<Rightarrow> rid \<Rightarrow> unit review_tx" where
  "reopenResolutionProposal u i =
     bind_tx (\<lambda>w. let q = (\<lambda>p. rp_user p = u \<and> rp_id p = i \<and> rp_status p = Applied) in
       if \<exists>p \<in> set (rs_proposals w). q p \<and>
         (\<exists>r \<in> set (rs_proposals w). rp_id r \<noteq> i \<and> proposal_conflict (reopen_row p) r)
       then Inl UniqueViolation else update_proposals q reopen_row w) (\<lambda>_. ret ())"

definition countResolutionProposals :: "uid \<Rightarrow> proposal_status option \<Rightarrow> nat review_tx" where
  "countResolutionProposals u st = query (\<lambda>w. length (filter (\<lambda>p. rp_user p = u \<and>
     (case st of None \<Rightarrow> True | Some x \<Rightarrow> rp_status p = x)) (rs_proposals w)))"

section \<open>Accepting (packages/core/src/admin/proposals.ts)\<close>

record accepted_resolution =
  ar_proposal :: resolution_proposal
  ar_commitment :: rid
  ar_status :: commitment_status

text \<open>A step on the store alone, inside the review store.\<close>

definition on_store :: "(store \<Rightarrow> (err + 'a) \<times> store) \<Rightarrow> review_store \<Rightarrow> (err + 'a) \<times> review_store" where
  "on_store m w = (case m (rs_store w) of (r, s') \<Rightarrow> (r, w\<lparr>rs_store := s'\<rparr>))"

text \<open>\<open>rg k\<close> is what other reviewers' transactions commit before the \<open>k\<close>-th one of the accept.\<close>

definition acceptResolutionProposal ::
  "(nat \<Rightarrow> review_store \<Rightarrow> review_store) \<Rightarrow> world \<Rightarrow> instant \<Rightarrow> uid \<Rightarrow> rid \<Rightarrow> actor_kind \<Rightarrow> review_store \<Rightarrow>
   (err + accepted_resolution) \<times> review_store" where
  "acceptResolutionProposal rg w t u i a r0 =
     (case run_tx (decideResolutionProposal t u i Applied) (rg 0 r0) of
        (Inl e, r1) \<Rightarrow> (Inl e, r1)
      | (Inr p, r1) \<Rightarrow>
          (case on_store (resolveCommitmentByMemoryId w u (rp_memory p) a) (rg 1 r1) of
             (Inl e, r2) \<Rightarrow> (case run_tx (reopenResolutionProposal u i) (rg 2 r2) of
                 (Inl e', r3) \<Rightarrow> (Inl e', r3) | (Inr _, r3) \<Rightarrow> (Inl e, r3))
           | (Inr (c, st), r2) \<Rightarrow> (Inr \<lparr>ar_proposal = p, ar_commitment = c, ar_status = st\<rparr>, r2)))"

definition rejectResolutionProposal :: "instant \<Rightarrow> uid \<Rightarrow> rid \<Rightarrow> review_store \<Rightarrow> (err + resolution_proposal) \<times> review_store" where
  "rejectResolutionProposal t u i = run_tx (decideResolutionProposal t u i Rejected)"

section \<open>The unique indexes hold\<close>

text \<open>
  Every pair of proposals of a tenant and commitment is of different runs and not both open; ids are
  not reused; an open proposal carries no decision time.
\<close>

definition proposals_ok :: "review_store \<Rightarrow> bool" where
  "proposals_ok w \<longleftrightarrow> ids_ok rp_id (rs_proposals w) (rs_next w) \<and>
     (\<forall>p \<in> set (rs_proposals w). \<forall>q \<in> set (rs_proposals w). rp_id p \<noteq> rp_id q \<longrightarrow> \<not> proposal_conflict p q) \<and>
     (\<forall>p \<in> set (rs_proposals w). rp_status p = Proposed \<longrightarrow> rp_decided_at p = None)"

lemma conflict_sym: "proposal_conflict p q \<longleftrightarrow> proposal_conflict q p"
  by (auto simp: proposal_conflict_def)

lemma insert_proposal_ok:
  assumes "proposals_ok w" and "rp_decided_at row = None" and "insert_proposal row w = Inr (r, w')"
  shows "proposals_ok w' \<and> rs_store w' = rs_store w"
proof -
  let ?p = "row\<lparr>rp_id := rs_next w\<rparr>"
  consider "w' = w" | "w' = w\<lparr>rs_proposals := rs_proposals w @ [?p], rs_next := Suc (rs_next w)\<rparr>"
      "\<not> (\<exists>q \<in> set (rs_proposals w). proposal_conflict ?p q)"
    using assms(3) by (auto simp: insert_proposal_def Let_def split: if_splits)
  then show ?thesis
  proof cases
    case 2
    then have "ids_ok rp_id (rs_proposals w') (rs_next w')"
      using assms(1) by (simp add: proposals_ok_def ids_ok_snoc)
    with 2 assms(1,2) show ?thesis by (auto simp: proposals_ok_def conflict_sym)
  qed (use assms(1) in simp)
qed

lemma for_each_keeps:
  assumes "\<And>c w r w'. c \<in> set cs \<Longrightarrow> P w \<Longrightarrow> body c w = Inr (r, w') \<Longrightarrow> P w'"
    and "P w" and "for_each cs body w = Inr (rs, w')"
  shows "P w'"
  using assms
proof (induction cs arbitrary: w rs)
  case (Cons c cs)
  from Cons.prems(3) obtain r v rest where "body c w = Inr (r, v)" "for_each cs body v = Inr (rest, w')"
    by (auto simp: bind_tx_Inr)
  with Cons.prems(1) [of c w r v] Cons.prems(2) Cons.IH [of v rest] Cons.prems(1) show ?case by auto
qed simp

lemma fresh_undecided: "rp_decided_at (proposal_row t u run c) = None"
  by (simp add: proposal_row_def)

lemma insertResolutionProposals_ok:
  assumes "proposals_ok w" and "insertResolutionProposals t u run cs w = Inr (n, w')"
  shows "proposals_ok w' \<and> rs_store w' = rs_store w"
proof -
  have "proposals_ok w' \<and> rs_store w' = rs_store w"
    if "for_each ds (\<lambda>c. insert_proposal (proposal_row t u run c)) w = Inr (rs, w')" for ds rs
    by (rule for_each_keeps [where P = "\<lambda>v. proposals_ok v \<and> rs_store v = rs_store w", OF _ _ that])
      (use assms(1) in \<open>auto dest: insert_proposal_ok [rotated 2] simp: fresh_undecided\<close>)
  with assms show ?thesis
    by (auto simp: insertResolutionProposals_def Let_def bind_tx_Inr split: if_splits)
qed

section \<open>Accepting is all or nothing\<close>

lemma open_unique:
  "proposals_ok w \<Longrightarrow> p \<in> set (rs_proposals w) \<Longrightarrow> q \<in> set (rs_proposals w) \<Longrightarrow> rp_id p = rp_id q \<Longrightarrow> p = q"
  by (auto simp: proposals_ok_def ids_ok_def distinct_map inj_on_def)

lemma decide_run:
  "run_tx (decideResolutionProposal t u i st) w = (case find_row (is_open u i) (rs_proposals w) of
      None \<Rightarrow> (Inl (ProposalNotFound i), w)
    | Some p \<Rightarrow> (Inr (decide_row t st p), w\<lparr>rs_proposals := sql_update (is_open u i) (decide_row t st) (rs_proposals w)\<rparr>))"
proof (cases "find_row (is_open u i) (rs_proposals w)")
  case None
  then have "sql_returning (is_open u i) (decide_row t st) (rs_proposals w) = []"
    by (simp flip: sql_returning_find_None)
  with None show ?thesis
    by (simp add: run_tx_def decideResolutionProposal_def update_proposals_def bind_tx_def throw_def)
next
  case (Some p)
  then obtain rs where "sql_returning (is_open u i) (decide_row t st) (rs_proposals w) = decide_row t st p # rs"
    by (blast dest: sql_returning_find)
  with Some show ?thesis
    by (simp add: run_tx_def decideResolutionProposal_def update_proposals_def bind_tx_def ret_def)
qed

text \<open>Handing a claim back undoes it.\<close>

lemma reopen_undoes_decide:
  assumes "proposals_ok w" and "find_row (is_open u i) (rs_proposals w) = Some p"
    and "rs_proposals v = sql_update (is_open u i) (decide_row t Applied) (rs_proposals w)"
  shows "run_tx (reopenResolutionProposal u i) v = (Inr (), v\<lparr>rs_proposals := rs_proposals w\<rparr>)"
proof -
  from assms(2) have p: "p \<in> set (rs_proposals w)" "is_open u i p" by (auto dest: find_row_Some)
  let ?q = "\<lambda>p. rp_user p = u \<and> rp_id p = i \<and> rp_status p = Applied"
  let ?d = "\<lambda>r. if is_open u i r then decide_row t Applied r else r"
  have only: "r = p" if "r \<in> set (rs_proposals w)" "rp_id r = i" for r
    using open_unique [OF assms(1) that(1) p(1)] that(2) p(2) by (simp add: is_open_def)
  have undone: "(if ?q (?d r) then reopen_row (?d r) else ?d r) = r" if "r \<in> set (rs_proposals w)" for r
  proof (cases "rp_id r = i")
    case True
    then have "r = p" using that only by blast
    moreover have "rp_decided_at p = None" using assms(1) p by (simp add: proposals_ok_def is_open_def)
    ultimately show ?thesis using p(2) by (simp add: is_open_def decide_row_def reopen_row_def)
  qed (simp add: is_open_def)
  then have upd: "sql_update ?q reopen_row (rs_proposals v) = rs_proposals w"
    unfolding assms(3) sql_update_def map_map by (simp add: map_idI)
  have "\<not> proposal_conflict (reopen_row x) r" if "x \<in> set (rs_proposals v)" "?q x"
      "r \<in> set (rs_proposals v)" "rp_id r \<noteq> i" for x r
  proof -
    have "reopen_row x \<in> set (rs_proposals w)" "r \<in> set (rs_proposals w)" "rp_id (reopen_row x) = i"
      using that p unfolding upd [symmetric] by (auto simp: set_sql_update reopen_row_def)
    with assms(1) that(4) show ?thesis by (auto simp: proposals_ok_def)
  qed
  with upd show ?thesis
    by (auto simp: run_tx_def reopenResolutionProposal_def bind_tx_def update_proposals_def ret_def Let_def)
qed

text \<open>
  C26. Accepting a proposal, with no other reviewer in the way of its three transactions: it either
  succeeds, and then the commitment was resolved and the proposal is \<open>applied\<close> for good, or it fails and the
  proposals table is exactly as it was, the proposal still open for another decision; a proposal that
  is not open is refused with nothing written.
\<close>

theorem accept_is_all_or_nothing:
  assumes "proposals_ok r0" and "\<And>k r. rg k r = r"
    and "acceptResolutionProposal rg w t u i a r0 = (res, r1)"
  shows "case find_row (is_open u i) (rs_proposals r0) of
      None \<Rightarrow> res = Inl (ProposalNotFound i) \<and> r1 = r0
    | Some p \<Rightarrow> (case resolveCommitmentByMemoryId w u (rp_memory p) a (rs_store r0) of
        (Inl e, s') \<Rightarrow> res = Inl e \<and> r1 = r0\<lparr>rs_store := s'\<rparr>
      | (Inr (c, st), s') \<Rightarrow> res = Inr \<lparr>ar_proposal = decide_row t Applied p, ar_commitment = c, ar_status = st\<rparr> \<and>
          rs_store r1 = s' \<and> rs_proposals r1 = map (\<lambda>q. if q = p then decide_row t Applied q else q) (rs_proposals r0) \<and>
          run_tx (decideResolutionProposal t2 u i verdict) r1 = (Inl (ProposalNotFound i), r1))"
proof (cases "find_row (is_open u i) (rs_proposals r0)")
  case None
  with assms(2,3) show ?thesis by (simp add: acceptResolutionProposal_def decide_run)
next
  case (Some p)
  then have p: "p \<in> set (rs_proposals r0)" "is_open u i p" by (auto dest: find_row_Some)
  let ?r = "r0\<lparr>rs_proposals := sql_update (is_open u i) (decide_row t Applied) (rs_proposals r0)\<rparr>"
  have reopen: "run_tx (reopenResolutionProposal u i) (?r\<lparr>rs_store := s'\<rparr>) = (Inr (), r0\<lparr>rs_store := s'\<rparr>)" for s'
    using reopen_undoes_decide [OF assms(1) Some, of "?r\<lparr>rs_store := s'\<rparr>" t] by simp
  have eq: "is_open u i q \<longleftrightarrow> q = p" if "q \<in> set (rs_proposals r0)" for q
  proof
    assume "is_open u i q"
    with p(2) have "rp_id q = rp_id p" by (simp add: is_open_def)
    then show "q = p" by (rule open_unique [OF assms(1) that p(1)])
  qed (use p(2) in simp)
  then have upd: "sql_update (is_open u i) (decide_row t Applied) (rs_proposals r0) =
      map (\<lambda>q. if q = p then decide_row t Applied q else q) (rs_proposals r0)"
    unfolding sql_update_def by (intro map_cong refl) simp
  have gone: "find_row (is_open u i) (sql_update (is_open u i) (decide_row t Applied) (rs_proposals r0)) = None"
  proof -
    have "\<not> is_open u i (decide_row t Applied q)" for q by (simp add: is_open_def decide_row_def)
    then show ?thesis unfolding find_row_None set_sql_update by auto
  qed
  have again: "run_tx (decideResolutionProposal t2 u i verdict) (?r\<lparr>rs_store := s'\<rparr>) =
      (Inl (ProposalNotFound i), ?r\<lparr>rs_store := s'\<rparr>)" for s'
    using gone by (simp add: decide_run)
  have mem: "rp_memory (decide_row t Applied p) = rp_memory p" by (simp add: decide_row_def)
  obtain x s' where x: "resolveCommitmentByMemoryId w u (rp_memory p) a (rs_store r0) = (x, s')"
    by (rule prod.exhaust)
  have run: "(res, r1) = (case x of Inl e \<Rightarrow> (Inl e, r0\<lparr>rs_store := s'\<rparr>)
      | Inr (c, st) \<Rightarrow> (Inr \<lparr>ar_proposal = decide_row t Applied p, ar_commitment = c, ar_status = st\<rparr>,
          ?r\<lparr>rs_store := s'\<rparr>))"
    unfolding assms(3) [symmetric] acceptResolutionProposal_def assms(2) decide_run Some option.case prod.case
      sum.case mem on_store_def
    by (cases x) (simp_all add: x reopen split: prod.split)
  show ?thesis
  proof (cases x)
    case (Inl e)
    with run Some x show ?thesis by simp
  next
    case (Inr cst)
    obtain c st where "cst = (c, st)" by (rule prod.exhaust)
    with Inr run Some x again [of s'] upd show ?thesis by simp
  qed
qed

end
