(* ===== verification/Services.thy ===== *)
theory Services
  imports Store
begin

text \<open>
  Services of \<open>packages/core\<close>: a service runs several transactions one after another on a state
  \<open>'w\<close>, so when it throws it keeps what the earlier ones committed. The combinators are the control
  flow of the source's \<open>async\<close> functions; the locale \<open>svc_preorder\<close> lifts a relation that every step
  keeps to whole services.
\<close>

section \<open>Services: steps that may fail and keep what was committed\<close>

type_synonym ('a, 'w) svc = "'w \<Rightarrow> (err + 'a) \<times> 'w"

definition done_with :: "'a \<Rightarrow> ('a, 'w) svc" where
  "done_with a = (\<lambda>w. (Inr a, w))"

definition fail_with :: "err \<Rightarrow> ('a, 'w) svc" where
  "fail_with e = (\<lambda>w. (Inl e, w))"

definition and_then :: "('a, 'w) svc \<Rightarrow> ('a \<Rightarrow> ('b, 'w) svc) \<Rightarrow> ('b, 'w) svc" where
  "and_then m f = (\<lambda>w. case m w of (Inl e, v) \<Rightarrow> (Inl e, v) | (Inr a, v) \<Rightarrow> f a v)"

text \<open>\<open>m.catch(() => undefined)\<close>.\<close>

definition best_effort :: "('a, 'w) svc \<Rightarrow> (unit, 'w) svc" where
  "best_effort m = (\<lambda>w. (Inr (), snd (m w)))"

text \<open>\<open>try { m } finally { k }\<close>, for a \<open>k\<close> that does not throw.\<close>

definition finally_do :: "('a, 'w) svc \<Rightarrow> ('w \<Rightarrow> 'w) \<Rightarrow> ('a, 'w) svc" where
  "finally_do m k = (\<lambda>w. case m w of (r, v) \<Rightarrow> (r, k v))"

text \<open>A computed result.\<close>

definition of_sum :: "err + 'a \<Rightarrow> ('a, 'w) svc" where
  "of_sum r = (\<lambda>w. (r, w))"

section \<open>What a step keeps\<close>

definition keeps :: "('w \<Rightarrow> 'w \<Rightarrow> bool) \<Rightarrow> ('a, 'w) svc \<Rightarrow> bool" where
  "keeps R m \<longleftrightarrow> (\<forall>w. R w (snd (m w)))"

lemma and_then_run: "and_then m f w = (case m w of (Inl e, v) \<Rightarrow> (Inl e, v) | (Inr a, v) \<Rightarrow> f a v)"
  by (simp add: and_then_def)

lemma and_then_Inr: "and_then m f w = (Inr b, w') \<longleftrightarrow> (\<exists>a v. m w = (Inr a, v) \<and> f a v = (Inr b, w'))"
  by (auto simp: and_then_def split: prod.splits sum.splits)

text \<open>What it takes for a step to return.\<close>

lemma case_option_ret: "(case x of None \<Rightarrow> m | Some a \<Rightarrow> f a) w = (Inr r, w') \<longleftrightarrow>
    x = None \<and> m w = (Inr r, w') \<or> (\<exists>a. x = Some a \<and> f a w = (Inr r, w'))"
  by (cases x) auto

lemma of_sum_Inr: "of_sum x w = (Inr a, w') \<longleftrightarrow> x = Inr a \<and> w' = w"
  by (auto simp: of_sum_def)

lemma case_prod_ret: "(case x of (a, b) \<Rightarrow> f a b) w = (Inr r, w') \<longleftrightarrow> f (fst x) (snd x) w = (Inr r, w')"
  by (cases x) simp

lemma if_ret: "(if b then m else n) w = (Inr r, w') \<longleftrightarrow> b \<and> m w = (Inr r, w') \<or> \<not> b \<and> n w = (Inr r, w')"
  by simp

lemmas svc_Inr = and_then_Inr case_option_ret of_sum_Inr case_prod_ret if_ret

lemma done_with_eq [simp]: "done_with a w = (r, w') \<longleftrightarrow> r = Inr a \<and> w' = w"
  by (auto simp: done_with_def)

locale svc_preorder =
  fixes R :: "'w \<Rightarrow> 'w \<Rightarrow> bool"
  assumes refl: "R w w" and trans: "R w v \<Longrightarrow> R v z \<Longrightarrow> R w z"
begin

lemma keeps_basic: "keeps R (done_with a)" "keeps R (fail_with e)" "keeps R (of_sum r)"
  by (simp_all add: keeps_def done_with_def fail_with_def of_sum_def refl)

lemma keeps_and_then_result:
  "keeps R m \<Longrightarrow> (\<And>a w v. m w = (Inr a, v) \<Longrightarrow> keeps R (f a)) \<Longrightarrow> keeps R (and_then m f)"
  unfolding keeps_def and_then_def
  by (auto split: prod.split sum.split) (metis snd_conv trans)+

lemma keeps_and_then: "keeps R m \<Longrightarrow> (\<And>a. keeps R (f a)) \<Longrightarrow> keeps R (and_then m f)"
  by (rule keeps_and_then_result)

lemma keeps_best_effort: "keeps R m \<Longrightarrow> keeps R (best_effort m)"
  by (simp add: keeps_def best_effort_def)

lemma keeps_finally: "keeps R m \<Longrightarrow> (\<And>w. R w (k w)) \<Longrightarrow> keeps R (finally_do m k)"
  unfolding keeps_def finally_do_def by (auto split: prod.split) (metis snd_conv trans)

lemma keeps_if: "(b \<Longrightarrow> keeps R m) \<Longrightarrow> (\<not> b \<Longrightarrow> keeps R n) \<Longrightarrow> keeps R (if b then m else n)"
  by simp

lemma keeps_let: "keeps R (f a) \<Longrightarrow> keeps R (let x = a in f x)"
  by simp

lemma keeps_prod: "(\<And>a b. keeps R (f a b)) \<Longrightarrow> keeps R (case x of (a, b) \<Rightarrow> f a b)"
  by (cases x) simp

lemma keeps_option: "(x = None \<Longrightarrow> keeps R m) \<Longrightarrow> (\<And>a. x = Some a \<Longrightarrow> keeps R (f a)) \<Longrightarrow>
    keeps R (case x of None \<Rightarrow> m | Some a \<Rightarrow> f a)"
  by (cases x) simp_all

lemma keeps_sum: "(\<And>e. x = Inl e \<Longrightarrow> keeps R (m e)) \<Longrightarrow> (\<And>a. x = Inr a \<Longrightarrow> keeps R (f a)) \<Longrightarrow>
    keeps R (case x of Inl e \<Rightarrow> m e | Inr a \<Rightarrow> f a)"
  by (cases x) simp_all

lemmas keeps_basics = keeps_basic keeps_and_then keeps_best_effort keeps_if keeps_let keeps_prod
  keeps_option keeps_sum

end

end
