(* ===== verification/CloserPass.thy ===== *)
theory CloserPass
  imports ResolutionProposals Services
begin

text \<open>
  One closer pass over one closed run (\<open>packages/core/src/admin/session-closer.ts\<close>) with its
  classification step (\<open>session-closer-classify.ts\<close>, \<open>session-closer-judgment.ts\<close>, the verdict of
  \<open>session-closer-prompt.ts\<close>) and the sweep that feeds it (\<open>session-sweep.ts\<close>).

  As in the source the pass is written over an injected repository: a record of operations on a state
  \<open>'w\<close>, each its own transaction, so an operation that fails leaves what the earlier ones committed.
  \<open>dbSessionCloserRepo\<close> is the production repository over the modelled tables.

  Parameters of the model: the gateway (the model's reply and answers, as functions of what they are
  asked), the JSON parse of a reply and the budget reservation, all injected in the source too. The two
  prompts are passed to the gateway as the inputs of their renderers.
\<close>

section \<open>The repository\<close>

record closer_usage =
  cu_operation :: string
  cu_model :: string
  cu_input_tokens :: nat
  cu_output_tokens :: nat
  cu_cost :: "rat option"

record 'w closer_repo =
  readSession_op :: "uid \<Rightarrow> rid \<Rightarrow> (closer_session_row option, 'w) svc"
  listEvents_op :: "uid \<Rightarrow> rid \<Rightarrow> (session_event_row list \<times> bool, 'w) svc"
  claim_op :: "uid \<Rightarrow> closer_claim \<Rightarrow> (bool, 'w) svc"
  resolve_op :: "uid \<Rightarrow> rid \<Rightarrow> rid \<Rightarrow> nat \<Rightarrow> (closed_run_outcome, 'w) svc"
  propose_op :: "uid \<Rightarrow> rid \<Rightarrow> proposal_write list \<Rightarrow> (nat, 'w) svc"
  finish_op :: "uid \<Rightarrow> closer_finish \<Rightarrow> (bool, 'w) svc"
  recordUsage_op :: "uid \<Rightarrow> closer_usage \<Rightarrow> (unit, 'w) svc"
  currentEpoch_op :: "uid \<Rightarrow> rid \<Rightarrow> (nat option, 'w) svc"
  recordFailure_op :: "uid \<Rightarrow> closer_failure \<Rightarrow> (unit, 'w) svc"
  isJudgmentEnabled_op :: "uid \<Rightarrow> (bool, 'w) svc"

section \<open>The verdict\<close>

definition isCloserEligible :: "triage_status \<Rightarrow> rid list \<Rightarrow> rid list \<Rightarrow> bool" where
  "isCloserEligible st visible triaged =
     (if st \<in> set [TrIdle, TrPending, TrExpired] then True
      else if st \<noteq> TrCompleted then False
      else list_ex (\<lambda>i. i \<notin> set triaged) visible)"

text \<open>The ids a reply named, intersected with the briefed set: candidates without repeats, and the rest counted.\<close>

fun select_ids :: "rid list \<Rightarrow> rid list \<Rightarrow> rid list \<times> nat \<Rightarrow> rid list \<times> nat" where
  "select_ids briefed [] acc = acc"
| "select_ids briefed (i # is) (candidates, rejected) = select_ids briefed is
     (if i \<notin> set briefed then (candidates, rejected + 1)
      else if i \<in> set candidates then (candidates, rejected)
      else (candidates @ [i], rejected))"

definition selectResolvable ::
  "(string \<Rightarrow> rid list option) \<Rightarrow> string \<Rightarrow> briefed_memory list \<Rightarrow> err + rid list \<times> nat" where
  "selectResolvable parse reply briefed = (case parse reply of
       None \<Rightarrow> Inl (CloserVerdictError (length reply))
     | Some completed \<Rightarrow> Inr (select_ids (map bm_id briefed) completed ([], 0)))"

datatype decide_answer = Noul rat | OtherAnswer

text \<open>The doubles nearest to 0.9 and 0.5.\<close>

definition CLOSER_RESOLVE_PROBABILITY :: rat where
  "CLOSER_RESOLVE_PROBABILITY = 8106479329266893 / 9007199254740992"
definition CLOSER_PROPOSE_PROBABILITY :: rat where "CLOSER_PROPOSE_PROBABILITY = 1 / 2"

text \<open>The loop over the briefed rows; \<open>k\<close> is the position that names the question.\<close>

fun judge_rows :: "(nat \<Rightarrow> decide_answer option) \<Rightarrow> briefed_memory list \<Rightarrow> nat \<Rightarrow> rid list \<Rightarrow>
    rid list \<Rightarrow> proposal_write list \<Rightarrow> rid list \<times> proposal_write list" where
  "judge_rows answers [] k seen resolve propose = (resolve, propose)"
| "judge_rows answers (row # rows) k seen resolve propose =
     (if bm_id row \<in> set seen then judge_rows answers rows (Suc k) seen resolve propose
      else case answers k of
        Some (Noul p) \<Rightarrow>
          if CLOSER_RESOLVE_PROBABILITY \<le> p
          then judge_rows answers rows (Suc k) (bm_id row # seen) (resolve @ [bm_id row]) propose
          else if CLOSER_PROPOSE_PROBABILITY \<le> p
          then judge_rows answers rows (Suc k) (bm_id row # seen) resolve
            (propose @ [\<lparr>pw_memory = bm_id row, pw_probability = p\<rparr>])
          else judge_rows answers rows (Suc k) (bm_id row # seen) resolve propose
      | _ \<Rightarrow> judge_rows answers rows (Suc k) (bm_id row # seen) resolve propose)"

definition selectByJudgment ::
  "(nat \<Rightarrow> decide_answer option) \<Rightarrow> briefed_memory list \<Rightarrow> rid list \<times> proposal_write list" where
  "selectByJudgment answers briefed = judge_rows answers briefed 0 [] [] []"

section \<open>Classification\<close>

record prompt_input =
  pi_briefed :: "briefed_memory list"
  pi_kinds :: "event_kind list"
  pi_excerpt :: "string option"
  pi_project :: "string option"
  pi_scope :: "string option"

record completion =
  cp_text :: string
  cp_model :: string
  cp_usage :: "(nat \<times> nat) option"

record decision =
  dc_answers :: "nat \<Rightarrow> decide_answer option"
  dc_model :: string
  dc_usage :: "(nat \<times> nat) option"

record gateway =
  gw_complete :: "prompt_input \<Rightarrow> err + completion"
  gw_decide :: "prompt_input \<Rightarrow> err + decision"
  gw_parse :: "string \<Rightarrow> rid list option"

text \<open>An injected budget: reserve may refuse, release never fails.\<close>

record 'w budget_ops =
  bud_reserve :: "uid \<Rightarrow> string \<Rightarrow> (rid option, 'w) svc"
  bud_release :: "uid \<Rightarrow> rid option \<Rightarrow> 'w \<Rightarrow> 'w"

record closer_verdict =
  cv_candidates :: "rid list"
  cv_rejected :: nat
  cv_proposals :: "proposal_write list"

datatype 'a fenced = Fenced | Held 'a

text \<open>The rate table in USD per token; the rounding of doubles is not kept.\<close>

definition completionCostUsd :: "string \<Rightarrow> nat \<Rightarrow> nat \<Rightarrow> rat option" where
  "completionCostUsd model i n =
     (if model = ''gpt-4o-mini'' then Some (of_nat i * (15 / 100000000) + of_nat n * (6 / 10000000))
      else if model = ''gpt-4o'' then Some (of_nat i * (25 / 10000000) + of_nat n * (10 / 1000000))
      else None)"

definition CLOSER_OPERATION :: string where "CLOSER_OPERATION = ''session.closer''"
definition CLOSER_DECIDE_OPERATION :: string where "CLOSER_DECIDE_OPERATION = ''session.closer.decide''"

record 'w classify_call =
  kc_repo :: "'w closer_repo"
  kc_uid :: uid
  kc_run :: rid
  kc_gateway :: gateway
  kc_budget :: "'w budget_ops option"
  kc_session :: closer_session_row
  kc_kinds :: "event_kind list"

text \<open>Reserve, re-check the epoch, send, release however it settles.\<close>

definition meteredCall :: "'w classify_call \<Rightarrow> string \<Rightarrow> ('a, 'w) svc \<Rightarrow> ('a fenced, 'w) svc" where
  "meteredCall call operation send = (let
     u = kc_uid call;
     body = and_then (currentEpoch_op (kc_repo call) u (kc_run call)) (\<lambda>ep.
       if ep \<noteq> Some (csr_epoch (kc_session call)) then done_with Fenced
       else and_then send (\<lambda>a. done_with (Held a)))
   in case kc_budget call of
        None \<Rightarrow> body
      | Some b \<Rightarrow> and_then (bud_reserve b u operation) (\<lambda>h. finally_do body (bud_release b u h)))"

definition prompt_of :: "'w classify_call \<Rightarrow> prompt_input" where
  "prompt_of call = \<lparr>pi_briefed = csr_briefed (kc_session call), pi_kinds = kc_kinds call,
     pi_excerpt = csr_excerpt (kc_session call), pi_project = csr_project (kc_session call),
     pi_scope = csr_scope (kc_session call)\<rparr>"

definition usage_row :: "string \<Rightarrow> string \<Rightarrow> (nat \<times> nat) option \<Rightarrow> rat option \<Rightarrow> closer_usage" where
  "usage_row operation model usage cost = \<lparr>cu_operation = operation, cu_model = model,
     cu_input_tokens = (case usage of None \<Rightarrow> 0 | Some (i, n) \<Rightarrow> i),
     cu_output_tokens = (case usage of None \<Rightarrow> 0 | Some (i, n) \<Rightarrow> n), cu_cost = cost\<rparr>"

definition classifyByCompletion :: "'w classify_call \<Rightarrow> (closer_verdict fenced, 'w) svc" where
  "classifyByCompletion call =
     and_then (meteredCall call CLOSER_OPERATION
       (and_then (of_sum (gw_complete (kc_gateway call) (prompt_of call))) (\<lambda>result.
        and_then (best_effort (recordUsage_op (kc_repo call) (kc_uid call)
          (usage_row CLOSER_OPERATION (cp_model result) (cp_usage result)
            (case cp_usage result of None \<Rightarrow> None | Some (i, n) \<Rightarrow> completionCostUsd (cp_model result) i n)))) (\<lambda>_.
        done_with result)))) (\<lambda>completion.
     case completion of
       Fenced \<Rightarrow> done_with Fenced
     | Held result \<Rightarrow> and_then (of_sum (selectResolvable (gw_parse (kc_gateway call)) (cp_text result)
           (csr_briefed (kc_session call)))) (\<lambda>sel.
         done_with (Held \<lparr>cv_candidates = fst sel, cv_rejected = snd sel, cv_proposals = []\<rparr>)))"

text \<open>\<open>None\<close> is the fallback to the completion path.\<close>

definition classifyByJudgment :: "'w classify_call \<Rightarrow> (closer_verdict fenced option, 'w) svc" where
  "classifyByJudgment call =
     and_then (meteredCall call CLOSER_DECIDE_OPERATION
       (and_then (isJudgmentEnabled_op (kc_repo call) (kc_uid call)) (\<lambda>enabled.
        if \<not> enabled then done_with None
        else (case gw_decide (kc_gateway call) (prompt_of call) of
            Inl e \<Rightarrow> if e = NotImplemented then done_with None else fail_with e
          | Inr result \<Rightarrow>
              and_then (best_effort (recordUsage_op (kc_repo call) (kc_uid call)
                (usage_row CLOSER_DECIDE_OPERATION (dc_model result) (dc_usage result) None))) (\<lambda>_.
              done_with (Some result)))))) (\<lambda>decided.
     case decided of
       Fenced \<Rightarrow> done_with (Some Fenced)
     | Held None \<Rightarrow> done_with None
     | Held (Some result) \<Rightarrow> (case selectByJudgment (dc_answers result) (csr_briefed (kc_session call)) of
         (resolve, propose) \<Rightarrow> done_with (Some (Held
           \<lparr>cv_candidates = resolve, cv_rejected = 0, cv_proposals = propose\<rparr>))))"

definition classify :: "'w classify_call \<Rightarrow> (closer_verdict fenced, 'w) svc" where
  "classify call =
     and_then (isJudgmentEnabled_op (kc_repo call) (kc_uid call)) (\<lambda>enabled.
     if enabled then and_then (classifyByJudgment call) (\<lambda>verdict. case verdict of
         Some v \<Rightarrow> done_with v | None \<Rightarrow> classifyByCompletion call)
     else classifyByCompletion call)"

section \<open>The pass\<close>

datatype skip_reason = NotFoundSkip | NotEligible | NotClosed | ClaimLost | FencedSkip | OverflowedSkip
  | NothingBriefed | NoGateway

record closer_result =
  cx_run :: rid
  cx_skipped :: "skip_reason option"
  cx_candidates :: nat
  cx_rejected :: nat
  cx_resolved :: nat
  cx_skipped_candidates :: nat
  cx_proposed :: "nat option"

definition skip_result :: "rid \<Rightarrow> skip_reason \<Rightarrow> closer_result" where
  "skip_result run reason = \<lparr>cx_run = run, cx_skipped = Some reason, cx_candidates = 0, cx_rejected = 0,
     cx_resolved = 0, cx_skipped_candidates = 0, cx_proposed = None\<rparr>"

record 'w closer_options =
  op_gateway :: "gateway option"
  op_attempt :: rid
  op_budget :: "'w budget_ops option"
  op_now :: jsdate
  op_last_attempt :: bool

fun resolveCandidates :: "'w closer_repo \<Rightarrow> uid \<Rightarrow> rid \<Rightarrow> nat \<Rightarrow> rid list \<Rightarrow> nat \<Rightarrow> nat \<Rightarrow> (nat \<times> nat \<times> bool, 'w) svc" where
  "resolveCandidates repo u run ep [] resolved skipped = done_with (resolved, skipped, False)"
| "resolveCandidates repo u run ep (m # ms) resolved skipped =
     and_then (currentEpoch_op repo u run) (\<lambda>cur.
     if cur \<noteq> Some ep then done_with (resolved, skipped, True)
     else and_then (resolve_op repo u m run ep) (\<lambda>outcome.
       if outcome = EpochFenced then done_with (resolved, skipped, True)
       else if outcome = Resolved then resolveCandidates repo u run ep ms (resolved + 1) skipped
       else resolveCandidates repo u run ep ms resolved (skipped + 1)))"

definition stageProposals :: "'w closer_repo \<Rightarrow> uid \<Rightarrow> rid \<Rightarrow> nat \<Rightarrow> proposal_write list \<Rightarrow> (nat fenced, 'w) svc" where
  "stageProposals repo u run ep proposals =
     (if proposals = [] then done_with (Held 0)
      else and_then (currentEpoch_op repo u run) (\<lambda>cur.
        if cur \<noteq> Some ep then done_with Fenced
        else and_then (propose_op repo u run proposals) (\<lambda>n. done_with (Held n))))"

definition settleWithoutWork ::
  "'w closer_repo \<Rightarrow> uid \<Rightarrow> rid \<Rightarrow> closer_session_row \<Rightarrow> rid \<Rightarrow> triage_status \<Rightarrow> rid list \<Rightarrow> (unit, 'w) svc" where
  "settleWithoutWork repo u run session attempt status ids =
     and_then (claim_op repo u \<lparr>cl_run = run, cl_epoch = csr_epoch session,
         cl_observed = csr_attempt session, cl_attempt = attempt\<rparr>) (\<lambda>claimed.
     if \<not> claimed then done_with ()
     else and_then (finish_op repo u \<lparr>cf_run = run, cf_epoch = csr_epoch session, cf_attempt = attempt,
         cf_status = status, cf_visible = take MAX_SESSION_EVENT_IDS ids, cf_clear = False\<rparr>) (\<lambda>_. done_with ()))"

text \<open>The position of a kind in the alphabetical order of the kinds' names.\<close>

fun kind_rank :: "event_kind \<Rightarrow> nat" where
  "kind_rank EvArchive = 0" | "kind_rank EvCreate = 1" | "kind_rank EvEmbedFailed = 2"
| "kind_rank EvImport = 3" | "kind_rank EvReaffirm = 4" | "kind_rank EvResolve = 5"
| "kind_rank EvRevise = 6" | "kind_rank EvSupersede = 7" | "kind_rank EvUnresolve = 8"

definition event_kinds_of :: "session_event_row list \<Rightarrow> event_kind list" where
  "event_kinds_of items = sort_key kind_rank (remdups (map ser_kind items))"

text \<open>Steps 5 and 6: resolve, stage, re-list, finish.\<close>

definition finishPass ::
  "'w closer_repo \<Rightarrow> uid \<Rightarrow> rid \<Rightarrow> closer_session_row \<Rightarrow> rid \<Rightarrow> session_event_row list \<times> bool \<Rightarrow> closer_verdict \<Rightarrow>
   (closer_result, 'w) svc" where
  "finishPass repo u run session attempt events verdict =
     and_then (resolveCandidates repo u run (csr_epoch session) (cv_candidates verdict) 0 0) (\<lambda>(resolved, skippedCandidates, fenced).
     let part = \<lparr>cx_run = run, cx_skipped = None, cx_candidates = length (cv_candidates verdict),
         cx_rejected = cv_rejected verdict, cx_resolved = resolved,
         cx_skipped_candidates = skippedCandidates, cx_proposed = None\<rparr> in
     if fenced then done_with (part\<lparr>cx_skipped := Some FencedSkip\<rparr>)
     else and_then (stageProposals repo u run (csr_epoch session) (cv_proposals verdict)) (\<lambda>proposed. case proposed of
       Fenced \<Rightarrow> done_with (part\<lparr>cx_skipped := Some FencedSkip\<rparr>)
     | Held n \<Rightarrow>
         and_then (if resolved = 0 then done_with events else listEvents_op repo u run) (\<lambda>final.
         and_then (finish_op repo u \<lparr>cf_run = run, cf_epoch = csr_epoch session, cf_attempt = attempt,
             cf_status = (if snd final then TrOverflowed else TrCompleted),
             cf_visible = take MAX_SESSION_EVENT_IDS (map ser_id (fst final)), cf_clear = (\<not> snd final)\<rparr>) (\<lambda>finished.
         done_with (part\<lparr>cx_skipped := (if finished then None else Some FencedSkip),
           cx_proposed := (if 0 < n then Some n else None)\<rparr>)))))"

definition runClosePass ::
  "'w closer_repo \<Rightarrow> uid \<Rightarrow> rid \<Rightarrow> 'w closer_options \<Rightarrow> closer_session_row \<Rightarrow> (closer_result, 'w) svc" where
  "runClosePass repo u run opts session =
     and_then (listEvents_op repo u run) (\<lambda>events.
     let visible = map ser_id (fst events) in
     if snd events then and_then (settleWithoutWork repo u run session (op_attempt opts) TrOverflowed visible)
       (\<lambda>_. done_with (skip_result run OverflowedSkip))
     else if \<not> isCloserEligible (csr_status session) visible (csr_triaged session)
       then done_with (skip_result run NotEligible)
     else if csr_briefed session = []
       then and_then (settleWithoutWork repo u run session (op_attempt opts) TrCompleted visible)
         (\<lambda>_. done_with (skip_result run NothingBriefed))
     else (case op_gateway opts of
       None \<Rightarrow> done_with (skip_result run NoGateway)
     | Some gw \<Rightarrow>
         and_then (claim_op repo u \<lparr>cl_run = run, cl_epoch = csr_epoch session,
           cl_observed = csr_attempt session, cl_attempt = op_attempt opts\<rparr>) (\<lambda>claimed.
         if \<not> claimed then done_with (skip_result run ClaimLost)
         else and_then (classify \<lparr>kc_repo = repo, kc_uid = u, kc_run = run, kc_gateway = gw,
             kc_budget = op_budget opts, kc_session = session, kc_kinds = event_kinds_of (fst events)\<rparr>) (\<lambda>verdict.
           case verdict of
             Fenced \<Rightarrow> done_with (skip_result run FencedSkip)
           | Held v \<Rightarrow> finishPass repo u run session (op_attempt opts) events v))))"

definition closeSessionRun ::
  "'w closer_repo \<Rightarrow> uid \<Rightarrow> rid \<Rightarrow> nat \<Rightarrow> 'w closer_options \<Rightarrow> (closer_result, 'w) svc" where
  "closeSessionRun repo u run ep opts =
     and_then (readSession_op repo u run) (\<lambda>found. case found of
       None \<Rightarrow> done_with (skip_result run NotFoundSkip)
     | Some session \<Rightarrow>
         if csr_epoch session \<noteq> ep then done_with (skip_result run FencedSkip)
         else if csr_closed_at session = None then done_with (skip_result run NotClosed)
         else (\<lambda>w. case runClosePass repo u run opts session w of
             (Inr r, v) \<Rightarrow> (Inr r, v)
           | (Inl e, v) \<Rightarrow> (Inl e, if op_last_attempt opts
               then snd (recordFailure_op repo u \<lparr>fl_run = run, fl_epoch = csr_epoch session, fl_now = op_now opts\<rparr> v)
               else v)))"

section \<open>The production repository\<close>

record closer_db =
  db_review :: review_store
  db_usage :: "closer_usage list"
  db_judgment :: "uid \<Rightarrow> bool"
  db_tick :: nat

text \<open>
  What the rest of the system does around the pass: before its \<open>k\<close>-th transaction, inside a resolve,
  and between the two statements of a finish.
\<close>

record closer_env =
  env_between :: "nat \<Rightarrow> review_store \<Rightarrow> review_store"
  env_world :: "nat \<Rightarrow> world"
  env_gap :: "nat \<Rightarrow> store \<Rightarrow> store"
  env_t :: "nat \<Rightarrow> instant"

definition db_op :: "closer_env \<Rightarrow> (nat \<Rightarrow> review_store \<Rightarrow> (err + 'a) \<times> review_store) \<Rightarrow> ('a, closer_db) svc" where
  "db_op env m = (\<lambda>w. case m (db_tick w) (env_between env (db_tick w) (db_review w)) of
     (r, v) \<Rightarrow> (r, w\<lparr>db_review := v, db_tick := Suc (db_tick w)\<rparr>))"

text \<open>
  The listing of \<open>dbSessionCloserRepo\<close>: one transaction per page, anything may commit between two of
  them. The loop is unbounded in the code; \<open>fuel\<close> counts its turns and \<open>Diverged\<close> stands for a loop
  still running after them, which \<open>closer_listing_ends\<close> (\<open>CloserSafety\<close>) excludes.
\<close>

fun list_pages :: "closer_env \<Rightarrow> uid \<Rightarrow> rid \<Rightarrow> nat \<Rightarrow> rid option \<Rightarrow> (session_event_row list \<times> bool, closer_db) svc" where
  "list_pages env u run 0 cursor = fail_with Diverged"
| "list_pages env u run (Suc fuel) cursor =
     and_then (db_op env (\<lambda>k. on_store (withTenant u
       (query (listSessionEvents u run (page_options MAX_SESSION_EVENT_IDS cursor)))))) (\<lambda>page.
     case sep_next page of
       None \<Rightarrow> done_with (sep_items page, sep_truncated page)
     | Some c \<Rightarrow> and_then (list_pages env u run fuel (Some c)) (\<lambda>rest.
         done_with (sep_items page @ fst rest, sep_truncated page \<or> snd rest)))"

definition LISTING_PAGES :: nat where
  "LISTING_PAGES = MAX_SESSION_EVENT_IDS div MAX_SESSION_EVENTS_LIMIT"

definition dbSessionCloserRepo :: "closer_env \<Rightarrow> closer_db closer_repo" where
  "dbSessionCloserRepo env = \<lparr>
     readSession_op = (\<lambda>u run. db_op env (\<lambda>k. on_store (withTenant u (readCloserSession u run)))),
     listEvents_op = (\<lambda>u run. list_pages env u run LISTING_PAGES None),
     claim_op = (\<lambda>u c. db_op env (\<lambda>k. on_store (withTenant u (claimSessionTriage u c)))),
     resolve_op = (\<lambda>u m run ep. db_op env (\<lambda>k. on_store (resolveForClosedRun (env_world env k) u m Worker run ep))),
     propose_op = (\<lambda>u run ps. db_op env (\<lambda>k. run_tx (insertResolutionProposals (env_t env k) u run ps))),
     finish_op = (\<lambda>u f. db_op env (\<lambda>k. on_store (withTenant u (finishSessionTriage (env_gap env k) u f)))),
     recordUsage_op = (\<lambda>u x w. (Inr (), w\<lparr>db_usage := db_usage w @ [x]\<rparr>)),
     currentEpoch_op = (\<lambda>u run. db_op env (\<lambda>k. on_store (withTenant u
       (bind_tx (readCloserSession u run) (\<lambda>row. ret (map_option csr_epoch row)))))),
     recordFailure_op = (\<lambda>u f. db_op env (\<lambda>k. on_store (withTenant u (recordCloserFailure u f)))),
     isJudgmentEnabled_op = (\<lambda>u w. (Inr (db_judgment w u), w))\<rparr>"

section \<open>The sweep over all tenants\<close>

record 'w sweep_repo =
  listTenantIds_op :: "(uid list, 'w) svc"
  sweepExpiredLeases_op :: "uid \<Rightarrow> jsdate \<Rightarrow> nat \<Rightarrow> (closer_candidate list, 'w) svc"
  listCloserCandidates_op :: "uid \<Rightarrow> jsdate \<Rightarrow> nat \<Rightarrow> (closer_candidate list, 'w) svc"
  expireStaleExcerpts_op :: "uid \<Rightarrow> jsdate \<Rightarrow> nat \<Rightarrow> (nat, 'w) svc"
  enqueueCloser_op :: "uid \<Rightarrow> closer_candidate \<Rightarrow> (unit, 'w) svc"

record sweep_totals =
  sw_tenants :: nat
  sw_closed :: nat
  sw_enqueued :: nat
  sw_excerpts :: nat

fun enqueue_all :: "'w sweep_repo \<Rightarrow> uid \<Rightarrow> closer_candidate list \<Rightarrow> nat \<Rightarrow> (nat, 'w) svc" where
  "enqueue_all repo u [] n = done_with n"
| "enqueue_all repo u (c # cs) n = and_then (enqueueCloser_op repo u c) (\<lambda>_. enqueue_all repo u cs (n + 1))"

fun sweep_tenants :: "'w sweep_repo \<Rightarrow> jsdate \<Rightarrow> nat \<Rightarrow> jsdate \<Rightarrow> uid list \<Rightarrow> sweep_totals \<Rightarrow> (sweep_totals, 'w) svc" where
  "sweep_tenants repo now limit before [] acc = done_with acc"
| "sweep_tenants repo now limit before (u # us) acc =
     and_then (sweepExpiredLeases_op repo u now limit) (\<lambda>closed.
     and_then (listCloserCandidates_op repo u now limit) (\<lambda>candidates.
     and_then (enqueue_all repo u candidates (sw_enqueued acc)) (\<lambda>enqueued.
     and_then (expireStaleExcerpts_op repo u before limit) (\<lambda>expired.
     sweep_tenants repo now limit before us
       (acc\<lparr>sw_closed := sw_closed acc + length closed, sw_enqueued := enqueued,
            sw_excerpts := sw_excerpts acc + expired\<rparr>)))))"

definition sweepSessions :: "'w sweep_repo \<Rightarrow> jsdate \<Rightarrow> nat option \<Rightarrow> (sweep_totals, 'w) svc" where
  "sweepSessions repo now limit =
     and_then (listTenantIds_op repo) (\<lambda>tenants.
       sweep_tenants repo now (case limit of None \<Rightarrow> MAX_SESSION_SWEEP_BATCH | Some n \<Rightarrow> n)
         (now - SESSION_EXCERPT_TTL_MS) tenants
         \<lparr>sw_tenants = length tenants, sw_closed = 0, sw_enqueued = 0, sw_excerpts = 0\<rparr>)"

section \<open>Fenced results\<close>

lemma case_fenced_Inr: "(case x of Fenced \<Rightarrow> m | Held a \<Rightarrow> f a) w = (Inr r, w') \<longleftrightarrow>
    x = Fenced \<and> m w = (Inr r, w') \<or> (\<exists>a. x = Held a \<and> f a w = (Inr r, w'))"
  by (cases x) auto

context svc_preorder
begin

lemma keeps_fenced: "(x = Fenced \<Longrightarrow> keeps R m) \<Longrightarrow> (\<And>a. x = Held a \<Longrightarrow> keeps R (f a)) \<Longrightarrow>
    keeps R (case x of Fenced \<Rightarrow> m | Held a \<Rightarrow> f a)"
  by (cases x) simp_all

lemmas keeps_rules = keeps_basics keeps_fenced

end

lemmas fenced_Inr = svc_Inr case_fenced_Inr

section \<open>The candidates are briefed\<close>

lemma select_ids_briefed:
  "set (fst acc) \<subseteq> set briefed \<Longrightarrow> set (fst (select_ids briefed is acc)) \<subseteq> set briefed"
  by (induction briefed "is" acc rule: select_ids.induct) auto

lemma judge_rows_briefed:
  "set (fst (judge_rows answers rows k seen resolve propose)) \<subseteq> set resolve \<union> bm_id ` set rows"
proof (induction rows arbitrary: k seen resolve propose)
  case (Cons row rows)
  show ?case
    by (auto split: option.split decide_answer.split dest!: subsetD [OF Cons.IH])
qed simp

lemma classify_briefed:
  assumes "classify call w = (Inr (Held v), w')"
  shows "set (cv_candidates v) \<subseteq> bm_id ` set (csr_briefed (kc_session call))"
proof -
  have completion: "set (cv_candidates v) \<subseteq> bm_id ` set (csr_briefed (kc_session call))"
    if "classifyByCompletion call x = (Inr (Held v), y)" for x y
  proof -
    from that obtain ids where "cv_candidates v = fst (select_ids (map bm_id (csr_briefed (kc_session call))) ids ([], 0))"
      by (auto simp: classifyByCompletion_def fenced_Inr selectResolvable_def split: option.splits)
        (metis fst_conv)
    with select_ids_briefed [of "([], 0)" "map bm_id (csr_briefed (kc_session call))" ids]
    show ?thesis by simp
  qed
  have judged: "set (cv_candidates v) \<subseteq> bm_id ` set (csr_briefed (kc_session call))"
    if "classifyByJudgment call x = (Inr (Some (Held v)), y)" for x y
  proof -
    from that obtain answers where "cv_candidates v = fst (judge_rows answers (csr_briefed (kc_session call)) 0 [] [] [])"
      by (auto simp: classifyByJudgment_def fenced_Inr selectByJudgment_def)
    with judge_rows_briefed [of answers "csr_briefed (kc_session call)" 0 "[]" "[]" "[]"] show ?thesis by simp
  qed
  from assms show ?thesis
    by (auto simp: classify_def fenced_Inr dest: completion judged)
qed

text \<open>A budget that moves the state by \<open>R\<close> only.\<close>

definition budget_keeps :: "('w \<Rightarrow> 'w \<Rightarrow> bool) \<Rightarrow> uid \<Rightarrow> 'w budget_ops option \<Rightarrow> bool" where
  "budget_keeps R u b = (case b of None \<Rightarrow> True
     | Some b \<Rightarrow> (\<forall>x. keeps R (bud_reserve b u x)) \<and> (\<forall>h w. R w (bud_release b u h w)))"

text \<open>What classification asks of the repository.\<close>

locale classify_contract = svc_preorder R for R :: "'w \<Rightarrow> 'w \<Rightarrow> bool" +
  fixes repo :: "'w closer_repo" and u :: uid
  assumes usage: "keeps R (recordUsage_op repo u x)"
    and epoch: "keeps R (currentEpoch_op repo u run)"
    and opt_in: "keeps R (isJudgmentEnabled_op repo u)"
begin

lemma keeps_metered:
  assumes "budget_keeps R u (kc_budget call)" and "kc_repo call = repo" "kc_uid call = u" and "keeps R send"
  shows "keeps R (meteredCall call x send)"
  using assms(1,4) unfolding meteredCall_def Let_def budget_keeps_def assms(2,3)
  by (cases "kc_budget call") (auto intro!: keeps_rules keeps_finally epoch)

lemma keeps_classify:
  assumes "budget_keeps R u (kc_budget call)" and "kc_repo call = repo" "kc_uid call = u"
  shows "keeps R (classify call)"
  unfolding classify_def classifyByJudgment_def classifyByCompletion_def assms(2,3)
  by (intro keeps_rules keeps_metered usage opt_in assms)

end

text \<open>What the whole pass asks: \<open>M\<close> are the memories it may resolve.\<close>

locale closer_contract = classify_contract R repo u for R :: "'w \<Rightarrow> 'w \<Rightarrow> bool" and repo u +
  fixes run :: rid and M :: "rid set"
  assumes reading: "keeps R (readSession_op repo u run)"
    and listing: "keeps R (listEvents_op repo u run)"
    and claiming: "cl_run c = run \<Longrightarrow> keeps R (claim_op repo u c)"
    and finishing: "cf_run f = run \<Longrightarrow> keeps R (finish_op repo u f)"
    and failing: "fl_run x = run \<Longrightarrow> keeps R (recordFailure_op repo u x)"
    and resolving: "m \<in> M \<Longrightarrow> keeps R (resolve_op repo u m run ep)"
    and proposing: "keeps R (propose_op repo u run ps)"
begin

lemma keeps_resolveCandidates: "set ms \<subseteq> M \<Longrightarrow> keeps R (resolveCandidates repo u run ep ms a b)"
  by (induction ms arbitrary: a b) (auto intro!: keeps_rules epoch resolving)

lemma keeps_stageProposals: "keeps R (stageProposals repo u run ep ps)"
  unfolding stageProposals_def by (intro keeps_rules epoch proposing)

lemma keeps_settle: "keeps R (settleWithoutWork repo u run session a st ids)"
  unfolding settleWithoutWork_def by (intro keeps_rules claiming finishing) simp_all

lemma keeps_finishPass: "set (cv_candidates v) \<subseteq> M \<Longrightarrow> keeps R (finishPass repo u run session a events v)"
  unfolding finishPass_def
  by (intro keeps_rules keeps_resolveCandidates keeps_stageProposals listing finishing) simp_all

lemma keeps_runClosePass:
  assumes "budget_keeps R u (op_budget opts)" and "bm_id ` set (csr_briefed session) \<subseteq> M"
  shows "keeps R (runClosePass repo u run opts session)"
proof -
  have pass: "keeps R (and_then (classify \<lparr>kc_repo = repo, kc_uid = u, kc_run = run, kc_gateway = gw,
      kc_budget = op_budget opts, kc_session = session, kc_kinds = kinds\<rparr>)
      (\<lambda>verdict. case verdict of Fenced \<Rightarrow> done_with (skip_result run FencedSkip)
         | Held v \<Rightarrow> finishPass repo u run session (op_attempt opts) events v))" for gw kinds events
  proof (rule keeps_and_then_result)
    show "keeps R (classify \<lparr>kc_repo = repo, kc_uid = u, kc_run = run, kc_gateway = gw,
      kc_budget = op_budget opts, kc_session = session, kc_kinds = kinds\<rparr>)"
      by (rule keeps_classify) (simp_all add: assms(1))
    fix a w v
    assume c: "classify \<lparr>kc_repo = repo, kc_uid = u, kc_run = run, kc_gateway = gw,
      kc_budget = op_budget opts, kc_session = session, kc_kinds = kinds\<rparr> w = (Inr a, v)"
    show "keeps R (case a of Fenced \<Rightarrow> done_with (skip_result run FencedSkip)
         | Held v \<Rightarrow> finishPass repo u run session (op_attempt opts) events v)"
    proof (cases a)
      case (Held x)
      with classify_briefed [OF c [unfolded Held]] assms(2) show ?thesis
        by (auto intro: keeps_finishPass)
    qed (simp add: keeps_basic)
  qed
  show ?thesis
    unfolding runClosePass_def
    by (intro keeps_rules listing keeps_settle claiming pass) simp_all
qed

lemma closeSessionRun_keeps:
  assumes "budget_keeps R u (op_budget opts)"
    and "\<And>x v. readSession_op repo u run w = (Inr (Some x), v) \<Longrightarrow> bm_id ` set (csr_briefed x) \<subseteq> M"
  shows "R w (snd (closeSessionRun repo u run ep opts w))"
proof -
  obtain r v where read: "readSession_op repo u run w = (r, v)" by (rule prod.exhaust)
  then have wv: "R w v" using reading by (metis keeps_def snd_conv)
  have pass: "R v (snd (runClosePass repo u run opts x v))" if "r = Inr (Some x)" for x
    using keeps_runClosePass [OF assms(1) assms(2)] read that by (simp add: keeps_def)
  have fail: "R z (snd (recordFailure_op repo u \<lparr>fl_run = run, fl_epoch = e, fl_now = t\<rparr> z))" for z e t
    using failing [of "\<lparr>fl_run = run, fl_epoch = e, fl_now = t\<rparr>"] by (simp add: keeps_def)
  show ?thesis
  proof (cases "\<exists>x. r = Inr (Some x)")
    case True
    then obtain x where x: "r = Inr (Some x)" ..
    obtain q z where q: "runClosePass repo u run opts x v = (q, z)" by (rule prod.exhaust)
    with pass [OF x] wv have "R w z" by (auto intro: trans)
    with q x read wv fail show ?thesis
      by (auto simp: closeSessionRun_def and_then_run done_with_def intro: trans split: sum.split)
  next
    case False
    with read wv show ?thesis
      by (cases r) (auto simp: closeSessionRun_def and_then_run done_with_def split: option.splits)
  qed
qed

end

end
