(* ===== verification/CloserSafety.thy ===== *)
theory CloserSafety
  imports CloserPass
begin

text \<open>
  What a closer pass over the production repository may do, and that it settles its run. The
  repository of \<open>CloserPass\<close> is interpreted in its contract \<open>closer_contract\<close> with the relation
  \<open>closer_effect\<close>: nothing but resolves of briefed commitments, their audit events, and the triage
  columns of the one run.
\<close>

section \<open>The allowed effect\<close>

definition closer_com :: "uid \<Rightarrow> rid set \<Rightarrow> commitment \<Rightarrow> commitment \<Rightarrow> bool" where
  "closer_com u M c c' \<longleftrightarrow> c' = c \<or> (com_user c = u \<and> com_memory c \<in> M \<and> com_status c' = StResolved \<and>
     com_user c' = com_user c \<and> com_memory c' = com_memory c \<and> com_step c c')"

definition closer_ses :: "uid \<Rightarrow> rid \<Rightarrow> agent_session \<Rightarrow> agent_session \<Rightarrow> bool" where
  "closer_ses u run x x' \<longleftrightarrow> x' = x \<or> (ses_user x = u \<and> ses_id x = run \<and>
     x' = x\<lparr>ses_triage_status := ses_triage_status x', ses_triage_attempt := ses_triage_attempt x',
       ses_triaged_events := ses_triaged_events x', ses_excerpt := ses_excerpt x',
       ses_needs_look := ses_needs_look x', ses_closer_failures := ses_closer_failures x',
       ses_closer_next_attempt := ses_closer_next_attempt x'\<rparr>)"

definition closer_event :: "uid \<Rightarrow> rid \<Rightarrow> rid set \<Rightarrow> memory_event \<Rightarrow> bool" where
  "closer_event u run M e \<longleftrightarrow> ev_user e = u \<and> ev_kind e = EvResolve \<and> ev_actor e = Worker \<and>
     ev_payload e = Some (SessionPayload run) \<and> ev_memory e \<in> M"

definition closer_effect :: "uid \<Rightarrow> rid \<Rightarrow> rid set \<Rightarrow> store \<Rightarrow> store \<Rightarrow> bool" where
  "closer_effect u run M s s' \<longleftrightarrow> tbl_users s' = tbl_users s \<and> tbl_memories s' = tbl_memories s \<and>
     tbl_edges s' = tbl_edges s \<and> tbl_facts s' = tbl_facts s \<and>
     list_all2 (closer_com u M) (tbl_commitments s) (tbl_commitments s') \<and>
     list_all2 (closer_ses u run) (tbl_sessions s) (tbl_sessions s') \<and>
     (\<exists>es. tbl_events s' = tbl_events s @ es \<and> (\<forall>e \<in> set es. closer_event u run M e))"

lemma closer_ses_refl: "closer_ses u run x x"
  by (simp add: closer_ses_def)

lemma closer_com_trans: "closer_com u M a b \<Longrightarrow> closer_com u M b c \<Longrightarrow> closer_com u M a c"
  by (auto simp: closer_com_def intro: com_step_trans)

lemma closer_ses_trans: "closer_ses u run a b \<Longrightarrow> closer_ses u run b c \<Longrightarrow> closer_ses u run a c"
  by (cases a; cases b; cases c) (auto simp: closer_ses_def)

lemma closer_effect_refl: "closer_effect u run M s s"
  by (simp add: closer_effect_def list_all2_same closer_com_def closer_ses_def)

lemma closer_effect_trans: "closer_effect u run M s t \<Longrightarrow> closer_effect u run M t v \<Longrightarrow> closer_effect u run M s v"
  using list_all2_trans [of "closer_com u M" "closer_com u M" "closer_com u M", OF closer_com_trans]
    list_all2_trans [of "closer_ses u run" "closer_ses u run" "closer_ses u run", OF closer_ses_trans]
  unfolding closer_effect_def by auto

text \<open>With the constraints carried along.\<close>

definition closer_step :: "uid \<Rightarrow> rid \<Rightarrow> rid set \<Rightarrow> store \<Rightarrow> store \<Rightarrow> bool" where
  "closer_step u run M s s' \<longleftrightarrow> (constraints s \<longrightarrow> constraints s' \<and> closer_effect u run M s s')"

lemma closer_step_refl: "closer_step u run M s s"
  by (simp add: closer_step_def closer_effect_refl)

lemma closer_step_trans: "closer_step u run M s t \<Longrightarrow> closer_step u run M t v \<Longrightarrow> closer_step u run M s v"
  by (auto simp: closer_step_def intro: closer_effect_trans)

lemma list_all2_update:
  "(\<And>x. P x x) \<Longrightarrow> (\<And>x. x \<in> set xs \<Longrightarrow> q x \<Longrightarrow> P x (f x)) \<Longrightarrow> list_all2 P xs (sql_update q f xs)"
  by (simp add: sql_update_def list_all2_conv_all_nth)

section \<open>Statements on the run's row\<close>

lemma effect_with_session:
  assumes "\<And>x. ses_user x = u \<Longrightarrow> ses_id x = run \<Longrightarrow> closer_ses u run x (f x)"
  shows "closer_effect u run M s (with_session u run f s)"
proof -
  have "list_all2 (closer_ses u run) (tbl_sessions s) (tbl_sessions (with_session u run f s))"
    unfolding with_session_def using assms by (auto intro!: list_all2_update simp: closer_ses_refl)
  then show ?thesis by (simp add: closer_effect_def list_all2_same closer_com_def)
qed

lemma closer_ses_rows:
  assumes "ses_user x = u" and "ses_id x = run"
  shows "closer_ses u run x (claim_row a x)" and "closer_ses u run x (finish_row f x)"
    and "closer_ses u run x (failure_row t x)" and "closer_ses u run x (x\<lparr>ses_needs_look := b\<rparr>)"
  using assms by (simp_all add: closer_ses_def claim_row_def finish_row_def failure_row_def Let_def)

lemma step_with_session:
  assumes "\<And>x. ses_step x (f x)" and "\<And>x. ses_user x = u \<Longrightarrow> ses_id x = run \<Longrightarrow> closer_ses u run x (f x)"
  shows "closer_step u run M s (with_session u run f s)"
  using constraints_with_session [of s f, OF _ assms(1)] effect_with_session [of u run f, OF assms(2)]
  by (simp add: closer_step_def)

lemma withTenant_run: "m s = Inr (a, s') \<Longrightarrow> withTenant u m s = (Inr a, s')"
  by (simp add: withTenant_ok)

lemma step_claim: "cl_run c = run \<Longrightarrow> closer_step u run M s (snd (withTenant u (claimSessionTriage u c) s))"
proof (cases "constraints s")
  case True
  assume run: "cl_run c = run"
  from True have ok: "sessions_ok s" by (simp add: constraints_def)
  show ?thesis
    using step_with_session [OF ses_step_closer_rows(1) closer_ses_rows(1)] run
    by (auto simp: withTenant_def run_tx_def claimSessionTriage_run [OF ok] closer_step_refl split: option.split)
qed (simp add: closer_step_def)

lemma step_finish: "cf_run f = run \<Longrightarrow> closer_step u run M s (snd (withTenant u (finishSessionTriage (\<lambda>s. s) u f) s))"
proof (cases "constraints s")
  case True
  assume run: "cf_run f = run"
  from True have ok: "sessions_ok s" by (simp add: constraints_def)
  have "closer_step u run M s (with_session u run (\<lambda>y. y\<lparr>ses_needs_look := h y\<rparr>) (with_session u run (finish_row f) s))" for h
    by (rule closer_step_trans [OF step_with_session step_with_session])
      (simp_all add: ses_step_closer_rows closer_ses_rows ses_step_triage_rows)
  then show ?thesis using run
    by (auto simp: withTenant_def run_tx_def finishSessionTriage_run [OF ok] closer_step_refl Let_def split: option.split)
qed (simp add: closer_step_def)

lemma step_failure: "fl_run f = run \<Longrightarrow> closer_step u run M s (snd (withTenant u (recordCloserFailure u f) s))"
proof (cases "constraints s")
  case True
  assume run: "fl_run f = run"
  from True have ok: "sessions_ok s" by (simp add: constraints_def)
  show ?thesis
    using step_with_session [OF ses_step_closer_rows(3) closer_ses_rows(3)] run
    by (auto simp: withTenant_def run_tx_def recordCloserFailure_run [OF ok] closer_step_refl split: option.split)
qed (simp add: closer_step_def)

section \<open>The resolve\<close>

text \<open>Alone on the store, the closer's resolve either changes nothing or resolves the one commitment.\<close>

lemma closer_resolve_run:
  assumes "quiet w" and "constraints s" and "resolveForClosedRun w u m Worker run ep s = (r, s')"
  shows "(r \<noteq> Inr Resolved \<and> s' = s) \<or> (\<exists>c e. r = Inr Resolved \<and> commitment_on u m s = Some c \<and>
    closer_event u run {m} e \<and> tbl_sessions s' = tbl_sessions s \<and> constraints s' \<and>
    s' = s\<lparr>tbl_commitments := sql_update (\<lambda>d. com_user d = u \<and> com_id d = com_id c \<and> com_status d = com_status c)
        (transition_row (w_t w 1) (closer_input u (toState c) Worker run ep)) (tbl_commitments s),
      tbl_events := tbl_events s @ [e], next_id := Suc (next_id s)\<rparr>)"
proof (cases "commitment_on u m s")
  case None
  with assms(3) show ?thesis
    by (auto simp: resolveForClosedRun_def getCommitmentByMemoryId_def commitment_on_def)
next
  case (Some c)
  let ?inp = "closer_input u (toState c) Worker run ep"
  have gaps: "w_between w k v = v" "w_gap w k = no_gap" for k v using assms(1) by (simp_all add: quiet_def)
  have at: "find_row (\<lambda>c. com_user c = u \<and> com_memory c = m) (tbl_commitments s) = Some c"
    using Some by (simp add: commitment_on_def)
  have inp: "is_locked ?inp" "ct_user ?inp = u" "ct_id ?inp = com_id c" "ct_stamped_run ?inp = Some run"
    by (simp_all add: is_locked_def closer_input_def toState_def)
  have c: "c \<in> set (tbl_commitments s)" "com_user c = u" "com_memory c = m"
    using commitment_on_Some [OF Some] by simp_all
  have by_id: "commitment_by u (com_id c) s = Some c" by (rule commitment_by_mem [OF assms(2) c(1,2)]) simp
  obtain x v where tr: "transitionCommitment no_gap (w_t w 1) (w_now w 1) ?inp s = (x, v)" by (rule prod.exhaust)
  show ?thesis
  proof (cases x)
    case (Inl e)
    then have "v = s" using tr by (auto simp: transitionCommitment_def dest: withTenant_error)
    with assms(3) tr Inl show ?thesis
      by (auto simp: resolveForClosedRun_def getCommitmentByMemoryId_def at gaps toState_def Let_def
          simp del: One_nat_def split: if_splits err.splits option.splits)
  next
    case (Inr y)
    with tr have tx: "transitionCommitment_tx no_gap (w_t w 1) (w_now w 1) ?inp s = Inr (y, v)"
      by (simp add: transitionCommitment_def withTenant_ok map_error_Inr)
    then have wr: "transition_write (w_t w 1) ?inp m (Some run) s = Inr (y, v)"
      using by_id inp c(3) by (auto simp: transition_locked split: sum.splits)
    have con: "constraints v"
    proof -
      have "inv_step s (snd (withTenant u (map_error fsm_error (transitionCommitment_tx no_gap (w_t w 1) (w_now w 1) ?inp)) s))"
        by (intro inv.withTenant_within inv.within_map_error inv.within_transitionCommitment_tx [OF inv.no_gap_R inp(2)])
      with tr assms(2) inp(2) show ?thesis by (simp add: transitionCommitment_def inv_step_def)
    qed
    let ?e = "(event_row (w_t w 1) u m EvResolve Worker (sessionPayload (Some run)))\<lparr>ev_id := next_id s\<rparr>"
    have "transition_where ?inp d \<longleftrightarrow> com_id d = com_id c \<and> com_status d = com_status c" for d
      by (auto simp: transition_where_def closer_input_def toState_def)
    with transition_write_Inr [OF wr] have v: "v = s\<lparr>tbl_commitments := sql_update
        (\<lambda>d. com_user d = u \<and> com_id d = com_id c \<and> com_status d = com_status c) (transition_row (w_t w 1) ?inp) (tbl_commitments s),
      tbl_events := tbl_events s @ [?e], next_id := Suc (next_id s)\<rparr>"
      by (auto simp: closer_input_def)
    have e: "closer_event u run {m} ?e" by (simp add: closer_event_def event_row_def sessionPayload_def)
    have ses: "tbl_sessions v = tbl_sessions s" by (simp add: v)
    have "(r, s') = (Inr Resolved, v) \<or> (r \<noteq> Inr Resolved \<and> s' = s)"
      using assms(3) tr Inr
      by (auto simp: resolveForClosedRun_def getCommitmentByMemoryId_def at gaps toState_def
          simp del: One_nat_def split: if_splits)
    then show ?thesis using Some con e ses v by auto
  qed
qed

lemma step_resolve:
  assumes "quiet w" and "m \<in> M"
  shows "closer_step u run M s (snd (resolveForClosedRun w u m Worker run ep s))"
  unfolding closer_step_def
proof
  assume con: "constraints s"
  obtain r s' where res: "resolveForClosedRun w u m Worker run ep s = (r, s')" by (rule prod.exhaust)
  have "constraints s' \<and> closer_effect u run M s s'"
  proof (cases "s' = s")
    case False
    then obtain c e where c: "commitment_on u m s = Some c" "closer_event u run {m} e" "constraints s'"
      and s': "s' = s\<lparr>tbl_commitments := sql_update (\<lambda>d. com_user d = u \<and> com_id d = com_id c \<and> com_status d = com_status c)
        (transition_row (w_t w 1) (closer_input u (toState c) Worker run ep)) (tbl_commitments s),
        tbl_events := tbl_events s @ [e], next_id := Suc (next_id s)\<rparr>"
      using closer_resolve_run [OF assms(1) con res] by auto
    have one: "com_memory d = m" if "d \<in> set (tbl_commitments s)" "com_user d = u" "com_id d = com_id c" for d
    proof -
      have "commitment_by u (com_id c) s = Some d" by (rule commitment_by_mem [OF con that])
      moreover have "commitment_by u (com_id c) s = Some c"
        using commitment_on_Some [OF c(1)] by (intro commitment_by_mem [OF con]) auto
      ultimately show ?thesis using commitment_on_Some [OF c(1)] by simp
    qed
    have "list_all2 (closer_com u M) (tbl_commitments s) (tbl_commitments s')"
    proof -
      let ?i = "closer_input u (toState c) Worker run ep"
      have to: "com_status (transition_row t ?i d) = StResolved" "com_step d (transition_row t ?i d)"
        "com_user (transition_row t ?i d) = com_user d" "com_memory (transition_row t ?i d) = com_memory d" for t d
        by (simp_all add: transition_row_def closer_input_def com_step_def)
      have "closer_com u M d (transition_row t ?i d)"
        if "d \<in> set (tbl_commitments s)" "com_user d = u \<and> com_id d = com_id c \<and> com_status d = com_status c" for t d
        using that one [of d] assms(2) by (simp add: closer_com_def to)
      then show ?thesis unfolding s' by (auto intro!: list_all2_update simp: closer_com_def)
    qed
    with c assms(2) s' show ?thesis
      by (auto simp: closer_effect_def list_all2_same closer_ses_def closer_event_def)
  qed (simp add: con closer_effect_refl)
  then show "constraints (snd (resolveForClosedRun w u m Worker run ep s)) \<and>
      closer_effect u run M s (snd (resolveForClosedRun w u m Worker run ep s))" by (simp add: res)
qed

section \<open>The production repository meets the contract\<close>

text \<open>Nothing else runs during the pass.\<close>

definition calm_env :: "(nat \<Rightarrow> nat \<Rightarrow> instant) \<Rightarrow> (nat \<Rightarrow> nat \<Rightarrow> jsdate) \<Rightarrow> (nat \<Rightarrow> instant) \<Rightarrow> closer_env" where
  "calm_env wt wn t = \<lparr>env_between = (\<lambda>k r. r),
     env_world = (\<lambda>k. \<lparr>w_between = (\<lambda>k s. s), w_gap = (\<lambda>k. no_gap), w_t = wt k, w_now = wn k\<rparr>),
     env_gap = (\<lambda>k s. s), env_t = t\<rparr>"

definition db_store :: "closer_db \<Rightarrow> store" where
  "db_store w = rs_store (db_review w)"

definition db_step :: "uid \<Rightarrow> rid \<Rightarrow> rid set \<Rightarrow> closer_db \<Rightarrow> closer_db \<Rightarrow> bool" where
  "db_step u run M w w' \<longleftrightarrow> closer_step u run M (db_store w) (db_store w')"

lemma db_op_store:
  "db_op (calm_env wt wn t) (\<lambda>k. on_store (f k)) w = (case f (db_tick w) (db_store w) of
     (r, s') \<Rightarrow> (r, w\<lparr>db_review := (db_review w)\<lparr>rs_store := s'\<rparr>, db_tick := Suc (db_tick w)\<rparr>))"
  by (simp add: db_op_def on_store_def calm_env_def db_store_def split: prod.split)

lemma keeps_db_op:
  assumes "\<And>k s. closer_step u run M s (snd (f k s))"
  shows "keeps (db_step u run M) (db_op (calm_env wt wn t) (\<lambda>k. on_store (f k)))"
  unfolding keeps_def db_op_store db_step_def
  using assms by (auto simp: db_store_def split: prod.split) (metis snd_conv)

lemma read_only_run: "withTenant u (bind_tx (query g) (\<lambda>x. ret (h x))) s = (Inr (h (g s)), s)"
  "withTenant u (query g) s = (Inr (g s), s)"
  by (simp_all add: withTenant_def run_tx_def ret_run) (simp add: query_def)

lemma readCloserSession_eq: "readCloserSession u run = bind_tx (query (session_of u run)) (\<lambda>x. ret (map_option closer_row_of x))"
  by (simp add: readCloserSession_def select_session_def session_of_def [abs_def])

lemma currentEpoch_run: "withTenant u (bind_tx (readCloserSession u run) (\<lambda>row. ret (map_option csr_epoch row))) s =
    (Inr (map_option ses_epoch (session_of u run s)), s)"
  by (simp add: withTenant_def run_tx_def readCloserSession_eq bind_tx_def query_def ret_def option.map_comp
      comp_def closer_row_of_def)

lemma proposals_store:
  "run_tx (insertResolutionProposals t u run cs) v = (r, v') \<Longrightarrow> rs_store v' = rs_store v"
proof -
  have ins: "insert_proposal row a = Inr (x, b) \<Longrightarrow> rs_store b = rs_store a" for row a x b
    by (auto simp: insert_proposal_def Let_def split: if_splits)
  have "for_each ds (\<lambda>c. insert_proposal (proposal_row t u run c)) v = Inr (rs, w) \<Longrightarrow> rs_store w = rs_store v" for ds rs w
    by (rule for_each_keeps [where P = "\<lambda>a. rs_store a = rs_store v", rotated 2]) (auto dest: ins)
  then show "run_tx (insertResolutionProposals t u run cs) v = (r, v') \<Longrightarrow> rs_store v' = rs_store v"
    by (auto simp: run_tx_def insertResolutionProposals_def Let_def bind_tx_Inr split: sum.splits if_splits prod.splits)
qed

interpretation db_moves: svc_preorder "db_step u run M" for u run M
  by unfold_locales (auto simp: db_step_def closer_step_refl intro: closer_step_trans)

lemma keeps_list_pages: "keeps (db_step u run M) (list_pages (calm_env wt wn t) u run n c)"
proof (induction n arbitrary: c)
  case (Suc n)
  have "keeps (db_step u run M) (db_op (calm_env wt wn t) (\<lambda>k. on_store (withTenant u (query g))))"
    for g :: "store \<Rightarrow> session_events_page"
    by (rule keeps_db_op) (simp add: read_only_run closer_step_refl)
  with Suc show ?case by (simp add: db_moves.keeps_rules)
qed (simp add: db_moves.keeps_basic)

text \<open>The production repository, in its contract.\<close>

interpretation closer: closer_contract "db_step u run M" "dbSessionCloserRepo (calm_env wt wn t)" u run M
  for u run M wt wn t
proof unfold_locales
  note db = dbSessionCloserRepo_def closer_repo.simps
  show "keeps (db_step u run M) (recordUsage_op (dbSessionCloserRepo (calm_env wt wn t)) u x)" for x
    by (simp add: db keeps_def db_step_def db_store_def closer_step_refl)
  show "keeps (db_step u run M) (isJudgmentEnabled_op (dbSessionCloserRepo (calm_env wt wn t)) u)"
    by (simp add: db keeps_def db_step_def closer_step_refl)
  show "keeps (db_step u run M) (currentEpoch_op (dbSessionCloserRepo (calm_env wt wn t)) u run')" for run'
    unfolding db by (rule keeps_db_op) (simp add: currentEpoch_run closer_step_refl)
  show "keeps (db_step u run M) (readSession_op (dbSessionCloserRepo (calm_env wt wn t)) u run)"
    unfolding db readCloserSession_eq by (rule keeps_db_op) (simp add: read_only_run closer_step_refl)
  show "keeps (db_step u run M) (listEvents_op (dbSessionCloserRepo (calm_env wt wn t)) u run)"
    unfolding db by (rule keeps_list_pages)
  show "cl_run c = run \<Longrightarrow> keeps (db_step u run M) (claim_op (dbSessionCloserRepo (calm_env wt wn t)) u c)" for c
    unfolding db by (rule keeps_db_op) (rule step_claim)
  show "cf_run f = run \<Longrightarrow> keeps (db_step u run M) (finish_op (dbSessionCloserRepo (calm_env wt wn t)) u f)" for f
    unfolding db by (intro keeps_db_op) (simp add: calm_env_def step_finish)
  show "fl_run x = run \<Longrightarrow> keeps (db_step u run M) (recordFailure_op (dbSessionCloserRepo (calm_env wt wn t)) u x)" for x
    unfolding db by (rule keeps_db_op) (rule step_failure)
  show "m \<in> M \<Longrightarrow> keeps (db_step u run M) (resolve_op (dbSessionCloserRepo (calm_env wt wn t)) u m run ep)" for m ep
    unfolding db by (intro keeps_db_op step_resolve) (simp_all add: calm_env_def quiet_def)
  show "keeps (db_step u run M) (propose_op (dbSessionCloserRepo (calm_env wt wn t)) u run ps)" for ps
    unfolding db keeps_def db_step_def db_op_def
    by (auto simp: calm_env_def db_store_def closer_step_refl split: prod.split dest!: proposals_store)
qed

text \<open>
  C23. The closer only resolves. A pass over a closed run, with nothing else running, whatever the gateway
  answers and however the pass ends, leaves every memory, edge, fact and user as it is, changes no
  commitment other than by resolving one the run was briefed on, appends only \<open>resolve\<close> events of the
  worker attributed to the run, and changes no session but the triage columns and the excerpt of this one.
\<close>

theorem closer_only_resolves:
  assumes "constraints (db_store w)" and "session_of u run (db_store w) = Some x"
    and "budget_keeps (\<lambda>w w'. db_store w' = db_store w) u (op_budget opts)"
  shows "closer_effect u run (bm_id ` set (ses_briefed x)) (db_store w)
    (db_store (snd (closeSessionRun (dbSessionCloserRepo (calm_env wt wn t)) u run ep opts w)))"
proof -
  let ?M = "bm_id ` set (ses_briefed x)"
  have b: "budget_keeps (db_step u run ?M) u (op_budget opts)"
    using assms(3) by (auto simp: budget_keeps_def keeps_def db_step_def closer_step_refl split: option.splits)
  have "db_step u run ?M w (snd (closeSessionRun (dbSessionCloserRepo (calm_env wt wn t)) u run ep opts w))"
  proof (rule closer.closeSessionRun_keeps [OF b])
    fix y v
    assume "readSession_op (dbSessionCloserRepo (calm_env wt wn t)) u run w = (Inr (Some y), v)"
    then show "bm_id ` set (csr_briefed y) \<subseteq> ?M"
      by (auto simp: dbSessionCloserRepo_def db_op_store readCloserSession_eq read_only_run
          assms(2) closer_row_of_def)
  qed
  with assms(1) show ?thesis by (simp add: db_step_def closer_step_def)
qed

section \<open>The listing ends\<close>

text \<open>The run's events a walk has passed, as of a store.\<close>

definition passed_events :: "uid \<Rightarrow> rid \<Rightarrow> store \<Rightarrow> rid option \<Rightarrow> memory_event set" where
  "passed_events u run s c = {e \<in> set (tbl_events s). runPredicate u run e \<and> \<not> after_cursor c e}"

lemma passed_events_mono: "set (tbl_events s) \<subseteq> set (tbl_events s') \<Longrightarrow>
    card (passed_events u run s c) \<le> card (passed_events u run s' c)"
  by (rule card_mono) (auto simp: passed_events_def)

text \<open>A page with a successor passes a hundred more events, and stays below the ceiling.\<close>

lemma page_passes:
  assumes "events_ok s"
    and succ: "sep_next (listSessionEvents u run (page_options MAX_SESSION_EVENT_IDS c) s) = Some c'"
  shows "card (passed_events u run s c) + MAX_SESSION_EVENTS_LIMIT \<le> card (passed_events u run s (Some c'))"
    and "card (passed_events u run s (Some c')) < MAX_SESSION_EVENT_IDS"
proof -
  let ?xs = "past_cursor u run MAX_SESSION_EVENT_IDS s c" and ?L = MAX_SESSION_EVENTS_LIMIT
  let ?first = "take MAX_SESSION_EVENT_IDS (run_events u run s)"
  from succ have more: "?L < length ?xs" and c': "c' = ev_id (?xs ! (?L - 1))"
    by (auto simp: page_next [OF assms(1)] Let_def split: if_splits)
  let ?e = "?xs ! (?L - 1)" and ?x = "?xs ! ?L"
  note xs = past_cursor_sorted [OF assms(1), of u run MAX_SESSION_EVENT_IDS c]
  have mem: "y \<in> set ?xs \<longleftrightarrow> y \<in> set ?first \<and> after_cursor c y" for y by (auto simp: past_cursor_def)
  have "?L - 1 < length ?xs" using more by simp
  then have e: "?e \<in> set ?xs" and x: "?x \<in> set ?xs" using more by (simp_all del: One_nat_def)
  have lt: "ev_id ?e < ev_id ?x"
    using sorted_wrt_nth_less [OF xs, of "?L - 1" ?L] more by (simp add: MAX_SESSION_EVENTS_LIMIT_def)
  have taken: "ev_id y \<le> ev_id ?e" if "y \<in> set (take ?L ?xs)" for y
  proof -
    from that obtain i where i: "i < ?L" "i < length ?xs" "y = ?xs ! i" by (auto simp: in_set_conv_nth)
    then show ?thesis using sorted_wrt_nth_less [OF xs, of i "?L - 1"] more
      by (cases "i = ?L - 1") (auto simp: MAX_SESSION_EVENTS_LIMIT_def)
  qed
  have in_run: "set ?first \<subseteq> {y \<in> set (tbl_events s). runPredicate u run y}"
    by (auto dest: in_set_takeD simp: run_events_def)
  let ?P = "passed_events u run s"
  have sub: "set (take ?L ?xs) \<union> ?P c \<subseteq> ?P (Some c')"
  proof
    fix y assume "y \<in> set (take ?L ?xs) \<union> passed_events u run s c"
    then show "y \<in> passed_events u run s (Some c')"
    proof
      assume y: "y \<in> set (take ?L ?xs)"
      then have "y \<in> set ?first" using mem by (auto dest: in_set_takeD)
      with in_run taken [OF y] show ?thesis by (auto simp: passed_events_def after_cursor_def c')
    next
      assume y: "y \<in> passed_events u run s c"
      with mem [of ?e] e show ?thesis
        by (auto simp: passed_events_def after_cursor_def c' split: option.splits)
    qed
  qed
  have dis: "set (take ?L ?xs) \<inter> ?P c = {}"
    using mem by (auto simp: passed_events_def dest: in_set_takeD)
  have "card (set (take ?L ?xs)) = ?L"
    using xs more by (simp add: distinct_card strict_sorted_iff distinct_map distinct_take)
  moreover have fin: "finite (?P d)" for d by (simp add: passed_events_def)
  ultimately have "card (set (take ?L ?xs) \<union> ?P c) = ?L + card (?P c)"
    using card_Un_disjoint [OF finite_set fin dis] by simp
  then show "card (?P c) + ?L \<le> card (?P (Some c'))"
    using card_mono [OF fin sub] by simp
  have "passed_events u run s (Some c') \<subseteq> set ?first - {?x}"
  proof
    fix y assume y: "y \<in> passed_events u run s (Some c')"
    then have le: "ev_id y \<le> ev_id ?e" by (simp add: passed_events_def after_cursor_def c')
    have "?e \<in> set ?first" using mem e by simp
    then have "before_boundary (ceilingBoundary u run MAX_SESSION_EVENT_IDS s) ?e"
      unfolding before_boundary_eq [OF assms(1), symmetric] by simp
    then have "before_boundary (ceilingBoundary u run MAX_SESSION_EVENT_IDS s) y"
      using le by (auto simp: before_boundary_def split: option.splits)
    then have "y \<in> set ?first" unfolding before_boundary_eq [OF assms(1), symmetric]
      using y by (simp add: run_events_def passed_events_def)
    with le lt show "y \<in> set ?first - {?x}" by auto
  qed
  then have "card (passed_events u run s (Some c')) \<le> card (set ?first - {?x})" by (intro card_mono) auto
  also have "\<dots> < card (set ?first)" using mem x by (intro psubset_card_mono) auto
  also have "\<dots> \<le> length ?first" by (rule card_length)
  also have "\<dots> \<le> MAX_SESSION_EVENT_IDS" by simp
  finally show "card (passed_events u run s (Some c')) < MAX_SESSION_EVENT_IDS" .
qed

text \<open>What commits between two pages appends events.\<close>

definition appending :: "closer_env \<Rightarrow> bool" where
  "appending env \<longleftrightarrow> (\<forall>k r. events_ok (rs_store r) \<longrightarrow> events_ok (rs_store (env_between env k r)) \<and>
     set (tbl_events (rs_store r)) \<subseteq> set (tbl_events (rs_store (env_between env k r))))"

lemma page_run: "db_op env (\<lambda>k. on_store (withTenant u (query g))) w = (let v = env_between env (db_tick w) (db_review w) in
    (Inr (g (rs_store v)), w\<lparr>db_review := v, db_tick := Suc (db_tick w)\<rparr>))"
  by (simp add: db_op_def on_store_def read_only_run Let_def)

lemma list_pages_ends:
  assumes "appending env"
  shows "events_ok (db_store w) \<Longrightarrow>
    MAX_SESSION_EVENT_IDS \<le> card (passed_events u run (db_store w) c) + n * MAX_SESSION_EVENTS_LIMIT \<Longrightarrow> 0 < n \<Longrightarrow>
    \<exists>r v. list_pages env u run n c w = (Inr r, v)"
proof (induction n arbitrary: c w)
  case (Suc n)
  define v where "v = env_between env (db_tick w) (db_review w)"
  let ?w = "w\<lparr>db_review := v, db_tick := Suc (db_tick w)\<rparr>"
  let ?page = "listSessionEvents u run (page_options MAX_SESSION_EVENT_IDS c) (rs_store v)"
  have ok: "events_ok (rs_store v)" and sub: "set (tbl_events (db_store w)) \<subseteq> set (tbl_events (rs_store v))"
    using assms Suc.prems(1) by (auto simp: appending_def v_def db_store_def)
  show ?case
  proof (cases "sep_next ?page")
    case None
    then show ?thesis by (simp add: and_then_run page_run Let_def flip: v_def)
  next
    case (Some c')
    note page = page_passes [OF ok Some]
    have bound: "MAX_SESSION_EVENT_IDS \<le> card (passed_events u run (db_store ?w) (Some c')) + n * MAX_SESSION_EVENTS_LIMIT"
      using Suc.prems(2) passed_events_mono [OF sub, of u run c] page(1) by (simp add: db_store_def)
    with page(2) have "0 < n" by (cases n) (auto simp: db_store_def)
    moreover have "events_ok (db_store ?w)" using ok by (simp add: db_store_def)
    ultimately obtain r z where "list_pages env u run n (Some c') ?w = (Inr r, z)"
      using Suc.IH [OF _ bound] by blast
    with Some show ?thesis by (simp add: and_then_run page_run Let_def flip: v_def)
  qed
qed simp

text \<open>
  C28. The closer's listing ends. Its loop reads one page per transaction and stops only when a page has no
  successor; whatever events others append between two pages, also with ids behind the cursor, it ends
  within five pages, because every page but the last passes a hundred events and all of them lie below
  the ceiling of five hundred.
\<close>

theorem closer_listing_ends:
  assumes "appending env" and "events_ok (db_store w)"
  shows "\<exists>items truncated w'. listEvents_op (dbSessionCloserRepo env) u run w = (Inr (items, truncated), w')"
proof -
  have "\<exists>r v. list_pages env u run LISTING_PAGES None w = (Inr r, v)"
    by (rule list_pages_ends [OF assms])
      (simp_all add: LISTING_PAGES_def MAX_SESSION_EVENT_IDS_def MAX_SESSION_EVENTS_LIMIT_def)
  then show ?thesis by (auto simp: dbSessionCloserRepo_def)
qed

end
