(* ===== verification/MemoryDisposition.thy ===== *)
theory MemoryDisposition
  imports CommitmentService Services
begin

text \<open>
  Answers to a stale candidate that append nothing: \<open>packages/db/src/memory-disposition.ts\<close>, the
  batch service \<open>packages/core/src/write/revise-disposition.ts\<close> and the archive route
  \<open>packages/core/src/write/archive.ts\<close>. An archive takes a memory out of the active set and leaves its
  validity open; a reaffirm records a review and nothing else.

  Waits: 8 is the account lock, 9 the memory's row lock, 7 the commitment's row lock.
\<close>

section \<open>Inputs and outcomes\<close>

datatype archive_policy = DispositionPolicy | GenericPolicy

datatype rejection = RejNotFound | RejSuperseded | RejOpenCommitment | RejBlocker | RejArchived

datatype outcome = OutArchived | OutAlreadyArchived | OutReaffirmed | OutRejected rejection

record archive_write =
  aw_user :: uid
  aw_memory :: rid
  aw_actor :: actor_kind
  aw_run :: run_arg
  aw_policy :: archive_policy

section \<open>Archive\<close>

definition open_obligation :: "commitment option \<Rightarrow> bool" where
  "open_obligation c = (case c of None \<Rightarrow> False | Some d \<Rightarrow> com_status d = StOpen \<or> com_status d = StWaiting)"

definition judgeArchive ::
  "(store \<Rightarrow> store) \<Rightarrow> archive_write \<Rightarrow> memory \<Rightarrow> bool \<Rightarrow> outcome option stm" where
  "judgeArchive g inp row locked =
     (if mem_status row = Archived then ret (Some OutAlreadyArchived)
      else if mem_valid_to row \<noteq> None then ret (Some (OutRejected RejSuperseded))
      else if aw_policy inp = GenericPolicy then ret None
      else if mem_type row = Blocker then ret (Some (OutRejected RejBlocker))
      else
        bind_tx (if locked then wait_for g else ret ()) (\<lambda>_.
        bind_tx (select_commitment (aw_user inp) (\<lambda>c. com_memory c = aw_memory inp)) (\<lambda>c.
        ret (if open_obligation c then Some (OutRejected RejOpenCommitment) else None))))"

definition shelve_row :: "instant \<Rightarrow> memory \<Rightarrow> memory" where
  "shelve_row t m = m\<lparr>mem_status := Archived, mem_updated_at := t\<rparr>"

definition archiveMemoryIn :: "interference \<Rightarrow> instant \<Rightarrow> jsdate \<Rightarrow> archive_write \<Rightarrow> outcome stm" where
  "archiveMemoryIn gap t now inp = (let u = aw_user inp; i = aw_memory inp; target = (\<lambda>m. mem_id m = i) in
     bind_tx (guardSessionMutation (gap 8) u) (\<lambda>_.
     bind_tx (select_memory u target) (\<lambda>pk. case pk of
       None \<Rightarrow> ret (OutRejected RejNotFound)
     | Some peek \<Rightarrow>
         bind_tx (judgeArchive (gap 7) inp peek False) (\<lambda>early. case early of
           Some v \<Rightarrow> ret v
         | None \<Rightarrow>
             bind_tx (resolveSessionProvenance gap u (aw_run inp) (mem_project peek) now) (\<lambda>runId.
             bind_tx (wait_for (gap 9)) (\<lambda>_.
             bind_tx (select_memory u target) (\<lambda>cur. case cur of
               None \<Rightarrow> ret (OutRejected RejNotFound)
             | Some current \<Rightarrow>
                 bind_tx (judgeArchive (gap 7) inp current True) (\<lambda>late. case late of
                   Some v \<Rightarrow> ret v
                 | None \<Rightarrow>
                     bind_tx (update_memories u target (shelve_row t)) (\<lambda>_.
                     bind_tx (insert_event (event_row t u i EvArchive (aw_actor inp)
                        (Some (DispositionPayload runId DispArchive)))) (\<lambda>_.
                     ret OutArchived))))))))))"

definition archiveMemoryDisposition ::
  "interference \<Rightarrow> instant \<Rightarrow> jsdate \<Rightarrow> uid \<Rightarrow> rid \<Rightarrow> actor_kind \<Rightarrow> run_arg \<Rightarrow> store \<Rightarrow> (err + outcome) \<times> store" where
  "archiveMemoryDisposition gap t now u i a run = withTenant u (archiveMemoryIn gap t now
     \<lparr>aw_user = u, aw_memory = i, aw_actor = a, aw_run = run, aw_policy = DispositionPolicy\<rparr>)"

text \<open>
  The REST route: the transaction commits first, then anything but a fresh archive is a miss. The core
  layer renames the miss.
\<close>

definition archiveMemoryDb ::
  "interference \<Rightarrow> instant \<Rightarrow> jsdate \<Rightarrow> uid \<Rightarrow> rid \<Rightarrow> actor_kind \<Rightarrow> run_arg \<Rightarrow> store \<Rightarrow>
   (err + rid \<times> memory_status) \<times> store" where
  "archiveMemoryDb gap t now u i a run s = (case withTenant u (archiveMemoryIn gap t now
       \<lparr>aw_user = u, aw_memory = i, aw_actor = a, aw_run = run, aw_policy = GenericPolicy\<rparr>) s of
       (Inl e, s') \<Rightarrow> (Inl e, s')
     | (Inr r, s') \<Rightarrow> if r \<noteq> OutArchived then (Inl (ActiveMemoryNotFound i), s') else (Inr (i, Archived), s'))"

definition archiveMemory ::
  "interference \<Rightarrow> instant \<Rightarrow> jsdate \<Rightarrow> uid \<Rightarrow> rid \<Rightarrow> actor_kind \<Rightarrow> run_arg \<Rightarrow> store \<Rightarrow>
   (err + rid \<times> memory_status) \<times> store" where
  "archiveMemory gap t now u i a run s = (case archiveMemoryDb gap t now u i a run s of
       (Inl (ActiveMemoryNotFound _), s') \<Rightarrow> (Inl (MemoryNotFound i), s')
     | r \<Rightarrow> r)"

section \<open>Reaffirm\<close>

definition judgeReaffirm :: "memory \<Rightarrow> outcome option" where
  "judgeReaffirm row =
     (if mem_status row = Archived then Some (OutRejected RejArchived)
      else if mem_valid_to row \<noteq> None then Some (OutRejected RejSuperseded) else None)"

definition review_row :: "instant \<Rightarrow> memory \<Rightarrow> memory" where
  "review_row t m = m\<lparr>mem_last_reviewed := Some t\<rparr>"

definition reaffirmMemoryIn :: "interference \<Rightarrow> instant \<Rightarrow> jsdate \<Rightarrow> archive_write \<Rightarrow> outcome stm" where
  "reaffirmMemoryIn gap t now inp = (let u = aw_user inp; i = aw_memory inp; target = (\<lambda>m. mem_id m = i) in
     bind_tx (guardSessionMutation (gap 8) u) (\<lambda>_.
     bind_tx (select_memory u target) (\<lambda>pk. case pk of
       None \<Rightarrow> ret (OutRejected RejNotFound)
     | Some peek \<Rightarrow> (case judgeReaffirm peek of
         Some v \<Rightarrow> ret v
       | None \<Rightarrow>
           bind_tx (resolveSessionProvenance gap u (aw_run inp) (mem_project peek) now) (\<lambda>runId.
           bind_tx (wait_for (gap 9)) (\<lambda>_.
           bind_tx (select_memory u target) (\<lambda>cur. case cur of
             None \<Rightarrow> ret (OutRejected RejNotFound)
           | Some current \<Rightarrow> (case judgeReaffirm current of
               Some v \<Rightarrow> ret v
             | None \<Rightarrow>
                 bind_tx (update_memories u target (review_row t)) (\<lambda>_.
                 bind_tx (insert_event (event_row t u i EvReaffirm (aw_actor inp)
                    (Some (DispositionPayload runId DispReaffirm)))) (\<lambda>_.
                 ret OutReaffirmed))))))))))"

definition reaffirmMemoryDisposition ::
  "interference \<Rightarrow> instant \<Rightarrow> jsdate \<Rightarrow> uid \<Rightarrow> rid \<Rightarrow> actor_kind \<Rightarrow> run_arg \<Rightarrow> store \<Rightarrow> (err + outcome) \<times> store" where
  "reaffirmMemoryDisposition gap t now u i a run = withTenant u (reaffirmMemoryIn gap t now
     \<lparr>aw_user = u, aw_memory = i, aw_actor = a, aw_run = run, aw_policy = DispositionPolicy\<rparr>)"

section \<open>The batch\<close>

record disposition_input =
  di_kind :: disposition_kind
  di_memories :: "rid list"
  di_run :: run_arg

definition MAX_REVISE_DISPOSITION_IDS :: nat where "MAX_REVISE_DISPOSITION_IDS = 50"

text \<open>What the schema asks of the id batch.\<close>

definition memory_ids_ok :: "rid list \<Rightarrow> bool" where
  "memory_ids_ok ids \<longleftrightarrow> ids \<noteq> [] \<and> length ids \<le> MAX_REVISE_DISPOSITION_IDS \<and> distinct ids"

text \<open>
  One transaction per id. \<open>w_between w k\<close> is what commits before the transaction of the id that has \<open>k\<close>
  ids after it.
\<close>

fun dispose_each ::
  "world \<Rightarrow> (nat \<Rightarrow> rid \<Rightarrow> store \<Rightarrow> (err + outcome) \<times> store) \<Rightarrow> rid list \<Rightarrow> ((rid \<times> outcome) list, store) svc" where
  "dispose_each w dispose [] = done_with []"
| "dispose_each w dispose (i # is) =
     and_then (\<lambda>s. dispose (length is) i (w_between w (length is) s)) (\<lambda>r.
     and_then (dispose_each w dispose is) (\<lambda>rs. done_with ((i, r) # rs)))"

definition dispose_of :: "world \<Rightarrow> uid \<Rightarrow> disposition_input \<Rightarrow> actor_kind \<Rightarrow> nat \<Rightarrow> rid \<Rightarrow> store \<Rightarrow>
    (err + outcome) \<times> store" where
  "dispose_of w u inp a k i = (case di_kind inp of
       DispArchive \<Rightarrow> archiveMemoryDisposition (w_gap w k) (w_t w k) (w_now w k) u i a (di_run inp)
     | DispReaffirm \<Rightarrow> reaffirmMemoryDisposition (w_gap w k) (w_t w k) (w_now w k) u i a (di_run inp))"

text \<open>\<open>access\<close>: the injected gate lets the write through.\<close>

definition reviseDisposition ::
  "world \<Rightarrow> bool \<Rightarrow> uid \<Rightarrow> disposition_input \<Rightarrow> actor_kind \<Rightarrow> ((rid \<times> outcome) list, store) svc" where
  "reviseDisposition w access u inp a =
     (if \<not> memory_ids_ok (di_memories inp) then fail_with ValidationError
      else if \<not> access then fail_with (AccessDenied True)
      else and_then (case di_run inp of RunId r \<Rightarrow> assertSessionRunOwned u r | _ \<Rightarrow> done_with ()) (\<lambda>_.
        dispose_each w (dispose_of w u inp a) (di_memories inp)))"

section \<open>The contract\<close>

lemma mem_step_shelve: "mem_step m (shelve_row t m)"
  and mem_step_review: "mem_step m (review_row t m)"
  by (simp_all add: mem_step_def shelve_row_def review_row_def)

context tenant_contract
begin

lemma within_guardSessionMutation: "(\<And>s. R s (g s)) \<Longrightarrow> moves R (guardSessionMutation g v)"
  unfolding guardSessionMutation_def userIsLiveForIssuance_def getLiveAccountId_def
  by (intro within_statements) auto

lemma within_judgeArchive: "(\<And>s. R s (g s)) \<Longrightarrow> moves R (judgeArchive g inp row locked)"
  unfolding judgeArchive_def by (intro within_statements)

lemma within_archiveMemoryIn:
  assumes "\<And>k s. R s (gap k s)" and "aw_user inp = u"
  shows "moves R (archiveMemoryIn gap t now inp)"
  unfolding archiveMemoryIn_def Let_def assms(2)
  by (intro within_statements within_guardSessionMutation within_judgeArchive
      within_resolveSessionProvenance mem_step_shelve assms(1) row_users)

lemma within_reaffirmMemoryIn:
  assumes "\<And>k s. R s (gap k s)" and "aw_user inp = u"
  shows "moves R (reaffirmMemoryIn gap t now inp)"
  unfolding reaffirmMemoryIn_def Let_def assms(2)
  by (intro within_statements within_guardSessionMutation
      within_resolveSessionProvenance mem_step_review assms(1) row_users)

end

section \<open>What an archive does\<close>

text \<open>The decision, as a function of the store: the contract of \<open>archiveMemoryIn\<close>.\<close>

definition archive_verdict :: "archive_policy \<Rightarrow> uid \<Rightarrow> rid \<Rightarrow> store \<Rightarrow> outcome" where
  "archive_verdict policy u i s = (case predecessor_of u i s of
       None \<Rightarrow> OutRejected RejNotFound
     | Some m \<Rightarrow>
         if mem_status m = Archived then OutAlreadyArchived
         else if mem_valid_to m \<noteq> None then OutRejected RejSuperseded
         else if policy = DispositionPolicy \<and> mem_type m = Blocker then OutRejected RejBlocker
         else if policy = DispositionPolicy \<and> open_obligation (commitment_on u i s) then OutRejected RejOpenCommitment
         else OutArchived)"

definition shelved :: "instant \<Rightarrow> archive_write \<Rightarrow> rid option \<Rightarrow> store \<Rightarrow> store" where
  "shelved t inp run s = s\<lparr>
     tbl_memories := sql_update (\<lambda>m. mem_user m = aw_user inp \<and> mem_id m = aw_memory inp) (shelve_row t) (tbl_memories s),
     tbl_events := tbl_events s @ [(event_row t (aw_user inp) (aw_memory inp) EvArchive (aw_actor inp)
        (Some (DispositionPayload run DispArchive)))\<lparr>ev_id := next_id s\<rparr>],
     next_id := Suc (next_id s)\<rparr>"

text \<open>An update that keeps hashes and validity satisfies the checks and changes no key.\<close>

lemma live_hashes_map:
  "(\<And>m. mem_user (f m) = mem_user m \<and> mem_hash (f m) = mem_hash m \<and> mem_valid_to (f m) = mem_valid_to m) \<Longrightarrow>
   live_hashes (sql_update p f ms) = live_hashes ms"
  by (induction ms) (auto simp: live_hashes_def sql_update_def mem_live_def)

lemma update_memories_run:
  assumes "constraints s" and "\<And>m. mem_hash (f m) = mem_hash m \<and> mem_user (f m) = mem_user m \<and>
      mem_valid_from (f m) = mem_valid_from m \<and> mem_valid_to (f m) = mem_valid_to m"
  shows "update_memories u p f s = Inr (sql_returning (\<lambda>m. mem_user m = u \<and> p m) f (tbl_memories s),
    s\<lparr>tbl_memories := sql_update (\<lambda>m. mem_user m = u \<and> p m) f (tbl_memories s)\<rparr>)"
proof -
  have "live_hashes (sql_update q f ms) = live_hashes ms" for q ms
    by (rule live_hashes_map) (simp add: assms(2))
  moreover have "\<forall>m \<in> set (sql_returning q f (tbl_memories s)). window_ok (mem_valid_from m) (mem_valid_to m)" for q
    using assms by (auto simp: sql_returning_def constraints_def memories_ok_def)
  ultimately show ?thesis
    using assms(1) by (simp add: update_memories_def Let_def constraints_def memories_ok_def)
qed

lemma judgeArchive_run:
  "judgeArchive g inp m locked s = (
     let s1 = (if locked \<and> mem_status m \<noteq> Archived \<and> mem_valid_to m = None \<and> aw_policy inp = DispositionPolicy \<and>
       mem_type m \<noteq> Blocker then g s else s) in
     Inr (if mem_status m = Archived then Some OutAlreadyArchived
       else if mem_valid_to m \<noteq> None then Some (OutRejected RejSuperseded)
       else if aw_policy inp = DispositionPolicy \<and> mem_type m = Blocker then Some (OutRejected RejBlocker)
       else if aw_policy inp = DispositionPolicy \<and> open_obligation (commitment_on (aw_user inp) (aw_memory inp) s1)
         then Some (OutRejected RejOpenCommitment)
       else None, s1))"
  by (cases "aw_policy inp") (simp_all add: judgeArchive_def Let_def ret_def select_commitment_def
      query_def bind_tx_def wait_for_def flip: commitment_on_def)

lemma archive_run:
  assumes "user_live (aw_user inp) s" and "constraints s"
  shows "archiveMemoryIn no_gap t now inp s = (if archive_verdict (aw_policy inp) (aw_user inp) (aw_memory inp) s \<noteq> OutArchived then Inr (archive_verdict (aw_policy inp) (aw_user inp) (aw_memory inp) s, s)
    else case resolveSessionProvenance no_gap (aw_user inp) (aw_run inp)
          (mem_project (the (predecessor_of (aw_user inp) (aw_memory inp) s))) now s of
        Inl e \<Rightarrow> Inl e | Inr (run, s1) \<Rightarrow> Inr (OutArchived, shelved t inp run s1))"
proof (cases "predecessor_of (aw_user inp) (aw_memory inp) s")
  case None
  with assms(1) show ?thesis
    by (simp add: archiveMemoryIn_def Let_def bind_tx_def guardSessionMutation_run select_memory_def
        query_def ret_def archive_verdict_def)
next
  case (Some m)
  note run = archiveMemoryIn_def Let_def bind_tx_def guardSessionMutation_run select_memory_def query_def
    ret_def judgeArchive_run wait_for_def
  show ?thesis
  proof (cases "archive_verdict (aw_policy inp) (aw_user inp) (aw_memory inp) s = OutArchived")
    case False
    with assms(1) Some show ?thesis by (auto simp: run archive_verdict_def split: if_splits)
  next
    case True
    then have v: "mem_status m \<noteq> Archived" "mem_valid_to m = None"
      "\<not> (aw_policy inp = DispositionPolicy \<and> mem_type m = Blocker)"
      "\<not> (aw_policy inp = DispositionPolicy \<and> open_obligation (commitment_on (aw_user inp) (aw_memory inp) s))"
      by (auto simp: Some archive_verdict_def split: if_splits)
    show ?thesis
    proof (cases "resolveSessionProvenance no_gap (aw_user inp) (aw_run inp) (mem_project m) now s")
      case (Inl e)
      with assms(1) Some v True show ?thesis by (auto simp: run)
    next
      case (Inr q)
      obtain r s1 where q: "q = (r, s1)" by (rule prod.exhaust)
      have frame: "only_sessions s s1"
        using Inr withinD [OF only_sessions_resolve] by (simp add: q)
      note fr = only_sessionsD [OF frame]
      have c1: "constraints s1"
        using inv.within_resolveSessionProvenance [of no_gap "aw_user inp" "aw_run inp" "mem_project m" now] Inr assms(2)
        by (auto simp: q inv.no_gap_R moves_def inv_step_def)
      have pk: "predecessor_of (aw_user inp) (aw_memory inp) s1 = Some m"
        "commitment_on (aw_user inp) (aw_memory inp) s1 = commitment_on (aw_user inp) (aw_memory inp) s"
        using Some fr by (simp_all add: commitment_on_def)
      have key: "(aw_user inp, aw_memory inp) \<in> mem_keys (tbl_memories s1)"
        using find_row_Some [OF pk(1)] unfolding mem_keys_def by force
      have upd: "update_memories (aw_user inp) (\<lambda>m. mem_id m = aw_memory inp) (shelve_row t) s1 =
          Inr (sql_returning (\<lambda>m. mem_user m = aw_user inp \<and> mem_id m = aw_memory inp) (shelve_row t) (tbl_memories s1),
            s1\<lparr>tbl_memories := sql_update (\<lambda>m. mem_user m = aw_user inp \<and> mem_id m = aw_memory inp) (shelve_row t) (tbl_memories s1)\<rparr>)"
        by (rule update_memories_run [OF c1]) (simp add: shelve_row_def)
      have "mem_keys (sql_update (\<lambda>m. mem_user m = aw_user inp \<and> mem_id m = aw_memory inp) (shelve_row t) (tbl_memories s1)) =
          mem_keys (tbl_memories s1)"
        by (rule mem_keys_update) (rule mem_step_shelve)
      with key have ev: "insert_event (event_row t (aw_user inp) (aw_memory inp) EvArchive (aw_actor inp)
           (Some (DispositionPayload r DispArchive)))
           (s1\<lparr>tbl_memories := sql_update (\<lambda>m. mem_user m = aw_user inp \<and> mem_id m = aw_memory inp) (shelve_row t) (tbl_memories s1)\<rparr>) =
          Inr (next_id s1, shelved t inp r s1)"
        by (simp add: insert_event_row_Inr shelved_def)
      show ?thesis
        using assms(1) Some v True pk by (simp add: run Inr q upd ev)
    qed
  qed
qed

text \<open>The call of the disposition, with its input named.\<close>

lemma disposition_call:
  obtains inp where "aw_user inp = u" "aw_memory inp = i" "aw_actor inp = a" "aw_run inp = run"
    "aw_policy inp = DispositionPolicy"
    "archiveMemoryDisposition gap t now u i a run = withTenant u (archiveMemoryIn gap t now inp)"
  by (rule that [of "\<lparr>aw_user = u, aw_memory = i, aw_actor = a, aw_run = run, aw_policy = DispositionPolicy\<rparr>"])
    (simp_all add: archiveMemoryDisposition_def)

lemma judge_never_archived: "judgeArchive g inp m locked s \<noteq> Inr (Some OutArchived, s')"
  by (auto simp: judgeArchive_run Let_def)

text \<open>An archive that wrote, taken apart.\<close>

lemma archiveMemoryIn_Inr:
  assumes "archiveMemoryIn gap t now inp s = Inr (OutArchived, s')"
  obtains v m r x rows y e where "predecessor_of (aw_user inp) (aw_memory inp) v = Some m"
    "judgeArchive (gap 7) inp m True v = Inr (None, x)"
    "update_memories (aw_user inp) (\<lambda>m. mem_id m = aw_memory inp) (shelve_row t) x = Inr (rows, y)"
    "insert_event (event_row t (aw_user inp) (aw_memory inp) EvArchive (aw_actor inp)
       (Some (DispositionPayload r DispArchive))) y = Inr (e, s')"
  using assms
  by (auto simp: archiveMemoryIn_def Let_def tx_Inr guardSessionMutation_run select_memory_def
      judge_never_archived)

lemma archive_quiet:
  assumes "archiveMemoryIn no_gap t now inp s = Inr (OutArchived, s')"
    and "user_live (aw_user inp) s" and "constraints s"
  obtains r s1 where "archive_verdict (aw_policy inp) (aw_user inp) (aw_memory inp) s = OutArchived" "only_sessions s s1" "s' = shelved t inp r s1"
proof -
  from assms(1) have v: "archive_verdict (aw_policy inp) (aw_user inp) (aw_memory inp) s = OutArchived"
    unfolding archive_run [OF assms(2,3)] by (auto split: if_splits)
  with assms(1) obtain r s1 where p: "resolveSessionProvenance no_gap (aw_user inp) (aw_run inp)
      (mem_project (the (predecessor_of (aw_user inp) (aw_memory inp) s))) now s = Inr (r, s1)"
      "s' = shelved t inp r s1"
    unfolding archive_run [OF assms(2,3)] by (auto split: sum.splits)
  from p(1) have "only_sessions s s1" by (rule withinD [OF only_sessions_resolve])
  from v this p(2) show ?thesis by (rule that)
qed


text \<open>
  An archived memory keeps its place in the live hash index: until it is superseded, remembering the
  same content is a duplicate and writes nothing.
\<close>

theorem archived_content_still_blocks:
  assumes "archiveMemoryDisposition no_gap t now u i a run s = (Inr OutArchived, s')"
    and "predecessor_of u i s = Some m" and "constraints s" and "user_live u s"
    and "mw_user w = u" and "mw_hash w = mem_hash m" and "mw_valid_to w = None"
    and "writeMemory no_gap t' now' w cap facts s' = (res, s2)"
  shows "(res = Inl (DuplicateMemory (mem_hash m)) \<or> (\<exists>k. res = Inl (UnknownSessionRun k))) \<and> s2 = s'"
proof -
  obtain inp where inp: "aw_user inp = u" "aw_memory inp = i" "aw_actor inp = a" "aw_run inp = run"
      "aw_policy inp = DispositionPolicy"
    and call: "archiveMemoryDisposition no_gap t now u i a run = withTenant u (archiveMemoryIn no_gap t now inp)"
    by (rule disposition_call)
  from assms(1) have run: "archiveMemoryIn no_gap t now inp s = Inr (OutArchived, s')"
    by (simp add: call withTenant_ok)
  from run obtain r s1 where v: "archive_verdict (aw_policy inp) (aw_user inp) (aw_memory inp) s = OutArchived" and "only_sessions s s1"
    and s': "s' = shelved t inp r s1"
    by (rule archive_quiet) (use assms(3,4) inp in simp_all)
  then have s1: "tbl_memories s1 = tbl_memories s" "s' = shelved t inp r s1" by (simp_all add: only_sessionsD)
  from v assms(2) have live: "mem_valid_to m = None" by (auto simp: archive_verdict_def inp split: if_splits)
  from assms(2) have m: "m \<in> set (tbl_memories s)" "mem_user m = u" "mem_id m = i" by (auto dest: find_row_Some)
  have hit: "shelve_row t m \<in> set (tbl_memories s')" "mem_user (shelve_row t m) = u"
    "live_with_hash (mem_hash m) (shelve_row t m)"
    using m live by (auto simp: s1 inp shelved_def set_sql_update shelve_row_def live_with_hash_def)
  show ?thesis
  proof (cases "resolveSessionProvenance no_gap u (mw_run w) (mw_project w) now' s'")
    case (Inl e)
    with assms(5,8) resolveSessionProvenance_error [OF Inl] show ?thesis
      by (auto simp: writeMemory_def withTenant_def run_tx_def map_error_def writeMemory_tx_def bind_tx_def
          duplicate_of_def)
  next
    case (Inr q)
    obtain k v where q: "q = (k, v)" by (rule prod.exhaust)
    with Inr have fr: "tbl_memories v = tbl_memories s'"
      using only_sessionsD [OF withinD [OF only_sessions_resolve]] by blast
    have "\<not> (\<forall>x \<in> set (tbl_memories v). mem_user x = u \<longrightarrow> \<not> live_with_hash (mem_hash m) x)"
      using hit by (auto simp: fr)
    then obtain x where "find_row (\<lambda>x. mem_user x = u \<and> live_with_hash (mem_hash m) x) (tbl_memories v) = Some x"
      by (cases "find_row (\<lambda>x. mem_user x = u \<and> live_with_hash (mem_hash m) x) (tbl_memories v)")
        (auto simp: find_row_None)
    then have "duplicate_guard w v = Inl (DuplicateMemory (mem_hash m))"
      using assms(5-7) by (simp add: duplicate_guard_def select_memory_def throw_def)
    then have "insertMemoryWithEvent no_gap t' w ev cap v = Inl (DuplicateMemory (mem_hash m))" for ev
      by (simp add: insertMemoryWithEvent_def bind_tx_def wait_for_def ret_def)
    with assms(5,8) Inr show ?thesis
      by (simp add: q writeMemory_def withTenant_def run_tx_def map_error_def writeMemory_tx_def bind_tx_def
          duplicate_of_def)
  qed
qed

section \<open>The batch\<close>

definition run_known :: "uid \<Rightarrow> run_arg \<Rightarrow> store \<Rightarrow> bool" where
  "run_known u run s = (case run of RunId r \<Rightarrow> session_of u r s \<noteq> None | _ \<Rightarrow> True)"

lemma resolve_known:
  assumes "run_known u run s"
  obtains r s1 where "resolveSessionProvenance no_gap u run p now s = Inr (r, s1)" "only_sessions s s1"
    "run_known u run s1"
proof -
  have "\<exists>r s1. resolveSessionProvenance no_gap u run p now s = Inr (r, s1) \<and> run_known u run s1"
  proof (cases run)
    case (RunId i)
    then show ?thesis
      using assms by (auto simp: run_known_def resolveSessionProvenance_def attachKnownRun_decision
          session_of_with_session ses_step_heartbeat_row ses_step_resurrect_row)
  next
    case RunOmitted
    then show ?thesis
      by (auto simp: run_known_def resolveSessionProvenance_def attachSingleOpen_unique split: list.splits)
  qed (auto simp: run_known_def resolveSessionProvenance_def ret_def)
  then show ?thesis using that withinD [OF only_sessions_resolve] by blast
qed

abbreviation verdict :: "uid \<Rightarrow> rid \<Rightarrow> store \<Rightarrow> outcome" where
  "verdict \<equiv> archive_verdict DispositionPolicy"

lemma predecessor_of_update:
  assumes "\<And>m. mem_user (f m) = mem_user m \<and> mem_id (f m) = mem_id m"
  shows "find_row (\<lambda>m. mem_user m = u \<and> mem_id m = j) (sql_update (\<lambda>m. mem_user m = u \<and> mem_id m = i) f ms) =
    (if j = i then map_option f (find_row (\<lambda>m. mem_user m = u \<and> mem_id m = j) ms)
     else find_row (\<lambda>m. mem_user m = u \<and> mem_id m = j) ms)"
  using assms by (induction ms) (auto simp: sql_update_def find_row_Cons)

text \<open>What one archive of a batch leaves to the others: its own verdict becomes a repeat.\<close>

lemma archive_step:
  assumes "constraints s" and "user_live u s" and "run_known u run s"
  shows "\<exists>s'. archiveMemoryDisposition no_gap t now u i a run s = (Inr (verdict u i s), s') \<and>
    constraints s' \<and> user_live u s' \<and> run_known u run s' \<and>
    (\<forall>j. verdict u j s' = (if j = i \<and> verdict u i s = OutArchived then OutAlreadyArchived else verdict u j s)) \<and>
    (verdict u i s \<noteq> OutArchived \<longrightarrow> s' = s)"
proof -
  obtain inp where inp: "aw_user inp = u" "aw_memory inp = i" "aw_actor inp = a" "aw_run inp = run"
      "aw_policy inp = DispositionPolicy"
    and call: "archiveMemoryDisposition no_gap t now u i a run = withTenant u (archiveMemoryIn no_gap t now inp)"
    by (rule disposition_call)
  note run = archive_run [of inp s t now, unfolded inp, OF assms(2,1)]
  show ?thesis
  proof (cases "verdict u i s = OutArchived")
    case False
    with assms show ?thesis by (auto simp: call withTenant_def run_tx_def run)
  next
    case True
    obtain r s1 where r: "resolveSessionProvenance no_gap u run (mem_project (the (predecessor_of u i s))) now s = Inr (r, s1)"
        "only_sessions s s1" "run_known u run s1"
      using assms(3) by (rule resolve_known)
    note fr = only_sessionsD [OF r(2)]
    let ?s' = "shelved t inp r s1"
    from True r(1) have ran: "archiveMemoryDisposition no_gap t now u i a run s = (Inr OutArchived, ?s')"
      by (simp add: call withTenant_def run_tx_def run)
    have "inv_step s ?s'"
      using inv.withTenant_within [OF inv.within_archiveMemoryIn, of no_gap inp u s u t now] ran call
      by (simp add: inv.R_refl inp)
    with assms(1) have "constraints ?s'" by (rule inv_stepD [rotated])
    moreover have "user_live u ?s'" "run_known u run ?s'"
      using assms(2) r(3) fr
      by (simp_all add: shelved_def user_live_def SessionLifecycle.select_user_def run_known_def session_of_def
          split: run_arg.splits)
    moreover have "predecessor_of u j ?s' = (if j = i then map_option (shelve_row t) (predecessor_of u j s) else predecessor_of u j s)" for j
      using fr by (simp add: shelved_def inp predecessor_of_update [where f = "shelve_row t"] shelve_row_def)
    then have "verdict u j ?s' = (if j = i then OutAlreadyArchived else verdict u j s)" for j
      using True fr by (auto simp: archive_verdict_def commitment_on_def shelved_def shelve_row_def split: option.splits if_splits)
    ultimately show ?thesis using True ran by auto
  qed
qed

definition repeated :: "outcome \<Rightarrow> outcome" where
  "repeated r = (if r = OutArchived then OutAlreadyArchived else r)"

lemma archive_batch:
  assumes "quiet w" and "constraints s" and "user_live u s" and "run_known u (di_run inp) s"
    and "di_kind inp = DispArchive" and "distinct is"
  shows "\<exists>s'. dispose_each w (dispose_of w u inp a) is s = (Inr (map (\<lambda>i. (i, verdict u i s)) is), s') \<and>
    constraints s' \<and> user_live u s' \<and> run_known u (di_run inp) s' \<and>
    (\<forall>j. verdict u j s' = (if j \<in> set is then repeated (verdict u j s) else verdict u j s)) \<and>
    ((\<forall>i \<in> set is. verdict u i s \<noteq> OutArchived) \<longrightarrow> s' = s)"
  using assms(2-4,6)
proof (induction "is" arbitrary: s)
  case Nil
  then show ?case by (simp add: done_with_def)
next
  case (Cons i "is")
  from archive_step [OF Cons.prems(1-3), of "w_t w (length is)" "w_now w (length is)" i a] obtain v where
    v: "archiveMemoryDisposition no_gap (w_t w (length is)) (w_now w (length is)) u i a (di_run inp) s = (Inr (verdict u i s), v)"
      "constraints v" "user_live u v" "run_known u (di_run inp) v"
      "\<And>j. verdict u j v = (if j = i \<and> verdict u i s = OutArchived then OutAlreadyArchived else verdict u j s)"
      "verdict u i s \<noteq> OutArchived \<Longrightarrow> v = s" by blast
  from Cons.prems(4) have d: "distinct is" "i \<notin> set is" by auto
  from Cons.IH [OF v(2-4) d(1)] obtain s' where
    s': "dispose_each w (dispose_of w u inp a) is v = (Inr (map (\<lambda>i. (i, verdict u i v)) is), s')"
      "constraints s'" "user_live u s'" "run_known u (di_run inp) s'"
      "\<And>j. verdict u j s' = (if j \<in> set is then repeated (verdict u j v) else verdict u j v)"
      "(\<forall>i \<in> set is. verdict u i v \<noteq> OutArchived) \<Longrightarrow> s' = v" by blast
  have same: "verdict u j v = verdict u j s" if "j \<in> set is" for j using that d(2) by (auto simp: v(5))
  then have "map (\<lambda>i. (i, verdict u i v)) is = map (\<lambda>i. (i, verdict u i s)) is" by simp
  then have "dispose_each w (dispose_of w u inp a) (i # is) s = (Inr (map (\<lambda>i. (i, verdict u i s)) (i # is)), s')"
    using v(1) s'(1) assms(1,5) by (simp add: quiet_def dispose_of_def and_then_def done_with_def)
  moreover have "verdict u j s' = (if j \<in> set (i # is) then repeated (verdict u j s) else verdict u j s)" for j
    using same d(2) by (auto simp: s'(5) v(5) repeated_def)
  moreover have "s' = s" if "\<forall>j \<in> set (i # is). verdict u j s \<noteq> OutArchived"
    using that s'(6) v(6) same by auto
  ultimately show ?case using s'(2-4) by blast
qed

text \<open>
  C6. An archive batch may be retried. With nothing else committing, a batch answers every id with its own
  verdict, decided on the store the batch started from whatever the other ids are; calling it again answers
  \<open>already_archived\<close> for the ids it archived and the same for the rest, and writes nothing at all.
\<close>

theorem disposition_retry:
  assumes "quiet w" and "quiet w'" and "constraints s" and "user_live u s" and "di_kind inp = DispArchive"
    and "reviseDisposition w True u inp a s = (Inr outs, s1)"
    and "reviseDisposition w' True u inp a s1 = (res, s2)"
  shows "outs = map (\<lambda>i. (i, archive_verdict DispositionPolicy u i s)) (di_memories inp) \<and>
    res = Inr (map (\<lambda>(i, r). (i, if r = OutArchived then OutAlreadyArchived else r)) outs) \<and> s2 = s1"
proof -
  have owned: "(case di_run inp of RunId r \<Rightarrow> assertSessionRunOwned u r | _ \<Rightarrow> done_with ()) v =
      (if run_known u (di_run inp) v then (Inr (), v) else (Inl (UnknownSessionRun (case di_run inp of RunId r \<Rightarrow> r | _ \<Rightarrow> 0)), v))" for v
    by (auto simp: run_known_def done_with_def assertSessionRunOwned_def withTenant_def run_tx_def
        assertSessionRunOwnedIn_def bind_runs throw_def ret_def split: run_arg.splits option.splits)
  from assms(6) have ids: "memory_ids_ok (di_memories inp)"
    by (auto simp: reviseDisposition_def fail_with_def split: if_splits)
  with assms(6) have known: "run_known u (di_run inp) s"
    by (auto simp: reviseDisposition_def and_then_def owned split: if_splits)
  from ids have d: "distinct (di_memories inp)" by (simp add: memory_ids_ok_def)
  from archive_batch [OF assms(1,3,4) known assms(5) d] obtain v where
    v: "dispose_each w (dispose_of w u inp a) (di_memories inp) s = (Inr (map (\<lambda>i. (i, verdict u i s)) (di_memories inp)), v)"
      "constraints v" "user_live u v" "run_known u (di_run inp) v"
      "\<And>j. verdict u j v = (if j \<in> set (di_memories inp) then repeated (verdict u j s) else verdict u j s)" by blast
  from assms(6) ids known v(1) have first: "outs = map (\<lambda>i. (i, verdict u i s)) (di_memories inp)" "s1 = v"
    by (auto simp: reviseDisposition_def and_then_def owned)
  from archive_batch [OF assms(2) v(2-4) assms(5) d, of a] obtain z where
    z: "dispose_each w' (dispose_of w' u inp a) (di_memories inp) v = (Inr (map (\<lambda>i. (i, verdict u i v)) (di_memories inp)), z)"
      "(\<forall>i \<in> set (di_memories inp). verdict u i v \<noteq> OutArchived) \<Longrightarrow> z = v" by blast
  have "z = v" by (rule z(2)) (auto simp: v(5) repeated_def)
  with assms(7) ids v(4) z(1) first have "res = Inr (map (\<lambda>i. (i, verdict u i v)) (di_memories inp))" "s2 = s1"
    by (auto simp: reviseDisposition_def and_then_def owned)
  then show ?thesis using v(5) by (auto simp: first repeated_def)
qed

end
