(* ===== verification/MemoryImport.thy ===== *)
theory MemoryImport
  imports MemoryDisposition
begin

text \<open>
  Importing memories with their history (\<open>packages/db/src/memory-import.ts\<close>) and the embedding column
  (\<open>packages/db/src/memory-embedding.ts\<close>). An import appends like any write but takes timestamps,
  status and the commitment's first state from the caller; the embedding is derived data of a live row.

  Waits: those of an append (4, 5), 14 the edge's index entry, 6 the predecessor's row lock and 15 the
  embedded row's lock. Payloads of imported events are opaque (\<open>SourcePayload\<close>).
\<close>

section \<open>Imported memories\<close>

record imported_commitment =
  ic_status :: commitment_status
  ic_owner :: "string option"
  ic_due_at :: "jsdate option"
  ic_resolved_at :: "jsdate option"
  ic_recurrence :: "string option"

record imported_memory =
  im_write :: memory_write
  im_payload :: "string option"
  im_created_at :: "jsdate option"
  im_commitment :: "imported_commitment option"

definition requireMemory :: "uid \<Rightarrow> rid \<Rightarrow> unit stm" where
  "requireMemory u i = bind_tx (select_memory u (\<lambda>m. mem_id m = i)) (\<lambda>row.
     case row of None \<Rightarrow> throw (ImportTargetNotFound i) | Some _ \<Rightarrow> ret ())"

definition import_event :: "imported_memory \<Rightarrow> event_write" where
  "import_event inp = \<lparr>ew_kind = EvImport, ew_payload = map_option SourcePayload (im_payload inp),
     ew_created_at = im_created_at inp\<rparr>"

definition imported_commitment_row :: "instant \<Rightarrow> uid \<Rightarrow> rid \<Rightarrow> imported_commitment option \<Rightarrow> commitment" where
  "imported_commitment_row t u m st = (case st of
       None \<Rightarrow> commitment_row t u m None None
     | Some c \<Rightarrow> (commitment_row t u m (ic_owner c) (ic_due_at c))\<lparr>com_status := ic_status c,
         com_resolved_at := map_option sql_of_date (ic_resolved_at c), com_recurrence := ic_recurrence c\<rparr>)"

definition writeImportedMemory_tx ::
  "interference \<Rightarrow> instant \<Rightarrow> imported_memory \<Rightarrow> nat option \<Rightarrow> written_memory stm" where
  "writeImportedMemory_tx gap t inp cap = (let w = im_write inp in
     bind_tx (insertMemoryWithEvent gap t w (import_event inp) cap) (\<lambda>i.
     if mw_type w \<noteq> Commitment then ret \<lparr>wm_id = i, wm_commitment = None, wm_facts = None\<rparr>
     else bind_tx (insert_commitment (imported_commitment_row t (mw_user w) i (im_commitment inp))) (\<lambda>c.
       ret \<lparr>wm_id = i, wm_commitment = Some c, wm_facts = None\<rparr>)))"

definition writeImportedMemory ::
  "interference \<Rightarrow> instant \<Rightarrow> imported_memory \<Rightarrow> nat option \<Rightarrow> store \<Rightarrow> (err + written_memory) \<times> store" where
  "writeImportedMemory gap t inp cap = withTenant (mw_user (im_write inp))
     (map_error (duplicate_of (mw_hash (im_write inp))) (writeImportedMemory_tx gap t inp cap))"

section \<open>Imported events, edges and facts\<close>

record imported_event =
  ie_user :: uid
  ie_memory :: rid
  ie_kind :: event_kind
  ie_actor :: actor_kind
  ie_payload :: "string option"
  ie_created_at :: "jsdate option"

definition appendImportedEvent_tx :: "instant \<Rightarrow> imported_event \<Rightarrow> rid stm" where
  "appendImportedEvent_tx t inp =
     bind_tx (requireMemory (ie_user inp) (ie_memory inp)) (\<lambda>_.
     insert_event ((event_row t (ie_user inp) (ie_memory inp) (ie_kind inp) (ie_actor inp)
       (map_option SourcePayload (ie_payload inp)))\<lparr>ev_created_at := default_instant t (ie_created_at inp)\<rparr>))"

definition appendImportedEvent :: "instant \<Rightarrow> imported_event \<Rightarrow> store \<Rightarrow> (err + rid) \<times> store" where
  "appendImportedEvent t inp = withTenant (ie_user inp) (appendImportedEvent_tx t inp)"

record imported_edge =
  ig_user :: uid
  ig_from :: rid
  ig_to :: rid
  ig_kind :: edge_type
  ig_created_by :: actor_kind
  ig_close_at :: "jsdate option"

definition close_row_at :: "instant \<Rightarrow> instant \<Rightarrow> memory \<Rightarrow> memory" where
  "close_row_at t c m = m\<lparr>mem_valid_to := Some c, mem_updated_at := t\<rparr>"

definition writeImportedEdge_tx :: "interference \<Rightarrow> instant \<Rightarrow> imported_edge \<Rightarrow> unit stm" where
  "writeImportedEdge_tx gap t inp = (let u = ig_user inp; to = ig_to inp in
     bind_tx (requireMemory u (ig_from inp)) (\<lambda>_.
     bind_tx (select_memory u (\<lambda>m. mem_id m = to)) (\<lambda>pr. case pr of
       None \<Rightarrow> throw (ImportTargetNotFound to)
     | Some predecessor \<Rightarrow>
         bind_tx (wait_for (gap 14)) (\<lambda>_.
         bind_tx (insertEdge t u (ig_from inp) to (ig_kind inp) (ig_created_by inp)) (\<lambda>_.
         case ig_close_at inp of
           None \<Rightarrow> ret ()
         | Some at \<Rightarrow>
             if mem_valid_to predecessor \<noteq> None then throw (PredecessorAlreadySuperseded to)
             else
               bind_tx (wait_for (gap 6)) (\<lambda>_.
               bind_tx (update_memories u (open_row_of to) (close_row_at t (sql_of_date at))) (\<lambda>closed. case closed of
                 [] \<Rightarrow> throw (PredecessorAlreadySuperseded to)
               | _ # _ \<Rightarrow> ret ())))))))"

definition writeImportedEdge :: "interference \<Rightarrow> instant \<Rightarrow> imported_edge \<Rightarrow> store \<Rightarrow> (err + unit) \<times> store" where
  "writeImportedEdge gap t inp = withTenant (ig_user inp) (writeImportedEdge_tx gap t inp)"

definition insertImportedFact_tx :: "instant \<Rightarrow> fact_write \<Rightarrow> rid stm" where
  "insertImportedFact_tx t f =
     bind_tx (requireMemory (fw_user f) (fw_memory f)) (\<lambda>_. insertFact t f False)"

definition insertImportedFact :: "instant \<Rightarrow> fact_write \<Rightarrow> store \<Rightarrow> (err + rid) \<times> store" where
  "insertImportedFact t f = withTenant (fw_user f) (insertImportedFact_tx t f)"

section \<open>The embedding column\<close>

text \<open>A number of the vector is its decimal text, as JavaScript prints it.\<close>

definition toVectorLiteral :: "string list \<Rightarrow> string" where
  "toVectorLiteral embedding = ''['' @ concat (case embedding of [] \<Rightarrow> [] | x # xs \<Rightarrow> x # map (\<lambda>y. '','' @ y) xs) @ '']''"

definition embed_row :: "instant \<Rightarrow> string \<Rightarrow> memory \<Rightarrow> memory" where
  "embed_row t vec m = m\<lparr>mem_embedding := Some vec, mem_updated_at := t\<rparr>"

definition updateMemoryEmbedding_tx :: "interference \<Rightarrow> instant \<Rightarrow> uid \<Rightarrow> rid \<Rightarrow> string list \<Rightarrow> bool stm" where
  "updateMemoryEmbedding_tx gap t u i embedding =
     bind_tx (wait_for (gap 15)) (\<lambda>_.
     bind_tx (update_memories u (open_row_of i) (embed_row t (toVectorLiteral embedding))) (\<lambda>updated.
     ret (updated \<noteq> [])))"

definition updateMemoryEmbedding ::
  "interference \<Rightarrow> instant \<Rightarrow> uid \<Rightarrow> rid \<Rightarrow> string list \<Rightarrow> store \<Rightarrow> (err + bool) \<times> store" where
  "updateMemoryEmbedding gap t u i embedding = withTenant u (updateMemoryEmbedding_tx gap t u i embedding)"

definition recordEmbedFailure_tx :: "instant \<Rightarrow> uid \<Rightarrow> rid \<Rightarrow> actor_kind \<Rightarrow> string \<Rightarrow> unit stm" where
  "recordEmbedFailure_tx t u i a reason =
     bind_tx (insert_event (event_row t u i EvEmbedFailed a (Some (ReasonPayload reason)))) (\<lambda>_. ret ())"

definition recordEmbedFailure :: "instant \<Rightarrow> uid \<Rightarrow> rid \<Rightarrow> actor_kind \<Rightarrow> string \<Rightarrow> store \<Rightarrow> (err + unit) \<times> store" where
  "recordEmbedFailure t u i a reason = withTenant u (recordEmbedFailure_tx t u i a reason)"

definition embed_failed :: "uid \<Rightarrow> store \<Rightarrow> memory \<Rightarrow> bool" where
  "embed_failed u s m \<longleftrightarrow> mem_user m = u \<and> mem_embedding m = None \<and> mem_valid_to m = None \<and>
     (\<exists>e \<in> set (tbl_events s). ev_user e = mem_user m \<and> ev_memory e = mem_id m \<and> ev_kind e = EvEmbedFailed)"

definition listEmbedFailedMemories :: "uid \<Rightarrow> nat \<Rightarrow> store \<Rightarrow> (rid \<times> string) list" where
  "listEmbedFailedMemories u limit s = map (\<lambda>m. (mem_id m, mem_content m))
     (take limit (sort_key mem_id (filter (embed_failed u s) (tbl_memories s))))"

section \<open>The contract\<close>

lemma mem_step_close_at: "open_row_of i m \<Longrightarrow> mem_step m (close_row_at t c m)"
  and mem_step_embed: "mem_step m (embed_row t v m)"
  by (simp_all add: mem_step_def close_row_at_def embed_row_def open_row_of_def)

lemma imported_commitment_user [simp]: "com_user (imported_commitment_row t u m st) = u"
  by (simp add: imported_commitment_row_def split: option.split)

context tenant_contract
begin

lemma within_requireMemory: "moves R (requireMemory u i)"
  unfolding requireMemory_def by (intro within_statements)

lemma within_writeImportedMemory_tx:
  assumes "\<And>k s. R s (gap k s)" and "mw_user (im_write inp) = u"
  shows "moves R (writeImportedMemory_tx gap t inp cap)"
  unfolding writeImportedMemory_tx_def Let_def
  by (intro within_statements within_insertMemoryWithEvent assms) (simp add: assms(2))

lemma within_appendImportedEvent_tx: "ie_user inp = u \<Longrightarrow> moves R (appendImportedEvent_tx t inp)"
  unfolding appendImportedEvent_tx_def by (intro within_statements) (simp_all add: within_requireMemory)

lemma within_writeImportedEdge_tx:
  assumes "\<And>k s. R s (gap k s)" and "ig_user inp = u"
  shows "moves R (writeImportedEdge_tx gap t inp)"
  unfolding writeImportedEdge_tx_def Let_def assms(2)
  by (intro within_statements within_requireMemory within_insertEdge mem_step_close_at assms(1))

lemma within_insertImportedFact_tx: "fw_user f = u \<Longrightarrow> moves R (insertImportedFact_tx t f)"
  unfolding insertImportedFact_tx_def insertFact_def
  by (intro within_statements within_insertFacts) (simp_all add: within_requireMemory)

lemma within_updateMemoryEmbedding_tx:
  "(\<And>k s. R s (gap k s)) \<Longrightarrow> moves R (updateMemoryEmbedding_tx gap t u i v)"
  unfolding updateMemoryEmbedding_tx_def by (intro within_statements mem_step_embed)

lemma within_recordEmbedFailure_tx: "moves R (recordEmbedFailure_tx t u i a r)"
  unfolding recordEmbedFailure_tx_def by (intro within_statements row_users)

end

section \<open>What an import does\<close>

text \<open>
  An import lands as given. The appended row carries the caller's status and timestamps and its
  \<open>import\<close> event the source's payload and time; a commitment memory gets its commitment at the caller's first
  state without passing the state machine, any other type gets none. A row imported already closed does
  not enter the live hash index, so it may share its content with a live memory.
\<close>

theorem import_lands_as_given:
  assumes "writeImportedMemory gap t inp cap s = (Inr r, s')"
  shows "\<exists>v :: store. (let w = im_write inp; u = mw_user w in
    tbl_memories s' = tbl_memories v @ [(memory_row t w)\<lparr>mem_id := wm_id r\<rparr>] \<and>
    tbl_events s' = tbl_events v @ [(event_row t u (wm_id r) EvImport (mw_actor w) (map_option SourcePayload (im_payload inp)))
      \<lparr>ev_id := Suc (wm_id r), ev_created_at := default_instant t (im_created_at inp)\<rparr>] \<and>
    (mw_valid_to w = None \<longrightarrow> (\<forall>m \<in> set (tbl_memories v). mem_user m = u \<longrightarrow> mem_hash m = mw_hash w \<longrightarrow>
       mem_valid_to m \<noteq> None)) \<and>
    (case wm_commitment r of None \<Rightarrow> mw_type w \<noteq> Commitment \<and> tbl_commitments s' = tbl_commitments v
     | Some c \<Rightarrow> mw_type w = Commitment \<and> tbl_commitments s' = tbl_commitments v @
         [(imported_commitment_row t u (wm_id r) (im_commitment inp))\<lparr>com_id := c\<rparr>]))"
proof -
  let ?w = "im_write inp"
  from assms have "writeImportedMemory_tx gap t inp cap s = Inr (r, s')"
    by (simp add: writeImportedMemory_def withTenant_ok map_error_Inr)
  then obtain i v where app: "row_fits t ?w v" "i = next_id v"
    and c: "(if mw_type ?w \<noteq> Commitment then ret \<lparr>wm_id = i, wm_commitment = None, wm_facts = None\<rparr>
      else bind_tx (insert_commitment (imported_commitment_row t (mw_user ?w) i (im_commitment inp))) (\<lambda>c.
        ret \<lparr>wm_id = i, wm_commitment = Some c, wm_facts = None\<rparr>)) (appended t ?w (import_event inp) v) = Inr (r, s')"
    unfolding writeImportedMemory_tx_def Let_def bind_tx_Inr insertMemoryWithEvent_Inr by blast
  have live: "mw_valid_to ?w = None \<longrightarrow> (\<forall>m \<in> set (tbl_memories v). mem_user m = mw_user ?w \<longrightarrow>
      mem_hash m = mw_hash ?w \<longrightarrow> mem_valid_to m \<noteq> None)"
    using app(1) by (force simp: row_fits_def live_hashes_def memory_row_def mem_live_def)
  from c app(2) live show ?thesis
    by (intro exI [of _ v])
      (auto simp: Let_def import_event_def insert_commitment_def bind_tx_Inr split: if_splits)
qed

text \<open>
  An imported supersession is linked and closed together. If it returns, the edge is there and the
  predecessor's validity ends exactly at the given instant, which is not before it began; the row is as it
  was otherwise, and an older close is never moved.
\<close>

theorem imported_supersession:
  assumes "writeImportedEdge gap t inp s = (Inr (), s')" and "ig_close_at inp = Some at"
    and "constraints s" and "\<And>k v. constraints v \<Longrightarrow> constraints (gap k v)"
  shows "\<exists>v m. predecessor_of (ig_user inp) (ig_to inp) v = Some m \<and> mem_valid_to m = None \<and>
    predecessor_of (ig_user inp) (ig_to inp) s' = Some (close_row_at t (sql_of_date at) m) \<and>
    mem_valid_from m \<le> sql_of_date at \<and>
    (\<forall>j. j \<noteq> ig_to inp \<longrightarrow> predecessor_of (ig_user inp) j s' = predecessor_of (ig_user inp) j v) \<and>
    (\<exists>e. (ig_user inp, ig_from inp, ig_to inp, ig_kind inp) = edge_key e \<and> (\<exists>v'. v = gap 6 v' \<and> e \<in> set (tbl_edges v')))"
proof -
  let ?u = "ig_user inp" and ?to = "ig_to inp" and ?f = "close_row_at t (sql_of_date at)"
  let ?q = "\<lambda>m. mem_user m = ?u \<and> open_row_of ?to m"
  from assms(1) have run: "writeImportedEdge_tx gap t inp s = Inr ((), s')"
    by (simp add: writeImportedEdge_def withTenant_ok)
  then obtain v' z row rows where e: "insertEdge t ?u (ig_from inp) ?to (ig_kind inp) (ig_created_by inp) z = Inr ((), v')"
    and upd: "update_memories ?u (open_row_of ?to) ?f (gap 6 v') = Inr (row # rows, s')"
    unfolding writeImportedEdge_tx_def Let_def by (auto simp: tx_Inr assms(2) split: if_splits)
  obtain v where v: "v = gap 6 v'" by blast
  from upd have u: "sql_returning ?q ?f (tbl_memories v) = row # rows"
    and s': "s' = v\<lparr>tbl_memories := sql_update ?q ?f (tbl_memories v)\<rparr>"
    and w: "\<forall>m \<in> set (row # rows). window_ok (mem_valid_from m) (mem_valid_to m)"
    by (auto simp: v update_memories_def Let_def split: if_splits)
  have "inv_step s s'"
    by (rule withinD [OF inv.within_writeImportedEdge_tx run]) (use assms(4) in \<open>auto simp: inv_step_def\<close>)
  with assms(3) have "constraints s'" by (simp add: inv_step_def)
  moreover have "map mem_id (tbl_memories s') = map mem_id (tbl_memories v)"
    unfolding s' by simp (rule sql_update_cong_key, simp add: close_row_at_def)
  ultimately have d: "distinct (map mem_id (tbl_memories v))"
    by (simp add: constraints_def memories_ok_def ids_ok_def)
  from u have "row \<in> set (sql_returning ?q ?f (tbl_memories v))" by simp
  then obtain m where m: "m \<in> set (tbl_memories v)" "?q m" "row = ?f m" by (auto dest: sql_returning_mem)
  then have pred: "predecessor_of ?u ?to v = Some m"
    by (intro find_row_unique [OF d]) (auto simp: open_row_of_def)
  have only: "?q r = (mem_user r = ?u \<and> mem_id r = ?to)" if "r \<in> set (tbl_memories v)" for r
  proof -
    have "mem_id r = mem_id m \<Longrightarrow> r = m" using inj_onD [OF conjunct2 [OF d [unfolded distinct_map]] _ that m(1)] .
    with m(2) show ?thesis by (auto simp: open_row_of_def)
  qed
  have "sql_update ?q ?f (tbl_memories v) = sql_update (\<lambda>r. mem_user r = ?u \<and> mem_id r = ?to) ?f (tbl_memories v)"
    unfolding sql_update_def by (rule map_cong [OF refl]) (simp only: only)
  then have P: "predecessor_of ?u j s' = (if j = ?to then map_option ?f (predecessor_of ?u j v) else predecessor_of ?u j v)" for j
    by (simp add: s' predecessor_of_update close_row_at_def)
  let ?k = "(edge_row t ?u (ig_from inp) ?to (ig_kind inp) (ig_created_by inp))\<lparr>edge_id := next_id z\<rparr>"
  have "edge_key ?k = (?u, ig_from inp, ?to, ig_kind inp)" by (simp add: edge_key_def edge_row_def)
  moreover have "?k \<in> set (tbl_edges v')" using e by (simp add: insertEdge_Inr)
  ultimately have edge: "\<exists>e. (?u, ig_from inp, ?to, ig_kind inp) = edge_key e \<and> (\<exists>v'. v = gap 6 v' \<and> e \<in> set (tbl_edges v'))"
    using v by metis
  have "window_ok (mem_valid_from row) (mem_valid_to row)" using w by simp
  then have le: "mem_valid_from m \<le> sql_of_date at" by (simp add: m(3) close_row_at_def window_ok_def)
  have open_m: "mem_valid_to m = None" using m(2) by (simp add: open_row_of_def)
  have "predecessor_of ?u ?to s' = Some (?f m)" by (simp add: P pred)
  moreover have "\<forall>j. j \<noteq> ?to \<longrightarrow> predecessor_of ?u j s' = predecessor_of ?u j v" by (simp add: P)
  ultimately show ?thesis using pred open_m le edge by blast
qed

lemma listed_failed:
  "(i, c) \<in> set (listEmbedFailedMemories u limit s) \<Longrightarrow>
   \<exists>m \<in> set (tbl_memories s). embed_failed u s m \<and> mem_id m = i \<and> mem_content m = c"
  by (auto simp: listEmbedFailedMemories_def dest!: in_set_takeD)

lemma all_failed_listed:
  assumes "m \<in> set (tbl_memories s)" and "embed_failed u s m"
  shows "(mem_id m, mem_content m) \<in> set (listEmbedFailedMemories u (length (tbl_memories s)) s)"
proof -
  have "length (sort_key mem_id (filter (embed_failed u s) (tbl_memories s))) \<le> length (tbl_memories s)" by simp
  then have "set (take (length (tbl_memories s)) (sort_key mem_id (filter (embed_failed u s) (tbl_memories s)))) =
      set (filter (embed_failed u s) (tbl_memories s))" by simp
  then show ?thesis using assms by (auto simp: listEmbedFailedMemories_def)
qed

text \<open>
  A failed embedding stays repairable until one lands. Recording a failure puts a live memory without a
  vector into the repair list; a vector that lands takes it out; a superseded memory is never stamped.
\<close>

theorem embed_failures_are_repairable:
  assumes "recordEmbedFailure t u i a reason s = (Inr (), s1)" and "constraints s"
    and "predecessor_of u i s = Some m" and "mem_embedding m = None"
    and "updateMemoryEmbedding no_gap t' u i vec s1 = (Inr landed, s2)"
  shows "(mem_valid_to m = None \<longrightarrow> (i, mem_content m) \<in> set (listEmbedFailedMemories u (length (tbl_memories s)) s1)) \<and>
    landed = (mem_valid_to m = None) \<and>
    (\<forall>limit c. (i, c) \<notin> set (listEmbedFailedMemories u limit s2)) \<and> (\<not> landed \<longrightarrow> s2 = s1)"
proof -
  have s1: "s1 = s\<lparr>tbl_events := tbl_events s @ [(event_row t u i EvEmbedFailed a (Some (ReasonPayload reason)))\<lparr>ev_id := next_id s\<rparr>],
      next_id := Suc (next_id s)\<rparr>"
    using assms(1) by (auto simp: recordEmbedFailure_def withTenant_ok recordEmbedFailure_tx_def bind_tx_Inr insert_event_row_Inr)
  from assms(3) have m: "m \<in> set (tbl_memories s)" "mem_user m = u" "mem_id m = i" by (auto dest: find_row_Some)
  have d: "distinct (map mem_id (tbl_memories s))" using assms(2) by (simp add: constraints_def memories_ok_def ids_ok_def)
  then have only: "r = m" if "r \<in> set (tbl_memories s)" "mem_id r = i" for r
    using that m by (auto simp: distinct_map inj_on_def)
  let ?q = "\<lambda>m. mem_user m = u \<and> open_row_of i m" and ?f = "embed_row t' (toVectorLiteral vec)"
  from assms(5) have land: "landed = (sql_returning ?q ?f (tbl_memories s) \<noteq> [])"
    and s2: "s2 = s1\<lparr>tbl_memories := sql_update ?q ?f (tbl_memories s)\<rparr>"
    by (auto simp: updateMemoryEmbedding_def withTenant_ok updateMemoryEmbedding_tx_def tx_Inr s1
        dest!: update_memories_Inr)
  have q: "?q r \<longleftrightarrow> r = m \<and> mem_valid_to m = None" if "r \<in> set (tbl_memories s)" for r
    using only [OF that] m by (auto simp: open_row_of_def)
  have landed: "landed = (mem_valid_to m = None)" using q m(1) by (auto simp: land sql_returning_Nil)
  have "(i, c) \<notin> set (listEmbedFailedMemories u limit s2)" for limit c
  proof
    assume "(i, c) \<in> set (listEmbedFailedMemories u limit s2)"
    then obtain r where r: "r \<in> set (sql_update ?q ?f (tbl_memories s))" "embed_failed u s2 r" "mem_id r = i"
      by (auto simp: s2 dest: listed_failed)
    then have no: "mem_embedding r = None" "mem_valid_to r = None" by (simp_all add: embed_failed_def)
    from r(1) obtain x where x: "x \<in> set (tbl_memories s)" "r = (if ?q x then ?f x else x)"
      by (auto simp: sql_update_def)
    with no(1) have "\<not> ?q x" by (auto simp: embed_row_def)
    then have "r = x" "\<not> (x = m \<and> mem_valid_to m = None)" using x(2) q [OF x(1)] by (simp_all only: if_False not_False_eq_True refl)
    with x(1) r(3) only [of x] no(2) show False by simp
  qed
  moreover have "(i, mem_content m) \<in> set (listEmbedFailedMemories u (length (tbl_memories s)) s1)" if "mem_valid_to m = None"
  proof -
    have "embed_failed u s1 m" using that m assms(4) by (simp add: embed_failed_def s1 event_row_def)
    with all_failed_listed [of m s1 u] m show ?thesis by (simp add: s1)
  qed
  moreover have "s2 = s1" if "\<not> landed"
    using that q by (auto simp: s2 landed s1 sql_update_none)
  ultimately show ?thesis using landed by blast
qed

end
