(* ===== verification/EdgeProposals.thy ===== *)
theory EdgeProposals
  imports ResolutionProposals MemoryImport
begin

text \<open>
  Consolidation proposals: staging (\<open>packages/db/src/proposals-write.ts\<close>), reading and rejecting
  (\<open>proposals-read.ts\<close>) and applying (\<open>proposals-apply.ts\<close>). Applying materialises the proposed edge and, for
  an edge that supersedes, closes the predecessor and carries its commitment.

  \<open>proposal_db\<close> holds all four proposal tables beside the store. Ids are drawn from one counter: the
  source's are uuids, unique across tables. Waits on the store: 8 the account lock, 16 the endpoints' row
  locks, 7 the commitment's row lock, 14 the edge's index entry. \<open>pg\<close> is what commits while a statement
  waits for a proposal's row.
\<close>

section \<open>Tables (packages/db/src/schema/memory.ts)\<close>

text \<open>A similarity is the rational of its value; a confidence is an opaque code, as in \<open>Store\<close>.\<close>

record edge_proposal =
  ep_id :: rid
  ep_user :: uid
  ep_from :: rid
  ep_to :: rid
  ep_edge :: edge_type
  ep_memory_type :: memory_type
  ep_similarity :: rat
  ep_rationale :: "string option"
  ep_status :: proposal_status
  ep_decided_at :: "instant option"
  ep_created :: instant

record fact_proposal =
  fp_id :: rid
  fp_user :: uid
  fp_memory :: rid
  fp_subject :: string
  fp_predicate :: string
  fp_value :: string
  fp_confidence :: "int option"
  fp_valid_from :: "instant option"
  fp_valid_to :: "instant option"
  fp_memory_type :: memory_type
  fp_rationale :: "string option"
  fp_status :: proposal_status
  fp_decided_at :: "instant option"
  fp_created :: instant

datatype retention_action = Keep | ArchiveIt | SupersedeIt | ConflictWith

datatype retention_status = RetProposed | RetApplied | RetRejected | RetDismissed

record retention_proposal =
  np_id :: rid
  np_user :: uid
  np_memory :: rid
  np_action :: retention_action
  np_related :: "rid option"
  np_probability :: rat
  np_probabilities :: "(string \<times> rat) list"
  np_model :: string
  np_status :: retention_status
  np_decided_at :: "instant option"
  np_created :: instant

record proposal_db =
  pd_review :: review_store
  pd_edges :: "edge_proposal list"
  pd_facts :: "fact_proposal list"
  pd_retention :: "retention_proposal list"

type_synonym 'a pd_tx = "(err, 'a, proposal_db) tx"

definition pd_store :: "proposal_db \<Rightarrow> store" where
  "pd_store w = rs_store (pd_review w)"

definition pd_next :: "proposal_db \<Rightarrow> rid" where
  "pd_next w = rs_next (pd_review w)"

definition set_pd_store :: "store \<Rightarrow> proposal_db \<Rightarrow> proposal_db" where
  "set_pd_store s w = w\<lparr>pd_review := (pd_review w)\<lparr>rs_store := s\<rparr>\<rparr>"

definition bump :: "proposal_db \<Rightarrow> proposal_db" where
  "bump w = w\<lparr>pd_review := (pd_review w)\<lparr>rs_next := Suc (pd_next w)\<rparr>\<rparr>"

text \<open>A statement on the store, and one on the resolution proposals, inside the larger state.\<close>

definition in_pd :: "'a stm \<Rightarrow> 'a pd_tx" where
  "in_pd m = (\<lambda>w. case m (pd_store w) of Inl e \<Rightarrow> Inl e | Inr (a, s) \<Rightarrow> Inr (a, set_pd_store s w))"

definition in_review :: "'a review_tx \<Rightarrow> 'a pd_tx" where
  "in_review m = (\<lambda>w. case m (pd_review w) of Inl e \<Rightarrow> Inl e | Inr (a, r) \<Rightarrow> Inr (a, w\<lparr>pd_review := r\<rparr>))"

section \<open>Materialising an edge\<close>

record edge_to_materialize =
  em_from :: rid
  em_to :: rid
  em_edge :: edge_type
  em_type :: "memory_type option"

definition closes_predecessor :: "edge_type \<Rightarrow> bool" where
  "closes_predecessor k \<longleftrightarrow> k = Supersedes \<or> k = Updates"

definition endpoints :: "uid \<Rightarrow> rid list \<Rightarrow> store \<Rightarrow> memory list" where
  "endpoints u ids s = sort_key mem_id (filter (\<lambda>m. mem_user m = u \<and> mem_id m \<in> set ids) (tbl_memories s))"

definition assertNoEpisodicEndpoint ::
  "interference \<Rightarrow> uid \<Rightarrow> rid \<Rightarrow> edge_to_materialize \<Rightarrow> bool stm" where
  "assertNoEpisodicEndpoint gap u pid e =
     (if em_type e = Some Event then throw (EpisodicSupersession pid Event)
      else
        bind_tx (wait_for (gap 16)) (\<lambda>_.
        bind_tx (query (endpoints u [em_from e, em_to e])) (\<lambda>rows.
        if \<exists>m \<in> set rows. mem_type m = Event then throw (EpisodicSupersession pid Event)
        else ret (case find_row (\<lambda>m. mem_id m = em_from e) rows of
            None \<Rightarrow> False | Some m \<Rightarrow> mem_status m = Active \<and> mem_valid_to m = None))))"

definition live_commitment_on :: "rid \<Rightarrow> commitment \<Rightarrow> bool" where
  "live_commitment_on m c \<longleftrightarrow> com_memory c = m \<and> is_live_status (com_status c)"

definition live_successor :: "rid \<Rightarrow> memory \<Rightarrow> bool" where
  "live_successor i m \<longleftrightarrow> mem_id m = i \<and> mem_type m = Commitment \<and> mem_valid_to m = None"

definition resolve_obligation :: "interference \<Rightarrow> instant \<Rightarrow> uid \<Rightarrow> rid \<Rightarrow> rid \<Rightarrow> actor_kind \<Rightarrow> unit stm" where
  "resolve_obligation gap t u oid to a =
     bind_tx (wait_for (gap 7)) (\<lambda>_.
     bind_tx (update_commitments u (\<lambda>d. com_id d = oid \<and> is_live_status (com_status d)) (resolve_row t)) (\<lambda>resolved.
     case resolved of
       [] \<Rightarrow> ret ()
     | _ # _ \<Rightarrow> bind_tx (insert_event (event_row t u to EvResolve a None)) (\<lambda>_. ret ())))"

definition carryOrResolvePredecessorCommitment ::
  "interference \<Rightarrow> instant \<Rightarrow> uid \<Rightarrow> rid \<Rightarrow> rid \<Rightarrow> actor_kind \<Rightarrow> unit stm" where
  "carryOrResolvePredecessorCommitment gap t u frm to a =
     bind_tx (select_commitment u (live_commitment_on to)) (\<lambda>ob. case ob of
       None \<Rightarrow> ret ()
     | Some obligation \<Rightarrow>
         bind_tx (select_memory u (live_successor frm)) (\<lambda>succ. case succ of
           None \<Rightarrow> resolve_obligation gap t u (com_id obligation) to a
         | Some _ \<Rightarrow>
             bind_tx (select_commitment u (\<lambda>c. com_memory c = frm)) (\<lambda>row. case row of
               Some _ \<Rightarrow> resolve_obligation gap t u (com_id obligation) to a
             | None \<Rightarrow>
                 bind_tx (wait_for (gap 7)) (\<lambda>_.
                 bind_tx (update_commitments u (\<lambda>d. com_id d = com_id obligation)
                   (\<lambda>d. d\<lparr>com_memory := frm, com_updated_at := t\<rparr>)) (\<lambda>_. ret ())))))"

definition edge_present :: "uid \<Rightarrow> edge_to_materialize \<Rightarrow> store \<Rightarrow> bool" where
  "edge_present u e s \<longleftrightarrow> (u, em_from e, em_to e, em_edge e) \<in> set (map edge_key (tbl_edges s))"

definition close_predecessor ::
  "interference \<Rightarrow> instant \<Rightarrow> uid \<Rightarrow> edge_to_materialize \<Rightarrow> actor_kind \<Rightarrow> rid \<Rightarrow> bool \<Rightarrow> unit stm" where
  "close_predecessor gap t u e a pid successorLive =
     (if \<not> successorLive then throw (SuccessorNotLive pid (em_from e))
      else
        bind_tx (update_memories u (open_row_of (em_to e)) (close_row t)) (\<lambda>closed. case closed of
          [] \<Rightarrow> throw (PredecessorAlreadySuperseded (em_to e))
        | _ # _ \<Rightarrow>
            bind_tx (insert_event (event_row t u (em_to e) EvSupersede a None)) (\<lambda>_.
            carryOrResolvePredecessorCommitment gap t u (em_from e) (em_to e) a)))"

definition materializeEdgeIn ::
  "interference \<Rightarrow> instant \<Rightarrow> uid \<Rightarrow> edge_to_materialize \<Rightarrow> actor_kind \<Rightarrow> rid \<Rightarrow> unit stm" where
  "materializeEdgeIn gap t u e a pid =
     bind_tx (if closes_predecessor (em_edge e) then assertNoEpisodicEndpoint gap u pid e else ret True) (\<lambda>successorLive.
     bind_tx (query (edge_present u e)) (\<lambda>existing.
     if existing then ret ()
     else
       bind_tx (if closes_predecessor (em_edge e) then close_predecessor gap t u e a pid successorLive else ret ()) (\<lambda>_.
       bind_tx (wait_for (gap 14)) (\<lambda>_.
       insertEdge t u (em_from e) (em_to e) (em_edge e) a))))"

section \<open>Staging, reading, rejecting\<close>

record edge_proposal_write =
  ew_user :: uid
  ew_from :: rid
  ew_to :: rid
  ew_edge :: edge_type
  ew_memory_type :: memory_type
  ew_similarity :: rat
  ew_rationale :: "string option"

definition same_open_edge :: "edge_proposal \<Rightarrow> edge_proposal \<Rightarrow> bool" where
  "same_open_edge p q \<longleftrightarrow> ep_status p = Proposed \<and> ep_status q = Proposed \<and> ep_user p = ep_user q \<and>
     ep_from p = ep_from q \<and> ep_to p = ep_to q \<and> ep_edge p = ep_edge q"

definition edge_proposal_row :: "instant \<Rightarrow> edge_proposal_write \<Rightarrow> edge_proposal" where
  "edge_proposal_row t p = \<lparr>ep_id = 0, ep_user = ew_user p, ep_from = ew_from p, ep_to = ew_to p,
     ep_edge = ew_edge p, ep_memory_type = ew_memory_type p, ep_similarity = ew_similarity p,
     ep_rationale = ew_rationale p, ep_status = Proposed, ep_decided_at = None, ep_created = t\<rparr>"

text \<open>One row of \<open>INSERT ... ON CONFLICT DO NOTHING RETURNING id\<close>.\<close>

definition insert_edge_proposal :: "edge_proposal \<Rightarrow> rid option pd_tx" where
  "insert_edge_proposal row = (\<lambda>w. let p = row\<lparr>ep_id := pd_next w\<rparr> in
     if \<exists>q \<in> set (pd_edges w). same_open_edge p q then Inr (None, w)
     else if (ep_user p, ep_from p) \<notin> mem_keys (tbl_memories (pd_store w)) \<or>
       (ep_user p, ep_to p) \<notin> mem_keys (tbl_memories (pd_store w)) then Inl ForeignKeyViolation
     else Inr (Some (ep_id p), (bump w)\<lparr>pd_edges := pd_edges w @ [p]\<rparr>))"

definition insertProposals :: "instant \<Rightarrow> edge_proposal_write list \<Rightarrow> nat pd_tx" where
  "insertProposals t proposals =
     (if proposals = [] then ret 0
      else bind_tx (for_each proposals (\<lambda>p. insert_edge_proposal (edge_proposal_row t p))) (\<lambda>rows.
        ret (length (filter (\<lambda>r. r \<noteq> None) rows))))"

text \<open>\<open>ORDER BY created_at DESC, id DESC LIMIT\<close>: ascending by id first, then stably by time, reversed.\<close>

definition newest_first :: "('r \<Rightarrow> instant) \<Rightarrow> ('r \<Rightarrow> rid) \<Rightarrow> nat option \<Rightarrow> 'r list \<Rightarrow> 'r list" where
  "newest_first created ident limit rows = (let ordered = rev (sort_key created (sort_key ident rows)) in
     case limit of None \<Rightarrow> ordered | Some n \<Rightarrow> take n ordered)"

definition listProposals :: "uid \<Rightarrow> proposal_status option \<Rightarrow> nat option \<Rightarrow> edge_proposal list pd_tx" where
  "listProposals u st limit = query (\<lambda>w. newest_first ep_created ep_id limit
     (filter (\<lambda>p. ep_user p = u \<and> (case st of None \<Rightarrow> True | Some x \<Rightarrow> ep_status p = x)) (pd_edges w)))"

definition update_edge_proposals ::
  "(edge_proposal \<Rightarrow> bool) \<Rightarrow> (edge_proposal \<Rightarrow> edge_proposal) \<Rightarrow> edge_proposal list pd_tx" where
  "update_edge_proposals q f = (\<lambda>w. Inr (sql_returning q f (pd_edges w), w\<lparr>pd_edges := sql_update q f (pd_edges w)\<rparr>))"

definition open_edge :: "uid \<Rightarrow> rid \<Rightarrow> edge_proposal \<Rightarrow> bool" where
  "open_edge u i p \<longleftrightarrow> ep_user p = u \<and> ep_id p = i \<and> ep_status p = Proposed"

definition decide_edge :: "instant \<Rightarrow> proposal_status \<Rightarrow> edge_proposal \<Rightarrow> edge_proposal" where
  "decide_edge t st p = p\<lparr>ep_status := st, ep_decided_at := Some t\<rparr>"

definition rejectProposal :: "instant \<Rightarrow> uid \<Rightarrow> rid \<Rightarrow> edge_proposal pd_tx" where
  "rejectProposal t u i =
     bind_tx (update_edge_proposals (open_edge u i) (decide_edge t Rejected)) (\<lambda>rows.
     case rows of [] \<Rightarrow> throw (ProposalNotFound i) | p # _ \<Rightarrow> ret p)"

definition countProposalsByStatus :: "uid \<Rightarrow> (proposal_status \<times> nat) list pd_tx" where
  "countProposalsByStatus u = query (\<lambda>w. let mine = filter (\<lambda>p. ep_user p = u) (pd_edges w) in
     map (\<lambda>st. (st, length (filter (\<lambda>p. ep_status p = st) mine))) (remdups (map ep_status mine)))"

section \<open>Applying\<close>

definition flipApplied :: "instant \<Rightarrow> uid \<Rightarrow> rid \<Rightarrow> edge_proposal pd_tx" where
  "flipApplied t u i =
     bind_tx (update_edge_proposals (open_edge u i) (decide_edge t Applied)) (\<lambda>rows.
     case rows of [] \<Rightarrow> throw (ProposalNotFound i) | p # _ \<Rightarrow> ret p)"

definition edge_of :: "edge_proposal \<Rightarrow> edge_to_materialize" where
  "edge_of p = \<lparr>em_from = ep_from p, em_to = ep_to p, em_edge = ep_edge p, em_type = Some (ep_memory_type p)\<rparr>"

definition applyProposal ::
  "interference \<Rightarrow> (proposal_db \<Rightarrow> proposal_db) \<Rightarrow> instant \<Rightarrow> uid \<Rightarrow> rid \<Rightarrow> actor_kind \<Rightarrow> edge_proposal pd_tx" where
  "applyProposal gap pg t u i a =
     bind_tx (in_pd (guardSessionMutation (gap 8) u)) (\<lambda>_.
     bind_tx (query (\<lambda>w. find_row (open_edge u i) (pd_edges w))) (\<lambda>op. case op of
       None \<Rightarrow> throw (ProposalNotFound i)
     | Some p \<Rightarrow>
         bind_tx (in_pd (materializeEdgeIn gap t u (edge_of p) a i)) (\<lambda>_.
         bind_tx (wait_for pg) (\<lambda>_.
         flipApplied t u i))))"

section \<open>The contract\<close>

context tenant_contract
begin

lemma within_resolve_obligation: "(\<And>k s. R s (gap k s)) \<Longrightarrow> moves R (resolve_obligation gap t u oid to a)"
  unfolding resolve_obligation_def by (intro within_statements com_step_resolve_row row_users)

lemma within_materializeEdgeIn:
  assumes "\<And>k s. R s (gap k s)"
  shows "moves R (materializeEdgeIn gap t u e a pid)"
  unfolding materializeEdgeIn_def assertNoEpisodicEndpoint_def close_predecessor_def
    carryOrResolvePredecessorCommitment_def
  by (intro within_statements within_insertEdge within_resolve_obligation com_step_move mem_step_close assms row_users)

end

text \<open>What moves the store by \<open>R\<close> moves the larger state so.\<close>

lemma moves_in_pd: "moves R m \<Longrightarrow> moves (\<lambda>w w'. R (pd_store w) (pd_store w')) (in_pd m)"
  by (fastforce simp: moves_def in_pd_def set_pd_store_def pd_store_def split: sum.splits)

section \<open>An episodic memory is never superseded by a proposal\<close>

text \<open>The open \<open>event\<close> memories of the tenant stay open.\<close>

definition episodic_kept :: "uid \<Rightarrow> store \<Rightarrow> store \<Rightarrow> bool" where
  "episodic_kept u s s' \<longleftrightarrow> (\<forall>m \<in> set (tbl_memories s). mem_user m = u \<longrightarrow> mem_type m = Event \<longrightarrow>
     mem_valid_to m = None \<longrightarrow> m \<in> set (tbl_memories s'))"

interpretation episodic: tx_preorder "episodic_kept u"
  by unfold_locales (auto simp: episodic_kept_def)

lemma episodic_same: "tbl_memories s' = tbl_memories s \<Longrightarrow> episodic_kept u s s'"
  by (simp add: episodic_kept_def)

lemma episodic_statements:
  "moves (episodic_kept u) (update_commitments v p f)" "moves (episodic_kept u) (insert_event e)"
  "moves (episodic_kept u) (insertEdge t v i j k a)"
  "moves (episodic_kept u) (select_commitment v p)" "moves (episodic_kept u) (select_memory v q)"
  by (auto simp: moves_def insertEdge_Inr insert_event_def select_memory_def select_commitment_def query_def Let_def
      intro!: episodic_same dest!: update_commitments_Inr split: if_splits)

lemma episodic_carry:
  assumes "\<And>k s. episodic_kept u s (gap k s)"
  shows "moves (episodic_kept u) (carryOrResolvePredecessorCommitment gap t v frm to a)"
  unfolding carryOrResolvePredecessorCommitment_def resolve_obligation_def
  by (intro within_intros episodic_statements assms)

text \<open>The close itself, on the store whose endpoints were just read.\<close>

lemma episodic_close:
  assumes "\<And>k s. episodic_kept u s (gap k s)"
    and "\<And>m. m \<in> set (tbl_memories s) \<Longrightarrow> mem_user m = u \<Longrightarrow> mem_id m = em_to e \<Longrightarrow> mem_type m \<noteq> Event"
    and "close_predecessor gap t u e a pid lv s = Inr ((), s')"
  shows "episodic_kept u s s'"
proof -
  from assms(3) obtain rows v w i where upd: "update_memories u (open_row_of (em_to e)) (close_row t) s = Inr (rows, v)"
    and ev: "insert_event (event_row t u (em_to e) EvSupersede a None) v = Inr (i, w)"
    and carry: "carryOrResolvePredecessorCommitment gap t u (em_from e) (em_to e) a w = Inr ((), s')"
    by (auto simp: close_predecessor_def tx_Inr split: if_splits)
  from upd have "tbl_memories v = sql_update (\<lambda>m. mem_user m = u \<and> open_row_of (em_to e) m) (close_row t) (tbl_memories s)"
    by (auto dest!: update_memories_Inr)
  then have "episodic_kept u s v"
    using assms(2) by (auto simp: episodic_kept_def set_sql_update open_row_of_def)
  moreover have "episodic_kept u v w" using ev by (auto simp: insert_event_row_Inr intro: episodic_same)
  moreover have "episodic_kept u w s'" by (rule withinD [OF episodic_carry [OF assms(1)] carry])
  ultimately show ?thesis by (blast intro: episodic.R_trans)
qed

lemma episodic_materialize:
  assumes "\<And>k s. episodic_kept u s (gap k s)"
  shows "moves (episodic_kept u) (materializeEdgeIn gap t u e a pid)"
proof (rule withinI)
  fix s r s' assume run: "materializeEdgeIn gap t u e a pid s = Inr (r, s')"
  obtain lv v where guard: "(if closes_predecessor (em_edge e) then assertNoEpisodicEndpoint gap u pid e else ret True) s = Inr (lv, v)"
    and rest: "(if edge_present u e v then ret () else
       bind_tx (if closes_predecessor (em_edge e) then close_predecessor gap t u e a pid lv else ret ()) (\<lambda>_.
       bind_tx (wait_for (gap 14)) (\<lambda>_. insertEdge t u (em_from e) (em_to e) (em_edge e) a))) v = Inr (r, s')"
    using run unfolding materializeEdgeIn_def bind_tx_Inr query_Inr by blast
  from guard have sv: "episodic_kept u s v"
    and no: "closes_predecessor (em_edge e) \<Longrightarrow> m \<in> set (tbl_memories v) \<Longrightarrow> mem_user m = u \<Longrightarrow>
      mem_id m = em_to e \<Longrightarrow> mem_type m \<noteq> Event" for m
    by (auto simp: assertNoEpisodicEndpoint_def tx_Inr endpoints_def episodic.R_refl assms split: if_splits)
  have "episodic_kept u v s'"
  proof (cases "edge_present u e v")
    case False
    with rest obtain w where c: "(if closes_predecessor (em_edge e) then close_predecessor gap t u e a pid lv else ret ()) v = Inr ((), w)"
      and i: "insertEdge t u (em_from e) (em_to e) (em_edge e) a (gap 14 w) = Inr (r, s')"
      by (auto simp: bind_tx_Inr)
    have "episodic_kept u v w"
      using c no by (cases "closes_predecessor (em_edge e)")
        (auto simp: episodic.R_refl dest: episodic_close [OF assms, rotated])
    moreover have "episodic_kept u (gap 14 w) s'" by (rule withinD [OF episodic_statements(3) i])
    ultimately show ?thesis using assms by (blast intro: episodic.R_trans)
  qed (use rest in \<open>simp add: episodic.R_refl\<close>)
  with sv show "episodic_kept u s s'" by (rule episodic.R_trans)
qed

interpretation pd_episodic: tx_preorder "\<lambda>w w'. episodic_kept u (pd_store w) (pd_store w')"
  by unfold_locales (auto simp: episodic.R_refl intro: episodic.R_trans)

text \<open>
  C3. No accepted edge proposal ever supersedes an episodic memory: whatever else commits meanwhile, as long as it
  keeps the tenant's open event memories, each of them is open and unchanged after an apply.
\<close>

theorem episodic_never_superseded:
  assumes "\<And>k s. episodic_kept u s (gap k s)" and "\<And>w. episodic_kept u (pd_store w) (pd_store (pg w))"
    and "applyProposal gap pg t u i a w = Inr (p, w')"
    and "m \<in> set (tbl_memories (pd_store w))" and "mem_user m = u" and "mem_type m = Event" and "mem_valid_to m = None"
  shows "m \<in> set (tbl_memories (pd_store w'))"
proof -
  have flip: "moves (\<lambda>w w'. episodic_kept u (pd_store w) (pd_store w')) (flipApplied t u i)"
    by (auto simp: moves_def flipApplied_def update_edge_proposals_def bind_tx_def ret_def throw_def pd_store_def
        episodic.R_refl split: list.splits)
  have guard: "moves (episodic_kept u) (guardSessionMutation (gap 8) u)"
    using assms(1) by (auto simp: moves_def guardSessionMutation_run)
  have "moves (\<lambda>w w'. episodic_kept u (pd_store w) (pd_store w')) (applyProposal gap pg t u i a)"
    unfolding applyProposal_def
    by (intro within_intros flip moves_in_pd guard episodic_materialize assms(1,2))
  from withinD [OF this assms(3)] show ?thesis using assms(4-7) by (simp add: episodic_kept_def)
qed

section \<open>What an apply does\<close>

lemma commitment_of_key:
  assumes "constraints s" and "c \<in> set (tbl_commitments s)" and "d \<in> set (tbl_commitments s)"
    and "com_key d = com_key c"
  shows "d = c"
  using assms by (auto simp: constraints_def commitments_ok_def distinct_map inj_on_def)

lemma distinct_rewrite_one:
  assumes "distinct (map g xs)" and "g (f c) = g c \<or> g (f c) \<notin> g ` set xs"
  shows "distinct (map g (sql_update (\<lambda>d. d = c) f xs))"
proof -
  have key: "g (if d = c then f d else d) = (if d = c then g (f c) else g d)" for d by simp
  show ?thesis using assms by (induction xs) (auto simp: sql_update_def key intro: rev_image_eqI split: if_splits)
qed

text \<open>One commitment rewritten: to a legal state, staying on its memory or moving to a free one.\<close>

lemma update_one_commitment:
  assumes ok: "constraints s" and c: "c \<in> set (tbl_commitments s)" "com_user c = u" "P c"
    and f: "com_user (f c) = u" "com_id (f c) = com_id c" "enforce_commitment_fsm (com_status c) (com_status (f c))"
    and free: "com_key (f c) = com_key c \<or> commitment_on u (com_memory (f c)) s = None"
    and mem: "(u, com_memory (f c)) \<in> mem_keys (tbl_memories s)"
  shows "update_commitments u (\<lambda>d. com_id d = com_id c \<and> P d) f s =
    Inr (sql_returning (\<lambda>d. com_user d = u \<and> com_id d = com_id c \<and> P d) f (tbl_commitments s),
      s\<lparr>tbl_commitments := sql_update (\<lambda>d. d = c) f (tbl_commitments s)\<rparr>) \<and>
    (\<exists>rs. sql_returning (\<lambda>d. com_user d = u \<and> com_id d = com_id c \<and> P d) f (tbl_commitments s) = f c # rs)"
proof -
  let ?q = "\<lambda>d. com_user d = u \<and> com_id d = com_id c \<and> P d"
  have d: "distinct (map com_id (tbl_commitments s))" "distinct (map com_key (tbl_commitments s))"
      "com_key ` set (tbl_commitments s) \<subseteq> mem_keys (tbl_memories s)"
    using ok by (simp_all add: constraints_def commitments_ok_def ids_ok_def)
  have q: "?q x = (x = c)" if "x \<in> set (tbl_commitments s)" for x
    using that c d(1) by (auto simp: distinct_map inj_on_def)
  have upd: "sql_update ?q f (tbl_commitments s) = sql_update (\<lambda>d. d = c) f (tbl_commitments s)"
    unfolding sql_update_def by (rule map_cong [OF refl]) (simp only: q)
  have "find_row ?q (tbl_commitments s) = Some c"
    by (rule find_row_unique [OF d(1) c(1)]) (use c q in auto)
  then obtain rs where ret: "sql_returning ?q f (tbl_commitments s) = f c # rs" by (blast dest: sql_returning_find)
  have "com_key (f c) \<notin> com_key ` set (tbl_commitments s)" if "com_key (f c) \<noteq> com_key c"
    using that free f(1) by (auto simp: commitment_on_None com_key_def)
  then have keys: "distinct (map com_key (sql_update (\<lambda>d. d = c) f (tbl_commitments s)))"
    by (intro distinct_rewrite_one d(2)) blast
  have refs: "com_key ` set (sql_update (\<lambda>d. d = c) f (tbl_commitments s)) \<subseteq> mem_keys (tbl_memories s)"
    using d(3) mem f(1) c(1) by (auto simp: set_update_one com_key_def)
  have fsm: "find_row (\<lambda>d. ?q d \<and> \<not> enforce_commitment_fsm (com_status d) (com_status (f d))) (tbl_commitments s) = None"
    using q f(3) by (auto simp: find_row_None)
  show ?thesis
    unfolding update_commitments_def Let_def fsm option.case upd using keys refs ret by simp
qed

lemma resolve_quiet:
  assumes ok: "constraints s" and c: "c \<in> set (tbl_commitments s)" "com_user c = u" "com_memory c = to"
    "is_live_status (com_status c)"
  shows "resolve_obligation no_gap t u (com_id c) to a s = Inr ((), s\<lparr>
      tbl_commitments := sql_update (\<lambda>d. d = c) (resolve_row t) (tbl_commitments s),
      tbl_events := tbl_events s @ [(event_row t u to EvResolve a None)\<lparr>ev_id := next_id s\<rparr>],
      next_id := Suc (next_id s)\<rparr>)"
proof -
  have key: "(u, to) \<in> mem_keys (tbl_memories s)"
    using ok c by (force simp: constraints_def commitments_ok_def com_key_def)
  have "update_commitments u (\<lambda>d. com_id d = com_id c \<and> is_live_status (com_status d)) (resolve_row t) s =
    Inr (sql_returning (\<lambda>d. com_user d = u \<and> com_id d = com_id c \<and> is_live_status (com_status d)) (resolve_row t) (tbl_commitments s),
      s\<lparr>tbl_commitments := sql_update (\<lambda>d. d = c) (resolve_row t) (tbl_commitments s)\<rparr>) \<and>
    (\<exists>rs. sql_returning (\<lambda>d. com_user d = u \<and> com_id d = com_id c \<and> is_live_status (com_status d)) (resolve_row t) (tbl_commitments s)
      = resolve_row t c # rs)"
    using c key by (intro update_one_commitment [OF ok])
      (auto simp: resolve_row_def com_key_def enforce_commitment_fsm_iff canTransition_to_resolved is_live_status_def)
  moreover have "insert_event (event_row t u to EvResolve a None) (s\<lparr>tbl_commitments := cs\<rparr>) = Inr (next_id s,
      s\<lparr>tbl_commitments := cs, tbl_events := tbl_events s @ [(event_row t u to EvResolve a None)\<lparr>ev_id := next_id s\<rparr>],
        next_id := Suc (next_id s)\<rparr>)" for cs
    using key by (simp add: insert_event_row_Inr)
  ultimately show ?thesis
    by (elim conjE exE) (simp add: resolve_obligation_def bind_tx_def ret_def wait_for_def)
qed

text \<open>What an obligation of the closed predecessor becomes, by the two conditions of a move.\<close>

definition carried :: "instant \<Rightarrow> uid \<Rightarrow> rid \<Rightarrow> rid \<Rightarrow> actor_kind \<Rightarrow> store \<Rightarrow> store" where
  "carried t u frm to a s = (case find_row (\<lambda>c. com_user c = u \<and> live_commitment_on to c) (tbl_commitments s) of
     None \<Rightarrow> s
   | Some c \<Rightarrow>
       if (\<exists>m \<in> set (tbl_memories s). mem_user m = u \<and> live_successor frm m) \<and> commitment_on u frm s = None then
         s\<lparr>tbl_commitments := sql_update (\<lambda>d. d = c) (\<lambda>d. d\<lparr>com_memory := frm, com_updated_at := t\<rparr>) (tbl_commitments s)\<rparr>
       else s\<lparr>tbl_commitments := sql_update (\<lambda>d. d = c) (resolve_row t) (tbl_commitments s),
         tbl_events := tbl_events s @ [(event_row t u to EvResolve a None)\<lparr>ev_id := next_id s\<rparr>],
         next_id := Suc (next_id s)\<rparr>)"

lemma carry_quiet:
  assumes ok: "constraints s"
  shows "carryOrResolvePredecessorCommitment no_gap t u frm to a s = Inr ((), carried t u frm to a s)"
proof (cases "find_row (\<lambda>c. com_user c = u \<and> live_commitment_on to c) (tbl_commitments s)")
  case None
  then show ?thesis
    by (simp add: carryOrResolvePredecessorCommitment_def carried_def select_commitment_def ret_def)
next
  case (Some c)
  then have c: "c \<in> set (tbl_commitments s)" "com_user c = u" "com_memory c = to" "is_live_status (com_status c)"
    by (auto dest!: find_row_Some simp: live_commitment_on_def)
  note resolve = resolve_quiet [OF ok c, of t a]
  show ?thesis
  proof (cases "find_row (\<lambda>m. mem_user m = u \<and> live_successor frm m) (tbl_memories s)")
    case None
    then have no: "\<not> (\<exists>m \<in> set (tbl_memories s). mem_user m = u \<and> live_successor frm m)" by (simp add: find_row_None)
    from None Some resolve show ?thesis
      unfolding carryOrResolvePredecessorCommitment_def carried_def select_commitment_def select_memory_def
      by (simp add: no)
  next
    case (Some m)
    then have m: "m \<in> set (tbl_memories s)" "mem_user m = u" "live_successor frm m" by (auto dest: find_row_Some)
    then have key: "(u, frm) \<in> mem_keys (tbl_memories s)" by (force simp: mem_keys_def live_successor_def)
    show ?thesis
    proof (cases "commitment_on u frm s")
      case None
      let ?f = "\<lambda>d. d\<lparr>com_memory := frm, com_updated_at := t\<rparr>"
      have "update_commitments u (\<lambda>d. com_id d = com_id c \<and> True) ?f s =
        Inr (sql_returning (\<lambda>d. com_user d = u \<and> com_id d = com_id c \<and> True) ?f (tbl_commitments s),
          s\<lparr>tbl_commitments := sql_update (\<lambda>d. d = c) ?f (tbl_commitments s)\<rparr>) \<and>
        (\<exists>rs. sql_returning (\<lambda>d. com_user d = u \<and> com_id d = com_id c \<and> True) ?f (tbl_commitments s) = ?f c # rs)"
        using c key None by (intro update_one_commitment [OF ok]) (auto simp: enforce_commitment_fsm_iff)
      with \<open>find_row (\<lambda>c. com_user c = u \<and> live_commitment_on to c) (tbl_commitments s) = Some c\<close> Some None m
      show ?thesis
        by (auto simp: carryOrResolvePredecessorCommitment_def carried_def select_commitment_def select_memory_def
            commitment_on_def bind_tx_def ret_def query_def wait_for_def)
    next
      case (Some d)
      with \<open>find_row (\<lambda>c. com_user c = u \<and> live_commitment_on to c) (tbl_commitments s) = Some c\<close> resolve
        \<open>find_row (\<lambda>m. mem_user m = u \<and> live_successor frm m) (tbl_memories s) = Some m\<close>
      show ?thesis
        by (simp add: carryOrResolvePredecessorCommitment_def carried_def select_commitment_def select_memory_def
            commitment_on_def)
    qed
  qed
qed

lemma carried_frame:
  "tbl_memories (carried t u frm to a s) = tbl_memories s" "tbl_edges (carried t u frm to a s) = tbl_edges s"
  "tbl_users (carried t u frm to a s) = tbl_users s"
  by (auto simp: carried_def split: option.split)

lemma carried_settles:
  assumes ok: "constraints s"
  shows "\<not> open_obligation (commitment_on u to (carried t u frm to a s))"
proof (cases "find_row (\<lambda>c. com_user c = u \<and> live_commitment_on to c) (tbl_commitments s)")
  case None
  then have "\<not> is_live_status (com_status c)" if "commitment_on u to s = Some c" for c
    using commitment_on_Some [OF that] by (auto simp: find_row_None live_commitment_on_def)
  with None show ?thesis
    by (auto simp: carried_def open_obligation_def is_live_status_def split: option.split)
next
  case (Some c)
  then have c: "c \<in> set (tbl_commitments s)" "com_user c = u" "com_memory c = to"
    by (auto dest!: find_row_Some simp: live_commitment_on_def)
  have on: "commitment_on u to s = Some c" by (rule commitment_on_mem [OF ok c])
  show ?thesis
  proof (cases "(\<exists>m \<in> set (tbl_memories s). mem_user m = u \<and> live_successor frm m) \<and> commitment_on u frm s = None")
    case True
    then have "frm \<noteq> to" using on by auto
    moreover have "d = c" if "d \<in> set (tbl_commitments s)" "com_user d = u" "com_memory d = to" for d
      using commitment_on_mem [OF ok that] on by simp
    moreover have "tbl_commitments (carried t u frm to a s) =
        sql_update (\<lambda>d. d = c) (\<lambda>d. d\<lparr>com_memory := frm, com_updated_at := t\<rparr>) (tbl_commitments s)"
      unfolding carried_def Some option.case if_P [OF True] by simp
    ultimately have "commitment_on u to (carried t u frm to a s) = None"
      using c(1) unfolding commitment_on_None by (auto simp only: set_update_one) auto
    then show ?thesis by (simp add: open_obligation_def)
  next
    case False
    have "carried t u frm to a s = s\<lparr>tbl_commitments := sql_update (\<lambda>d. d = c) (resolve_row t) (tbl_commitments s),
         tbl_events := tbl_events s @ [(event_row t u to EvResolve a None)\<lparr>ev_id := next_id s\<rparr>],
         next_id := Suc (next_id s)\<rparr>"
      unfolding carried_def Some option.case using False by (simp only: if_False)
    moreover have "find_row (\<lambda>c. com_user c = u \<and> com_memory c = to) (sql_update (\<lambda>d. d = c) (resolve_row t) (tbl_commitments s)) =
        map_option (\<lambda>r. if r = c then resolve_row t r else r) (find_row (\<lambda>c. com_user c = u \<and> com_memory c = to) (tbl_commitments s))"
      by (rule find_row_update) (simp add: resolve_row_def)
    ultimately have "commitment_on u to (carried t u frm to a s) = Some (resolve_row t c)"
      using on by (simp add: commitment_on_def)
    then show ?thesis by (simp add: open_obligation_def resolve_row_def)
  qed
qed

text \<open>The contract of \<open>materializeEdgeIn\<close>: which error it throws, and the store it leaves.\<close>

definition closing_refusal :: "instant \<Rightarrow> uid \<Rightarrow> edge_to_materialize \<Rightarrow> rid \<Rightarrow> store \<Rightarrow> err option" where
  "closing_refusal t u e pid s =
     (if \<not> (\<exists>m \<in> set (tbl_memories s). mem_user m = u \<and> mem_id m = em_from e \<and> mem_status m = Active \<and> mem_valid_to m = None)
        then Some (SuccessorNotLive pid (em_from e))
      else case find_row (\<lambda>m. mem_user m = u \<and> open_row_of (em_to e) m) (tbl_memories s) of
        None \<Rightarrow> Some (PredecessorAlreadySuperseded (em_to e))
      | Some m \<Rightarrow> if t < mem_valid_from m then Some CheckViolation else None)"

definition materialize_refusal :: "instant \<Rightarrow> uid \<Rightarrow> edge_to_materialize \<Rightarrow> rid \<Rightarrow> store \<Rightarrow> err option" where
  "materialize_refusal t u e pid s =
     (if closes_predecessor (em_edge e) \<and> (em_type e = Some Event \<or> (\<exists>m \<in> set (tbl_memories s). mem_user m = u \<and>
          mem_id m \<in> {em_from e, em_to e} \<and> mem_type m = Event)) then Some (EpisodicSupersession pid Event)
      else if edge_present u e s then None
      else if closes_predecessor (em_edge e) \<and> closing_refusal t u e pid s \<noteq> None then closing_refusal t u e pid s
      else if em_from e = em_to e then Some CheckViolation
      else if {(u, em_from e), (u, em_to e)} \<subseteq> mem_keys (tbl_memories s) then None else Some ForeignKeyViolation)"

definition closed_store :: "instant \<Rightarrow> uid \<Rightarrow> rid \<Rightarrow> actor_kind \<Rightarrow> store \<Rightarrow> store" where
  "closed_store t u to a s = s\<lparr>
     tbl_memories := sql_update (\<lambda>m. mem_user m = u \<and> open_row_of to m) (close_row t) (tbl_memories s),
     tbl_events := tbl_events s @ [(event_row t u to EvSupersede a None)\<lparr>ev_id := next_id s\<rparr>],
     next_id := Suc (next_id s)\<rparr>"

definition linked :: "instant \<Rightarrow> uid \<Rightarrow> edge_to_materialize \<Rightarrow> actor_kind \<Rightarrow> store \<Rightarrow> store" where
  "linked t u e a s = s\<lparr>tbl_edges := tbl_edges s @ [(edge_row t u (em_from e) (em_to e) (em_edge e) a)\<lparr>edge_id := next_id s\<rparr>],
     next_id := Suc (next_id s)\<rparr>"

definition materialized :: "instant \<Rightarrow> uid \<Rightarrow> edge_to_materialize \<Rightarrow> actor_kind \<Rightarrow> store \<Rightarrow> store" where
  "materialized t u e a s =
     (if edge_present u e s then s
      else if closes_predecessor (em_edge e) then
        linked t u e a (carried t u (em_from e) (em_to e) a (closed_store t u (em_to e) a s))
      else linked t u e a s)"

text \<open>Closing an open row, when the row does not start later.\<close>

lemma live_hashes_Cons:
  "live_hashes (m # ms) = (if mem_valid_to m = None then (mem_user m, mem_hash m) # live_hashes ms else live_hashes ms)"
  by (simp add: live_hashes_def mem_live_def)

lemma live_hashes_close:
  assumes "distinct (live_hashes ms)"
  shows "distinct (live_hashes (sql_update p (close_row t) ms)) \<and>
    set (live_hashes (sql_update p (close_row t) ms)) \<subseteq> set (live_hashes ms)"
  using assms
proof (induction ms)
  case (Cons m ms)
  have step: "sql_update p (close_row t) (m # ms) = (if p m then close_row t m else m) # sql_update p (close_row t) ms"
    by (simp add: sql_update_def)
  have "mem_valid_to (close_row t m) = Some t" by (simp add: close_row_def)
  with Cons show ?case unfolding step live_hashes_Cons by auto
qed (simp add: live_hashes_def)

lemma closing_rows:
  assumes "constraints s" and "find_row (\<lambda>m. mem_user m = u \<and> open_row_of to m) (tbl_memories s) = Some m"
  shows "\<exists>rs. sql_returning (\<lambda>m. mem_user m = u \<and> open_row_of to m) (close_row t) (tbl_memories s) = close_row t m # rs \<and>
    ((\<forall>x \<in> set (close_row t m # rs). window_ok (mem_valid_from x) (mem_valid_to x)) \<longleftrightarrow> mem_valid_from m \<le> t)"
proof -
  let ?q = "\<lambda>m. mem_user m = u \<and> open_row_of to m"
  have d: "distinct (map mem_id (tbl_memories s))" using assms(1) by (simp add: constraints_def memories_ok_def ids_ok_def)
  have m: "m \<in> set (tbl_memories s)" "mem_id m = to" using assms(2) by (auto dest!: find_row_Some simp: open_row_of_def)
  have only: "x = m" if "x \<in> set (tbl_memories s)" "?q x" for x
    using that m d by (auto simp: open_row_of_def distinct_map inj_on_def)
  from assms(2) obtain rs where ret: "sql_returning ?q (close_row t) (tbl_memories s) = close_row t m # rs"
    by (blast dest: sql_returning_find)
  have "x = close_row t m" if "x \<in> set (close_row t m # rs)" for x
    using that only unfolding ret [symmetric] by (auto dest!: sql_returning_mem)
  then have "(\<forall>x \<in> set (close_row t m # rs). window_ok (mem_valid_from x) (mem_valid_to x)) \<longleftrightarrow>
      window_ok (mem_valid_from (close_row t m)) (mem_valid_to (close_row t m))"
    unfolding list.set by blast
  with ret show ?thesis by (simp add: close_row_def window_ok_def)
qed

lemma close_statements:
  assumes "constraints s" and "find_row (\<lambda>m. mem_user m = u \<and> open_row_of to m) (tbl_memories s) = Some m"
    and "mem_valid_from m \<le> t"
  shows "\<exists>rs v. update_memories u (open_row_of to) (close_row t) s = Inr (close_row t m # rs, v) \<and>
    insert_event (event_row t u to EvSupersede a None) v = Inr (next_id s, closed_store t u to a s) \<and>
    constraints (closed_store t u to a s)"
proof -
  let ?q = "\<lambda>m. mem_user m = u \<and> open_row_of to m"
  let ?v = "s\<lparr>tbl_memories := sql_update ?q (close_row t) (tbl_memories s)\<rparr>"
  obtain rs where ret: "sql_returning ?q (close_row t) (tbl_memories s) = close_row t m # rs"
    and w: "\<forall>x \<in> set (close_row t m # rs). window_ok (mem_valid_from x) (mem_valid_to x)"
    using closing_rows [OF assms(1,2), of t] assms(3) by blast
  have "distinct (live_hashes (tbl_memories s))" using assms(1) by (simp add: constraints_def memories_ok_def)
  then have upd: "update_memories u (open_row_of to) (close_row t) s = Inr (close_row t m # rs, ?v)"
    using w live_hashes_close [of "tbl_memories s" ?q t] unfolding update_memories_def Let_def ret by simp
  have "mem_keys (tbl_memories ?v) = mem_keys (tbl_memories s)"
    by simp (rule mem_keys_update, auto intro: mem_step_close)
  moreover have "m \<in> set (tbl_memories s)" "mem_user m = u" "mem_id m = to"
    using assms(2) by (auto dest!: find_row_Some simp: open_row_of_def)
  ultimately have "(u, to) \<in> mem_keys (tbl_memories ?v)" unfolding mem_keys_def by force
  then have ev: "insert_event (event_row t u to EvSupersede a None) ?v = Inr (next_id s, closed_store t u to a s)"
    by (simp add: insert_event_row_Inr closed_store_def)
  have "inv_step s ?v" by (rule withinD [OF inv.upd_memories upd]) (auto intro: mem_step_close)
  moreover have "inv_step ?v (closed_store t u to a s)" by (rule withinD [OF inv.ins_event ev]) simp
  ultimately show ?thesis using upd ev assms(1) by (auto simp: inv_step_def)
qed

lemma close_quiet:
  assumes ok: "constraints s"
  shows "close_predecessor no_gap t u e a pid (\<exists>m \<in> set (tbl_memories s). mem_user m = u \<and> mem_id m = em_from e \<and>
      mem_status m = Active \<and> mem_valid_to m = None) s =
    (case closing_refusal t u e pid s of Some x \<Rightarrow> Inl x
     | None \<Rightarrow> Inr ((), carried t u (em_from e) (em_to e) a (closed_store t u (em_to e) a s)))"
proof (cases "\<exists>m \<in> set (tbl_memories s). mem_user m = u \<and> mem_id m = em_from e \<and> mem_status m = Active \<and> mem_valid_to m = None")
  case False
  then show ?thesis by (simp add: close_predecessor_def closing_refusal_def throw_def)
next
  case live: True
  let ?q = "\<lambda>m. mem_user m = u \<and> open_row_of (em_to e) m"
  show ?thesis
  proof (cases "find_row ?q (tbl_memories s)")
    case None
    then have none: "sql_returning ?q (close_row t) (tbl_memories s) = []" by (simp flip: sql_returning_find_None)
    have "distinct (live_hashes (tbl_memories s))" using ok by (simp add: constraints_def memories_ok_def)
    note dist = live_hashes_close [OF this, THEN conjunct1]
    from live None none show ?thesis
      by (simp add: close_predecessor_def closing_refusal_def update_memories_def Let_def dist bind_tx_def throw_def)
  next
    case (Some m)
    show ?thesis
    proof (cases "mem_valid_from m \<le> t")
      case False
      with closing_rows [OF ok Some, of t] have "update_memories u (open_row_of (em_to e)) (close_row t) s = Inl CheckViolation"
        unfolding update_memories_def Let_def by auto
      with live Some False show ?thesis by (simp add: close_predecessor_def closing_refusal_def bind_tx_def)
    next
      case True
      with close_statements [OF ok Some, of t a] live Some show ?thesis
        by (auto simp: close_predecessor_def closing_refusal_def bind_tx_def carry_quiet)
    qed
  qed
qed

lemma assert_quiet:
  "assertNoEpisodicEndpoint no_gap u pid e s =
    (if em_type e = Some Event \<or> (\<exists>m \<in> set (tbl_memories s). mem_user m = u \<and> mem_id m \<in> {em_from e, em_to e} \<and> mem_type m = Event)
     then Inl (EpisodicSupersession pid Event)
     else Inr (case find_row (\<lambda>m. mem_id m = em_from e) (endpoints u [em_from e, em_to e] s) of
       None \<Rightarrow> False | Some m \<Rightarrow> mem_status m = Active \<and> mem_valid_to m = None, s))"
proof -
  have "(\<exists>m \<in> set (endpoints u [em_from e, em_to e] s). mem_type m = Event) \<longleftrightarrow>
      (\<exists>m \<in> set (tbl_memories s). mem_user m = u \<and> mem_id m \<in> {em_from e, em_to e} \<and> mem_type m = Event)"
    by (auto simp: endpoints_def)
  then show ?thesis
    by (simp add: assertNoEpisodicEndpoint_def wait_for_def bind_tx_def query_def throw_def ret_def)
qed

lemma successor_read:
  assumes "constraints s"
  shows "(case find_row (\<lambda>m. mem_id m = em_from e) (endpoints u [em_from e, em_to e] s) of
       None \<Rightarrow> False | Some m \<Rightarrow> mem_status m = Active \<and> mem_valid_to m = None) \<longleftrightarrow>
    (\<exists>m \<in> set (tbl_memories s). mem_user m = u \<and> mem_id m = em_from e \<and> mem_status m = Active \<and> mem_valid_to m = None)"
proof -
  have d: "distinct (map mem_id (tbl_memories s))" using assms by (simp add: constraints_def memories_ok_def ids_ok_def)
  have set: "m \<in> set (endpoints u [em_from e, em_to e] s) \<longleftrightarrow> m \<in> set (tbl_memories s) \<and> mem_user m = u \<and>
      mem_id m \<in> {em_from e, em_to e}" for m by (auto simp: endpoints_def)
  show ?thesis
  proof (cases "find_row (\<lambda>m. mem_id m = em_from e) (endpoints u [em_from e, em_to e] s)")
    case None
    then have "\<forall>m \<in> set (endpoints u [em_from e, em_to e] s). mem_id m \<noteq> em_from e" by (simp add: find_row_None)
    then have "m \<notin> set (tbl_memories s)" if "mem_user m = u" "mem_id m = em_from e" for m using that set [of m] by auto
    then show ?thesis unfolding None option.case by blast
  next
    case (Some m)
    then have m: "m \<in> set (tbl_memories s)" "mem_user m = u" "mem_id m = em_from e"
      by (auto dest!: find_row_Some simp: set)
    have "x = m" if "x \<in> set (tbl_memories s)" "mem_id x = em_from e" for x
      using that m d by (auto simp: distinct_map inj_on_def)
    with m show ?thesis unfolding Some option.case by blast
  qed
qed

lemma link_quiet:
  "insertEdge t u (em_from e) (em_to e) (em_edge e) a s =
    (if em_from e = em_to e then Inl CheckViolation
     else if edge_present u e s then Inl (EdgeConflict (em_from e) (em_to e) (em_edge e))
     else if {(u, em_from e), (u, em_to e)} \<subseteq> mem_keys (tbl_memories s) then Inr ((), linked t u e a s)
     else Inl ForeignKeyViolation)"
  by (auto simp: insertEdge_def insert_edge_row_def map_error_def bind_tx_def ret_def linked_def edge_row_def
      edge_present_def edge_key_def Let_def)

lemma closed_store_keys: "mem_keys (tbl_memories (closed_store t u to a s)) = mem_keys (tbl_memories s)"
  unfolding closed_store_def by simp (rule mem_keys_update, auto intro: mem_step_close)

lemma materialize_quiet:
  assumes "constraints s"
  shows "materializeEdgeIn no_gap t u e a pid s = (case materialize_refusal t u e pid s of
     Some x \<Rightarrow> Inl x | None \<Rightarrow> Inr ((), materialized t u e a s))"
proof (cases "closes_predecessor (em_edge e)")
  case False
  then show ?thesis
    by (simp add: materializeEdgeIn_def materialize_refusal_def materialized_def link_quiet)
next
  case True
  let ?c = "carried t u (em_from e) (em_to e) a (closed_store t u (em_to e) a s)"
  have link: "insertEdge t u (em_from e) (em_to e) (em_edge e) a ?c =
     (if em_from e = em_to e then Inl CheckViolation
      else if edge_present u e s then Inl (EdgeConflict (em_from e) (em_to e) (em_edge e))
      else if {(u, em_from e), (u, em_to e)} \<subseteq> mem_keys (tbl_memories s) then Inr ((), linked t u e a ?c)
      else Inl ForeignKeyViolation)"
    unfolding link_quiet edge_present_def carried_frame closed_store_keys by (simp add: closed_store_def)
  note close = close_quiet [OF assms, of t u e a pid]
  show ?thesis
  proof (cases "em_type e = Some Event \<or> (\<exists>m \<in> set (tbl_memories s). mem_user m = u \<and> mem_id m \<in> {em_from e, em_to e} \<and> mem_type m = Event)")
    case ep: True
    then show ?thesis
      unfolding materializeEdgeIn_def materialize_refusal_def if_P [OF True] bind_tx_def assert_quiet if_P [OF ep]
      using True by simp
  next
    case ep: False
    have guard: "assertNoEpisodicEndpoint no_gap u pid e s = Inr (\<exists>m \<in> set (tbl_memories s). mem_user m = u \<and>
        mem_id m = em_from e \<and> mem_status m = Active \<and> mem_valid_to m = None, s)"
      unfolding assert_quiet if_not_P [OF ep] successor_read [OF assms] by (rule refl)
    have refusal: "materialize_refusal t u e pid s = (if edge_present u e s then None
      else if closing_refusal t u e pid s \<noteq> None then closing_refusal t u e pid s
      else if em_from e = em_to e then Some CheckViolation
      else if {(u, em_from e), (u, em_to e)} \<subseteq> mem_keys (tbl_memories s) then None else Some ForeignKeyViolation)"
      using True ep unfolding materialize_refusal_def by (simp only: simp_thms if_False)
    show ?thesis
    proof (cases "edge_present u e s")
      case True
      with \<open>closes_predecessor (em_edge e)\<close> guard show ?thesis
        by (simp add: materializeEdgeIn_def refusal materialized_def bind_tx_def query_def ret_def)
    next
      case False
      have run: "materializeEdgeIn no_gap t u e a pid s =
          bind_tx (close_predecessor no_gap t u e a pid (\<exists>m \<in> set (tbl_memories s). mem_user m = u \<and>
            mem_id m = em_from e \<and> mem_status m = Active \<and> mem_valid_to m = None)) (\<lambda>_.
          bind_tx (wait_for (no_gap 14)) (\<lambda>_. insertEdge t u (em_from e) (em_to e) (em_edge e) a)) s"
        using True False unfolding materializeEdgeIn_def by (simp add: bind_tx_def guard query_def)
      show ?thesis
      proof (cases "closing_refusal t u e pid s")
        case None
        with close have "close_predecessor no_gap t u e a pid (\<exists>m \<in> set (tbl_memories s). mem_user m = u \<and>
            mem_id m = em_from e \<and> mem_status m = Active \<and> mem_valid_to m = None) s = Inr ((), ?c)" by simp
        then show ?thesis
          unfolding run using None False True
          by (simp add: bind_tx_run link refusal materialized_def)
      next
        case (Some x)
        with close show ?thesis unfolding run by (simp add: bind_tx_def refusal False)
      qed
    qed
  qed
qed

lemma apply_quiet:
  assumes "constraints (pd_store w)"
  shows "applyProposal no_gap (\<lambda>w. w) t u i a w =
    (if \<not> user_live u (pd_store w) then Inl AccountDeleted
     else case find_row (open_edge u i) (pd_edges w) of None \<Rightarrow> Inl (ProposalNotFound i)
     | Some p \<Rightarrow> (case materialize_refusal t u (edge_of p) i (pd_store w) of Some x \<Rightarrow> Inl x
       | None \<Rightarrow> Inr (decide_edge t Applied p, (set_pd_store (materialized t u (edge_of p) a (pd_store w)) w)
           \<lparr>pd_edges := sql_update (open_edge u i) (decide_edge t Applied) (pd_edges w)\<rparr>)))"
proof (cases "find_row (open_edge u i) (pd_edges w)")
  case None
  then show ?thesis
    by (simp add: applyProposal_def bind_tx_def in_pd_def guardSessionMutation_run query_def throw_def set_pd_store_def pd_store_def)
next
  case (Some p)
  then obtain rs where ret: "sql_returning (open_edge u i) (decide_edge t Applied) (pd_edges w) = decide_edge t Applied p # rs"
    by (blast dest: sql_returning_find)
  have same: "set_pd_store (pd_store w) w = w" by (simp add: set_pd_store_def pd_store_def)
  have edges: "pd_edges (set_pd_store s w) = pd_edges w" for s by (simp add: set_pd_store_def)
  show ?thesis
    by (cases "materialize_refusal t u (edge_of p) i (pd_store w)")
      (simp_all add: applyProposal_def bind_tx_def in_pd_def guardSessionMutation_run query_def wait_for_def ret_def Some same
        materialize_quiet [OF assms] flipApplied_def update_edge_proposals_def edges ret)
qed

text \<open>What the materialised store looks like.\<close>

lemma materialized_outcome:
  assumes ok: "constraints s" and no: "materialize_refusal t u e pid s = None"
  shows "edge_present u e (materialized t u e a s) \<and> tbl_users (materialized t u e a s) = tbl_users s \<and>
    (if closes_predecessor (em_edge e) \<and> \<not> edge_present u e s
     then (\<exists>m. predecessor_of u (em_to e) s = Some m \<and> mem_valid_to m = None \<and> mem_type m \<noteq> Event \<and>
         predecessor_of u (em_to e) (materialized t u e a s) = Some (close_row t m)) \<and>
       \<not> open_obligation (commitment_on u (em_to e) (materialized t u e a s))
     else tbl_memories (materialized t u e a s) = tbl_memories s)"
proof -
  have edge: "edge_present u e (materialized t u e a s)"
    by (auto simp: materialized_def linked_def edge_present_def edge_row_def edge_key_def)
  have users: "tbl_users (materialized t u e a s) = tbl_users s"
    by (simp add: materialized_def linked_def carried_frame closed_store_def)
  show ?thesis
  proof (cases "closes_predecessor (em_edge e) \<and> \<not> edge_present u e s")
    case True
    with no have refusal: "closing_refusal t u e pid s = None"
      and type: "\<And>m. m \<in> set (tbl_memories s) \<Longrightarrow> mem_user m = u \<Longrightarrow> mem_id m = em_to e \<Longrightarrow> mem_type m \<noteq> Event"
      by (auto simp: materialize_refusal_def split: if_splits)
    from refusal obtain m where m: "find_row (\<lambda>m. mem_user m = u \<and> open_row_of (em_to e) m) (tbl_memories s) = Some m"
      and from_t: "mem_valid_from m \<le> t"
      by (auto simp: closing_refusal_def split: if_splits option.splits)
    then have row: "m \<in> set (tbl_memories s)" "mem_user m = u" "mem_id m = em_to e" "mem_valid_to m = None"
      by (auto dest!: find_row_Some simp: open_row_of_def)
    let ?c = "closed_store t u (em_to e) a s"
    have s': "materialized t u e a s = linked t u e a (carried t u (em_from e) (em_to e) a ?c)"
      using True by (simp add: materialized_def)
    from close_statements [OF ok m from_t, of a] have shut_ok: "constraints ?c" by blast
    have d: "distinct (map mem_id (tbl_memories s))" using ok by (simp add: constraints_def memories_ok_def ids_ok_def)
    have before: "predecessor_of u (em_to e) s = Some m"
      by (rule find_row_unique [OF d row(1)]) (use row in auto)
    have after: "predecessor_of u (em_to e) (materialized t u e a s) = Some (close_row t m)"
      unfolding s' linked_def by (simp add: carried_frame closed_store_def
        find_row_update [where q = "\<lambda>m. mem_user m = u \<and> mem_id m = em_to e"] close_row_def before row open_row_of_def)
    have "\<not> open_obligation (commitment_on u (em_to e) (materialized t u e a s))"
      using carried_settles [OF shut_ok, of u "em_to e" t "em_from e" a] by (simp add: s' linked_def commitment_on_def)
    with True edge users before after row(4) type [OF row(1-3)] show ?thesis by simp
  next
    case False
    then have "tbl_memories (materialized t u e a s) = tbl_memories s" by (auto simp: materialized_def linked_def)
    then show ?thesis by (simp only: if_not_P [OF False] edge users simp_thms)
  qed
qed

text \<open>
  C2. Accepting an edge proposal, when it succeeds: the edge is there; an edge that supersedes has closed the
  predecessor, which was open and not episodic, and no open obligation is left on it; the proposal is decided
  and cannot be applied again.
\<close>

theorem apply_outcome:
  assumes "constraints (pd_store w)" and "applyProposal no_gap (\<lambda>w. w) t u i a w = Inr (p, w')"
  shows "\<exists>q. find_row (open_edge u i) (pd_edges w) = Some q \<and> p = decide_edge t Applied q \<and>
    edge_present u (edge_of q) (pd_store w') \<and>
    (if closes_predecessor (ep_edge q) \<and> \<not> edge_present u (edge_of q) (pd_store w)
     then (\<exists>m. predecessor_of u (ep_to q) (pd_store w) = Some m \<and> mem_valid_to m = None \<and> mem_type m \<noteq> Event \<and>
         predecessor_of u (ep_to q) (pd_store w') = Some (close_row t m)) \<and>
       \<not> open_obligation (commitment_on u (ep_to q) (pd_store w'))
     else tbl_memories (pd_store w') = tbl_memories (pd_store w)) \<and>
    applyProposal no_gap (\<lambda>w. w) t' u i b w' = Inl (ProposalNotFound i)"
proof -
  from assms obtain q where q: "find_row (open_edge u i) (pd_edges w) = Some q" "user_live u (pd_store w)"
      "materialize_refusal t u (edge_of q) i (pd_store w) = None" "p = decide_edge t Applied q"
    and w': "w' = (set_pd_store (materialized t u (edge_of q) a (pd_store w)) w)
       \<lparr>pd_edges := sql_update (open_edge u i) (decide_edge t Applied) (pd_edges w)\<rparr>"
    by (auto simp: apply_quiet split: if_splits option.splits)
  then have s': "pd_store w' = materialized t u (edge_of q) a (pd_store w)" by (simp add: pd_store_def set_pd_store_def)
  note done_edge = materialized_outcome [OF assms(1) q(3), of a, folded s']
  from done_edge q(2) have up: "user_live u (pd_store w')" by (simp add: user_live_def SessionLifecycle.select_user_def)
  have edges: "pd_edges w' = sql_update (open_edge u i) (decide_edge t Applied) (pd_edges w)" by (simp add: w')
  have shut: "\<not> open_edge u i (decide_edge t Applied p)" for p by (simp add: open_edge_def decide_edge_def)
  have "find_row (open_edge u i) (pd_edges w') = None"
    unfolding find_row_None edges by (auto simp only: set_sql_update shut)
  then have again: "applyProposal no_gap (\<lambda>w. w) t' u i b w' = Inl (ProposalNotFound i)"
    using up by (simp add: applyProposal_def bind_tx_def in_pd_def guardSessionMutation_run query_def throw_def
        pd_store_def set_pd_store_def)
  have fields: "em_edge (edge_of q) = ep_edge q" "em_to (edge_of q) = ep_to q" by (simp_all add: edge_of_def)
  show ?thesis
    using done_edge again q(1,4) unfolding fields by (elim conjE) (intro exI [of _ q] conjI; assumption)
qed

end
