(* ===== verification/ReviewProposals.thy ===== *)
theory ReviewProposals
  imports EdgeProposals
begin

text \<open>
  Fact proposals (\<open>packages/db/src/fact-proposals.ts\<close>, \<open>fact-proposals-apply.ts\<close>), retention proposals
  (\<open>retention-proposals.ts\<close>) and the reviewer's surface over all four kinds
  (\<open>packages/core/src/admin/proposals.ts\<close>).

  Waits on the store: 8 the account lock, 17 the source memory FOR SHARE, 18 the memories a verdict names;
  \<open>pg\<close> is what commits while a statement waits for a proposal's row. Dates of a proposal are read into
  JavaScript before the fact is written, so they lose their microseconds.
\<close>

section \<open>Fact proposals\<close>

record fact_proposal_write =
  xw_user :: uid
  xw_memory :: rid
  xw_subject :: string
  xw_predicate :: string
  xw_value :: string
  xw_memory_type :: memory_type
  xw_confidence :: "int option"
  xw_valid_from :: "jsdate option"
  xw_valid_to :: "jsdate option"
  xw_rationale :: "string option"

definition fact_proposal_row :: "instant \<Rightarrow> fact_proposal_write \<Rightarrow> fact_proposal" where
  "fact_proposal_row t p = \<lparr>fp_id = 0, fp_user = xw_user p, fp_memory = xw_memory p, fp_subject = xw_subject p,
     fp_predicate = xw_predicate p, fp_value = xw_value p, fp_confidence = xw_confidence p,
     fp_valid_from = map_option sql_of_date (xw_valid_from p), fp_valid_to = map_option sql_of_date (xw_valid_to p),
     fp_memory_type = xw_memory_type p, fp_rationale = xw_rationale p, fp_status = Proposed, fp_decided_at = None,
     fp_created = t\<rparr>"

text \<open>The open index compares \<open>md5(value)\<close>; the digest is a parameter.\<close>

definition same_open_fact :: "(string \<Rightarrow> string) \<Rightarrow> fact_proposal \<Rightarrow> fact_proposal \<Rightarrow> bool" where
  "same_open_fact md5 p q \<longleftrightarrow> fp_status p = Proposed \<and> fp_status q = Proposed \<and> fp_user p = fp_user q \<and>
     fp_memory p = fp_memory q \<and> fp_subject p = fp_subject q \<and> fp_predicate p = fp_predicate q \<and>
     md5 (fp_value p) = md5 (fp_value q)"

definition fact_window_ok :: "fact_proposal \<Rightarrow> bool" where
  "fact_window_ok p = (case fp_valid_to p of None \<Rightarrow> True
     | Some e \<Rightarrow> (case fp_valid_from p of None \<Rightarrow> False | Some b \<Rightarrow> b \<le> e))"

definition insert_fact_proposal :: "(string \<Rightarrow> string) \<Rightarrow> fact_proposal \<Rightarrow> rid option pd_tx" where
  "insert_fact_proposal md5 row = (\<lambda>w. let p = row\<lparr>fp_id := pd_next w\<rparr> in
     if \<not> fact_window_ok p then Inl CheckViolation
     else if \<exists>q \<in> set (pd_facts w). same_open_fact md5 p q then Inr (None, w)
     else if (fp_user p, fp_memory p) \<notin> mem_keys (tbl_memories (pd_store w)) then Inl ForeignKeyViolation
     else Inr (Some (fp_id p), (bump w)\<lparr>pd_facts := pd_facts w @ [p]\<rparr>))"

definition insertFactProposals :: "(string \<Rightarrow> string) \<Rightarrow> instant \<Rightarrow> fact_proposal_write list \<Rightarrow> nat pd_tx" where
  "insertFactProposals md5 t proposals =
     (if proposals = [] then ret 0
      else bind_tx (for_each proposals (\<lambda>p. insert_fact_proposal md5 (fact_proposal_row t p))) (\<lambda>rows.
        ret (length (filter (\<lambda>r. r \<noteq> None) rows))))"

definition listFactProposals :: "uid \<Rightarrow> proposal_status option \<Rightarrow> nat option \<Rightarrow> fact_proposal list pd_tx" where
  "listFactProposals u st limit = query (\<lambda>w. newest_first fp_created fp_id limit
     (filter (\<lambda>p. fp_user p = u \<and> (case st of None \<Rightarrow> True | Some x \<Rightarrow> fp_status p = x)) (pd_facts w)))"

definition update_fact_proposals ::
  "(fact_proposal \<Rightarrow> bool) \<Rightarrow> (fact_proposal \<Rightarrow> fact_proposal) \<Rightarrow> fact_proposal list pd_tx" where
  "update_fact_proposals q f = (\<lambda>w. Inr (sql_returning q f (pd_facts w), w\<lparr>pd_facts := sql_update q f (pd_facts w)\<rparr>))"

definition open_fact :: "uid \<Rightarrow> rid \<Rightarrow> fact_proposal \<Rightarrow> bool" where
  "open_fact u i p \<longleftrightarrow> fp_user p = u \<and> fp_id p = i \<and> fp_status p = Proposed"

definition decide_fact :: "instant \<Rightarrow> proposal_status \<Rightarrow> fact_proposal \<Rightarrow> fact_proposal" where
  "decide_fact t st p = p\<lparr>fp_status := st, fp_decided_at := Some t\<rparr>"

definition rejectFactProposal :: "instant \<Rightarrow> uid \<Rightarrow> rid \<Rightarrow> fact_proposal pd_tx" where
  "rejectFactProposal t u i =
     bind_tx (update_fact_proposals (open_fact u i) (decide_fact t Rejected)) (\<lambda>rows.
     case rows of [] \<Rightarrow> throw (ProposalNotFound i) | p # _ \<Rightarrow> ret p)"

definition lockLiveSource :: "interference \<Rightarrow> uid \<Rightarrow> rid \<Rightarrow> unit pd_tx" where
  "lockLiveSource gap u i =
     bind_tx (query (\<lambda>w. find_row (open_fact u i) (pd_facts w))) (\<lambda>op. case op of
       None \<Rightarrow> throw (ProposalNotFound i)
     | Some p \<Rightarrow>
         bind_tx (in_pd (wait_for (gap 17))) (\<lambda>_.
         bind_tx (in_pd (select_memory u (\<lambda>m. mem_id m = fp_memory p))) (\<lambda>source. case source of
           None \<Rightarrow> throw (ProposalNotFound i)
         | Some m \<Rightarrow> if mem_status m \<noteq> Active \<or> mem_valid_to m \<noteq> None then throw (FactProposalSourceNotLive i) else ret ())))"

definition fact_of_proposal :: "uid \<Rightarrow> fact_proposal \<Rightarrow> fact_write" where
  "fact_of_proposal u p = \<lparr>fw_user = u, fw_memory = fp_memory p, fw_subject = fp_subject p,
     fw_predicate = fp_predicate p, fw_value = fp_value p, fw_confidence = fp_confidence p,
     fw_valid_from = map_option date_of_sql (fp_valid_from p), fw_valid_to = map_option date_of_sql (fp_valid_to p),
     fw_recorded_at = None, fw_cardinality = None\<rparr>"

definition applyFactProposal ::
  "interference \<Rightarrow> (proposal_db \<Rightarrow> proposal_db) \<Rightarrow> instant \<Rightarrow> uid \<Rightarrow> rid \<Rightarrow> (fact_proposal \<times> rid) pd_tx" where
  "applyFactProposal gap pg t u i =
     bind_tx (in_pd (guardSessionMutation (gap 8) u)) (\<lambda>_.
     bind_tx (lockLiveSource gap u i) (\<lambda>_.
     bind_tx (wait_for pg) (\<lambda>_.
     bind_tx (update_fact_proposals (open_fact u i) (decide_fact t Applied)) (\<lambda>rows. case rows of
       [] \<Rightarrow> throw (ProposalNotFound i)
     | p # _ \<Rightarrow>
         bind_tx (in_pd (insertFact t (fact_of_proposal u p) True)) (\<lambda>factId. ret (p, factId))))))"

section \<open>Retention proposals\<close>

record retention_verdict =
  rv_memory :: rid
  rv_action :: retention_action
  rv_related :: "rid option"
  rv_probability :: rat
  rv_probabilities :: "(string \<times> rat) list"
  rv_model :: string
  rv_dismissed :: "bool option"

text \<open>\<open>/^[a-z_]+(:[a-z0-9]+)?$/\<close>.\<close>

definition key_letter :: "char \<Rightarrow> bool" where
  "key_letter c \<longleftrightarrow> 97 \<le> (of_char c :: nat) \<and> (of_char c :: nat) \<le> 122 \<or> c = CHR ''_''"

definition ref_letter :: "char \<Rightarrow> bool" where
  "ref_letter c \<longleftrightarrow> 97 \<le> (of_char c :: nat) \<and> (of_char c :: nat) \<le> 122 \<or> 48 \<le> (of_char c :: nat) \<and> (of_char c :: nat) \<le> 57"

definition PROBABILITY_KEY :: "string \<Rightarrow> bool" where
  "PROBABILITY_KEY k = (takeWhile key_letter k \<noteq> [] \<and> (case dropWhile key_letter k of
       [] \<Rightarrow> True
     | c # ref \<Rightarrow> c = CHR '':'' \<and> ref \<noteq> [] \<and> list_all ref_letter ref))"

definition statusFor :: "retention_verdict \<Rightarrow> retention_status" where
  "statusFor v = (if rv_action v = Keep \<or> rv_dismissed v = Some True then RetDismissed else RetProposed)"

definition retention_row :: "instant \<Rightarrow> uid \<Rightarrow> retention_verdict \<Rightarrow> retention_proposal" where
  "retention_row t u v = \<lparr>np_id = 0, np_user = u, np_memory = rv_memory v, np_action = rv_action v,
     np_related = rv_related v, np_probability = rv_probability v, np_probabilities = rv_probabilities v,
     np_model = rv_model v, np_status = statusFor v, np_decided_at = None, np_created = t\<rparr>"

definition same_open_retention :: "retention_proposal \<Rightarrow> retention_proposal \<Rightarrow> bool" where
  "same_open_retention p q \<longleftrightarrow> np_status p = RetProposed \<and> np_status q = RetProposed \<and> np_user p = np_user q \<and>
     np_memory p = np_memory q \<and> np_action p = np_action q"

definition retention_checks :: "retention_proposal \<Rightarrow> bool" where
  "retention_checks p \<longleftrightarrow> 0 \<le> np_probability p \<and> np_probability p \<le> 1 \<and>
     (np_action p \<in> {SupersedeIt, ConflictWith}) = (np_related p \<noteq> None) \<and> np_related p \<noteq> Some (np_memory p)"

definition insert_retention :: "retention_proposal \<Rightarrow> rid option pd_tx" where
  "insert_retention row = (\<lambda>w. let p = row\<lparr>np_id := pd_next w\<rparr>; keys = mem_keys (tbl_memories (pd_store w)) in
     if \<not> retention_checks p then Inl CheckViolation
     else if \<exists>q \<in> set (pd_retention w). same_open_retention p q then Inr (None, w)
     else if (np_user p, np_memory p) \<notin> keys \<or> (case np_related p of None \<Rightarrow> False | Some r \<Rightarrow> (np_user p, r) \<notin> keys)
       then Inl ForeignKeyViolation
     else Inr (Some (np_id p), (bump w)\<lparr>pd_retention := pd_retention w @ [p]\<rparr>))"

definition named_memories :: "retention_verdict \<Rightarrow> rid list" where
  "named_memories v = (case rv_related v of None \<Rightarrow> [rv_memory v] | Some r \<Rightarrow> [rv_memory v, r])"

definition live_ids :: "uid \<Rightarrow> rid list \<Rightarrow> store \<Rightarrow> rid list" where
  "live_ids u ids s = map mem_id (filter (\<lambda>m. mem_user m = u \<and> mem_id m \<in> set ids \<and> mem_valid_to m = None \<and>
     mem_status m = Active) (tbl_memories s))"

definition insertRetentionProposals ::
  "interference \<Rightarrow> instant \<Rightarrow> uid \<Rightarrow> retention_verdict list \<Rightarrow> nat pd_tx" where
  "insertRetentionProposals gap t u verdicts =
     (if verdicts = [] then ret 0
      else if \<not> list_all (\<lambda>v. list_all (\<lambda>(k, _). PROBABILITY_KEY k) (rv_probabilities v)) verdicts then throw BadProbabilityKey
      else
        bind_tx (in_pd (wait_for (gap 18))) (\<lambda>_.
        bind_tx (in_pd (query (live_ids u (concat (map named_memories verdicts))))) (\<lambda>live.
        let staged = filter (\<lambda>v. set (named_memories v) \<subseteq> set live) verdicts in
        if staged = [] then ret 0
        else bind_tx (for_each staged (\<lambda>v. insert_retention (retention_row t u v))) (\<lambda>rows.
          ret (length (filter (\<lambda>r. r \<noteq> None) rows))))))"

definition update_retention ::
  "(retention_proposal \<Rightarrow> bool) \<Rightarrow> (retention_proposal \<Rightarrow> retention_proposal) \<Rightarrow> retention_proposal list pd_tx" where
  "update_retention q f = (\<lambda>w. Inr (sql_returning q f (pd_retention w), w\<lparr>pd_retention := sql_update q f (pd_retention w)\<rparr>))"

definition open_retention :: "uid \<Rightarrow> rid \<Rightarrow> retention_proposal \<Rightarrow> bool" where
  "open_retention u i p \<longleftrightarrow> np_user p = u \<and> np_id p = i \<and> np_status p = RetProposed"

definition decide_ret :: "instant \<Rightarrow> retention_status \<Rightarrow> retention_proposal \<Rightarrow> retention_proposal" where
  "decide_ret t st p = p\<lparr>np_status := st, np_decided_at := Some t\<rparr>"

definition decideRetentionProposal :: "instant \<Rightarrow> uid \<Rightarrow> rid \<Rightarrow> retention_status \<Rightarrow> retention_proposal pd_tx" where
  "decideRetentionProposal t u i st =
     bind_tx (update_retention (open_retention u i) (decide_ret t st)) (\<lambda>rows.
     case rows of [] \<Rightarrow> throw (ProposalNotFound i) | p # _ \<Rightarrow> ret p)"

definition rejection_reason :: "rejection \<Rightarrow> string" where
  "rejection_reason r = (case r of RejNotFound \<Rightarrow> ''not_found'' | RejSuperseded \<Rightarrow> ''superseded''
     | RejOpenCommitment \<Rightarrow> ''open_commitment'' | RejBlocker \<Rightarrow> ''blocker'' | RejArchived \<Rightarrow> ''archived'')"

definition supersede_verdict :: "retention_proposal \<Rightarrow> rid \<Rightarrow> edge_to_materialize" where
  "supersede_verdict p r = \<lparr>em_from = r, em_to = np_memory p, em_edge = Supersedes, em_type = None\<rparr>"

definition still_live :: "memory option \<Rightarrow> bool" where
  "still_live m = (case m of None \<Rightarrow> False | Some x \<Rightarrow> mem_status x = Active \<and> mem_valid_to x = None)"

definition acceptRetentionProposal ::
  "interference \<Rightarrow> (proposal_db \<Rightarrow> proposal_db) \<Rightarrow> instant \<Rightarrow> jsdate \<Rightarrow> uid \<Rightarrow> rid \<Rightarrow> actor_kind \<Rightarrow> retention_proposal pd_tx" where
  "acceptRetentionProposal gap pg t now u i a =
     bind_tx (in_pd (guardSessionMutation (gap 8) u)) (\<lambda>_.
     bind_tx (query (\<lambda>w. find_row (open_retention u i) (pd_retention w))) (\<lambda>op. case op of
       None \<Rightarrow> throw (ProposalNotFound i)
     | Some p \<Rightarrow>
         if np_action p = ArchiveIt then
           bind_tx (in_pd (archiveMemoryIn gap t now \<lparr>aw_user = u, aw_memory = np_memory p, aw_actor = a,
             aw_run = RunOmitted, aw_policy = DispositionPolicy\<rparr>)) (\<lambda>archived. case archived of
               OutRejected reason \<Rightarrow> throw (RetentionProposalNotApplicable i (rejection_reason reason))
             | _ \<Rightarrow> bind_tx (wait_for pg) (\<lambda>_. decideRetentionProposal t u i RetApplied))
         else
           bind_tx (in_pd (wait_for (gap 18))) (\<lambda>_.
           bind_tx (in_pd (select_memory u (\<lambda>m. mem_id m = np_memory p))) (\<lambda>memory.
           bind_tx (wait_for pg) (\<lambda>_.
           bind_tx (decideRetentionProposal t u i RetApplied) (\<lambda>proposal.
           if np_action proposal = SupersedeIt then (case np_related proposal of
               None \<Rightarrow> throw (RetentionProposalNotApplicable i ''no_related_memory'')
             | Some r \<Rightarrow>
                 if \<not> still_live memory then throw (RetentionProposalNotApplicable i ''memory_not_live'')
                 else bind_tx (in_pd (materializeEdgeIn gap t u (supersede_verdict proposal r) a i)) (\<lambda>_. ret proposal))
           else ret proposal))))))"

definition countRetentionProposals :: "uid \<Rightarrow> retention_status option \<Rightarrow> nat pd_tx" where
  "countRetentionProposals u st = query (\<lambda>w. length (filter (\<lambda>p. np_user p = u \<and> np_status p \<noteq> RetDismissed \<and>
     (case st of None \<Rightarrow> True | Some x \<Rightarrow> np_status p = x)) (pd_retention w)))"

section \<open>The reviewer's surface\<close>

text \<open>Each call of the lists and of the single kinds is one tenant transaction.\<close>

definition listAllProposals ::
  "uid \<Rightarrow> proposal_status option \<Rightarrow> nat \<Rightarrow> proposal_db \<Rightarrow> (err + edge_proposal list \<times> fact_proposal list) \<times> proposal_db" where
  "listAllProposals u st limit = run_tx (
     bind_tx (listProposals u st (Some limit)) (\<lambda>es.
     bind_tx (listFactProposals u st (Some limit)) (\<lambda>fs. ret (es, fs))))"

datatype decided =
    DecEdge edge_proposal
  | DecEdgeApplied edge_proposal
  | DecFact fact_proposal
  | DecFactApplied fact_proposal rid
  | DecResolution resolution_proposal
  | DecResolutionApplied accepted_resolution
  | DecRetention retention_proposal
  | DecRetentionApplied retention_proposal

definition is_not_found :: "err \<Rightarrow> bool" where
  "is_not_found e = (case e of ProposalNotFound _ \<Rightarrow> True | _ \<Rightarrow> False)"

text \<open>The last miss is thrown; no probe at all is an internal error.\<close>

fun decideAnyKind :: "err \<Rightarrow> ('a, 'w) svc list \<Rightarrow> ('a, 'w) svc" where
  "decideAnyKind missed [] = fail_with missed"
| "decideAnyKind missed (probe # probes) = (\<lambda>w. case probe w of
     (Inl e, v) \<Rightarrow> if is_not_found e then decideAnyKind e probes v else (Inl e, v)
   | (Inr a, v) \<Rightarrow> (Inr a, v))"

definition probe :: "('a \<Rightarrow> decided) \<Rightarrow> 'a pd_tx \<Rightarrow> (decided, proposal_db) svc" where
  "probe kind m = (\<lambda>w. case run_tx m w of (Inl e, v) \<Rightarrow> (Inl e, v) | (Inr a, v) \<Rightarrow> (Inr (kind a), v))"

definition on_review :: "(review_store \<Rightarrow> (err + 'a) \<times> review_store) \<Rightarrow> ('a, proposal_db) svc" where
  "on_review m w = (case m (pd_review w) of (r, v) \<Rightarrow> (r, w\<lparr>pd_review := v\<rparr>))"

definition rejectProposalAnyKind :: "instant \<Rightarrow> uid \<Rightarrow> rid \<Rightarrow> (decided, proposal_db) svc" where
  "rejectProposalAnyKind t u i = decideAnyKind NoRowReturned
     [probe DecEdge (rejectProposal t u i),
      probe DecFact (rejectFactProposal t u i),
      probe DecResolution (in_review (decideResolutionProposal t u i Rejected)),
      probe DecRetention (decideRetentionProposal t u i RetRejected)]"

definition acceptProposalAnyKind ::
  "interference \<Rightarrow> (proposal_db \<Rightarrow> proposal_db) \<Rightarrow> (nat \<Rightarrow> review_store \<Rightarrow> review_store) \<Rightarrow> world \<Rightarrow> instant \<Rightarrow> jsdate \<Rightarrow>
   uid \<Rightarrow> rid \<Rightarrow> actor_kind \<Rightarrow> (decided, proposal_db) svc" where
  "acceptProposalAnyKind gap pg rg wd t now u i a = decideAnyKind NoRowReturned
     [probe DecEdgeApplied (applyProposal gap pg t u i a),
      probe (\<lambda>(p, f). DecFactApplied p f) (applyFactProposal gap pg t u i),
      and_then (on_review (acceptResolutionProposal rg wd t u i a)) (\<lambda>r. done_with (DecResolutionApplied r)),
      probe DecRetentionApplied (acceptRetentionProposal gap pg t now u i a)]"

section \<open>The contract\<close>

context tenant_contract
begin

lemma within_insertFact_proposal: "moves R (insertFact t (fact_of_proposal u p) b)"
  unfolding insertFact_def by (intro within_statements within_insertFacts) (simp add: fact_of_proposal_def)

end

section \<open>A decision is final\<close>

text \<open>Ids are unique across the four tables.\<close>

definition pd_ids :: "proposal_db \<Rightarrow> rid list" where
  "pd_ids w = map ep_id (pd_edges w) @ map fp_id (pd_facts w) @ map rp_id (rs_proposals (pd_review w)) @
     map np_id (pd_retention w)"

definition open_any :: "uid \<Rightarrow> rid \<Rightarrow> proposal_db \<Rightarrow> bool" where
  "open_any u i w \<longleftrightarrow> (\<exists>p \<in> set (pd_edges w). open_edge u i p) \<or> (\<exists>p \<in> set (pd_facts w). open_fact u i p) \<or>
     (\<exists>p \<in> set (rs_proposals (pd_review w)). is_open u i p) \<or> (\<exists>p \<in> set (pd_retention w). open_retention u i p)"

definition keeps_ids :: "proposal_db \<Rightarrow> proposal_db \<Rightarrow> bool" where
  "keeps_ids w v \<longleftrightarrow> map ep_id (pd_edges v) = map ep_id (pd_edges w) \<and> map fp_id (pd_facts v) = map fp_id (pd_facts w) \<and>
     map rp_id (rs_proposals (pd_review v)) = map rp_id (rs_proposals (pd_review w)) \<and>
     map np_id (pd_retention v) = map np_id (pd_retention w)"

lemma keeps_ids_refl [simp]: "keeps_ids w w"
  by (simp add: keeps_ids_def)

lemma set_pd_store_frame [simp]:
  "pd_store (set_pd_store s w) = s" "pd_edges (set_pd_store s w) = pd_edges w" "pd_facts (set_pd_store s w) = pd_facts w"
  "pd_retention (set_pd_store s w) = pd_retention w" "rs_proposals (pd_review (set_pd_store s w)) = rs_proposals (pd_review w)"
  "set_pd_store (pd_store w) w = w" "set_pd_store s (set_pd_store s' w) = set_pd_store s w"
  by (simp_all add: set_pd_store_def pd_store_def)

lemma in_pd_Inr: "in_pd m w = Inr (a, v) \<longleftrightarrow> (\<exists>s. m (pd_store w) = Inr (a, s) \<and> v = set_pd_store s w)"
  by (auto simp: in_pd_def split: sum.splits)

lemma map_id_update: "(\<And>r. f (g r) = f r) \<Longrightarrow> map f (sql_update p g rows) = map f rows"
  by (simp add: sql_update_def)

text \<open>One table's compare-and-set: what it needs and what it leaves.\<close>

lemma flip_rows:
  assumes "sql_returning p g rows = r # rs" and "\<And>x. p x \<Longrightarrow> key x = i" and "\<And>x. \<not> p (g x)"
  shows "i \<in> set (map key rows) \<and> (\<forall>x \<in> set (sql_update p g rows). \<not> p x)"
proof -
  from assms(1) have "r \<in> set (sql_returning p g rows)" by simp
  then obtain x where "x \<in> set rows" "p x" by (auto dest!: sql_returning_mem)
  with assms(2) have "i \<in> set (map key rows)" by force
  with assms(3) show ?thesis by (auto simp: set_sql_update)
qed

lemma decided_is_shut:
  "\<not> open_edge u i (decide_edge t Applied e)" "\<not> open_edge u i (decide_edge t Rejected e)"
  "\<not> open_fact u i (decide_fact t Applied f)" "\<not> open_fact u i (decide_fact t Rejected f)"
  "\<not> is_open u i (decide_row t Applied r)" "\<not> is_open u i (decide_row t Rejected r)"
  "\<not> open_retention u i (decide_ret t RetApplied n)" "\<not> open_retention u i (decide_ret t RetRejected n)"
  by (simp_all add: open_edge_def open_fact_def is_open_def open_retention_def decide_edge_def decide_fact_def
      decide_row_def decide_ret_def)

lemma open_has_id:
  "open_edge u i e \<Longrightarrow> ep_id e = i" "open_fact u i f \<Longrightarrow> fp_id f = i" "is_open u i r \<Longrightarrow> rp_id r = i"
  "open_retention u i n \<Longrightarrow> np_id n = i"
  by (simp_all add: open_edge_def open_fact_def is_open_def open_retention_def)

lemma decide_keeps_id [simp]:
  "ep_id (decide_edge t st e) = ep_id e" "fp_id (decide_fact t st f) = fp_id f" "rp_id (decide_row t st r) = rp_id r"
  "np_id (decide_ret t rst n) = np_id n" "rp_id (reopen_row r) = rp_id r"
  by (simp_all add: decide_edge_def decide_fact_def decide_row_def decide_ret_def reopen_row_def)

text \<open>\<open>shuts\<close>: the ids stay, and no row with the decided id is open in the table that had it.\<close>

definition shuts :: "uid \<Rightarrow> rid \<Rightarrow> proposal_db \<Rightarrow> proposal_db \<Rightarrow> bool" where
  "shuts u i w v \<longleftrightarrow> keeps_ids w v \<and>
     (i \<in> set (map ep_id (pd_edges w)) \<and> (\<forall>p \<in> set (pd_edges v). \<not> open_edge u i p) \<or>
      i \<in> set (map fp_id (pd_facts w)) \<and> (\<forall>p \<in> set (pd_facts v). \<not> open_fact u i p) \<or>
      i \<in> set (map rp_id (rs_proposals (pd_review w))) \<and> (\<forall>p \<in> set (rs_proposals (pd_review v)). \<not> is_open u i p) \<or>
      i \<in> set (map np_id (pd_retention w)) \<and> (\<forall>p \<in> set (pd_retention v). \<not> open_retention u i p))"

lemma shuts_closed:
  assumes "distinct (pd_ids w)" and "shuts u i w v"
  shows "\<not> open_any u i v"
proof -
  have ids: "p \<in> set (pd_edges v) \<Longrightarrow> open_edge u i p \<Longrightarrow> i \<in> set (map ep_id (pd_edges v))"
    "q \<in> set (pd_facts v) \<Longrightarrow> open_fact u i q \<Longrightarrow> i \<in> set (map fp_id (pd_facts v))"
    "r \<in> set (rs_proposals (pd_review v)) \<Longrightarrow> is_open u i r \<Longrightarrow> i \<in> set (map rp_id (rs_proposals (pd_review v)))"
    "n \<in> set (pd_retention v) \<Longrightarrow> open_retention u i n \<Longrightarrow> i \<in> set (map np_id (pd_retention v))" for p q r n
    by (auto dest: open_has_id)
  have same: "map ep_id (pd_edges v) = map ep_id (pd_edges w)" "map fp_id (pd_facts v) = map fp_id (pd_facts w)"
    "map rp_id (rs_proposals (pd_review v)) = map rp_id (rs_proposals (pd_review w))"
    "map np_id (pd_retention v) = map np_id (pd_retention w)"
    using assms(2) by (simp_all add: shuts_def keeps_ids_def)
  note ids = ids [unfolded same]
  let ?A = "set (map ep_id (pd_edges w))" and ?B = "set (map fp_id (pd_facts w))"
    and ?C = "set (map rp_id (rs_proposals (pd_review w)))" and ?D = "set (map np_id (pd_retention w))"
  have "?A \<inter> ?B = {}" "?A \<inter> ?C = {}" "?A \<inter> ?D = {}" "?B \<inter> ?C = {}" "?B \<inter> ?D = {}" "?C \<inter> ?D = {}"
    using assms(1) unfolding pd_ids_def distinct_append set_append by blast+
  then have only: "i \<in> ?A \<Longrightarrow> i \<notin> ?B \<and> i \<notin> ?C \<and> i \<notin> ?D" "i \<in> ?B \<Longrightarrow> i \<notin> ?A \<and> i \<notin> ?C \<and> i \<notin> ?D"
    "i \<in> ?C \<Longrightarrow> i \<notin> ?A \<and> i \<notin> ?B \<and> i \<notin> ?D" "i \<in> ?D \<Longrightarrow> i \<notin> ?A \<and> i \<notin> ?B \<and> i \<notin> ?C"
    by (blast+)
  from assms(2) consider
      "i \<in> ?A" "\<forall>p \<in> set (pd_edges v). \<not> open_edge u i p"
    | "i \<in> ?B" "\<forall>p \<in> set (pd_facts v). \<not> open_fact u i p"
    | "i \<in> ?C" "\<forall>p \<in> set (rs_proposals (pd_review v)). \<not> is_open u i p"
    | "i \<in> ?D" "\<forall>p \<in> set (pd_retention v). \<not> open_retention u i p"
    unfolding shuts_def by blast
  then show ?thesis
  proof cases
    case 1 with only(1) ids(2-4) show ?thesis unfolding open_any_def by blast
  next
    case 2 with only(2) ids(1,3,4) show ?thesis unfolding open_any_def by blast
  next
    case 3 with only(3) ids(1,2,4) show ?thesis unfolding open_any_def by blast
  next
    case 4 with only(4) ids(1-3) show ?thesis unfolding open_any_def by blast
  qed
qed

lemma keeps_then_shuts: "keeps_ids w x \<Longrightarrow> shuts u i x v \<Longrightarrow> shuts u i w v"
  unfolding shuts_def keeps_ids_def by (elim conjE) (simp only: simp_thms)

text \<open>Each operation that decides.\<close>

lemma flipApplied_Inr:
  "flipApplied t u i w = Inr (p, v) \<longleftrightarrow> (\<exists>rs. sql_returning (open_edge u i) (decide_edge t Applied) (pd_edges w) = p # rs) \<and>
     v = w\<lparr>pd_edges := sql_update (open_edge u i) (decide_edge t Applied) (pd_edges w)\<rparr>"
  by (auto simp: flipApplied_def update_edge_proposals_def bind_tx_def throw_def ret_def split: list.splits)

lemma flip_edges_shuts:
  assumes "sql_returning (open_edge u i) (decide_edge t st) (pd_edges w) = p # rs" and "st \<noteq> Proposed"
  shows "shuts u i w (w\<lparr>pd_edges := sql_update (open_edge u i) (decide_edge t st) (pd_edges w)\<rparr>)"
proof -
  have "\<not> open_edge u i (decide_edge t st e)" for e using assms(2) by (simp add: open_edge_def decide_edge_def)
  from flip_rows [OF assms(1) open_has_id(1) this] show ?thesis by (simp add: shuts_def keeps_ids_def map_id_update)
qed

lemma flip_facts_shuts:
  assumes "sql_returning (open_fact u i) (decide_fact t st) (pd_facts w) = p # rs" and "st \<noteq> Proposed"
  shows "shuts u i w (w\<lparr>pd_facts := sql_update (open_fact u i) (decide_fact t st) (pd_facts w)\<rparr>)"
proof -
  have "\<not> open_fact u i (decide_fact t st e)" for e using assms(2) by (simp add: open_fact_def decide_fact_def)
  from flip_rows [OF assms(1) open_has_id(2) this] show ?thesis by (simp add: shuts_def keeps_ids_def map_id_update)
qed

lemma flip_resolutions_shuts:
  assumes "sql_returning (is_open u i) (decide_row t st) (rs_proposals (pd_review w)) = p # rs" and "st \<noteq> Proposed"
    and "rs_proposals r = sql_update (is_open u i) (decide_row t st) (rs_proposals (pd_review w))"
  shows "shuts u i w (w\<lparr>pd_review := r\<rparr>)"
proof -
  have "\<not> is_open u i (decide_row t st e)" for e using assms(2) by (simp add: is_open_def decide_row_def)
  from flip_rows [OF assms(1) open_has_id(3) this] show ?thesis by (simp add: shuts_def keeps_ids_def map_id_update assms(3))
qed

lemma flip_retention_shuts:
  assumes "sql_returning (open_retention u i) (decide_ret t st) (pd_retention w) = p # rs" and "st \<noteq> RetProposed"
  shows "shuts u i w (w\<lparr>pd_retention := sql_update (open_retention u i) (decide_ret t st) (pd_retention w)\<rparr>)"
proof -
  have "\<not> open_retention u i (decide_ret t st e)" for e using assms(2) by (simp add: open_retention_def decide_ret_def)
  from flip_rows [OF assms(1) open_has_id(4) this] show ?thesis by (simp add: shuts_def keeps_ids_def map_id_update)
qed

text \<open>Statements on the store before or after do not matter.\<close>

lemma keeps_store: "keeps_ids w (set_pd_store s w)"
  by (simp add: keeps_ids_def)

lemma shuts_store: "shuts u i w v \<Longrightarrow> shuts u i w (set_pd_store s v)"
  by (simp add: shuts_def keeps_ids_def)

lemma decideRetention_Inr:
  "decideRetentionProposal t u i st w = Inr (p, v) \<longleftrightarrow>
     (\<exists>rs. sql_returning (open_retention u i) (decide_ret t st) (pd_retention w) = p # rs) \<and>
     v = w\<lparr>pd_retention := sql_update (open_retention u i) (decide_ret t st) (pd_retention w)\<rparr>"
  by (auto simp: decideRetentionProposal_def update_retention_def bind_tx_def throw_def ret_def split: list.splits)

lemma decideRetention_shuts:
  "decideRetentionProposal t u i st w = Inr (p, v) \<Longrightarrow> st \<noteq> RetProposed \<Longrightarrow> shuts u i w v"
  unfolding decideRetention_Inr by (auto intro: flip_retention_shuts)

lemma applyProposal_shuts:
  assumes "applyProposal gap (\<lambda>w. w) t u i a w = Inr (p, v)"
  shows "shuts u i w v"
proof -
  from assms obtain s where "flipApplied t u i (set_pd_store s w) = Inr (p, v)"
    by (auto simp: applyProposal_def tx_Inr in_pd_Inr)
  then have "shuts u i (set_pd_store s w) v"
    unfolding flipApplied_Inr using flip_edges_shuts [of u i t Applied "set_pd_store s w" p] by auto
  with keeps_store show ?thesis by (rule keeps_then_shuts)
qed

lemma lockLiveSource_Inr:
  "lockLiveSource gap u i w = Inr (a, v) \<longleftrightarrow> (\<exists>p m. find_row (open_fact u i) (pd_facts w) = Some p \<and>
     v = set_pd_store (gap 17 (pd_store w)) w \<and> predecessor_of u (fp_memory p) (gap 17 (pd_store w)) = Some m \<and>
     mem_status m = Active \<and> mem_valid_to m = None)"
  by (auto simp: lockLiveSource_def tx_Inr in_pd_Inr select_memory_def set_pd_store_def pd_store_def)

lemma applyFactProposal_Inr:
  assumes "applyFactProposal gap (\<lambda>w. w) t u i w = Inr ((p, f), v)"
  obtains s q m rs where "guardSessionMutation (gap 8) u (pd_store w) = Inr ((), s)"
    "find_row (open_fact u i) (pd_facts w) = Some q" "predecessor_of u (fp_memory q) (gap 17 s) = Some m"
    "mem_status m = Active" "mem_valid_to m = None"
    "sql_returning (open_fact u i) (decide_fact t Applied) (pd_facts w) = p # rs"
    "in_pd (insertFact t (fact_of_proposal u p) True) (set_pd_store (gap 17 s) w
      \<lparr>pd_facts := sql_update (open_fact u i) (decide_fact t Applied) (pd_facts w)\<rparr>) = Inr (f, v)"
  using assms by (auto simp: applyFactProposal_def tx_Inr in_pd_Inr [of "guardSessionMutation _ _"] lockLiveSource_Inr
      update_fact_proposals_def)

lemma applyFactProposal_shuts:
  assumes "applyFactProposal gap (\<lambda>w. w) t u i w = Inr (r, v)"
  shows "shuts u i w v"
proof -
  obtain p f where r: "r = (p, f)" by (rule prod.exhaust)
  from assms obtain s' rs where "sql_returning (open_fact u i) (decide_fact t Applied) (pd_facts w) = p # rs"
    and v: "in_pd (insertFact t (fact_of_proposal u p) True) (set_pd_store s' w
      \<lparr>pd_facts := sql_update (open_fact u i) (decide_fact t Applied) (pd_facts w)\<rparr>) = Inr (f, v)"
    unfolding r by (rule applyFactProposal_Inr)
  then have "shuts u i (set_pd_store s' w) (set_pd_store s' w
      \<lparr>pd_facts := sql_update (open_fact u i) (decide_fact t Applied) (pd_facts w)\<rparr>)"
    using flip_facts_shuts [of u i t Applied "set_pd_store s' w"] by simp
  from keeps_then_shuts [OF keeps_store this] v show ?thesis by (auto simp: in_pd_Inr intro: shuts_store)
qed

lemma case_outcome_Inr:
  "(case x of OutArchived \<Rightarrow> m | OutAlreadyArchived \<Rightarrow> m | OutReaffirmed \<Rightarrow> m | OutRejected r \<Rightarrow> f r) s = Inr z \<longleftrightarrow>
   (\<forall>r. x \<noteq> OutRejected r) \<and> m s = Inr z \<or> (\<exists>r. x = OutRejected r \<and> f r s = Inr z)"
  by (cases x) auto

lemma acceptRetention_shuts:
  assumes "acceptRetentionProposal gap (\<lambda>w. w) t now u i a w = Inr (p, v)"
  shows "shuts u i w v"
proof -
  from assms obtain s y where d: "decideRetentionProposal t u i RetApplied (set_pd_store s w) = Inr (p, y)"
    and v: "v = set_pd_store (pd_store v) y"
    by (auto simp: acceptRetentionProposal_def tx_Inr case_outcome_Inr in_pd_Inr)
  from decideRetention_shuts [OF d] have "shuts u i (set_pd_store s w) y" by simp
  with keeps_store have "shuts u i w y" by (rule keeps_then_shuts)
  then show ?thesis by (subst v) (rule shuts_store)
qed

lemma rejects_shut:
  "rejectProposal t u i w = Inr (e, v) \<Longrightarrow> shuts u i w v"
  "rejectFactProposal t u i w = Inr (f, v) \<Longrightarrow> shuts u i w v"
  "in_review (decideResolutionProposal t u i st) w = Inr (r, v) \<Longrightarrow> st \<noteq> Proposed \<Longrightarrow> shuts u i w v"
  by (auto simp: rejectProposal_def rejectFactProposal_def in_review_def decideResolutionProposal_def
      update_edge_proposals_def update_fact_proposals_def update_proposals_def bind_tx_def throw_def ret_def
      intro: flip_edges_shuts flip_facts_shuts flip_resolutions_shuts split: list.splits)

lemma acceptResolution_shuts:
  assumes "on_review (acceptResolutionProposal (\<lambda>_ r. r) wd t u i a) w = (res, v)"
  shows "keeps_ids w v \<and> (\<forall>x. res = Inr x \<longrightarrow> shuts u i w v)"
proof -
  let ?ps = "rs_proposals (pd_review w)"
  from assms obtain r where run: "acceptResolutionProposal (\<lambda>_ r. r) wd t u i a (pd_review w) = (res, r)"
    and v: "v = w\<lparr>pd_review := r\<rparr>"
    by (auto simp: on_review_def split: prod.splits)
  have ids: "map rp_id (sql_update (is_open u i) (decide_row t Applied) ps) = map rp_id ps" for ps by (simp add: map_id_update)
  show ?thesis
  proof (cases "find_row (is_open u i) ?ps")
    case None
    with run v show ?thesis by (auto simp: acceptResolutionProposal_def decide_run)
  next
    case (Some p)
    let ?r1 = "(pd_review w)\<lparr>rs_proposals := sql_update (is_open u i) (decide_row t Applied) ?ps\<rparr>"
    obtain x r2 where mid: "on_store (resolveCommitmentByMemoryId wd u (rp_memory (decide_row t Applied p)) a) ?r1 = (x, r2)"
      by (rule prod.exhaust)
    then have r2: "rs_proposals r2 = sql_update (is_open u i) (decide_row t Applied) ?ps"
      by (auto simp: on_store_def split: prod.splits)
    show ?thesis
    proof (cases x)
      case (Inl e)
      obtain y r3 where re: "run_tx (reopenResolutionProposal u i) r2 = (y, r3)" by (rule prod.exhaust)
      then have "map rp_id (rs_proposals r3) = map rp_id (rs_proposals r2)"
        by (auto simp: run_tx_def reopenResolutionProposal_def bind_tx_def update_proposals_def ret_def Let_def map_id_update
            split: if_splits)
      moreover have "r = r3" "\<forall>z. res \<noteq> Inr z"
        using run re by (auto simp: acceptResolutionProposal_def decide_run Some mid Inl split: sum.splits)
      ultimately show ?thesis by (simp add: v keeps_ids_def r2 ids)
    next
      case (Inr z)
      with run have "r = r2" by (auto simp: acceptResolutionProposal_def decide_run Some mid split: prod.splits)
      moreover from Some obtain rs where "sql_returning (is_open u i) (decide_row t Applied) ?ps = decide_row t Applied p # rs"
        by (blast dest: sql_returning_find)
      ultimately have "shuts u i w v" using flip_resolutions_shuts [of u i t Applied w] r2 by (simp add: v)
      then show ?thesis by (simp add: shuts_def)
    qed
  qed
qed

lemma acceptResolution_results:
  "on_review (acceptResolutionProposal (\<lambda>_ r. r) wd t u i a) w = (Inr x, v) \<Longrightarrow> shuts u i w v"
  "on_review (acceptResolutionProposal (\<lambda>_ r. r) wd t u i a) w = (Inl e, v) \<Longrightarrow> keeps_ids w v"
  by (auto dest: acceptResolution_shuts)

lemma decideAnyKind_shuts:
  assumes "\<And>m w x v. m \<in> set probes \<Longrightarrow> m w = (Inr x, v) \<Longrightarrow> shuts u i w v"
    and "\<And>m w e v. m \<in> set probes \<Longrightarrow> m w = (Inl e, v) \<Longrightarrow> keeps_ids w v"
    and "decideAnyKind missed probes w = (Inr d, v)"
  shows "shuts u i w v"
  using assms
proof (induction probes arbitrary: missed w)
  case (Cons m probes)
  obtain r x where r: "m w = (r, x)" by (rule prod.exhaust)
  show ?case
  proof (cases r)
    case (Inl e)
    with Cons.prems(3) r have "decideAnyKind e probes x = (Inr d, v)" by (auto split: if_splits)
    with Cons.IH Cons.prems(1,2) have "shuts u i x v" by (meson list.set_intros(2))
    moreover have "keeps_ids w x" using Cons.prems(2) [of m w e x] r Inl by simp
    ultimately show ?thesis by (blast intro: keeps_then_shuts)
  next
    case (Inr a)
    with Cons.prems(1,3) r show ?thesis by auto
  qed
qed (simp add: fail_with_def)

lemma decideAnyKind_miss:
  assumes "probes \<noteq> []" and "\<And>m. m \<in> set probes \<Longrightarrow> m w = (Inl (ProposalNotFound i), w)"
  shows "decideAnyKind missed probes w = (Inl (ProposalNotFound i), w)"
proof -
  have "decideAnyKind (ProposalNotFound i) ms w = (Inl (ProposalNotFound i), w)" if "set ms \<subseteq> set probes" for ms
    using that by (induction ms) (simp_all add: assms(2) is_not_found_def fail_with_def)
  moreover from assms(1) obtain m ms where "probes = m # ms" by (cases probes) auto
  moreover from this have "m w = (Inl (ProposalNotFound i), w)" by (intro assms(2)) simp
  ultimately show ?thesis by (simp add: is_not_found_def subset_insertI)
qed

lemma probe_Inr: "probe k m w = (Inr d, v) \<longleftrightarrow> (\<exists>a. m w = Inr (a, v) \<and> d = k a)"
  by (auto simp: probe_def run_tx_def split: sum.splits)

lemma probe_Inl: "probe k m w = (Inl e, v) \<longleftrightarrow> m w = Inl e \<and> v = w"
  by (auto simp: probe_def run_tx_def split: sum.splits)

lemma nothing_open:
  assumes "\<not> open_any u i w" and "user_live u (pd_store w)"
  shows "applyProposal no_gap (\<lambda>w. w) t u i a w = Inl (ProposalNotFound i)"
    and "applyFactProposal no_gap (\<lambda>w. w) t u i w = Inl (ProposalNotFound i)"
    and "on_review (acceptResolutionProposal (\<lambda>_ r. r) wd t u i a) w = (Inl (ProposalNotFound i), w)"
    and "acceptRetentionProposal no_gap (\<lambda>w. w) t now u i a w = Inl (ProposalNotFound i)"
proof -
  have none: "find_row (open_edge u i) (pd_edges w) = None" "find_row (open_fact u i) (pd_facts w) = None"
    "find_row (is_open u i) (rs_proposals (pd_review w)) = None" "find_row (open_retention u i) (pd_retention w) = None"
    using assms(1) by (auto simp: open_any_def find_row_None)
  have guard: "in_pd (guardSessionMutation (no_gap 8) u) w = Inr ((), w)"
    using assms(2) by (simp add: in_pd_def guardSessionMutation_run)
  show "applyProposal no_gap (\<lambda>w. w) t u i a w = Inl (ProposalNotFound i)"
    by (simp add: applyProposal_def bind_tx_def guard query_def none throw_def)
  show "applyFactProposal no_gap (\<lambda>w. w) t u i w = Inl (ProposalNotFound i)"
    by (simp add: applyFactProposal_def lockLiveSource_def bind_tx_def guard query_def none throw_def)
  show "on_review (acceptResolutionProposal (\<lambda>_ r. r) wd t u i a) w = (Inl (ProposalNotFound i), w)"
    by (simp add: on_review_def acceptResolutionProposal_def decide_run none)
  show "acceptRetentionProposal no_gap (\<lambda>w. w) t now u i a w = Inl (ProposalNotFound i)"
    by (simp add: acceptRetentionProposal_def bind_tx_def guard query_def none throw_def)
qed

lemma nothing_to_reject:
  assumes "\<not> open_any u i w"
  shows "rejectProposal t u i w = Inl (ProposalNotFound i)" and "rejectFactProposal t u i w = Inl (ProposalNotFound i)"
    and "in_review (decideResolutionProposal t u i Rejected) w = Inl (ProposalNotFound i)"
    and "decideRetentionProposal t u i RetRejected w = Inl (ProposalNotFound i)"
proof -
  have none: "sql_returning (open_edge u i) f (pd_edges w) = []" "sql_returning (open_fact u i) g (pd_facts w) = []"
    "sql_returning (is_open u i) h (rs_proposals (pd_review w)) = []" "sql_returning (open_retention u i) k (pd_retention w) = []"
    for f g h k using assms by (auto simp: open_any_def sql_returning_def filter_empty_conv)
  show "rejectProposal t u i w = Inl (ProposalNotFound i)" "rejectFactProposal t u i w = Inl (ProposalNotFound i)"
    "in_review (decideResolutionProposal t u i Rejected) w = Inl (ProposalNotFound i)"
    "decideRetentionProposal t u i RetRejected w = Inl (ProposalNotFound i)"
    by (simp_all add: rejectProposal_def rejectFactProposal_def in_review_def decideResolutionProposal_def
        decideRetentionProposal_def update_edge_proposals_def update_fact_proposals_def update_proposals_def
        update_retention_def bind_tx_def throw_def none)
qed


section \<open>What an accept does\<close>

lemma insertFact_plain:
  assumes "is_plain True r"
  shows "insertFact now r True s = insert_fact_row (factColumns now r) s"
proof -
  have "plain_indexes True [r] = [0]" "sorted_keys True [r] = []"
    using assms by (simp_all add: plain_indexes_def sorted_keys_def)
  then show ?thesis
    by (auto simp: insertFact_def insertFacts_def writeSingleValued_def insertPlain_def
        positional_def bind_tx_def ret_def split: sum.splits)
qed

text \<open>One fact of a proposal: the row that is there afterwards, and the open values of its key.\<close>

lemma insertFact_effect:
  assumes "insertFact t r True s = Inr (f, s')" and "fw_cardinality r = None"
  shows "only_facts s s' \<and> length (open_for r s') \<le> max 1 (length (open_for r s)) \<and>
    (\<exists>x \<in> set (tbl_facts s'). fact_id x = f \<and> fact_user x = fw_user r \<and> fact_memory x = fw_memory r \<and>
       fact_subject x = fw_subject r \<and> fact_predicate x = fw_predicate r \<and> fact_value x = fw_value r \<and>
       fact_confidence x = fw_confidence r)"
proof -
  have "moves only_facts (insertFact t r True)"
    unfolding insertFact_def by (intro within_intros only_facts_insertFacts)
  then have frame: "only_facts s s'" using assms(1) by (auto simp: moves_def)
  show ?thesis
  proof (cases "is_plain True r")
    case True
    then have closed: "fw_valid_to r \<noteq> None" using assms(2) by (simp add: is_plain_def)
    from True assms(1) have run: "insert_fact_row (factColumns t r) s = Inr (f, s')" by (simp add: insertFact_plain)
    then have facts: "tbl_facts s' = tbl_facts s @ [(factColumns t r)\<lparr>fact_id := f\<rparr>]"
      by (auto simp: insert_fact_row_def Let_def split: if_splits)
    have "open_bound (fw_user r) (fw_subject r) (fw_predicate r) s s'"
      by (rule withinD [OF bound_plain run]) (simp add: closed)
    with frame facts show ?thesis by (auto simp: open_bound_def factColumns_def)
  next
    case False
    with assms(1) have run: "replaceValue t r None s = Inr (f, s')" by (simp add: insertFact_single)
    have "open_bound (fw_user r) (fw_subject r) (fw_predicate r) s s'" by (rule withinD [OF bound_replaceValue run])
    moreover have "new_fact t r None s \<in> set (tbl_facts s')" "fact_id (new_fact t r None s) = f"
      using run by (auto simp: replaceValue_Inr new_fact_def)
    ultimately show ?thesis
      using frame by (intro conjI bexI [of _ "new_fact t r None s"]) (simp_all add: open_bound_def new_fact_def factColumns_def)
  qed
qed

text \<open>
  An accepted fact proposal becomes exactly one fact, of a source that is live when it is written: whatever
  commits while the statement waits, the store \<open>s\<close> the source is locked in has it active and open, the new fact
  carries the proposed triple and confidence, only facts are written, and the key has at most one open value
  afterwards unless it had more before.
\<close>

theorem accepted_fact_has_a_live_source:
  assumes "applyFactProposal gap (\<lambda>w. w) t u i w = Inr ((p, f), w')"
  shows "\<exists>s q m. find_row (open_fact u i) (pd_facts w) = Some q \<and> p = decide_fact t Applied q \<and>
    predecessor_of u (fp_memory q) s = Some m \<and> mem_status m = Active \<and> mem_valid_to m = None \<and>
    only_facts s (pd_store w') \<and>
    (\<exists>x \<in> set (tbl_facts (pd_store w')). fact_id x = f \<and> fact_user x = u \<and> fact_memory x = fp_memory q \<and>
       fact_subject x = fp_subject q \<and> fact_predicate x = fp_predicate q \<and> fact_value x = fp_value q \<and>
       fact_confidence x = fp_confidence q) \<and>
    length (open_values u (fp_subject q) (fp_predicate q) (pd_store w')) \<le>
      max 1 (length (open_values u (fp_subject q) (fp_predicate q) s))"
proof -
  from assms obtain s q m rs where src: "find_row (open_fact u i) (pd_facts w) = Some q"
      "predecessor_of u (fp_memory q) (gap 17 s) = Some m" "mem_status m = Active" "mem_valid_to m = None"
    and p: "sql_returning (open_fact u i) (decide_fact t Applied) (pd_facts w) = p # rs"
    and ins: "in_pd (insertFact t (fact_of_proposal u p) True) (set_pd_store (gap 17 s) w
      \<lparr>pd_facts := sql_update (open_fact u i) (decide_fact t Applied) (pd_facts w)\<rparr>) = Inr (f, w')"
    by (rule applyFactProposal_Inr)
  from sql_returning_find [OF src(1), of "decide_fact t Applied"] p have pq: "p = decide_fact t Applied q" by auto
  have st: "pd_store (set_pd_store (gap 17 s) w\<lparr>pd_facts := fs\<rparr>) = gap 17 s" for fs
    by (simp add: pd_store_def set_pd_store_def)
  from ins have "insertFact t (fact_of_proposal u p) True (gap 17 s) = Inr (f, pd_store w')"
    by (auto simp: in_pd_Inr st)
  from insertFact_effect [OF this] src pq show ?thesis
    by (intro exI [of _ "gap 17 s"] exI [of _ q] exI [of _ m]) (simp add: fact_of_proposal_def decide_fact_def)
qed

text \<open>
  C4. An accepted retention verdict is applied and nothing more. Archive: the memory is archived, by this accept or
  before it; a blocker or a memory with an open obligation is never archived by it. Supersede: the older memory was active, open
  and not episodic; unless the edge was already there it is closed now with no open obligation left on it.
  Any other verdict leaves the store as it was.
\<close>

theorem retention_verdict_applied:
  assumes "constraints (pd_store w)" and "acceptRetentionProposal no_gap (\<lambda>w. w) t now u i a w = Inr (p, w')"
  shows "\<exists>q. find_row (open_retention u i) (pd_retention w) = Some q \<and> p = decide_ret t RetApplied q \<and>
    (case np_action q of
      ArchiveIt \<Rightarrow> (\<exists>m. predecessor_of u (np_memory q) (pd_store w) = Some m \<and>
        (mem_status m = Archived \<and> pd_store w' = pd_store w \<or>
         mem_valid_to m = None \<and> mem_type m \<noteq> Blocker \<and> \<not> open_obligation (commitment_on u (np_memory q) (pd_store w)) \<and>
         predecessor_of u (np_memory q) (pd_store w') = Some (shelve_row t m)))
    | SupersedeIt \<Rightarrow> (\<exists>m r. predecessor_of u (np_memory q) (pd_store w) = Some m \<and> mem_status m = Active \<and>
        mem_valid_to m = None \<and> np_related q = Some r \<and> edge_present u (supersede_verdict q r) (pd_store w') \<and>
        (if edge_present u (supersede_verdict q r) (pd_store w) then tbl_memories (pd_store w') = tbl_memories (pd_store w)
         else mem_type m \<noteq> Event \<and> predecessor_of u (np_memory q) (pd_store w') = Some (close_row t m) \<and>
           \<not> open_obligation (commitment_on u (np_memory q) (pd_store w'))))
    | _ \<Rightarrow> pd_store w' = pd_store w)"
proof -
  let ?s = "pd_store w"
  from assms(2) obtain q where live: "user_live u ?s" and q: "find_row (open_retention u i) (pd_retention w) = Some q"
    and rest: "(if np_action q = ArchiveIt then
           bind_tx (in_pd (archiveMemoryIn no_gap t now \<lparr>aw_user = u, aw_memory = np_memory q, aw_actor = a,
             aw_run = RunOmitted, aw_policy = DispositionPolicy\<rparr>)) (\<lambda>archived. case archived of
               OutRejected reason \<Rightarrow> throw (RetentionProposalNotApplicable i (rejection_reason reason))
             | _ \<Rightarrow> bind_tx (wait_for (\<lambda>w. w)) (\<lambda>_. decideRetentionProposal t u i RetApplied))
         else
           bind_tx (in_pd (wait_for (no_gap 18))) (\<lambda>_.
           bind_tx (in_pd (select_memory u (\<lambda>m. mem_id m = np_memory q))) (\<lambda>memory.
           bind_tx (wait_for (\<lambda>w. w)) (\<lambda>_.
           bind_tx (decideRetentionProposal t u i RetApplied) (\<lambda>proposal.
           if np_action proposal = SupersedeIt then (case np_related proposal of
               None \<Rightarrow> throw (RetentionProposalNotApplicable i ''no_related_memory'')
             | Some r \<Rightarrow>
                 if \<not> still_live memory then throw (RetentionProposalNotApplicable i ''memory_not_live'')
                 else bind_tx (in_pd (materializeEdgeIn no_gap t u (supersede_verdict proposal r) a i)) (\<lambda>_. ret proposal))
           else ret proposal))))) w = Inr (p, w')"
    by (auto simp: acceptRetentionProposal_def bind_tx_Inr in_pd_Inr guardSessionMutation_run query_Inr case_option_Inr
        split: if_splits)
  have decided: "p' = decide_ret t RetApplied q \<and> pd_store v = pd_store x" if "decideRetentionProposal t u i RetApplied x = Inr (p', v)"
      "pd_retention x = pd_retention w" for p' v x
    using that sql_returning_find [OF q, of "decide_ret t RetApplied"] by (auto simp: decideRetention_Inr pd_store_def)
  show ?thesis
  proof (cases "np_action q = ArchiveIt")
    case True
    obtain inp where inp: "aw_user inp = u" "aw_memory inp = np_memory q" "aw_policy inp = DispositionPolicy"
      and call: "inp = \<lparr>aw_user = u, aw_memory = np_memory q, aw_actor = a, aw_run = RunOmitted, aw_policy = DispositionPolicy\<rparr>"
      by simp
    from rest True obtain r s v where arch: "archiveMemoryIn no_gap t now inp ?s = Inr (r, s)" "\<And>x. r \<noteq> OutRejected x"
      and v: "decideRetentionProposal t u i RetApplied (set_pd_store s w) = Inr (p, w')"
      by (auto simp: call [symmetric] tx_Inr case_outcome_Inr in_pd_Inr)
    from decided [OF v] have p: "p = decide_ret t RetApplied q" "pd_store w' = s" by simp_all
    have "(\<exists>m. predecessor_of u (np_memory q) ?s = Some m \<and> (mem_status m = Archived \<and> s = ?s \<or>
         mem_valid_to m = None \<and> mem_type m \<noteq> Blocker \<and> \<not> open_obligation (commitment_on u (np_memory q) ?s) \<and>
         predecessor_of u (np_memory q) s = Some (shelve_row t m)))"
    proof (cases "r = OutArchived")
      case True
      obtain x s1 where verdict: "archive_verdict DispositionPolicy u (np_memory q) ?s = OutArchived"
        and "only_sessions ?s s1" and s: "s = shelved t inp x s1"
        by (rule archive_quiet [of t now inp ?s s]) (use arch True live assms(1) inp in simp_all)
      then have "tbl_memories s1 = tbl_memories ?s" by (simp add: only_sessionsD)
      with verdict show ?thesis
        by (auto simp: archive_verdict_def s shelved_def inp predecessor_of_update shelve_row_def split: option.splits if_splits)
    next
      case False
      from archive_run [of inp ?s t now] arch False live assms(1)
      have "r = archive_verdict DispositionPolicy u (np_memory q) ?s" "s = ?s"
        by (auto simp: inp split: if_splits sum.splits)
      with arch(2) False show ?thesis by (auto simp: archive_verdict_def split: option.splits if_splits)
    qed
    with q p True show ?thesis by simp
  next
    case False
    from rest False obtain v where v: "decideRetentionProposal t u i RetApplied w = Inr (decide_ret t RetApplied q, v)"
        "pd_store v = ?s"
      and tail: "(if np_action q = SupersedeIt then (case np_related q of
               None \<Rightarrow> throw (RetentionProposalNotApplicable i ''no_related_memory'')
             | Some r \<Rightarrow>
                 if \<not> still_live (predecessor_of u (np_memory q) ?s) then throw (RetentionProposalNotApplicable i ''memory_not_live'')
                 else bind_tx (in_pd (materializeEdgeIn no_gap t u (supersede_verdict q r) a i)) (\<lambda>_. ret (decide_ret t RetApplied q)))
           else ret (decide_ret t RetApplied q)) v = Inr (p, w')"
    proof -
      from rest False obtain p' v where d: "decideRetentionProposal t u i RetApplied w = Inr (p', v)"
        and t: "(if np_action p' = SupersedeIt then (case np_related p' of
               None \<Rightarrow> throw (RetentionProposalNotApplicable i ''no_related_memory'')
             | Some r \<Rightarrow>
                 if \<not> still_live (predecessor_of u (np_memory q) ?s) then throw (RetentionProposalNotApplicable i ''memory_not_live'')
                 else bind_tx (in_pd (materializeEdgeIn no_gap t u (supersede_verdict p' r) a i)) (\<lambda>_. ret p'))
           else ret p') v = Inr (p, w')"
        by (auto simp: bind_tx_Inr in_pd_Inr select_memory_def query_Inr wait_Inr)
      from decided [OF d refl] have p': "p' = decide_ret t RetApplied q" and "pd_store v = ?s" by blast+
      have fields: "np_action (decide_ret t RetApplied q) = np_action q" "np_related (decide_ret t RetApplied q) = np_related q"
        "supersede_verdict (decide_ret t RetApplied q) r = supersede_verdict q r" for r
        by (simp_all add: decide_ret_def supersede_verdict_def)
      show ?thesis by (rule that [OF d [unfolded p'] \<open>pd_store v = ?s\<close> t [unfolded p' fields]])
    qed
    show ?thesis
    proof (cases "np_action q = SupersedeIt")
      case True
      with tail obtain r where r: "np_related q = Some r" "still_live (predecessor_of u (np_memory q) ?s)"
        and m: "in_pd (materializeEdgeIn no_gap t u (supersede_verdict q r) a i) v = Inr ((), w')"
        and p: "p = decide_ret t RetApplied q"
        by (auto simp: tx_Inr)
      let ?e = "supersede_verdict q r"
      from m have no: "materialize_refusal t u ?e i ?s = None" "pd_store w' = materialized t u ?e a ?s"
        by (auto simp: in_pd_Inr v(2) materialize_quiet [OF assms(1)] split: option.splits)
      have e: "closes_predecessor (em_edge ?e)" "em_to ?e = np_memory q"
        by (simp_all add: supersede_verdict_def closes_predecessor_def)
      from r(2) obtain x where x: "predecessor_of u (np_memory q) ?s = Some x" "mem_status x = Active" "mem_valid_to x = None"
        by (auto simp: still_live_def split: option.splits)
      from materialized_outcome [OF assms(1) no(1), of a, folded no(2)] x
      have "edge_present u ?e (pd_store w') \<and>
        (if edge_present u ?e ?s then tbl_memories (pd_store w') = tbl_memories ?s
         else mem_type x \<noteq> Event \<and> predecessor_of u (np_memory q) (pd_store w') = Some (close_row t x) \<and>
           \<not> open_obligation (commitment_on u (np_memory q) (pd_store w')))"
        by (auto simp: e split: if_splits)
      with q p True r(1) x show ?thesis by (intro exI [of _ q]) simp
    next
      case no: False
      with tail have "p = decide_ret t RetApplied q" "w' = v" by (auto simp: ret_def)
      with q v(2) False no show ?thesis by (intro exI [of _ q]) (cases "np_action q"; simp)
    qed
  qed
qed

end
