(* ===== verification/Reachable.thy ===== *)
theory Reachable
  imports CloserSafety ReviewProposals
begin

text \<open>
  All the write operations together, as a step relation on stores. \<open>op us s s'\<close>: one operation of
  a tenant in \<open>us\<close>, committed or rolled back, takes \<open>s\<close> to \<open>s'\<close>; at each of its waits any sequence
  of operations of tenants in \<open>us\<close> may commit (\<open>ops\<close>), which are themselves open to interference.
  One induction (\<open>op_respects\<close>) turns each instance of the locale \<open>tenant_contract\<close> into a property
  of every reachable store.
\<close>

inductive op :: "uid set \<Rightarrow> store \<Rightarrow> store \<Rightarrow> bool" and ops :: "uid set \<Rightarrow> store \<Rightarrow> store \<Rightarrow> bool"
  for us :: "uid set" where
  ops_done: "ops us s s"
| ops_step: "op us s t \<Longrightarrow> ops us t v \<Longrightarrow> ops us s v"
| op_open: "u \<in> us \<Longrightarrow> (\<And>k s. ops us s (gap k s)) \<Longrightarrow>
    op us s (snd (withTenant u (openSession gap u inp now) s))"
| op_close: "u \<in> us \<Longrightarrow> (\<And>s. ops us s (g s)) \<Longrightarrow>
    op us s (snd (withTenant u (closeSession g u key now) s))"
| op_heartbeat: "u \<in> us \<Longrightarrow> (\<And>k s. ops us s (gap k s)) \<Longrightarrow>
    op us s (snd (withTenant u (heartbeatSession gap u hb now) s))"
| op_remember: "mw_user w \<in> us \<Longrightarrow> (\<And>k s. ops us s (gap k s)) \<Longrightarrow>
    op us s (snd (writeMemory gap t now w cap facts s))"
| op_revise: "mw_user (rv_in rv) \<in> us \<Longrightarrow> (\<And>k s. ops us s (gap k s)) \<Longrightarrow>
    op us s (snd (reviseMemory gap t now rv s))"
| op_move: "mv_user mv \<in> us \<Longrightarrow> (\<And>k s. ops us s (gap k s)) \<Longrightarrow>
    op us s (snd (moveMemory gap t now mv s))"
| op_archive: "u \<in> us \<Longrightarrow> (\<And>k s. ops us s (gap k s)) \<Longrightarrow>
    op us s (snd (archiveBlockerMemory gap t now u m a run s))"
| op_create_commitment: "cc_user cc \<in> us \<Longrightarrow> (\<And>k s. ops us s (gap k s)) \<Longrightarrow>
    op us s (snd (createCommitment gap t cc s))"
| op_transition: "ct_user ct \<in> us \<Longrightarrow> (\<And>k s. ops us s (gap k s)) \<Longrightarrow>
    op us s (snd (transitionCommitment gap t now ct s))"
| op_sweep: "u \<in> us \<Longrightarrow> op us s (snd (withTenant u (sweepCommitments t u now before) s))"
| op_begin_triage: "u \<in> us \<Longrightarrow> (\<And>s. ops us s (g s)) \<Longrightarrow>
    op us s (snd (withTenant u (beginSessionTriage g u key bo) s))"
| op_complete_triage: "u \<in> us \<Longrightarrow> (\<And>s. ops us s (g s)) \<Longrightarrow>
    op us s (snd (withTenant u (completeSessionTriage g u key co) s))"
| op_sweep_leases: "u \<in> us \<Longrightarrow> (\<And>s. ops us s (g s)) \<Longrightarrow>
    op us s (snd (withTenant u (sweepExpiredLeases g u now limit) s))"
| op_claim: "u \<in> us \<Longrightarrow> op us s (snd (withTenant u (claimSessionTriage u cl) s))"
| op_finish: "u \<in> us \<Longrightarrow> (\<And>s. ops us s (g s)) \<Longrightarrow>
    op us s (snd (withTenant u (finishSessionTriage g u cf) s))"
| op_closer_failure: "u \<in> us \<Longrightarrow> op us s (snd (withTenant u (recordCloserFailure u fl) s))"
| op_excerpts: "u \<in> us \<Longrightarrow> (\<And>s. ops us s (g s)) \<Longrightarrow>
    op us s (snd (withTenant u (expireStaleExcerpts g u before limit) s))"
| op_disposition: "aw_user aw \<in> us \<Longrightarrow> (\<And>k s. ops us s (gap k s)) \<Longrightarrow>
    op us s (snd (withTenant (aw_user aw) (archiveMemoryIn gap t now aw) s))"
| op_reaffirm: "aw_user aw \<in> us \<Longrightarrow> (\<And>k s. ops us s (gap k s)) \<Longrightarrow>
    op us s (snd (withTenant (aw_user aw) (reaffirmMemoryIn gap t now aw) s))"
| op_import: "mw_user (im_write im) \<in> us \<Longrightarrow> (\<And>k s. ops us s (gap k s)) \<Longrightarrow>
    op us s (snd (writeImportedMemory gap t im cap s))"
| op_import_event: "ie_user ie \<in> us \<Longrightarrow> op us s (snd (appendImportedEvent t ie s))"
| op_import_edge: "ig_user ig \<in> us \<Longrightarrow> (\<And>k s. ops us s (gap k s)) \<Longrightarrow>
    op us s (snd (writeImportedEdge gap t ig s))"
| op_import_fact: "fw_user fw \<in> us \<Longrightarrow> op us s (snd (insertImportedFact t fw s))"
| op_embedding: "u \<in> us \<Longrightarrow> (\<And>k s. ops us s (gap k s)) \<Longrightarrow>
    op us s (snd (updateMemoryEmbedding gap t u i vec s))"
| op_embed_failed: "u \<in> us \<Longrightarrow> op us s (snd (recordEmbedFailure t u i a why s))"
| op_materialize: "u \<in> us \<Longrightarrow> (\<And>k s. ops us s (gap k s)) \<Longrightarrow>
    op us s (snd (withTenant u (materializeEdgeIn gap t u e a pid) s))"
| op_proposed_fact: "u \<in> us \<Longrightarrow> op us s (snd (withTenant u (insertFact t (fact_of_proposal u fp) True) s))"

inductive_simps ops_from: "ops us s v"
inductive_cases op_cases: "op us s v"

lemma op_respects:
  assumes contract: "\<And>u. u \<in> us \<Longrightarrow> tenant_contract R u" and reflR: "\<And>s. R s s"
    and transR: "\<And>s t v. R s t \<Longrightarrow> R t v \<Longrightarrow> R s v"
  shows "op us s s' \<Longrightarrow> R s s'" and "ops us s s' \<Longrightarrow> R s s'"
proof (induction rule: op_ops.inducts)
  case (op_open u gap s inp now)
  then have C: "tenant_contract R u" by (intro contract)
  show ?case
    by (intro tenant_contract.withTenant_within [OF C] tenant_contract.within_openSession [OF C] op_open.IH refl)
next
  case (op_close u g s key now)
  then have C: "tenant_contract R u" by (intro contract)
  show ?case
    by (intro tenant_contract.withTenant_within [OF C] tenant_contract.within_closeSession [OF C] op_close.IH refl)
next
  case (op_heartbeat u gap s hb now)
  then have C: "tenant_contract R u" by (intro contract)
  show ?case
    by (intro tenant_contract.withTenant_within [OF C] tenant_contract.within_heartbeatSession [OF C] op_heartbeat.IH refl)
next
  case (op_remember w gap s t now cap facts)
  then have C: "tenant_contract R (mw_user w)" by (intro contract)
  show ?case unfolding writeMemory_def
    by (intro tenant_contract.withTenant_within [OF C] tenant_contract.within_writeMemory_tx [OF C]
        tx_preorder.within_map_error [OF tenant_contract.axioms(1) [OF C]] op_remember.IH refl)
next
  case (op_revise rv gap s t now)
  then have C: "tenant_contract R (mw_user (rv_in rv))" by (intro contract)
  show ?case unfolding reviseMemory_def
    by (intro tenant_contract.withTenant_within [OF C] tenant_contract.within_reviseMemory_tx [OF C]
        tx_preorder.within_map_error [OF tenant_contract.axioms(1) [OF C]] op_revise.IH refl)
next
  case (op_move mv gap s t now)
  then have C: "tenant_contract R (mv_user mv)" by (intro contract)
  show ?case unfolding moveMemory_def
    by (intro tenant_contract.withTenant_within [OF C] tenant_contract.within_moveMemory_tx [OF C] op_move.IH refl)
next
  case (op_archive u gap s t now m a run)
  then have C: "tenant_contract R u" by (intro contract)
  show ?case unfolding archiveBlockerMemory_def
    by (intro tenant_contract.withTenant_within [OF C] tenant_contract.within_archiveBlockerMemory_tx [OF C] op_archive.IH refl)
next
  case (op_create_commitment cc gap s t)
  then have C: "tenant_contract R (cc_user cc)" by (intro contract)
  show ?case unfolding createCommitment_def
    by (intro tenant_contract.withTenant_within [OF C] tenant_contract.within_createCommitment_tx [OF C]
        tx_preorder.within_map_error [OF tenant_contract.axioms(1) [OF C]] op_create_commitment.IH refl)
next
  case (op_transition ct gap s t now)
  then have C: "tenant_contract R (ct_user ct)" by (intro contract)
  show ?case unfolding transitionCommitment_def
    by (intro tenant_contract.withTenant_within [OF C] tenant_contract.within_transitionCommitment_tx [OF C]
        tx_preorder.within_map_error [OF tenant_contract.axioms(1) [OF C]] op_transition.IH refl)
next
  case (op_sweep u s t now before)
  then have C: "tenant_contract R u" by (intro contract)
  show ?case
    by (intro tenant_contract.withTenant_within [OF C] tenant_contract.within_sweepCommitments [OF C])
next
  case (op_begin_triage u g s key bo)
  then have C: "tenant_contract R u" by (intro contract)
  show ?case
    by (intro tenant_contract.withTenant_within [OF C] tenant_contract.within_beginSessionTriage [OF C] op_begin_triage.IH)
next
  case (op_complete_triage u g s key co)
  then have C: "tenant_contract R u" by (intro contract)
  show ?case
    by (intro tenant_contract.withTenant_within [OF C] tenant_contract.within_completeSessionTriage [OF C] op_complete_triage.IH)
next
  case (op_sweep_leases u g s now limit)
  then have C: "tenant_contract R u" by (intro contract)
  show ?case
    by (intro tenant_contract.withTenant_within [OF C] tenant_contract.within_sweepExpiredLeases [OF C] op_sweep_leases.IH)
next
  case (op_claim u s cl)
  then have C: "tenant_contract R u" by (intro contract)
  show ?case
    by (intro tenant_contract.withTenant_within [OF C] tenant_contract.within_claimSessionTriage [OF C])
next
  case (op_finish u g s cf)
  then have C: "tenant_contract R u" by (intro contract)
  show ?case
    by (intro tenant_contract.withTenant_within [OF C] tenant_contract.within_finishSessionTriage [OF C] op_finish.IH)
next
  case (op_closer_failure u s fl)
  then have C: "tenant_contract R u" by (intro contract)
  show ?case
    by (intro tenant_contract.withTenant_within [OF C] tenant_contract.within_recordCloserFailure [OF C])
next
  case (op_excerpts u g s before limit)
  then have C: "tenant_contract R u" by (intro contract)
  show ?case
    by (intro tenant_contract.withTenant_within [OF C] tenant_contract.within_expireStaleExcerpts [OF C] op_excerpts.IH)
next
  case (op_disposition aw gap s t now)
  then have C: "tenant_contract R (aw_user aw)" by (intro contract)
  show ?case
    by (intro tenant_contract.withTenant_within [OF C] tenant_contract.within_archiveMemoryIn [OF C] op_disposition.IH refl)
next
  case (op_reaffirm aw gap s t now)
  then have C: "tenant_contract R (aw_user aw)" by (intro contract)
  show ?case
    by (intro tenant_contract.withTenant_within [OF C] tenant_contract.within_reaffirmMemoryIn [OF C] op_reaffirm.IH refl)
next
  case (op_import im gap s t cap)
  then have C: "tenant_contract R (mw_user (im_write im))" by (intro contract)
  show ?case unfolding writeImportedMemory_def
    by (intro tenant_contract.withTenant_within [OF C] tenant_contract.within_writeImportedMemory_tx [OF C]
        tx_preorder.within_map_error [OF tenant_contract.axioms(1) [OF C]] op_import.IH refl)
next
  case (op_import_event ie s t)
  then have C: "tenant_contract R (ie_user ie)" by (intro contract)
  show ?case unfolding appendImportedEvent_def
    by (intro tenant_contract.withTenant_within [OF C] tenant_contract.within_appendImportedEvent_tx [OF C]  refl)
next
  case (op_import_edge ig gap s t)
  then have C: "tenant_contract R (ig_user ig)" by (intro contract)
  show ?case unfolding writeImportedEdge_def
    by (intro tenant_contract.withTenant_within [OF C] tenant_contract.within_writeImportedEdge_tx [OF C] op_import_edge.IH refl)
next
  case (op_import_fact fw s t)
  then have C: "tenant_contract R (fw_user fw)" by (intro contract)
  show ?case unfolding insertImportedFact_def
    by (intro tenant_contract.withTenant_within [OF C] tenant_contract.within_insertImportedFact_tx [OF C]  refl)
next
  case (op_embedding u gap s t i vec)
  then have C: "tenant_contract R u" by (intro contract)
  show ?case unfolding updateMemoryEmbedding_def
    by (intro tenant_contract.withTenant_within [OF C] tenant_contract.within_updateMemoryEmbedding_tx [OF C] op_embedding.IH refl)
next
  case (op_embed_failed u s t i a why)
  then have C: "tenant_contract R u" by (intro contract)
  show ?case unfolding recordEmbedFailure_def
    by (intro tenant_contract.withTenant_within [OF C] tenant_contract.within_recordEmbedFailure_tx [OF C]  refl)
next
  case (op_materialize u gap s t e a pid)
  then have C: "tenant_contract R u" by (intro contract)
  show ?case
    by (intro tenant_contract.withTenant_within [OF C] tenant_contract.within_materializeEdgeIn [OF C] op_materialize.IH refl)
next
  case (op_proposed_fact u s t fp)
  then have C: "tenant_contract R u" by (intro contract)
  show ?case
    by (intro tenant_contract.withTenant_within [OF C] tenant_contract.within_insertFact_proposal [OF C]  refl)
qed (auto intro: reflR transR)

section \<open>The tables stay consistent\<close>

lemma constraints_empty: "constraints (empty_store users)"
  by (simp add: constraints_def table_ok_defs empty_store_def ids_ok_def live_hashes_def)


section \<open>Append and supersede\<close>


section \<open>Tenant isolation\<close>

text \<open>Everything of tenant \<open>v\<close>.\<close>

definition own_rows :: "uid \<Rightarrow> store \<Rightarrow> memory list \<times> memory_edge list \<times> memory_event list \<times>
    commitment list \<times> fact list \<times> agent_session list" where
  "own_rows v s = (filter (\<lambda>r. mem_user r = v) (tbl_memories s), filter (\<lambda>r. edge_user r = v) (tbl_edges s),
     filter (\<lambda>r. ev_user r = v) (tbl_events s), filter (\<lambda>r. com_user r = v) (tbl_commitments s),
     filter (\<lambda>r. fact_user r = v) (tbl_facts s), filter (\<lambda>r. ses_user r = v) (tbl_sessions s))"

definition untouched :: "uid \<Rightarrow> store \<Rightarrow> store \<Rightarrow> bool" where
  "untouched v s s' \<longleftrightarrow> own_rows v s' = own_rows v s"

lemma filter_twice: "(\<And>x. P x \<Longrightarrow> Q x) \<Longrightarrow> filter P (filter Q xs) = filter P xs"
  by (induction xs) auto

lemma filter_pick:
  assumes "u \<noteq> v" and "filter (\<lambda>r. g r \<noteq> u) xs = filter (\<lambda>r. g r \<noteq> u) ys"
  shows "filter (\<lambda>r. g r = v) xs = filter (\<lambda>r. g r = v) ys"
proof -
  have "filter (\<lambda>r. g r = v) (filter (\<lambda>r. g r \<noteq> u) zs) = filter (\<lambda>r. g r = v) zs" for zs
    by (rule filter_twice) (use assms(1) in auto)
  with assms(2) show ?thesis by metis
qed

text \<open>What leaves the rows of all tenants but \<open>u\<close> alone leaves those of \<open>v\<close> alone.\<close>

lemma foreign_untouched: "u \<noteq> v \<Longrightarrow> tenant_step u s s' \<Longrightarrow> untouched v s s'"
  unfolding untouched_def own_rows_def tenant_step_def foreign_rows_def prod.inject
  by (elim conjE, intro conjI) (erule filter_pick, assumption)+

lemma within_mono: "moves R m \<Longrightarrow> (\<And>s s'. R s s' \<Longrightarrow> R' s s') \<Longrightarrow> moves R' m"
  by (simp add: moves_def)

text \<open>A coarser preorder inherits a contract.\<close>

lemma tenant_contract_mono:
  assumes C: "tenant_contract R u" and sub: "\<And>s s'. R s s' \<Longrightarrow> R' s s'" and "\<And>s. R' s s"
    and "\<And>s t v. R' s t \<Longrightarrow> R' t v \<Longrightarrow> R' s v"
  shows "tenant_contract R' u"
proof unfold_locales
  note mono = within_mono [OF _ sub]
  show "mem_user row = u \<Longrightarrow> moves R' (insert_memory row)" for row by (rule mono, rule tenant_contract.ins_memory [OF C])
  show "edge_user e = u \<Longrightarrow> moves R' (insert_edge_row e)" for e by (rule mono, rule tenant_contract.ins_edge [OF C])
  show "ev_user e = u \<Longrightarrow> moves R' (insert_event e)" for e by (rule mono, rule tenant_contract.ins_event [OF C])
  show "com_user c = u \<Longrightarrow> moves R' (insert_commitment c)" for c by (rule mono, rule tenant_contract.ins_commitment [OF C])
  show "fact_user x = u \<Longrightarrow> moves R' (insert_fact_row x)" for x by (rule mono, rule tenant_contract.ins_fact [OF C])
  show "ses_user y = u \<Longrightarrow> moves R' (insert_session_row y)" for y by (rule mono, rule tenant_contract.ins_session [OF C])
  show "(\<And>m. p m \<Longrightarrow> mem_step m (f m)) \<Longrightarrow> moves R' (update_memories u p f)" for p f
    by (rule mono, rule tenant_contract.upd_memories [OF C])
  show "(\<And>d. p d \<Longrightarrow> com_step d (f d)) \<Longrightarrow> moves R' (update_commitments u p f)" for p f
    by (rule mono, rule tenant_contract.upd_commitments [OF C])
  show "(\<And>z. p z \<Longrightarrow> fact_step z (f z)) \<Longrightarrow> moves R' (update_facts u p f)" for p f
    by (rule mono, rule tenant_contract.upd_facts [OF C])
  show "(\<And>w. p w \<Longrightarrow> ses_step w (f w)) \<Longrightarrow> moves R' (update_sessions u p f)" for p f
    by (rule mono, rule tenant_contract.upd_sessions [OF C])
qed (use assms in auto)

lemma other_tenant_contract: "u \<noteq> v \<Longrightarrow> tenant_contract (untouched v) u"
  by (rule tenant_contract_mono [OF tenant.tenant_contract_axioms foreign_untouched]) (simp_all add: untouched_def)

definition users_kept :: "store \<Rightarrow> store \<Rightarrow> bool" where
  "users_kept s s' \<longleftrightarrow> tbl_users s' = tbl_users s"

text \<open>No operation on memories, commitments or sessions writes an account.\<close>

lemma ops_keep_users: "ops us s s' \<Longrightarrow> tbl_users s' = tbl_users s"
  using op_respects(2) [of us users_kept s s', OF tenant_contract_mono [OF tenant.tenant_contract_axioms]]
  by (auto simp: users_kept_def tenant_step_def foreign_rows_def)

text \<open>
  C29. Tenants are isolated. Whatever the operations of other tenants do, in any interleaving, every
  row of a tenant that takes no part in it is exactly as it was, in every table.
\<close>

theorem tenants_are_isolated:
  assumes "ops us s s'" and "v \<notin> us"
  shows "own_rows v s' = own_rows v s"
proof -
  have "untouched v s s'"
  proof (rule op_respects(2) [OF other_tenant_contract _ _ assms(1)])
    show "u \<in> us \<Longrightarrow> u \<noteq> v" for u using assms(2) by blast
  qed (simp_all add: untouched_def)
  then show ?thesis by (simp add: untouched_def)
qed

end
