(* ===== verification/Scenario.thy ===== *)
theory Scenario
  imports Reachable
begin

text \<open>
  A concrete store and concrete calls: every property with hypotheses is applied here to inputs
  that satisfy them. User 1 (Ada) opens a session, remembers a commitment and a blocker, revises,
  moves and resolves them. The stores are computed by the model's own operations.
\<close>

declare One_nat_def [simp del]

section \<open>The stores\<close>

definition ada :: user where
  "ada = \<lparr>usr_id = 1, usr_email = ''ada'', usr_password_hash = ''h'', usr_verified_at = Some 0\<rparr>"

definition gone :: user where
  "gone = \<lparr>usr_id = 2, usr_email = deletedEmail 2, usr_password_hash = ''!erased'', usr_verified_at = None\<rparr>"

definition s0 :: store where "s0 = empty_store [ada, gone]"

definition run_open :: open_input where
  "run_open = \<lparr>key_agent = ''cc'', key_session = ''x1'', in_source = Startup, in_project = Some ''p'',
     in_scope = None, in_selector = SelAll, in_briefed = None\<rparr>"

definition run_key :: session_key where "run_key = \<lparr>key_agent = ''cc'', key_session = ''x1''\<rparr>"

definition beat :: "string option \<Rightarrow> heartbeat_input" where
  "beat e = \<lparr>key_agent = ''cc'', key_session = ''x1'', in_excerpt = e\<rparr>"

definition note_write :: "memory_type \<Rightarrow> string \<Rightarrow> memory_write" where
  "note_write ty h = \<lparr>mw_user = 1, mw_type = ty, mw_topic = ''t'', mw_content = ''c'', mw_scope = ''work'',
     mw_project = Some ''p'', mw_tags = [], mw_hash = h, mw_actor = UserMcp, mw_run = RunOmitted,
     mw_commitment = None, mw_status = None, mw_valid_from = None, mw_valid_to = None, mw_recorded_at = None\<rparr>"

definition revision :: "memory_type \<Rightarrow> string \<Rightarrow> rid \<Rightarrow> revise_write" where
  "revision ty h p = \<lparr>rv_in = note_write ty h, rv_scope = None, rv_tags = None, rv_predecessor = p,
     rv_edge = Supersedes\<rparr>"

definition move_to :: "string option \<Rightarrow> string list option \<Rightarrow> move_write" where
  "move_to sc tg = \<lparr>mv_user = 1, mv_memory = 1, mv_scope = sc, mv_project = None, mv_tags = tg,
     mv_actor = UserMcp, mv_run = RunNull\<rparr>"

text \<open>\<open>s1\<close>: the session (row 0). \<open>s2\<close>: a commitment memory (row 1, commitment 3). \<open>s3\<close>: a blocker (row 4).\<close>

definition s1 :: store where "s1 = snd (openAgentSession 1 run_open 0 s0)"

definition s2 :: store where "s2 = snd (writeMemory no_gap 1000 1 (note_write Commitment ''h1'') None [] s1)"

definition s3 :: store where "s3 = snd (writeMemory no_gap 2000 2 (note_write Blocker ''h2'') None [] s2)"

text \<open>Their contents, so that what follows evaluates from them.\<close>

definition mem_lit :: "rid \<Rightarrow> memory_type \<Rightarrow> string \<Rightarrow> instant \<Rightarrow> memory" where
  "mem_lit i ty h t = \<lparr>mem_id = i, mem_user = 1, mem_type = ty, mem_topic = ''t'', mem_content = ''c'',
     mem_scope = ''work'', mem_project = Some ''p'', mem_status = Active, mem_tags = [], mem_hash = h,
     mem_valid_from = t, mem_valid_to = None, mem_recorded_at = t, mem_created_at = t, mem_updated_at = t, mem_embedding = None,
     mem_last_reviewed = None\<rparr>"

definition ev_lit :: "rid \<Rightarrow> rid \<Rightarrow> instant \<Rightarrow> memory_event" where
  "ev_lit i m t = \<lparr>ev_id = i, ev_user = 1, ev_memory = m, ev_kind = EvCreate, ev_actor = UserMcp,
     ev_payload = Some (SessionPayload 0), ev_created_at = t\<rparr>"

definition com_lit :: commitment where
  "com_lit = \<lparr>com_id = 3, com_user = 1, com_memory = 1, com_status = StOpen, com_owner = None, com_due_at = None,
     com_recurrence = None, com_next_surfacing_at = None, com_resolved_at = None,
     com_last_resolution_reason = None, com_created_at = 1000, com_updated_at = 1000\<rparr>"

definition ses_lit :: "jsdate \<Rightarrow> jsdate option \<Rightarrow> agent_session" where
  "ses_lit seen ended = \<lparr>ses_id = 0, ses_user = 1, ses_agent = ''cc'', ses_session = ''x1'', ses_source = Startup,
     ses_project = Some ''p'', ses_scope = None, ses_selector = SelAll, ses_opened_at = 0, ses_closed_at = ended,
     ses_last_seen = seen, ses_epoch = 1, ses_triage_status = TrIdle, ses_triage_attempt = None,
     ses_triage_armed_at = None, ses_attempt_log = [], ses_attempt_count = 0, ses_triaged_events = [],
     ses_briefing_delivered = None, ses_briefed = [], ses_excerpt = None, ses_needs_look = False,
     ses_closer_failures = 0, ses_closer_next_attempt = None\<rparr>"

definition store_lit :: "memory list \<Rightarrow> memory_event list \<Rightarrow> agent_session \<Rightarrow> rid \<Rightarrow> store" where
  "store_lit ms es x n = \<lparr>tbl_users = [ada, gone], tbl_memories = ms, tbl_edges = [], tbl_events = es,
     tbl_commitments = [com_lit], tbl_facts = [], tbl_sessions = [x], next_id = n\<rparr>"

lemma s2_eval [code]: "s2 = store_lit [mem_lit 1 Commitment ''h1'' 1000] [ev_lit 2 1 1000] (ses_lit 1 None) 4"
  by code_simp

definition mems3 :: "memory list" where "mems3 = [mem_lit 1 Commitment ''h1'' 1000, mem_lit 4 Blocker ''h2'' 2000]"
definition evs3 :: "memory_event list" where "evs3 = [ev_lit 2 1 1000, ev_lit 5 4 2000]"

lemma s3_eval [code]: "s3 = store_lit mems3 evs3 (ses_lit 2 None) 6"
  by code_simp

text \<open>The first value of a successful result.\<close>

definition val :: "(err + 'a) \<times> store \<Rightarrow> 'a" where "val r = projr (fst r)"

lemma ok_val: "isl (fst r) = False \<Longrightarrow> r = (Inr (val r), snd r)"
  by (cases r) (auto simp: val_def isl_def)

definition txval :: "err + 'a \<times> store \<Rightarrow> 'a" where "txval r = fst (projr r)"
definition txst :: "err + 'a \<times> store \<Rightarrow> store" where "txst r = snd (projr r)"

lemma tx_ok: "isl r = False \<Longrightarrow> r = Inr (txval r, txst r)"
  by (cases r) (auto simp: txval_def txst_def isl_def)

lemma constraints_s2: "constraints s2" by code_simp
lemma constraints_s3: "constraints s3" by code_simp

section \<open>Sessions\<close>

definition x1 :: agent_session where "x1 = the (session_of 1 0 s1)"

lemma x1_row: "session_of 1 0 s1 = Some x1" by code_simp
lemma x1_key: "keyed_session 1 run_key s1 = Some x1" by code_simp

definition stale :: jsdate where "stale = SESSION_LEASE_MS + 5"

definition attachA :: "err + rid option \<times> store" where "attachA = attachKnownRun no_gap 1 0 stale s1"
definition attachB :: "err + rid option \<times> store" where
  "attachB = attachKnownRun (\<lambda>_ _. txst attachA) 1 0 (stale + 1) s1"

theorem concurrent_resurrection_once_witness:
  "\<exists>y. session_of 1 0 (txst attachB) = Some y \<and> ses_epoch y = 2"
proof -
  have A: "attachKnownRun no_gap 1 0 stale s1 = Inr (txval attachA, txst attachA)"
    unfolding attachA_def by (rule tx_ok) code_simp
  have B: "attachKnownRun (\<lambda>_ _. txst attachA) 1 0 (stale + 1) s1 = Inr (txval attachB, txst attachB)"
    unfolding attachB_def by (rule tx_ok) code_simp
  have h: "\<not> isExplicitClose (ses_closed_at x1) (ses_last_seen x1)" "\<not> isLeased (ses_last_seen x1) stale"
    "\<not> isLeased (ses_last_seen x1) (stale + 1)" "stale + 1 < stale + SESSION_LEASE_MS" "ses_epoch x1 = 1"
    by code_simp+
  from concurrent_resurrection_once [OF x1_row h(1-4) A B] h(5) show ?thesis by auto
qed

theorem openSession_table_witness:
  "or_created (txval (openSession no_gap 1 run_open 0 s0)) \<and> ses_epoch (or_row (txval (openSession no_gap 1 run_open 0 s0))) = 1"
proof -
  have r: "openSession no_gap 1 run_open 0 s0 =
      Inr (txval (openSession no_gap 1 run_open 0 s0), txst (openSession no_gap 1 run_open 0 s0))"
    by (rule tx_ok) code_simp
  have k: "keyed_session 1 (key_of run_open) s0 = None" by code_simp
  from openSession_table [OF r] show ?thesis unfolding k by simp
qed

theorem erased_account_witness:
  "openSession no_gap 2 run_open 0 s0 = Inl AccountDeleted"
proof -
  have "erased 2 s0" by code_simp
  from erased_account_gets_no_content [OF this] show ?thesis by blast
qed

theorem heartbeat_alive_witness:
  "isLeased (ses_last_seen (hr_row (txval (heartbeatSession no_gap 1 (beat None) stale s1)))) stale"
proof -
  have r: "heartbeatSession no_gap 1 (beat None) stale s1 =
      Inr (txval (heartbeatSession no_gap 1 (beat None) stale s1), txst (heartbeatSession no_gap 1 (beat None) stale s1))"
    by (rule tx_ok) code_simp
  from heartbeat_leaves_session_alive [OF r] show ?thesis by blast
qed

definition closed1 :: "err + close_result \<times> store" where "closed1 = closeSession (\<lambda>s. s) 1 run_key 7 s1"

theorem ended_session_witness:
  "attachKnownRun no_gap 1 (ses_id x1) stale (txst closed1) = Inr (None, txst closed1)"
proof -
  have r: "closeSession (\<lambda>s. s) 1 run_key 7 s1 = Inr (txval closed1, txst closed1)"
    unfolding closed1_def by (rule tx_ok) code_simp
  have h: "constraints s1" "ses_closed_at x1 = None" "isLeased (ses_last_seen x1) 7" by code_simp+
  show ?thesis by (rule ended_session_takes_no_writes [OF h(1) x1_key h(2,3) r])
qed

section \<open>Facts\<close>

definition price :: "string \<Rightarrow> jsdate option \<Rightarrow> fact_write" where
  "price v d = \<lparr>fw_user = 1, fw_memory = 1, fw_subject = ''3n'', fw_predicate = ''price'', fw_value = v,
     fw_confidence = None, fw_valid_from = d, fw_valid_to = None, fw_recorded_at = None, fw_cardinality = None\<rparr>"

definition priced :: "err + rid list \<times> store" where
  "priced = insertFacts 5000 [price ''10'' (Some 1), price ''12'' None] True s2"

theorem single_current_witness:
  "length (open_values 1 ''3n'' ''price'' (txst priced)) \<le> 1"
proof -
  have r: "insertFacts 5000 [price ''10'' (Some 1), price ''12'' None] True s2 = Inr (txval priced, txst priced)"
    unfolding priced_def by (rule tx_ok) code_simp
  have o: "length (open_values 1 ''3n'' ''price'' s2) \<le> 1" by code_simp
  have p: "\<not> is_plain True (price v d)" for v d by (simp add: is_plain_def price_def)
  show ?thesis by (rule insertFacts_single_current [OF o _ r]) (auto simp: p)
qed

definition repriced :: "err + rid \<times> store" where
  "repriced = insertFact 9000 (price ''8'' (Some 3)) True (txst priced)"

theorem latest_or_history_witness:
  "open_for (price ''8'' (Some 3)) (txst repriced) =
     later_open (price ''8'' (Some 3)) 3000 (txst priced)"
proof -
  have p: "\<not> is_plain True (price ''8'' (Some 3))" by code_simp
  have r: "insertFact 9000 (price ''8'' (Some 3)) True (txst priced) = Inr (txval repriced, txst repriced)"
    unfolding repriced_def by (rule tx_ok) code_simp
  have later: "\<not> (\<forall>x \<in> set (open_for (price ''8'' (Some 3)) (txst priced)).
      fact_valid_from x \<le> startOf 9000 (price ''8'' (Some 3)))" by code_simp
  have "startOf 9000 (price ''8'' (Some 3)) = 3000" by code_simp
  with insertFact_latest_or_history [OF p r, unfolded if_not_P [OF later]] show ?thesis by simp
qed

section \<open>Memories\<close>

definition remembered :: "(err + written_memory) \<times> store" where
  "remembered = writeMemory no_gap 3000 3 (note_write Note ''h3'') None [] s3"

lemma remembered_ok: "writeMemory no_gap 3000 3 (note_write Note ''h3'') None [] s3 =
    (Inr (val remembered), snd remembered)"
  unfolding remembered_def by (rule ok_val) code_simp

theorem writeMemory_effect_witness:
  "tbl_memories (snd remembered) = tbl_memories s3 @
     [(memory_row 3000 (note_write Note ''h3''))\<lparr>mem_id := wm_id (val remembered)\<rparr>]"
  using writeMemory_effect [OF remembered_ok] by blast

theorem single_live_witness:
  "\<exists>m. filter (\<lambda>m. mem_user m = mw_user (note_write Note ''h3'') \<and>
      live_with_hash (mw_hash (note_write Note ''h3'')) m) (tbl_memories (snd remembered)) = [m]"
proof -
  have "mw_valid_to (note_write Note ''h3'') = None" by code_simp
  from writeMemory_single_live [OF remembered_ok this] show ?thesis by blast
qed

text \<open>The concurrent writer: \<open>h3\<close> is committed between the duplicate check and the INSERT.\<close>

definition steal :: interference where "steal = (\<lambda>k s. if k = 5 then snd remembered else s)"

theorem duplicate_refused_witness:
  "writeMemory steal 4000 4 (note_write Note ''h3'') None [] s3 = (Inl (DuplicateMemory ''h3''), s3)"
proof -
  let ?w = "note_write Note ''h3''" and ?p = "resolveSessionProvenance steal 1 RunOmitted (Some ''p'') 4 s3"
  have r: "resolveSessionProvenance steal (mw_user ?w) (mw_run ?w) (mw_project ?w) 4 s3 = Inr (txval ?p, txst ?p)"
    by (simp add: note_write_def) (rule tx_ok, code_simp)
  have v: "mw_valid_to ?w = None" by code_simp
  have d: "\<exists>m \<in> set (tbl_memories (steal 5 (txst ?p))). mem_user m = mw_user ?w \<and> live_with_hash (mw_hash ?w) m"
    unfolding steal_def by code_simp
  have h: "mw_hash ?w = ''h3''" by code_simp
  from duplicate_write_refused [OF r v d] show ?thesis by (simp add: h)
qed

definition capped :: "err + rid \<times> store" where
  "capped = insertMemoryWithEvent no_gap 3000 (note_write Note ''h3'') (native_event None) (Some 3) s3"

theorem live_cap_witness: "live_count 1 (txst capped) \<le> 3"
proof -
  have r: "insertMemoryWithEvent no_gap 3000 (note_write Note ''h3'') (native_event None) (Some 3) s3 =
      Inr (txval capped, txst capped)"
    unfolding capped_def by (rule tx_ok) code_simp
  have c: "consumesLiveSlot (note_write Note ''h3'')" and u: "mw_user (note_write Note ''h3'') = 1" by code_simp+
  from live_cap_exact [OF r c] u show ?thesis by simp
qed

section \<open>Revisions\<close>

definition revised :: "(err + revised_memory) \<times> store" where
  "revised = reviseMemory no_gap 3000 3 (revision Note ''h3'' 1) s3"

lemma revised_ok: "reviseMemory no_gap 3000 3 (revision Note ''h3'' 1) s3 = (Inr (val revised), snd revised)"
  unfolding revised_def by (rule ok_val) code_simp

theorem revise_appends_witness:
  "\<exists>pred. predecessor_of (mw_user (rv_in (revision Note ''h3'' 1))) (rv_predecessor (revision Note ''h3'' 1)) s3
      = Some pred \<and> mem_valid_to pred = None"
  using revise_appends_and_closes [OF revised_ok] by blast

theorem commitment_follows_witness:
  "\<exists>c. commitment_on 1 1 s3 = Some c \<and> commitment_on 1 1 (snd revised) = Some (resolve_row 3000 c)"
proof -
  define c where "c = the (commitment_on 1 1 s3)"
  have c: "commitment_on 1 1 s3 = Some c" unfolding c_def by code_simp
  have i: "mw_user (rv_in (revision Note ''h3'' 1)) = 1" "rv_predecessor (revision Note ''h3'' 1) = 1"
    "mw_type (rv_in (revision Note ''h3'' 1)) \<noteq> Commitment" by code_simp+
  have l: "is_live_status (com_status c)" unfolding c_def by code_simp
  from commitment_follows_revision [OF revised_ok constraints_s3] show ?thesis
    unfolding Let_def i(1,2) c using i(3) l by simp
qed

theorem revise_errors_witness:
  "revise_error 1 ''h2'' (DuplicateMemory ''h2'')"
proof -
  have r: "reviseMemory no_gap 3000 3 (revision Note ''h2'' 1) s3 = (Inl (DuplicateMemory ''h2''), s3)" by code_simp
  have i: "rv_predecessor (revision Note ''h2'' 1) = 1" "mw_hash (rv_in (revision Note ''h2'' 1)) = ''h2''"
    by code_simp+
  have "inv_step s (no_gap k s) \<and> evolves s (no_gap k s)" for k s
    by (simp add: inv.R_refl hist.R_refl)
  from revise_errors [OF constraints_s3 this r] show ?thesis unfolding i by blast
qed

text \<open>The race: the other revision commits while this one waits for the predecessor's row.\<close>

definition lose :: interference where "lose = (\<lambda>k s. if k = 6 then snd revised else s)"

theorem revise_race_witness:
  "reviseMemory lose 4000 4 (revision Note ''h4'' 1) s3 = (Inl (PredecessorAlreadySuperseded 1), s3)"
proof -
  let ?i = "revision Note ''h4'' 1"
  let ?p = "resolveSessionProvenance lose 1 RunOmitted (Some ''p'') 4 s3"
  define pred where "pred = the (predecessor_of 1 1 s3)"
  have i: "mw_user (rv_in ?i) = 1" "rv_predecessor ?i = 1" "mw_run (rv_in ?i) = RunOmitted" by code_simp+
  have p: "predecessor_of (mw_user (rv_in ?i)) (rv_predecessor ?i) s3 = Some pred"
    unfolding pred_def by code_simp
  have v: "mem_valid_to pred = None" unfolding pred_def by code_simp
  have pj: "mw_project (successor_write ?i pred) = Some ''p''" unfolding pred_def by code_simp
  have r: "resolveSessionProvenance lose (mw_user (rv_in ?i)) (mw_run (rv_in ?i))
      (mw_project (successor_write ?i pred)) 4 s3 = Inr (txval ?p, txst ?p)"
    unfolding i pj by (rule tx_ok) code_simp
  have g: "lose 6 (txst ?p) = snd revised" by (simp add: lose_def)
  have c: "\<forall>m \<in> set (tbl_memories (lose 6 (txst ?p))). mem_user m = mw_user (rv_in ?i) \<longrightarrow>
      mem_id m = rv_predecessor ?i \<longrightarrow> mem_valid_to m \<noteq> None" unfolding g by code_simp
  have k: "constraints (lose 6 (txst ?p))" unfolding g by code_simp
  from revise_race_loser [OF p v r c k] show ?thesis unfolding i by blast
qed

text \<open>The sweep expires the obligation while a demotion waits for it.\<close>

definition expire_then :: interference where
  "expire_then = (\<lambda>k s. if k = 7 then s\<lparr>tbl_commitments := map (expire_row 9) (tbl_commitments s)\<rparr> else s)"

theorem demotion_race_witness:
  "carryCommitment expire_then 3000 (revision Note ''h3'' 1) 9 None s3 = Inr ((), expire_then 7 s3)"
proof -
  let ?i = "revision Note ''h3'' 1" and ?c = "the (commitment_on 1 1 s3)"
  have h: "mw_type (rv_in ?i) \<noteq> Commitment" by code_simp
  have c: "commitment_on (mw_user (rv_in ?i)) (rv_predecessor ?i) s3 = Some ?c" by code_simp
  have n: "\<forall>d \<in> set (tbl_commitments (expire_then 7 s3)). com_id d = com_id ?c \<longrightarrow> \<not> is_live_status (com_status d)"
    by code_simp
  have k: "constraints (expire_then 7 s3)" and l: "is_live_status (com_status ?c)" by code_simp+
  from demotion_race_with_sweep [where gap = expire_then, OF h c n k] l show ?thesis by simp
qed

section \<open>Moves and blockers\<close>

definition mover :: move_write where "mover = move_to None None"

definition movedA :: "(err + moved_memory) \<times> store" where
  "movedA = moveMemory no_gap 3000 3 (mover\<lparr>mv_scope := Some ''home'', mv_project := None, mv_tags := None\<rparr>) s3"

definition movedB :: "(err + moved_memory) \<times> store" where
  "movedB = moveMemory (no_gap(9 := \<lambda>_. snd movedA)) 4000 4
     (mover\<lparr>mv_scope := None, mv_project := None, mv_tags := Some [''x'']\<rparr>) s3"

lemma movedA_ok: "moveMemory no_gap 3000 3 (mover\<lparr>mv_scope := Some ''home'', mv_project := None, mv_tags := None\<rparr>) s3
    = (Inr (val movedA), snd movedA)"
  unfolding movedA_def by (rule ok_val) code_simp

lemma movedA_changed: "mm_changed (val movedA)" by code_simp

theorem concurrent_moves_witness:
  "\<exists>m. predecessor_of 1 1 (snd movedB) = Some m \<and> mem_scope m = ''home'' \<and> mem_tags m = [''x'']"
proof -
  have B: "moveMemory (no_gap(9 := \<lambda>_. snd movedA)) 4000 4
     (mover\<lparr>mv_scope := None, mv_project := None, mv_tags := Some [''x'']\<rparr>) s3 = (Inr (val movedB), snd movedB)"
    unfolding movedB_def by (rule ok_val) code_simp
  have c: "mm_changed (val movedB)" by code_simp
  have i: "mv_user mover = 1" "mv_memory mover = 1" by code_simp+
  from concurrent_moves_both_land [OF movedA_ok movedA_changed B c] show ?thesis by (simp add: i)
qed

theorem move_event_witness:
  "\<exists>v cur. predecessor_of 1 1 v = Some cur \<and> filed_of cur \<noteq> mm_filed (val movedA)"
proof -
  have i: "mv_user (mover\<lparr>mv_scope := Some ''home'', mv_project := None, mv_tags := None\<rparr>) = 1"
    "mv_memory (mover\<lparr>mv_scope := Some ''home'', mv_project := None, mv_tags := None\<rparr>) = 1" by code_simp+
  from move_event_is_true [OF movedA_ok movedA_changed] show ?thesis unfolding i by blast
qed

definition archived :: "(err + rid \<times> memory_status) \<times> store" where
  "archived = archiveBlockerMemory no_gap 3000 3 1 4 UserMcp RunOmitted s3"

theorem archive_frees_witness:
  "\<exists>m. predecessor_of 1 4 s3 = Some m \<and> predecessor_of 1 4 (snd archived) = Some (archive_row 3000 m)"
proof -
  have r: "archiveBlockerMemory no_gap 3000 3 1 4 UserMcp RunOmitted s3 = (Inr (val archived), snd archived)"
    unfolding archived_def by (rule ok_val) code_simp
  from archive_frees_the_hash [OF r constraints_s3] show ?thesis by blast
qed

section \<open>Commitments\<close>

text \<open>A commitment memory without a commitment (row 20) is not reachable by remembering; it is inserted here.\<close>

definition bare :: store where
  "bare = txst (insertMemoryWithEvent no_gap 2500 (note_write Commitment ''h5'') (native_event None) None s3)"

definition creation :: commitment_create where
  "creation = \<lparr>cc_user = 1, cc_memory = next_id s3, cc_owner = Some ''ada'', cc_due_at = Some 9, cc_recurrence = None,
     cc_next_surfacing_at = None, cc_actor = UserApi\<rparr>"

theorem createCommitment_witness:
  "\<exists>(c :: commitment) s'. createCommitment no_gap 3000 creation bare = (Inr (com_id c, StOpen), s')"
proof -
  let ?f = "find_row (\<lambda>m. mem_user m = cc_user creation \<and> live_commitment_memory (cc_memory creation) m)
      (tbl_memories (no_gap 11 bare))"
  have k: "constraints (no_gap 11 bare)" by code_simp
  have f: "?f = Some (the ?f)" by code_simp
  have n: "\<not> commitment_on (cc_user creation) (cc_memory creation) (no_gap 11 bare) \<noteq> None" by code_simp
  from createCommitment_cases [where gap = no_gap, OF k, where inp = creation and t = 3000]
  show ?thesis by (subst (asm) f) (use n in auto)
qed

definition settle :: "commitment_status \<Rightarrow> commitment_status option \<Rightarrow> commitment_transition" where
  "settle to ex = \<lparr>ct_user = 1, ct_id = 3, ct_to = to, ct_actor = UserApi, ct_expected = ex, ct_run = RunNull,
     ct_reason = Some ''done'', ct_stamped_run = None, ct_stamped_epoch = None\<rparr>"

definition settled :: "(err + rid \<times> commitment_status) \<times> store" where
  "settled = transitionCommitment no_gap 4000 4 (settle StResolved (Some StOpen)) s3"

lemma settled_ok: "transitionCommitment no_gap 4000 4 (settle StResolved (Some StOpen)) s3 = (Inr (val settled), snd settled)"
  unfolding settled_def by (rule ok_val) code_simp

theorem transition_effect_witness:
  "\<exists>d. commitment_by 1 3 (snd settled) = Some d \<and> com_status d = StResolved \<and>
     com_last_resolution_reason d = Some ''done''"
proof -
  have i: "ct_user (settle StResolved (Some StOpen)) = 1" "ct_id (settle StResolved (Some StOpen)) = 3"
    "ct_to (settle StResolved (Some StOpen)) = StResolved" "ct_reason (settle StResolved (Some StOpen)) = Some ''done''"
    by code_simp+
  from transition_effect [OF settled_ok constraints_s3] show ?thesis unfolding i by auto
qed

definition expired3 :: store where "expired3 = txst (sweepCommitments 5000 1 50 50 (bare\<lparr>tbl_commitments :=
    map (\<lambda>c. c\<lparr>com_due_at := Some 7\<rparr>) (tbl_commitments bare)\<rparr>))"

theorem trigger_backstop_witness:
  "transitionCommitment no_gap 6000 6 (settle StResolved None) expired3 =
     (Inl (IllegalCommitmentTransition StExpired StResolved), expired3)"
proof -
  let ?i = "settle StResolved None" and ?c = "the (commitment_by 1 3 expired3)"
  have l: "\<not> is_locked ?i" "ct_stamped_run ?i = None" "ct_expected ?i = None" by code_simp+
  have c: "commitment_by (ct_user ?i) (ct_id ?i) expired3 = Some ?c" by code_simp
  have k: "constraints expired3" by code_simp
  have r: "ct_run ?i = RunNull" by code_simp
  have p: "resolveSessionProvenance no_gap (ct_user ?i) (ct_run ?i)
      (case predecessor_of (ct_user ?i) (com_memory ?c) expired3 of None \<Rightarrow> None | Some m \<Rightarrow> mem_project m) 6 expired3
      = Inr (None, expired3)" unfolding r by (simp add: resolveSessionProvenance_def ret_def)
  have st: "com_status ?c = StExpired" "ct_to ?i = StResolved" by code_simp+
  have n: "com_status ?c \<noteq> ct_to ?i" "\<not> canTransition (com_status ?c) (ct_to ?i)" by (simp_all add: st)
  from trigger_backstop [OF l c k p n] show ?thesis unfolding st by blast
qed

definition stamp :: "nat \<Rightarrow> commitment_transition" where
  "stamp ep = (settle StResolved (Some StOpen))\<lparr>ct_stamped_run := Some 0, ct_stamped_epoch := Some ep\<rparr>"

theorem closer_fence_witness:
  "transitionCommitment no_gap 4000 4 (stamp 7) s3 = (Inl (SessionEpochFenced 0 7), s3)"
proof -
  have st: "ct_stamped_run (stamp 7) = Some 0" "ct_stamped_epoch (stamp 7) = Some 7" by code_simp+
  have a: "commitment_by (ct_user (stamp 7)) (ct_id (stamp 7)) (no_gap 12 s3) \<noteq> None" by code_simp
  have "session_of (ct_user (stamp 7)) 0 (no_gap 12 s3) = Some (the (session_of 1 0 s3))"
    "ses_epoch (the (session_of 1 0 s3)) \<noteq> 7" by code_simp+
  then have b: "\<not> (\<exists>x. session_of (ct_user (stamp 7)) 0 (no_gap 12 s3) = Some x \<and> ses_epoch x = 7)" by auto
  from closer_fence [where gap = no_gap, OF st, of 4000 4 s3 undefined s3] a b show ?thesis by blast
qed

definition swept3 :: "err + sweep_result \<times> store" where
  "swept3 = sweepCommitments 5000 1 50 50 s3"

theorem sweep_effect_witness:
  "tbl_commitments (txst swept3) = map (swept 5000 1 50 50) (tbl_commitments s3)"
proof -
  have r: "sweepCommitments 5000 1 50 50 s3 = Inr (txval swept3, txst swept3)"
    unfolding swept3_def by (rule tx_ok) code_simp
  from sweep_effect [OF r] show ?thesis by blast
qed

text \<open>Ada resolves while the closer, between her read and her write, has already resolved.\<close>

definition busy :: world where
  "busy = \<lparr>w_between = (\<lambda>k s. if k = 5 then snd settled else s), w_gap = (\<lambda>_. no_gap),
     w_t = (\<lambda>_. 8000), w_now = (\<lambda>_. 8)\<rparr>"

theorem race_honoured_witness:
  "resolveByMemoryId busy 1 1 StResolved UserMcp RunNull None s3 = (Inr (3, ToCommitment StResolved), snd settled)"
proof -
  let ?c = "the (commitment_on 1 1 s3)" and ?d = "the (commitment_by 1 3 (snd settled))"
  have c: "commitment_on 1 1 s3 = Some ?c" and i: "com_id ?c = 3" by code_simp+
  have st: "com_status ?c \<noteq> StResolved" "canTransition (com_status ?c) StResolved" by code_simp+
  have k: "constraints (snd settled)" by code_simp
  have d: "commitment_by 1 (com_id ?c) (snd settled) = Some ?d" unfolding i by code_simp
  have ds: "com_status ?d = StResolved" by code_simp
  have w: "w_between busy 5 s3 = snd settled" "w_between busy 4 (snd settled) = snd settled" "w_gap busy 3 = no_gap"
    by (simp_all add: busy_def)
  have p: "resolveSessionProvenance no_gap 1 RunNull (case predecessor_of 1 (com_memory ?d) (snd settled) of
      None \<Rightarrow> None | Some x \<Rightarrow> mem_project x) (w_now busy 3) (snd settled) = Inr (None, snd settled)"
    by (simp add: resolveSessionProvenance_def ret_def)
  from race_is_honoured_without_a_second_event [OF c st k d ds w p] show ?thesis unfolding i by blast
qed

definition calm :: world where
  "calm = \<lparr>w_between = (\<lambda>_ s. s), w_gap = (\<lambda>_. no_gap), w_t = (\<lambda>_. 8000), w_now = (\<lambda>_. 8)\<rparr>"

theorem closer_outcomes_witness:
  "resolveForClosedRun calm 1 1 Worker 0 7 s3 = (Inr EpochFenced, s3)"
proof -
  have q: "quiet calm" by (simp add: quiet_def calm_def)
  define c where "c = the (commitment_on 1 1 s3)"
  have c: "commitment_on 1 1 s3 = Some c" "com_status c = StOpen" unfolding c_def by code_simp+
  have e: "session_of 1 0 s3 = Some (the (session_of 1 0 s3))" "ses_epoch (the (session_of 1 0 s3)) \<noteq> 7" by code_simp+
  then have n: "\<not> (\<exists>x. session_of 1 0 s3 = Some x \<and> ses_epoch x = 7)" by auto
  from closer_outcomes [OF q constraints_s3, of 1 1 Worker 0 7] show ?thesis
    unfolding c(1) using c(2) n by simp
qed

section \<open>Reachable stores\<close>

lemma reach_s3: "ops {1} (empty_store [ada, gone]) s3"
proof (rule ops_step [OF _ ops_step [OF _ ops_step [OF _ ops_done]]])
  show "op {1} (empty_store [ada, gone]) s1"
    unfolding s1_def s0_def openAgentSession_def by (rule op_open) (simp_all add: ops_done)
  show "op {1} s1 s2" unfolding s2_def
    by (rule op_remember) (simp_all add: ops_done note_write_def)
  show "op {1} s2 s3" unfolding s3_def
    by (rule op_remember) (simp_all add: ops_done note_write_def)
qed



theorem isolation_witness: "own_rows 2 s3 = own_rows 2 (empty_store [ada, gone])"
  by (rule tenants_are_isolated [OF reach_s3]) simp

end
