(* ===== verification/CloserScenario.thy ===== *)
theory CloserScenario
  imports Scenario
begin

text \<open>
  The triage handshake, the sweep, the closer and its proposals on concrete stores: the properties of
  \<open>SessionEvents\<close> to \<open>CloserSafety\<close> applied to inputs that satisfy their hypotheses. Ada's session of
  \<open>Scenario\<close> is armed, writes a note and completes; another copy of it is left to lapse, is swept,
  claimed and closed.
\<close>

section \<open>The run's events\<close>

theorem event_listing_witness:
  "listVisibleEventIds 1 0 1 s3 = (take 1 (event_ids 1 0 s3), 1 < length (event_ids 1 0 s3))"
  by (rule event_walk_is_the_listing [OF constraints_s3])

section \<open>The handshake\<close>

definition stop_hook :: "rid \<Rightarrow> begin_options" where
  "stop_hook a = \<lparr>bo_attempt = a, bo_turns = Some 9, bo_stop_hook = Some False,
     bo_thresholds = \<lparr>th_min_turns = 8, th_min_elapsed = 600000, th_min_attempt_age = 5000\<rparr>,
     bo_now = 10, bo_arm_now = Some 11, bo_ceiling = None\<rparr>"

definition debriefed :: "rid \<Rightarrow> complete_options" where
  "debriefed a = \<lparr>co_attempt = a, co_now = 20, co_defensive = None, co_ceiling = None\<rparr>"

definition begun :: "err + begin_result \<times> store" where
  "begun = beginSessionTriage (\<lambda>s. s) 1 run_key (stop_hook 70) s3"

definition ses_armed :: "jsdate \<Rightarrow> agent_session" where
  "ses_armed seen = (ses_lit seen None)\<lparr>ses_triage_status := TrPending, ses_triage_attempt := Some 70,
     ses_triage_armed_at := Some 11, ses_attempt_log := [Armed 70 11], ses_attempt_count := 1,
     ses_triaged_events := [2, 5]\<rparr>"

lemma begun_eval [code]: "begun = Inr (\<lparr>br_run = 0, br_armed = True, br_attempt = Some 70,
    br_status = TrPending, br_reason = None\<rparr>, store_lit mems3 evs3 (ses_armed 2) 6)"
  by code_simp

lemma begun_ok: "beginSessionTriage (\<lambda>s. s) 1 run_key (stop_hook 70) s3 = Inr (txval begun, txst begun)"
  unfolding begun_def by (rule tx_ok) code_simp

definition row3 :: agent_session where "row3 = the (keyed_session 1 run_key s3)"

lemma row3: "keyed_session 1 run_key s3 = Some row3" by code_simp

theorem begin_witness: "br_armed (txval begun) \<and> br_attempt (txval begun) = Some 70"
proof -
  have e: "eligible_entry row3 (stop_hook 70) (\<not> set (event_ids 1 (ses_id row3) s3) \<subseteq> set (ses_triaged_events row3))"
    "length (event_ids 1 (ses_id row3) s3) \<le> ceiling_of (bo_ceiling (stop_hook 70))" "bo_attempt (stop_hook 70) = 70"
    by code_simp+
  from begin_arms_or_declines [where g = "\<lambda>s. s", OF constraints_s3 row3 begun_ok] e show ?thesis
    unfolding Let_def by auto
qed

text \<open>The session goes on: it writes a note.\<close>

definition going :: store where
  "going = snd (writeMemory no_gap 3000 12 (note_write Note ''h3'') None [] (txst begun))"

definition mems4 :: "memory list" where "mems4 = mems3 @ [mem_lit 6 Note ''h3'' 3000]"
definition evs4 :: "memory_event list" where "evs4 = evs3 @ [ev_lit 7 6 3000]"

lemma going_eval [code]: "going = store_lit mems4 evs4 (ses_armed 12) 8"
  by code_simp

definition row4 :: agent_session where "row4 = the (keyed_session 1 run_key (txst begun))"
definition row5 :: agent_session where "row5 = the (keyed_session 1 run_key going)"

lemma going_row4: "keyed_session 1 run_key (txst begun) = Some row4" by code_simp
lemma going_row5: "keyed_session 1 run_key going = Some row5" by code_simp
lemma going_ok: "constraints going" by code_simp
lemma going_same: "same_triage row4 row5" by code_simp
lemma going_events: "tbl_events going = tbl_events (txst begun) @ drop 2 (tbl_events going)" by code_simp
lemma going_fits: "length (event_ids 1 (ses_id row5) going) \<le> ceiling_of (co_ceiling (debriefed 70))" by code_simp
lemma going_run: "list_ex (runPredicate 1 (ses_id row5)) (drop 2 (tbl_events going))" by code_simp

definition completed :: "err + complete_result \<times> store" where
  "completed = completeSessionTriage (\<lambda>s. s) 1 run_key (debriefed 70) going"

lemma completed_eval [code]: "completed = Inr (\<lparr>tc_run = 0, tc_outcome = OutCompleted, tc_event_count = 3,
    tc_since_begin = 1, tc_truncated = False\<rparr>, store_lit mems4 evs4 ((ses_armed 12)\<lparr>ses_triage_status := TrCompleted,
      ses_attempt_log := [Finalized 70 11 20 OutCompleted], ses_triaged_events := [2, 5, 7]\<rparr>) 8)"
  unfolding completed_def completeSessionTriage_run [where g = "\<lambda>s. s", OF going_ok] going_row5
  by code_simp

theorem handshake_witness:
  "\<exists>r s. completeSessionTriage (\<lambda>s. s) 1 run_key (debriefed 70) going = Inr (r, s) \<and> tc_outcome r = OutCompleted"
proof -
  have "br_armed (txval begun)" by code_simp
  moreover have "co_attempt (debriefed 70) = bo_attempt (stop_hook 70)" "co_defensive (debriefed 70) \<noteq> Some True"
    by (simp_all add: debriefed_def stop_hook_def)
  ultimately show ?thesis using going_run
      handshake_outcome [where g = "\<lambda>s. s" and ?g2.0 = "\<lambda>s. s", OF constraints_s3 begun_ok _ going_row4
        going_ok going_row5 going_same going_events _ going_fits]
    by (auto simp: list_ex_iff)
qed

theorem settled_witness:
  "\<exists>r. beginSessionTriage (\<lambda>s. s) 1 run_key (stop_hook 71) (txst completed) = Inr (r, txst completed) \<and> \<not> br_armed r"
proof -
  let ?z = "the (keyed_session 1 run_key (txst completed))"
  have r: "completeSessionTriage (\<lambda>s. s) 1 run_key (debriefed 70) going = Inr (txval completed, txst completed)"
    by (simp flip: completed_def) (simp add: completed_eval txval_def txst_def)
  have o: "tc_outcome (txval completed) \<noteq> OutOverflowed" by code_simp
  have c: "constraints (txst completed)" by code_simp
  have z: "keyed_session 1 run_key (txst completed) = Some ?z" by code_simp
  have h: "co_defensive (debriefed 70) \<noteq> Some True" "ceiling_of (co_ceiling (debriefed 70)) \<le> MAX_SESSION_EVENT_IDS"
    "same_triage ?z ?z" by (simp_all add: debriefed_def ceiling_of_def same_triage_def)
  from settled_run_is_left_alone [where g = "\<lambda>s. s", OF going_ok r h(1) o h(2) z c z h(3) refl] show ?thesis by blast
qed

section \<open>Sweep, claim, failure\<close>

definition late :: jsdate where "late = 2 + SESSION_LEASE_MS + SESSION_SWEEP_GRACE_MS + 100"

definition swept_run :: "err + closer_candidate list \<times> store" where
  "swept_run = sweepExpiredLeases (\<lambda>s. s) 1 late 100 s3"

lemma swept_run_eval [code]: "swept_run = Inr ([\<lparr>cand_run = 0, cand_epoch = 1\<rparr>],
    store_lit mems3 evs3 (ses_lit 2 (Some 90000102)) 6)"
  by code_simp

theorem sweep_witness:
  "\<exists>s2 z. attachKnownRun no_gap 1 0 (late + 7) (txst swept_run) = Inr (Some 0, s2) \<and>
     session_of 1 0 s2 = Some z \<and> ses_epoch z = 2"
proof -
  have r: "sweepExpiredLeases (\<lambda>s. s) 1 late 100 s3 = Inr (txval swept_run, txst swept_run)"
    unfolding swept_run_def by (rule tx_ok) code_simp
  have c: "\<lparr>cand_run = 0, cand_epoch = 1\<rparr> \<in> set (txval swept_run)" by code_simp
  have t: "late \<le> late + 7" by simp
  from swept_sessions_come_back [where g = "\<lambda>s. s", OF constraints_s3 r c t] show ?thesis by auto
qed

definition closed_store :: store where "closed_store = txst swept_run"

lemma constraints_closed: "constraints closed_store" by code_simp

definition my_claim :: closer_claim where
  "my_claim = \<lparr>cl_run = 0, cl_epoch = 1, cl_observed = None, cl_attempt = 80\<rparr>"

definition claimed :: "err + bool \<times> store" where "claimed = claimSessionTriage 1 my_claim closed_store"

theorem claim_witness:
  "completeSessionTriage (\<lambda>s. s) 1 run_key (debriefed 70) (with_session 1 0 id (txst claimed)) =
     Inl (TriageConflictOn run_key 70)"
proof -
  have "claimSessionTriage 1 my_claim closed_store = Inr (txval claimed, txst claimed)"
    unfolding claimed_def by (rule tx_ok) code_simp
  moreover have "txval claimed = True" by code_simp
  ultimately have c: "claimSessionTriage 1 my_claim closed_store = Inr (True, txst claimed)" by simp
  have f: "id \<in> revivals" by (simp add: revivals_def)
  have k: "naturalKeyPredicate run_key (the (session_of 1 0 closed_store))" by code_simp
  have i: "cl_run my_claim = 0" "co_attempt (debriefed 70) = 70" by (simp_all add: my_claim_def debriefed_def)
  from claim_retires_the_handshake [OF constraints_closed c f] obtain x where
    "session_of 1 0 closed_store = Some x"
    and all: "\<And>k co. naturalKeyPredicate k x \<Longrightarrow> completeSessionTriage (\<lambda>s. s) 1 k co (with_session 1 0 id (txst claimed)) =
        Inl (TriageConflictOn k (co_attempt co))"
    unfolding Let_def i(1) by blast
  with k have "naturalKeyPredicate run_key x" by simp
  from all [OF this, of "debriefed 70"] show ?thesis by (simp only: i(2))
qed

definition my_failure :: closer_failure where "my_failure = \<lparr>fl_run = 0, fl_epoch = 1, fl_now = late\<rparr>"

theorem failure_witness:
  "\<exists>s' y. recordCloserFailure 1 my_failure closed_store = Inr ((), s') \<and>
     session_of 1 0 s' = Some y \<and> ses_closer_failures y = 1"
proof -
  let ?x = "the (session_of 1 0 closed_store)"
  have x: "session_of 1 (fl_run my_failure) closed_store = Some ?x" "ses_epoch ?x = fl_epoch my_failure"
    "ses_closer_failures ?x = 0" "fl_run my_failure = 0" by code_simp+
  from failure_follows_the_curve [OF constraints_closed x(1)] x(2,3) show ?thesis unfolding x(4) Let_def by auto
qed

section \<open>Proposals\<close>

definition review0 :: review_store where
  "review0 = \<lparr>rs_store = closed_store, rs_proposals = [\<lparr>rp_id = 0, rp_user = 1, rp_memory = 1, rp_run = 0,
     rp_probability = 3 / 4, rp_status = Proposed, rp_decided_at = None, rp_created_at = 7000\<rparr>], rs_next = 1\<rparr>"

definition accepted :: "(err + accepted_resolution) \<times> review_store" where
  "accepted = acceptResolutionProposal (\<lambda>_ r. r) calm 9000 1 0 UserApi review0"

theorem accept_witness:
  "rs_store (snd accepted) = snd (resolveCommitmentByMemoryId calm 1 1 UserApi closed_store)"
proof -
  have ok: "proposals_ok review0"
    by (simp add: proposals_ok_def review0_def ids_ok_def)
  have a: "acceptResolutionProposal (\<lambda>_ r. r) calm 9000 1 0 UserApi review0 = (fst accepted, snd accepted)"
    by (simp add: accepted_def)
  obtain p where p: "find_row (is_open 1 0) (rs_proposals review0) = Some p" "rp_memory p = 1"
    by (simp add: review0_def find_row_def is_open_def)
  have m: "rs_store review0 = closed_store" by (simp add: review0_def)
  obtain res s' where r: "resolveCommitmentByMemoryId calm 1 1 UserApi closed_store = (res, s')" by (rule prod.exhaust)
  from accept_is_all_or_nothing [where rg = "\<lambda>_ r. r", OF ok _ a, of 9500 Rejected] show ?thesis
    unfolding p(1) option.case p(2) m r by (cases res) (auto split: prod.splits)
qed

section \<open>The closer\<close>

text \<open>Ada's run was briefed on the commitment; the model names it as done, and one id it was not given.\<close>

definition briefed_store :: store where
  "briefed_store = with_session 1 0
     (\<lambda>x. x\<lparr>ses_briefed := [\<lparr>bm_id = 1, bm_topic = ''t'', bm_status = ''active''\<rparr>]\<rparr>) closed_store"

definition closer_world :: closer_db where
  "closer_world = \<lparr>db_review = review0\<lparr>rs_store := briefed_store, rs_proposals := []\<rparr>, db_usage = [],
     db_judgment = (\<lambda>_. False), db_tick = 0\<rparr>"

definition model :: gateway where
  "model = \<lparr>gw_complete = (\<lambda>_. Inr \<lparr>cp_text = ''ids'', cp_model = ''gpt-4o-mini'', cp_usage = Some (100, 10)\<rparr>),
     gw_decide = (\<lambda>_. Inl NotImplemented), gw_parse = (\<lambda>_. Some [1, 99])\<rparr>"

definition pass_options :: "closer_db closer_options" where
  "pass_options = \<lparr>op_gateway = Some model, op_attempt = 90, op_budget = None, op_now = late + 5, op_last_attempt = False\<rparr>"

definition quiet_repo :: "closer_db closer_repo" where
  "quiet_repo = dbSessionCloserRepo (calm_env (\<lambda>_ _. 9000) (\<lambda>_ _. late) (\<lambda>_. 9000))"

definition passed :: "(err + closer_result) \<times> closer_db" where
  "passed = closeSessionRun quiet_repo 1 0 1 pass_options closer_world"

theorem closer_witness:
  "closer_effect 1 0 {1} briefed_store (db_store (snd passed))"
proof -
  let ?x = "the (session_of 1 0 briefed_store)"
  have st: "db_store closer_world = briefed_store" by (simp add: db_store_def closer_world_def)
  have k: "constraints (db_store closer_world)" unfolding st by code_simp
  have x: "session_of 1 0 (db_store closer_world) = Some ?x" unfolding st by code_simp
  have b: "bm_id ` set (ses_briefed ?x) = {1}" by code_simp
  have bud: "budget_keeps (\<lambda>w w'. db_store w' = db_store w) 1 (op_budget pass_options)"
    by (simp add: budget_keeps_def pass_options_def)
  from closer_only_resolves [OF k x bud, of "\<lambda>_ _. 9000" "\<lambda>_ _. late" "\<lambda>_. 9000" 1] show ?thesis
    by (simp add: b st passed_def quiet_repo_def)
qed

theorem closer_listing_witness:
  "\<exists>items truncated w'. listEvents_op quiet_repo 1 0 closer_world = (Inr (items, truncated), w')"
proof -
  have st: "db_store closer_world = briefed_store" by (simp add: db_store_def closer_world_def)
  have "constraints (db_store closer_world)" unfolding st by code_simp
  then have "events_ok (db_store closer_world)" by (simp add: constraints_def)
  moreover have "appending (calm_env (\<lambda>_ _. 9000) (\<lambda>_ _. late) (\<lambda>_. 9000))" by (simp add: appending_def calm_env_def)
  ultimately show ?thesis unfolding quiet_repo_def by (intro closer_listing_ends)
qed

end
