(* ===== verification/Credentials.thy ===== *)
theory Credentials
  imports EdgeProposals
begin

text \<open>
  Accounts and their credentials: login sessions (\<open>packages/db/src/auth-sessions.ts\<close>), API keys
  (\<open>auth-api-keys.ts\<close>), password-reset tokens (\<open>auth-reset-tokens.ts\<close>), email-verification tokens
  (\<open>auth-email-verification.ts\<close>), the pre-tenant user statements (\<open>auth-admin.ts\<close>), the issuance guard
  (\<open>credential-guard.ts\<close>) and the SQL resolvers they call (\<open>packages/db/migrations\<close>).

  \<open>auth_db\<close> holds these tables, and the two proposal tables an erasure redacts, beside the store of \<open>Store\<close>, whose user table it shares. Token values
  never reach this layer: every row carries a hash, a string the model does not interpret. A statement
  that waits for a lock takes what commits meanwhile as an argument.
\<close>

section \<open>Tables (packages/db/src/schema/identity.ts)\<close>

record user_session =
  us_id :: rid
  us_user :: uid
  us_hash :: string
  us_expires :: instant
  us_created :: instant

record api_key =
  ak_id :: rid
  ak_user :: uid
  ak_name :: string
  ak_hash :: string
  ak_prefix :: string
  ak_revoked :: "instant option"
  ak_last_used :: "instant option"
  ak_created :: instant

record reset_token =
  rt_id :: rid
  rt_user :: uid
  rt_hash :: string
  rt_expires :: instant
  rt_consumed :: "instant option"
  rt_created :: instant

record verification_token =
  vt_id :: rid
  vt_user :: uid
  vt_hash :: string
  vt_proof :: string
  vt_expires :: instant
  vt_consumed :: "instant option"
  vt_created :: instant

datatype auth_method = MethodNone | SecretPost | SecretBasic

datatype registration_method = DynamicRegistration | ClientIdMetadata

record oauth_client =
  cli_id :: string
  cli_name :: string
  cli_redirects :: "string list"
  cli_method :: auth_method
  cli_secret :: "string option"
  cli_registration :: registration_method
  cli_created :: instant
  cli_last_used :: "instant option"

record oauth_code =
  oc_id :: rid
  oc_hash :: string
  oc_client :: string
  oc_user :: uid
  oc_redirect :: string
  oc_supplied :: bool
  oc_challenge :: string
  oc_scope :: string
  oc_expires :: instant
  oc_used :: "instant option"
  oc_created :: instant

datatype token_kind = AccessToken | RefreshToken

record oauth_token =
  ot_id :: rid
  ot_hash :: string
  ot_kind :: token_kind
  ot_client :: string
  ot_user :: uid
  ot_scope :: string
  ot_expires :: instant
  ot_revoked :: "instant option"
  ot_rotated_from :: "rid option"
  ot_created :: instant

datatype scope_mode = ScopeOff | ScopeDefault | ScopeRequire

datatype judgment_mode = JudgmentOff | JudgmentOn

record profile =
  pf_user :: uid
  pf_role :: "string option"
  pf_use_case :: "string option"
  pf_ai_tools :: "string list option"
  pf_referral :: "string option"
  pf_created :: instant
  pf_updated :: instant

record scope_policy =
  sp_user :: uid
  sp_mode :: scope_mode
  sp_default :: "string option"
  sp_created :: instant
  sp_updated :: instant

record judgment_policy =
  jp_user :: uid
  jp_mode :: judgment_mode
  jp_created :: instant
  jp_updated :: instant

text \<open>A row of \<open>audit_log\<close> (schema/ops.ts); its metadata is a list of counters by name.\<close>

record audit_entry =
  au_user :: "uid option"
  au_actor :: actor_kind
  au_action :: string
  au_resource :: "string option"
  au_metadata :: "(string \<times> nat) list"
  au_created :: instant

record auth_db =
  ad_store :: store
  ad_edge_proposals :: "edge_proposal list"
  ad_fact_proposals :: "fact_proposal list"
  ad_profiles :: "profile list"
  ad_retrieval :: "scope_policy list"
  ad_write_scope :: "scope_policy list"
  ad_judgment :: "judgment_policy list"
  ad_audit :: "audit_entry list"
  ad_logins :: "user_session list"
  ad_keys :: "api_key list"
  ad_resets :: "reset_token list"
  ad_verifications :: "verification_token list"
  ad_clients :: "oauth_client list"
  ad_codes :: "oauth_code list"
  ad_tokens :: "oauth_token list"
  ad_next :: rid

type_synonym 'a auth_tx = "(err, 'a, auth_db) tx"

definition ad_users :: "auth_db \<Rightarrow> user list" where
  "ad_users w = tbl_users (ad_store w)"

definition set_users :: "(user list \<Rightarrow> user list) \<Rightarrow> auth_db \<Rightarrow> auth_db" where
  "set_users f w = w\<lparr>ad_store := (ad_store w)\<lparr>tbl_users := f (ad_users w)\<rparr>\<rparr>"

definition user_row :: "uid \<Rightarrow> auth_db \<Rightarrow> user option" where
  "user_row u w = find_row (\<lambda>x. usr_id x = u) (ad_users w)"

text \<open>A statement on the store, inside the larger state.\<close>

definition in_store :: "'a stm \<Rightarrow> 'a auth_tx" where
  "in_store m = (\<lambda>w. case m (ad_store w) of Inl e \<Rightarrow> Inl e | Inr (a, s) \<Rightarrow> Inr (a, w\<lparr>ad_store := s\<rparr>))"

section \<open>The issuance guard (credential-guard.ts)\<close>

text \<open>\<open>lockAccountLifecycle\<close>: \<open>g\<close> is what commits while it waits.\<close>

definition guardCredentialIssuance :: "(auth_db \<Rightarrow> auth_db) \<Rightarrow> uid \<Rightarrow> unit auth_tx" where
  "guardCredentialIssuance g u =
     bind_tx (wait_for g) (\<lambda>_.
     bind_tx (in_store (userIsLiveForIssuance u)) (\<lambda>live.
       if live then ret () else throw AccountDeleted))"

section \<open>Login sessions (auth-sessions.ts)\<close>

definition insert_login :: "user_session \<Rightarrow> unit auth_tx" where
  "insert_login row = (\<lambda>w. let x = row\<lparr>us_id := ad_next w\<rparr> in
     if us_hash x \<in> set (map us_hash (ad_logins w)) then Inl UniqueViolation
     else if user_row (us_user x) w = None then Inl ForeignKeyViolation
     else Inr ((), w\<lparr>ad_logins := ad_logins w @ [x], ad_next := Suc (ad_next w)\<rparr>))"

definition insertSession :: "(auth_db \<Rightarrow> auth_db) \<Rightarrow> instant \<Rightarrow> uid \<Rightarrow> string \<Rightarrow> jsdate \<Rightarrow> unit auth_tx" where
  "insertSession g t u h expires =
     bind_tx (guardCredentialIssuance g u) (\<lambda>_. insert_login \<lparr>us_id = 0, us_user = u, us_hash = h,
       us_expires = sql_of_date expires, us_created = t\<rparr>)"

definition resolveSession :: "instant \<Rightarrow> string \<Rightarrow> auth_db \<Rightarrow> (uid \<times> jsdate) option" where
  "resolveSession t h w = map_option (\<lambda>x. (us_user x, date_of_sql (us_expires x)))
     (find_row (\<lambda>x. us_hash x = h \<and> t < us_expires x) (ad_logins w))"

definition delete_logins :: "(user_session \<Rightarrow> bool) \<Rightarrow> auth_db \<Rightarrow> auth_db" where
  "delete_logins p w = w\<lparr>ad_logins := filter (\<lambda>x. \<not> p x) (ad_logins w)\<rparr>"

text \<open>\<open>token_hash <> NULL\<close> is never true, so without a hash to keep every session goes.\<close>

definition other_session :: "uid \<Rightarrow> string option \<Rightarrow> user_session \<Rightarrow> bool" where
  "other_session u keep x \<longleftrightarrow> us_user x = u \<and> (case keep of None \<Rightarrow> True | Some h \<Rightarrow> us_hash x \<noteq> h)"

definition deleteOtherSessions :: "uid \<Rightarrow> string option \<Rightarrow> unit auth_tx" where
  "deleteOtherSessions u keep = (\<lambda>w. Inr ((), delete_logins (other_session u keep) w))"

definition burn_resets :: "instant \<Rightarrow> uid \<Rightarrow> auth_db \<Rightarrow> auth_db" where
  "burn_resets t u w = w\<lparr>ad_resets := sql_update (\<lambda>x. rt_user x = u \<and> rt_consumed x = None)
     (\<lambda>x. x\<lparr>rt_consumed := Some t\<rparr>) (ad_resets w)\<rparr>"

text \<open>\<open>g\<close>: the wait for the password-reset lock.\<close>

definition rotatePasswordAndRevokeOthers ::
  "(auth_db \<Rightarrow> auth_db) \<Rightarrow> instant \<Rightarrow> uid \<Rightarrow> string \<Rightarrow> string \<Rightarrow> string option \<Rightarrow> bool auth_tx" where
  "rotatePasswordAndRevokeOthers g t u expected new keep =
     bind_tx (wait_for g) (\<lambda>_.
     bind_tx (in_store (userIsLiveForIssuance u)) (\<lambda>live.
     if \<not> live then ret False
     else bind_tx (query (\<lambda>w. find_row (\<lambda>x. usr_id x = u \<and> usr_password_hash x = expected) (ad_users w))) (\<lambda>hit.
       if hit = None then ret False
       else (\<lambda>w. Inr (True, burn_resets t u (delete_logins (other_session u keep)
         (set_users (sql_update (\<lambda>x. usr_id x = u \<and> usr_password_hash x = expected)
           (\<lambda>x. x\<lparr>usr_password_hash := new\<rparr>)) w)))))))"

section \<open>API keys (auth-api-keys.ts)\<close>

definition insert_key :: "api_key \<Rightarrow> (rid \<times> jsdate) auth_tx" where
  "insert_key row = (\<lambda>w. let x = row\<lparr>ak_id := ad_next w\<rparr> in
     if ak_hash x \<in> set (map ak_hash (ad_keys w)) then Inl UniqueViolation
     else if user_row (ak_user x) w = None then Inl ForeignKeyViolation
     else Inr ((ak_id x, date_of_sql (ak_created x)), w\<lparr>ad_keys := ad_keys w @ [x], ad_next := Suc (ad_next w)\<rparr>))"

definition insertApiKey :: "(auth_db \<Rightarrow> auth_db) \<Rightarrow> instant \<Rightarrow> uid \<Rightarrow> string \<Rightarrow> string \<Rightarrow> string \<Rightarrow> (rid \<times> jsdate) auth_tx" where
  "insertApiKey g t u name h prefx =
     bind_tx (guardCredentialIssuance g u) (\<lambda>_. insert_key \<lparr>ak_id = 0, ak_user = u, ak_name = name, ak_hash = h,
       ak_prefix = prefx, ak_revoked = None, ak_last_used = None, ak_created = t\<rparr>)"

definition resolveApiKey :: "string \<Rightarrow> auth_db \<Rightarrow> uid option" where
  "resolveApiKey h w = map_option ak_user (find_row (\<lambda>x. ak_hash x = h \<and> ak_revoked x = None) (ad_keys w))"

record api_key_metadata =
  akm_id :: rid
  akm_name :: string
  akm_prefix :: string
  akm_created :: instant
  akm_last_used :: "instant option"
  akm_revoked :: "instant option"

definition listApiKeys :: "uid \<Rightarrow> auth_db \<Rightarrow> api_key_metadata list" where
  "listApiKeys u w = map (\<lambda>x. \<lparr>akm_id = ak_id x, akm_name = ak_name x, akm_prefix = ak_prefix x,
     akm_created = ak_created x, akm_last_used = ak_last_used x, akm_revoked = ak_revoked x\<rparr>)
     (filter (\<lambda>x. ak_user x = u) (ad_keys w))"

definition update_keys :: "(api_key \<Rightarrow> bool) \<Rightarrow> (api_key \<Rightarrow> api_key) \<Rightarrow> api_key list auth_tx" where
  "update_keys p f = (\<lambda>w. Inr (sql_returning p f (ad_keys w), w\<lparr>ad_keys := sql_update p f (ad_keys w)\<rparr>))"

definition revokeApiKey :: "instant \<Rightarrow> uid \<Rightarrow> rid \<Rightarrow> bool auth_tx" where
  "revokeApiKey t u i =
     bind_tx (update_keys (\<lambda>x. ak_id x = i \<and> ak_user x = u \<and> ak_revoked x = None)
       (\<lambda>x. x\<lparr>ak_revoked := Some t\<rparr>)) (\<lambda>rows. ret (rows \<noteq> []))"

definition touchApiKeyLastUsed :: "instant \<Rightarrow> uid \<Rightarrow> string \<Rightarrow> unit auth_tx" where
  "touchApiKeyLastUsed t u h =
     bind_tx (update_keys (\<lambda>x. ak_user x = u \<and> ak_hash x = h) (\<lambda>x. x\<lparr>ak_last_used := Some t\<rparr>)) (\<lambda>_. ret ())"

section \<open>Password reset (auth-reset-tokens.ts)\<close>

definition insert_reset :: "reset_token \<Rightarrow> unit auth_tx" where
  "insert_reset row = (\<lambda>w. let x = row\<lparr>rt_id := ad_next w\<rparr> in
     if rt_hash x \<in> set (map rt_hash (ad_resets w)) then Inl UniqueViolation
     else if user_row (rt_user x) w = None then Inl ForeignKeyViolation
     else Inr ((), w\<lparr>ad_resets := ad_resets w @ [x], ad_next := Suc (ad_next w)\<rparr>))"

definition insertPasswordResetToken :: "(auth_db \<Rightarrow> auth_db) \<Rightarrow> instant \<Rightarrow> uid \<Rightarrow> string \<Rightarrow> jsdate \<Rightarrow> unit auth_tx" where
  "insertPasswordResetToken g t u h expires =
     bind_tx (guardCredentialIssuance g u) (\<lambda>_. insert_reset \<lparr>rt_id = 0, rt_user = u, rt_hash = h,
       rt_expires = sql_of_date expires, rt_consumed = None, rt_created = t\<rparr>)"

definition reset_live :: "instant \<Rightarrow> string \<Rightarrow> reset_token \<Rightarrow> bool" where
  "reset_live t h x \<longleftrightarrow> rt_hash x = h \<and> rt_consumed x = None \<and> t < rt_expires x"

definition peekResetToken :: "instant \<Rightarrow> string \<Rightarrow> auth_db \<Rightarrow> uid option" where
  "peekResetToken t h w = map_option rt_user (find_row (reset_live t h) (ad_resets w))"

definition consume_reset :: "instant \<Rightarrow> string \<Rightarrow> auth_db \<Rightarrow> auth_db" where
  "consume_reset t h w = w\<lparr>ad_resets := sql_update (reset_live t h) (\<lambda>x. x\<lparr>rt_consumed := Some t\<rparr>) (ad_resets w)\<rparr>"

definition consumePasswordResetToken :: "instant \<Rightarrow> string \<Rightarrow> uid option auth_tx" where
  "consumePasswordResetToken t h = bind_tx (query (peekResetToken t h)) (\<lambda>owner. (\<lambda>w. Inr (owner, consume_reset t h w)))"

definition revoke_tokens :: "instant \<Rightarrow> (oauth_token \<Rightarrow> bool) \<Rightarrow> auth_db \<Rightarrow> auth_db" where
  "revoke_tokens t p w = w\<lparr>ad_tokens := sql_update (\<lambda>x. p x \<and> ot_revoked x = None)
     (\<lambda>x. x\<lparr>ot_revoked := Some t\<rparr>) (ad_tokens w)\<rparr>"

definition revoke_keys :: "instant \<Rightarrow> uid \<Rightarrow> auth_db \<Rightarrow> auth_db" where
  "revoke_keys t u w = w\<lparr>ad_keys := sql_update (\<lambda>x. ak_user x = u \<and> ak_revoked x = None)
     (\<lambda>x. x\<lparr>ak_revoked := Some t\<rparr>) (ad_keys w)\<rparr>"

text \<open>The resolver \<open>auth_reset_password\<close> as migration 0025 leaves it; \<open>g\<close> is its advisory-lock wait.\<close>

definition auth_reset_password :: "(auth_db \<Rightarrow> auth_db) \<Rightarrow> instant \<Rightarrow> string \<Rightarrow> string \<Rightarrow> uid option auth_tx" where
  "auth_reset_password g t h new =
     bind_tx (query (peekResetToken t h)) (\<lambda>owner. case owner of
       None \<Rightarrow> ret None
     | Some u \<Rightarrow>
         bind_tx (wait_for g) (\<lambda>_.
         bind_tx (query (\<lambda>w. find_row (reset_live t h) (ad_resets w))) (\<lambda>hit.
         if hit = None then ret None
         else bind_tx (\<lambda>w. Inr ((), consume_reset t h w)) (\<lambda>_.
           bind_tx (query (user_row u)) (\<lambda>x.
           if (case x of None \<Rightarrow> False | Some r \<Rightarrow> isAccountTombstoned u r) then ret None
           else (\<lambda>w. Inr (Some u, burn_resets t u (revoke_keys t u (revoke_tokens t (\<lambda>x. ot_user x = u)
             (delete_logins (\<lambda>x. us_user x = u) (set_users (sql_update (\<lambda>x. usr_id x = u)
               (\<lambda>x. x\<lparr>usr_password_hash := new\<rparr>)) w)))))))))))"

definition resetPasswordAtomic :: "(auth_db \<Rightarrow> auth_db) \<Rightarrow> instant \<Rightarrow> string \<Rightarrow> string \<Rightarrow> uid option auth_tx" where
  "resetPasswordAtomic = auth_reset_password"

section \<open>Users (auth-admin.ts)\<close>

definition insert_user :: "user \<Rightarrow> uid auth_tx" where
  "insert_user row = (\<lambda>w. let x = row\<lparr>usr_id := ad_next w\<rparr> in
     if usr_email x \<in> set (map usr_email (ad_users w)) then Inl UniqueViolation
     else Inr (usr_id x, (set_users (\<lambda>us. us @ [x]) w)\<lparr>ad_next := Suc (ad_next w)\<rparr>))"

definition dup_email :: "err \<Rightarrow> err" where
  "dup_email e = (if e = UniqueViolation then DuplicateEmail else e)"

definition insertUser :: "string \<Rightarrow> string \<Rightarrow> instant option \<Rightarrow> uid auth_tx" where
  "insertUser email h verified = map_error dup_email (insert_user
     \<lparr>usr_id = 0, usr_email = email, usr_password_hash = h, usr_verified_at = verified\<rparr>)"

definition getUserByEmail :: "string \<Rightarrow> auth_db \<Rightarrow> user option" where
  "getUserByEmail email w = find_row (\<lambda>x. usr_email x = email) (ad_users w)"

definition getUserPasswordHashById :: "uid \<Rightarrow> auth_db \<Rightarrow> string option" where
  "getUserPasswordHashById u w = map_option usr_password_hash (user_row u w)"

definition updateUserPassword :: "uid \<Rightarrow> string \<Rightarrow> string \<Rightarrow> bool auth_tx" where
  "updateUserPassword u expected new = (\<lambda>w. let q = (\<lambda>x. usr_id x = u \<and> usr_password_hash x = expected) in
     Inr (length (filter q (ad_users w)) = 1, set_users (sql_update q (\<lambda>x. x\<lparr>usr_password_hash := new\<rparr>)) w))"

definition listTenantIds :: "auth_db \<Rightarrow> uid list" where
  "listTenantIds w = sort (map usr_id (ad_users w))"

section \<open>Email verification (auth-email-verification.ts, migrations 0019 and 0021)\<close>

definition insert_verification :: "verification_token \<Rightarrow> unit auth_tx" where
  "insert_verification row = (\<lambda>w. let x = row\<lparr>vt_id := ad_next w\<rparr> in
     if vt_hash x \<in> set (map vt_hash (ad_verifications w)) then Inl UniqueViolation
     else if user_row (vt_user x) w = None then Inl ForeignKeyViolation
     else Inr ((), w\<lparr>ad_verifications := ad_verifications w @ [x], ad_next := Suc (ad_next w)\<rparr>))"

record new_verification =
  nv_hash :: string
  nv_proof :: string
  nv_expires :: jsdate

definition verification_row :: "instant \<Rightarrow> uid \<Rightarrow> new_verification \<Rightarrow> verification_token" where
  "verification_row t u n = \<lparr>vt_id = 0, vt_user = u, vt_hash = nv_hash n, vt_proof = nv_proof n,
     vt_expires = sql_of_date (nv_expires n), vt_consumed = None, vt_created = t\<rparr>"

definition insertEmailVerificationToken :: "(auth_db \<Rightarrow> auth_db) \<Rightarrow> instant \<Rightarrow> uid \<Rightarrow> new_verification \<Rightarrow> unit auth_tx" where
  "insertEmailVerificationToken g t u n =
     bind_tx (guardCredentialIssuance g u) (\<lambda>_. insert_verification (verification_row t u n))"

definition verification_live :: "instant \<Rightarrow> string \<Rightarrow> string \<Rightarrow> verification_token \<Rightarrow> bool" where
  "verification_live t h proof_hash x \<longleftrightarrow>
     vt_hash x = h \<and> vt_proof x = proof_hash \<and> vt_consumed x = None \<and> t < vt_expires x"

definition peekEmailVerificationToken :: "instant \<Rightarrow> string \<Rightarrow> string \<Rightarrow> auth_db \<Rightarrow> uid option" where
  "peekEmailVerificationToken t h proof_hash w =
     map_option vt_user (find_row (verification_live t h proof_hash) (ad_verifications w))"

definition update_verifications ::
  "(verification_token \<Rightarrow> bool) \<Rightarrow> (verification_token \<Rightarrow> verification_token) \<Rightarrow> auth_db \<Rightarrow> auth_db" where
  "update_verifications p f w = w\<lparr>ad_verifications := sql_update p f (ad_verifications w)\<rparr>"

definition burn_verifications :: "instant \<Rightarrow> uid \<Rightarrow> auth_db \<Rightarrow> auth_db" where
  "burn_verifications t u = update_verifications (\<lambda>x. vt_user x = u \<and> vt_consumed x = None) (\<lambda>x. x\<lparr>vt_consumed := Some t\<rparr>)"

definition stamp_verified :: "instant \<Rightarrow> uid \<Rightarrow> auth_db \<Rightarrow> auth_db" where
  "stamp_verified t u = set_users (sql_update (\<lambda>x. usr_id x = u)
     (\<lambda>x. x\<lparr>usr_verified_at := (case usr_verified_at x of None \<Rightarrow> Some t | Some v \<Rightarrow> Some v)\<rparr>))"

text \<open>Each resolver serializes on one advisory lock per user; \<open>g\<close> is the wait for it.\<close>

definition auth_verify_email :: "(auth_db \<Rightarrow> auth_db) \<Rightarrow> instant \<Rightarrow> string \<Rightarrow> string \<Rightarrow> uid option auth_tx" where
  "auth_verify_email g t h proof_hash =
     bind_tx (query (peekEmailVerificationToken t h proof_hash)) (\<lambda>owner. case owner of
       None \<Rightarrow> ret None
     | Some u \<Rightarrow>
         bind_tx (wait_for g) (\<lambda>_.
         bind_tx (query (\<lambda>w. find_row (verification_live t h proof_hash) (ad_verifications w))) (\<lambda>hit.
         if hit = None then ret None
         else (\<lambda>w. Inr (Some u, burn_verifications t u (stamp_verified t u
           (update_verifications (verification_live t h proof_hash) (\<lambda>x. x\<lparr>vt_consumed := Some t\<rparr>) w)))))))"

definition verifyEmailTokenAtomic :: "(auth_db \<Rightarrow> auth_db) \<Rightarrow> instant \<Rightarrow> string \<Rightarrow> string \<Rightarrow> uid option auth_tx" where
  "verifyEmailTokenAtomic = auth_verify_email"

definition auth_resend_email_verification ::
  "(auth_db \<Rightarrow> auth_db) \<Rightarrow> instant \<Rightarrow> uid \<Rightarrow> new_verification \<Rightarrow> bool auth_tx" where
  "auth_resend_email_verification g t u n =
     bind_tx (wait_for g) (\<lambda>_.
     bind_tx (query (\<lambda>w. find_row (\<lambda>x. usr_id x = u \<and> usr_verified_at x = None) (ad_users w))) (\<lambda>unverified.
     if unverified = None then ret False
     else bind_tx (query (\<lambda>w. find_row (\<lambda>x. vt_user x = u \<and> vt_proof x = nv_proof n \<and> vt_consumed x = None)
         (ad_verifications w))) (\<lambda>owned.
       if owned = None then ret False
       else bind_tx (\<lambda>w. Inr ((), w\<lparr>ad_verifications := filter (\<lambda>x. \<not> (vt_user x = u \<and> vt_proof x = nv_proof n))
           (ad_verifications w)\<rparr>)) (\<lambda>_.
         bind_tx (insert_verification (verification_row t u n)) (\<lambda>_. ret True)))))"

definition replaceEmailVerificationTokens ::
  "(auth_db \<Rightarrow> auth_db) \<Rightarrow> instant \<Rightarrow> uid \<Rightarrow> new_verification \<Rightarrow> bool auth_tx" where
  "replaceEmailVerificationTokens = auth_resend_email_verification"

definition auth_create_unverified_signup :: "instant \<Rightarrow> string \<Rightarrow> string \<Rightarrow> new_verification \<Rightarrow> uid auth_tx" where
  "auth_create_unverified_signup t email h n =
     bind_tx (insert_user \<lparr>usr_id = 0, usr_email = email, usr_password_hash = h, usr_verified_at = None\<rparr>) (\<lambda>u.
     bind_tx (insert_verification (verification_row t u n)) (\<lambda>_. ret u))"

definition insertUnverifiedUserWithEmailVerificationToken ::
  "instant \<Rightarrow> string \<Rightarrow> string \<Rightarrow> new_verification \<Rightarrow> uid auth_tx" where
  "insertUnverifiedUserWithEmailVerificationToken t email h n =
     map_error dup_email (auth_create_unverified_signup t email h n)"

definition unverified_with :: "uid \<Rightarrow> string \<Rightarrow> user \<Rightarrow> bool" where
  "unverified_with u expected x \<longleftrightarrow> usr_id x = u \<and> usr_password_hash x = expected \<and> usr_verified_at x = None"

definition auth_retry_unverified_signup ::
  "(auth_db \<Rightarrow> auth_db) \<Rightarrow> instant \<Rightarrow> uid \<Rightarrow> string \<Rightarrow> string \<Rightarrow> new_verification \<Rightarrow> bool auth_tx" where
  "auth_retry_unverified_signup g t u expected new n =
     bind_tx (wait_for g) (\<lambda>_.
     bind_tx (query (\<lambda>w. find_row (unverified_with u expected) (ad_users w))) (\<lambda>hit.
     if hit = None then ret False
     else bind_tx (\<lambda>w. Inr ((), burn_verifications t u
         (set_users (sql_update (unverified_with u expected) (\<lambda>x. x\<lparr>usr_password_hash := new\<rparr>)) w))) (\<lambda>_.
       bind_tx (insert_verification (verification_row t u n)) (\<lambda>_. ret True))))"

definition retryUnverifiedSignupWithEmailVerificationToken ::
  "(auth_db \<Rightarrow> auth_db) \<Rightarrow> instant \<Rightarrow> uid \<Rightarrow> string \<Rightarrow> string \<Rightarrow> new_verification \<Rightarrow> bool auth_tx" where
  "retryUnverifiedSignupWithEmailVerificationToken = auth_retry_unverified_signup"

end
