(* ===== verification/OAuthGrants.thy ===== *)
theory OAuthGrants
  imports Credentials
begin

text \<open>
  The OAuth tables: authorization codes (\<open>packages/db/src/auth-oauth-codes.ts\<close>), access and refresh
  tokens with their one-time rotation (\<open>auth-oauth-tokens.ts\<close>), clients, consent and client collection
  (\<open>auth-oauth-clients.ts\<close>), with the resolvers of migrations 0003 and 0014.

  \<open>t\<close> is a transaction's \<open>now()\<close>. \<open>g\<close> is what commits while a transaction waits for the account
  lifecycle lock, \<open>g2\<close> what commits between two later statements of it. The database's collation of
  client ids is the argument \<open>collate\<close>.
\<close>

section \<open>Authorization codes (auth-oauth-codes.ts)\<close>

definition code_client_known :: "string \<Rightarrow> auth_db \<Rightarrow> bool" where
  "code_client_known c w \<longleftrightarrow> c \<in> set (map cli_id (ad_clients w))"

definition insert_code :: "oauth_code \<Rightarrow> unit auth_tx" where
  "insert_code row = (\<lambda>w. let x = row\<lparr>oc_id := ad_next w\<rparr> in
     if oc_hash x \<in> set (map oc_hash (ad_codes w)) then Inl UniqueViolation
     else if \<not> code_client_known (oc_client x) w \<or> user_row (oc_user x) w = None then Inl ForeignKeyViolation
     else Inr ((), w\<lparr>ad_codes := ad_codes w @ [x], ad_next := Suc (ad_next w)\<rparr>))"

record new_oauth_code =
  nc_hash :: string
  nc_client :: string
  nc_redirect :: string
  nc_supplied :: bool
  nc_challenge :: string
  nc_scope :: string
  nc_expires :: jsdate

definition insertOauthCode :: "(auth_db \<Rightarrow> auth_db) \<Rightarrow> instant \<Rightarrow> uid \<Rightarrow> new_oauth_code \<Rightarrow> unit auth_tx" where
  "insertOauthCode g t u n =
     bind_tx (guardCredentialIssuance g u) (\<lambda>_. insert_code \<lparr>oc_id = 0, oc_hash = nc_hash n,
       oc_client = nc_client n, oc_user = u, oc_redirect = nc_redirect n, oc_supplied = nc_supplied n,
       oc_challenge = nc_challenge n, oc_scope = nc_scope n, oc_expires = sql_of_date (nc_expires n),
       oc_used = None, oc_created = t\<rparr>)"

record consumed_code =
  cg_user :: uid
  cg_client :: string
  cg_redirect :: string
  cg_supplied :: bool
  cg_challenge :: string
  cg_scope :: string

definition grant_of :: "oauth_code \<Rightarrow> consumed_code" where
  "grant_of x = \<lparr>cg_user = oc_user x, cg_client = oc_client x, cg_redirect = oc_redirect x,
     cg_supplied = oc_supplied x, cg_challenge = oc_challenge x, cg_scope = oc_scope x\<rparr>"

definition code_live :: "instant \<Rightarrow> oauth_code \<Rightarrow> bool" where
  "code_live t x \<longleftrightarrow> oc_used x = None \<and> t < oc_expires x"

definition use_codes :: "instant \<Rightarrow> (oauth_code \<Rightarrow> bool) \<Rightarrow> oauth_code list auth_tx" where
  "use_codes t p = (\<lambda>w. let q = (\<lambda>x. p x \<and> code_live t x); f = (\<lambda>x. x\<lparr>oc_used := Some t\<rparr>) in
     Inr (sql_returning q f (ad_codes w), w\<lparr>ad_codes := sql_update q f (ad_codes w)\<rparr>))"

text \<open>\<open>auth_consume_oauth_code\<close>: one UPDATE, which marks the code and returns its grant.\<close>

definition consumeOauthCode :: "instant \<Rightarrow> string \<Rightarrow> consumed_code option auth_tx" where
  "consumeOauthCode t h = bind_tx (use_codes t (\<lambda>x. oc_hash x = h)) (\<lambda>rows.
     case rows of [] \<Rightarrow> ret None | x # _ \<Rightarrow> ret (Some (grant_of x)))"

section \<open>Tokens (auth-oauth-tokens.ts)\<close>

definition userHasOauthToken :: "uid \<Rightarrow> auth_db \<Rightarrow> bool" where
  "userHasOauthToken u w \<longleftrightarrow> find_row (\<lambda>x. ot_user x = u) (ad_tokens w) \<noteq> None"

record resolved_token =
  gt_user :: uid
  gt_client :: string
  gt_kind :: token_kind
  gt_scope :: string
  gt_expires :: jsdate

definition token_live :: "instant \<Rightarrow> oauth_token \<Rightarrow> bool" where
  "token_live t x \<longleftrightarrow> ot_revoked x = None \<and> t < ot_expires x"

definition resolved_of :: "oauth_token \<Rightarrow> resolved_token" where
  "resolved_of x = \<lparr>gt_user = ot_user x, gt_client = ot_client x, gt_kind = ot_kind x, gt_scope = ot_scope x,
     gt_expires = date_of_sql (ot_expires x)\<rparr>"

definition resolveOauthToken :: "instant \<Rightarrow> string \<Rightarrow> auth_db \<Rightarrow> resolved_token option" where
  "resolveOauthToken t h w = map_option resolved_of (find_row (\<lambda>x. ot_hash x = h \<and> token_live t x) (ad_tokens w))"

text \<open>\<open>GROUP BY client_id ORDER BY max(created_at) DESC, client_id ASC\<close>: two stable sorts.\<close>

definition live_tokens :: "instant \<Rightarrow> uid \<Rightarrow> auth_db \<Rightarrow> oauth_token list" where
  "live_tokens t u w = filter (\<lambda>x. ot_user x = u \<and> token_live t x) (ad_tokens w)"

definition last_issued :: "oauth_token list \<Rightarrow> string \<Rightarrow> instant" where
  "last_issued rows c = Max (set (map ot_created (filter (\<lambda>x. ot_client x = c) rows)))"

definition liveClientRecency :: "(string \<Rightarrow> nat) \<Rightarrow> instant \<Rightarrow> uid \<Rightarrow> auth_db \<Rightarrow> (string \<times> jsdate) list" where
  "liveClientRecency collate t u w = (let rows = live_tokens t u w in
     map (\<lambda>c. (c, date_of_sql (last_issued rows c)))
       (sort_key (\<lambda>c. - last_issued rows c) (sort_key collate (remdups (map ot_client rows)))))"

definition assertClientCanBeIssued ::
  "(string \<Rightarrow> nat) \<Rightarrow> instant \<Rightarrow> uid \<Rightarrow> string \<Rightarrow> nat option \<Rightarrow> unit auth_tx" where
  "assertClientCanBeIssued collate t u c cap = (case cap of
     None \<Rightarrow> ret ()
   | Some n \<Rightarrow>
       bind_tx (query (liveClientRecency collate t u)) (\<lambda>active.
       if c \<in> set (map fst active) then
         (let retained = take n active in
          if length active \<le> n \<or> c \<in> set (map fst retained) then ret () else throw ClientLimitExceeded)
       else if n \<le> length active then throw ClientLimitExceeded else ret ()))"

definition assertClientCanRotate ::
  "(string \<Rightarrow> nat) \<Rightarrow> instant \<Rightarrow> uid \<Rightarrow> string \<Rightarrow> nat option \<Rightarrow> unit auth_tx" where
  "assertClientCanRotate collate t u c cap = (case cap of
     None \<Rightarrow> ret ()
   | Some n \<Rightarrow>
       bind_tx (query (\<lambda>w. take n (liveClientRecency collate t u w))) (\<lambda>retained.
       if c \<in> set (map fst retained) then ret () else throw ClientLimitExceeded))"

record new_oauth_token =
  nt_hash :: string
  nt_kind :: token_kind
  nt_client :: string
  nt_scope :: string
  nt_expires :: jsdate

definition token_row :: "instant \<Rightarrow> uid \<Rightarrow> rid option \<Rightarrow> new_oauth_token \<Rightarrow> oauth_token" where
  "token_row t u frm n = \<lparr>ot_id = 0, ot_hash = nt_hash n, ot_kind = nt_kind n, ot_client = nt_client n,
     ot_user = u, ot_scope = nt_scope n, ot_expires = sql_of_date (nt_expires n), ot_revoked = None,
     ot_rotated_from = frm, ot_created = t\<rparr>"

text \<open>The unique indexes are \<open>token_hash\<close> and the partial one on \<open>rotated_from\<close>.\<close>

definition insert_token :: "oauth_token \<Rightarrow> unit auth_tx" where
  "insert_token row = (\<lambda>w. let x = row\<lparr>ot_id := ad_next w\<rparr> in
     if ot_hash x \<in> set (map ot_hash (ad_tokens w))
       \<or> (ot_rotated_from x \<noteq> None \<and> ot_rotated_from x \<in> set (map ot_rotated_from (ad_tokens w)))
     then Inl UniqueViolation
     else if \<not> code_client_known (ot_client x) w \<or> user_row (ot_user x) w = None then Inl ForeignKeyViolation
     else Inr ((), w\<lparr>ad_tokens := ad_tokens w @ [x], ad_next := Suc (ad_next w)\<rparr>))"

definition insertOauthTokenPair ::
  "(auth_db \<Rightarrow> auth_db) \<Rightarrow> (auth_db \<Rightarrow> auth_db) \<Rightarrow> (string \<Rightarrow> nat) \<Rightarrow> instant \<Rightarrow> uid \<Rightarrow> new_oauth_token \<Rightarrow>
   new_oauth_token option \<Rightarrow> nat option \<Rightarrow> bool auth_tx" where
  "insertOauthTokenPair g g2 collate t u access refresh cap =
     bind_tx (wait_for g) (\<lambda>_.
     bind_tx (in_store (userIsLiveForIssuance u)) (\<lambda>live.
     if \<not> live then ret False
     else bind_tx (assertClientCanBeIssued collate t u (nt_client access) cap) (\<lambda>_.
       bind_tx (wait_for g2) (\<lambda>_.
       let rows = [token_row t u None access] @ (case refresh of None \<Rightarrow> [] | Some r \<Rightarrow> [token_row t u None r])
       in bind_tx (for_each rows insert_token) (\<lambda>_. ret True)))))"

definition revoke_rows :: "instant \<Rightarrow> (oauth_token \<Rightarrow> bool) \<Rightarrow> oauth_token list auth_tx" where
  "revoke_rows t p = (\<lambda>w. let q = (\<lambda>x. p x \<and> ot_revoked x = None); f = (\<lambda>x. x\<lparr>ot_revoked := Some t\<rparr>) in
     Inr (sql_returning q f (ad_tokens w), w\<lparr>ad_tokens := sql_update q f (ad_tokens w)\<rparr>))"

text \<open>Row-level security adds \<open>user_id = u\<close> to the UPDATE's own condition.\<close>

definition rotateOauthRefreshToken ::
  "(auth_db \<Rightarrow> auth_db) \<Rightarrow> (auth_db \<Rightarrow> auth_db) \<Rightarrow> (string \<Rightarrow> nat) \<Rightarrow> instant \<Rightarrow> uid \<Rightarrow> string \<Rightarrow>
   new_oauth_token \<Rightarrow> new_oauth_token \<Rightarrow> nat option \<Rightarrow> bool auth_tx" where
  "rotateOauthRefreshToken g g2 collate t u predecessor access refresh cap =
     bind_tx (wait_for g) (\<lambda>_.
     bind_tx (in_store (userIsLiveForIssuance u)) (\<lambda>live.
     if \<not> live then ret False
     else bind_tx (assertClientCanRotate collate t u (nt_client access) cap) (\<lambda>_.
       bind_tx (wait_for g2) (\<lambda>_.
       bind_tx (revoke_rows t (\<lambda>x. ot_user x = u \<and> ot_hash x = predecessor \<and> ot_kind x = RefreshToken)) (\<lambda>revoked.
       case revoked of
         [] \<Rightarrow> ret False
       | p # _ \<Rightarrow>
           bind_tx (for_each [token_row t u None access, token_row t u (Some (ot_id p)) refresh] insert_token)
             (\<lambda>_. ret True))))))"

section \<open>Clients and consent (auth-oauth-clients.ts)\<close>

definition registerClient :: "instant \<Rightarrow> oauth_client \<Rightarrow> oauth_client auth_tx" where
  "registerClient t row = (\<lambda>w. let x = row\<lparr>cli_created := t, cli_last_used := None\<rparr> in
     if (cli_method x = MethodNone) \<noteq> (cli_secret x = None) then Inl CheckViolation
     else if cli_id x \<in> set (map cli_id (ad_clients w)) then Inl UniqueViolation
     else Inr (x, w\<lparr>ad_clients := ad_clients w @ [x]\<rparr>))"

record metadata_document =
  md_client :: string
  md_name :: string
  md_redirects :: "string list"
  md_grants :: "string list"
  md_responses :: "string list"

definition update_clients :: "(oauth_client \<Rightarrow> bool) \<Rightarrow> (oauth_client \<Rightarrow> oauth_client) \<Rightarrow> oauth_client list auth_tx" where
  "update_clients p f = (\<lambda>w. Inr (sql_returning p f (ad_clients w), w\<lparr>ad_clients := sql_update p f (ad_clients w)\<rparr>))"

text \<open>\<open>ON CONFLICT DO UPDATE ... WHERE registration_method = 'client_id_metadata'\<close>.\<close>

definition materializeClientMetadata :: "instant \<Rightarrow> metadata_document \<Rightarrow> oauth_client option auth_tx" where
  "materializeClientMetadata t d =
     bind_tx (query (\<lambda>w. find_row (\<lambda>x. cli_id x = md_client d) (ad_clients w))) (\<lambda>there.
     if there = None then
       bind_tx (registerClient t \<lparr>cli_id = md_client d, cli_name = md_name d, cli_redirects = md_redirects d,
         cli_method = MethodNone, cli_secret = None, cli_registration = ClientIdMetadata, cli_created = t,
         cli_last_used = None\<rparr>) (\<lambda>x. ret (Some x))
     else
       bind_tx (update_clients (\<lambda>x. cli_id x = md_client d \<and> cli_registration x = ClientIdMetadata)
         (\<lambda>x. x\<lparr>cli_name := md_name d, cli_redirects := md_redirects d\<rparr>)) (\<lambda>rows.
       case rows of [] \<Rightarrow> ret None | x # _ \<Rightarrow> ret (Some x)))"

definition getClientByClientId :: "string \<Rightarrow> auth_db \<Rightarrow> oauth_client option" where
  "getClientByClientId c w = find_row (\<lambda>x. cli_id x = c) (ad_clients w)"

definition updateLastUsedAt :: "instant \<Rightarrow> string \<Rightarrow> unit auth_tx" where
  "updateLastUsedAt t c =
     bind_tx (update_clients (\<lambda>x. cli_id x = c) (\<lambda>x. x\<lparr>cli_last_used := Some t\<rparr>)) (\<lambda>_. ret ())"

record authorized_client =
  ac_client :: string
  ac_name :: string
  ac_redirects :: "string list"
  ac_authorized_at :: jsdate

definition listClientsAuthorizedByUser :: "instant \<Rightarrow> uid \<Rightarrow> auth_db \<Rightarrow> authorized_client list" where
  "listClientsAuthorizedByUser t u w = (let rows = live_tokens t u w in
     map (\<lambda>x. \<lparr>ac_client = cli_id x, ac_name = cli_name x, ac_redirects = cli_redirects x,
         ac_authorized_at = date_of_sql (last_issued rows (cli_id x))\<rparr>)
       (filter (\<lambda>x. cli_id x \<in> set (map ot_client rows)) (ad_clients w)))"

text \<open>
  The UPDATE of the tokens picks its rows in the snapshot it starts from, waits (\<open>g\<close>) for the rows
  that another transaction holds, and re-checks each of them: a row inserted meanwhile is not seen.
  \<open>g2\<close> commits between the two UPDATEs.
\<close>

definition revokeClientForUser ::
  "(auth_db \<Rightarrow> auth_db) \<Rightarrow> (auth_db \<Rightarrow> auth_db) \<Rightarrow> instant \<Rightarrow> uid \<Rightarrow> string \<Rightarrow> nat auth_tx" where
  "revokeClientForUser g g2 t u c =
     (let mine = (\<lambda>x. ot_user x = u \<and> ot_client x = c) in
     bind_tx (query (\<lambda>w. map ot_id (filter (\<lambda>x. mine x \<and> ot_revoked x = None) (ad_tokens w)))) (\<lambda>ids.
     bind_tx (wait_for g) (\<lambda>_.
     bind_tx (revoke_rows t (\<lambda>x. ot_id x \<in> set ids \<and> mine x)) (\<lambda>revoked.
     bind_tx (wait_for g2) (\<lambda>_.
     bind_tx (use_codes t (\<lambda>x. oc_user x = u \<and> oc_client x = c)) (\<lambda>_. ret (length revoked)))))))"

section \<open>Collecting clients that were never used\<close>

definition auth_client_has_grants :: "instant \<Rightarrow> string \<Rightarrow> auth_db \<Rightarrow> bool" where
  "auth_client_has_grants t c w \<longleftrightarrow> find_row (\<lambda>x. ot_client x = c) (ad_tokens w) \<noteq> None
     \<or> find_row (\<lambda>x. oc_client x = c \<and> code_live t x) (ad_codes w) \<noteq> None"

definition listGarbageCollectableClients :: "instant \<Rightarrow> jsdate \<Rightarrow> auth_db \<Rightarrow> string list" where
  "listGarbageCollectableClients t cutoff w = map cli_id (filter (\<lambda>x. cli_last_used x = None
     \<and> cli_created x < sql_of_date cutoff \<and> \<not> auth_client_has_grants t (cli_id x) w) (ad_clients w))"

text \<open>The foreign keys of tokens and codes cascade.\<close>

definition delete_clients :: "string set \<Rightarrow> auth_db \<Rightarrow> auth_db" where
  "delete_clients cs w = w\<lparr>ad_clients := filter (\<lambda>x. cli_id x \<notin> cs) (ad_clients w),
     ad_codes := filter (\<lambda>x. oc_client x \<notin> cs) (ad_codes w),
     ad_tokens := filter (\<lambda>x. ot_client x \<notin> cs) (ad_tokens w)\<rparr>"

text \<open>
  The DELETE evaluates its guard in its own snapshot. It waits (\<open>g\<close>) for a transaction that holds a
  key-share lock on the client, which is what inserting one of its tokens takes; that lock does not
  change the row, so the guard is not evaluated again. A row stamped meanwhile is re-checked.
\<close>

definition deleteClients :: "(auth_db \<Rightarrow> auth_db) \<Rightarrow> instant \<Rightarrow> string list \<Rightarrow> nat auth_tx" where
  "deleteClients g t ids =
     (if ids = [] then ret 0
      else bind_tx (query (\<lambda>w. map cli_id (filter (\<lambda>x. cli_id x \<in> set ids \<and> cli_last_used x = None
        \<and> \<not> auth_client_has_grants t (cli_id x) w) (ad_clients w)))) (\<lambda>seen.
      bind_tx (wait_for g) (\<lambda>_.
      bind_tx (query (\<lambda>w. map cli_id (filter (\<lambda>x. cli_id x \<in> set seen \<and> cli_last_used x = None) (ad_clients w)))) (\<lambda>doomed.
      (\<lambda>w. Inr (length doomed, delete_clients (set doomed) w))))))"

end
