(* ===== verification/AccountErasure.thy ===== *)
theory AccountErasure
  imports OAuthGrants Services
begin

text \<open>
  Account deletion: \<open>eraseAccountData\<close> (\<open>packages/db/src/account-delete.ts\<close>), the audit log it is
  recorded in (\<open>audit-log.ts\<close>) and the policy around it (\<open>packages/core/src/account/delete-account.ts\<close>).
\<close>

section \<open>Redaction (account-delete.ts)\<close>

definition ERASED_PII :: string where "ERASED_PII = ''[erased]''"

record erasure_result =
  er_already :: bool
  er_memories :: nat
  er_facts :: nat
  er_commitments :: nat
  er_proposals :: nat
  er_fact_proposals :: nat
  er_sessions :: nat
  er_logins :: nat
  er_keys :: nat
  er_tokens :: nat
  er_codes :: nat
  er_resets :: nat
  er_verifications :: nat

definition EMPTY_ERASURE :: erasure_result where
  "EMPTY_ERASURE = \<lparr>er_already = True, er_memories = 0, er_facts = 0, er_commitments = 0, er_proposals = 0,
     er_fact_proposals = 0, er_sessions = 0, er_logins = 0, er_keys = 0, er_tokens = 0, er_codes = 0,
     er_resets = 0, er_verifications = 0\<rparr>"

definition redact_memory :: "instant \<Rightarrow> memory \<Rightarrow> memory" where
  "redact_memory now m = m\<lparr>mem_content := ERASED_PII, mem_topic := ERASED_PII, mem_tags := [], mem_updated_at := now\<rparr>"

definition redact_fact :: "fact \<Rightarrow> fact" where
  "redact_fact f = f\<lparr>fact_subject := ERASED_PII, fact_predicate := ERASED_PII, fact_value := ERASED_PII\<rparr>"

definition redact_commitment :: "instant \<Rightarrow> commitment \<Rightarrow> commitment" where
  "redact_commitment now c = c\<lparr>com_owner := None, com_last_resolution_reason := None, com_updated_at := now\<rparr>"

definition redact_session :: "agent_session \<Rightarrow> agent_session" where
  "redact_session x = x\<lparr>ses_project := None, ses_scope := None, ses_selector := SelAll, ses_triaged_events := [],
     ses_briefed := [], ses_excerpt := Some ERASED_PII, ses_needs_look := False, ses_closer_failures := 0,
     ses_closer_next_attempt := None, ses_epoch := ses_epoch x + 1\<rparr>"

definition redact_edge_proposal :: "edge_proposal \<Rightarrow> edge_proposal" where
  "redact_edge_proposal p = p\<lparr>ep_rationale := None\<rparr>"

definition redact_fact_proposal :: "fact_proposal \<Rightarrow> fact_proposal" where
  "redact_fact_proposal p = p\<lparr>fp_subject := ERASED_PII, fp_predicate := ERASED_PII, fp_value := ERASED_PII,
     fp_rationale := None\<rparr>"

definition clear_profile :: "instant \<Rightarrow> profile \<Rightarrow> profile" where
  "clear_profile now p = p\<lparr>pf_role := None, pf_use_case := None, pf_ai_tools := None, pf_referral := None, pf_updated := now\<rparr>"

definition reset_scope_policy :: "instant \<Rightarrow> scope_policy \<Rightarrow> scope_policy" where
  "reset_scope_policy now p = p\<lparr>sp_mode := ScopeOff, sp_default := None, sp_updated := now\<rparr>"

definition reset_judgment_policy :: "instant \<Rightarrow> judgment_policy \<Rightarrow> judgment_policy" where
  "reset_judgment_policy now p = p\<lparr>jp_mode := JudgmentOff, jp_updated := now\<rparr>"

text \<open>
  UPDATE and DELETE on a table given by its record update, returning the number of rows. The erasure
  holds both advisory locks from its second wait on; \<open>gap k\<close> is what others commit before its
  statement \<open>k\<close>.
\<close>

definition update_table ::
  "(auth_db \<Rightarrow> 'r list) \<Rightarrow> (('r list \<Rightarrow> 'r list) \<Rightarrow> auth_db \<Rightarrow> auth_db) \<Rightarrow> ('r \<Rightarrow> bool) \<Rightarrow> ('r \<Rightarrow> 'r) \<Rightarrow> nat auth_tx" where
  "update_table tab put p f = (\<lambda>w. Inr (length (filter p (tab w)), put (sql_update p f) w))"

definition delete_table ::
  "(auth_db \<Rightarrow> 'r list) \<Rightarrow> (('r list \<Rightarrow> 'r list) \<Rightarrow> auth_db \<Rightarrow> auth_db) \<Rightarrow> ('r \<Rightarrow> bool) \<Rightarrow> nat auth_tx" where
  "delete_table tab put p = (\<lambda>w. Inr (length (filter p (tab w)), put (filter (\<lambda>r. \<not> p r)) w))"

definition after_gap :: "(auth_db \<Rightarrow> auth_db) \<Rightarrow> 'a auth_tx \<Rightarrow> ('a \<Rightarrow> 'b auth_tx) \<Rightarrow> 'b auth_tx" where
  "after_gap g m f = bind_tx (wait_for g) (\<lambda>_. bind_tx m f)"

definition erase_content :: "(nat \<Rightarrow> auth_db \<Rightarrow> auth_db) \<Rightarrow> uid \<Rightarrow> instant \<Rightarrow> erasure_result auth_tx" where
  "erase_content gap u now =
     after_gap (gap 2) (in_store (update_memories u (\<lambda>_. True) (redact_memory now))) (\<lambda>mems.
     after_gap (gap 3) (in_store (update_facts u (\<lambda>_. True) redact_fact)) (\<lambda>fcts.
     after_gap (gap 4) (in_store (update_commitments u (\<lambda>_. True) (redact_commitment now))) (\<lambda>coms.
     after_gap (gap 5) (update_table ad_edge_proposals ad_edge_proposals_update (\<lambda>p. ep_user p = u) redact_edge_proposal) (\<lambda>props.
     after_gap (gap 6) (update_table ad_fact_proposals ad_fact_proposals_update (\<lambda>p. fp_user p = u) redact_fact_proposal) (\<lambda>fprops.
     after_gap (gap 7) (in_store (update_sessions u (\<lambda>_. True) redact_session)) (\<lambda>sess.
     ret (EMPTY_ERASURE\<lparr>er_already := False, er_memories := length mems, er_facts := length fcts,
       er_commitments := length coms, er_proposals := props, er_fact_proposals := fprops,
       er_sessions := length sess\<rparr>)))))))"

definition erase_settings :: "(nat \<Rightarrow> auth_db \<Rightarrow> auth_db) \<Rightarrow> uid \<Rightarrow> instant \<Rightarrow> unit auth_tx" where
  "erase_settings gap u now =
     after_gap (gap 8) (update_table ad_profiles ad_profiles_update (\<lambda>p. pf_user p = u) (clear_profile now)) (\<lambda>_.
     after_gap (gap 9) (update_table ad_retrieval ad_retrieval_update (\<lambda>p. sp_user p = u) (reset_scope_policy now)) (\<lambda>_.
     after_gap (gap 10) (update_table ad_write_scope ad_write_scope_update (\<lambda>p. sp_user p = u) (reset_scope_policy now)) (\<lambda>_.
     after_gap (gap 11) (update_table ad_judgment ad_judgment_update (\<lambda>p. jp_user p = u) (reset_judgment_policy now)) (\<lambda>_.
     ret ()))))"

definition erase_credentials ::
  "(nat \<Rightarrow> auth_db \<Rightarrow> auth_db) \<Rightarrow> uid \<Rightarrow> instant \<Rightarrow> erasure_result \<Rightarrow> erasure_result auth_tx" where
  "erase_credentials gap u now r =
     after_gap (gap 12) (delete_table ad_logins ad_logins_update (\<lambda>x. us_user x = u)) (\<lambda>logins.
     after_gap (gap 13) (update_table ad_keys ad_keys_update (\<lambda>x. ak_user x = u \<and> ak_revoked x = None) (\<lambda>x. x\<lparr>ak_revoked := Some now\<rparr>)) (\<lambda>keys.
     after_gap (gap 14) (update_table ad_tokens ad_tokens_update (\<lambda>x. ot_user x = u \<and> ot_revoked x = None) (\<lambda>x. x\<lparr>ot_revoked := Some now\<rparr>)) (\<lambda>toks.
     after_gap (gap 15) (delete_table ad_codes ad_codes_update (\<lambda>x. oc_user x = u)) (\<lambda>codes.
     after_gap (gap 16) (delete_table ad_resets ad_resets_update (\<lambda>x. rt_user x = u)) (\<lambda>resets.
     after_gap (gap 17) (delete_table ad_verifications ad_verifications_update (\<lambda>x. vt_user x = u)) (\<lambda>verifs.
     ret (r\<lparr>er_logins := logins, er_keys := keys, er_tokens := toks, er_codes := codes, er_resets := resets,
       er_verifications := verifs\<rparr>)))))))"

definition tombstone_user :: "uid \<Rightarrow> unit auth_tx" where
  "tombstone_user u = (\<lambda>w.
     let rows = sql_update (\<lambda>x. usr_id x = u) (\<lambda>x. x\<lparr>usr_email := deletedEmail u,
       usr_password_hash := ERASED_PASSWORD_HASH, usr_verified_at := None\<rparr>) (ad_users w) in
     if \<not> distinct (map usr_email rows) then Inl UniqueViolation else Inr ((), set_users (\<lambda>_. rows) w))"

definition eraseAccountData ::
  "(nat \<Rightarrow> auth_db \<Rightarrow> auth_db) \<Rightarrow> uid \<Rightarrow> jsdate \<Rightarrow> erasure_result option auth_tx" where
  "eraseAccountData gap u now =
     bind_tx (wait_for (gap 0)) (\<lambda>_.
     bind_tx (wait_for (gap 1)) (\<lambda>_.
     bind_tx (query (user_row u)) (\<lambda>row. case row of
       None \<Rightarrow> ret None
     | Some x \<Rightarrow>
         if usr_email x = deletedEmail u then ret (Some EMPTY_ERASURE)
         else bind_tx (erase_content gap u (sql_of_date now)) (\<lambda>r.
           bind_tx (erase_settings gap u (sql_of_date now)) (\<lambda>_.
           bind_tx (erase_credentials gap u (sql_of_date now) r) (\<lambda>r'.
           after_gap (gap 18) (tombstone_user u) (\<lambda>_. ret (Some r'))))))))"

section \<open>The audit log (audit-log.ts)\<close>

definition insertAuditLog :: "audit_entry \<Rightarrow> unit auth_tx" where
  "insertAuditLog e = (\<lambda>w. Inr ((), w\<lparr>ad_audit := ad_audit w @ [e]\<rparr>))"

definition auditLogEntryExists :: "uid \<Rightarrow> string \<Rightarrow> auth_db \<Rightarrow> bool" where
  "auditLogEntryExists u action w \<longleftrightarrow>
     find_row (\<lambda>e. au_user e = Some u \<and> au_action e = action) (ad_audit w) \<noteq> None"

section \<open>Deleting an account (delete-account.ts)\<close>

definition TOMBSTONE_ACTION :: string where "TOMBSTONE_ACTION = ''account.deleted''"

text \<open>The log's counters; the mechanism label is the same in every row.\<close>

definition erasure_counters :: "erasure_result \<Rightarrow> (string \<times> nat) list" where
  "erasure_counters r = [(''memories'', er_memories r), (''facts'', er_facts r), (''commitments'', er_commitments r),
     (''proposals'', er_proposals r), (''factProposals'', er_fact_proposals r), (''agentSessions'', er_sessions r),
     (''sessionsDeleted'', er_logins r), (''apiKeysRevoked'', er_keys r), (''oauthTokensRevoked'', er_tokens r),
     (''oauthCodesDeleted'', er_codes r), (''passwordResetTokensDeleted'', er_resets r),
     (''emailVerificationTokensDeleted'', er_verifications r)]"

definition tombstone_entry :: "uid \<Rightarrow> instant \<Rightarrow> erasure_result \<Rightarrow> audit_entry" where
  "tombstone_entry u t r = \<lparr>au_user = Some u, au_actor = UserApi, au_action = TOMBSTONE_ACTION,
     au_resource = Some ''account'', au_metadata = erasure_counters r, au_created = t\<rparr>"

text \<open>
  \<open>hook\<close>: the platform's cleanup, when there is one. \<open>lull k\<close>: what others commit before step \<open>k\<close>;
  \<open>t\<close>: the clock of the log's insert.
\<close>

definition deleteAccount ::
  "(unit, auth_db) svc option \<Rightarrow> (nat \<Rightarrow> auth_db \<Rightarrow> auth_db) \<Rightarrow> (nat \<Rightarrow> auth_db \<Rightarrow> auth_db) \<Rightarrow> instant \<Rightarrow> uid \<Rightarrow>
   jsdate \<Rightarrow> (bool \<times> erasure_result, auth_db) svc" where
  "deleteAccount hook gap lull t u now =
     and_then (case hook of None \<Rightarrow> done_with () | Some h \<Rightarrow> h) (\<lambda>_.
     and_then (run_tx (eraseAccountData gap u now)) (\<lambda>erased. case erased of
       None \<Rightarrow> done_with (True, EMPTY_ERASURE)
     | Some r \<Rightarrow>
         and_then (\<lambda>w. (Inr (auditLogEntryExists u TOMBSTONE_ACTION (lull 0 w)), lull 0 w)) (\<lambda>there.
         and_then (if there then done_with () else run_tx (bind_tx (wait_for (lull 1)) (\<lambda>_. insertAuditLog (tombstone_entry u t r)))) (\<lambda>_.
         done_with (er_already r, r)))))"

end
