(* ===== verification/CredentialReach.thy ===== *)
theory CredentialReach
  imports AccountErasure Reachable
begin

text \<open>
  How the account tables evolve, whatever operations run and however they interleave.
  \<open>auth_evolves H L w w'\<close>: from \<open>w\<close> to \<open>w'\<close>, while the lifecycle locks of the users in \<open>L\<close> are held by
  somebody else and only secrets hashed in \<open>H\<close> are minted. Every row of \<open>w'\<close> is one of \<open>w\<close> (used,
  revoked or consumed since, never the reverse) or a new one of a user who is neither erased nor
  locked. One lemma per operation shows that it moves the tables this way; \<open>creds\<close> is the relation
  of their interleavings.
\<close>

section \<open>How rows evolve\<close>

definition erased_account :: "uid \<Rightarrow> auth_db \<Rightarrow> bool" where
  "erased_account u w \<longleftrightarrow> (\<exists>x. user_row u w = Some x \<and> usr_email x = deletedEmail u)"

definition barred :: "uid set \<Rightarrow> auth_db \<Rightarrow> uid set" where
  "barred L w = L \<union> {u. erased_account u w}"

definition rows_from :: "('r \<Rightarrow> bool) \<Rightarrow> ('r \<Rightarrow> 'r \<Rightarrow> bool) \<Rightarrow> 'r list \<Rightarrow> 'r list \<Rightarrow> bool" where
  "rows_from fresh stp xs ys \<longleftrightarrow> (\<forall>y \<in> set ys. (\<exists>x \<in> set xs. stp x y) \<or> fresh y)"

definition key_step :: "api_key \<Rightarrow> api_key \<Rightarrow> bool" where
  "key_step x y \<longleftrightarrow> ak_user y = ak_user x \<and> ak_hash y = ak_hash x \<and> (ak_revoked x \<noteq> None \<longrightarrow> ak_revoked y \<noteq> None)"

definition reset_step :: "reset_token \<Rightarrow> reset_token \<Rightarrow> bool" where
  "reset_step x y \<longleftrightarrow> rt_user y = rt_user x \<and> rt_hash y = rt_hash x \<and> (rt_consumed x \<noteq> None \<longrightarrow> rt_consumed y \<noteq> None)"

definition code_step :: "oauth_code \<Rightarrow> oauth_code \<Rightarrow> bool" where
  "code_step x y \<longleftrightarrow> grant_of y = grant_of x \<and> oc_hash y = oc_hash x \<and> oc_expires y = oc_expires x \<and>
     (oc_used x \<noteq> None \<longrightarrow> oc_used y \<noteq> None)"

definition token_step :: "oauth_token \<Rightarrow> oauth_token \<Rightarrow> bool" where
  "token_step x y \<longleftrightarrow> resolved_of y = resolved_of x \<and> ot_hash y = ot_hash x \<and> ot_expires y = ot_expires x \<and>
     (ot_revoked x \<noteq> None \<longrightarrow> ot_revoked y \<noteq> None)"

lemmas cred_step_defs = key_step_def reset_step_def code_step_def token_step_def

definition hashes_ok :: "auth_db \<Rightarrow> bool" where
  "hashes_ok w \<longleftrightarrow> distinct (map oc_hash (ad_codes w)) \<and> distinct (map ot_hash (ad_tokens w))"

definition users_persist :: "uid set \<Rightarrow> auth_db \<Rightarrow> auth_db \<Rightarrow> bool" where
  "users_persist L w w' \<longleftrightarrow> (\<forall>u x. user_row u w = Some x \<longrightarrow>
     (\<exists>x'. user_row u w' = Some x' \<and> (usr_email x' = usr_email x \<or> u \<notin> L \<and> usr_email x' = deletedEmail u)))"

definition auth_evolves :: "string set \<Rightarrow> uid set \<Rightarrow> auth_db \<Rightarrow> auth_db \<Rightarrow> bool" where
  "auth_evolves H L w w' \<longleftrightarrow>
     users_persist L w w' \<and>
     rows_from (\<lambda>y. us_user y \<notin> barred L w) (=) (ad_logins w) (ad_logins w') \<and>
     rows_from (\<lambda>y. ak_user y \<notin> barred L w) key_step (ad_keys w) (ad_keys w') \<and>
     rows_from (\<lambda>y. rt_user y \<notin> barred L w) reset_step (ad_resets w) (ad_resets w') \<and>
     rows_from (\<lambda>y. oc_user y \<notin> barred L w \<and> oc_hash y \<in> H) code_step (ad_codes w) (ad_codes w') \<and>
     rows_from (\<lambda>y. ot_user y \<notin> barred L w \<and> ot_hash y \<in> H) token_step (ad_tokens w) (ad_tokens w') \<and>
     (hashes_ok w \<longrightarrow> hashes_ok w')"

lemma auth_evolvesD:
  assumes "auth_evolves H L w w'"
  shows "users_persist L w w'"
    and "rows_from (\<lambda>y. us_user y \<notin> barred L w) (=) (ad_logins w) (ad_logins w')"
    and "rows_from (\<lambda>y. ak_user y \<notin> barred L w) key_step (ad_keys w) (ad_keys w')"
    and "rows_from (\<lambda>y. rt_user y \<notin> barred L w) reset_step (ad_resets w) (ad_resets w')"
    and "rows_from (\<lambda>y. oc_user y \<notin> barred L w \<and> oc_hash y \<in> H) code_step (ad_codes w) (ad_codes w')"
    and "rows_from (\<lambda>y. ot_user y \<notin> barred L w \<and> ot_hash y \<in> H) token_step (ad_tokens w) (ad_tokens w')"
    and "hashes_ok w \<longrightarrow> hashes_ok w'"
  using assms by (simp_all add: auth_evolves_def)

lemma rows_from_same: "(\<And>x. stp x x) \<Longrightarrow> rows_from fresh stp xs xs"
  by (auto simp: rows_from_def)

lemma rows_from_filter: "(\<And>x. stp x x) \<Longrightarrow> rows_from fresh stp xs (filter p xs)"
  by (auto simp: rows_from_def)

lemma rows_from_update: "(\<And>x. stp x x) \<Longrightarrow> (\<And>x. p x \<Longrightarrow> stp x (f x)) \<Longrightarrow> rows_from fresh stp xs (sql_update p f xs)"
  by (auto simp: rows_from_def set_sql_update)

lemma rows_from_snoc: "(\<And>x. stp x x) \<Longrightarrow> fresh y \<Longrightarrow> rows_from fresh stp xs (xs @ [y])"
  by (auto simp: rows_from_def)

lemma rows_from_trans:
  assumes "rows_from fresh stp xs ys" and "rows_from fresh' stp ys zs"
    and "\<And>x y z. stp x y \<Longrightarrow> stp y z \<Longrightarrow> stp x z" and "\<And>z. fresh' z \<Longrightarrow> fresh z"
    and "\<And>y z. fresh y \<Longrightarrow> stp y z \<Longrightarrow> fresh z"
  shows "rows_from fresh stp xs zs"
  unfolding rows_from_def
proof
  fix z assume "z \<in> set zs"
  with assms(2) consider y where "y \<in> set ys" "stp y z" | "fresh' z" by (auto simp: rows_from_def)
  then show "(\<exists>x \<in> set xs. stp x z) \<or> fresh z"
  proof cases
    case 1
    with assms(1) show ?thesis unfolding rows_from_def by (metis assms(3,5))
  next
    case 2
    then show ?thesis using assms(4) by blast
  qed
qed

lemma cred_step_refl [simp]: "key_step x x" "reset_step r r" "code_step c c" "token_step k k"
  by (simp_all add: cred_step_defs)

lemma key_step_trans: "key_step x y \<Longrightarrow> key_step y z \<Longrightarrow> key_step x z"
  by (simp add: key_step_def)

lemma reset_step_trans: "reset_step x y \<Longrightarrow> reset_step y z \<Longrightarrow> reset_step x z"
  by (simp add: reset_step_def)

lemma code_step_trans: "code_step x y \<Longrightarrow> code_step y z \<Longrightarrow> code_step x z"
  by (simp add: code_step_def)

lemma token_step_trans: "token_step x y \<Longrightarrow> token_step y z \<Longrightarrow> token_step x z"
  by (simp add: token_step_def)

lemma token_step_user: "token_step x y \<Longrightarrow> ot_user y = ot_user x \<and> ot_hash y = ot_hash x"
  by (auto simp: token_step_def resolved_of_def)

lemma code_step_user: "code_step x y \<Longrightarrow> oc_user y = oc_user x \<and> oc_hash y = oc_hash x"
  by (auto simp: code_step_def grant_of_def)

lemma users_persist_refl: "users_persist L w w"
  by (auto simp: users_persist_def)

lemma users_persist_trans: "users_persist L w v \<Longrightarrow> users_persist L v z \<Longrightarrow> users_persist L w z"
  unfolding users_persist_def by metis

lemma barred_mono: "users_persist L w v \<Longrightarrow> barred L w \<subseteq> barred L v"
  unfolding barred_def erased_account_def users_persist_def by fastforce

interpretation auth: tx_preorder "auth_evolves H L"
proof unfold_locales
  show "auth_evolves H L s s" for s by (simp add: auth_evolves_def users_persist_refl rows_from_same)
  show "auth_evolves H L w z" if "auth_evolves H L w v" and "auth_evolves H L v z" for w v z
  proof -
    note wv = auth_evolvesD [OF that(1)] and vz = auth_evolvesD [OF that(2)]
    have out: "x \<notin> barred L v \<Longrightarrow> x \<notin> barred L w" for x using barred_mono [OF wv(1)] by blast
    show ?thesis
      unfolding auth_evolves_def
    proof (intro conjI)
      show "users_persist L w z" by (rule users_persist_trans [OF wv(1) vz(1)])
      show "rows_from (\<lambda>y. us_user y \<notin> barred L w) (=) (ad_logins w) (ad_logins z)"
        by (rule rows_from_trans [OF wv(2) vz(2)]) (use out in auto)
      show "rows_from (\<lambda>y. ak_user y \<notin> barred L w) key_step (ad_keys w) (ad_keys z)"
        by (rule rows_from_trans [OF wv(3) vz(3)]) (erule (1) key_step_trans, use out in \<open>auto simp: key_step_def\<close>)
      show "rows_from (\<lambda>y. rt_user y \<notin> barred L w) reset_step (ad_resets w) (ad_resets z)"
        by (rule rows_from_trans [OF wv(4) vz(4)]) (erule (1) reset_step_trans, use out in \<open>auto simp: reset_step_def\<close>)
      show "rows_from (\<lambda>y. oc_user y \<notin> barred L w \<and> oc_hash y \<in> H) code_step (ad_codes w) (ad_codes z)"
        by (rule rows_from_trans [OF wv(5) vz(5)]) (erule (1) code_step_trans, use out in \<open>auto dest!: code_step_user\<close>)
      show "rows_from (\<lambda>y. ot_user y \<notin> barred L w \<and> ot_hash y \<in> H) token_step (ad_tokens w) (ad_tokens z)"
        by (rule rows_from_trans [OF wv(6) vz(6)]) (erule (1) token_step_trans, use out in \<open>auto dest!: token_step_user\<close>)
      show "hashes_ok w \<longrightarrow> hashes_ok z" using wv(7) vz(7) by blast
    qed
  qed
qed

text \<open>Holding one more lock only forbids more.\<close>

lemma auth_evolves_unlock: "auth_evolves H (insert u L) w w' \<Longrightarrow> auth_evolves H L w w'"
  unfolding auth_evolves_def users_persist_def barred_def rows_from_def by fast

section \<open>The statements\<close>

lemma set_users_sel [simp]:
  "ad_users (set_users f w) = f (ad_users w)" "ad_logins (set_users f w) = ad_logins w"
  "ad_keys (set_users f w) = ad_keys w" "ad_resets (set_users f w) = ad_resets w"
  "ad_codes (set_users f w) = ad_codes w" "ad_tokens (set_users f w) = ad_tokens w"
  "ad_verifications (set_users f w) = ad_verifications w" "ad_clients (set_users f w) = ad_clients w"
  by (simp_all add: set_users_def ad_users_def)

lemma ad_users_upd [simp]:
  "ad_users (ad_next_update n w) = ad_users w" "ad_users (ad_logins_update l w) = ad_users w"
  "ad_users (ad_keys_update k w) = ad_users w" "ad_users (ad_resets_update r w) = ad_users w"
  "ad_users (ad_verifications_update v w) = ad_users w" "ad_users (ad_clients_update c w) = ad_users w"
  "ad_users (ad_codes_update d w) = ad_users w" "ad_users (ad_tokens_update t w) = ad_users w"
  "ad_users (ad_audit_update a w) = ad_users w" "ad_users (ad_edge_proposals_update e w) = ad_users w"
  "ad_users (ad_fact_proposals_update f w) = ad_users w" "ad_users (ad_profiles_update g w) = ad_users w"
  "ad_users (ad_retrieval_update h w) = ad_users w" "ad_users (ad_write_scope_update i w) = ad_users w"
  "ad_users (ad_judgment_update j w) = ad_users w" "ad_users (w\<lparr>ad_store := s\<rparr>) = tbl_users s"
  by (simp_all add: ad_users_def)

text \<open>A change of one table, by the way it is changed.\<close>

lemma persist_same: "ad_users w' = ad_users w \<Longrightarrow> users_persist L w w'"
  by (auto simp: users_persist_def user_row_def)

lemma persist_update:
  assumes "ad_users w' = sql_update p f (ad_users w)" and "\<And>x. p x \<Longrightarrow> usr_id (f x) = usr_id x \<and> usr_email (f x) = usr_email x"
  shows "users_persist L w w'"
proof -
  have "user_row u w' = map_option (\<lambda>x. if p x then f x else x) (user_row u w)" for u
    unfolding user_row_def assms(1) by (rule find_row_update) (simp add: assms(2))
  then show ?thesis using assms(2) by (auto simp: users_persist_def)
qed

lemma persist_snoc: "ad_users w' = ad_users w @ [x] \<Longrightarrow> users_persist L w w'"
  by (auto simp: users_persist_def user_row_def find_row_append split: option.splits)

lemma hashes_same: "ad_codes w' = ad_codes w \<Longrightarrow> ad_tokens w' = ad_tokens w \<Longrightarrow> hashes_ok w \<longrightarrow> hashes_ok w'"
  by (simp add: hashes_ok_def)

text \<open>An operation on the other tables, or one that changes users but no address.\<close>

lemma evolves_users:
  assumes "users_persist L w w'" and "ad_logins w' = ad_logins w" "ad_keys w' = ad_keys w"
    "ad_resets w' = ad_resets w" "ad_codes w' = ad_codes w" "ad_tokens w' = ad_tokens w"
  shows "auth_evolves H L w w'"
  using assms by (simp add: auth_evolves_def rows_from_same hashes_ok_def)

lemmas evolves_frame = evolves_users [OF persist_same]

text \<open>One table of credentials changes, the rest stays.\<close>

lemma evolves_table:
  assumes "ad_users w' = ad_users w"
    and "ad_logins w' = ad_logins w \<or> rows_from (\<lambda>y. us_user y \<notin> barred L w) (=) (ad_logins w) (ad_logins w')"
    and "ad_keys w' = ad_keys w \<or> rows_from (\<lambda>y. ak_user y \<notin> barred L w) key_step (ad_keys w) (ad_keys w')"
    and "ad_resets w' = ad_resets w \<or> rows_from (\<lambda>y. rt_user y \<notin> barred L w) reset_step (ad_resets w) (ad_resets w')"
    and "ad_codes w' = ad_codes w \<or>
      rows_from (\<lambda>y. oc_user y \<notin> barred L w \<and> oc_hash y \<in> H) code_step (ad_codes w) (ad_codes w') \<and>
      (distinct (map oc_hash (ad_codes w)) \<longrightarrow> distinct (map oc_hash (ad_codes w')))"
    and "ad_tokens w' = ad_tokens w \<or>
      rows_from (\<lambda>y. ot_user y \<notin> barred L w \<and> ot_hash y \<in> H) token_step (ad_tokens w) (ad_tokens w') \<and>
      (distinct (map ot_hash (ad_tokens w)) \<longrightarrow> distinct (map ot_hash (ad_tokens w')))"
  shows "auth_evolves H L w w'"
  unfolding auth_evolves_def
proof (intro conjI)
  show "users_persist L w w'" using assms(1) by (rule persist_same)
  show "hashes_ok w \<longrightarrow> hashes_ok w'" using assms(5,6) by (auto simp: hashes_ok_def)
  show "rows_from (\<lambda>y. us_user y \<notin> barred L w) (=) (ad_logins w) (ad_logins w')"
    using assms(2) rows_from_same [of "(=)" _ "ad_logins w"] by auto
  show "rows_from (\<lambda>y. ak_user y \<notin> barred L w) key_step (ad_keys w) (ad_keys w')"
    using assms(3) rows_from_same [of key_step _ "ad_keys w"] by auto
  show "rows_from (\<lambda>y. rt_user y \<notin> barred L w) reset_step (ad_resets w) (ad_resets w')"
    using assms(4) rows_from_same [of reset_step _ "ad_resets w"] by auto
  show "rows_from (\<lambda>y. oc_user y \<notin> barred L w \<and> oc_hash y \<in> H) code_step (ad_codes w) (ad_codes w')"
    using assms(5) rows_from_same [of code_step _ "ad_codes w"] by auto
  show "rows_from (\<lambda>y. ot_user y \<notin> barred L w \<and> ot_hash y \<in> H) token_step (ad_tokens w) (ad_tokens w')"
    using assms(6) rows_from_same [of token_step _ "ad_tokens w"] by auto
qed

text \<open>The shapes a table's change takes: rows go, rows are stamped, a row is added.\<close>

lemma distinct_update_key:
  "distinct (map key xs) \<Longrightarrow> (\<And>r. p r \<Longrightarrow> key (f r) = key r) \<Longrightarrow> distinct (map key (sql_update p f xs))"
  by (subst sql_update_cong_key) auto

lemma distinct_filter_key: "distinct (map key xs) \<Longrightarrow> distinct (map key (filter p xs))"
  by (rule distinct_map_filter)

lemma step_stamps [simp]:
  "key_step x (x\<lparr>ak_revoked := Some t\<rparr>)" "key_step x (x\<lparr>ak_last_used := l\<rparr>)"
  "reset_step r (r\<lparr>rt_consumed := Some t\<rparr>)" "code_step c (c\<lparr>oc_used := Some t\<rparr>)"
  "token_step k (k\<lparr>ot_revoked := Some t\<rparr>)"
  by (simp_all add: cred_step_defs grant_of_def resolved_of_def)

lemmas evolves_row = rows_from_filter rows_from_update distinct_update_key distinct_filter_key

section \<open>Statements that touch no live credential, or only close some\<close>

lemma ev_in_store: "moves (\<lambda>s s'. tbl_users s' = tbl_users s) m \<Longrightarrow> moves (auth_evolves H L) (in_store m)"
  by (fastforce simp: moves_def in_store_def ad_users_def split: sum.splits prod.splits intro!: evolves_frame)

lemma ev_reads: "moves (auth_evolves H L) (in_store (userIsLiveForIssuance u))"
  by (rule ev_in_store) (auto simp: moves_def userIsLiveForIssuance_def getLiveAccountId_def tx_Inr split: option.splits)

lemma ev_close_rows:
  "auth_evolves H L w (delete_logins p w)" "auth_evolves H L w (burn_resets t u w)"
  "auth_evolves H L w (consume_reset t h w)" "auth_evolves H L w (revoke_tokens t q w)"
  "auth_evolves H L w (revoke_keys t u w)" "auth_evolves H L w (delete_clients cs w)"
  by (auto simp: delete_logins_def burn_resets_def consume_reset_def revoke_tokens_def revoke_keys_def delete_clients_def
      intro!: evolves_table evolves_row)

lemma ev_set_users:
  "(\<And>x. p x \<Longrightarrow> usr_id (f x) = usr_id x \<and> usr_email (f x) = usr_email x) \<Longrightarrow>
   auth_evolves H L w (set_users (sql_update p f) w)"
  by (rule evolves_users) (auto intro: persist_update)

lemma ev_verifications: "auth_evolves H L w (w\<lparr>ad_verifications := vs\<rparr>)"
  by (rule evolves_frame) simp_all

lemma ev_burn: "auth_evolves H L w (burn_verifications t u w)" "auth_evolves H L w (update_verifications p f w)"
  by (simp_all add: burn_verifications_def update_verifications_def ev_verifications)

lemma ev_stamp: "auth_evolves H L w (stamp_verified t u w)"
  unfolding stamp_verified_def by (rule ev_set_users) simp

text \<open>A statement that computes its new state by \<open>f\<close>.\<close>

lemma ev_pure: "(\<And>w. auth_evolves H L w (f w)) \<Longrightarrow> moves (auth_evolves H L) (\<lambda>w. Inr (a w, f w))"
  by (auto simp: moves_def)

lemma ev_insert_verification: "moves (auth_evolves H L) (insert_verification row)"
  by (auto simp: moves_def insert_verification_def Let_def intro!: evolves_frame split: if_splits)

lemma ev_insert_user: "moves (auth_evolves H L) (insert_user row)"
  by (auto simp: moves_def insert_user_def Let_def intro!: evolves_users persist_snoc split: if_splits)

lemma ev_clients: "moves (auth_evolves H L) (update_clients p f)" "moves (auth_evolves H L) (registerClient t c)"
  by (auto simp: moves_def update_clients_def registerClient_def Let_def intro!: evolves_frame split: if_splits)

lemma ev_update_keys: "(\<And>x. p x \<Longrightarrow> key_step x (f x)) \<Longrightarrow> moves (auth_evolves H L) (update_keys p f)"
  unfolding update_keys_def by (intro ev_pure evolves_table) (auto intro!: evolves_row)

lemma ev_use_codes: "moves (auth_evolves H L) (use_codes t p)"
  unfolding use_codes_def Let_def by (intro ev_pure evolves_table) (auto intro!: evolves_row)

lemma ev_revoke_rows: "moves (auth_evolves H L) (revoke_rows t p)"
  unfolding revoke_rows_def Let_def by (intro ev_pure evolves_table) (auto intro!: evolves_row)

lemmas ev_statements = auth.within_ret auth.within_throw auth.within_query auth.within_bind auth.within_wait
  auth.within_map_error auth.within_if auth.within_case_option auth.within_case_list auth.within_for_each
  ev_reads ev_insert_verification ev_insert_user ev_clients ev_use_codes ev_revoke_rows

text \<open>A stamp after other changes of the same transaction.\<close>

lemmas ev_after = auth.R_trans [OF _ ev_close_rows(1)] auth.R_trans [OF _ ev_close_rows(2)]
  auth.R_trans [OF _ ev_close_rows(3)] auth.R_trans [OF _ ev_close_rows(4)] auth.R_trans [OF _ ev_close_rows(5)]
  auth.R_trans [OF _ ev_burn(1)] auth.R_trans [OF _ ev_stamp]

lemma ev_passwords:
  "auth_evolves H L w (set_users (sql_update p (\<lambda>x. x\<lparr>usr_password_hash := h\<rparr>)) w)"
  by (rule ev_set_users) simp

lemma ev_rotatePassword:
  assumes gap: "\<And>w. auth_evolves H L w (g w)"
  shows "moves (auth_evolves H L) (rotatePasswordAndRevokeOthers g t u old new keep)"
  unfolding rotatePasswordAndRevokeOthers_def
  by (intro ev_statements gap ev_pure ev_after ev_passwords)

lemma ev_resetPassword:
  assumes gap: "\<And>w. auth_evolves H L w (g w)"
  shows "moves (auth_evolves H L) (auth_reset_password g t h new)"
  unfolding auth_reset_password_def by (intro ev_statements gap ev_pure ev_after ev_passwords ev_close_rows)

lemma ev_verifyEmail:
  assumes gap: "\<And>w. auth_evolves H L w (g w)"
  shows "moves (auth_evolves H L) (auth_verify_email g t h p)"
  unfolding auth_verify_email_def by (intro ev_statements gap ev_pure ev_after ev_burn)

lemma ev_resend:
  assumes gap: "\<And>w. auth_evolves H L w (g w)"
  shows "moves (auth_evolves H L) (auth_resend_email_verification g t u n)"
  unfolding auth_resend_email_verification_def by (intro ev_statements gap ev_pure ev_verifications)

lemma ev_retrySignup:
  assumes gap: "\<And>w. auth_evolves H L w (g w)"
  shows "moves (auth_evolves H L) (auth_retry_unverified_signup g t u old new n)"
  unfolding auth_retry_unverified_signup_def by (intro ev_statements gap ev_pure ev_after ev_passwords)

lemma ev_deleteClients:
  assumes gap: "\<And>w. auth_evolves H L w (g w)"
  shows "moves (auth_evolves H L) (deleteClients g t ids)"
  unfolding deleteClients_def by (intro ev_statements gap ev_pure ev_close_rows)

lemma ev_revokeClient:
  assumes gap: "\<And>w. auth_evolves H L w (g w)" and gap2: "\<And>w. auth_evolves H L w (g2 w)"
  shows "moves (auth_evolves H L) (revokeClientForUser g g2 t u c)"
  unfolding revokeClientForUser_def Let_def by (intro ev_statements gap gap2)

text \<open>
  The guarded inserts. Once the lifecycle lock is held the account is not locked by another, and the
  guard has read that it is not erased: its owner is not barred.
\<close>

lemma guarded_moves:
  assumes gap: "\<And>w. auth_evolves H L w (g w)" and "u \<notin> L"
    and "\<And>w a w'. u \<notin> barred L w \<Longrightarrow> k w = Inr (a, w') \<Longrightarrow> auth_evolves H L w w'"
  shows "moves (auth_evolves H L) (bind_tx (guardCredentialIssuance g u) (\<lambda>_. k))"
proof (rule withinI)
  fix w a w' assume "bind_tx (guardCredentialIssuance g u) (\<lambda>_. k) w = Inr (a, w')"
  then have "user_live u (ad_store (g w))" and k: "k (g w) = Inr (a, w')"
    by (auto simp: guardCredentialIssuance_def tx_Inr in_store_def userIsLiveForIssuance_def getLiveAccountId_def
        user_live_def bind_tx_def query_def ret_def throw_def wait_for_def split: sum.splits prod.splits if_splits option.splits)
  then have "u \<notin> barred L (g w)"
    using assms(2) by (auto simp: barred_def erased_account_def user_live_def select_user_def user_row_def ad_users_def
        isAccountTombstoned_def split: option.splits)
  from auth.R_trans [OF gap assms(3) [OF this k]] show "auth_evolves H L w w'" .
qed

lemma ev_insertSession:
  assumes gap: "\<And>w. auth_evolves H L w (g w)" and "u \<notin> L"
  shows "moves (auth_evolves H L) (insertSession g t u h e)"
  unfolding insertSession_def
  by (rule guarded_moves [OF gap]) (use assms(2-) in \<open>auto simp: insert_login_def Let_def intro!: evolves_table rows_from_snoc split: if_splits\<close>)

lemma ev_insertApiKey:
  assumes gap: "\<And>w. auth_evolves H L w (g w)" and "u \<notin> L"
  shows "moves (auth_evolves H L) (insertApiKey g t u n h p)"
  unfolding insertApiKey_def
  by (rule guarded_moves [OF gap]) (use assms(2-) in \<open>auto simp: insert_key_def Let_def intro!: evolves_table rows_from_snoc split: if_splits\<close>)

lemma ev_insertReset:
  assumes gap: "\<And>w. auth_evolves H L w (g w)" and "u \<notin> L"
  shows "moves (auth_evolves H L) (insertPasswordResetToken g t u h e)"
  unfolding insertPasswordResetToken_def
  by (rule guarded_moves [OF gap]) (use assms(2-) in \<open>auto simp: insert_reset_def Let_def intro!: evolves_table rows_from_snoc split: if_splits\<close>)

lemma ev_insertVerification:
  assumes gap: "\<And>w. auth_evolves H L w (g w)" and "u \<notin> L"
  shows "moves (auth_evolves H L) (insertEmailVerificationToken g t u n)"
  unfolding insertEmailVerificationToken_def
  by (rule guarded_moves [OF gap]) (use assms(2-) in \<open>auto dest: withinD [OF ev_insert_verification]\<close>)

lemma ev_insertOauthCode:
  assumes gap: "\<And>w. auth_evolves H L w (g w)" and "u \<notin> L" and "nc_hash n \<in> H"
  shows "moves (auth_evolves H L) (insertOauthCode g t u n)"
  unfolding insertOauthCode_def
  by (rule guarded_moves [OF gap]) (use assms(2-) in \<open>auto simp: insert_code_def Let_def intro!: evolves_table rows_from_snoc split: if_splits\<close>)

section \<open>Issuing and rotating tokens\<close>

lemma liveness_read: "in_store (userIsLiveForIssuance u) w = Inr (b, w') \<longleftrightarrow> w' = w \<and> b = user_live u (ad_store w)"
  by (auto simp: in_store_def userIsLiveForIssuance_def getLiveAccountId_def user_live_def bind_tx_def query_def
      ret_def throw_def split: option.splits)

lemma live_not_erased: "user_live u (ad_store w) \<Longrightarrow> user_row u w \<noteq> None \<and> \<not> erased_account u w"
  by (auto simp: erased_account_def user_live_def select_user_def user_row_def ad_users_def isAccountTombstoned_def
      split: option.splits)

text \<open>While the lock is held by this transaction nobody else erases the account.\<close>

lemma lock_keeps_live:
  assumes "auth_evolves H (insert u L) w w'" and "user_row u w \<noteq> None \<and> \<not> erased_account u w"
  shows "user_row u w' \<noteq> None \<and> \<not> erased_account u w'"
  using assms by (fastforce simp: auth_evolves_def users_persist_def erased_account_def)

lemma ev_insert_token:
  assumes "insert_token row w = Inr (a, w')" and "ot_user row \<notin> barred L w" and "ot_hash row \<in> H"
  shows "auth_evolves H L w w' \<and> ad_users w' = ad_users w"
  using assms by (auto simp: insert_token_def Let_def intro!: evolves_table rows_from_snoc split: if_splits)

lemma barred_cong: "ad_users w' = ad_users w \<Longrightarrow> barred L w' = barred L w"
  by (simp add: barred_def erased_account_def user_row_def)

lemma ev_insert_tokens:
  assumes "for_each rows insert_token w = Inr (as, w')"
    and "\<And>row. row \<in> set rows \<Longrightarrow> ot_user row \<notin> barred L w \<and> ot_hash row \<in> H"
  shows "auth_evolves H L w w'"
  using assms
proof (induction rows arbitrary: w as)
  case (Cons row rows)
  then obtain a v bs where v: "insert_token row w = Inr (a, v)" and rest: "for_each rows insert_token v = Inr (bs, w')"
    by (auto simp: tx_Inr)
  have step: "auth_evolves H L w v \<and> ad_users v = ad_users w"
    by (rule ev_insert_token [OF v]) (use Cons.prems(2) in auto)
  then have "barred L v = barred L w" by (intro barred_cong) simp
  then have "auth_evolves H L v w'" using Cons.IH [OF rest] Cons.prems(2) by simp
  with step show ?case by (blast intro: auth.R_trans)
qed (simp add: auth.R_refl)

lemma ev_insert_rows:
  assumes "bind_tx (for_each rows insert_token) (\<lambda>_. ret b) w = Inr (a, w')" and "u \<notin> barred L w"
    and "\<And>row. row \<in> set rows \<Longrightarrow> ot_user row = u \<and> ot_hash row \<in> H"
  shows "auth_evolves H L w w'"
  using assms(1) unfolding bind_tx_Inr by (elim exE conjE) (use assms(2,3) ev_insert_tokens in fastforce)

text \<open>The shape both share: the lock, the liveness read, a check, and a body run while the lock is held.\<close>

lemma locked_moves:
  assumes gap: "\<And>w. auth_evolves H L w (g w)" and gap2: "\<And>w. auth_evolves H (insert u L) w (g2 w)" and "u \<notin> L"
    and check: "\<And>w r. check w = Inr r \<Longrightarrow> snd r = w"
    and body: "\<And>w a w'. \<not> erased_account u w \<Longrightarrow> m w = Inr (a, w') \<Longrightarrow> auth_evolves H L w w'"
  shows "moves (auth_evolves H L) (bind_tx (wait_for g) (\<lambda>_. bind_tx (in_store (userIsLiveForIssuance u)) (\<lambda>live.
    if \<not> live then ret False else bind_tx check (\<lambda>_. bind_tx (wait_for g2) (\<lambda>_. m)))))"
proof (rule withinI)
  fix w a w'
  assume run: "bind_tx (wait_for g) (\<lambda>_. bind_tx (in_store (userIsLiveForIssuance u)) (\<lambda>live.
    if \<not> live then ret False else bind_tx check (\<lambda>_. bind_tx (wait_for g2) (\<lambda>_. m)))) w = Inr (a, w')"
  show "auth_evolves H L w w'"
  proof (cases "user_live u (ad_store (g w))")
    case True
    with run have m: "m (g2 (g w)) = Inr (a, w')"
      by (auto simp: tx_Inr liveness_read dest!: check)
    have "\<not> erased_account u (g2 (g w))" using lock_keeps_live [OF gap2 live_not_erased [OF True]] by blast
    from body [OF this m] show ?thesis
      by (meson auth.R_trans auth_evolves_unlock gap gap2)
  next
    case False
    with run show ?thesis using gap by (auto simp: tx_Inr liveness_read)
  qed
qed

lemma ev_issueTokens:
  assumes gap: "\<And>w. auth_evolves H L w (g w)" and gap2: "\<And>w. auth_evolves H (insert u L) w (g2 w)" and "u \<notin> L"
    and "nt_hash access \<in> H" and "\<And>r. refresh = Some r \<Longrightarrow> nt_hash r \<in> H"
  shows "moves (auth_evolves H L) (insertOauthTokenPair g g2 collate t u access refresh cap)"
  unfolding insertOauthTokenPair_def Let_def
proof (rule locked_moves [OF gap gap2 \<open>u \<notin> L\<close>])
  show "snd r = w" if "assertClientCanBeIssued collate t u (nt_client access) cap w = Inr r" for w r
    using that by (cases r) (auto simp: assertClientCanBeIssued_def tx_Inr split: option.splits if_splits)
  show "auth_evolves H L w w'"
    if "\<not> erased_account u w" and "bind_tx (for_each ([token_row t u None access] @ (case refresh of None \<Rightarrow> [] | Some r \<Rightarrow> [token_row t u None r]))
      insert_token) (\<lambda>_. ret True) w = Inr (a, w')" for w a w'
    by (rule ev_insert_rows [OF that(2), where u = u])
      (use assms(3-5) that(1) in \<open>auto simp: barred_def token_row_def split: option.splits\<close>)
qed

lemma ev_rotateTokens:
  assumes gap: "\<And>w. auth_evolves H L w (g w)" and gap2: "\<And>w. auth_evolves H (insert u L) w (g2 w)" and "u \<notin> L"
    and "nt_hash access \<in> H" and "nt_hash refresh \<in> H"
  shows "moves (auth_evolves H L) (rotateOauthRefreshToken g g2 collate t u h access refresh cap)"
  unfolding rotateOauthRefreshToken_def
proof (rule locked_moves [OF gap gap2 \<open>u \<notin> L\<close>])
  show "snd r = w" if "assertClientCanRotate collate t u (nt_client access) cap w = Inr r" for w r
    using that by (cases r) (auto simp: assertClientCanRotate_def tx_Inr split: option.splits if_splits)
next
  fix w a w'
  let ?old = "\<lambda>x. ot_user x = u \<and> ot_hash x = h \<and> ot_kind x = RefreshToken"
  assume "\<not> erased_account u w" and "bind_tx (revoke_rows t ?old) (\<lambda>revoked. case revoked of [] \<Rightarrow> ret False
    | p # _ \<Rightarrow> bind_tx (for_each [token_row t u None access, token_row t u (Some (ot_id p)) refresh] insert_token) (\<lambda>_. ret True)) w = Inr (a, w')"
  then obtain rows v where v: "revoke_rows t ?old w = Inr (rows, v)"
    and rest: "(case rows of [] \<Rightarrow> ret False | p # _ \<Rightarrow>
      bind_tx (for_each [token_row t u None access, token_row t u (Some (ot_id p)) refresh] insert_token) (\<lambda>_. ret True)) v = Inr (a, w')"
    unfolding bind_tx_Inr by blast
  have step: "auth_evolves H L w v" by (rule withinD [OF ev_revoke_rows v])
  have "ad_users v = ad_users w" using v by (auto simp: revoke_rows_def Let_def)
  then have free: "u \<notin> barred L v" using \<open>\<not> erased_account u w\<close> \<open>u \<notin> L\<close> barred_cong [of v w L] by (simp add: barred_def)
  have "auth_evolves H L v w'"
  proof (cases rows)
    case Nil
    with rest show ?thesis by (simp add: auth.R_refl)
  next
    case (Cons p ps)
    with rest have "bind_tx (for_each [token_row t u None access, token_row t u (Some (ot_id p)) refresh] insert_token)
      (\<lambda>_. ret True) v = Inr (a, w')" by (simp del: for_each.simps)
    then show ?thesis
      by (rule ev_insert_rows [OF _ free]) (use assms(4,5) in \<open>auto simp: token_row_def\<close>)
  qed
  with step show "auth_evolves H L w w'" by (rule auth.R_trans)
qed

end
