(* ===== verification/AccountSafety.thy ===== *)
theory AccountSafety
  imports CredentialReach
begin

text \<open>
  What holds of accounts and credentials under every interleaving: \<open>creds H us L\<close> runs any sequence
  of the operations on the account tables (and of the memory operations of \<open>Reachable\<close>), each open to
  interference at its waits. A transaction that holds a user's lifecycle lock adds the user to \<open>L\<close>
  for what runs beside it.
\<close>

section \<open>Erasing an account\<close>

lemma ev_after_gap:
  "(\<And>w. auth_evolves H L w (g w)) \<Longrightarrow> moves (auth_evolves H L) m \<Longrightarrow> (\<And>a. moves (auth_evolves H L) (f a)) \<Longrightarrow>
   moves (auth_evolves H L) (after_gap g m f)"
  unfolding after_gap_def by (intro ev_statements)

lemma users_store_updates:
  "moves (\<lambda>s s'. tbl_users s' = tbl_users s) (update_memories u p f)"
  "moves (\<lambda>s s'. tbl_users s' = tbl_users s) (update_facts u q f')"
  "moves (\<lambda>s s'. tbl_users s' = tbl_users s) (update_commitments u r f'')"
  "moves (\<lambda>s s'. tbl_users s' = tbl_users s) (update_sessions u n f''')"
  by (auto simp: moves_def update_memories_def update_facts_def update_commitments_def update_sessions_def Let_def
      split: if_splits option.splits)

lemmas ev_store_updates = users_store_updates [THEN ev_in_store]

lemma ev_update_table:
  "(\<And>w. auth_evolves H L w (put (sql_update p f) w)) \<Longrightarrow> moves (auth_evolves H L) (update_table tab put p f)"
  "(\<And>w. auth_evolves H L w (put (filter (\<lambda>r. \<not> p r)) w)) \<Longrightarrow> moves (auth_evolves H L) (delete_table tab put p)"
  unfolding update_table_def delete_table_def by (rule ev_pure, assumption)+

lemma ev_side_tables:
  "auth_evolves H L w (ad_edge_proposals_update a w)" "auth_evolves H L w (ad_fact_proposals_update b w)"
  "auth_evolves H L w (ad_profiles_update c w)" "auth_evolves H L w (ad_retrieval_update d w)"
  "auth_evolves H L w (ad_write_scope_update e w)" "auth_evolves H L w (ad_judgment_update f w)"
  "auth_evolves H L w (ad_verifications_update k w)" "auth_evolves H L w (ad_audit_update l w)"
  by (rule evolves_frame; simp)+

lemma ev_credential_tables:
  "auth_evolves H L w (ad_logins_update (filter p) w)"
  "auth_evolves H L w (ad_keys_update (sql_update q (\<lambda>x. x\<lparr>ak_revoked := Some t\<rparr>)) w)"
  "auth_evolves H L w (ad_tokens_update (sql_update r (\<lambda>x. x\<lparr>ot_revoked := Some t\<rparr>)) w)"
  "auth_evolves H L w (ad_codes_update (filter p') w)" "auth_evolves H L w (ad_resets_update (filter q') w)"
  by (auto intro!: evolves_table evolves_row)

lemma ev_tombstone: "u \<notin> L \<Longrightarrow> moves (auth_evolves H L) (tombstone_user u)"
proof (rule withinI)
  fix w a w' assume "u \<notin> L" and run: "tombstone_user u w = Inr (a, w')"
  let ?f = "\<lambda>x. x\<lparr>usr_email := deletedEmail u, usr_password_hash := ERASED_PASSWORD_HASH, usr_verified_at := None\<rparr>"
  from run have w': "w' = set_users (\<lambda>_. sql_update (\<lambda>x. usr_id x = u) ?f (ad_users w)) w"
    by (auto simp: tombstone_user_def Let_def split: if_splits)
  have row: "user_row v w' = map_option (\<lambda>x. if usr_id x = u then ?f x else x) (user_row v w)" for v
    unfolding user_row_def w' set_users_sel by (rule find_row_update) simp
  have "users_persist L w w'"
    unfolding users_persist_def row using \<open>u \<notin> L\<close>
    by (auto simp: user_row_def dest: find_row_Some)
  then show "auth_evolves H L w w'" unfolding w' by (rule evolves_users) simp_all
qed

lemma ev_erase:
  assumes gap0: "\<And>w. auth_evolves H L w (gap 0 w)" and gap: "\<And>k w. 0 < k \<Longrightarrow> auth_evolves H (insert u L) w (gap k w)"
    and "u \<notin> L"
  shows "moves (auth_evolves H L) (eraseAccountData gap u now)"
proof -
  have gaps: "auth_evolves H L w (gap k w)" for k w
    using gap0 gap [of k w] by (cases k) (auto intro: auth_evolves_unlock)
  show ?thesis
    unfolding eraseAccountData_def erase_content_def erase_settings_def erase_credentials_def
    by (intro ev_statements ev_after_gap gaps ev_store_updates ev_update_table ev_side_tables ev_credential_tables
        ev_tombstone \<open>u \<notin> L\<close>)
qed

text \<open>What is left of an erased account's credentials.\<close>

definition shut_out :: "uid \<Rightarrow> auth_db \<Rightarrow> bool" where
  "shut_out u w \<longleftrightarrow> (\<forall>x \<in> set (ad_logins w). us_user x \<noteq> u) \<and>
     (\<forall>x \<in> set (ad_keys w). ak_user x = u \<longrightarrow> ak_revoked x \<noteq> None) \<and>
     (\<forall>x \<in> set (ad_tokens w). ot_user x = u \<longrightarrow> ot_revoked x \<noteq> None) \<and>
     (\<forall>x \<in> set (ad_codes w). oc_user x \<noteq> u) \<and> (\<forall>x \<in> set (ad_resets w). rt_user x \<noteq> u)"

lemma rows_from_keep:
  "rows_from fresh stp xs ys \<Longrightarrow> (\<And>x y. stp x y \<Longrightarrow> p x \<Longrightarrow> p y) \<Longrightarrow> (\<And>y. fresh y \<Longrightarrow> p y) \<Longrightarrow>
   \<forall>x \<in> set xs. p x \<Longrightarrow> \<forall>y \<in> set ys. p y"
  unfolding rows_from_def by metis

lemma barred_keeps:
  assumes "auth_evolves H L w w'" and "u \<in> barred L w"
  shows "\<forall>x \<in> set (ad_logins w). us_user x \<noteq> u \<Longrightarrow> \<forall>x \<in> set (ad_logins w'). us_user x \<noteq> u"
    and "\<forall>x \<in> set (ad_keys w). ak_user x = u \<longrightarrow> ak_revoked x \<noteq> None \<Longrightarrow>
      \<forall>x \<in> set (ad_keys w'). ak_user x = u \<longrightarrow> ak_revoked x \<noteq> None"
    and "\<forall>x \<in> set (ad_tokens w). ot_user x = u \<longrightarrow> ot_revoked x \<noteq> None \<Longrightarrow>
      \<forall>x \<in> set (ad_tokens w'). ot_user x = u \<longrightarrow> ot_revoked x \<noteq> None"
    and "\<forall>x \<in> set (ad_codes w). oc_user x \<noteq> u \<Longrightarrow> \<forall>x \<in> set (ad_codes w'). oc_user x \<noteq> u"
    and "\<forall>x \<in> set (ad_resets w). rt_user x \<noteq> u \<Longrightarrow> \<forall>x \<in> set (ad_resets w'). rt_user x \<noteq> u"
proof -
  note e = auth_evolvesD [OF assms(1)]
  show "\<forall>x \<in> set (ad_logins w). us_user x \<noteq> u \<Longrightarrow> \<forall>x \<in> set (ad_logins w'). us_user x \<noteq> u"
    by (rule rows_from_keep [OF e(2)]) (use assms(2) in auto)
  show "\<forall>x \<in> set (ad_keys w). ak_user x = u \<longrightarrow> ak_revoked x \<noteq> None \<Longrightarrow>
      \<forall>x \<in> set (ad_keys w'). ak_user x = u \<longrightarrow> ak_revoked x \<noteq> None"
    by (rule rows_from_keep [OF e(3)]) (use assms(2) in \<open>auto simp: key_step_def\<close>)
  show "\<forall>x \<in> set (ad_tokens w). ot_user x = u \<longrightarrow> ot_revoked x \<noteq> None \<Longrightarrow>
      \<forall>x \<in> set (ad_tokens w'). ot_user x = u \<longrightarrow> ot_revoked x \<noteq> None"
    by (rule rows_from_keep [OF e(6)]) (use assms(2) in \<open>auto simp: token_step_def resolved_of_def\<close>)
  show "\<forall>x \<in> set (ad_codes w). oc_user x \<noteq> u \<Longrightarrow> \<forall>x \<in> set (ad_codes w'). oc_user x \<noteq> u"
    by (rule rows_from_keep [OF e(5)]) (use assms(2) in \<open>auto dest: code_step_user\<close>)
  show "\<forall>x \<in> set (ad_resets w). rt_user x \<noteq> u \<Longrightarrow> \<forall>x \<in> set (ad_resets w'). rt_user x \<noteq> u"
    by (rule rows_from_keep [OF e(4)]) (use assms(2) in \<open>auto simp: reset_step_def\<close>)
qed

lemma barred_stays: "auth_evolves H L w w' \<Longrightarrow> u \<in> barred L w \<Longrightarrow> u \<in> barred L w'"
  using barred_mono auth_evolvesD(1) by blast

lemma shut_out_stays: "auth_evolves H L w w' \<Longrightarrow> u \<in> barred L w \<Longrightarrow> shut_out u w \<Longrightarrow> shut_out u w'"
  unfolding shut_out_def by (elim conjE, intro conjI) (erule barred_keeps, assumption, assumption)+

text \<open>The erasure's last statements, one fact per table.\<close>

lemma locked_barred: "u \<in> barred (insert u L) w"
  by (simp add: barred_def)

lemma after_gap_run:
  "after_gap g (delete_table tab put p) f w = f (length (filter p (tab (g w)))) (put (filter (\<lambda>r. \<not> p r)) (g w))"
  "after_gap g (update_table tab' put' q h) f' w = f' (length (filter q (tab' (g w)))) (put' (sql_update q h) (g w))"
  by (simp_all add: after_gap_def delete_table_def update_table_def bind_tx_def wait_for_def)

lemma after_gap_Inr: "after_gap g m f w = Inr r \<longleftrightarrow> (\<exists>a v. m (g w) = Inr (a, v) \<and> f a v = Inr r)"
  by (cases r) (auto simp: after_gap_def tx_Inr)

lemma closed_rows:
  assumes "\<And>x. g (f x) \<noteq> None"
  shows "\<forall>x \<in> set (sql_update (\<lambda>x. p x \<and> g x = None) f xs). p x \<longrightarrow> g x \<noteq> None"
  using assms by (auto simp: set_sql_update)

lemma erase_credentials_shuts_out:
  assumes run: "erase_credentials gap u now r w = Inr (r', w')"
    and gap: "\<And>k w. 0 < k \<Longrightarrow> auth_evolves H (insert u L) w (gap k w)"
  shows "shut_out u w'"
proof -
  let ?R = "auth_evolves H (insert u L)"
  obtain w1 where w1: "w1 = ad_logins_update (filter (\<lambda>x. us_user x \<noteq> u)) (gap 12 w)" by simp
  obtain w2 where w2: "w2 = ad_keys_update (sql_update (\<lambda>x. ak_user x = u \<and> ak_revoked x = None)
    (\<lambda>x. x\<lparr>ak_revoked := Some now\<rparr>)) (gap 13 w1)" by simp
  obtain w3 where w3: "w3 = ad_tokens_update (sql_update (\<lambda>x. ot_user x = u \<and> ot_revoked x = None)
    (\<lambda>x. x\<lparr>ot_revoked := Some now\<rparr>)) (gap 14 w2)" by simp
  obtain w4 where w4: "w4 = ad_codes_update (filter (\<lambda>x. oc_user x \<noteq> u)) (gap 15 w3)" by simp
  obtain w5 where w5: "w5 = ad_resets_update (filter (\<lambda>x. rt_user x \<noteq> u)) (gap 16 w4)" by simp
  have w6: "w' = ad_verifications_update (filter (\<lambda>x. vt_user x \<noteq> u)) (gap 17 w5)"
    using run unfolding erase_credentials_def after_gap_run ret_Inr w1 w2 w3 w4 w5 by (elim conjE) (erule sym)
  have k2: "ad_keys w2 = sql_update (\<lambda>x. ak_user x = u \<and> ak_revoked x = None)
    (\<lambda>x. x\<lparr>ak_revoked := Some now\<rparr>) (ad_keys (gap 13 w1))" by (simp add: w2)
  have t3: "ad_tokens w3 = sql_update (\<lambda>x. ot_user x = u \<and> ot_revoked x = None)
    (\<lambda>x. x\<lparr>ot_revoked := Some now\<rparr>) (ad_tokens (gap 14 w2))" by (simp add: w3)
  have r5: "?R w5 w'" unfolding w6 by (rule auth.R_trans [OF gap ev_side_tables(7)]) simp
  have "?R w4 w5" unfolding w5 by (rule auth.R_trans [OF gap ev_credential_tables(5)]) simp
  then have r4: "?R w4 w'" using r5 by (rule auth.R_trans)
  have "?R w3 w4" unfolding w4 by (rule auth.R_trans [OF gap ev_credential_tables(4)]) simp
  then have r3: "?R w3 w'" using r4 by (rule auth.R_trans)
  have "?R w2 w3" unfolding w3 by (rule auth.R_trans [OF gap ev_credential_tables(3)]) simp
  then have r2: "?R w2 w'" using r3 by (rule auth.R_trans)
  have "?R w1 w2" unfolding w2 by (rule auth.R_trans [OF gap ev_credential_tables(2)]) simp
  then have r1: "?R w1 w'" using r2 by (rule auth.R_trans)
  show ?thesis
    unfolding shut_out_def
  proof (intro conjI)
    show "\<forall>x \<in> set (ad_logins w'). us_user x \<noteq> u"
      by (rule barred_keeps(1) [OF r1 locked_barred]) (simp add: w1)
    show "\<forall>x \<in> set (ad_keys w'). ak_user x = u \<longrightarrow> ak_revoked x \<noteq> None"
      by (rule barred_keeps(2) [OF r2 locked_barred]) (unfold k2, rule closed_rows, simp)
    show "\<forall>x \<in> set (ad_tokens w'). ot_user x = u \<longrightarrow> ot_revoked x \<noteq> None"
      by (rule barred_keeps(3) [OF r3 locked_barred]) (unfold t3, rule closed_rows, simp)
    show "\<forall>x \<in> set (ad_codes w'). oc_user x \<noteq> u"
      by (rule barred_keeps(4) [OF r4 locked_barred]) (simp add: w4)
    show "\<forall>x \<in> set (ad_resets w'). rt_user x \<noteq> u"
      by (rule barred_keeps(5) [OF r5 locked_barred]) (simp add: w5)
  qed
qed

text \<open>The whole erasure: the account is marked, and shut out.\<close>

lemma erase_shuts_out:
  assumes run: "eraseAccountData gap u now w = Inr (Some r, w')" and "\<not> er_already r"
    and gap0: "\<And>w. auth_evolves H L w (gap 0 w)" and gap: "\<And>k w. 0 < k \<Longrightarrow> auth_evolves H (insert u L) w (gap k w)"
  shows "shut_out u w' \<and> erased_account u w'"
proof -
  let ?R = "auth_evolves H (insert u L)"
  from run \<open>\<not> er_already r\<close> obtain x a v1 v2 r' v3 v4 b where
    row: "user_row u (gap 1 (gap 0 w)) = Some x" and
    v1: "erase_content gap u (sql_of_date now) (gap 1 (gap 0 w)) = Inr (a, v1)" and
    v2: "erase_settings gap u (sql_of_date now) v1 = Inr ((), v2)" and
    v3: "erase_credentials gap u (sql_of_date now) a v2 = Inr (r', v3)" and
    v4: "v4 = gap 18 v3" and w': "tombstone_user u v4 = Inr (b, w')"
    unfolding eraseAccountData_def
    by (auto simp: tx_Inr after_gap_Inr EMPTY_ERASURE_def split: if_splits)
  have gaps: "?R z (gap k z)" if "0 < k" for k z using gap [OF that] .
  have c: "?R (gap 1 (gap 0 w)) v1"
    using v1 unfolding erase_content_def
    by (rule withinD [rotated]) (intro ev_statements ev_after_gap gaps ev_store_updates ev_update_table ev_side_tables; simp)
  have s: "?R v1 v2"
    using v2 unfolding erase_settings_def
    by (rule withinD [rotated]) (intro ev_statements ev_after_gap gaps ev_store_updates ev_update_table ev_side_tables; simp)
  have d: "?R v2 v3"
    using v3 unfolding erase_credentials_def
    by (rule withinD [rotated]) (intro ev_statements ev_after_gap gaps ev_update_table ev_side_tables ev_credential_tables; simp)
  have "?R (gap 1 (gap 0 w)) v4"
    unfolding v4 by (intro auth.R_trans [OF c] auth.R_trans [OF s] auth.R_trans [OF d] gaps) simp
  then obtain x' where x': "user_row u v4 = Some x'"
    using row unfolding auth_evolves_def users_persist_def by blast
  have "shut_out u v3" by (rule erase_credentials_shuts_out [OF v3 gap])
  then have "shut_out u v4" unfolding v4 by (intro shut_out_stays [OF gaps locked_barred]) simp_all
  moreover have "w' = set_users (\<lambda>_. sql_update (\<lambda>x. usr_id x = u) (\<lambda>x. x\<lparr>usr_email := deletedEmail u,
      usr_password_hash := ERASED_PASSWORD_HASH, usr_verified_at := None\<rparr>) (ad_users v4)) v4"
    using w' by (auto simp: tombstone_user_def Let_def split: if_splits)
  moreover from x' have "usr_id x' = u" by (auto simp: user_row_def dest: find_row_Some)
  ultimately show ?thesis
    using x' by (auto simp: shut_out_def erased_account_def user_row_def find_row_update)
qed

section \<open>All operations together\<close>

text \<open>
  \<open>cred H us L w w'\<close>: one operation, committed or rolled back, while others hold the lifecycle locks of
  \<open>L\<close>; \<open>creds\<close>: any sequence of them. \<open>H\<close> bounds the codes and tokens that the run mints, \<open>us\<close> the
  tenants whose memories it writes.
\<close>

inductive cred :: "string set \<Rightarrow> uid set \<Rightarrow> uid set \<Rightarrow> auth_db \<Rightarrow> auth_db \<Rightarrow> bool"
  and creds :: "string set \<Rightarrow> uid set \<Rightarrow> uid set \<Rightarrow> auth_db \<Rightarrow> auth_db \<Rightarrow> bool"
  for H :: "string set" and us :: "uid set" where
  creds_done: "creds H us L w w"
| creds_step: "cred H us L w v \<Longrightarrow> creds H us L v z \<Longrightarrow> creds H us L w z"
| cred_store: "ops us (ad_store w) s \<Longrightarrow> cred H us L w (w\<lparr>ad_store := s\<rparr>)"
| cred_login: "u \<notin> L \<Longrightarrow> (\<And>w. creds H us L w (g w)) \<Longrightarrow> cred H us L w (snd (run_tx (insertSession g t u h e) w))"
| cred_logout: "cred H us L w (snd (run_tx (deleteOtherSessions u keep) w))"
| cred_rotate_password: "(\<And>w. creds H us L w (g w)) \<Longrightarrow>
    cred H us L w (snd (run_tx (rotatePasswordAndRevokeOthers g t u old new keep) w))"
| cred_key: "u \<notin> L \<Longrightarrow> (\<And>w. creds H us L w (g w)) \<Longrightarrow> cred H us L w (snd (run_tx (insertApiKey g t u n h p) w))"
| cred_revoke_key: "cred H us L w (snd (run_tx (revokeApiKey t u i) w))"
| cred_touch_key: "cred H us L w (snd (run_tx (touchApiKeyLastUsed t u h) w))"
| cred_request_reset: "u \<notin> L \<Longrightarrow> (\<And>w. creds H us L w (g w)) \<Longrightarrow>
    cred H us L w (snd (run_tx (insertPasswordResetToken g t u h e) w))"
| cred_consume_reset: "cred H us L w (snd (run_tx (consumePasswordResetToken t h) w))"
| cred_reset: "(\<And>w. creds H us L w (g w)) \<Longrightarrow> cred H us L w (snd (run_tx (resetPasswordAtomic g t h new) w))"
| cred_user: "cred H us L w (snd (run_tx (insertUser email h verified) w))"
| cred_password: "cred H us L w (snd (run_tx (updateUserPassword u old new) w))"
| cred_request_verification: "u \<notin> L \<Longrightarrow> (\<And>w. creds H us L w (g w)) \<Longrightarrow>
    cred H us L w (snd (run_tx (insertEmailVerificationToken g t u n) w))"
| cred_verify: "(\<And>w. creds H us L w (g w)) \<Longrightarrow> cred H us L w (snd (run_tx (verifyEmailTokenAtomic g t h p) w))"
| cred_resend: "(\<And>w. creds H us L w (g w)) \<Longrightarrow> cred H us L w (snd (run_tx (replaceEmailVerificationTokens g t u n) w))"
| cred_signup: "cred H us L w (snd (run_tx (insertUnverifiedUserWithEmailVerificationToken t email h n) w))"
| cred_retry_signup: "(\<And>w. creds H us L w (g w)) \<Longrightarrow>
    cred H us L w (snd (run_tx (retryUnverifiedSignupWithEmailVerificationToken g t u old new n) w))"
| cred_authorize: "u \<notin> L \<Longrightarrow> nc_hash c \<in> H \<Longrightarrow> (\<And>w. creds H us L w (g w)) \<Longrightarrow>
    cred H us L w (snd (run_tx (insertOauthCode g t u c) w))"
| cred_consume_code: "cred H us L w (snd (run_tx (consumeOauthCode t h) w))"
| cred_issue: "u \<notin> L \<Longrightarrow> nt_hash access \<in> H \<Longrightarrow> (\<And>r. refresh = Some r \<Longrightarrow> nt_hash r \<in> H) \<Longrightarrow>
    (\<And>w. creds H us L w (g w)) \<Longrightarrow> (\<And>w. creds H us (insert u L) w (g2 w)) \<Longrightarrow>
    cred H us L w (snd (run_tx (insertOauthTokenPair g g2 collate t u access refresh cap) w))"
| cred_refresh: "u \<notin> L \<Longrightarrow> nt_hash access \<in> H \<Longrightarrow> nt_hash refresh' \<in> H \<Longrightarrow>
    (\<And>w. creds H us L w (g w)) \<Longrightarrow> (\<And>w. creds H us (insert u L) w (g2 w)) \<Longrightarrow>
    cred H us L w (snd (run_tx (rotateOauthRefreshToken g g2 collate t u h access refresh' cap) w))"
| cred_register: "cred H us L w (snd (run_tx (registerClient t c) w))"
| cred_materialize: "cred H us L w (snd (run_tx (materializeClientMetadata t d) w))"
| cred_touch_client: "cred H us L w (snd (run_tx (updateLastUsedAt t c) w))"
| cred_disconnect: "(\<And>w. creds H us L w (g w)) \<Longrightarrow> (\<And>w. creds H us L w (g2 w)) \<Longrightarrow>
    cred H us L w (snd (run_tx (revokeClientForUser g g2 t u c) w))"
| cred_collect: "(\<And>w. creds H us L w (g w)) \<Longrightarrow> cred H us L w (snd (run_tx (deleteClients g t ids) w))"
| cred_audit: "cred H us L w (snd (run_tx (insertAuditLog entry) w))"
| cred_erase: "u \<notin> L \<Longrightarrow> (\<And>w. creds H us L w (gap 0 w)) \<Longrightarrow>
    (\<And>k w. 0 < k \<Longrightarrow> creds H us (insert u L) w (gap k w)) \<Longrightarrow>
    cred H us L w (snd (run_tx (eraseAccountData gap u now) w))"

lemma creds_evolve:
  shows "cred H us L w w' \<Longrightarrow> auth_evolves H L w w'" and "creds H us L w w' \<Longrightarrow> auth_evolves H L w w'"
proof (induction rule: cred_creds.inducts)
  case (cred_store w s L)
  then show ?case by (auto intro!: evolves_frame simp: ad_users_def dest: ops_keep_users)
next
  case (cred_logout L w u keep)
  then show ?case unfolding deleteOtherSessions_def by (intro auth.run_within ev_pure ev_close_rows)
next
  case (cred_revoke_key L w t u i)
  then show ?case unfolding revokeApiKey_def by (intro auth.run_within ev_statements ev_update_keys step_stamps)
next
  case (cred_touch_key L w t u h)
  then show ?case unfolding touchApiKeyLastUsed_def by (intro auth.run_within ev_statements ev_update_keys step_stamps)
next
  case (cred_consume_reset L w t h)
  then show ?case unfolding consumePasswordResetToken_def by (intro auth.run_within ev_statements ev_pure ev_close_rows)
next
  case (cred_user L w email h verified)
  then show ?case unfolding insertUser_def by (intro auth.run_within ev_statements)
next
  case (cred_password L w u old new)
  then show ?case unfolding updateUserPassword_def Let_def by (intro auth.run_within ev_pure ev_passwords)
next
  case (cred_signup L w t email h n)
  then show ?case
    unfolding insertUnverifiedUserWithEmailVerificationToken_def auth_create_unverified_signup_def
    by (intro auth.run_within ev_statements)
next
  case (cred_consume_code L w t h)
  then show ?case unfolding consumeOauthCode_def by (intro auth.run_within ev_statements)
next
  case (cred_materialize L w t d)
  then show ?case unfolding materializeClientMetadata_def by (intro auth.run_within ev_statements)
next
  case (cred_touch_client L w t c)
  then show ?case unfolding updateLastUsedAt_def by (intro auth.run_within ev_statements)
next
  case (cred_audit L w entry)
  then show ?case unfolding insertAuditLog_def by (intro auth.run_within ev_pure evolves_frame) simp_all
qed (auto simp: resetPasswordAtomic_def verifyEmailTokenAtomic_def replaceEmailVerificationTokens_def
    retryUnverifiedSignupWithEmailVerificationToken_def
    intro!: auth.run_within ev_insertSession ev_insertApiKey ev_insertReset ev_insertVerification ev_insertOauthCode
      ev_rotatePassword ev_resetPassword ev_verifyEmail ev_resend ev_retrySignup ev_issueTokens ev_rotateTokens
      ev_clients ev_revokeClient ev_deleteClients ev_erase auth.R_refl intro: auth.R_trans)

end
