(* ===== verification/AccountTheorems.thy ===== *)
theory AccountTheorems
  imports AccountSafety
begin

text \<open>
  What an erasure does and what no operation can undo: the theorems about accounts, login sessions,
  API keys, authorization codes and tokens, over the runs of \<open>AccountSafety\<close>.
\<close>

section \<open>An erasure is final\<close>

lemma consume_code_row:
  assumes "consumeOauthCode t h w = Inr (Some c, w')"
  shows "\<exists>x \<in> set (ad_codes w). oc_hash x = h \<and> code_live t x \<and> c = grant_of x \<and>
    w' = w\<lparr>ad_codes := sql_update (\<lambda>x. oc_hash x = h \<and> code_live t x) (\<lambda>x. x\<lparr>oc_used := Some t\<rparr>) (ad_codes w)\<rparr>"
proof -
  let ?q = "\<lambda>x. oc_hash x = h \<and> code_live t x"
  from assms obtain x xs where x: "sql_returning ?q (\<lambda>x. x\<lparr>oc_used := Some t\<rparr>) (ad_codes w) = x # xs" and "c = grant_of x"
    and w': "w' = w\<lparr>ad_codes := sql_update ?q (\<lambda>x. x\<lparr>oc_used := Some t\<rparr>) (ad_codes w)\<rparr>"
    by (auto simp: consumeOauthCode_def use_codes_def Let_def tx_Inr)
  moreover obtain y where "y \<in> set (ad_codes w)" "?q y" "x = y\<lparr>oc_used := Some t\<rparr>"
    using x sql_returning_mem [of x ?q "\<lambda>x. x\<lparr>oc_used := Some t\<rparr>" "ad_codes w"] by auto
  ultimately show ?thesis by (intro bexI [of _ y]) (simp_all add: grant_of_def)
qed

lemma shut_out_resolves:
  assumes "shut_out u w" and "erased_account u w"
  shows "(\<forall>t h d. resolveSession t h w \<noteq> Some (u, d)) \<and> (\<forall>h. resolveApiKey h w \<noteq> Some u) \<and>
    (\<forall>t h a. resolveOauthToken t h w = Some a \<longrightarrow> gt_user a \<noteq> u) \<and>
    (\<forall>t h c v. consumeOauthCode t h w = Inr (Some c, v) \<longrightarrow> cg_user c \<noteq> u) \<and>
    (\<forall>t h. peekResetToken t h w \<noteq> Some u) \<and>
    (\<forall>t h e. insertSession (\<lambda>w. w) t u h e w = Inl AccountDeleted)"
proof (intro conjI allI impI)
  show "resolveSession t h w \<noteq> Some (u, d)" for t h d
    using assms(1) by (auto simp: shut_out_def resolveSession_def dest!: find_row_Some)
  show "resolveApiKey h w \<noteq> Some u" for h
    using assms(1) by (auto simp: shut_out_def resolveApiKey_def dest!: find_row_Some)
  show "gt_user a \<noteq> u" if "resolveOauthToken t h w = Some a" for t h a
    using that assms(1) by (auto simp: shut_out_def resolveOauthToken_def resolved_of_def token_live_def dest!: find_row_Some)
  show "cg_user c \<noteq> u" if "consumeOauthCode t h w = Inr (Some c, v)" for t h c v
    using consume_code_row [OF that] assms(1) by (auto simp: shut_out_def grant_of_def)
  show "peekResetToken t h w \<noteq> Some u" for t h
    using assms(1) by (auto simp: shut_out_def peekResetToken_def dest!: find_row_Some)
  have "\<not> user_live u (ad_store w)" using assms(2) live_not_erased by blast
  then show "insertSession (\<lambda>w. w) t u h e w = Inl AccountDeleted" for t h e
    using liveness_read [of u w False w]
    by (simp add: insertSession_def guardCredentialIssuance_def bind_tx_def wait_for_def throw_def)
qed

lemma erased_stays: "auth_evolves H L w w' \<Longrightarrow> erased_account u w \<Longrightarrow> erased_account u w'"
  using auth_evolvesD(1) [of H L w w'] by (fastforce simp: users_persist_def erased_account_def)


section \<open>A code is used once, a rotated token is dead\<close>

lemma used_code_stays:
  assumes "auth_evolves H L w w'" and "h \<notin> H" and "\<forall>x \<in> set (ad_codes w). oc_hash x = h \<longrightarrow> oc_used x \<noteq> None"
  shows "\<forall>x \<in> set (ad_codes w'). oc_hash x = h \<longrightarrow> oc_used x \<noteq> None"
  by (rule rows_from_keep [OF auth_evolvesD(5) [OF assms(1)]]) (use assms in \<open>auto simp: code_step_def\<close>)

lemma revoked_token_stays:
  assumes "auth_evolves H L w w'" and "h \<notin> H" and "\<forall>x \<in> set (ad_tokens w). ot_hash x = h \<longrightarrow> ot_revoked x \<noteq> None"
  shows "\<forall>x \<in> set (ad_tokens w'). ot_hash x = h \<longrightarrow> ot_revoked x \<noteq> None"
  by (rule rows_from_keep [OF auth_evolvesD(6) [OF assms(1)]]) (use assms in \<open>auto simp: token_step_def\<close>)

lemma distinct_key: "distinct (map key xs) \<Longrightarrow> x \<in> set xs \<Longrightarrow> y \<in> set xs \<Longrightarrow> key x = key y \<Longrightarrow> x = y"
  by (auto simp: distinct_map inj_on_def)

text \<open>A stamp on the row of a unique key closes every row of that key.\<close>

lemma stamped_by_key:
  assumes "distinct (map key xs)" and "y \<in> set xs" and "key y = h" and "q y"
    and "\<And>z. key (f z) = key z" and "\<And>z. good (f z)"
  shows "\<forall>x \<in> set (sql_update q f xs). key x = h \<longrightarrow> good x"
proof -
  have "q z" if "z \<in> set xs" "key z = h" for z
    using distinct_key [OF assms(1) that(1) assms(2)] that(2) assms(3,4) by simp
  then show ?thesis using assms(5,6) by (auto simp: set_sql_update)
qed

lemma consume_uses_up:
  assumes "consumeOauthCode t h w = Inr (Some c, w')" and "hashes_ok w"
  shows "\<forall>x \<in> set (ad_codes w'). oc_hash x = h \<longrightarrow> oc_used x \<noteq> None"
proof -
  from consume_code_row [OF assms(1)] obtain y where y: "y \<in> set (ad_codes w)" "oc_hash y = h" "code_live t y"
    and codes: "ad_codes w' = sql_update (\<lambda>x. oc_hash x = h \<and> code_live t x) (\<lambda>x. x\<lparr>oc_used := Some t\<rparr>) (ad_codes w)"
    by fastforce
  show ?thesis
    unfolding codes by (rule stamped_by_key [OF _ y(1)]) (use assms(2) y in \<open>simp_all add: hashes_ok_def\<close>)
qed

text \<open>
  C32. An authorization code is good for one exchange. Of all the consumptions of one code, in any
  interleaving with any other operations, only the first returns its grant, unless the same secret is
  minted again.
\<close>

theorem code_used_once:
  assumes "consumeOauthCode t h w = Inr (Some c, w1)" and "hashes_ok w"
    and "creds H us L w1 w2" and "h \<notin> H"
  shows "consumeOauthCode t' h w2 = Inr (None, w2)"
proof -
  have "\<forall>x \<in> set (ad_codes w2). oc_hash x = h \<longrightarrow> oc_used x \<noteq> None"
    by (rule used_code_stays [OF creds_evolve(2) [OF assms(3)] assms(4) consume_uses_up [OF assms(1,2)]])
  then have none: "\<not> (oc_hash x = h \<and> code_live t' x)" if "x \<in> set (ad_codes w2)" for x
    using that by (auto simp: code_live_def)
  then have "sql_returning (\<lambda>x. oc_hash x = h \<and> code_live t' x) f (ad_codes w2) = []"
    "sql_update (\<lambda>x. oc_hash x = h \<and> code_live t' x) f (ad_codes w2) = ad_codes w2" for f
    by (auto simp: sql_returning_Nil intro!: sql_update_none)
  then show ?thesis
    by (simp add: consumeOauthCode_def use_codes_def Let_def bind_tx_def ret_def)
qed

lemma insert_tokens_new:
  assumes "for_each rows insert_token w = Inr (as, w')"
  shows "\<exists>new. ad_tokens w' = ad_tokens w @ new \<and> set (map ot_hash new) \<inter> set (map ot_hash (ad_tokens w)) = {}"
  using assms
proof (induction rows arbitrary: w as)
  case (Cons row rows)
  then obtain v bs where v: "insert_token row w = Inr ((), v)" and rest: "for_each rows insert_token v = Inr (bs, w')"
    by (auto simp: tx_Inr)
  from Cons.IH [OF rest] v show ?case
    by (auto simp: insert_token_def Let_def split: if_splits)
qed simp

lemma rotate_revokes:
  assumes "rotateOauthRefreshToken g g2 collate t u h access refresh cap w = Inr (True, w')" and "hashes_ok (g2 (g w))"
  shows "\<forall>x \<in> set (ad_tokens w'). ot_hash x = h \<longrightarrow> ot_revoked x \<noteq> None"
proof -
  let ?q = "\<lambda>x. (ot_user x = u \<and> ot_hash x = h \<and> ot_kind x = RefreshToken) \<and> ot_revoked x = None"
  let ?f = "\<lambda>x. x\<lparr>ot_revoked := Some t\<rparr>"
  from assms(1) obtain p ps v as where p: "sql_returning ?q ?f (ad_tokens (g2 (g w))) = p # ps"
    and v: "v = (g2 (g w))\<lparr>ad_tokens := sql_update ?q ?f (ad_tokens (g2 (g w)))\<rparr>"
    and rows: "for_each [token_row t u None access, token_row t u (Some (ot_id p)) refresh] insert_token v = Inr (as, w')"
    by (auto simp: rotateOauthRefreshToken_def revoke_rows_def Let_def assertClientCanRotate_def tx_Inr liveness_read
        simp del: for_each.simps split: option.splits if_splits)
  obtain y where y: "y \<in> set (ad_tokens (g2 (g w)))" "?q y"
    using p sql_returning_mem [of p ?q ?f "ad_tokens (g2 (g w))"] by auto
  have toks: "ad_tokens v = sql_update ?q ?f (ad_tokens (g2 (g w)))" by (simp add: v)
  have old: "\<forall>x \<in> set (ad_tokens v). ot_hash x = h \<longrightarrow> ot_revoked x \<noteq> None"
    unfolding toks by (rule stamped_by_key [OF _ y(1)]) (use assms(2) y in \<open>simp_all add: hashes_ok_def\<close>)
  obtain new where new: "ad_tokens w' = ad_tokens v @ new" "set (map ot_hash new) \<inter> set (map ot_hash (ad_tokens v)) = {}"
    using insert_tokens_new [OF rows] by blast
  have "map ot_hash (ad_tokens v) = map ot_hash (ad_tokens (g2 (g w)))"
    unfolding v by (simp add: sql_update_cong_key)
  then have "h \<in> set (map ot_hash (ad_tokens v))" using y by auto
  with old new show ?thesis by auto
qed

text \<open>
  C33. Refresh tokens rotate once. After a rotation the predecessor never resolves again and no other
  rotation of it succeeds, in any interleaving, unless the same secret is minted again.
\<close>

theorem rotated_token_is_dead:
  assumes "rotateOauthRefreshToken g g2 collate t u h access refresh cap w = Inr (True, w1)" and "hashes_ok w"
    and "\<And>w. creds H us L w (g w)" and "\<And>w. creds H us (insert u L) w (g2 w)"
    and "creds H us L' w1 w2" and "h \<notin> H"
  shows "resolveOauthToken t' h w2 = None \<and>
    (\<forall>t' u' a r cap' w3. rotateOauthRefreshToken (\<lambda>w. w) (\<lambda>w. w) collate t' u' h a r cap' w2 \<noteq> Inr (True, w3))"
proof -
  have "hashes_ok (g2 (g w))"
    using assms(2) auth_evolvesD(7) [OF creds_evolve(2) [OF assms(3)]] auth_evolvesD(7) [OF creds_evolve(2) [OF assms(4)]]
    by blast
  then have dead: "\<forall>x \<in> set (ad_tokens w2). ot_hash x = h \<longrightarrow> ot_revoked x \<noteq> None"
    by (intro revoked_token_stays [OF creds_evolve(2) [OF assms(5)] assms(6)] rotate_revokes [OF assms(1)])
  then have "resolveOauthToken t' h w2 = None"
    by (auto simp: resolveOauthToken_def find_row_None token_live_def)
  moreover have "sql_returning (\<lambda>x. (ot_user x = u' \<and> ot_hash x = h \<and> ot_kind x = RefreshToken) \<and> ot_revoked x = None) f
      (ad_tokens w2) = []" for u' f
    using dead by (auto simp: sql_returning_Nil)
  ultimately show ?thesis
    by (auto simp: rotateOauthRefreshToken_def revoke_rows_def Let_def assertClientCanRotate_def tx_Inr liveness_read
        simp del: for_each.simps split: option.splits if_splits)
qed

end
