(* ===== verification/OAuthProvider.thy ===== *)
theory OAuthProvider
  imports AccountErasure
begin

text \<open>
  The authorization server's policy: \<open>packages/core/src/auth/oauth-provider.ts\<close>, scopes and token
  verification (\<open>oauth.ts\<close>), client resolution and authentication (\<open>oauth-clients.ts\<close>) and the
  collection of idle clients (\<open>admin/gc-clients.ts\<close>).

  What the code takes from elsewhere is in the record \<open>oauth_env\<close>: the hash functions, the JWT
  library, the URL parser, the random generator and the clocks. Between two transactions of a service
  others commit: \<open>oe_lull k\<close> runs before transaction \<open>k\<close>, \<open>oe_gap k\<close> at wait \<open>k\<close> inside one.
\<close>

section \<open>Scopes (oauth.ts)\<close>

definition MEMORY_READ_SCOPE :: string where "MEMORY_READ_SCOPE = ''memory:read''"
definition MEMORY_WRITE_SCOPE :: string where "MEMORY_WRITE_SCOPE = ''memory:write''"

text \<open>The white space of \<open>\s\<close> among the characters below 256.\<close>

definition js_space :: "char \<Rightarrow> bool" where
  "js_space c \<longleftrightarrow> of_char c \<in> {9, 10, 11, 12, 13, 32, 160 :: nat}"

text \<open>\<open>scope.split(/\s+/)\<close> without its empty pieces; \<open>acc\<close> is the piece read so far.\<close>

fun pieces :: "string \<Rightarrow> string \<Rightarrow> string list" where
  "pieces acc [] = (if acc = [] then [] else [acc])"
| "pieces acc (c # cs) =
     (if js_space c then (if acc = [] then pieces [] cs else acc # pieces [] cs) else pieces (acc @ [c]) cs)"

definition parseScopes :: "string option \<Rightarrow> string list" where
  "parseScopes s = (case s of None \<Rightarrow> [] | Some x \<Rightarrow> remdups (pieces [] x))"

text \<open>\<open>xs.join(' ')\<close>.\<close>

fun join_space :: "string list \<Rightarrow> string" where
  "join_space [] = []"
| "join_space [x] = x"
| "join_space (x # y # zs) = x @ CHR 0x20 # join_space (y # zs)"

definition DEFAULT_SCOPE :: string where
  "DEFAULT_SCOPE = MEMORY_READ_SCOPE @ CHR 0x20 # MEMORY_WRITE_SCOPE"

text \<open>All trailing slashes go.\<close>

definition normalizeIssuer :: "string \<Rightarrow> string" where
  "normalizeIssuer s = rev (dropWhile (\<lambda>c. c = CHR ''/'') (rev s))"

definition rotateKeyArray :: "'k \<Rightarrow> 'k list \<Rightarrow> 'k list" where
  "rotateKeyArray new existing = new # existing"

section \<open>The environment\<close>

record parsed_url =
  url_protocol :: string
  url_hostname :: string
  url_username :: string
  url_password :: string

record oauth_env =
  oe_sha :: "string \<Rightarrow> string"
  oe_s256 :: "string \<Rightarrow> string"
  oe_sign :: "uid \<Rightarrow> string \<Rightarrow> jsdate \<Rightarrow> err + string"
  oe_jwt :: "string \<Rightarrow> string option option"
  oe_issuer :: string
  oe_resource :: string
  oe_url :: "string \<Rightarrow> parsed_url option"
  oe_random :: string
  oe_now :: jsdate
  oe_tx_now :: "nat \<Rightarrow> instant"
  oe_limits :: "uid \<Rightarrow> err + nat option"
  oe_collate :: "string \<Rightarrow> nat"
  oe_gap :: "nat \<Rightarrow> auth_db \<Rightarrow> auth_db"
  oe_lull :: "nat \<Rightarrow> auth_db \<Rightarrow> auth_db"

definition transact :: "oauth_env \<Rightarrow> nat \<Rightarrow> (instant \<Rightarrow> 'a auth_tx) \<Rightarrow> ('a, auth_db) svc" where
  "transact env k m = (\<lambda>w. run_tx (m (oe_tx_now env k)) (oe_lull env k w))"

definition observe :: "oauth_env \<Rightarrow> nat \<Rightarrow> (instant \<Rightarrow> auth_db \<Rightarrow> 'a) \<Rightarrow> ('a, auth_db) svc" where
  "observe env k f = transact env k (\<lambda>t. query (f t))"

definition ACCESS_TOKEN_TTL_SECONDS :: int where "ACCESS_TOKEN_TTL_SECONDS = 3600"
definition REFRESH_TOKEN_TTL_SECONDS :: int where "REFRESH_TOKEN_TTL_SECONDS = 30 * 24 * 3600"
definition CODE_TTL_MS :: int where "CODE_TTL_MS = 60000"

section \<open>Clients (oauth-clients.ts)\<close>

record client_information =
  ci_id :: string
  ci_issued_at :: "int option"
  ci_name :: string
  ci_redirects :: "string list"
  ci_method :: auth_method
  ci_grants :: "string list"
  ci_responses :: "string list"
  ci_secret :: "string option"

definition GRANT_TYPES :: "string list" where "GRANT_TYPES = [''authorization_code'', ''refresh_token'']"
definition RESPONSE_TYPES :: "string list" where "RESPONSE_TYPES = [''code'']"

definition toClientInformation :: "oauth_client \<Rightarrow> client_information" where
  "toClientInformation x = \<lparr>ci_id = cli_id x, ci_issued_at = Some (date_of_sql (cli_created x) div 1000),
     ci_name = cli_name x, ci_redirects = cli_redirects x, ci_method = cli_method x, ci_grants = GRANT_TYPES,
     ci_responses = RESPONSE_TYPES, ci_secret = None\<rparr>"

definition metadataToClientInformation :: "metadata_document \<Rightarrow> client_information" where
  "metadataToClientInformation d = \<lparr>ci_id = md_client d, ci_issued_at = None, ci_name = md_name d,
     ci_redirects = md_redirects d, ci_method = MethodNone, ci_grants = md_grants d, ci_responses = md_responses d,
     ci_secret = None\<rparr>"

definition defaultClientName :: "oauth_env \<Rightarrow> string list \<Rightarrow> err + string" where
  "defaultClientName env uris = (case uris of [] \<Rightarrow> Inr ''unnamed-client''
     | u # _ \<Rightarrow> (case oe_url env u of None \<Rightarrow> Inl InvalidUrl | Some p \<Rightarrow> Inr (url_hostname p)))"

record registration_input =
  ri_name :: "string option"
  ri_redirects :: "string list"
  ri_method :: auth_method

text \<open>\<open>cid\<close>: the random client id; the secret is \<open>oe_random\<close>.\<close>

definition registerOAuthClient :: "oauth_env \<Rightarrow> string \<Rightarrow> registration_input \<Rightarrow> (client_information, auth_db) svc" where
  "registerOAuthClient env cid inp =
     (let secret = (if ri_method inp \<noteq> MethodNone then Some (oe_random env) else None) in
      and_then (of_sum (case ri_name inp of Some n \<Rightarrow> Inr n | None \<Rightarrow> defaultClientName env (ri_redirects inp))) (\<lambda>name.
      and_then (transact env 0 (\<lambda>t. registerClient t \<lparr>cli_id = cid, cli_name = name,
          cli_redirects = ri_redirects inp, cli_method = ri_method inp, cli_secret = map_option (oe_sha env) secret,
          cli_registration = DynamicRegistration, cli_created = t, cli_last_used = None\<rparr>)) (\<lambda>row.
      done_with ((toClientInformation row)\<lparr>ci_secret := secret\<rparr>))))"

definition dynamic_row :: "oauth_client option \<Rightarrow> oauth_client option" where
  "dynamic_row row = (case row of None \<Rightarrow> None
     | Some x \<Rightarrow> if cli_registration x = DynamicRegistration then Some x else None)"

definition getClient :: "oauth_env \<Rightarrow> string \<Rightarrow> (client_information option, auth_db) svc" where
  "getClient env c = and_then (observe env 0 (\<lambda>_. getClientByClientId c))
     (\<lambda>row. done_with (map_option toClientInformation (dynamic_row row)))"

datatype resolution_failure = NotRegistered | MetadataFailure string | MetadataNotMaterialized

datatype metadata_result = Fetched metadata_document | FetchFailed string | FetchThrew err

text \<open>
  \<open>metadata_url\<close> and \<open>resolve\<close>: the schema's URL test and the metadata resolver. The second component
  is what \<open>onFailure\<close> receives.
\<close>

definition resolveOAuthClient ::
  "oauth_env \<Rightarrow> (string \<Rightarrow> bool) \<Rightarrow> (string \<Rightarrow> metadata_result) \<Rightarrow> string \<Rightarrow>
   (client_information option \<times> resolution_failure option, auth_db) svc" where
  "resolveOAuthClient env metadata_url resolve c =
     and_then (observe env 0 (\<lambda>_. getClientByClientId c)) (\<lambda>row. case dynamic_row row of
       Some x \<Rightarrow> done_with (Some (toClientInformation x), None)
     | None \<Rightarrow>
         if \<not> metadata_url c then done_with (None, Some NotRegistered)
         else (case resolve c of
             FetchFailed reason \<Rightarrow> done_with (None, Some (MetadataFailure reason))
           | FetchThrew e \<Rightarrow> fail_with e
           | Fetched d \<Rightarrow>
               and_then (transact env 1 (\<lambda>t. materializeClientMetadata t d)) (\<lambda>m.
               if m = None then done_with (None, Some MetadataNotMaterialized)
               else done_with (Some (metadataToClientInformation d), None))))"

text \<open>\<open>resolver\<close>: absent when the caller passes none; its first component is the schema's URL test.\<close>

definition authenticateClientCredentials ::
  "oauth_env \<Rightarrow> string \<Rightarrow> string option \<Rightarrow> auth_method option \<Rightarrow>
   ((string \<Rightarrow> bool) \<times> (string \<Rightarrow> metadata_result)) option \<Rightarrow> (client_information option, auth_db) svc" where
  "authenticateClientCredentials env c secret presented resolver =
     and_then (observe env 2 (\<lambda>_. getClientByClientId c)) (\<lambda>row. case dynamic_row row of
       None \<Rightarrow> (case resolver of
           None \<Rightarrow> done_with None
         | Some (metadata_url, resolve) \<Rightarrow>
             if secret \<noteq> None \<or> presented \<noteq> None then done_with None
             else and_then (resolveOAuthClient env metadata_url resolve c) (\<lambda>r. done_with (fst r)))
     | Some x \<Rightarrow>
         if cli_method x = MethodNone then done_with (Some (toClientInformation x))
         else if presented \<noteq> None \<and> presented \<noteq> Some (cli_method x) then done_with None
         else (case (secret, cli_secret x) of
             (Some p, Some stored) \<Rightarrow>
               if oe_sha env p = stored then done_with (Some (toClientInformation x)) else done_with None
           | _ \<Rightarrow> done_with None))"

record authorized_view =
  av_client :: string
  av_name :: string
  av_hosts :: "string list"
  av_authorized_at :: jsdate

text \<open>\<open>host\<close>: the host of a URL that parses. The first occurrence of each stays.\<close>

definition redirectHosts :: "(string \<Rightarrow> string option) \<Rightarrow> string list \<Rightarrow> string list" where
  "redirectHosts host uris = rev (remdups (rev (List.map_filter host uris)))"

definition listAuthorizedClients ::
  "oauth_env \<Rightarrow> (string \<Rightarrow> string option) \<Rightarrow> uid \<Rightarrow> (authorized_view list, auth_db) svc" where
  "listAuthorizedClients env host u = and_then (observe env 0 (\<lambda>t. listClientsAuthorizedByUser t u)) (\<lambda>cs.
     done_with (map (\<lambda>x. \<lparr>av_client = ac_client x, av_name = ac_name x, av_hosts = redirectHosts host (ac_redirects x),
       av_authorized_at = ac_authorized_at x\<rparr>) cs))"

definition revokeAuthorizedClient :: "oauth_env \<Rightarrow> uid \<Rightarrow> string \<Rightarrow> (bool, auth_db) svc" where
  "revokeAuthorizedClient env u c =
     and_then (transact env 0 (\<lambda>t. revokeClientForUser (oe_gap env 0) (oe_gap env 1) t u c)) (\<lambda>n. done_with (0 < n))"

definition touchClientLastUsed :: "oauth_env \<Rightarrow> string \<Rightarrow> (unit, auth_db) svc" where
  "touchClientLastUsed env c = transact env 0 (\<lambda>t. updateLastUsedAt t c)"

section \<open>Redirect URIs (oauth-provider.ts, the character policy of schema/auth.ts)\<close>

definition hasForbiddenUriCharacter :: "string \<Rightarrow> bool" where
  "hasForbiddenUriCharacter s \<longleftrightarrow> (\<exists>c \<in> set s. of_char c < (33 :: nat) \<or> 126 < (of_char c :: nat)
     \<or> c \<in> {CHR 0x22, CHR ''<'', CHR ''>'', CHR 0x5C, CHR ''^'', CHR 0x60, CHR ''{'', CHR 0x7C, CHR ''}''})"

definition LOOPBACK_HOSTNAMES :: "string list" where
  "LOOPBACK_HOSTNAMES = [''localhost'', ''127.0.0.1'', ''[::1]'']"

text \<open>What follows the first \<open>://\<close>.\<close>

fun after_authority_mark :: "string \<Rightarrow> string option" where
  "after_authority_mark (a # b # c # cs) =
     (if [a, b, c] = ''://'' then Some cs else after_authority_mark (b # c # cs))"
| "after_authority_mark _ = None"

definition raw_tail :: "string \<Rightarrow> string" where
  "raw_tail s = dropWhile (\<lambda>c. c \<noteq> CHR ''/'' \<and> c \<noteq> CHR 0x3F) s"

definition loopbackPortInsensitiveKey :: "(string \<Rightarrow> parsed_url option) \<Rightarrow> string \<Rightarrow> string option" where
  "loopbackPortInsensitiveKey parse uri =
     (if CHR ''#'' \<in> set uri then None
      else case after_authority_mark uri of
        None \<Rightarrow> None
      | Some rest \<Rightarrow> (case parse uri of
          None \<Rightarrow> None
        | Some p \<Rightarrow>
            if url_protocol p \<noteq> ''http:'' then None
            else if url_hostname p \<notin> set LOOPBACK_HOSTNAMES then None
            else if url_username p \<noteq> [] \<or> url_password p \<noteq> [] then None
            else (let tail = raw_tail rest in
              Some (url_hostname p @ (case tail of [] \<Rightarrow> ''/'' | c # cs \<Rightarrow> if c = CHR ''/'' then tail else CHR ''/'' # tail)))))"

definition matchesLoopbackIgnoringPort :: "(string \<Rightarrow> parsed_url option) \<Rightarrow> string \<Rightarrow> string \<Rightarrow> bool" where
  "matchesLoopbackIgnoringPort parse registered requested \<longleftrightarrow>
     \<not> hasForbiddenUriCharacter registered \<and> \<not> hasForbiddenUriCharacter requested \<and>
     loopbackPortInsensitiveKey parse registered \<noteq> None \<and>
     loopbackPortInsensitiveKey parse registered = loopbackPortInsensitiveKey parse requested"

definition resolveRegisteredRedirectUri ::
  "(string \<Rightarrow> parsed_url option) \<Rightarrow> string list \<Rightarrow> string option \<Rightarrow> string option" where
  "resolveRegisteredRedirectUri parse uris requested = (case requested of
     None \<Rightarrow> (case uris of [u] \<Rightarrow> Some u | _ \<Rightarrow> None)
   | Some r \<Rightarrow> if r \<in> set uris then Some r
       else if \<exists>u \<in> set uris. matchesLoopbackIgnoringPort parse u r then Some r else None)"

section \<open>Grants (oauth-provider.ts)\<close>

record token_response =
  tr_access :: string
  tr_expires_in :: int
  tr_scope :: string
  tr_refresh :: "string option"

definition pkceChallengeMatches :: "oauth_env \<Rightarrow> string \<Rightarrow> string \<Rightarrow> bool" where
  "pkceChallengeMatches env verifier challenge \<longleftrightarrow> oe_s256 env verifier = challenge"

text \<open>Both sides are normalized URLs: the asked resource arrives parsed, \<open>oe_resource\<close> is the configured one's \<open>href\<close>.\<close>

definition assertResourceMatches :: "oauth_env \<Rightarrow> string option \<Rightarrow> (unit, auth_db) svc" where
  "assertResourceMatches env resource =
     (if resource = None \<or> resource = Some (oe_resource env) then done_with () else fail_with InvalidTarget)"

definition buildTokenPair ::
  "oauth_env \<Rightarrow> uid \<Rightarrow> client_information \<Rightarrow> string \<Rightarrow>
   (token_response \<times> new_oauth_token \<times> new_oauth_token option, auth_db) svc" where
  "buildTokenPair env u client scope =
     (let until = oe_now env + ACCESS_TOKEN_TTL_SECONDS * 1000 in
      and_then (of_sum (oe_sign env u scope until)) (\<lambda>access.
      let row = \<lparr>nt_hash = oe_sha env access, nt_kind = AccessToken, nt_client = ci_id client, nt_scope = scope, nt_expires = until\<rparr>;
          response = \<lparr>tr_access = access, tr_expires_in = ACCESS_TOKEN_TTL_SECONDS, tr_scope = scope, tr_refresh = None\<rparr> in
      if ''refresh_token'' \<notin> set (ci_grants client) then done_with (response, row, None)
      else done_with (response\<lparr>tr_refresh := Some (oe_random env)\<rparr>, row,
        Some \<lparr>nt_hash = oe_sha env (oe_random env), nt_kind = RefreshToken, nt_client = ci_id client, nt_scope = scope,
          nt_expires = oe_now env + REFRESH_TOKEN_TTL_SECONDS * 1000\<rparr>)))"

record code_grant =
  cd_user :: uid
  cd_challenge :: string
  cd_redirect :: string
  cd_supplied :: bool
  cd_scopes :: "string list option"
  cd_state :: "string option"

text \<open>Returns what the redirect carries: its target, the code and the state. The code is \<open>oe_random\<close>.\<close>

definition authorize :: "oauth_env \<Rightarrow> client_information \<Rightarrow> code_grant \<Rightarrow> (string \<times> string \<times> string option, auth_db) svc" where
  "authorize env client p =
     (let scope = (case cd_scopes p of None \<Rightarrow> DEFAULT_SCOPE | Some ss \<Rightarrow> if ss = [] then DEFAULT_SCOPE else join_space ss) in
      and_then (transact env 0 (\<lambda>t. insertOauthCode (oe_gap env 0) t (cd_user p) \<lparr>nc_hash = oe_sha env (oe_random env),
          nc_client = ci_id client, nc_redirect = cd_redirect p, nc_supplied = cd_supplied p, nc_challenge = cd_challenge p,
          nc_scope = scope, nc_expires = oe_now env + CODE_TTL_MS\<rparr>)) (\<lambda>_.
      done_with (cd_redirect p, oe_random env, cd_state p)))"

definition exchangeAuthorizationCode ::
  "oauth_env \<Rightarrow> client_information \<Rightarrow> string \<Rightarrow> string option \<Rightarrow> string option \<Rightarrow> string option \<Rightarrow> (token_response, auth_db) svc" where
  "exchangeAuthorizationCode env client code verifier redirect resource =
     and_then (assertResourceMatches env resource) (\<lambda>_.
     and_then (transact env 0 (\<lambda>t. consumeOauthCode t (oe_sha env code))) (\<lambda>consumed. case consumed of
       None \<Rightarrow> fail_with InvalidGrant
     | Some c \<Rightarrow>
         if cg_client c \<noteq> ci_id client then fail_with InvalidGrant
         else if (case verifier of None \<Rightarrow> True | Some v \<Rightarrow> \<not> pkceChallengeMatches env v (cg_challenge c)) then fail_with InvalidGrant
         else if cg_supplied c \<and> redirect = None then fail_with InvalidGrant
         else if redirect \<noteq> None \<and> redirect \<noteq> Some (cg_redirect c) then fail_with InvalidGrant
         else and_then (buildTokenPair env (cg_user c) client (cg_scope c)) (\<lambda>(response, access, refresh).
           and_then (of_sum (oe_limits env (cg_user c))) (\<lambda>cap.
           and_then (transact env 1 (\<lambda>t. insertOauthTokenPair (oe_gap env 0) (oe_gap env 1) (oe_collate env) t (cg_user c) access refresh cap)) (\<lambda>issued.
           if \<not> issued then fail_with InvalidGrant else done_with response)))))"

definition exchangeRefreshToken ::
  "oauth_env \<Rightarrow> client_information \<Rightarrow> string \<Rightarrow> string list option \<Rightarrow> string option \<Rightarrow> (token_response, auth_db) svc" where
  "exchangeRefreshToken env client token scopes resource =
     and_then (assertResourceMatches env resource) (\<lambda>_.
     and_then (observe env 0 (\<lambda>t. resolveOauthToken t (oe_sha env token))) (\<lambda>resolved. case resolved of
       None \<Rightarrow> fail_with InvalidGrant
     | Some r \<Rightarrow>
         if gt_kind r \<noteq> RefreshToken then fail_with InvalidGrant
         else if gt_client r \<noteq> ci_id client then fail_with InvalidGrant
         else and_then (case scopes of
             None \<Rightarrow> done_with (gt_scope r)
           | Some ss \<Rightarrow>
               (let requested = filter (\<lambda>s. s \<noteq> []) ss in
                if \<exists>s \<in> set requested. s \<notin> set (parseScopes (Some (gt_scope r))) then fail_with InvalidGrant
                else done_with (join_space requested))) (\<lambda>scope.
           and_then (buildTokenPair env (gt_user r) client scope) (\<lambda>(response, access, refresh). case refresh of
             None \<Rightarrow> fail_with InvalidGrant
           | Some new \<Rightarrow>
               and_then (of_sum (oe_limits env (gt_user r))) (\<lambda>cap.
               and_then (transact env 1 (\<lambda>t. rotateOauthRefreshToken (oe_gap env 0) (oe_gap env 1) (oe_collate env) t (gt_user r)
                 (oe_sha env token) access new cap)) (\<lambda>rotated.
               if \<not> rotated then fail_with InvalidGrant else done_with response))))))"

text \<open>\<open>oe_jwt\<close>: the library's verdict on signature, audience and expiry; of an accepted token, its issuer claim.\<close>

definition verifyAccessToken :: "oauth_env \<Rightarrow> string \<Rightarrow> (resolved_token option, auth_db) svc" where
  "verifyAccessToken env token = (case oe_jwt env token of
     None \<Rightarrow> done_with None
   | Some None \<Rightarrow> done_with None
   | Some (Some iss) \<Rightarrow>
       if normalizeIssuer iss \<noteq> normalizeIssuer (oe_issuer env) then done_with None
       else and_then (observe env 0 (\<lambda>t. resolveOauthToken t (oe_sha env token))) (\<lambda>r. case r of
           None \<Rightarrow> done_with None
         | Some x \<Rightarrow> if gt_kind x \<noteq> AccessToken then done_with None else done_with (Some x)))"

record token_info =
  ti_token :: string
  ti_client :: string
  ti_scopes :: "string list"
  ti_expires_at :: int

definition provider_verifyAccessToken :: "oauth_env \<Rightarrow> string \<Rightarrow> (token_info, auth_db) svc" where
  "provider_verifyAccessToken env token = and_then (verifyAccessToken env token) (\<lambda>r. case r of
     None \<Rightarrow> fail_with InvalidToken
   | Some x \<Rightarrow> done_with \<lparr>ti_token = token, ti_client = gt_client x, ti_scopes = parseScopes (Some (gt_scope x)),
       ti_expires_at = gt_expires x div 1000\<rparr>)"

section \<open>Collecting idle clients (gc-clients.ts)\<close>

definition GC_CLIENT_IDLE_DAYS :: int where "GC_CLIENT_IDLE_DAYS = 30"

definition garbageCollectClients :: "oauth_env \<Rightarrow> int option \<Rightarrow> jsdate option \<Rightarrow> (nat \<times> nat, auth_db) svc" where
  "garbageCollectClients env idle_days now =
     (let days = (case idle_days of None \<Rightarrow> GC_CLIENT_IDLE_DAYS | Some d \<Rightarrow> d);
          cutoff = (case now of None \<Rightarrow> oe_now env | Some n \<Rightarrow> n) - days * 86400000 in
      and_then (observe env 0 (\<lambda>t. listGarbageCollectableClients t cutoff)) (\<lambda>candidates.
      if candidates = [] then done_with (0, 0)
      else and_then (transact env 1 (\<lambda>t. deleteClients (oe_gap env 0) t candidates)) (\<lambda>n.
        done_with (length candidates, n))))"

end
