(* ===== verification/AccountServices.thy ===== *)
theory AccountServices
  imports OAuthProvider
begin

text \<open>
  Accounts in \<open>packages/core/src/auth\<close>: sessions and login (\<open>sessions.ts\<close>), users (\<open>users.ts\<close>), API keys
  (\<open>api-keys.ts\<close>), forgotten passwords (\<open>reset-tokens.ts\<close>, with the breach screen of
  \<open>password-breach.ts\<close>) and signup with email verification (\<open>email-verification.ts\<close>).

  The record \<open>account_env\<close> holds the libraries: hashes, the argon2 verifier (\<open>None\<close>: it throws on a
  malformed hash), the schema's parse, the random tokens, the breach service and the clocks.
  \<open>ae_lull k\<close>: what others commit before transaction \<open>k\<close> of a service; \<open>ae_gap\<close>: at a wait inside one.
\<close>

record account_env =
  ae_sha :: "string \<Rightarrow> string"
  ae_sha1 :: "string \<Rightarrow> string"
  ae_hash_password :: "string \<Rightarrow> string"
  ae_verify :: "string \<Rightarrow> string \<Rightarrow> bool option"
  ae_parse :: "string \<Rightarrow> string \<Rightarrow> err + string \<times> string"
  ae_range :: "string \<Rightarrow> string option"
  ae_random :: "nat \<Rightarrow> string"
  ae_now :: jsdate
  ae_tx_now :: "nat \<Rightarrow> instant"
  ae_gap :: "auth_db \<Rightarrow> auth_db"
  ae_lull :: "nat \<Rightarrow> auth_db \<Rightarrow> auth_db"

definition commit :: "account_env \<Rightarrow> nat \<Rightarrow> (instant \<Rightarrow> 'a auth_tx) \<Rightarrow> ('a, auth_db) svc" where
  "commit env k m = (\<lambda>w. run_tx (m (ae_tx_now env k)) (ae_lull env k w))"

definition look :: "account_env \<Rightarrow> nat \<Rightarrow> (instant \<Rightarrow> auth_db \<Rightarrow> 'a) \<Rightarrow> ('a, auth_db) svc" where
  "look env k f = commit env k (\<lambda>t. query (f t))"

definition MS_PER_HOUR :: int where "MS_PER_HOUR = 60 * 60 * 1000"
definition MS_PER_MINUTE :: int where "MS_PER_MINUTE = 60 * 1000"

text \<open>\<open>verifyPassword\<close>: a malformed hash throws.\<close>

definition verifyPassword :: "account_env \<Rightarrow> string \<Rightarrow> string \<Rightarrow> (bool, auth_db) svc" where
  "verifyPassword env stored p = (case ae_verify env stored p of None \<Rightarrow> fail_with MalformedHash | Some b \<Rightarrow> done_with b)"

section \<open>Sessions (sessions.ts)\<close>

definition DUMMY_HASH :: string where
  "DUMMY_HASH = ''$argon2id$v=19$m=19456,t=2,p=1$e2lBga7zHkLZ0Vmn31bOow$f3Xri60rccjTW/QVuUQl1mvCPORxy2dYEbzjy3Xf3zI''"

record session_grant =
  sg_user :: uid
  sg_token :: string
  sg_expires :: jsdate

definition verifyCredentials :: "account_env \<Rightarrow> string \<Rightarrow> string \<Rightarrow> (uid option, auth_db) svc" where
  "verifyCredentials env email password =
     and_then (look env 0 (\<lambda>_. getUserByEmail email)) (\<lambda>user.
     and_then (verifyPassword env (case user of None \<Rightarrow> DUMMY_HASH | Some x \<Rightarrow> usr_password_hash x) password) (\<lambda>ok.
     case user of
       None \<Rightarrow> done_with None
     | Some x \<Rightarrow>
         if \<not> ok then done_with None
         else if usr_verified_at x = None then fail_with EmailNotVerified
         else done_with (Some (usr_id x))))"

definition issueSession :: "account_env \<Rightarrow> nat \<Rightarrow> uid \<Rightarrow> int \<Rightarrow> (session_grant, auth_db) svc" where
  "issueSession env k u ttlHours =
     (let expires = ae_now env + ttlHours * MS_PER_HOUR in
      and_then (commit env k (\<lambda>t. insertSession (ae_gap env) t u (ae_sha env (ae_random env 0)) expires)) (\<lambda>_.
      done_with \<lparr>sg_user = u, sg_token = ae_random env 0, sg_expires = expires\<rparr>))"

definition login :: "account_env \<Rightarrow> string \<Rightarrow> string \<Rightarrow> int \<Rightarrow> (session_grant option, auth_db) svc" where
  "login env email password ttlHours =
     and_then (verifyCredentials env email password) (\<lambda>user. case user of
       None \<Rightarrow> done_with None
     | Some u \<Rightarrow> and_then (issueSession env 1 u ttlHours) (\<lambda>g. done_with (Some g)))"

definition authenticateToken :: "account_env \<Rightarrow> string \<Rightarrow> (uid option, auth_db) svc" where
  "authenticateToken env token = and_then (look env 0 (\<lambda>t. resolveSession t (ae_sha env token))) (\<lambda>s. done_with (map_option fst s))"

section \<open>Users (users.ts)\<close>

definition createUserWithVerificationState ::
  "account_env \<Rightarrow> string \<Rightarrow> string \<Rightarrow> instant option \<Rightarrow> (uid \<times> string, auth_db) svc" where
  "createUserWithVerificationState env email password verified =
     and_then (of_sum (ae_parse env email password)) (\<lambda>(e, p).
     and_then (commit env 0 (\<lambda>_. insertUser e (ae_hash_password env p) verified)) (\<lambda>u. done_with (u, e)))"

definition createUser :: "account_env \<Rightarrow> string \<Rightarrow> string \<Rightarrow> (uid \<times> string, auth_db) svc" where
  "createUser env email password = createUserWithVerificationState env email password (Some (sql_of_date (ae_now env)))"

definition createUnverifiedUser :: "account_env \<Rightarrow> string \<Rightarrow> string \<Rightarrow> (uid \<times> string, auth_db) svc" where
  "createUnverifiedUser env email password = createUserWithVerificationState env email password None"

definition verifyCurrentPasswordHash :: "account_env \<Rightarrow> uid \<Rightarrow> string \<Rightarrow> (string, auth_db) svc" where
  "verifyCurrentPasswordHash env u current =
     and_then (look env 0 (\<lambda>_. getUserPasswordHashById u)) (\<lambda>stored. case stored of
       None \<Rightarrow> fail_with InvalidCurrentPassword
     | Some h \<Rightarrow> and_then (verifyPassword env h current) (\<lambda>ok.
         if ok then done_with h else fail_with InvalidCurrentPassword))"

definition changePassword :: "account_env \<Rightarrow> uid \<Rightarrow> string \<Rightarrow> string \<Rightarrow> (unit, auth_db) svc" where
  "changePassword env u current new =
     and_then (verifyCurrentPasswordHash env u current) (\<lambda>stored.
     and_then (commit env 1 (\<lambda>_. updateUserPassword u stored (ae_hash_password env new))) (\<lambda>swapped.
     if swapped then done_with () else fail_with InvalidCurrentPassword))"

definition changePasswordAndRevokeOthers :: "account_env \<Rightarrow> uid \<Rightarrow> string \<Rightarrow> string \<Rightarrow> string \<Rightarrow> (unit, auth_db) svc" where
  "changePasswordAndRevokeOthers env u current new token =
     and_then (verifyCurrentPasswordHash env u current) (\<lambda>stored.
     and_then (commit env 1 (\<lambda>t. rotatePasswordAndRevokeOthers (ae_gap env) t u stored (ae_hash_password env new)
       (Some (ae_sha env token)))) (\<lambda>rotated.
     if rotated then done_with () else fail_with InvalidCurrentPassword))"

section \<open>API keys (api-keys.ts)\<close>

definition KEY_SCHEME_PREFIX :: string where "KEY_SCHEME_PREFIX = ''3ng_''"

record issued_key =
  ik_id :: rid
  ik_key :: string
  ik_prefix :: string
  ik_name :: string
  ik_created :: jsdate

definition issueApiKey :: "account_env \<Rightarrow> uid \<Rightarrow> string \<Rightarrow> (issued_key, auth_db) svc" where
  "issueApiKey env u name =
     (let prefx = ae_random env 0; key = KEY_SCHEME_PREFIX @ prefx @ ''_'' @ ae_random env 1 in
      and_then (commit env 0 (\<lambda>t. insertApiKey (ae_gap env) t u name (ae_sha env key) prefx)) (\<lambda>(i, created).
      done_with \<lparr>ik_id = i, ik_key = key, ik_prefix = prefx, ik_name = name, ik_created = created\<rparr>))"

definition authenticateApiKey :: "account_env \<Rightarrow> string \<Rightarrow> (uid option, auth_db) svc" where
  "authenticateApiKey env key =
     (if take (length KEY_SCHEME_PREFIX) key \<noteq> KEY_SCHEME_PREFIX then done_with None
      else look env 0 (\<lambda>_. resolveApiKey (ae_sha env key)))"

definition touchApiKey :: "account_env \<Rightarrow> uid \<Rightarrow> string \<Rightarrow> (unit, auth_db) svc" where
  "touchApiKey env u key = commit env 0 (\<lambda>t. touchApiKeyLastUsed t u (ae_sha env key))"

section \<open>The breach screen (password-breach.ts)\<close>

definition SHA1_PREFIX_LENGTH :: nat where "SHA1_PREFIX_LENGTH = 5"

fun split_lines :: "string \<Rightarrow> string \<Rightarrow> string list" where
  "split_lines acc [] = [acc]"
| "split_lines acc (c # cs) = (if c = CHR 0x0A then acc # split_lines [] cs else split_lines (acc @ [c]) cs)"

definition trim :: "string \<Rightarrow> string" where
  "trim s = rev (dropWhile js_space (rev (dropWhile js_space s)))"

definition upper :: "char \<Rightarrow> char" where
  "upper c = (if of_char c \<in> {97..122 :: nat} then char_of (of_char c - 32 :: nat) else c)"

definition digit_value :: "char \<Rightarrow> int" where
  "digit_value c = int (of_char c) - 48"

definition is_digit :: "char \<Rightarrow> bool" where
  "is_digit c \<longleftrightarrow> 48 \<le> (of_char c :: nat) \<and> (of_char c :: nat) \<le> 57"

text \<open>\<open>Number.parseInt(s, 10)\<close> of a trimmed string: a sign, then the longest run of digits; none is NaN.\<close>

definition parse_int :: "string \<Rightarrow> int option" where
  "parse_int s =
     (let (sign, body) = (case s of c # cs \<Rightarrow> if c = CHR ''-'' then (-1, cs) else if c = CHR ''+'' then (1, cs) else (1, s)
          | [] \<Rightarrow> (1, []));
          digits = takeWhile is_digit body
      in if digits = [] then None else Some (sign * foldl (\<lambda>n c. 10 * n + digit_value c) 0 digits))"

fun suffix_in_lines :: "string list \<Rightarrow> string \<Rightarrow> bool" where
  "suffix_in_lines [] suffix = False"
| "suffix_in_lines (l # ls) suffix =
     (if CHR '':'' \<notin> set l then suffix_in_lines ls suffix
      else if map upper (trim (takeWhile (\<lambda>c. c \<noteq> CHR '':'') l)) \<noteq> suffix then suffix_in_lines ls suffix
      else (case parse_int (trim (tl (dropWhile (\<lambda>c. c \<noteq> CHR '':'') l))) of None \<Rightarrow> False | Some n \<Rightarrow> 0 < n))"

definition suffixIsBreached :: "string \<Rightarrow> string \<Rightarrow> bool" where
  "suffixIsBreached body suffix = suffix_in_lines (split_lines [] body) suffix"

definition assertPasswordNotBreached :: "account_env \<Rightarrow> bool \<Rightarrow> string \<Rightarrow> (unit, auth_db) svc" where
  "assertPasswordNotBreached env enabled password =
     (if \<not> enabled then done_with ()
      else (let digest = map upper (ae_sha1 env password) in
        case ae_range env (take SHA1_PREFIX_LENGTH digest) of
          None \<Rightarrow> done_with ()
        | Some body \<Rightarrow> if suffixIsBreached body (drop SHA1_PREFIX_LENGTH digest) then fail_with PasswordBreached else done_with ()))"

section \<open>Forgotten passwords (reset-tokens.ts)\<close>

definition requestPasswordReset :: "account_env \<Rightarrow> string \<Rightarrow> int \<Rightarrow> (string option, auth_db) svc" where
  "requestPasswordReset env email ttlMinutes =
     and_then (look env 0 (\<lambda>_. getUserByEmail email)) (\<lambda>user. case user of
       None \<Rightarrow> done_with None
     | Some x \<Rightarrow>
         and_then (commit env 1 (\<lambda>t. insertPasswordResetToken (ae_gap env) t (usr_id x) (ae_sha env (ae_random env 0))
           (ae_now env + ttlMinutes * MS_PER_MINUTE))) (\<lambda>_.
         done_with (Some (ae_random env 0))))"

definition resetPassword :: "account_env \<Rightarrow> string \<Rightarrow> string \<Rightarrow> bool \<Rightarrow> (unit, auth_db) svc" where
  "resetPassword env token new breach =
     and_then (look env 0 (\<lambda>t. peekResetToken t (ae_sha env token))) (\<lambda>owner.
     if owner = None then fail_with InvalidResetToken
     else and_then (assertPasswordNotBreached env breach new) (\<lambda>_.
       and_then (commit env 1 (\<lambda>t. resetPasswordAtomic (ae_gap env) t (ae_sha env token) (ae_hash_password env new))) (\<lambda>user.
       if user = None then fail_with InvalidResetToken else done_with ())))"

section \<open>Signup and email verification (email-verification.ts)\<close>

definition MAX_UNVERIFIED_PASSWORD_REPLACE_ATTEMPTS :: nat where
  "MAX_UNVERIFIED_PASSWORD_REPLACE_ATTEMPTS = 3"

definition mint_verification :: "account_env \<Rightarrow> nat \<Rightarrow> int \<Rightarrow> string \<Rightarrow> new_verification" where
  "mint_verification env k ttlMinutes proof_hash =
     \<lparr>nv_hash = ae_sha env (ae_random env k), nv_proof = proof_hash, nv_expires = ae_now env + ttlMinutes * MS_PER_MINUTE\<rparr>"

definition requestEmailVerification :: "account_env \<Rightarrow> uid \<Rightarrow> string \<Rightarrow> int \<Rightarrow> (string, auth_db) svc" where
  "requestEmailVerification env u proof_hash ttlMinutes =
     and_then (commit env 0 (\<lambda>t. insertEmailVerificationToken (ae_gap env) t u (mint_verification env 0 ttlMinutes proof_hash)))
       (\<lambda>_. done_with (ae_random env 0))"

text \<open>The retry loop: \<open>n\<close> attempts left, \<open>k\<close> the number of the next transaction and token.\<close>

fun replace_loop :: "account_env \<Rightarrow> nat \<Rightarrow> nat \<Rightarrow> user \<Rightarrow> string \<Rightarrow> string \<Rightarrow> int \<Rightarrow> (string option, auth_db) svc" where
  "replace_loop env k 0 current h proof_hash ttl = done_with None"
| "replace_loop env k (Suc n) current h proof_hash ttl =
     (if usr_verified_at current \<noteq> None then done_with None
      else and_then (commit env k (\<lambda>t. retryUnverifiedSignupWithEmailVerificationToken (ae_gap env) t (usr_id current)
          (usr_password_hash current) h (mint_verification env k ttl proof_hash))) (\<lambda>replaced.
        if replaced then done_with (Some (ae_random env k))
        else and_then (look env (k + 1) (\<lambda>_. getUserByEmail (usr_email current))) (\<lambda>refreshed. case refreshed of
            None \<Rightarrow> done_with None
          | Some x \<Rightarrow> if usr_verified_at x \<noteq> None then done_with None
              else replace_loop env (k + 2) n x h proof_hash ttl)))"

definition replaceUnverifiedPasswordAndRequestVerification ::
  "account_env \<Rightarrow> nat \<Rightarrow> user \<Rightarrow> string \<Rightarrow> string \<Rightarrow> int \<Rightarrow> (string option, auth_db) svc" where
  "replaceUnverifiedPasswordAndRequestVerification env k x h proof_hash ttl =
     replace_loop env k MAX_UNVERIFIED_PASSWORD_REPLACE_ATTEMPTS x h proof_hash ttl"

definition on_duplicate :: "(auth_db \<Rightarrow> (err + 'a) \<times> auth_db) \<Rightarrow> ('a, auth_db) svc \<Rightarrow> ('a, auth_db) svc" where
  "on_duplicate m k = (\<lambda>w. case m w of (Inl DuplicateEmail, v) \<Rightarrow> k v | r \<Rightarrow> r)"

definition requestSignup :: "account_env \<Rightarrow> string \<Rightarrow> string \<Rightarrow> string \<Rightarrow> int \<Rightarrow> (string option, auth_db) svc" where
  "requestSignup env email password proof_hash ttl =
     and_then (of_sum (ae_parse env email password)) (\<lambda>(e, p).
     and_then (look env 0 (\<lambda>_. getUserByEmail e)) (\<lambda>existing. case existing of
       Some x \<Rightarrow>
         if usr_verified_at x \<noteq> None then done_with None
         else replaceUnverifiedPasswordAndRequestVerification env 1 x (ae_hash_password env p) proof_hash ttl
     | None \<Rightarrow>
         on_duplicate
           (and_then (commit env 1 (\<lambda>t. insertUnverifiedUserWithEmailVerificationToken t e (ae_hash_password env p)
               (mint_verification env 1 ttl proof_hash))) (\<lambda>_. done_with (Some (ae_random env 1))))
           (and_then (look env 2 (\<lambda>_. getUserByEmail e)) (\<lambda>raced. case raced of
               None \<Rightarrow> done_with None
             | Some x \<Rightarrow>
                 if usr_verified_at x = None then
                   replaceUnverifiedPasswordAndRequestVerification env 3 x (ae_hash_password env p) proof_hash ttl
                 else done_with None))))"

definition resendEmailVerification :: "account_env \<Rightarrow> string \<Rightarrow> string \<Rightarrow> int \<Rightarrow> (string option, auth_db) svc" where
  "resendEmailVerification env email proof_hash ttl =
     and_then (look env 0 (\<lambda>_. getUserByEmail email)) (\<lambda>user. case user of
       None \<Rightarrow> done_with None
     | Some x \<Rightarrow>
         if usr_verified_at x \<noteq> None then done_with None
         else and_then (commit env 1 (\<lambda>t. replaceEmailVerificationTokens (ae_gap env) t (usr_id x)
             (mint_verification env 0 ttl proof_hash))) (\<lambda>minted.
           done_with (if minted then Some (ae_random env 0) else None)))"

text \<open>The provisioning it starts is not awaited: it writes memories, as other transactions do.\<close>

definition verifyEmail :: "account_env \<Rightarrow> string \<Rightarrow> string \<Rightarrow> int \<Rightarrow> (session_grant, auth_db) svc" where
  "verifyEmail env token client_proof ttlHours =
     (let h = ae_sha env token; p = ae_sha env client_proof in
      and_then (look env 0 (\<lambda>t. peekEmailVerificationToken t h p)) (\<lambda>owner.
      if owner = None then fail_with InvalidVerificationToken
      else and_then (commit env 1 (\<lambda>t. verifyEmailTokenAtomic (ae_gap env) t h p)) (\<lambda>user. case user of
          None \<Rightarrow> fail_with InvalidVerificationToken
        | Some u \<Rightarrow> issueSession env 2 u ttlHours)))"

end
