(* ===== verification/GrantTheorems.thy ===== *)
theory GrantTheorems
  imports AccountTheorems AccountServices
begin

text \<open>
  What the authorization server grants: an exchange is bound to its client, verifier and redirect, a
  refresh only narrows, the token table refines a map of grants, the number of connected clients stays
  under the plan's limit and collecting idle clients never takes a grant.
\<close>

section \<open>Scopes survive printing and parsing\<close>

lemma pieces_word: "\<forall>c \<in> set s. \<not> js_space c \<Longrightarrow> pieces acc s = (if acc @ s = [] then [] else [acc @ s])"
  by (induction s arbitrary: acc) auto

lemma pieces_word_space:
  "\<forall>c \<in> set s. \<not> js_space c \<Longrightarrow> acc @ s \<noteq> [] \<Longrightarrow> js_space d \<Longrightarrow> pieces acc (s @ d # cs) = (acc @ s) # pieces [] cs"
  by (induction s arbitrary: acc) auto

definition scope_token :: "string \<Rightarrow> bool" where
  "scope_token s \<longleftrightarrow> s \<noteq> [] \<and> (\<forall>c \<in> set s. \<not> js_space c)"

lemma space_is_space [simp]: "js_space CHR 0x20"
  by (simp add: js_space_def)

lemma pieces_join: "\<forall>s \<in> set ss. scope_token s \<Longrightarrow> pieces [] (join_space ss) = ss"
proof (induction ss rule: join_space.induct)
  case (2 x)
  then show ?case using pieces_word [of x "[]"] by (simp add: scope_token_def)
next
  case (3 x y zs)
  then show ?case using pieces_word_space [of x "[]" "CHR 0x20"] by (simp add: scope_token_def)
qed simp

lemma pieces_tokens: "p \<in> set (pieces acc s) \<Longrightarrow> \<forall>c \<in> set acc. \<not> js_space c \<Longrightarrow> scope_token p"
proof (induction acc s rule: pieces.induct)
  case (1 acc)
  then show ?case by (simp add: scope_token_def split: if_splits)
next
  case (2 acc c cs)
  show ?case
  proof (cases "js_space c")
    case True
    with 2 show ?thesis by (cases "acc = []") (auto simp: scope_token_def)
  next
    case False
    then have "\<forall>d \<in> set (acc @ [c]). \<not> js_space d" using "2.prems"(2) by simp
    with False "2.IH"(3) "2.prems"(1) show ?thesis by simp
  qed
qed

lemma parseScopes_tokens: "p \<in> set (parseScopes s) \<Longrightarrow> scope_token p"
  by (auto simp: parseScopes_def split: option.splits intro: pieces_tokens)

lemma parseScopes_join: "\<forall>s \<in> set ss. scope_token s \<Longrightarrow> set (parseScopes (Some (join_space ss))) = set ss"
  by (simp add: parseScopes_def pieces_join)

section \<open>What an exchange and a refresh return\<close>

lemma transact_Inr: "transact env k m w = (Inr a, w') \<longleftrightarrow> m (oe_tx_now env k) (oe_lull env k w) = Inr (a, w')"
  by (simp add: transact_def run_tx_ok)

lemma observe_Inr: "observe env k f w = (Inr a, w') \<longleftrightarrow> a = f (oe_tx_now env k) (oe_lull env k w) \<and> w' = oe_lull env k w"
  by (auto simp: observe_def transact_Inr)

lemma fail_with_Inr [simp]: "fail_with e w = (Inr a, w') \<longleftrightarrow> False"
  by (simp add: fail_with_def)

lemma assertResource_Inr: "assertResourceMatches env r w = (Inr a, w') \<longleftrightarrow> (r = None \<or> r = Some (oe_resource env)) \<and> w' = w"
  by (auto simp: assertResourceMatches_def)

lemmas grant_Inr = svc_Inr transact_Inr observe_Inr assertResource_Inr

lemma buildTokenPair_Inr:
  "buildTokenPair env u client scope w = (Inr (resp, access, refresh), w') \<Longrightarrow>
   w' = w \<and> tr_scope resp = scope \<and> nt_scope access = scope \<and> nt_client access = ci_id client \<and> nt_kind access = AccessToken \<and>
   nt_hash access = oe_sha env (tr_access resp) \<and> oe_sign env u scope (nt_expires access) = Inr (tr_access resp) \<and>
   refresh = (case tr_refresh resp of None \<Rightarrow> None | Some x \<Rightarrow> Some \<lparr>nt_hash = oe_sha env x, nt_kind = RefreshToken,
     nt_client = ci_id client, nt_scope = scope, nt_expires = oe_now env + REFRESH_TOKEN_TTL_SECONDS * 1000\<rparr>)"
  by (auto simp: buildTokenPair_def Let_def svc_Inr split: if_splits)

text \<open>The token rows of a successful issuance.\<close>

lemma issue_rows:
  assumes "insertOauthTokenPair g g2 collate t u access refresh cap w = Inr (True, w')"
  shows "user_live u (ad_store (g w)) \<and>
    (\<exists>as. for_each ([token_row t u None access] @ (case refresh of None \<Rightarrow> [] | Some r \<Rightarrow> [token_row t u None r])) insert_token
      (g2 (g w)) = Inr (as, w'))"
  using assms
  by (auto simp: insertOauthTokenPair_def assertClientCanBeIssued_def Let_def tx_Inr liveness_read simp del: for_each.simps
      split: option.splits if_splits)

lemma insert_tokens_rows:
  assumes "for_each rows insert_token w = Inr (as, w')"
  shows "\<exists>new. ad_tokens w' = ad_tokens w @ new \<and> map (\<lambda>x. x\<lparr>ot_id := 0\<rparr>) new = map (\<lambda>x. x\<lparr>ot_id := 0\<rparr>) rows \<and>
    distinct (map ot_hash new) \<and> set (map ot_hash new) \<inter> set (map ot_hash (ad_tokens w)) = {} \<and>
    ad_codes w' = ad_codes w \<and> ad_clients w' = ad_clients w"
  using assms
proof (induction rows arbitrary: w as)
  case (Cons row rows)
  then obtain v bs where v: "insert_token row w = Inr ((), v)" and rest: "for_each rows insert_token v = Inr (bs, w')"
    by (auto simp: tx_Inr)
  from v have v': "v = w\<lparr>ad_tokens := ad_tokens w @ [row\<lparr>ot_id := ad_next w\<rparr>], ad_next := Suc (ad_next w)\<rparr>"
    and fresh: "ot_hash row \<notin> set (map ot_hash (ad_tokens w))"
    by (auto simp: insert_token_def Let_def split: if_splits)
  from Cons.IH [OF rest] obtain new where
    new: "ad_tokens w' = ad_tokens v @ new" "map (\<lambda>x. x\<lparr>ot_id := 0\<rparr>) new = map (\<lambda>x. x\<lparr>ot_id := 0\<rparr>) rows"
      "distinct (map ot_hash new)" "set (map ot_hash new) \<inter> set (map ot_hash (ad_tokens v)) = {}"
      "ad_codes w' = ad_codes v" "ad_clients w' = ad_clients v" by blast
  show ?case
    by (rule exI [of _ "row\<lparr>ot_id := ad_next w\<rparr> # new"]) (use new fresh in \<open>auto simp: v'\<close>)
qed simp

text \<open>
  C34. A code becomes tokens only for the client it was issued to, that knows its PKCE verifier and
  repeats its redirect URI when it named one. The tokens carry the scope the user consented to, they are
  stored under their hashes as the consenting user's, and that user is live when they are written.
\<close>

theorem exchange_is_bound:
  assumes "exchangeAuthorizationCode env client code verifier redirect resource w = (Inr resp, w')"
  shows "\<exists>x access refresh v. x \<in> set (ad_codes (oe_lull env 0 w)) \<and> oc_hash x = oe_sha env code \<and>
    code_live (oe_tx_now env 0) x \<and> oc_client x = ci_id client \<and>
    map_option (oe_s256 env) verifier = Some (oc_challenge x) \<and>
    (oc_supplied x \<longrightarrow> redirect = Some (oc_redirect x)) \<and> redirect \<in> {None, Some (oc_redirect x)} \<and>
    tr_scope resp = oc_scope x \<and> nt_scope access = oc_scope x \<and> nt_client access = ci_id client \<and>
    nt_hash access = oe_sha env (tr_access resp) \<and> map_option nt_hash refresh = map_option (oe_sha env) (tr_refresh resp) \<and>
    user_live (oc_user x) (ad_store (oe_gap env 0 v)) \<and>
    insertOauthTokenPair (oe_gap env 0) (oe_gap env 1) (oe_collate env) (oe_tx_now env 1) (oc_user x) access refresh
      (case oe_limits env (oc_user x) of Inr cap \<Rightarrow> cap | Inl e \<Rightarrow> None) v = Inr (True, w')"
proof -
  from assms obtain c v1 access refresh cap v2 where
    consume: "consumeOauthCode (oe_tx_now env 0) (oe_sha env code) (oe_lull env 0 w) = Inr (Some c, v1)" and
    checks: "cg_client c = ci_id client" "map_option (oe_s256 env) verifier = Some (cg_challenge c)"
      "cg_supplied c \<longrightarrow> redirect \<noteq> None" "redirect \<in> {None, Some (cg_redirect c)}" and
    pair: "buildTokenPair env (cg_user c) client (cg_scope c) v1 = (Inr (resp, access, refresh), v2)" and
    cap: "oe_limits env (cg_user c) = Inr cap" and
    issue: "insertOauthTokenPair (oe_gap env 0) (oe_gap env 1) (oe_collate env) (oe_tx_now env 1) (cg_user c) access refresh cap
      (oe_lull env 1 v2) = Inr (True, w')"
    by (auto simp: exchangeAuthorizationCode_def grant_Inr pkceChallengeMatches_def split: option.splits if_splits)
  from consume_code_row [OF consume] obtain x where x: "x \<in> set (ad_codes (oe_lull env 0 w))" "oc_hash x = oe_sha env code"
      "code_live (oe_tx_now env 0) x" and c: "c = grant_of x" by blast
  have "map_option nt_hash refresh = map_option (oe_sha env) (tr_refresh resp)"
    using buildTokenPair_Inr [OF pair] by (auto split: option.splits)
  with x checks buildTokenPair_Inr [OF pair] issue_rows [OF issue] issue cap show ?thesis
    by (intro exI [of _ x] exI [of _ access] exI [of _ refresh] exI [of _ "oe_lull env 1 v2"]) (auto simp: c grant_of_def)
qed

text \<open>
  A refresh narrows and never widens. The scopes of the new tokens, read back from the stored string,
  are exactly the ones asked for, or the old ones when none were named, and they are all of the old
  grant. Only the client of the grant can do it, and only with a live refresh token.
\<close>

theorem refresh_only_narrows:
  assumes "exchangeRefreshToken env client token scopes resource w = (Inr resp, w')"
  shows "\<exists>r. resolveOauthToken (oe_tx_now env 0) (oe_sha env token) (oe_lull env 0 w) = Some r \<and>
    gt_kind r = RefreshToken \<and> gt_client r = ci_id client \<and>
    set (parseScopes (Some (tr_scope resp))) =
      (case scopes of None \<Rightarrow> set (parseScopes (Some (gt_scope r))) | Some ss \<Rightarrow> set ss - {[]}) \<and>
    set (parseScopes (Some (tr_scope resp))) \<subseteq> set (parseScopes (Some (gt_scope r)))"
proof -
  from assms obtain r scope access refresh v v' where
    r: "resolveOauthToken (oe_tx_now env 0) (oe_sha env token) (oe_lull env 0 w) = Some r"
      "gt_kind r = RefreshToken" "gt_client r = ci_id client" and
    scope: "case scopes of None \<Rightarrow> scope = gt_scope r | Some ss \<Rightarrow>
      (\<forall>s \<in> set ss. s = [] \<or> s \<in> set (parseScopes (Some (gt_scope r)))) \<and> scope = join_space (filter (\<lambda>s. s \<noteq> []) ss)" and
    pair: "buildTokenPair env (gt_user r) client scope v = (Inr (resp, access, refresh), v')"
    by (auto simp: exchangeRefreshToken_def grant_Inr Let_def split: option.splits if_splits)
  have resp: "tr_scope resp = scope" using buildTokenPair_Inr [OF pair] by simp
  show ?thesis
  proof (cases scopes)
    case None
    with r scope resp show ?thesis by auto
  next
    case (Some ss)
    let ?req = "filter (\<lambda>s. s \<noteq> []) ss"
    from Some scope have sub: "set ?req \<subseteq> set (parseScopes (Some (gt_scope r)))" and eq: "scope = join_space ?req" by auto
    have "\<forall>s \<in> set ?req. scope_token s" using sub parseScopes_tokens by blast
    then have "set (parseScopes (Some (tr_scope resp))) = set ?req" unfolding resp eq by (rule parseScopes_join)
    with r sub Some show ?thesis by auto
  qed
qed

section \<open>The plan's limit on connected clients\<close>

definition connected_to :: "instant \<Rightarrow> uid \<Rightarrow> auth_db \<Rightarrow> string set" where
  "connected_to t u w = ot_client ` set (live_tokens t u w)"

lemma recency_clients:
  "set (map fst (liveClientRecency collate t u w)) = connected_to t u w"
  "length (liveClientRecency collate t u w) = card (connected_to t u w)"
  by (simp_all add: liveClientRecency_def connected_to_def Let_def comp_def length_remdups_card_conv)

lemma connected_append:
  "ad_tokens w' = ad_tokens w @ new \<Longrightarrow> \<forall>x \<in> set new. ot_client x = c \<Longrightarrow> connected_to t u w' \<subseteq> insert c (connected_to t u w)"
  by (auto simp: connected_to_def live_tokens_def)

lemma connected_sub:
  "ad_tokens w' = sql_update q (\<lambda>x. x\<lparr>ot_revoked := Some t'\<rparr>) (ad_tokens w) \<Longrightarrow> connected_to t u w' \<subseteq> connected_to t u w"
  by (auto simp: connected_to_def live_tokens_def token_live_def set_sql_update)

lemma finite_connected [simp]: "finite (connected_to t u w)"
  by (simp add: connected_to_def)

lemma rows_of_client:
  assumes "map (\<lambda>x. x\<lparr>ot_id := 0\<rparr>) new = map (\<lambda>x. x\<lparr>ot_id := (0 :: rid)\<rparr>) rows" and "\<forall>x \<in> set rows. ot_client x = c"
  shows "\<forall>x \<in> set new. ot_client x = c"
proof
  fix x assume "x \<in> set new"
  then have "x\<lparr>ot_id := 0\<rparr> \<in> (\<lambda>x. x\<lparr>ot_id := (0 :: rid)\<rparr>) ` set rows" using map_eq_image [OF assms(1)] by blast
  then obtain y where "y \<in> set rows" "x\<lparr>ot_id := 0\<rparr> = y\<lparr>ot_id := (0 :: rid)\<rparr>" by blast
  then show "ot_client x = c" using assms(2) by (metis oauth_token.select_convs(4) oauth_token.surjective oauth_token.update_convs(1))
qed

text \<open>
  The number of clients a user has connected stays within the plan's limit. An issuance that
  succeeds leaves at most the limit, when there were no more before; an account that is over the limit
  (after a downgrade) gains no client; and rotating a refresh token never adds one.
\<close>

theorem connected_clients_capped:
  assumes "nt_client access = c" and "\<And>r. refresh = Some r \<Longrightarrow> nt_client r = c" and "nt_client new = c"
  shows "(insertOauthTokenPair g (\<lambda>w. w) collate t u access refresh (Some n) w = Inr (True, w') \<longrightarrow>
      card (connected_to t u w') \<le> max n (card (connected_to t u (g w)))) \<and>
    (rotateOauthRefreshToken g (\<lambda>w. w) collate t u h access new (Some n) w = Inr (True, w') \<longrightarrow>
      connected_to t u w' \<subseteq> connected_to t u (g w))"
proof (intro conjI impI)
  assume run: "insertOauthTokenPair g (\<lambda>w. w) collate t u access refresh (Some n) w = Inr (True, w')"
  let ?rows = "[token_row t u None access] @ (case refresh of None \<Rightarrow> [] | Some r \<Rightarrow> [token_row t u None r])"
  obtain as where "for_each ?rows insert_token (g w) = Inr (as, w')" using issue_rows [OF run] by auto
  from insert_tokens_rows [OF this] obtain new where new: "ad_tokens w' = ad_tokens (g w) @ new"
    "map (\<lambda>x. x\<lparr>ot_id := 0\<rparr>) new = map (\<lambda>x. x\<lparr>ot_id := 0\<rparr>) ?rows" by blast
  have "\<forall>x \<in> set ?rows. ot_client x = c" using assms(1,2) by (auto simp: token_row_def split: option.splits)
  then have sub: "connected_to t u w' \<subseteq> insert c (connected_to t u (g w))"
    by (intro connected_append [OF new(1)] rows_of_client [OF new(2)])
  have "c \<in> connected_to t u (g w) \<or> card (connected_to t u (g w)) < n"
    using run assms(1)
    using recency_clients [of collate t u "g w"]
    by (auto simp: insertOauthTokenPair_def assertClientCanBeIssued_def tx_Inr liveness_read
        simp del: for_each.simps split: if_splits)
  then show "card (connected_to t u w') \<le> max n (card (connected_to t u (g w)))"
    using card_mono [OF _ sub] by (auto simp: insert_absorb card_insert_if split: if_splits)
next
  assume run: "rotateOauthRefreshToken g (\<lambda>w. w) collate t u h access new (Some n) w = Inr (True, w')"
  let ?q = "\<lambda>x. (ot_user x = u \<and> ot_hash x = h \<and> ot_kind x = RefreshToken) \<and> ot_revoked x = None"
  from run obtain p v as where c: "c \<in> set (map fst (take n (liveClientRecency collate t u (g w))))"
    and v: "v = (g w)\<lparr>ad_tokens := sql_update ?q (\<lambda>x. x\<lparr>ot_revoked := Some t\<rparr>) (ad_tokens (g w))\<rparr>"
    and rows: "for_each [token_row t u None access, token_row t u (Some p) new] insert_token v = Inr (as, w')"
    using assms(1)
    by (auto simp: rotateOauthRefreshToken_def revoke_rows_def Let_def assertClientCanRotate_def tx_Inr liveness_read
        simp del: for_each.simps split: if_splits)
  from insert_tokens_rows [OF rows] obtain nw where nw: "ad_tokens w' = ad_tokens v @ nw"
    "map (\<lambda>x. x\<lparr>ot_id := 0\<rparr>) nw = map (\<lambda>x. x\<lparr>ot_id := 0\<rparr>) [token_row t u None access, token_row t u (Some p) new]" by blast
  have "connected_to t u w' \<subseteq> insert c (connected_to t u v)"
    by (intro connected_append [OF nw(1)] rows_of_client [OF nw(2)]) (use assms in \<open>auto simp: token_row_def\<close>)
  moreover have "connected_to t u v \<subseteq> connected_to t u (g w)"
    by (rule connected_sub) (simp add: v)
  moreover have "c \<in> connected_to t u (g w)"
    using c recency_clients(1) [of collate t u "g w"] by (auto dest: in_set_takeD simp flip: take_map)
  ultimately show "connected_to t u w' \<subseteq> connected_to t u (g w)" by blast
qed

section \<open>Collecting idle clients\<close>

text \<open>
  Collecting clients that were never used takes no grant away. Whatever list it is given it deletes
  only clients of the list that were never used, and no token and no code that could still be exchanged
  goes with them, when nothing commits while the DELETE waits.
\<close>

theorem collection_spares_grants:
  assumes "deleteClients (\<lambda>w. w) t ids w = Inr (n, w')"
  shows "ad_tokens w' = ad_tokens w \<and> filter (code_live t) (ad_codes w') = filter (code_live t) (ad_codes w) \<and>
    set (ad_clients w) - set (ad_clients w') \<subseteq> {x. cli_id x \<in> set ids} \<and>
    (\<forall>x \<in> set (ad_clients w) - set (ad_clients w'). \<exists>y \<in> set (ad_clients w). cli_id y = cli_id x \<and> cli_last_used y = None) \<and>
    ad_store w' = ad_store w"
proof -
  let ?doomed = "{c. \<exists>y \<in> set (ad_clients w). cli_id y = c \<and> c \<in> set ids \<and> cli_last_used y = None \<and> \<not> auth_client_has_grants t c w}"
  obtain cs where cs: "set cs \<subseteq> ?doomed" and w': "w' = delete_clients (set cs) w"
  proof (cases "ids = []")
    case True
    with assms show ?thesis by (intro that [of "[]"]) (simp_all add: deleteClients_def delete_clients_def)
  next
    case False
    let ?seen = "map cli_id (filter (\<lambda>x. cli_id x \<in> set ids \<and> cli_last_used x = None \<and> \<not> auth_client_has_grants t (cli_id x) w) (ad_clients w))"
    show ?thesis
      by (rule that [of "map cli_id (filter (\<lambda>x. cli_id x \<in> set ?seen \<and> cli_last_used x = None) (ad_clients w))"])
        (use assms False in \<open>auto simp: deleteClients_def\<close>)
  qed
  have tok: "ot_client x \<notin> set cs" if "x \<in> set (ad_tokens w)" for x
    using cs that by (force simp: auth_client_has_grants_def find_row_None)
  have code: "oc_client x \<notin> set cs" if "x \<in> set (ad_codes w)" "code_live t x" for x
    using cs that by (force simp: auth_client_has_grants_def find_row_None)
  have "ad_tokens w' = ad_tokens w" using tok by (simp add: w' delete_clients_def filter_id_conv)
  moreover have "filter (code_live t) (ad_codes w') = filter (code_live t) (ad_codes w)"
    using code by (auto simp: w' delete_clients_def intro!: filter_cong)
  moreover have "ad_store w' = ad_store w" "ad_clients w' = filter (\<lambda>x. cli_id x \<notin> set cs) (ad_clients w)"
    by (simp_all add: w' delete_clients_def)
  ultimately show ?thesis using cs by auto
qed

section \<open>The token table as a map of grants\<close>

text \<open>The specification: what each presented secret stands for, and until when.\<close>

type_synonym grants = "string \<Rightarrow> (resolved_token \<times> instant) option"

definition spec_lookup :: "instant \<Rightarrow> string \<Rightarrow> grants \<Rightarrow> resolved_token option" where
  "spec_lookup t h G = (case G h of None \<Rightarrow> None | Some (r, e) \<Rightarrow> if t < e then Some r else None)"

definition spec_issue :: "uid \<Rightarrow> new_oauth_token \<Rightarrow> grants \<Rightarrow> grants" where
  "spec_issue u n G = G(nt_hash n \<mapsto> (\<lparr>gt_user = u, gt_client = nt_client n, gt_kind = nt_kind n, gt_scope = nt_scope n,
     gt_expires = nt_expires n\<rparr>, sql_of_date (nt_expires n)))"

definition spec_disconnect :: "uid \<Rightarrow> string \<Rightarrow> grants \<Rightarrow> grants" where
  "spec_disconnect u c G = (\<lambda>h. case G h of None \<Rightarrow> None
     | Some (r, e) \<Rightarrow> if gt_user r = u \<and> gt_client r = c then None else Some (r, e))"

definition grants_of :: "auth_db \<Rightarrow> grants" where
  "grants_of w h = map_option (\<lambda>x. (resolved_of x, ot_expires x))
     (find_row (\<lambda>x. ot_hash x = h \<and> ot_revoked x = None) (ad_tokens w))"

lemma find_row_close:
  assumes "distinct (map key xs)" and "\<And>x. \<not> opn (f x)"
  shows "find_row (\<lambda>x. key x = h \<and> opn x) (sql_update (\<lambda>x. q x \<and> opn x) f xs) =
    (case find_row (\<lambda>x. key x = h \<and> opn x) xs of None \<Rightarrow> None | Some x \<Rightarrow> if q x then None else Some x)"
  using assms(1)
proof (induction xs)
  case (Cons x xs)
  have none: "find_row (\<lambda>y. key y = h \<and> opn y) xs = None" if "key x = h"
    using Cons.prems that by (auto simp: find_row_None image_iff)
  show ?case
    using Cons none assms(2) by (auto simp: find_row_Cons sql_update_def split: option.splits)
qed simp

lemma find_row_live:
  assumes "distinct (map key xs)"
  shows "find_row (\<lambda>x. key x = h \<and> opn x \<and> p x) xs =
    (case find_row (\<lambda>x. key x = h \<and> opn x) xs of None \<Rightarrow> None | Some x \<Rightarrow> if p x then Some x else None)"
  using assms
proof (induction xs)
  case (Cons x xs)
  have none: "find_row (\<lambda>y. key y = h \<and> opn y) xs = None" if "key x = h"
    using Cons.prems that by (auto simp: find_row_None image_iff)
  show ?case using Cons none by (auto simp: find_row_Cons split: option.splits)
qed simp

lemma grants_issue:
  assumes "insert_token (token_row t u frm n) w = Inr (a, w')"
  shows "grants_of w' = spec_issue u n (grants_of w)"
proof
  fix h
  from assms have w': "ad_tokens w' = ad_tokens w @ [(token_row t u frm n)\<lparr>ot_id := ad_next w\<rparr>]"
    and fresh: "nt_hash n \<notin> set (map ot_hash (ad_tokens w))"
    by (auto simp: insert_token_def Let_def token_row_def split: if_splits)
  have "find_row (\<lambda>x. ot_hash x = nt_hash n \<and> ot_revoked x = None) (ad_tokens w) = None"
    using fresh by (auto simp: find_row_None image_iff)
  then show "grants_of w' h = spec_issue u n (grants_of w) h"
    by (auto simp: grants_of_def spec_issue_def w' find_row_append find_row_Cons token_row_def resolved_of_def
        sql_of_date_def date_of_sql_def split: option.splits)
qed

lemma grants_revoke:
  assumes "hashes_ok w" and "ad_tokens w' = sql_update (\<lambda>x. q x \<and> ot_revoked x = None) (\<lambda>x. x\<lparr>ot_revoked := Some t\<rparr>) (ad_tokens w)"
  shows "grants_of w' h = (case find_row (\<lambda>x. ot_hash x = h \<and> ot_revoked x = None) (ad_tokens w) of None \<Rightarrow> None
    | Some x \<Rightarrow> if q x then None else Some (resolved_of x, ot_expires x))"
  unfolding grants_of_def assms(2)
  by (subst find_row_close) (use assms(1) in \<open>auto simp: hashes_ok_def split: option.splits\<close>)

text \<open>
  C35. The token table is a map of grants. Looking a secret up, issuing a pair, rotating a refresh token
  and disconnecting a client do to it what they do to the map from secrets to grants: a lookup reads the
  entry until it expires, issuing adds entries, rotating replaces the one entry, disconnecting drops
  exactly the entries of that user and client.
\<close>

theorem tokens_refine_grants:
  assumes "hashes_ok w"
  shows "resolveOauthToken t h w = spec_lookup t h (grants_of w) \<and>
    (insertOauthTokenPair (\<lambda>w. w) (\<lambda>w. w) collate t u access refresh cap w = Inr (True, w1) \<longrightarrow>
      grants_of w1 = (case refresh of None \<Rightarrow> id | Some r \<Rightarrow> spec_issue u r) (spec_issue u access (grants_of w))) \<and>
    (rotateOauthRefreshToken (\<lambda>w. w) (\<lambda>w. w) collate t u h access new cap w = Inr (True, w2) \<longrightarrow>
      grants_of w2 = spec_issue u new (spec_issue u access ((grants_of w)(h := None)))) \<and>
    (revokeClientForUser (\<lambda>w. w) (\<lambda>w. w) t u c w = Inr (n, w3) \<longrightarrow>
      grants_of w3 = spec_disconnect u c (grants_of w))"
proof (intro conjI impI)
  show "resolveOauthToken t h w = spec_lookup t h (grants_of w)"
    using find_row_live [of ot_hash "ad_tokens w" h "\<lambda>x. ot_revoked x = None" "\<lambda>x. t < ot_expires x"] assms
    by (simp add: resolveOauthToken_def token_live_def spec_lookup_def grants_of_def hashes_ok_def split: option.splits)
next
  assume "insertOauthTokenPair (\<lambda>w. w) (\<lambda>w. w) collate t u access refresh cap w = Inr (True, w1)"
  from issue_rows [OF this] show "grants_of w1 =
      (case refresh of None \<Rightarrow> id | Some r \<Rightarrow> spec_issue u r) (spec_issue u access (grants_of w))"
    by (auto simp: tx_Inr dest!: grants_issue split: option.splits)
next
  let ?q = "\<lambda>x. ot_user x = u \<and> ot_hash x = h \<and> ot_kind x = RefreshToken"
  assume "rotateOauthRefreshToken (\<lambda>w. w) (\<lambda>w. w) collate t u h access new cap w = Inr (True, w2)"
  then obtain p ps v where v: "v = w\<lparr>ad_tokens := sql_update (\<lambda>x. ?q x \<and> ot_revoked x = None) (\<lambda>x. x\<lparr>ot_revoked := Some t\<rparr>) (ad_tokens w)\<rparr>"
    and p: "sql_returning (\<lambda>x. ?q x \<and> ot_revoked x = None) (\<lambda>x. x\<lparr>ot_revoked := Some t\<rparr>) (ad_tokens w) = p # ps"
    and rows: "\<exists>as. for_each [token_row t u None access, token_row t u (Some (ot_id p)) new] insert_token v = Inr (as, w2)"
    by (auto simp: rotateOauthRefreshToken_def revoke_rows_def Let_def assertClientCanRotate_def tx_Inr liveness_read
        simp del: for_each.simps split: option.splits if_splits)
  obtain y where y: "y \<in> set (ad_tokens w)" "?q y" "ot_revoked y = None"
    using p sql_returning_mem [of p] by (metis (mono_tags, lifting) list.set_intros(1))
  have "find_row (\<lambda>x. ot_hash x = h \<and> ot_revoked x = None) (ad_tokens w) = Some y"
    by (rule find_row_unique [where key = ot_hash]) (use y assms in \<open>auto simp: hashes_ok_def\<close>)
  moreover have "grants_of v x = (case find_row (\<lambda>y. ot_hash y = x \<and> ot_revoked y = None) (ad_tokens w) of None \<Rightarrow> None
      | Some z \<Rightarrow> if ?q z then None else Some (resolved_of z, ot_expires z))" for x
    by (rule grants_revoke [OF assms]) (simp add: v)
  ultimately have "grants_of v = (grants_of w)(h := None)"
    using y by (intro ext) (auto simp: grants_of_def [of w] dest: find_row_Some split: option.splits)
  then show "grants_of w2 = spec_issue u new (spec_issue u access ((grants_of w)(h := None)))"
    using rows by (auto simp: tx_Inr dest!: grants_issue)
next
  assume "revokeClientForUser (\<lambda>w. w) (\<lambda>w. w) t u c w = Inr (n, w3)"
  then have w3: "ad_tokens w3 = sql_update (\<lambda>x. (ot_id x \<in> set (map ot_id (filter (\<lambda>x. (ot_user x = u \<and> ot_client x = c) \<and> ot_revoked x = None)
      (ad_tokens w))) \<and> ot_user x = u \<and> ot_client x = c) \<and> ot_revoked x = None) (\<lambda>x. x\<lparr>ot_revoked := Some t\<rparr>) (ad_tokens w)"
    by (auto simp: revokeClientForUser_def revoke_rows_def use_codes_def Let_def tx_Inr)
  show "grants_of w3 = spec_disconnect u c (grants_of w)"
    by (rule ext, subst grants_revoke [OF assms w3])
      (auto simp: spec_disconnect_def grants_of_def resolved_of_def dest: find_row_Some split: option.splits)
qed

end
