(* ===== verification/AccountInvariant.thy ===== *)
theory AccountInvariant
  imports AccountSafety
begin

text \<open>
  The account tables stay well formed: unique keys, owners and clients that exist, the one-successor
  index of refresh tokens and the client-secret check hold after any interleaving of the operations.
\<close>

section \<open>The constraints\<close>

text \<open>A table with a unique hash whose rows belong to existing users.\<close>

definition owned :: "('r \<Rightarrow> string) \<Rightarrow> ('r \<Rightarrow> uid) \<Rightarrow> uid set \<Rightarrow> 'r list \<Rightarrow> bool" where
  "owned key own us rows \<longleftrightarrow> distinct (map key rows) \<and> own ` set rows \<subseteq> us"

definition of_clients :: "('r \<Rightarrow> string) \<Rightarrow> oauth_client list \<Rightarrow> 'r list \<Rightarrow> bool" where
  "of_clients cli cs rows \<longleftrightarrow> cli ` set rows \<subseteq> cli_id ` set cs"

definition one_successor :: "oauth_token list \<Rightarrow> bool" where
  "one_successor rows \<longleftrightarrow> distinct (map ot_rotated_from (filter (\<lambda>x. ot_rotated_from x \<noteq> None) rows))"

definition clients_ok :: "oauth_client list \<Rightarrow> bool" where
  "clients_ok cs \<longleftrightarrow> distinct (map cli_id cs) \<and> (\<forall>x \<in> set cs. cli_method x = MethodNone \<longleftrightarrow> cli_secret x = None)"

definition accounts_ok :: "auth_db \<Rightarrow> bool" where
  "accounts_ok w \<longleftrightarrow> (let us = usr_id ` set (ad_users w) in
     ids_ok usr_id (ad_users w) (ad_next w) \<and> distinct (map usr_email (ad_users w)) \<and>
     owned us_hash us_user us (ad_logins w) \<and> owned ak_hash ak_user us (ad_keys w) \<and>
     owned rt_hash rt_user us (ad_resets w) \<and> owned vt_hash vt_user us (ad_verifications w) \<and>
     owned oc_hash oc_user us (ad_codes w) \<and> owned ot_hash ot_user us (ad_tokens w) \<and>
     clients_ok (ad_clients w) \<and> of_clients oc_client (ad_clients w) (ad_codes w) \<and>
     of_clients ot_client (ad_clients w) (ad_tokens w) \<and> one_successor (ad_tokens w))"

definition ok_step :: "auth_db \<Rightarrow> auth_db \<Rightarrow> bool" where
  "ok_step w w' \<longleftrightarrow> (accounts_ok w \<longrightarrow> accounts_ok w')"

interpretation okay: tx_preorder ok_step
  by unfold_locales (auto simp: ok_step_def)

section \<open>How a table changes\<close>

lemma owned_filter: "owned key own us rows \<Longrightarrow> owned key own us (filter p rows)"
  by (auto simp: owned_def distinct_map_filter)

lemma owned_update:
  "owned key own us rows \<Longrightarrow> (\<And>r. p r \<Longrightarrow> key (f r) = key r \<and> own (f r) = own r) \<Longrightarrow> owned key own us (sql_update p f rows)"
  by (auto simp: owned_def set_sql_update distinct_update_key)

lemma owned_snoc: "owned key own us rows \<Longrightarrow> key x \<notin> key ` set rows \<Longrightarrow> own x \<in> us \<Longrightarrow> owned key own us (rows @ [x])"
  by (auto simp: owned_def)

lemma owned_mono: "owned key own us rows \<Longrightarrow> us \<subseteq> us' \<Longrightarrow> owned key own us' rows"
  by (auto simp: owned_def)

lemma of_clients_rows:
  "of_clients cli cs rows \<Longrightarrow> of_clients cli cs (filter p rows)"
  "of_clients cli cs rows \<Longrightarrow> (\<And>r. q r \<Longrightarrow> cli (f r) = cli r) \<Longrightarrow> of_clients cli cs (sql_update q f rows)"
  "of_clients cli cs rows \<Longrightarrow> cli x \<in> cli_id ` set cs \<Longrightarrow> of_clients cli cs (rows @ [x])"
  by (auto simp: of_clients_def set_sql_update)

lemma of_clients_clients:
  "of_clients cli cs rows \<Longrightarrow> of_clients cli (cs @ [c]) rows"
  "of_clients cli cs rows \<Longrightarrow> (\<And>r. q r \<Longrightarrow> cli_id (g r) = cli_id r) \<Longrightarrow> of_clients cli (sql_update q g cs) rows"
  "of_clients cli cs rows \<Longrightarrow> of_clients cli (filter (\<lambda>x. cli_id x \<notin> I) cs) (filter (\<lambda>x. cli x \<notin> I) rows)"
proof -
  show "of_clients cli cs rows \<Longrightarrow> of_clients cli (cs @ [c]) rows" by (auto simp: of_clients_def)
  show "of_clients cli cs rows \<Longrightarrow> (\<And>r. q r \<Longrightarrow> cli_id (g r) = cli_id r) \<Longrightarrow> of_clients cli (sql_update q g cs) rows"
    using map_eq_image [OF sql_update_cong_key [of cs q cli_id g]] by (simp add: of_clients_def)
  show "of_clients cli cs rows \<Longrightarrow> of_clients cli (filter (\<lambda>x. cli_id x \<notin> I) cs) (filter (\<lambda>x. cli x \<notin> I) rows)"
    unfolding of_clients_def
  proof
    fix c assume rows: "cli ` set rows \<subseteq> cli_id ` set cs" and "c \<in> cli ` set (filter (\<lambda>x. cli x \<notin> I) rows)"
    then have "c \<in> cli_id ` set cs" "c \<notin> I" by auto
    then show "c \<in> cli_id ` set (filter (\<lambda>x. cli_id x \<notin> I) cs)" by auto
  qed
qed

lemma one_successor_rows:
  "one_successor rows \<Longrightarrow> one_successor (filter p rows)"
  "one_successor rows \<Longrightarrow> (\<And>r. q r \<Longrightarrow> ot_rotated_from (f r) = ot_rotated_from r) \<Longrightarrow> one_successor (sql_update q f rows)"
  "one_successor rows \<Longrightarrow> ot_rotated_from x = None \<or> ot_rotated_from x \<notin> set (map ot_rotated_from rows) \<Longrightarrow> one_successor (rows @ [x])"
proof -
  show "one_successor (filter p rows)" if "one_successor rows"
  proof -
    have "filter (\<lambda>x. ot_rotated_from x \<noteq> None) (filter p rows) = filter p (filter (\<lambda>x. ot_rotated_from x \<noteq> None) rows)"
      by (simp add: conj_commute)
    with that show ?thesis unfolding one_successor_def by (simp only: distinct_map_filter)
  qed
  show "one_successor (sql_update q f rows)" if "one_successor rows" "\<And>r. q r \<Longrightarrow> ot_rotated_from (f r) = ot_rotated_from r"
  proof -
    have "map ot_rotated_from (filter (\<lambda>x. ot_rotated_from x \<noteq> None) (sql_update q f rows)) =
        map ot_rotated_from (filter (\<lambda>x. ot_rotated_from x \<noteq> None) rows)"
      using that(2) by (induction rows) (auto simp: sql_update_def)
    with that(1) show ?thesis by (simp add: one_successor_def)
  qed
  show "one_successor (rows @ [x])"
    if "one_successor rows" "ot_rotated_from x = None \<or> ot_rotated_from x \<notin> set (map ot_rotated_from rows)"
    using that by (auto simp: one_successor_def)
qed

lemma clients_ok_rows:
  "clients_ok cs \<Longrightarrow> clients_ok (filter p cs)"
  "clients_ok cs \<Longrightarrow> (\<And>r. q r \<Longrightarrow> cli_id (g r) = cli_id r \<and> cli_method (g r) = cli_method r \<and> cli_secret (g r) = cli_secret r) \<Longrightarrow>
   clients_ok (sql_update q g cs)"
  "clients_ok cs \<Longrightarrow> cli_id x \<notin> cli_id ` set cs \<Longrightarrow> (cli_method x = MethodNone) = (cli_secret x = None) \<Longrightarrow> clients_ok (cs @ [x])"
  by (auto simp: clients_ok_def distinct_map_filter distinct_update_key set_sql_update)

lemmas table_rules = owned_filter owned_update owned_snoc of_clients_rows of_clients_clients one_successor_rows clients_ok_rows

lemma ids_ok_image: "ids_ok key rows n \<longleftrightarrow> distinct (map key rows) \<and> (\<forall>i \<in> key ` set rows. i < n)"
  by (auto simp: ids_ok_def)

text \<open>The users change only by gaining a row or by keeping their ids and distinct addresses.\<close>

lemma ok_users:
  assumes "map usr_id (ad_users w') = map usr_id (ad_users w)" and "distinct (map usr_email (ad_users w)) \<longrightarrow> distinct (map usr_email (ad_users w'))"
    and "ad_next w' = ad_next w" and "ad_logins w' = ad_logins w" and "ad_keys w' = ad_keys w" and "ad_resets w' = ad_resets w"
    and "ad_verifications w' = ad_verifications w" and "ad_codes w' = ad_codes w" and "ad_tokens w' = ad_tokens w" and "ad_clients w' = ad_clients w"
  shows "ok_step w w'"
proof -
  note ids = map_eq_image [OF assms(1)]
  show ?thesis
    unfolding ok_step_def accounts_ok_def Let_def ids_ok_image assms(1,3-10) ids using assms(2) by blast
qed

lemma ok_insert_user: "moves ok_step (insert_user row)"
proof (rule withinI)
  fix w a w' assume run: "insert_user row w = Inr (a, w')"
  let ?x = "row\<lparr>usr_id := ad_next w\<rparr>"
  have users: "ad_users w' = ad_users w @ [?x]" and fresh: "usr_email ?x \<notin> usr_email ` set (ad_users w)"
    using run by (auto simp: insert_user_def Let_def split: if_splits)
  have rest: "ad_next w' = Suc (ad_next w)" "ad_logins w' = ad_logins w" "ad_keys w' = ad_keys w" "ad_resets w' = ad_resets w"
    "ad_verifications w' = ad_verifications w" "ad_codes w' = ad_codes w" "ad_tokens w' = ad_tokens w" "ad_clients w' = ad_clients w"
    using run by (auto simp: insert_user_def Let_def split: if_splits)
  have "ids_ok usr_id (ad_users w) (ad_next w) \<Longrightarrow> ids_ok usr_id (ad_users w') (ad_next w')"
    unfolding ids_ok_def users rest by fastforce
  then show "ok_step w w'"
    using fresh by (auto simp: ok_step_def accounts_ok_def Let_def rest users intro: owned_mono)
qed

section \<open>The statements\<close>

lemma ok_in_store: "moves (\<lambda>s s'. tbl_users s' = tbl_users s) m \<Longrightarrow> moves ok_step (in_store m)"
  by (fastforce simp: moves_def in_store_def ad_users_def split: sum.splits prod.splits intro!: ok_users)

lemma ok_live: "moves ok_step (in_store (userIsLiveForIssuance u))"
  by (auto simp: moves_def liveness_read okay.R_refl)

lemma row_exists: "user_row u w \<noteq> None \<Longrightarrow> u \<in> usr_id ` set (ad_users w)"
  by (auto simp: user_row_def dest: find_row_Some)

lemma ids_ok_later: "ids_ok key rows n \<Longrightarrow> ids_ok key rows (Suc n)"
  by (auto simp: ids_ok_def less_Suc_eq)

lemma ok_insert_row:
  "moves ok_step (insert_login a)" "moves ok_step (insert_key b)" "moves ok_step (insert_reset c)"
  "moves ok_step (insert_verification d)"
  unfolding moves_def insert_login_def insert_key_def insert_reset_def insert_verification_def Let_def
  by (auto simp: ok_step_def accounts_ok_def Let_def intro!: owned_snoc ids_ok_later row_exists split: if_splits)

lemma ok_insert_code: "moves ok_step (insert_code e)"
  unfolding moves_def insert_code_def Let_def
  by (auto simp: ok_step_def accounts_ok_def Let_def code_client_known_def intro!: owned_snoc ids_ok_later row_exists
      of_clients_rows(3) split: if_splits)

lemma ok_insert_token: "moves ok_step (insert_token f)"
  unfolding moves_def insert_token_def Let_def
  by (auto simp: ok_step_def accounts_ok_def Let_def code_client_known_def intro!: owned_snoc ids_ok_later row_exists
      of_clients_rows(3) one_successor_rows(3) split: if_splits)

lemmas ok_inserts = ok_insert_row ok_insert_code ok_insert_token

lemma ok_pure: "(\<And>w. ok_step w (f w)) \<Longrightarrow> moves ok_step (\<lambda>w. Inr (a w, f w))"
  by (auto simp: moves_def)

lemma ok_close_rows:
  "ok_step w (delete_logins p w)" "ok_step w (burn_resets t u w)" "ok_step w (consume_reset t h w)"
  "ok_step w (revoke_tokens t q w)" "ok_step w (revoke_keys t u w)" "ok_step w (delete_clients cs w)"
  "ok_step w (burn_verifications t u w)"
  by (auto simp: delete_logins_def burn_resets_def consume_reset_def revoke_tokens_def revoke_keys_def delete_clients_def
      burn_verifications_def update_verifications_def ok_step_def accounts_ok_def Let_def intro!: table_rules)

lemma ok_verifications:
  "(\<And>x. q x \<Longrightarrow> vt_hash (f x) = vt_hash x \<and> vt_user (f x) = vt_user x) \<Longrightarrow> ok_step w (update_verifications q f w)"
  "ok_step w (w\<lparr>ad_verifications := filter p (ad_verifications w)\<rparr>)"
  by (auto simp: update_verifications_def ok_step_def accounts_ok_def Let_def intro!: table_rules)

lemma ok_set_users:
  assumes "\<And>x. p x \<Longrightarrow> usr_id (f x) = usr_id x \<and> usr_email (f x) = usr_email x"
  shows "ok_step w (set_users (sql_update p f) w)"
  by (rule ok_users) (use assms in \<open>simp_all add: sql_update_cong_key distinct_update_key set_users_def\<close>)

lemma ok_passwords: "ok_step w (set_users (sql_update p (\<lambda>x. x\<lparr>usr_password_hash := h\<rparr>)) w)" "ok_step w (stamp_verified t u w)"
  by (simp_all add: stamp_verified_def ok_set_users)

lemma ok_updates:
  "(\<And>x. p x \<Longrightarrow> ak_hash (f x) = ak_hash x \<and> ak_user (f x) = ak_user x) \<Longrightarrow> moves ok_step (update_keys p f)"
  "moves ok_step (use_codes t q)" "moves ok_step (revoke_rows t r)"
  "(\<And>x. q' x \<Longrightarrow> cli_id (g x) = cli_id x \<and> cli_method (g x) = cli_method x \<and> cli_secret (g x) = cli_secret x) \<Longrightarrow>
   moves ok_step (update_clients q' g)"
  "moves ok_step (registerClient t c)"
  by (auto simp: update_keys_def use_codes_def revoke_rows_def update_clients_def registerClient_def moves_def ok_step_def
      accounts_ok_def Let_def intro!: table_rules split: if_splits)

lemmas ok_statements = okay.within_ret okay.within_throw okay.within_query okay.within_bind okay.within_wait
  okay.within_map_error okay.within_if okay.within_case_option okay.within_case_list okay.within_for_each
  ok_live ok_insert_user ok_inserts ok_updates ok_pure

lemmas ok_after = okay.R_trans [OF _ ok_close_rows(1)] okay.R_trans [OF _ ok_close_rows(2)]
  okay.R_trans [OF _ ok_close_rows(3)] okay.R_trans [OF _ ok_close_rows(4)] okay.R_trans [OF _ ok_close_rows(5)]
  okay.R_trans [OF _ ok_close_rows(7)] okay.R_trans [OF _ ok_passwords(2)]

section \<open>The operations\<close>

lemma ok_guard: "(\<And>w. ok_step w (g w)) \<Longrightarrow> moves ok_step (guardCredentialIssuance g u)"
  unfolding guardCredentialIssuance_def by (intro ok_statements)

lemma ok_checks: "moves ok_step (assertClientCanBeIssued collate t u c cap)" "moves ok_step (assertClientCanRotate collate t u c cap)"
  unfolding assertClientCanBeIssued_def assertClientCanRotate_def Let_def by (intro ok_statements)+

lemma ok_guarded:
  assumes gap: "\<And>w. ok_step w (g w)"
  shows "moves ok_step (insertSession g t u h e)" and "moves ok_step (insertApiKey g t u n h p)"
    and "moves ok_step (insertPasswordResetToken g t u h e)" and "moves ok_step (insertEmailVerificationToken g t u v)"
    and "moves ok_step (insertOauthCode g t u c)"
  unfolding insertSession_def insertApiKey_def insertPasswordResetToken_def insertEmailVerificationToken_def insertOauthCode_def
  by (intro ok_statements ok_guard gap)+

lemma ok_resolvers:
  assumes gap: "\<And>w. ok_step w (g w)"
  shows "moves ok_step (rotatePasswordAndRevokeOthers g t u old new keep)" and "moves ok_step (auth_reset_password g t h new)"
    and "moves ok_step (auth_verify_email g t h p)" and "moves ok_step (auth_resend_email_verification g t u n)"
    and "moves ok_step (auth_retry_unverified_signup g t u old new n)" and "moves ok_step (deleteClients g t ids)"
  unfolding rotatePasswordAndRevokeOthers_def auth_reset_password_def auth_verify_email_def
    auth_resend_email_verification_def auth_retry_unverified_signup_def deleteClients_def
  by (intro ok_statements gap ok_after ok_close_rows ok_passwords ok_verifications; simp)+

lemma ok_tokens:
  assumes gap: "\<And>w. ok_step w (g w)" and gap2: "\<And>w. ok_step w (g2 w)"
  shows "moves ok_step (insertOauthTokenPair g g2 collate t u access refresh cap)"
    and "moves ok_step (rotateOauthRefreshToken g g2 collate t u h access new cap)"
    and "moves ok_step (revokeClientForUser g g2 t u c)"
  unfolding insertOauthTokenPair_def rotateOauthRefreshToken_def revokeClientForUser_def Let_def
  by (intro ok_statements ok_checks gap gap2)+

lemma ok_others:
  "moves ok_step (deleteOtherSessions u keep)" "moves ok_step (revokeApiKey t u i)" "moves ok_step (touchApiKeyLastUsed t u h)"
  "moves ok_step (consumePasswordResetToken t h)" "moves ok_step (insertUser email h verified)"
  "moves ok_step (insertUnverifiedUserWithEmailVerificationToken t email h n)" "moves ok_step (consumeOauthCode t h)"
  "moves ok_step (materializeClientMetadata t d)" "moves ok_step (updateLastUsedAt t c)"
  unfolding deleteOtherSessions_def revokeApiKey_def touchApiKeyLastUsed_def consumePasswordResetToken_def insertUser_def
    insertUnverifiedUserWithEmailVerificationToken_def auth_create_unverified_signup_def consumeOauthCode_def
    materializeClientMetadata_def updateLastUsedAt_def
  by (intro ok_statements ok_close_rows; simp)+

lemma ok_password: "moves ok_step (updateUserPassword u old new)"
  unfolding updateUserPassword_def Let_def by (intro ok_pure ok_passwords)

lemma ok_audit: "moves ok_step (insertAuditLog e)"
  unfolding insertAuditLog_def by (intro ok_pure ok_users) simp_all

section \<open>Erasure\<close>

lemma ok_after_gap: "(\<And>w. ok_step w (g w)) \<Longrightarrow> moves ok_step m \<Longrightarrow> (\<And>a. moves ok_step (f a)) \<Longrightarrow> moves ok_step (after_gap g m f)"
  unfolding after_gap_def by (intro ok_statements)

lemma ok_update_table:
  "(\<And>w. ok_step w (put (sql_update p f) w)) \<Longrightarrow> moves ok_step (update_table tab put p f)"
  "(\<And>w. ok_step w (put (filter (\<lambda>r. \<not> p r)) w)) \<Longrightarrow> moves ok_step (delete_table tab put p)"
  unfolding update_table_def delete_table_def by (rule ok_pure, assumption)+

lemma ok_side_tables:
  "ok_step w (ad_edge_proposals_update a w)" "ok_step w (ad_fact_proposals_update b w)" "ok_step w (ad_profiles_update c w)"
  "ok_step w (ad_retrieval_update d w)" "ok_step w (ad_write_scope_update e w)" "ok_step w (ad_judgment_update f w)"
  by (rule ok_users; simp)+

lemma ok_credential_tables:
  "ok_step w (ad_logins_update (filter p) w)" "ok_step w (ad_codes_update (filter q) w)"
  "ok_step w (ad_resets_update (filter r) w)" "ok_step w (ad_verifications_update (filter v) w)"
  "ok_step w (ad_keys_update (sql_update k (\<lambda>x. x\<lparr>ak_revoked := Some t\<rparr>)) w)"
  "ok_step w (ad_tokens_update (sql_update l (\<lambda>x. x\<lparr>ot_revoked := Some t\<rparr>)) w)"
  by (auto simp: ok_step_def accounts_ok_def Let_def intro!: table_rules)

lemma set_users_next [simp]: "ad_next (set_users f w) = ad_next w"
  by (simp add: set_users_def)

lemma ok_tombstone: "moves ok_step (tombstone_user u)"
  by (auto simp: moves_def tombstone_user_def Let_def sql_update_cong_key intro!: ok_users split: if_splits)

lemmas ok_store_updates = users_store_updates [THEN ok_in_store]

lemma ok_erase:
  assumes gap: "\<And>k w. ok_step w (gap k w)"
  shows "moves ok_step (eraseAccountData gap u now)"
  unfolding eraseAccountData_def erase_content_def erase_settings_def erase_credentials_def
  by (intro ok_statements ok_after_gap gap ok_store_updates ok_update_table ok_side_tables ok_credential_tables ok_tombstone)

section \<open>Every reachable state is well formed\<close>

lemma creds_ok:
  shows "cred H us L w w' \<Longrightarrow> ok_step w w'" and "creds H us L w w' \<Longrightarrow> ok_step w w'"
proof (induction rule: cred_creds.inducts)
  case (cred_store w s L)
  then show ?case by (auto intro!: ok_users simp: ad_users_def dest: ops_keep_users)
next
  case (creds_step L w v z)
  then show ?case by (blast intro: okay.R_trans)
next
  case (cred_erase u L gap w now)
  have "ok_step w (gap k w)" for k w using cred_erase.IH by (cases k) auto
  then show ?case by (intro okay.run_within ok_erase)
qed (auto simp: resetPasswordAtomic_def verifyEmailTokenAtomic_def replaceEmailVerificationTokens_def
    retryUnverifiedSignupWithEmailVerificationToken_def intro!: okay.run_within ok_guarded ok_resolvers ok_tokens ok_others
    ok_password ok_audit ok_updates okay.R_refl)


end
