(* ===== verification/AccountPolicies.thy ===== *)
theory AccountPolicies
  imports AccountTheorems AccountServices
begin

text \<open>
  The account services: what an erasure writes, when it is refused, how it meets the session closer and
  the audit log; what a password change, a login and a signup do.
\<close>

section \<open>What an erasure writes\<close>

text \<open>The specification: every table, with the rows of \<open>u\<close> redacted, revoked or gone.\<close>

definition tombstoned :: "uid \<Rightarrow> user \<Rightarrow> user" where
  "tombstoned u x = (if usr_id x = u then x\<lparr>usr_email := deletedEmail u, usr_password_hash := ERASED_PASSWORD_HASH,
     usr_verified_at := None\<rparr> else x)"

definition forget_store :: "uid \<Rightarrow> instant \<Rightarrow> store \<Rightarrow> store" where
  "forget_store u now s = s\<lparr>
     tbl_memories := map (\<lambda>m. if mem_user m = u then redact_memory now m else m) (tbl_memories s),
     tbl_facts := map (\<lambda>f. if fact_user f = u then redact_fact f else f) (tbl_facts s),
     tbl_commitments := map (\<lambda>c. if com_user c = u then redact_commitment now c else c) (tbl_commitments s),
     tbl_sessions := map (\<lambda>x. if ses_user x = u then redact_session x else x) (tbl_sessions s),
     tbl_users := map (tombstoned u) (tbl_users s)\<rparr>"

definition forget :: "uid \<Rightarrow> instant \<Rightarrow> auth_db \<Rightarrow> auth_db" where
  "forget u now w = w\<lparr>
     ad_store := forget_store u now (ad_store w),
     ad_edge_proposals := map (\<lambda>p. if ep_user p = u then redact_edge_proposal p else p) (ad_edge_proposals w),
     ad_fact_proposals := map (\<lambda>p. if fp_user p = u then redact_fact_proposal p else p) (ad_fact_proposals w),
     ad_profiles := map (\<lambda>p. if pf_user p = u then clear_profile now p else p) (ad_profiles w),
     ad_retrieval := map (\<lambda>p. if sp_user p = u then reset_scope_policy now p else p) (ad_retrieval w),
     ad_write_scope := map (\<lambda>p. if sp_user p = u then reset_scope_policy now p else p) (ad_write_scope w),
     ad_judgment := map (\<lambda>p. if jp_user p = u then reset_judgment_policy now p else p) (ad_judgment w),
     ad_logins := filter (\<lambda>x. us_user x \<noteq> u) (ad_logins w),
     ad_keys := map (\<lambda>x. if ak_user x = u \<and> ak_revoked x = None then x\<lparr>ak_revoked := Some now\<rparr> else x) (ad_keys w),
     ad_tokens := map (\<lambda>x. if ot_user x = u \<and> ot_revoked x = None then x\<lparr>ot_revoked := Some now\<rparr> else x) (ad_tokens w),
     ad_codes := filter (\<lambda>x. oc_user x \<noteq> u) (ad_codes w),
     ad_resets := filter (\<lambda>x. rt_user x \<noteq> u) (ad_resets w),
     ad_verifications := filter (\<lambda>x. vt_user x \<noteq> u) (ad_verifications w)\<rparr>"

lemma quiet_memories:
  assumes "constraints s"
  shows "\<exists>rows. update_memories u (\<lambda>_. True) (redact_memory now) s = Inr (rows,
    s\<lparr>tbl_memories := map (\<lambda>m. if mem_user m = u then redact_memory now m else m) (tbl_memories s)\<rparr>)"
proof -
  have "live_hashes (sql_update (\<lambda>m. mem_user m = u) (redact_memory now) (tbl_memories s)) = live_hashes (tbl_memories s)"
    by (rule live_hashes_map) (simp add: redact_memory_def)
  with assms show ?thesis
    by (auto simp: update_memories_def Let_def constraints_def memories_ok_def sql_returning_def redact_memory_def
        sql_update_def)
qed

lemma quiet_facts:
  assumes "constraints s"
  shows "\<exists>rows. update_facts u (\<lambda>_. True) redact_fact (s\<lparr>tbl_memories := ms\<rparr>) = Inr (rows,
    s\<lparr>tbl_memories := ms, tbl_facts := map (\<lambda>f. if fact_user f = u then redact_fact f else f) (tbl_facts s)\<rparr>)"
  using assms
  by (auto simp: update_facts_def Let_def constraints_def facts_ok_def sql_returning_def redact_fact_def sql_update_def)

lemma redacted_keys:
  "mem_keys (map (\<lambda>m. if mem_user m = u then redact_memory now m else m) ms) = mem_keys ms"
  "map com_key (sql_update (\<lambda>c. com_user c = u) (redact_commitment now) cs) = map com_key cs"
  by (auto simp: mem_keys_def redact_memory_def image_iff comp_def intro!: sql_update_cong_key)
    (auto simp: redact_commitment_def com_key_def)

lemma quiet_commitments:
  assumes "constraints s"
  shows "\<exists>rows. update_commitments u (\<lambda>_. True) (redact_commitment now) (s\<lparr>tbl_memories :=
      map (\<lambda>m. if mem_user m = u then redact_memory now m else m) (tbl_memories s), tbl_facts := fs\<rparr>) = Inr (rows,
    s\<lparr>tbl_memories := map (\<lambda>m. if mem_user m = u then redact_memory now m else m) (tbl_memories s), tbl_facts := fs,
      tbl_commitments := map (\<lambda>c. if com_user c = u then redact_commitment now c else c) (tbl_commitments s)\<rparr>)"
proof -
  let ?s = "s\<lparr>tbl_memories := map (\<lambda>m. if mem_user m = u then redact_memory now m else m) (tbl_memories s), tbl_facts := fs\<rparr>"
  let ?rows = "sql_update (\<lambda>c. com_user c = u) (redact_commitment now) (tbl_commitments s)"
  have legal: "find_row (\<lambda>c. com_user c = u \<and> \<not> enforce_commitment_fsm (com_status c) (com_status (redact_commitment now c)))
      (tbl_commitments s) = None"
    by (auto simp: find_row_None redact_commitment_def enforce_commitment_fsm_def)
  have "com_key ` set ?rows \<subseteq> mem_keys (tbl_memories ?s)" "distinct (map com_key ?rows)"
    using assms map_eq_image [OF redacted_keys(2) [of u now "tbl_commitments s"]]
    by (simp_all add: constraints_def commitments_ok_def redacted_keys)
  with legal show ?thesis by (simp add: update_commitments_def Let_def sql_update_def)
qed

lemma quiet_content:
  assumes "constraints (ad_store w)"
  shows "\<exists>r. \<not> er_already r \<and> erase_content (\<lambda>_ w. w) u now w = Inr (r, w\<lparr>
     ad_store := (ad_store w)\<lparr>
       tbl_memories := map (\<lambda>m. if mem_user m = u then redact_memory now m else m) (tbl_memories (ad_store w)),
       tbl_facts := map (\<lambda>f. if fact_user f = u then redact_fact f else f) (tbl_facts (ad_store w)),
       tbl_commitments := map (\<lambda>c. if com_user c = u then redact_commitment now c else c) (tbl_commitments (ad_store w)),
       tbl_sessions := map (\<lambda>x. if ses_user x = u then redact_session x else x) (tbl_sessions (ad_store w))\<rparr>,
     ad_edge_proposals := map (\<lambda>p. if ep_user p = u then redact_edge_proposal p else p) (ad_edge_proposals w),
     ad_fact_proposals := map (\<lambda>p. if fp_user p = u then redact_fact_proposal p else p) (ad_fact_proposals w)\<rparr>)"
proof -
  let ?s = "ad_store w"
  obtain ms where ms: "update_memories u (\<lambda>_. True) (redact_memory now) ?s = Inr (ms,
      ?s\<lparr>tbl_memories := map (\<lambda>m. if mem_user m = u then redact_memory now m else m) (tbl_memories ?s)\<rparr>)"
    using quiet_memories [OF assms] by blast
  note fs = quiet_facts [OF assms, of u "map (\<lambda>m. if mem_user m = u then redact_memory now m else m) (tbl_memories ?s)"]
  note cs = quiet_commitments [OF assms, of u now "map (\<lambda>f. if fact_user f = u then redact_fact f else f) (tbl_facts ?s)"]
  from ms fs cs show ?thesis
    by (auto simp: erase_content_def after_gap_def after_gap_run bind_tx_def wait_for_def in_store_def ret_def
        update_table_def update_sessions_def Let_def sql_update_def EMPTY_ERASURE_def)
qed

definition marker_taken :: "uid \<Rightarrow> auth_db \<Rightarrow> bool" where
  "marker_taken u w \<longleftrightarrow> (\<exists>y \<in> set (ad_users w). usr_id y \<noteq> u \<and> usr_email y = deletedEmail u)"

definition users_ok :: "auth_db \<Rightarrow> bool" where
  "users_ok w \<longleftrightarrow> distinct (map usr_id (ad_users w)) \<and> distinct (map usr_email (ad_users w))"

lemma tombstoned_emails:
  assumes "distinct (map usr_id us)" and "distinct (map usr_email us)"
  shows "distinct (map usr_email (map (tombstoned u) us)) \<longleftrightarrow>
    (\<exists>x \<in> set us. usr_id x = u) \<longrightarrow> (\<forall>y \<in> set us. usr_id y \<noteq> u \<longrightarrow> usr_email y \<noteq> deletedEmail u)"
  using assms
proof (induction us)
  case (Cons x us)
  have others: "map (tombstoned u) us = us" if "usr_id x = u"
    using Cons.prems(1) that by (intro map_idI) (auto simp: tombstoned_def image_iff)
  show ?case
  proof (cases "usr_id x = u")
    case True
    have eq: "map usr_email (map (tombstoned u) (x # us)) = deletedEmail u # map usr_email us"
      using True by (simp only: list.map others) (simp add: tombstoned_def)
    show ?thesis unfolding eq using True Cons.prems by (fastforce simp: image_iff)
  next
    case False
    have eq: "map usr_email (map (tombstoned u) (x # us)) = usr_email x # map usr_email (map (tombstoned u) us)"
      using False by (simp add: tombstoned_def)
    have hit: "usr_email x \<in> set (map usr_email (map (tombstoned u) us)) \<longleftrightarrow>
        (\<exists>z \<in> set us. usr_id z = u) \<and> usr_email x = deletedEmail u"
      using Cons.prems(2) by (auto simp: tombstoned_def image_iff)
    have rest: "distinct (map usr_email (map (tombstoned u) us)) \<longleftrightarrow>
        (\<exists>z \<in> set us. usr_id z = u) \<longrightarrow> (\<forall>y \<in> set us. usr_id y \<noteq> u \<longrightarrow> usr_email y \<noteq> deletedEmail u)"
      using Cons.IH Cons.prems by simp
    show ?thesis unfolding eq distinct.simps hit rest using False by auto
  qed
qed simp

lemma tombstone_rows:
  "sql_update (\<lambda>x. usr_id x = u) (\<lambda>x. x\<lparr>usr_email := deletedEmail u, usr_password_hash := ERASED_PASSWORD_HASH,
     usr_verified_at := None\<rparr>) us = map (tombstoned u) us"
  by (auto simp: sql_update_def tombstoned_def)

lemma erase_run:
  assumes "constraints (ad_store w)" and "users_ok w" and "user_row u w = Some x" and "usr_email x \<noteq> deletedEmail u"
  shows "if marker_taken u w then eraseAccountData (\<lambda>_ w. w) u now w = Inl UniqueViolation
    else \<exists>r. \<not> er_already r \<and> eraseAccountData (\<lambda>_ w. w) u now w = Inr (Some r, forget u (sql_of_date now) w)"
proof -
  let ?t = "sql_of_date now"
  obtain r v where r: "\<not> er_already r" and content: "erase_content (\<lambda>_ w. w) u ?t w = Inr (r, v)" and
    v: "v = w\<lparr>ad_store := (ad_store w)\<lparr>
       tbl_memories := map (\<lambda>m. if mem_user m = u then redact_memory ?t m else m) (tbl_memories (ad_store w)),
       tbl_facts := map (\<lambda>f. if fact_user f = u then redact_fact f else f) (tbl_facts (ad_store w)),
       tbl_commitments := map (\<lambda>c. if com_user c = u then redact_commitment ?t c else c) (tbl_commitments (ad_store w)),
       tbl_sessions := map (\<lambda>x. if ses_user x = u then redact_session x else x) (tbl_sessions (ad_store w))\<rparr>,
     ad_edge_proposals := map (\<lambda>p. if ep_user p = u then redact_edge_proposal p else p) (ad_edge_proposals w),
     ad_fact_proposals := map (\<lambda>p. if fp_user p = u then redact_fact_proposal p else p) (ad_fact_proposals w)\<rparr>"
    using quiet_content [OF assms(1), of u ?t] by blast
  have users: "ad_users v = ad_users w" by (simp add: v ad_users_def)
  have "x \<in> set (ad_users w)" "usr_id x = u" using assms(3) by (auto simp: user_row_def dest: find_row_Some)
  then have taken: "distinct (map usr_email (map (tombstoned u) (ad_users w))) \<longleftrightarrow> \<not> marker_taken u w"
    using tombstoned_emails [of "ad_users w" u] assms(2) by (auto simp: users_ok_def marker_taken_def)
  note run = eraseAccountData_def erase_settings_def erase_credentials_def tombstone_user_def tombstone_rows
    update_table_def delete_table_def Let_def sql_update_def after_gap_def bind_tx_def wait_for_def ret_def query_def
  show ?thesis
  proof (cases "marker_taken u w")
    case True
    with taken assms(3,4) content users show ?thesis by (simp add: run del: map_map)
  next
    case False
    with taken assms(3,4) content users r show ?thesis
      by (auto simp: run v forget_def forget_store_def set_users_def ad_users_def simp del: map_map)
  qed
qed


section \<open>The closer meets an erasure\<close>

lemma redacted_row_keys:
  "map mem_id (map (\<lambda>m. if mem_user m = u then redact_memory t m else m) ms) = map mem_id ms"
  "map com_id (map (\<lambda>c. if com_user c = u then redact_commitment t c else c) cs) = map com_id cs"
  "map com_key (map (\<lambda>c. if com_user c = u then redact_commitment t c else c) cs) = map com_key cs"
  "map fact_id (map (\<lambda>f. if fact_user f = u then redact_fact f else f) fs) = map fact_id fs"
  "map ses_id (map (\<lambda>x. if ses_user x = u then redact_session x else x) xs) = map ses_id xs"
  "map ses_key (map (\<lambda>x. if ses_user x = u then redact_session x else x) xs) = map ses_key xs"
  by (auto simp: redact_memory_def redact_commitment_def redact_fact_def redact_session_def com_key_def ses_key_def)

lemma map_keys:
  "map key (map f xs) = map key xs \<Longrightarrow> x \<in> set xs \<Longrightarrow> key (f x) = key x"
  by (induction xs) auto

lemma ids_ok_map: "map key (map f xs) = map key xs \<Longrightarrow> ids_ok key (map f xs) n = ids_ok key xs n"
  unfolding ids_ok_def by (simp del: map_map) (use map_keys [of key f xs] in auto)

text \<open>An erasure leaves the tables consistent.\<close>

lemma forget_constraints:
  assumes "constraints (ad_store w)"
  shows "constraints (ad_store (forget u t w))"
proof -
  let ?s = "ad_store w"
  let ?ms = "map (\<lambda>m. if mem_user m = u then redact_memory t m else m) (tbl_memories ?s)"
  have keys: "mem_keys ?ms = mem_keys (tbl_memories ?s)" by (rule redacted_keys)
  have hashes: "live_hashes ?ms = live_hashes (tbl_memories ?s)"
    using live_hashes_map [of "redact_memory t" "\<lambda>m. mem_user m = u" "tbl_memories ?s"]
    by (simp add: sql_update_def redact_memory_def)
  have windows: "\<forall>m \<in> set ?ms. window_ok (mem_valid_from m) (mem_valid_to m)"
    using assms by (auto simp: constraints_def memories_ok_def redact_memory_def)
  let ?fs = "map (\<lambda>f. if fact_user f = u then redact_fact f else f) (tbl_facts ?s)"
  have facts: "\<forall>f \<in> set ?fs. window_ok (fact_valid_from f) (fact_valid_to f) \<and> (fact_user f, fact_memory f) \<in> mem_keys (tbl_memories ?s)"
    using assms by (auto simp: constraints_def facts_ok_def redact_fact_def)
  have coms: "com_key ` set (map (\<lambda>c. if com_user c = u then redact_commitment t c else c) (tbl_commitments ?s))
      \<subseteq> mem_keys (tbl_memories ?s)"
    using assms map_eq_image [OF redacted_row_keys(3) [of u t "tbl_commitments ?s"]]
    by (simp add: constraints_def commitments_ok_def)
  show ?thesis
    using assms keys hashes windows facts coms
    by (simp add: forget_def forget_store_def constraints_def memories_ok_def commitments_ok_def edges_ok_def events_ok_def
        facts_ok_def sessions_ok_def ids_ok_map [OF redacted_row_keys(1)] ids_ok_map [OF redacted_row_keys(2)]
        ids_ok_map [OF redacted_row_keys(4)] ids_ok_map [OF redacted_row_keys(5)] redacted_row_keys del: map_map set_map)
qed

lemma erase_is_forget:
  assumes "eraseAccountData (\<lambda>_ w. w) u now w = Inr (Some r, w1)" and "\<not> er_already r"
    and "constraints (ad_store w)" and "users_ok w"
  shows "w1 = forget u (sql_of_date now) w"
proof -
  from assms(1,2) obtain x where "user_row u w = Some x" and "usr_email x \<noteq> deletedEmail u"
    by (auto simp: eraseAccountData_def tx_Inr EMPTY_ERASURE_def split: option.splits if_splits)
  from erase_run [OF assms(3,4) this, of now] assms(1) show ?thesis by (auto split: if_splits)
qed

text \<open>After an erasure and whatever the tenants' operations do next, the session is past its old epoch.\<close>

lemma erased_epoch:
  assumes "eraseAccountData (\<lambda>_ w. w) u now w = Inr (Some r, w1)" and "\<not> er_already r"
    and "constraints (ad_store w)" and "users_ok w" and "session_of u run (ad_store w) = Some z"
    and "ops us (ad_store w1) s"
  shows "sessions_ok s \<and> (\<exists>y. session_of u run s = Some y \<and> ses_epoch z < ses_epoch y)"
proof -
  have w1: "w1 = forget u (sql_of_date now) w" by (rule erase_is_forget [OF assms(1-4)])
  have "inv_step (ad_store w1) s"
    by (rule op_respects(2) [OF inv.tenant_contract_axioms _ _ assms(6)]) (auto simp: inv_step_def)
  then have ok: "sessions_ok s"
    using inv_stepD forget_constraints [OF assms(3), of u "sql_of_date now"] w1 by (auto simp: constraints_def)
  have "z \<in> set (tbl_sessions (ad_store w))" "ses_user z = u" "ses_id z = run"
    using assms(5) by (auto simp: session_of_def dest: find_row_Some)
  then have "redact_session z \<in> set (tbl_sessions (ad_store w1))"
    by (auto simp: w1 forget_def forget_store_def image_iff intro!: bexI [of _ z])
  moreover have "evolves (ad_store w1) s"
    by (rule op_respects(2) [OF hist.tenant_contract_axioms hist.R_refl evolves_trans assms(6)])
  ultimately obtain y where y: "y \<in> set (tbl_sessions s)" "ses_step (redact_session z) y" by (blast dest: evolves_session)
  then have "session_of u run s = Some y"
    using \<open>ses_user z = u\<close> \<open>ses_id z = run\<close> by (simp add: session_of_iff [OF ok] ses_step_def redact_session_def)
  with y(2) ok show ?thesis by (auto simp: ses_step_def redact_session_def)
qed


end
