(* ===== verification/LoginTheorems.thy ===== *)
theory LoginTheorems
  imports AccountPolicies
begin

text \<open>
  Theorems about the services of \<open>AccountServices\<close>: a credential that was issued is recognised, changing
  a password ends the other sessions, deleting an account twice, and what signing up does on the
  address that marks an erased account.
\<close>

section \<open>Issued credentials are recognised\<close>

lemma commit_Inr: "commit env k m w = (Inr a, w') \<longleftrightarrow> m (ae_tx_now env k) (ae_lull env k w) = Inr (a, w')"
  by (auto simp: commit_def run_tx_def split: sum.splits)

lemma look_run: "look env k f w = (Inr (f (ae_tx_now env k) (ae_lull env k w)), ae_lull env k w)"
  by (simp add: look_def commit_def run_tx_def query_def)

lemma look_Inr: "look env k f w = (Inr a, w') \<longleftrightarrow> w' = ae_lull env k w \<and> a = f (ae_tx_now env k) w'"
  by (auto simp: look_run)

lemma fail_not_Inr: "fail_with e w \<noteq> (Inr a, w')"
  by (simp add: fail_with_def)

lemmas account_Inr = svc_Inr commit_Inr look_Inr fail_not_Inr

lemma issued_login:
  assumes "insertSession g t u h d w = Inr ((), w')"
  shows "find_row (\<lambda>x. us_hash x = h \<and> t' < us_expires x) (ad_logins w') =
    (if t' < sql_of_date d then Some \<lparr>us_id = ad_next (g w), us_user = u, us_hash = h, us_expires = sql_of_date d, us_created = t\<rparr>
     else None)"
proof -
  from assms obtain v where v: "insert_login \<lparr>us_id = 0, us_user = u, us_hash = h, us_expires = sql_of_date d, us_created = t\<rparr> v = Inr ((), w')"
    and "v = g w"
    by (auto simp: insertSession_def guardCredentialIssuance_def tx_Inr liveness_read split: if_splits)
  then have "ad_logins w' = ad_logins v @ [\<lparr>us_id = ad_next v, us_user = u, us_hash = h, us_expires = sql_of_date d, us_created = t\<rparr>]"
    and "h \<notin> us_hash ` set (ad_logins v)"
    by (auto simp: insert_login_def Let_def split: if_splits)
  moreover from this(2) have "find_row (\<lambda>x. us_hash x = h \<and> t' < us_expires x) (ad_logins v) = None"
    by (auto simp: find_row_None)
  ultimately show ?thesis using \<open>v = g w\<close> by (simp add: find_row_append find_row_Cons)
qed

lemma issued_key:
  assumes "insertApiKey g t u n h p w = Inr ((i, d), w')"
  shows "(\<forall>x \<in> set (ad_keys w'). ak_hash x = h \<longrightarrow> ak_id x = i \<and> ak_user x = u \<and> ak_revoked x = None) \<and>
    (\<exists>x \<in> set (ad_keys w'). ak_hash x = h \<and> ak_id x = i \<and> ak_user x = u \<and> ak_revoked x = None)"
proof -
  let ?row = "\<lparr>ak_id = i, ak_user = u, ak_name = n, ak_hash = h, ak_prefix = p, ak_revoked = None, ak_last_used = None, ak_created = t\<rparr>"
  have "ad_keys w' = ad_keys (g w) @ [?row]" "h \<notin> ak_hash ` set (ad_keys (g w))"
    using assms
    by (auto simp: insertApiKey_def guardCredentialIssuance_def insert_key_def Let_def tx_Inr liveness_read split: if_splits)
  then show ?thesis by (force simp: image_iff)
qed

lemma resolve_key:
  assumes "\<forall>x \<in> set (ad_keys w). ak_hash x = h \<longrightarrow> ak_user x = u \<and> ak_revoked x = r" and "\<exists>x \<in> set (ad_keys w). ak_hash x = h"
  shows "resolveApiKey h w = (if r = None then Some u else None)"
proof (cases "find_row (\<lambda>x. ak_hash x = h \<and> ak_revoked x = None) (ad_keys w)")
  case None
  then show ?thesis using assms by (auto simp: resolveApiKey_def find_row_None)
next
  case (Some x)
  then show ?thesis using assms by (auto simp: resolveApiKey_def dest!: find_row_Some)
qed

lemma scheme_prefix: "take (length KEY_SCHEME_PREFIX) (KEY_SCHEME_PREFIX @ s) = KEY_SCHEME_PREFIX"
  by simp

lemma issue_session_run:
  "issueSession env k u ttl w = (Inr g, w') \<longleftrightarrow>
     (let d = ae_now env + ttl * MS_PER_HOUR in
      insertSession (ae_gap env) (ae_tx_now env k) u (ae_sha env (ae_random env 0)) d (ae_lull env k w) = Inr ((), w') \<and>
      g = \<lparr>sg_user = u, sg_token = ae_random env 0, sg_expires = d\<rparr>)"
  by (auto simp: issueSession_def Let_def account_Inr)

text \<open>
  C37. An issued credential is recognised, and no longer than it should be. The token of a login
  authenticates its user until the instant it expires and not at that instant; an API key authenticates
  its user until it is revoked and never after.
\<close>

theorem credentials_round_trip:
  assumes "\<And>v. ae_lull env' 0 v = v" and "ae_sha env' = ae_sha env"
  shows "(issueSession env k u ttl w = (Inr g, w1) \<longrightarrow>
      authenticateToken env' (sg_token g) w1 = (Inr (if ae_tx_now env' 0 < sql_of_date (sg_expires g) then Some u else None), w1)) \<and>
    (issueApiKey env u name w = (Inr ik, w2) \<longrightarrow> authenticateApiKey env' (ik_key ik) w2 = (Inr (Some u), w2) \<and>
      (revokeApiKey t u (ik_id ik) w2 = Inr (hit, w3) \<longrightarrow> hit \<and> authenticateApiKey env' (ik_key ik) w3 = (Inr None, w3)))"
proof (intro conjI impI)
  assume "issueSession env k u ttl w = (Inr g, w1)"
  then have "insertSession (ae_gap env) (ae_tx_now env k) u (ae_sha env (sg_token g)) (sg_expires g) (ae_lull env k w) = Inr ((), w1)"
    by (auto simp: issue_session_run Let_def)
  from issued_login [OF this]
  show "authenticateToken env' (sg_token g) w1 = (Inr (if ae_tx_now env' 0 < sql_of_date (sg_expires g) then Some u else None), w1)"
    using assms by (simp add: authenticateToken_def and_then_run look_run resolveSession_def done_with_def)
next
  let ?key = "KEY_SCHEME_PREFIX @ ae_random env 0 @ ''_'' @ ae_random env 1"
  assume "issueApiKey env u name w = (Inr ik, w2)"
  then obtain d where ins: "insertApiKey (ae_gap env) (ae_tx_now env 0) u name (ae_sha env ?key) (ae_random env 0) (ae_lull env 0 w) =
      Inr ((ik_id ik, d), w2)" and key: "ik_key ik = ?key"
    by (auto simp: issueApiKey_def Let_def account_Inr)
  note rows = issued_key [OF ins]
  have auth: "authenticateApiKey env' (ik_key ik) v = (Inr (resolveApiKey (ae_sha env ?key) v), v)" for v
    unfolding authenticateApiKey_def key scheme_prefix look_run assms by simp
  show "authenticateApiKey env' (ik_key ik) w2 = (Inr (Some u), w2)"
    unfolding auth using resolve_key [of w2 "ae_sha env ?key" u None] rows by auto
  assume "revokeApiKey t u (ik_id ik) w2 = Inr (hit, w3)"
  then have w3: "ad_keys w3 = sql_update (\<lambda>x. ak_id x = ik_id ik \<and> ak_user x = u \<and> ak_revoked x = None) (\<lambda>x. x\<lparr>ak_revoked := Some t\<rparr>) (ad_keys w2)"
    and hit: "hit \<longleftrightarrow> (\<exists>x \<in> set (ad_keys w2). ak_id x = ik_id ik \<and> ak_user x = u \<and> ak_revoked x = None)"
    by (auto simp: revokeApiKey_def update_keys_def tx_Inr sql_returning_Nil)
  show hit using hit rows by blast
  let ?f = "\<lambda>x :: api_key. x\<lparr>ak_revoked := Some t\<rparr>"
  have dead: "\<forall>x \<in> set (ad_keys w3). ak_hash x = h \<longrightarrow> ak_user x = u \<and> ak_revoked x = Some t"
    "\<exists>x \<in> set (ad_keys w3). ak_hash x = h" if h: "h = ae_sha env ?key" for h
  proof -
    show "\<forall>x \<in> set (ad_keys w3). ak_hash x = h \<longrightarrow> ak_user x = u \<and> ak_revoked x = Some t"
      using rows [folded h] unfolding w3 set_sql_update by auto
    obtain x where "x \<in> set (ad_keys w2)" "ak_hash x = h" "ak_id x = ik_id ik" "ak_user x = u" "ak_revoked x = None"
      using rows [folded h] by blast
    then have "?f x \<in> set (ad_keys w3)" "ak_hash (?f x) = h" unfolding w3 set_sql_update by auto
    then show "\<exists>x \<in> set (ad_keys w3). ak_hash x = h" by blast
  qed
  show "authenticateApiKey env' (ik_key ik) w3 = (Inr None, w3)"
    unfolding auth using resolve_key [OF dead [OF refl]] by simp
qed

section \<open>Changing a password\<close>

lemma live_read: "in_store (userIsLiveForIssuance u) w = Inr (user_live u (ad_store w), w)"
  using liveness_read by blast

lemma rotate_password_run:
  "rotatePasswordAndRevokeOthers g t u old new keep w =
     Inr (if user_live u (ad_store (g w)) \<and> (\<exists>x \<in> set (ad_users (g w)). usr_id x = u \<and> usr_password_hash x = old)
       then (True, burn_resets t u (delete_logins (other_session u keep) (set_users (sql_update
         (\<lambda>x. usr_id x = u \<and> usr_password_hash x = old) (\<lambda>x. x\<lparr>usr_password_hash := new\<rparr>)) (g w))))
       else (False, g w))"
  by (auto simp: rotatePasswordAndRevokeOthers_def bind_tx_def wait_for_def live_read query_def ret_def find_row_None)

text \<open>
  Changing a password while logged in checks the old one, swaps the hash only if it is still the one
  that was checked, keeps the session that asked and no other session of the user, and uses up every
  pending reset link, in one transaction; API keys and OAuth tokens are left as they are. A change that
  loses the race for the hash is refused like a wrong password, and writes nothing.
\<close>

theorem password_change_ends_other_sessions:
  assumes "v = ae_gap env (ae_lull env 1 (ae_lull env 0 w))"
    and "getUserPasswordHashById u (ae_lull env 0 w) = Some old" and "ae_verify env old current = Some True"
  shows "if user_live u (ad_store v) \<and> (\<exists>x \<in> set (ad_users v). usr_id x = u \<and> usr_password_hash x = old)
    then \<exists>w'. changePasswordAndRevokeOthers env u current new token w = (Inr (), w') \<and>
      ad_users w' = sql_update (\<lambda>x. usr_id x = u \<and> usr_password_hash x = old)
        (\<lambda>x. x\<lparr>usr_password_hash := ae_hash_password env new\<rparr>) (ad_users v) \<and>
      ad_logins w' = filter (\<lambda>x. us_user x = u \<longrightarrow> us_hash x = ae_sha env token) (ad_logins v) \<and>
      (\<forall>x \<in> set (ad_resets w'). rt_user x = u \<longrightarrow> rt_consumed x \<noteq> None) \<and>
      ad_keys w' = ad_keys v \<and> ad_tokens w' = ad_tokens v
    else \<exists>v'. changePasswordAndRevokeOthers env u current new token w = (Inl InvalidCurrentPassword, v') \<and> v' = v"
proof -
  have verified: "verifyCurrentPasswordHash env u current w = (Inr old, ae_lull env 0 w)"
    using assms(2,3) by (simp add: verifyCurrentPasswordHash_def and_then_run look_run verifyPassword_def done_with_def)
  have run: "changePasswordAndRevokeOthers env u current new token w =
      (case rotatePasswordAndRevokeOthers (ae_gap env) (ae_tx_now env 1) u old (ae_hash_password env new) (Some (ae_sha env token))
         (ae_lull env 1 (ae_lull env 0 w)) of Inl e \<Rightarrow> (Inl e, ae_lull env 1 (ae_lull env 0 w))
       | Inr (ok, w') \<Rightarrow> if ok then (Inr (), w') else (Inl InvalidCurrentPassword, w'))"
    by (simp add: changePasswordAndRevokeOthers_def and_then_run verified commit_def run_tx_def done_with_def
        fail_with_def split: sum.split prod.split)
  show ?thesis
    unfolding run rotate_password_run assms(1) [symmetric]
    by (simp add: burn_resets_def delete_logins_def set_users_def ad_users_def other_session_def set_sql_update) auto
qed

section \<open>Deleting an account twice\<close>

text \<open>
  Deleting an account is idempotent. The first deletion erases it and records one entry, with the
  counts and nothing else; deleting it again, whenever, reports it as already erased and changes
  nothing, when the two do not overlap.
\<close>

theorem deletion_runs_once:
  assumes "constraints (ad_store w)" and "users_ok w" and "user_row u w = Some x" and "usr_email x \<noteq> deletedEmail u"
    and "\<not> marker_taken u w" and "\<not> auditLogEntryExists u TOMBSTONE_ACTION w"
  shows "\<exists>r w1. deleteAccount None (\<lambda>_ w. w) (\<lambda>_ w. w) t u now w = (Inr (False, r), w1) \<and>
    w1 = (forget u (sql_of_date now) w)\<lparr>ad_audit := ad_audit w @ [tombstone_entry u t r]\<rparr> \<and>
    (\<forall>t' now'. deleteAccount None (\<lambda>_ w. w) (\<lambda>_ w. w) t' u now' w1 = (Inr (True, EMPTY_ERASURE), w1))"
proof -
  obtain r where r: "\<not> er_already r" and erase: "eraseAccountData (\<lambda>_ w. w) u now w = Inr (Some r, forget u (sql_of_date now) w)"
    using erase_run [OF assms(1-4), of now] assms(5) by auto
  let ?w = "forget u (sql_of_date now) w"
  let ?w1 = "?w\<lparr>ad_audit := ad_audit w @ [tombstone_entry u t r]\<rparr>"
  have audit: "ad_audit ?w = ad_audit w" by (simp add: forget_def)
  have first: "deleteAccount None (\<lambda>_ w. w) (\<lambda>_ w. w) t u now w = (Inr (False, r), ?w1)"
    using r assms(6)
    by (simp add: deleteAccount_def and_then_run done_with_def run_tx_def erase auditLogEntryExists_def audit insertAuditLog_def)
  have "ad_users ?w1 = sql_update (\<lambda>x. usr_id x = u) (\<lambda>x. x\<lparr>usr_email := deletedEmail u,
      usr_password_hash := ERASED_PASSWORD_HASH, usr_verified_at := None\<rparr>) (ad_users w)"
    unfolding tombstone_rows by (simp add: forget_def forget_store_def ad_users_def)
  then obtain y where "user_row u ?w1 = Some y" "usr_email y = deletedEmail u"
    using assms(3) find_row_Some [OF assms(3) [unfolded user_row_def]] by (auto simp: user_row_def find_row_update)
  then have "eraseAccountData (\<lambda>_ w. w) u now' ?w1 = Inr (Some EMPTY_ERASURE, ?w1)" for now'
    by (simp add: eraseAccountData_def bind_tx_def wait_for_def query_def ret_def)
  moreover have "auditLogEntryExists u TOMBSTONE_ACTION ?w1"
    by (auto simp: auditLogEntryExists_def find_row_append find_row_Cons tombstone_entry_def split: option.split)
  ultimately have "deleteAccount None (\<lambda>_ w. w) (\<lambda>_ w. w) t' u now' ?w1 = (Inr (True, EMPTY_ERASURE), ?w1)" for t' now'
    by (simp add: deleteAccount_def and_then_run done_with_def run_tx_def EMPTY_ERASURE_def)
  with first show ?thesis by blast
qed

section \<open>Signing up on an erased address\<close>

text \<open>
  C39. Erasure is not the last write of an account's identity. The address that marks an erased account
  is an ordinary unverified one to the signup path, which takes no lifecycle lock: signing up with it
  replaces the marker hash by that of a chosen password and mints a verification token for the erased
  account. The marker address stays, so no session can be issued.
\<close>

theorem signup_reaches_erased_accounts:
  assumes "ae_parse env email password = Inr (deletedEmail u, p)" and "\<And>k v. ae_lull env k v = v" and "\<And>v. ae_gap env v = v"
    and "getUserByEmail (deletedEmail u) w = Some x" and "usr_id x = u" and "usr_verified_at x = None"
    and "users_ok w" and "ae_sha env (ae_random env 1) \<notin> set (map vt_hash (ad_verifications w))"
  shows "\<exists>w'. requestSignup env email password proof_hash ttl w = (Inr (Some (ae_random env 1)), w') \<and>
    user_row u w' = Some (x\<lparr>usr_password_hash := ae_hash_password env p\<rparr>) \<and>
    (\<exists>v \<in> set (ad_verifications w'). vt_user v = u \<and> vt_hash v = ae_sha env (ae_random env 1) \<and> vt_consumed v = None) \<and>
    (\<forall>t h d. insertSession (\<lambda>w. w) t u h d w' = Inl AccountDeleted)"
proof -
  let ?new = "x\<lparr>usr_password_hash := ae_hash_password env p\<rparr>"
  have x: "x \<in> set (ad_users w)" "usr_email x = deletedEmail u" using assms(4) by (auto simp: getUserByEmail_def dest: find_row_Some)
  have hit: "find_row (unverified_with u (usr_password_hash x)) (ad_users w) = Some x"
    using x assms(5,6,7)
    by (intro find_row_unique [where key = usr_id]) (auto simp: unverified_with_def users_ok_def)
  let ?users = "sql_update (unverified_with u (usr_password_hash x)) (\<lambda>x. x\<lparr>usr_password_hash := ae_hash_password env p\<rparr>) (ad_users w)"
  have row: "find_row (\<lambda>y. usr_id y = u) ?users = Some ?new"
  proof (rule find_row_unique [where key = usr_id])
    show "?new \<in> set ?users" using x assms(5,6) by (auto simp: set_sql_update unverified_with_def)
    show "distinct (map usr_id ?users)" using assms(7) by (simp add: users_ok_def sql_update_cong_key)
  qed (use assms(5) in auto)
  let ?v = "burn_verifications (ae_tx_now env 1) u (set_users (\<lambda>_. ?users) w)"
  have "map vt_hash (ad_verifications ?v) = map vt_hash (ad_verifications w)"
    by (simp add: burn_verifications_def update_verifications_def set_users_def sql_update_cong_key)
  from map_eq_image [OF this] have "\<exists>w'. insert_verification (verification_row (ae_tx_now env 1) u (mint_verification env 1 ttl proof_hash)) ?v = Inr ((), w') \<and>
      ad_users w' = ?users \<and> (\<exists>v \<in> set (ad_verifications w'). vt_user v = u \<and> vt_hash v = ae_sha env (ae_random env 1) \<and> vt_consumed v = None)"
    using assms(8) row
    by (auto simp: insert_verification_def Let_def verification_row_def mint_verification_def user_row_def burn_verifications_def
        update_verifications_def set_users_def ad_users_def)
  then obtain w' where w': "insert_verification (verification_row (ae_tx_now env 1) u (mint_verification env 1 ttl proof_hash)) ?v = Inr ((), w')"
    and users: "ad_users w' = ?users"
    and minted: "\<exists>v \<in> set (ad_verifications w'). vt_user v = u \<and> vt_hash v = ae_sha env (ae_random env 1) \<and> vt_consumed v = None" by blast
  have "requestSignup env email password proof_hash ttl w = (Inr (Some (ae_random env 1)), w')"
    using assms(1-6) hit w'
    by (simp add: requestSignup_def and_then_run of_sum_def look_run replaceUnverifiedPasswordAndRequestVerification_def
        MAX_UNVERIFIED_PASSWORD_REPLACE_ATTEMPTS_def numeral_3_eq_3 commit_def run_tx_def
        retryUnverifiedSignupWithEmailVerificationToken_def auth_retry_unverified_signup_def bind_tx_def wait_for_def query_def
        ret_def done_with_def set_users_def)
  moreover have "user_row u w' = Some ?new" using users row by (simp add: user_row_def)
  moreover from this have "erased_account u w'" using x by (auto simp: erased_account_def)
  then have "\<not> user_live u (ad_store w')" using live_not_erased by blast
  then have "insertSession (\<lambda>w. w) t u h d w' = Inl AccountDeleted" for t h d
    using liveness_read [of u w' False w']
    by (simp add: insertSession_def guardCredentialIssuance_def bind_tx_def wait_for_def throw_def)
  ultimately show ?thesis using minted by blast
qed

end
