(* ===== verification/AccountScenario.thy ===== *)
theory AccountScenario
  imports Scenario GrantTheorems AccountInvariant LoginTheorems
begin

text \<open>
  Concrete accounts: every property of accounts, credentials and grants that has hypotheses is applied
  here to inputs that satisfy them. Ada (user 1 of \<open>Scenario\<close>) has a login session, an API key and a
  client connected over OAuth; the states are computed by the model's own operations.
\<close>

declare One_nat_def [simp del]

section \<open>The states\<close>

definition app :: oauth_client where
  "app = \<lparr>cli_id = ''app'', cli_name = ''App'', cli_redirects = [''https://app/cb''], cli_method = MethodNone,
     cli_secret = None, cli_registration = DynamicRegistration, cli_created = 0, cli_last_used = None\<rparr>"

definition acc0 :: auth_db where
  "acc0 = \<lparr>ad_store = s0, ad_edge_proposals = [], ad_fact_proposals = [], ad_profiles = [], ad_retrieval = [],
     ad_write_scope = [], ad_judgment = [], ad_audit = [], ad_logins = [], ad_keys = [], ad_resets = [],
     ad_verifications = [], ad_clients = [app], ad_codes = [], ad_tokens = [], ad_next = 100\<rparr>"

text \<open>Libraries: a hash that prefixes, a signer that numbers; \<open>k\<close> tells one call's random values from another's.\<close>

definition oauth_world :: "string \<Rightarrow> oauth_env" where
  "oauth_world k = \<lparr>oe_sha = (@) ''h:'', oe_s256 = (@) ''c:'', oe_sign = (\<lambda>u s d. Inr (''jwt'' @ k)),
     oe_jwt = (\<lambda>_. Some (Some ''https://auth'')), oe_issuer = ''https://auth/'', oe_resource = ''https://mcp'',
     oe_url = (\<lambda>_. None), oe_random = ''r'' @ k, oe_now = 1000, oe_tx_now = (\<lambda>_. 1000000), oe_limits = (\<lambda>_. Inr (Some 1)),
     oe_collate = length, oe_gap = (\<lambda>_ w. w), oe_lull = (\<lambda>_ w. w)\<rparr>"

definition app_info :: client_information where "app_info = toClientInformation app"

definition grant_in :: code_grant where
  "grant_in = \<lparr>cd_user = 1, cd_challenge = ''c:v'', cd_redirect = ''https://app/cb'', cd_supplied = True,
     cd_scopes = None, cd_state = Some ''st''\<rparr>"

text \<open>\<open>acc1\<close>: a login and an API key. \<open>acc2\<close>: a code. \<open>acc3\<close>: it is consumed. \<open>acc4\<close>: it is exchanged.\<close>

definition acc1 :: auth_db where
  "acc1 = snd (run_tx (insertApiKey (\<lambda>w. w) 500 1 ''ci'' ''h:key'' ''pre'')
     (snd (run_tx (insertSession (\<lambda>w. w) 500 1 ''h:tok'' 9000000) acc0)))"

definition acc2 :: auth_db where "acc2 = snd (authorize (oauth_world ''1'') app_info grant_in acc1)"

definition exchanged :: "(err + token_response) \<times> auth_db" where
  "exchanged = exchangeAuthorizationCode (oauth_world ''2'') app_info ''r1'' (Some ''v'') (Some ''https://app/cb'') None acc2"

definition acc4 :: auth_db where "acc4 = snd exchanged"

definition refreshed :: "(err + token_response) \<times> auth_db" where
  "refreshed = exchangeRefreshToken (oauth_world ''3'') app_info ''r2'' (Some [''memory:read'']) None acc4"

text \<open>The tables they hold.\<close>

definition login_lit :: user_session where
  "login_lit = \<lparr>us_id = 100, us_user = 1, us_hash = ''h:tok'', us_expires = 9000000000, us_created = 500\<rparr>"

definition key_lit :: api_key where
  "key_lit = \<lparr>ak_id = 101, ak_user = 1, ak_name = ''ci'', ak_hash = ''h:key'', ak_prefix = ''pre'', ak_revoked = None,
     ak_last_used = None, ak_created = 500\<rparr>"

definition code_lit :: "instant option \<Rightarrow> oauth_code" where
  "code_lit used = \<lparr>oc_id = 102, oc_hash = ''h:r1'', oc_client = ''app'', oc_user = 1, oc_redirect = ''https://app/cb'',
     oc_supplied = True, oc_challenge = ''c:v'', oc_scope = DEFAULT_SCOPE, oc_expires = 61000000, oc_used = used,
     oc_created = 1000000\<rparr>"

definition token_lit :: "rid \<Rightarrow> string \<Rightarrow> token_kind \<Rightarrow> instant \<Rightarrow> oauth_token" where
  "token_lit i h k e = \<lparr>ot_id = i, ot_hash = h, ot_kind = k, ot_client = ''app'', ot_user = 1, ot_scope = DEFAULT_SCOPE,
     ot_expires = e, ot_revoked = None, ot_rotated_from = None, ot_created = 1000000\<rparr>"

lemma acc1_eval [code]: "acc1 = acc0\<lparr>ad_logins := [login_lit], ad_keys := [key_lit], ad_next := 102\<rparr>"
  by code_simp

lemma acc2_eval [code]: "acc2 = acc1\<lparr>ad_codes := [code_lit None], ad_next := 103\<rparr>"
  by code_simp

lemma exchanged_eval [code]: "exchanged = (Inr \<lparr>tr_access = ''jwt2'', tr_expires_in = 3600, tr_scope = DEFAULT_SCOPE,
    tr_refresh = Some ''r2''\<rparr>, acc2\<lparr>ad_codes := [code_lit (Some 1000000)],
    ad_tokens := [token_lit 103 ''h:jwt2'' AccessToken 3601000000, token_lit 104 ''h:r2'' RefreshToken 2592001000000], ad_next := 105\<rparr>)"
  by code_simp

lemma refreshed_ok: "case refreshed of (Inr r, w) \<Rightarrow> tr_scope r = ''memory:read'' \<and> length (ad_tokens w) = 4 | _ \<Rightarrow> False"
  by code_simp


lemma acc4_eval [code]: "acc4 = acc2\<lparr>ad_codes := [code_lit (Some 1000000)],
    ad_tokens := [token_lit 103 ''h:jwt2'' AccessToken 3601000000, token_lit 104 ''h:r2'' RefreshToken 2592001000000], ad_next := 105\<rparr>"
  by (simp add: acc4_def exchanged_eval)

lemma hashes_acc: "hashes_ok acc2" "hashes_ok acc4"
  by code_simp+

lemma tx_result: "\<not> isl r \<Longrightarrow> r = Inr (fst (projr r), snd (projr r))"
  by (cases r) auto

lemma world_reads:
  "oe_tx_now (oauth_world k) i = 1000000" "oe_sha (oauth_world k) s = ''h:'' @ s" "oe_lull (oauth_world k) i w = w"
  "oe_s256 (oauth_world k) s = ''c:'' @ s"
  by (simp_all add: oauth_world_def)

section \<open>Erasure\<close>

definition erased_run :: "err + erasure_result option \<times> auth_db" where
  "erased_run = eraseAccountData (\<lambda>_ w. w) 1 5000 acc4"

definition acc5 :: auth_db where "acc5 = snd (projr erased_run)"

lemma erased_run_ok: "\<exists>r. erased_run = Inr (Some r, acc5) \<and> \<not> er_already r"
proof -
  have "\<not> isl erased_run \<and> (case fst (projr erased_run) of None \<Rightarrow> False | Some r \<Rightarrow> \<not> er_already r)" by code_simp
  with tx_result [of erased_run] show ?thesis unfolding acc5_def by (metis option.case_eq_if option.collapse)
qed

text \<open>Somebody signs up with the address the account had.\<close>

definition acc6 :: auth_db where "acc6 = snd (run_tx (insertUser ''ada'' ''h2'' None) acc5)"

lemma after_erasure: "creds {} {} {} acc5 acc6"
  unfolding acc6_def by (rule creds_step [OF cred_user creds_done])


lemma ada_row: "user_row 1 acc4 = Some ada" by code_simp
lemma ada_live: "usr_email ada \<noteq> deletedEmail 1" by code_simp
lemma constraints_acc4: "constraints (ad_store acc4)" by code_simp
lemma users_acc4: "users_ok acc4" by code_simp
lemma marker_free: "\<not> marker_taken 1 acc4" by code_simp


section \<open>Codes and tokens\<close>

definition consumed :: "err + consumed_code option \<times> auth_db" where
  "consumed = consumeOauthCode 1000000 ''h:r1'' acc2"

lemma consumed_eval: "consumed = Inr (Some (grant_of (code_lit None)), acc2\<lparr>ad_codes := [code_lit (Some 1000000)]\<rparr>)"
  by code_simp

theorem code_used_once_witness:
  "\<exists>c w. consumeOauthCode 1000000 ''h:r1'' acc2 = Inr (Some c, w) \<and>
    (let v = snd (run_tx (updateLastUsedAt 7 ''app'') w) in consumeOauthCode 1000001 ''h:r1'' v = Inr (None, v))"
proof -
  let ?w = "acc2\<lparr>ad_codes := [code_lit (Some 1000000)]\<rparr>"
  have c: "consumeOauthCode 1000000 ''h:r1'' acc2 = Inr (Some (grant_of (code_lit None)), ?w)"
    using consumed_eval by (simp add: consumed_def)
  have "creds {} {} {} ?w (snd (run_tx (updateLastUsedAt 7 ''app'') ?w))"
    by (rule creds_step [OF cred_touch_client creds_done])
  from code_used_once [OF c hashes_acc(1) this] c show ?thesis by (auto simp: Let_def)
qed

definition new_token :: "string \<Rightarrow> token_kind \<Rightarrow> new_oauth_token" where
  "new_token h k = \<lparr>nt_hash = h, nt_kind = k, nt_client = ''app'', nt_scope = ''memory:read'', nt_expires = 90000\<rparr>"

definition rotated :: "err + bool \<times> auth_db" where
  "rotated = rotateOauthRefreshToken (\<lambda>w. w) (\<lambda>w. w) length 1000000 1 ''h:r2'' (new_token ''h:a3'' AccessToken)
     (new_token ''h:r3'' RefreshToken) (Some 1) acc4"

definition acc7 :: auth_db where "acc7 = snd (projr rotated)"

lemma rotated_ok: "rotated = Inr (True, acc7)"
proof -
  have "\<not> isl rotated \<and> fst (projr rotated)" by code_simp
  with tx_result [of rotated] show ?thesis unfolding acc7_def by metis
qed

theorem rotated_token_is_dead_witness:
  "resolveOauthToken 2000000 ''h:r2'' acc4 \<noteq> None \<and> resolveOauthToken 2000000 ''h:r2'' acc7 = None \<and>
   resolveOauthToken 2000000 ''h:r3'' acc7 \<noteq> None"
proof -
  have "resolveOauthToken 2000000 ''h:r2'' acc4 \<noteq> None" "resolveOauthToken 2000000 ''h:r3'' acc7 \<noteq> None" by code_simp+
  then show ?thesis
    using rotated_token_is_dead [OF rotated_ok [unfolded rotated_def] hashes_acc(2) creds_done creds_done creds_done, of "{}"]
    by simp
qed

theorem exchange_is_bound_witness:
  "\<exists>x. x \<in> set (ad_codes acc2) \<and> oc_hash x = ''h:r1'' \<and> oc_client x = ''app'' \<and> ''c:v'' = oc_challenge x"
  using exchange_is_bound [OF exchanged_eval [unfolded exchanged_def]]
  by (force simp: oauth_world_def app_info_def toClientInformation_def app_def)

definition acc8 :: auth_db where "acc8 = snd refreshed"

lemma refreshed_eval: "refreshed = (Inr \<lparr>tr_access = ''jwt3'', tr_expires_in = 3600, tr_scope = ''memory:read'',
    tr_refresh = Some ''r3''\<rparr>, acc8)"
proof -
  have "fst refreshed = Inr \<lparr>tr_access = ''jwt3'', tr_expires_in = 3600, tr_scope = ''memory:read'', tr_refresh = Some ''r3''\<rparr>"
    by code_simp
  then show ?thesis by (simp add: acc8_def prod_eq_iff)
qed

theorem refresh_only_narrows_witness:
  "\<exists>r. resolveOauthToken 1000000 ''h:r2'' acc4 = Some r \<and> gt_kind r = RefreshToken \<and>
     set (parseScopes (Some ''memory:read'')) \<subseteq> set (parseScopes (Some (gt_scope r)))"
  using refresh_only_narrows [OF refreshed_eval [unfolded refreshed_def], unfolded world_reads]
  unfolding append.simps token_response.select_convs by (elim exE conjE) (intro exI conjI)

definition issued :: "err + bool \<times> auth_db" where
  "issued = insertOauthTokenPair (\<lambda>w. w) (\<lambda>w. w) length 1000000 1 (new_token ''h:a3'' AccessToken)
     (Some (new_token ''h:r3'' RefreshToken)) (Some 1) acc4"

definition acc9 :: auth_db where "acc9 = snd (projr issued)"

lemma issued_ok: "issued = Inr (True, acc9)"
proof -
  have "\<not> isl issued \<and> fst (projr issued)" by code_simp
  with tx_result [of issued] show ?thesis unfolding acc9_def by metis
qed

theorem connected_clients_capped_witness:
  "card (connected_to 1000000 1 acc9) \<le> max 1 (card (connected_to 1000000 1 acc4)) \<and>
   connected_to 1000000 1 acc7 \<subseteq> connected_to 1000000 1 acc4"
  using connected_clients_capped [of "new_token ''h:a3'' AccessToken" "''app''" "Some (new_token ''h:r3'' RefreshToken)"
      "new_token ''h:r3'' RefreshToken" "\<lambda>w. w" length 1000000 1 1 acc4]
    issued_ok [unfolded issued_def] rotated_ok [unfolded rotated_def]
  by (simp add: new_token_def)

definition idle :: oauth_client where "idle = app\<lparr>cli_id := ''idle''\<rparr>"

definition collected :: "err + nat \<times> auth_db" where
  "collected = deleteClients (\<lambda>w. w) 1000000 [''app'', ''idle''] (acc2\<lparr>ad_clients := [app, idle]\<rparr>)"

lemma collected_eval: "collected = Inr (1, acc2)"
  by code_simp

theorem collection_spares_grants_witness:
  "ad_clients acc2 = [app] \<and> filter (code_live 1000000) (ad_codes acc2) = [code_lit None] \<and>
   filter (code_live 1000000) (ad_codes (acc2\<lparr>ad_clients := [app, idle]\<rparr>)) = [code_lit None]"
proof (intro conjI)
  show "ad_clients acc2 = [app]" "filter (code_live 1000000) (ad_codes acc2) = [code_lit None]" by code_simp+
  then show "filter (code_live 1000000) (ad_codes (acc2\<lparr>ad_clients := [app, idle]\<rparr>)) = [code_lit None]"
    using collection_spares_grants [OF collected_eval [unfolded collected_def]] by (elim conjE) (simp only:)
qed

definition disconnected :: "err + nat \<times> auth_db" where
  "disconnected = revokeClientForUser (\<lambda>w. w) (\<lambda>w. w) 1000000 1 ''app'' acc4"

lemma disconnected_ok: "\<exists>w. disconnected = Inr (2, w)"
proof -
  have "\<not> isl disconnected \<and> fst (projr disconnected) = 2" by code_simp
  with tx_result [of disconnected] show ?thesis by metis
qed

theorem tokens_refine_grants_witness:
  "resolveOauthToken 1000000 ''h:r2'' acc4 = spec_lookup 1000000 ''h:r2'' (grants_of acc4) \<and>
   grants_of acc9 = spec_issue 1 (new_token ''h:r3'' RefreshToken) (spec_issue 1 (new_token ''h:a3'' AccessToken) (grants_of acc4)) \<and>
   grants_of acc7 = spec_issue 1 (new_token ''h:r3'' RefreshToken)
     (spec_issue 1 (new_token ''h:a3'' AccessToken) ((grants_of acc4)(''h:r2'' := None))) \<and>
   (\<exists>n w. disconnected = Inr (n, w) \<and> grants_of w = spec_disconnect 1 ''app'' (grants_of acc4))"
proof -
  obtain w where w: "disconnected = Inr (2, w)" using disconnected_ok by blast
  show ?thesis
    using tokens_refine_grants [OF hashes_acc(2), of 1000000 "''h:r2''" length 1 "new_token ''h:a3'' AccessToken"
        "Some (new_token ''h:r3'' RefreshToken)" "Some 1" acc9 "new_token ''h:r3'' RefreshToken" acc7 "''app''" 2 w]
      issued_ok [unfolded issued_def] rotated_ok [unfolded rotated_def] w
    by (simp add: disconnected_def)
qed

section \<open>Logins and keys\<close>

text \<open>The schema accepts every address; a password matches the hash that is its own text after \<open>h\<close>.\<close>

definition account_world :: account_env where
  "account_world = \<lparr>ae_sha = (@) ''h:'', ae_sha1 = (\<lambda>s. s), ae_hash_password = (@) ''h'',
     ae_verify = (\<lambda>h p. Some (h = ''h'' @ p)), ae_parse = (\<lambda>e p. Inr (e, p)), ae_range = (\<lambda>_. None),
     ae_random = (\<lambda>k. if k = 0 then ''n0'' else ''n1''), ae_now = 2000, ae_tx_now = (\<lambda>_. 2000000),
     ae_gap = (\<lambda>w. w), ae_lull = (\<lambda>_ w. w)\<rparr>"

lemma account_reads:
  "ae_sha account_world s = ''h:'' @ s" "ae_lull account_world k v = v" "ae_gap account_world v = v"
  "ae_tx_now account_world k = 2000000" "ae_hash_password account_world p = ''h'' @ p"
  "ae_parse account_world e p = Inr (e, p)" "ae_random account_world 1 = ''n1''"
  "ae_verify account_world h p = Some (h = ''h'' @ p)"
  by (simp_all add: account_world_def)

definition logged_in :: "(err + session_grant) \<times> auth_db" where "logged_in = issueSession account_world 0 1 1 acc4"
definition keyed :: "(err + issued_key) \<times> auth_db" where "keyed = issueApiKey account_world 1 ''ci'' acc4"

lemma svc_result: "\<not> isl (fst r) \<Longrightarrow> r = (Inr (projr (fst r)), snd r)"
  by (cases r) (auto simp: isl_def)

lemma logged_in_ok: "logged_in = (Inr \<lparr>sg_user = 1, sg_token = ''n0'', sg_expires = 3602000\<rparr>, snd logged_in)"
proof -
  have "fst logged_in = Inr \<lparr>sg_user = 1, sg_token = ''n0'', sg_expires = 3602000\<rparr>" by code_simp
  then show ?thesis by (simp add: prod_eq_iff)
qed

lemma keyed_ok: "keyed = (Inr (projr (fst keyed)), snd keyed)"
proof -
  have "\<not> isl (fst keyed)" by code_simp
  then show ?thesis by (rule svc_result)
qed

theorem credentials_round_trip_witness:
  "fst (authenticateToken account_world ''n0'' (snd logged_in)) = Inr (Some 1) \<and>
   fst (authenticateApiKey account_world (ik_key (projr (fst keyed))) (snd keyed)) = Inr (Some 1)"
proof -
  let ?g = "\<lparr>sg_user = 1, sg_token = ''n0'', sg_expires = 3602000\<rparr> :: session_grant"
  note trip = credentials_round_trip [of account_world account_world 0 1 1 acc4 ?g "snd logged_in" "''ci''" "projr (fst keyed)"
      "snd keyed", OF account_reads(2) refl]
  have "fst (authenticateToken account_world (sg_token ?g) (snd logged_in)) =
      Inr (if ae_tx_now account_world 0 < sql_of_date (sg_expires ?g) then Some 1 else None)"
    using conjunct1 [OF trip] logged_in_ok [unfolded logged_in_def] unfolding logged_in_def by (metis fst_conv)
  moreover have "fst (authenticateApiKey account_world (ik_key (projr (fst keyed))) (snd keyed)) = Inr (Some 1)"
    using conjunct2 [OF trip] keyed_ok [unfolded keyed_def] unfolding keyed_def by (metis fst_conv)
  ultimately show ?thesis by (simp add: account_reads sql_of_date_def)
qed

lemma ada_hash: "getUserPasswordHashById 1 acc4 = Some ''h''" by code_simp
lemma ada_swaps: "user_live 1 (ad_store acc4) \<and> (\<exists>x \<in> set (ad_users acc4). usr_id x = 1 \<and> usr_password_hash x = ''h'')"
  by code_simp

theorem password_change_ends_other_sessions_witness:
  "ad_logins acc4 = [login_lit] \<and> (\<exists>w. changePasswordAndRevokeOthers account_world 1 [] ''new'' ''other'' acc4 = (Inr (), w) \<and>
     ad_logins w = filter (\<lambda>x. us_user x = 1 \<longrightarrow> us_hash x = ''h:other'') [login_lit])"
proof -
  have "ad_logins acc4 = [login_lit]" by code_simp
  moreover have "acc4 = ae_gap account_world (ae_lull account_world 1 (ae_lull account_world 0 acc4))"
    and "getUserPasswordHashById 1 (ae_lull account_world 0 acc4) = Some ''h''" and "ae_verify account_world ''h'' [] = Some True"
    by (simp_all add: account_reads ada_hash)
  note change = password_change_ends_other_sessions [OF this, of "''new''" "''other''"]
  ultimately show ?thesis using change ada_swaps by (auto simp: account_reads)
qed

lemma not_logged: "\<not> auditLogEntryExists 1 TOMBSTONE_ACTION acc4" by code_simp

theorem deletion_runs_once_witness:
  "\<exists>r w. deleteAccount None (\<lambda>_ w. w) (\<lambda>_ w. w) 7 1 5000 acc4 = (Inr (False, r), w) \<and>
    deleteAccount None (\<lambda>_ w. w) (\<lambda>_ w. w) 8 1 6000 w = (Inr (True, EMPTY_ERASURE), w)"
  using deletion_runs_once [OF constraints_acc4 users_acc4 ada_row ada_live marker_free not_logged, of 7 5000] by blast

definition erased_ada :: user where
  "erased_ada = \<lparr>usr_id = 1, usr_email = deletedEmail 1, usr_password_hash = ERASED_PASSWORD_HASH, usr_verified_at = None\<rparr>"

lemma erased_row: "getUserByEmail (deletedEmail 1) acc5 = Some erased_ada" "users_ok acc5"
  "''h:n1'' \<notin> set (map vt_hash (ad_verifications acc5))"
  by code_simp+

theorem signup_reaches_erased_accounts_witness:
  "\<exists>w. requestSignup account_world (deletedEmail 1) ''pw'' ''proof'' 60 acc5 = (Inr (Some ''n1''), w) \<and>
    user_row 1 w = Some (erased_ada\<lparr>usr_password_hash := ''hpw''\<rparr>)"
proof -
  have fresh: "ae_sha account_world (ae_random account_world 1) \<notin> set (map vt_hash (ad_verifications acc5))"
    unfolding account_reads append.simps by (rule erased_row(3))
  have "usr_id erased_ada = 1" "usr_verified_at erased_ada = None" by (simp_all add: erased_ada_def)
  from signup_reaches_erased_accounts [OF account_reads(6,2,3) erased_row(1) this erased_row(2) fresh, of "''pw''" "''proof''" 60]
  show ?thesis unfolding account_reads append.simps by blast
qed

section \<open>Consistency\<close>

lemma ok_acc4: "accounts_ok acc4" by code_simp


section \<open>The closer and an erasure\<close>

definition acc_run :: auth_db where "acc_run = acc0\<lparr>ad_store := s3\<rparr>"
definition erased_run2 :: "err + erasure_result option \<times> auth_db" where "erased_run2 = eraseAccountData (\<lambda>_ w. w) 1 5000 acc_run"
definition acc_gone :: auth_db where "acc_gone = snd (projr erased_run2)"

lemma erased_run2_ok: "\<exists>r. erased_run2 = Inr (Some r, acc_gone) \<and> \<not> er_already r"
proof -
  have "\<not> isl erased_run2 \<and> (case fst (projr erased_run2) of None \<Rightarrow> False | Some r \<Rightarrow> \<not> er_already r)" by code_simp
  with tx_result [of erased_run2] show ?thesis unfolding acc_gone_def by (metis option.case_eq_if option.collapse)
qed

lemma run_session: "session_of 1 0 (ad_store acc_run) = Some (ses_lit 2 None)" "ses_epoch (ses_lit 2 None) = 1" by code_simp+
lemma run_ok: "constraints (ad_store acc_run)" "users_ok acc_run" by code_simp+

definition late_claim :: closer_claim where
  "late_claim = \<lparr>cl_run = 0, cl_epoch = 1, cl_observed = None, cl_attempt = 77\<rparr>"


end
