(* ===== verification/ProposalScenario.thy ===== *)
theory ProposalScenario
  imports Scenario
begin

text \<open>
  The witnesses of the disposition, import and proposal properties: Ada's store of \<open>Scenario\<close> with one more
  note (row 6), and one open proposal of each kind about it.
\<close>

section \<open>Dispositions\<close>

definition st5 :: store where "st5 = snd remembered"

lemma st5_eval [code]: "st5 = store_lit (mems3 @ [mem_lit 6 Note ''h3'' 3000]) (evs3 @ [ev_lit 7 6 3000]) (ses_lit 3 None) 8"
  by code_simp

lemma constraints_st5: "constraints st5" by code_simp
lemma live_st5: "user_live 1 st5" by code_simp

definition shelved5 :: "(err + outcome) \<times> store" where
  "shelved5 = archiveMemoryDisposition no_gap 5000 5 1 6 UserMcp RunNull st5"

lemma shelved5_ok: "archiveMemoryDisposition no_gap 5000 5 1 6 UserMcp RunNull st5 = (Inr OutArchived, snd shelved5)"
proof -
  have "isl (fst shelved5) = False" "val shelved5 = OutArchived" by code_simp+
  with ok_val [of shelved5] show ?thesis by (simp add: shelved5_def)
qed


theorem archived_blocks_witness:
  "\<exists>res. writeMemory no_gap 6000 6 (note_write Note ''h3'') None [] (snd shelved5) = (res, snd shelved5)"
proof -
  define m where "m = the (predecessor_of 1 6 st5)"
  have m: "predecessor_of 1 6 st5 = Some m" "mw_hash (note_write Note ''h3'') = mem_hash m" unfolding m_def by code_simp+
  have w: "mw_user (note_write Note ''h3'') = 1" "mw_valid_to (note_write Note ''h3'') = None" by code_simp+
  obtain res s2 where r: "writeMemory no_gap 6000 6 (note_write Note ''h3'') None [] (snd shelved5) = (res, s2)"
    by (rule prod.exhaust)
  from archived_content_still_blocks [OF shelved5_ok m(1) constraints_st5 live_st5 w(1) m(2) w(2) r] r
  show ?thesis by auto
qed

definition shelve_all :: disposition_input where
  "shelve_all = \<lparr>di_kind = DispArchive, di_memories = [6, 1, 77], di_run = RunOmitted\<rparr>"

theorem disposition_retry_witness:
  "\<exists>outs s1. reviseDisposition calm True 1 shelve_all UserMcp st5 = (Inr outs, s1) \<and>
     snd (reviseDisposition calm True 1 shelve_all UserMcp s1) = s1"
proof -
  define r where "r = reviseDisposition calm True 1 shelve_all UserMcp st5"
  have "isl (fst r) = False" unfolding r_def by code_simp
  from ok_val [OF this] have run: "reviseDisposition calm True 1 shelve_all UserMcp st5 = (Inr (val r), snd r)"
    by (simp add: r_def)
  have q: "quiet calm" by (simp add: quiet_def calm_def)
  have k: "di_kind shelve_all = DispArchive" by (simp add: shelve_all_def)
  obtain res s2 where again: "reviseDisposition calm True 1 shelve_all UserMcp (snd r) = (res, s2)" by (rule prod.exhaust)
  from disposition_retry [OF q q constraints_st5 live_st5 k run again] run again show ?thesis by auto
qed

section \<open>Import\<close>

definition import_note :: imported_memory where
  "import_note = \<lparr>im_write = (note_write Commitment ''h9'')\<lparr>mw_valid_from := Some 1, mw_valid_to := Some 2\<rparr>,
     im_payload = Some ''origin'', im_created_at = Some 1, im_commitment = None\<rparr>"

definition imported5 :: "(err + written_memory) \<times> store" where
  "imported5 = writeImportedMemory no_gap 5000 import_note None st5"

theorem import_witness:
  "\<exists>ms. tbl_memories (snd imported5) = ms @ [(memory_row 5000 (im_write import_note))\<lparr>mem_id := wm_id (val imported5)\<rparr>]"
proof -
  have "writeImportedMemory no_gap 5000 import_note None st5 = (Inr (val imported5), snd imported5)"
    unfolding imported5_def by (rule ok_val) code_simp
  from import_lands_as_given [OF this] show ?thesis unfolding Let_def by blast
qed

definition import_edge :: imported_edge where
  "import_edge = \<lparr>ig_user = 1, ig_from = 6, ig_to = 4, ig_kind = Supersedes, ig_created_by = UserMcp, ig_close_at = Some 4\<rparr>"

definition linked5 :: "(err + unit) \<times> store" where "linked5 = writeImportedEdge no_gap 5000 import_edge st5"

theorem imported_supersession_witness:
  "\<exists>m. predecessor_of 1 4 (snd linked5) = Some (close_row_at 5000 (sql_of_date 4) m) \<and> mem_valid_from m \<le> 4000"
proof -
  have "writeImportedEdge no_gap 5000 import_edge st5 = (Inr (val linked5), snd linked5)"
    unfolding linked5_def by (rule ok_val) code_simp
  then have r: "writeImportedEdge no_gap 5000 import_edge st5 = (Inr (), snd linked5)" by simp
  have i: "ig_close_at import_edge = Some 4" "ig_user import_edge = 1" "ig_to import_edge = 4"
    by (simp_all add: import_edge_def)
  from imported_supersession [OF r i(1) constraints_st5] show ?thesis
    unfolding i(2,3) by (auto simp: sql_of_date_def)
qed

definition failed5 :: "(err + unit) \<times> store" where "failed5 = recordEmbedFailure 5000 1 6 Worker ''down'' st5"

definition embedded5 :: "(err + bool) \<times> store" where
  "embedded5 = updateMemoryEmbedding no_gap 6000 1 6 [''1'', ''0.5''] (snd failed5)"

theorem embed_witness:
  "(6, ''c'') \<in> set (listEmbedFailedMemories 1 3 (snd failed5)) \<and> val embedded5 = True \<and>
    (6, ''c'') \<notin> set (listEmbedFailedMemories 1 3 (snd embedded5))"
proof -
  define m where "m = the (predecessor_of 1 6 st5)"
  have m: "predecessor_of 1 6 st5 = Some m" "mem_embedding m = None" unfolding m_def by code_simp+
  have c: "mem_content m = ''c''" "mem_valid_to m = None" "length (tbl_memories st5) = 3" unfolding m_def by code_simp+
  have "recordEmbedFailure 5000 1 6 Worker ''down'' st5 = (Inr (val failed5), snd failed5)"
    unfolding failed5_def by (rule ok_val) code_simp
  then have f: "recordEmbedFailure 5000 1 6 Worker ''down'' st5 = (Inr (), snd failed5)" by simp
  have e: "updateMemoryEmbedding no_gap 6000 1 6 [''1'', ''0.5''] (snd failed5) = (Inr (val embedded5), snd embedded5)"
    unfolding embedded5_def by (rule ok_val) code_simp
  from embed_failures_are_repairable [OF f constraints_st5 m e] c show ?thesis by auto
qed

section \<open>Proposals\<close>

text \<open>Edge 20: the note supersedes the commitment memory. Fact 21. Resolution 22. Retention 23 and 24.\<close>

definition pd0 :: proposal_db where
  "pd0 = \<lparr>pd_review = \<lparr>rs_store = st5, rs_proposals = [\<lparr>rp_id = 22, rp_user = 1, rp_memory = 1, rp_run = 0,
       rp_probability = 0, rp_status = Proposed, rp_decided_at = None, rp_created_at = 7000\<rparr>], rs_next = 30\<rparr>,
     pd_edges = [\<lparr>ep_id = 20, ep_user = 1, ep_from = 6, ep_to = 1, ep_edge = Supersedes, ep_memory_type = Commitment,
       ep_similarity = 0, ep_rationale = None, ep_status = Proposed, ep_decided_at = None, ep_created = 7000\<rparr>],
     pd_facts = [\<lparr>fp_id = 21, fp_user = 1, fp_memory = 6, fp_subject = ''3n'', fp_predicate = ''price'', fp_value = ''9'',
       fp_confidence = None, fp_valid_from = None, fp_valid_to = None, fp_memory_type = Note, fp_rationale = None,
       fp_status = Proposed, fp_decided_at = None, fp_created = 7000\<rparr>],
     pd_retention = [\<lparr>np_id = 23, np_user = 1, np_memory = 6, np_action = ArchiveIt, np_related = None, np_probability = 0,
       np_probabilities = [], np_model = ''m'', np_status = RetProposed, np_decided_at = None, np_created = 7000\<rparr>]\<rparr>"

lemma pd0_store: "pd_store pd0 = st5"
  by (simp add: pd0_def pd_store_def)

definition pdval :: "err + 'a \<times> proposal_db \<Rightarrow> 'a" where "pdval r = fst (projr r)"
definition pdst :: "err + 'a \<times> proposal_db \<Rightarrow> proposal_db" where "pdst r = snd (projr r)"

lemma pd_ok: "\<not> isl r \<Longrightarrow> r = Inr (pdval r, pdst r)"
  by (cases r) (auto simp: pdval_def pdst_def)

definition edged :: "err + edge_proposal \<times> proposal_db" where
  "edged = applyProposal no_gap (\<lambda>w. w) 9000 1 20 UserApi pd0"

lemma edged_ok: "applyProposal no_gap (\<lambda>w. w) 9000 1 20 UserApi pd0 = Inr (pdval edged, pdst edged)"
  unfolding edged_def by (rule pd_ok) code_simp

theorem apply_outcome_witness:
  "applyProposal no_gap (\<lambda>w. w) 9500 1 20 UserApi (pdst edged) = Inl (ProposalNotFound 20)"
proof -
  have "constraints (pd_store pd0)" unfolding pd0_store by (rule constraints_st5)
  from apply_outcome [OF this edged_ok, of 9500 UserApi] show ?thesis by blast
qed

definition factual :: "err + (fact_proposal \<times> rid) \<times> proposal_db" where
  "factual = applyFactProposal no_gap (\<lambda>w. w) 9000 1 21 pd0"

theorem fact_proposal_witness:
  "\<exists>x \<in> set (tbl_facts (pd_store (pdst factual))). fact_id x = snd (pdval factual) \<and> fact_user x = 1"
proof -
  have "applyFactProposal no_gap (\<lambda>w. w) 9000 1 21 pd0 = Inr (pdval factual, pdst factual)"
    unfolding factual_def by (rule pd_ok) code_simp
  then have "applyFactProposal no_gap (\<lambda>w. w) 9000 1 21 pd0 = Inr ((fst (pdval factual), snd (pdval factual)), pdst factual)"
    by simp
  from accepted_fact_has_a_live_source [OF this] show ?thesis by blast
qed

definition retained :: "err + retention_proposal \<times> proposal_db" where
  "retained = acceptRetentionProposal no_gap (\<lambda>w. w) 9000 9 1 23 UserApi pd0"

theorem retention_witness:
  "\<exists>q. find_row (open_retention 1 23) (pd_retention pd0) = Some q \<and> pdval retained = decide_ret 9000 RetApplied q"
proof -
  have "acceptRetentionProposal no_gap (\<lambda>w. w) 9000 9 1 23 UserApi pd0 = Inr (pdval retained, pdst retained)"
    unfolding retained_def by (rule pd_ok) code_simp
  moreover have "constraints (pd_store pd0)" unfolding pd0_store by (rule constraints_st5)
  ultimately show ?thesis using retention_verdict_applied by blast
qed

text \<open>An event memory is live while the edge proposal is applied.\<close>

definition diary :: memory where "diary = mem_lit 8 Event ''h8'' 3000"

definition pd1 :: proposal_db where
  "pd1 = set_pd_store (st5\<lparr>tbl_memories := tbl_memories st5 @ [diary], next_id := 9\<rparr>) pd0"

definition edged1 :: "err + edge_proposal \<times> proposal_db" where
  "edged1 = applyProposal no_gap (\<lambda>w. w) 9000 1 20 UserApi pd1"

theorem episodic_witness: "diary \<in> set (tbl_memories (pd_store (pdst edged1)))"
proof -
  have r: "applyProposal no_gap (\<lambda>w. w) 9000 1 20 UserApi pd1 = Inr (pdval edged1, pdst edged1)"
    unfolding edged1_def by (rule pd_ok) code_simp
  have d: "diary \<in> set (tbl_memories (pd_store pd1))" "mem_user diary = 1" "mem_type diary = Event" "mem_valid_to diary = None"
    by (simp_all add: pd1_def diary_def mem_lit_def)
  show ?thesis
    by (rule episodic_never_superseded [where gap = no_gap and pg = "\<lambda>w. w", OF _ _ r d]) (simp_all add: episodic.R_refl)
qed


end
