(* ===== verification/ServiceDb.thy ===== *)
theory ServiceDb
  imports AccountServices
begin

text \<open>
  The state of the account settings, the budget and the services that compose them with the write path: the
  scope registry (\<open>scopes\<close>), the cost ledger (\<open>llm_usage\<close>), the budgets, the plan tiers and the in-flight
  reservations (\<open>packages/db/src/schema/memory.ts\<close>, \<open>ops.ts\<close>, \<open>budget.ts\<close>) beside the account tables of
  \<open>Credentials\<close>, which hold the two scope policies, the judgment policy and the profile.

  Money is a rational. A \<open>numeric(20,12)\<close> column is exact; what the code computes in doubles goes through a
  rounding \<open>fl\<close>, a parameter of the definitions that compute.
\<close>

record scope_row =
  sc_id :: rid
  sc_user :: uid
  sc_name :: string
  sc_aliases :: "string list"
  sc_created :: instant

record ledger_row =
  lu_id :: rid
  lu_user :: uid
  lu_operation :: string
  lu_model :: string
  lu_input :: nat
  lu_output :: nat
  lu_cost :: "rat option"
  lu_created :: instant

record budget_row =
  ub_user :: uid
  ub_cap :: "rat option"
  ub_start :: "instant option"
  ub_end :: "instant option"
  ub_updated :: instant

record plan_tier =
  pt_tier :: string
  pt_cap :: rat

record reservation =
  rv_id :: rid
  rv_user :: uid
  rv_cost :: rat
  rv_created :: instant

record service_db =
  sv_auth :: auth_db
  sv_scopes :: "scope_row list"
  sv_usage :: "ledger_row list"
  sv_budgets :: "budget_row list"
  sv_tiers :: "plan_tier list"
  sv_reservations :: "reservation list"
  sv_next :: rid

type_synonym 'a sv_tx = "(err, 'a, service_db) tx"

definition sv_store :: "service_db \<Rightarrow> store" where
  "sv_store w = ad_store (sv_auth w)"

definition put_store :: "store \<Rightarrow> service_db \<Rightarrow> service_db" where
  "put_store s w = w\<lparr>sv_auth := (sv_auth w)\<lparr>ad_store := s\<rparr>\<rparr>"

text \<open>A transaction on the account tables, or on the store, that commits or rolls back inside the larger state.\<close>

definition at_auth :: "(auth_db \<Rightarrow> (err + 'a) \<times> auth_db) \<Rightarrow> ('a, service_db) svc" where
  "at_auth m = (\<lambda>w. case m (sv_auth w) of (r, a) \<Rightarrow> (r, w\<lparr>sv_auth := a\<rparr>))"

definition at_store :: "(store \<Rightarrow> (err + 'a) \<times> store) \<Rightarrow> ('a, service_db) svc" where
  "at_store m = (\<lambda>w. case m (sv_store w) of (r, s) \<Rightarrow> (r, put_store s w))"

text \<open>What commits between two transactions of a service.\<close>

definition meanwhile :: "('w \<Rightarrow> 'w) \<Rightarrow> (unit, 'w) svc" where
  "meanwhile g = (\<lambda>w. (Inr (), g w))"

text \<open>\<open>try { m } catch (e) { h(e) }\<close>: what \<open>m\<close> committed stays.\<close>

definition recover :: "('a, 'w) svc \<Rightarrow> (err \<Rightarrow> ('a, 'w) svc) \<Rightarrow> ('a, 'w) svc" where
  "recover m h = (\<lambda>w. case m w of (Inl e, v) \<Rightarrow> h e v | (Inr a, v) \<Rightarrow> (Inr a, v))"

lemma put_store_sel [simp]:
  "sv_store (put_store s w) = s" "sv_scopes (put_store s w) = sv_scopes w" "sv_usage (put_store s w) = sv_usage w"
  "sv_budgets (put_store s w) = sv_budgets w" "sv_tiers (put_store s w) = sv_tiers w"
  "sv_reservations (put_store s w) = sv_reservations w" "sv_next (put_store s w) = sv_next w"
  by (simp_all add: put_store_def sv_store_def)

lemma put_store_same [simp]: "put_store (sv_store w) w = w"
  by (simp add: put_store_def sv_store_def)

lemma put_store_twice [simp]: "put_store s (put_store s' w) = put_store s w"
  by (simp add: put_store_def)

context svc_preorder
begin

lemma keeps_recover: "keeps R m \<Longrightarrow> (\<And>e. keeps R (h e)) \<Longrightarrow> keeps R (recover m h)"
  unfolding keeps_def recover_def by (auto split: prod.split sum.split) (metis snd_conv trans)+

lemma keeps_meanwhile: "(\<And>w. R w (g w)) \<Longrightarrow> keeps R (meanwhile g)"
  by (simp add: keeps_def meanwhile_def)

lemma keeps_outcome:
  assumes "keeps R m" and "\<And>e. keeps R (h e)" and "\<And>a. keeps R (f a)"
  shows "keeps R (\<lambda>w. case m w of (Inl e, v) \<Rightarrow> h e v | (Inr a, v) \<Rightarrow> f a v)"
  using assms unfolding keeps_def by (auto split: prod.split sum.split) (metis snd_conv trans)+

end

end
