(* ===== verification/ScopePolicy.thy ===== *)
theory ScopePolicy
  imports ServiceDb
begin

text \<open>
  The scope registry and the two per-user scope policies that name its scopes: the SQL of \<open>db/src/scopes.ts\<close>,
  \<open>retrieval-policy.ts\<close> and \<open>write-scope-policy.ts\<close>, the services of \<open>core/src/scope\<close>, and the enforcement of
  \<open>core/src/read/retrieval-policy.ts\<close>. A registered name is copied into a policy's default, so a rename and a
  delete repair both policies, under a lock that the setters take too. \<open>gap k\<close> is what commits during wait \<open>k\<close>:
  0 the policy lock, 1 a registry row or index entry, 2 and 3 the two policy rows.

  \<open>collate\<close> is the order of names in the database; an em dash of a message is the character 0x97.
\<close>

section \<open>The registry (db/src/scopes.ts)\<close>

record scope_record =
  sr_id :: rid
  sr_name :: string
  sr_aliases :: "string list"
  sr_created :: jsdate

definition toScopeRow :: "scope_row \<Rightarrow> scope_record" where
  "toScopeRow r = \<lparr>sr_id = sc_id r, sr_name = sc_name r, sr_aliases = sc_aliases r, sr_created = date_of_sql (sc_created r)\<rparr>"

definition scope_key :: "scope_row \<Rightarrow> uid \<times> string" where
  "scope_key r = (sc_user r, sc_name r)"

definition listScopes :: "(string \<Rightarrow> 'k::linorder) \<Rightarrow> uid \<Rightarrow> service_db \<Rightarrow> scope_record list" where
  "listScopes collate u w = map toScopeRow (sort_key (\<lambda>r. collate (sc_name r)) (filter (\<lambda>r. sc_user r = u) (sv_scopes w)))"

definition insert_scope :: "scope_row \<Rightarrow> scope_record sv_tx" where
  "insert_scope row = (\<lambda>w. let x = row\<lparr>sc_id := sv_next w\<rparr> in
     if scope_key x \<in> set (map scope_key (sv_scopes w)) then Inl UniqueViolation
     else if user_row (sc_user x) (sv_auth w) = None then Inl ForeignKeyViolation
     else Inr (toScopeRow x, w\<lparr>sv_scopes := sv_scopes w @ [x], sv_next := Suc (sv_next w)\<rparr>))"

text \<open>UPDATE ... RETURNING: the unique index is checked on the new rows.\<close>

definition update_scopes :: "(scope_row \<Rightarrow> bool) \<Rightarrow> (scope_row \<Rightarrow> scope_row) \<Rightarrow> scope_row list sv_tx" where
  "update_scopes p f = (\<lambda>w. let rows = sql_update p f (sv_scopes w) in
     if \<not> distinct (map scope_key rows) then Inl UniqueViolation
     else Inr (sql_returning p f (sv_scopes w), w\<lparr>sv_scopes := rows\<rparr>))"

definition delete_scopes :: "(scope_row \<Rightarrow> bool) \<Rightarrow> scope_row list sv_tx" where
  "delete_scopes p = (\<lambda>w. Inr (filter p (sv_scopes w), w\<lparr>sv_scopes := filter (\<lambda>r. \<not> p r) (sv_scopes w)\<rparr>))"

definition name_taken :: "string \<Rightarrow> err \<Rightarrow> err" where
  "name_taken n e = (if e = UniqueViolation then ScopeNameConflict n else e)"

definition named :: "uid \<Rightarrow> string \<Rightarrow> scope_row \<Rightarrow> bool" where
  "named u n r \<longleftrightarrow> sc_user r = u \<and> sc_name r = n"

text \<open>The first row of a RETURNING list, or the not-found error.\<close>

definition found_scope :: "string \<Rightarrow> scope_row list \<Rightarrow> scope_record sv_tx" where
  "found_scope n rows = (case rows of [] \<Rightarrow> throw (ScopeNotFound n) | r # _ \<Rightarrow> ret (toScopeRow r))"

definition createScope_db :: "(nat \<Rightarrow> service_db \<Rightarrow> service_db) \<Rightarrow> instant \<Rightarrow> uid \<Rightarrow> string \<Rightarrow> string list \<Rightarrow> scope_record sv_tx" where
  "createScope_db gap t u n al =
     bind_tx (wait_for (gap 1)) (\<lambda>_.
     map_error (name_taken n) (insert_scope \<lparr>sc_id = 0, sc_user = u, sc_name = n, sc_aliases = al, sc_created = t\<rparr>))"

definition renameScope_db :: "(nat \<Rightarrow> service_db \<Rightarrow> service_db) \<Rightarrow> uid \<Rightarrow> string \<Rightarrow> string \<Rightarrow> scope_record sv_tx" where
  "renameScope_db gap u frm to =
     bind_tx (wait_for (gap 1)) (\<lambda>_.
     map_error (name_taken to) (bind_tx (update_scopes (named u frm) (\<lambda>r. r\<lparr>sc_name := to\<rparr>)) (found_scope frm)))"

definition setScopeAliases_db :: "(nat \<Rightarrow> service_db \<Rightarrow> service_db) \<Rightarrow> uid \<Rightarrow> string \<Rightarrow> string list \<Rightarrow> scope_record sv_tx" where
  "setScopeAliases_db gap u n al =
     bind_tx (wait_for (gap 1)) (\<lambda>_.
     bind_tx (update_scopes (named u n) (\<lambda>r. r\<lparr>sc_aliases := al\<rparr>)) (found_scope n))"

definition deleteScope_db :: "(nat \<Rightarrow> service_db \<Rightarrow> service_db) \<Rightarrow> uid \<Rightarrow> string \<Rightarrow> unit sv_tx" where
  "deleteScope_db gap u n =
     bind_tx (wait_for (gap 1)) (\<lambda>_.
     bind_tx (delete_scopes (named u n)) (\<lambda>gone. if gone = [] then throw (ScopeNotFound n) else ret ()))"

section \<open>The policies (db/src/retrieval-policy.ts, write-scope-policy.ts)\<close>

record policy_row =
  pr_mode :: scope_mode
  pr_default :: "string option"
  pr_updated :: jsdate

definition toPolicyRow :: "scope_policy \<Rightarrow> policy_row" where
  "toPolicyRow p = \<lparr>pr_mode = sp_mode p, pr_default = sp_default p, pr_updated = date_of_sql (sp_updated p)\<rparr>"

text \<open>The two tables have the same columns, CHECK and key; a statement names its table by its field.\<close>

type_synonym policies = "auth_db \<Rightarrow> scope_policy list"
type_synonym set_policies = "(scope_policy list \<Rightarrow> scope_policy list) \<Rightarrow> auth_db \<Rightarrow> auth_db"

definition scope_consistency :: "scope_mode \<Rightarrow> string option \<Rightarrow> bool" where
  "scope_consistency mode d \<longleftrightarrow> (mode = ScopeDefault) = (d \<noteq> None)"

definition get_policy :: "policies \<Rightarrow> uid \<Rightarrow> service_db \<Rightarrow> policy_row option" where
  "get_policy tab u w = map_option toPolicyRow (find_row (\<lambda>p. sp_user p = u) (tab (sv_auth w)))"

definition put_policies :: "set_policies \<Rightarrow> (scope_policy list \<Rightarrow> scope_policy list) \<Rightarrow> service_db \<Rightarrow> service_db" where
  "put_policies put f w = w\<lparr>sv_auth := put f (sv_auth w)\<rparr>"

definition set_policy :: "instant \<Rightarrow> scope_mode \<Rightarrow> string option \<Rightarrow> scope_policy \<Rightarrow> scope_policy" where
  "set_policy t mode d p = p\<lparr>sp_mode := mode, sp_default := d, sp_updated := t\<rparr>"

definition new_policy :: "instant \<Rightarrow> uid \<Rightarrow> scope_mode \<Rightarrow> string option \<Rightarrow> scope_policy" where
  "new_policy t u mode d = \<lparr>sp_user = u, sp_mode = mode, sp_default = d, sp_created = t, sp_updated = t\<rparr>"

definition upsert_policy ::
  "policies \<Rightarrow> set_policies \<Rightarrow> instant \<Rightarrow> uid \<Rightarrow> scope_mode \<Rightarrow> string option \<Rightarrow> policy_row sv_tx" where
  "upsert_policy tab put t u mode d = (\<lambda>w.
     let stored = \<lparr>pr_mode = mode, pr_default = d, pr_updated = date_of_sql t\<rparr> in
     if \<not> scope_consistency mode d then Inl CheckViolation
     else if u \<in> set (map sp_user (tab (sv_auth w)))
     then Inr (stored, put_policies put (sql_update (\<lambda>p. sp_user p = u) (set_policy t mode d)) w)
     else if user_row u (sv_auth w) = None then Inl ForeignKeyViolation
     else Inr (stored, put_policies put (\<lambda>rows. rows @ [new_policy t u mode d]) w))"

definition defaults_to :: "uid \<Rightarrow> string \<Rightarrow> scope_policy \<Rightarrow> bool" where
  "defaults_to u n p \<longleftrightarrow> sp_user p = u \<and> sp_mode p = ScopeDefault \<and> sp_default p = Some n"

definition replace_default ::
  "policies \<Rightarrow> set_policies \<Rightarrow> instant \<Rightarrow> uid \<Rightarrow> string \<Rightarrow> scope_mode \<Rightarrow> string option \<Rightarrow> unit sv_tx" where
  "replace_default tab put t u n mode d = (\<lambda>w.
     if (\<exists>p \<in> set (tab (sv_auth w)). defaults_to u n p) \<and> \<not> scope_consistency mode d then Inl CheckViolation
     else Inr ((), put_policies put (sql_update (defaults_to u n) (set_policy t mode d)) w))"

definition lockScopePolicies :: "(nat \<Rightarrow> service_db \<Rightarrow> service_db) \<Rightarrow> unit sv_tx" where
  "lockScopePolicies gap = wait_for (gap 0)"

definition getRetrievalPolicy :: "uid \<Rightarrow> service_db \<Rightarrow> policy_row option" where
  "getRetrievalPolicy = get_policy ad_retrieval"

definition getWriteScopePolicy :: "uid \<Rightarrow> service_db \<Rightarrow> policy_row option" where
  "getWriteScopePolicy = get_policy ad_write_scope"

definition upsertRetrievalPolicy ::
  "(nat \<Rightarrow> service_db \<Rightarrow> service_db) \<Rightarrow> instant \<Rightarrow> uid \<Rightarrow> scope_mode \<Rightarrow> string option \<Rightarrow> policy_row sv_tx" where
  "upsertRetrievalPolicy gap t u mode d =
     bind_tx (wait_for (gap 2)) (\<lambda>_. upsert_policy ad_retrieval ad_retrieval_update t u mode d)"

definition upsertWriteScopePolicy ::
  "(nat \<Rightarrow> service_db \<Rightarrow> service_db) \<Rightarrow> instant \<Rightarrow> uid \<Rightarrow> scope_mode \<Rightarrow> string option \<Rightarrow> policy_row sv_tx" where
  "upsertWriteScopePolicy gap t u mode d =
     bind_tx (wait_for (gap 3)) (\<lambda>_. upsert_policy ad_write_scope ad_write_scope_update t u mode d)"

definition replaceRetrievalPolicyDefault ::
  "(nat \<Rightarrow> service_db \<Rightarrow> service_db) \<Rightarrow> instant \<Rightarrow> uid \<Rightarrow> string \<Rightarrow> scope_mode \<Rightarrow> string option \<Rightarrow> unit sv_tx" where
  "replaceRetrievalPolicyDefault gap t u n mode d =
     bind_tx (wait_for (gap 2)) (\<lambda>_. replace_default ad_retrieval ad_retrieval_update t u n mode d)"

definition replaceWriteScopePolicyDefault ::
  "(nat \<Rightarrow> service_db \<Rightarrow> service_db) \<Rightarrow> instant \<Rightarrow> uid \<Rightarrow> string \<Rightarrow> scope_mode \<Rightarrow> string option \<Rightarrow> unit sv_tx" where
  "replaceWriteScopePolicyDefault gap t u n mode d =
     bind_tx (wait_for (gap 3)) (\<lambda>_. replace_default ad_write_scope ad_write_scope_update t u n mode d)"

section \<open>Registry operations (core/src/scope/scopes.ts)\<close>

definition createScope ::
  "(nat \<Rightarrow> service_db \<Rightarrow> service_db) \<Rightarrow> instant \<Rightarrow> uid \<Rightarrow> string \<Rightarrow> string list \<Rightarrow> (scope_record, service_db) svc" where
  "createScope gap t u n al = run_tx (createScope_db gap t u n al)"

definition setScopeAliases ::
  "(nat \<Rightarrow> service_db \<Rightarrow> service_db) \<Rightarrow> uid \<Rightarrow> string \<Rightarrow> string list \<Rightarrow> (scope_record, service_db) svc" where
  "setScopeAliases gap u n al = run_tx (setScopeAliases_db gap u n al)"

definition renameScope ::
  "(nat \<Rightarrow> service_db \<Rightarrow> service_db) \<Rightarrow> instant \<Rightarrow> uid \<Rightarrow> string \<Rightarrow> string \<Rightarrow> (scope_record, service_db) svc" where
  "renameScope gap t u frm to = run_tx (
     bind_tx (lockScopePolicies gap) (\<lambda>_.
     bind_tx (renameScope_db gap u frm to) (\<lambda>scope.
     bind_tx (replaceRetrievalPolicyDefault gap t u frm ScopeDefault (Some to)) (\<lambda>_.
     bind_tx (replaceWriteScopePolicyDefault gap t u frm ScopeDefault (Some to)) (\<lambda>_.
     ret scope)))))"

definition deleteScope ::
  "(nat \<Rightarrow> service_db \<Rightarrow> service_db) \<Rightarrow> instant \<Rightarrow> uid \<Rightarrow> string \<Rightarrow> (unit, service_db) svc" where
  "deleteScope gap t u n = run_tx (
     bind_tx (lockScopePolicies gap) (\<lambda>_.
     bind_tx (deleteScope_db gap u n) (\<lambda>_.
     bind_tx (replaceRetrievalPolicyDefault gap t u n ScopeRequire None) (\<lambda>_.
     replaceWriteScopePolicyDefault gap t u n ScopeRequire None))))"

section \<open>The retrieval policy (core/src/scope/retrieval-settings.ts)\<close>

datatype retrieval_policy = PolicyOff | PolicyDefault string | PolicyRequire "string list"

definition resolveRetrievalPolicy :: "(string \<Rightarrow> 'k::linorder) \<Rightarrow> uid \<Rightarrow> service_db \<Rightarrow> retrieval_policy" where
  "resolveRetrievalPolicy collate u w = (case getRetrievalPolicy u w of
       None \<Rightarrow> PolicyOff
     | Some row \<Rightarrow> (case pr_mode row of
           ScopeOff \<Rightarrow> PolicyOff
         | ScopeDefault \<Rightarrow> (case pr_default row of None \<Rightarrow> PolicyOff | Some d \<Rightarrow> PolicyDefault d)
         | ScopeRequire \<Rightarrow> PolicyRequire (map sr_name (listScopes collate u w))))"

text \<open>The registry check of both setters.\<close>

definition requireRegistered :: "(string \<Rightarrow> 'k::linorder) \<Rightarrow> uid \<Rightarrow> scope_mode \<Rightarrow> string option \<Rightarrow> unit sv_tx" where
  "requireRegistered collate u mode scope = (case scope of
       Some n \<Rightarrow> if mode = ScopeDefault then
           bind_tx (query (listScopes collate u)) (\<lambda>scopes.
             if n \<in> set (map sr_name scopes) then ret () else throw (ScopeNotFound n))
         else ret ()
     | None \<Rightarrow> ret ())"

definition setRetrievalDefault ::
  "(nat \<Rightarrow> service_db \<Rightarrow> service_db) \<Rightarrow> (string \<Rightarrow> 'k::linorder) \<Rightarrow> instant \<Rightarrow> uid \<Rightarrow> scope_mode \<Rightarrow> string option \<Rightarrow>
   (scope_mode \<times> string option, service_db) svc" where
  "setRetrievalDefault gap collate t u mode scope = run_tx (
     bind_tx (lockScopePolicies gap) (\<lambda>_.
     bind_tx (requireRegistered collate u mode scope) (\<lambda>_.
     bind_tx (upsertRetrievalPolicy gap t u mode scope) (\<lambda>stored.
     ret (pr_mode stored, pr_default stored)))))"

section \<open>Enforcement on reads (core/src/read/retrieval-policy.ts)\<close>

definition applyPolicyToScopeFilter ::
  "retrieval_policy option \<Rightarrow> string option \<Rightarrow> err + (string option \<times> string option)" where
  "applyPolicyToScopeFilter policy scope =
     (if policy = None \<or> policy = Some PolicyOff \<or> scope \<noteq> None then Inr (scope, None)
      else case policy of
          Some (PolicyRequire names) \<Rightarrow> Inl (UnscopedRetrieval names)
        | Some (PolicyDefault d) \<Rightarrow> Inr (Some d, Some d)
        | _ \<Rightarrow> Inr (scope, None))"

definition applyPolicyToSelector ::
  "retrieval_policy option \<Rightarrow> selector \<Rightarrow> err + (selector \<times> string option)" where
  "applyPolicyToSelector policy sel =
     (if policy = None \<or> policy = Some PolicyOff \<or> sel \<noteq> SelAll then Inr (sel, None)
      else case policy of
          Some (PolicyRequire names) \<Rightarrow> Inl (UnscopedRetrieval names)
        | Some (PolicyDefault d) \<Rightarrow> Inr (SelScope d, Some d)
        | _ \<Rightarrow> Inr (sel, None))"

definition MAX_REST_ERROR_DETAIL_LENGTH :: nat where "MAX_REST_ERROR_DETAIL_LENGTH = 512"

definition MAX_UNSCOPED_RECOVERY_SCOPES :: nat where "MAX_UNSCOPED_RECOVERY_SCOPES = 8"

definition em_dash :: string where "em_dash = [char_of (0x97 :: nat)]"

definition UNSCOPED_RECOVERY_PREFIX :: string where
  "UNSCOPED_RECOVERY_PREFIX = ''this account requires an explicit retrieval scope (retrieval-scope mode 'require') '' @ em_dash @ '' ''"

fun join_with :: "string \<Rightarrow> string list \<Rightarrow> string" where
  "join_with sep [] = []"
| "join_with sep [x] = x"
| "join_with sep (x # y # ys) = x @ sep @ join_with sep (y # ys)"

definition recovery_detail :: "string \<Rightarrow> string list \<Rightarrow> nat \<Rightarrow> string" where
  "recovery_detail prefx names included =
     prefx @ ''registered scopes: '' @ join_with '', '' (take included names) @
     (if included < length names then ''; +'' @ decimal (length names - included) @ '' more omitted'' else [])"

text \<open>The loop from \<open>included\<close> down to 1; \<open>None\<close> when no candidate fits.\<close>

fun longest_fitting :: "string \<Rightarrow> string list \<Rightarrow> nat \<Rightarrow> string option" where
  "longest_fitting prefx names 0 = None"
| "longest_fitting prefx names (Suc k) =
     (if length (recovery_detail prefx names (Suc k)) \<le> MAX_REST_ERROR_DETAIL_LENGTH
      then Some (recovery_detail prefx names (Suc k)) else longest_fitting prefx names k)"

definition formatScopeRecoveryDetail :: "string \<Rightarrow> string list \<Rightarrow> string" where
  "formatScopeRecoveryDetail prefx names =
     (if names = [] then prefx @ ''no scopes are registered yet '' @ em_dash @ '' register one with configure_scope''
      else case longest_fitting prefx names (min (length names) MAX_UNSCOPED_RECOVERY_SCOPES) of
          Some detail \<Rightarrow> detail
        | None \<Rightarrow> prefx @ ''registered scopes: +'' @ decimal (length names) @ '' omitted'')"

definition formatUnscopedRetrievalDetail :: "string list \<Rightarrow> string" where
  "formatUnscopedRetrievalDetail names = formatScopeRecoveryDetail UNSCOPED_RECOVERY_PREFIX names"

section \<open>The write policy (core/src/scope/write-policy.ts)\<close>

definition UNPOLICIED_WRITE_SCOPE :: string where "UNPOLICIED_WRITE_SCOPE = ''personal''"

definition UNSCOPED_WRITE_PREFIX :: string where
  "UNSCOPED_WRITE_PREFIX = ''this account requires an explicit scope on writes (write-scope mode 'require') '' @ em_dash @ '' pass scope; ''"

definition formatUnscopedWriteDetail :: "string list \<Rightarrow> string" where
  "formatUnscopedWriteDetail names =
     (if names = [] then UNSCOPED_WRITE_PREFIX @ ''any kebab-case scope name is accepted''
      else formatScopeRecoveryDetail UNSCOPED_WRITE_PREFIX names)"

definition toWriteScopeSetting :: "policy_row option \<Rightarrow> scope_mode \<times> string option" where
  "toWriteScopeSetting row = (case row of
       None \<Rightarrow> (ScopeOff, None)
     | Some r \<Rightarrow> if pr_mode r = ScopeDefault \<and> pr_default r = None then (ScopeOff, None) else (pr_mode r, pr_default r))"

definition resolveWriteScopePolicy :: "uid \<Rightarrow> service_db \<Rightarrow> scope_mode \<times> string option" where
  "resolveWriteScopePolicy u w = toWriteScopeSetting (getWriteScopePolicy u w)"

definition resolveWriteScope :: "(string \<Rightarrow> 'k::linorder) \<Rightarrow> uid \<Rightarrow> string option \<Rightarrow> service_db \<Rightarrow> err + string" where
  "resolveWriteScope collate u explicit w = (case explicit of
       Some s \<Rightarrow> Inr s
     | None \<Rightarrow> (case toWriteScopeSetting (getWriteScopePolicy u w) of
           (ScopeOff, _) \<Rightarrow> Inr UNPOLICIED_WRITE_SCOPE
         | (ScopeDefault, scope) \<Rightarrow> Inr (case scope of None \<Rightarrow> UNPOLICIED_WRITE_SCOPE | Some s \<Rightarrow> s)
         | (ScopeRequire, _) \<Rightarrow> Inl (UnscopedWrite (map sr_name (listScopes collate u w)))))"

definition setWriteDefault ::
  "(nat \<Rightarrow> service_db \<Rightarrow> service_db) \<Rightarrow> (string \<Rightarrow> 'k::linorder) \<Rightarrow> instant \<Rightarrow> uid \<Rightarrow> scope_mode \<Rightarrow> string option \<Rightarrow>
   (scope_mode \<times> string option, service_db) svc" where
  "setWriteDefault gap collate t u mode scope = run_tx (
     bind_tx (lockScopePolicies gap) (\<lambda>_.
     bind_tx (requireRegistered collate u mode scope) (\<lambda>_.
     bind_tx (upsertWriteScopePolicy gap t u mode scope) (\<lambda>stored.
     ret (pr_mode stored, pr_default stored)))))"

end
