(* ===== verification/Budget.thy ===== *)
theory Budget
  imports ServiceDb
begin

text \<open>
  The budget gate: the cost registry of \<open>llm/src/operations.ts\<close>, the ledger of \<open>db/src/llm-usage.ts\<close>, the
  accounting and the atomic reservation of \<open>db/src/budget-read.ts\<close>, and the gate of \<open>core/src/budget\<close>. A metered
  call reserves its worst-case cost before it runs; reserving is serialized per user by an advisory lock.

  \<open>fl\<close> rounds a rational to a double; amounts in the database are exact. \<open>t\<close> is \<open>now()\<close>, which PostgreSQL fixes
  when the transaction starts, and so before the wait for the lock, \<open>gap\<close>.
\<close>

section \<open>The cost registry (llm/src/operations.ts)\<close>

type_synonym rounding = "rat \<Rightarrow> rat"

datatype capability_class = EmbedClass | GenerationClass

definition METERED_EMBED_OPERATIONS :: "string list" where
  "METERED_EMBED_OPERATIONS = [''memory.embed'', ''import.embed'', ''search'']"

definition METERED_GENERATION_OPERATIONS :: "string list" where
  "METERED_GENERATION_OPERATIONS = [''session.closer'']"

definition METERED_JUDGMENT_OPERATIONS :: "string list" where
  "METERED_JUDGMENT_OPERATIONS = [''session.closer.decide'', ''memory.forget.decide'']"

definition MOST_EXPENSIVE_EMBED_RATE_USD_PER_TOKEN :: "rounding \<Rightarrow> rat" where
  "MOST_EXPENSIVE_EMBED_RATE_USD_PER_TOKEN fl = fl (fl (13 / 100) / 1000000)"

definition MAX_EMBED_CALL_COST_USD :: "rounding \<Rightarrow> rat" where
  "MAX_EMBED_CALL_COST_USD fl = fl (8192 * MOST_EXPENSIVE_EMBED_RATE_USD_PER_TOKEN fl)"

definition MAX_CLOSER_CALL_COST_USD :: "rounding \<Rightarrow> rat" where "MAX_CLOSER_CALL_COST_USD fl = fl (3 / 1000)"

definition MAX_CLOSER_DECIDE_CALL_COST_USD :: "rounding \<Rightarrow> rat" where "MAX_CLOSER_DECIDE_CALL_COST_USD fl = fl (3 / 1000)"

definition MAX_FORGET_DECIDE_CALL_COST_USD :: "rounding \<Rightarrow> rat" where "MAX_FORGET_DECIDE_CALL_COST_USD fl = fl (3 / 1000)"

definition llmOperations :: "rounding \<Rightarrow> (string \<times> rat \<times> capability_class) list" where
  "llmOperations fl = [
     (''memory.embed'', MAX_EMBED_CALL_COST_USD fl, EmbedClass),
     (''import.embed'', MAX_EMBED_CALL_COST_USD fl, EmbedClass),
     (''search'', MAX_EMBED_CALL_COST_USD fl, EmbedClass),
     (''session.closer'', MAX_CLOSER_CALL_COST_USD fl, GenerationClass),
     (''session.closer.decide'', MAX_CLOSER_DECIDE_CALL_COST_USD fl, GenerationClass),
     (''memory.forget.decide'', MAX_FORGET_DECIDE_CALL_COST_USD fl, GenerationClass)]"

definition maxCostUsdForOperation :: "rounding \<Rightarrow> string \<Rightarrow> err + rat" where
  "maxCostUsdForOperation fl op = (case map_of (llmOperations fl) op of
       None \<Rightarrow> Inl (UnregisteredOperation op) | Some (cost, _) \<Rightarrow> Inr cost)"

definition capabilityClassForOperation :: "string \<Rightarrow> err + capability_class" where
  "capabilityClassForOperation op = (case map_of (llmOperations (\<lambda>x. x)) op of
       None \<Rightarrow> Inl (UnregisteredOperation op) | Some (_, c) \<Rightarrow> Inr c)"

definition maxRegisteredCostUsd :: "rounding \<Rightarrow> rat" where
  "maxRegisteredCostUsd fl = fold (\<lambda>(_, cost, _) m. max m cost) (llmOperations fl) 0"

text \<open>Every class the type admits is one of \<open>CAPABILITY_CLASSES\<close>; what can be missing is the entry.\<close>

fun require_registered :: "string list \<Rightarrow> err + unit" where
  "require_registered [] = Inr ()"
| "require_registered (op # ops) = (case capabilityClassForOperation op of
     Inl e \<Rightarrow> Inl e | Inr _ \<Rightarrow> require_registered ops)"

definition assertMeteredOperationsRegistered :: "err + unit" where
  "assertMeteredOperationsRegistered =
     require_registered (METERED_EMBED_OPERATIONS @ METERED_GENERATION_OPERATIONS @ METERED_JUDGMENT_OPERATIONS)"

section \<open>The ledger (db/src/llm-usage.ts)\<close>

text \<open>\<open>Number.prototype.toFixed(12)\<close>, read by a column of scale 12.\<close>

definition toFixed12 :: "rat \<Rightarrow> rat" where
  "toFixed12 x = of_int (round (x * 10 ^ 12)) / 10 ^ 12"

record usage_write =
  uw_operation :: string
  uw_model :: string
  uw_input :: nat
  uw_output :: nat
  uw_cost :: "rat option"

definition usage_of :: "instant \<Rightarrow> uid \<Rightarrow> usage_write \<Rightarrow> ledger_row" where
  "usage_of t u x = \<lparr>lu_id = 0, lu_user = u, lu_operation = uw_operation x, lu_model = uw_model x,
     lu_input = uw_input x, lu_output = uw_output x, lu_cost = map_option toFixed12 (uw_cost x), lu_created = t\<rparr>"

definition insert_usage :: "ledger_row \<Rightarrow> unit sv_tx" where
  "insert_usage row = (\<lambda>w.
     if user_row (lu_user row) (sv_auth w) = None then Inl ForeignKeyViolation
     else Inr ((), w\<lparr>sv_usage := sv_usage w @ [row\<lparr>lu_id := sv_next w\<rparr>], sv_next := Suc (sv_next w)\<rparr>))"

definition insertLlmUsage :: "instant \<Rightarrow> uid \<Rightarrow> usage_write \<Rightarrow> (unit, service_db) svc" where
  "insertLlmUsage t u x = run_tx (insert_usage (usage_of t u x))"

section \<open>Accounting (db/src/budget-read.ts)\<close>

definition RESERVATION_TTL_SECONDS :: int where "RESERVATION_TTL_SECONDS = 120"

definition seconds :: "int \<Rightarrow> instant" where "seconds n = n * 1000000"

definition days :: "nat \<Rightarrow> instant" where "days n = seconds (int n * 86400)"

definition budget_of :: "uid \<Rightarrow> service_db \<Rightarrow> budget_row option" where
  "budget_of u w = find_row (\<lambda>b. ub_user b = u) (sv_budgets w)"

text \<open>The bounds of a stored window pass through JavaScript dates on their way back into the query.\<close>

definition explicit_window :: "budget_row option \<Rightarrow> (instant \<times> instant) option" where
  "explicit_window b = (case b of None \<Rightarrow> None | Some r \<Rightarrow> (case (ub_start r, ub_end r) of
       (Some s, Some e) \<Rightarrow> Some (sql_of_date (date_of_sql s), sql_of_date (date_of_sql e)) | _ \<Rightarrow> None))"

definition window_of :: "instant \<Rightarrow> nat \<Rightarrow> budget_row option \<Rightarrow> instant \<times> instant" where
  "window_of t n b = (case explicit_window b of Some se \<Rightarrow> se | None \<Rightarrow> (t - days n, t))"

definition usage_in :: "uid \<Rightarrow> instant \<times> instant \<Rightarrow> service_db \<Rightarrow> ledger_row list" where
  "usage_in u se w = filter (\<lambda>x. lu_user x = u \<and> fst se \<le> lu_created x \<and> lu_created x < snd se) (sv_usage w)"

definition priced_sum :: "ledger_row list \<Rightarrow> rat" where
  "priced_sum rows = sum_list (map (\<lambda>x. case lu_cost x of None \<Rightarrow> 0 | Some c \<Rightarrow> c) rows)"

definition unpriced_count :: "ledger_row list \<Rightarrow> nat" where
  "unpriced_count rows = length (filter (\<lambda>x. lu_cost x = None) rows)"

definition active_reservations :: "instant \<Rightarrow> uid \<Rightarrow> service_db \<Rightarrow> reservation list" where
  "active_reservations t u w =
     filter (\<lambda>r. rv_user r = u \<and> t - seconds RESERVATION_TTL_SECONDS < rv_created r) (sv_reservations w)"

definition reserved_sum :: "reservation list \<Rightarrow> rat" where
  "reserved_sum rows = sum_list (map rv_cost rows)"

definition selectTierCap :: "rounding \<Rightarrow> string \<Rightarrow> service_db \<Rightarrow> rat option" where
  "selectTierCap fl tier w = map_option (\<lambda>r. fl (pt_cap r)) (find_row (\<lambda>r. pt_tier r = tier) (sv_tiers w))"

definition sumActiveReservations :: "rounding \<Rightarrow> instant \<Rightarrow> uid \<Rightarrow> service_db \<Rightarrow> rat" where
  "sumActiveReservations fl t u w = fl (reserved_sum (active_reservations t u w))"

record accounting =
  ac_override :: "rat option"
  ac_tier_cap :: "rat option"
  ac_consumed :: rat
  ac_unpriced :: nat
  ac_reserved :: rat
  ac_start :: "jsdate option"
  ac_end :: "jsdate option"

definition getBudgetAccounting :: "rounding \<Rightarrow> instant \<Rightarrow> uid \<Rightarrow> string option \<Rightarrow> nat \<Rightarrow> service_db \<Rightarrow> accounting" where
  "getBudgetAccounting fl t u tier n w = (let b = budget_of u w; rows = usage_in u (window_of t n b) w in
     \<lparr>ac_override = Option.bind b (\<lambda>r. map_option fl (ub_cap r)),
      ac_tier_cap = Option.bind tier (\<lambda>name. selectTierCap fl name w),
      ac_consumed = fl (priced_sum rows), ac_unpriced = unpriced_count rows,
      ac_reserved = sumActiveReservations fl t u w,
      ac_start = Option.bind b (\<lambda>r. map_option date_of_sql (ub_start r)),
      ac_end = Option.bind b (\<lambda>r. map_option date_of_sql (ub_end r))\<rparr>)"

definition coalesce :: "'a option \<Rightarrow> 'a \<Rightarrow> 'a" where
  "coalesce x d = (case x of None \<Rightarrow> d | Some a \<Rightarrow> a)"

definition insert_reservation :: "instant \<Rightarrow> uid \<Rightarrow> rat \<Rightarrow> rid sv_tx" where
  "insert_reservation t u est = (\<lambda>w.
     if user_row u (sv_auth w) = None then Inl ForeignKeyViolation
     else Inr (sv_next w, w\<lparr>sv_reservations := sv_reservations w @ [\<lparr>rv_id = sv_next w, rv_user = u,
       rv_cost = toFixed12 est, rv_created = t\<rparr>], sv_next := Suc (sv_next w)\<rparr>))"

definition effective_cap :: "rounding \<Rightarrow> uid \<Rightarrow> string option \<Rightarrow> rat \<Rightarrow> service_db \<Rightarrow> rat" where
  "effective_cap fl u tier defaultCap w =
     coalesce (Option.bind (budget_of u w) (\<lambda>r. map_option fl (ub_cap r)))
       (coalesce (Option.bind tier (\<lambda>name. selectTierCap fl name w)) defaultCap)"

text \<open>The parameters after the user: tier, window, default cap, estimate and the charge for an unpriced row.\<close>

definition reserveBudget ::
  "rounding \<Rightarrow> (service_db \<Rightarrow> service_db) \<Rightarrow> instant \<Rightarrow> uid \<Rightarrow> string option \<Rightarrow> nat \<Rightarrow> rat \<Rightarrow> rat \<Rightarrow> rat \<Rightarrow> (rid option, service_db) svc" where
  "reserveBudget fl gap t u tier n defaultCap est fallback = run_tx (
     bind_tx (wait_for gap) (\<lambda>_.
     bind_tx (query (\<lambda>w. (usage_in u (window_of t n (budget_of u w)) w, sumActiveReservations fl t u w))) (\<lambda>(rows, reserved).
     bind_tx (query (effective_cap fl u tier defaultCap)) (\<lambda>cap.
     let consumed = fl (fl (fl (priced_sum rows) + fl (of_nat (unpriced_count rows) * fallback)) + reserved) in
     if cap < fl (consumed + est) then ret None
     else bind_tx (insert_reservation t u est) (\<lambda>i. ret (Some i))))))"

definition releaseReservation :: "uid \<Rightarrow> rid \<Rightarrow> (unit, service_db) svc" where
  "releaseReservation u i = (\<lambda>w. (Inr (), w\<lparr>sv_reservations := filter (\<lambda>r. \<not> (rv_user r = u \<and> rv_id r = i)) (sv_reservations w)\<rparr>))"

text \<open>An upsert of \<open>user_budgets\<close>: \<open>f\<close> on the row there is, \<open>fresh\<close> when there is none.\<close>

definition upsert_budget :: "uid \<Rightarrow> (budget_row \<Rightarrow> budget_row) \<Rightarrow> budget_row \<Rightarrow> unit sv_tx" where
  "upsert_budget u f fresh = (\<lambda>w.
     if u \<in> set (map ub_user (sv_budgets w))
     then Inr ((), w\<lparr>sv_budgets := sql_update (\<lambda>b. ub_user b = u) f (sv_budgets w)\<rparr>)
     else if user_row u (sv_auth w) = None then Inl ForeignKeyViolation
     else Inr ((), w\<lparr>sv_budgets := sv_budgets w @ [fresh]\<rparr>))"

definition setBudgetWindowInTx :: "instant \<Rightarrow> uid \<Rightarrow> jsdate \<Rightarrow> jsdate \<Rightarrow> unit sv_tx" where
  "setBudgetWindowInTx t u s e = upsert_budget u
     (\<lambda>b. b\<lparr>ub_start := Some (sql_of_date s), ub_end := Some (sql_of_date e), ub_updated := t\<rparr>)
     \<lparr>ub_user = u, ub_cap = None, ub_start = Some (sql_of_date s), ub_end = Some (sql_of_date e), ub_updated = t\<rparr>"

definition setBudgetWindow :: "instant \<Rightarrow> uid \<Rightarrow> jsdate \<Rightarrow> jsdate \<Rightarrow> (unit, service_db) svc" where
  "setBudgetWindow t u s e = run_tx (setBudgetWindowInTx t u s e)"

definition getUserBudget :: "rounding \<Rightarrow> uid \<Rightarrow> service_db \<Rightarrow> (rat option \<times> jsdate option \<times> jsdate option) option" where
  "getUserBudget fl u w = map_option (\<lambda>b. (map_option fl (ub_cap b), map_option date_of_sql (ub_start b), map_option date_of_sql (ub_end b)))
     (budget_of u w)"

text \<open>A period is absent (the row keeps its own), null, or a date.\<close>

definition setUserBudget :: "instant \<Rightarrow> uid \<Rightarrow> rat option \<Rightarrow> jsdate option option \<Rightarrow> jsdate option option \<Rightarrow> (unit, service_db) svc" where
  "setUserBudget t u cap s e = run_tx (upsert_budget u
     (\<lambda>b. b\<lparr>ub_cap := map_option toFixed12 cap,
        ub_start := (case s of None \<Rightarrow> ub_start b | Some d \<Rightarrow> map_option sql_of_date d),
        ub_end := (case e of None \<Rightarrow> ub_end b | Some d \<Rightarrow> map_option sql_of_date d)\<rparr>)
     \<lparr>ub_user = u, ub_cap = map_option toFixed12 cap, ub_start = Option.bind s (map_option sql_of_date),
      ub_end = Option.bind e (map_option sql_of_date), ub_updated = t\<rparr>)"

section \<open>The gate (core/src/budget)\<close>

record limits =
  lm_tier :: "string option"
  lm_days :: "nat option"
  lm_memories :: "nat option"
  lm_clients :: "nat option"

definition SELFHOST_LIMITS :: limits where
  "SELFHOST_LIMITS = \<lparr>lm_tier = None, lm_days = None, lm_memories = None, lm_clients = None\<rparr>"

text \<open>The injected enforcement; \<open>outage\<close> says that the usage store does not answer.\<close>

record enforcement =
  en_limits :: "uid \<Rightarrow> err + limits"
  en_cap :: rat
  en_days :: nat

definition effectiveConsumed :: "rounding \<Rightarrow> accounting \<Rightarrow> rat" where
  "effectiveConsumed fl a = fl (fl (ac_consumed a + fl (of_nat (ac_unpriced a) * maxRegisteredCostUsd fl)) + ac_reserved a)"

definition assertWithinBudget ::
  "rounding \<Rightarrow> bool \<Rightarrow> instant \<Rightarrow> enforcement \<Rightarrow> uid \<Rightarrow> string \<Rightarrow> service_db \<Rightarrow> err + unit" where
  "assertWithinBudget fl outage t en u op w = (case maxCostUsdForOperation fl op of
       Inl e \<Rightarrow> Inl e
     | Inr est \<Rightarrow> (case en_limits en u of
           Inl _ \<Rightarrow> Inr ()
         | Inr lims \<Rightarrow> if outage then Inr () else
             let a = getBudgetAccounting fl t u (lm_tier lims) (coalesce (lm_days lims) (en_days en)) w;
                 cap = coalesce (ac_override a) (coalesce (ac_tier_cap a) (en_cap en)) in
             if cap < fl (effectiveConsumed fl a + est) then Inl (BudgetExceeded op) else Inr ()))"

definition reserveBudgetSlot ::
  "rounding \<Rightarrow> bool \<Rightarrow> (service_db \<Rightarrow> service_db) \<Rightarrow> instant \<Rightarrow> enforcement \<Rightarrow> uid \<Rightarrow> string \<Rightarrow> (rid option, service_db) svc" where
  "reserveBudgetSlot fl outage gap t en u op = (case maxCostUsdForOperation fl op of
       Inl e \<Rightarrow> fail_with e
     | Inr est \<Rightarrow> (case en_limits en u of
           Inl _ \<Rightarrow> done_with None
         | Inr lims \<Rightarrow> if outage then done_with None else
             (\<lambda>w. case reserveBudget fl gap t u (lm_tier lims) (coalesce (lm_days lims) (en_days en)) (en_cap en) est
                 (maxRegisteredCostUsd fl) w of
                 (Inl _, v) \<Rightarrow> (Inr None, v)
               | (Inr None, v) \<Rightarrow> (Inl (BudgetExceeded op), v)
               | (Inr (Some i), v) \<Rightarrow> (Inr (Some i), v))))"

definition releaseBudgetReservation :: "uid \<Rightarrow> rid option \<Rightarrow> (unit, service_db) svc" where
  "releaseBudgetReservation u h = (case h of None \<Rightarrow> done_with () | Some i \<Rightarrow> best_effort (releaseReservation u i))"

record budget_status =
  bs_cap :: rat
  bs_consumed :: rat
  bs_override :: "rat option"
  bs_start :: "jsdate option"
  bs_end :: "jsdate option"

definition getBudgetStatus :: "rounding \<Rightarrow> instant \<Rightarrow> enforcement \<Rightarrow> uid \<Rightarrow> service_db \<Rightarrow> err + budget_status" where
  "getBudgetStatus fl t en u w = (case en_limits en u of
       Inl e \<Rightarrow> Inl e
     | Inr lims \<Rightarrow> (let a = getBudgetAccounting fl t u (lm_tier lims) (coalesce (lm_days lims) (en_days en)) w in
         Inr \<lparr>bs_cap = coalesce (ac_override a) (coalesce (ac_tier_cap a) (en_cap en)),
           bs_consumed = fl (ac_consumed a + fl (of_nat (ac_unpriced a) * maxRegisteredCostUsd fl)),
           bs_override = ac_override a, bs_start = ac_start a, bs_end = ac_end a\<rparr>))"

text \<open>\<open>resolveResourceLimits\<close>: the two public limits, each at most \<open>MAX_SAFE_INTEGER\<close> or the parse throws.\<close>

definition MAX_SAFE_INTEGER :: nat where "MAX_SAFE_INTEGER = 9007199254740991"

definition resolveResourceLimits :: "(uid \<Rightarrow> err + limits) option \<Rightarrow> uid \<Rightarrow> err + (nat option \<times> nat option)" where
  "resolveResourceLimits resolver u = (case resolver of
       None \<Rightarrow> Inr (None, None)
     | Some f \<Rightarrow> (case f u of
           Inl e \<Rightarrow> Inl e
         | Inr lims \<Rightarrow> if \<forall>n \<in> set_option (lm_memories lims) \<union> set_option (lm_clients lims). n \<le> MAX_SAFE_INTEGER
             then Inr (lm_memories lims, lm_clients lims) else Inl ValidationError))"

text \<open>The access gate (access.ts), injected; it denies with \<open>AccessDenied\<close>.\<close>

record access_gate =
  assertRead :: "uid \<Rightarrow> err + unit"
  assertWrite :: "uid \<Rightarrow> err + unit"

definition allowAllAccess :: access_gate where
  "allowAllAccess = \<lparr>assertRead = (\<lambda>_. Inr ()), assertWrite = (\<lambda>_. Inr ())\<rparr>"

end
