(* ===== verification/WriteServices.thy ===== *)
theory WriteServices
  imports ScopePolicy Budget
begin

text \<open>
  The write services above the SQL layer: the embedding task (\<open>core/src/write/embed.ts\<close>), \<open>remember\<close>
  (\<open>remember.ts\<close>), \<open>revise\<close> (\<open>revise.ts\<close>), the repair of failed embeddings (\<open>repair.ts\<close>), the import facade
  (\<open>core/src/import/index.ts\<close>) and the provisioning of a verified account (\<open>core/src/auth/provisioning.ts\<close>). They
  compose the scope policy, the access and budget gates, the write path and the embedding column.

  A service acknowledges its write first and embeds afterwards; the model runs the embedding after the write and
  returns its outcome beside the acknowledged result. Logging is left out. \<open>parse\<close> is the validation of a raw
  payload by its schema, \<open>sha256\<close> the digest, \<open>describe\<close> the JavaScript value that an error is.
\<close>

section \<open>The embedding task (core/src/write/embed.ts)\<close>

record embed_result =
  ge_embeddings :: "string list list"
  ge_tokens :: nat
  ge_model :: string

type_synonym embed_gateway = "string list \<Rightarrow> string \<Rightarrow> err + embed_result"

datatype error_code = NumberCode string | TextCode string

record js_error =
  je_name :: string
  je_code :: "error_code option"
  je_message :: string

datatype thrown = NonError string | JsError js_error

record embed_options =
  eo_gateway :: "embed_gateway option"
  eo_operation :: "string option"
  eo_budget :: "enforcement option"
  eo_access :: "access_gate option"
  eo_limits :: "(uid \<Rightarrow> err + limits) option"

text \<open>
  What a run depends on besides its arguments: the rounding, whether the usage store answers, what commits during
  the waits of the write path and of the reservation, before each further transaction, and the clocks.
\<close>

record run_env =
  rn_fl :: rounding
  rn_outage :: bool
  rn_gap :: interference
  rn_wait :: "service_db \<Rightarrow> service_db"
  rn_lull :: "nat \<Rightarrow> service_db \<Rightarrow> service_db"
  rn_time :: instant
  rn_now :: jsdate
  rn_describe :: "err \<Rightarrow> thrown"

definition EMBED_OPERATION :: string where "EMBED_OPERATION = ''memory.embed''"

definition EMBEDDING_PRICE_USD_PER_TOKEN :: "rounding \<Rightarrow> (string \<times> rat) list" where
  "EMBEDDING_PRICE_USD_PER_TOKEN fl = [
     (''text-embedding-3-large'', fl (fl (13 / 100) / 1000000)),
     (''text-embedding-3-small'', fl (fl (2 / 100) / 1000000)),
     (''text-embedding-ada-002'', fl (fl (1 / 10) / 1000000))]"

definition DEFAULT_EMBEDDING_MODEL :: string where "DEFAULT_EMBEDDING_MODEL = ''text-embedding-3-large''"

definition embeddingCostUsd :: "rounding \<Rightarrow> string \<Rightarrow> nat \<Rightarrow> rat option" where
  "embeddingCostUsd fl model tokens = map_option (\<lambda>rate. fl (of_nat tokens * rate)) (map_of (EMBEDDING_PRICE_USD_PER_TOKEN fl) model)"

definition MAX_EMBED_INPUT_LENGTH :: nat where "MAX_EMBED_INPUT_LENGTH = 8000"

definition EMPTY_EMBED_INPUT_REASON :: string where "EMPTY_EMBED_INPUT_REASON = ''empty_input''"

definition MAX_CODE_LENGTH :: nat where "MAX_CODE_LENGTH = 32"

definition between :: "char \<Rightarrow> char \<Rightarrow> char \<Rightarrow> bool" where
  "between a b c \<longleftrightarrow> (of_char a :: nat) \<le> of_char c \<and> (of_char c :: nat) \<le> of_char b"

definition code_char :: "char \<Rightarrow> bool" where
  "code_char c \<longleftrightarrow> between (CHR ''A'') (CHR ''Z'') c \<or> between (CHR ''a'') (CHR ''z'') c \<or>
     between (CHR ''0'') (CHR ''9'') c \<or> c \<in> set ''_.-''"

definition extractCode :: "js_error \<Rightarrow> string option" where
  "extractCode e = (case je_code e of
       None \<Rightarrow> None
     | Some (NumberCode n) \<Rightarrow> Some n
     | Some (TextCode s) \<Rightarrow> if 0 < length s \<and> length s \<le> MAX_CODE_LENGTH \<and> list_all code_char s then Some s else None)"

definition classifyEmbedFailure :: "thrown \<Rightarrow> string" where
  "classifyEmbedFailure x = (case x of
       NonError v \<Rightarrow> ''NonError (value len '' @ decimal (length v) @ '')''
     | JsError e \<Rightarrow> (if je_name e = [] then ''Error'' else je_name e) @
         (case extractCode e of None \<Rightarrow> [] | Some c \<Rightarrow> if c = [] then [] else CHR '':'' # c) @
         '' (msg len '' @ decimal (length (je_message e)) @ '')'')"

definition embed_usage :: "rounding \<Rightarrow> string \<Rightarrow> embed_result \<Rightarrow> usage_write" where
  "embed_usage fl op res = (let model = (if ge_model res = [] then DEFAULT_EMBEDDING_MODEL else ge_model res) in
     \<lparr>uw_operation = op, uw_model = model, uw_input = ge_tokens res, uw_output = 0,
      uw_cost = embeddingCostUsd fl model (ge_tokens res)\<rparr>)"

definition recordEmbedUsage :: "run_env \<Rightarrow> uid \<Rightarrow> string \<Rightarrow> embed_result \<Rightarrow> (unit, service_db) svc" where
  "recordEmbedUsage env u op res = best_effort (insertLlmUsage (rn_time env) u (embed_usage (rn_fl env) op res))"

definition record_failure :: "run_env \<Rightarrow> uid \<Rightarrow> rid \<Rightarrow> actor_kind \<Rightarrow> string \<Rightarrow> (bool, service_db) svc" where
  "record_failure env u m a reason =
     and_then (meanwhile (rn_lull env 3)) (\<lambda>_.
     and_then (best_effort (at_store (recordEmbedFailure (rn_time env) u m a reason))) (\<lambda>_. done_with False))"

text \<open>The body of the task's \<open>try\<close> after the reservation.\<close>

definition embed_attempt :: "run_env \<Rightarrow> uid \<Rightarrow> rid \<Rightarrow> string \<Rightarrow> embed_gateway \<Rightarrow> string \<Rightarrow> (bool, service_db) svc" where
  "embed_attempt env u m text gw op =
     and_then (of_sum (gw [text] op)) (\<lambda>res.
     and_then (meanwhile (rn_lull env 1)) (\<lambda>_.
     and_then (recordEmbedUsage env u op res) (\<lambda>_.
     and_then (meanwhile (rn_lull env 2)) (\<lambda>_.
     case ge_embeddings res of
       [] \<Rightarrow> fail_with (GatewayFailed ''gateway returned no embedding'')
     | vector # _ \<Rightarrow> at_store (updateMemoryEmbedding (rn_gap env) (rn_time env) u m vector)))))"

definition runEmbed ::
  "run_env \<Rightarrow> uid \<Rightarrow> rid \<Rightarrow> string \<Rightarrow> actor_kind \<Rightarrow> embed_gateway \<Rightarrow> string \<Rightarrow> enforcement option \<Rightarrow> (bool, service_db) svc" where
  "runEmbed env u m text a gw op budget = (\<lambda>w.
     case (case budget of
         None \<Rightarrow> (Inr None, w)
       | Some en \<Rightarrow> reserveBudgetSlot (rn_fl env) (rn_outage env) (rn_wait env) (rn_time env) en u op w) of
       (Inl e, v) \<Rightarrow> record_failure env u m a (classifyEmbedFailure (rn_describe env e)) v
     | (Inr h, v) \<Rightarrow> finally_do
         (recover (embed_attempt env u m text gw op)
           (\<lambda>e. record_failure env u m a (classifyEmbedFailure (rn_describe env e))))
         (\<lambda>z. snd (releaseBudgetReservation u h z)) v)"

definition kickEmbed :: "run_env \<Rightarrow> uid \<Rightarrow> rid \<Rightarrow> string \<Rightarrow> actor_kind \<Rightarrow> embed_options \<Rightarrow> (bool, service_db) svc" where
  "kickEmbed env u m text a opts = (case eo_gateway opts of
       None \<Rightarrow> done_with False
     | Some gw \<Rightarrow>
         if list_all js_space text then record_failure env u m a EMPTY_EMBED_INPUT_REASON
         else runEmbed env u m (take MAX_EMBED_INPUT_LENGTH text) a gw (coalesce (eo_operation opts) EMBED_OPERATION) (eo_budget opts))"

section \<open>Remember (core/src/write/remember.ts)\<close>

record fact_input =
  fi_subject :: string
  fi_predicate :: string
  fi_value :: string
  fi_confidence :: "int option"
  fi_valid_from :: "jsdate option"
  fi_valid_to :: "jsdate option"
  fi_cardinality :: "cardinality option"

record remember_input =
  ri_type :: memory_type
  ri_topic :: string
  ri_content :: string
  ri_scope :: "string option"
  ri_project :: "string option"
  ri_tags :: "string list"
  ri_run :: run_arg
  ri_due_at :: "jsdate option"
  ri_owner :: "string option"
  ri_facts :: "fact_input list option"

text \<open>The user and the memory of a fact are filled in by the transaction that writes it.\<close>

definition toFactWrite :: "fact_input \<Rightarrow> fact_write" where
  "toFactWrite f = \<lparr>fw_user = 0, fw_memory = 0, fw_subject = fi_subject f, fw_predicate = fi_predicate f, fw_value = fi_value f,
     fw_confidence = fi_confidence f, fw_valid_from = fi_valid_from f, fw_valid_to = fi_valid_to f, fw_recorded_at = None,
     fw_cardinality = fi_cardinality f\<rparr>"

definition remember_write :: "(string \<Rightarrow> string) \<Rightarrow> uid \<Rightarrow> remember_input \<Rightarrow> string \<Rightarrow> actor_kind \<Rightarrow> memory_write" where
  "remember_write sha256 u p scope a = \<lparr>mw_user = u, mw_type = ri_type p, mw_topic = ri_topic p, mw_content = ri_content p,
     mw_scope = scope, mw_project = ri_project p, mw_tags = ri_tags p, mw_hash = sha256 (ri_content p), mw_actor = a,
     mw_run = ri_run p, mw_commitment = Some \<lparr>cw_due_at = ri_due_at p, cw_owner = ri_owner p\<rparr>, mw_status = None,
     mw_valid_from = None, mw_valid_to = None, mw_recorded_at = None\<rparr>"

definition check_access :: "embed_options \<Rightarrow> uid \<Rightarrow> (unit, service_db) svc" where
  "check_access opts u = of_sum (case eo_access opts of None \<Rightarrow> Inr () | Some g \<Rightarrow> assertWrite g u)"

definition check_budget :: "run_env \<Rightarrow> embed_options \<Rightarrow> uid \<Rightarrow> string \<Rightarrow> (unit, service_db) svc" where
  "check_budget env opts u op = (case eo_budget opts of
       None \<Rightarrow> done_with ()
     | Some en \<Rightarrow> (\<lambda>w. (assertWithinBudget (rn_fl env) (rn_outage env) (rn_time env) en u op w, w)))"

definition assertWriteGuards :: "run_env \<Rightarrow> embed_options \<Rightarrow> uid \<Rightarrow> (unit, service_db) svc" where
  "assertWriteGuards env opts u =
     and_then (check_access opts u) (\<lambda>_. check_budget env opts u (coalesce (eo_operation opts) EMBED_OPERATION))"

text \<open>The lulls: 0 before the write's transaction, 1 to 3 within the embedding, 4 before it.\<close>

definition remember ::
  "run_env \<Rightarrow> (string \<Rightarrow> 'k::linorder) \<Rightarrow> ('raw \<Rightarrow> err + remember_input) \<Rightarrow> (string \<Rightarrow> string) \<Rightarrow> uid \<Rightarrow> 'raw \<Rightarrow> actor_kind \<Rightarrow>
   embed_options \<Rightarrow> ((written_memory \<times> string) \<times> bool, service_db) svc" where
  "remember env collate parse sha256 u input a opts =
     and_then (of_sum (parse input)) (\<lambda>p.
     and_then (\<lambda>w. (resolveWriteScope collate u (ri_scope p) w, w)) (\<lambda>scope.
     and_then (assertWriteGuards env opts u) (\<lambda>_.
     and_then (of_sum (resolveResourceLimits (eo_limits opts) u)) (\<lambda>(cap, _).
     and_then (meanwhile (rn_lull env 0)) (\<lambda>_.
     and_then (at_store (writeMemory (rn_gap env) (rn_time env) (rn_now env) (remember_write sha256 u p scope a) cap
       (map toFactWrite (coalesce (ri_facts p) [])))) (\<lambda>written.
     and_then (meanwhile (rn_lull env 4)) (\<lambda>_.
     and_then (kickEmbed env u (wm_id written) (ri_content p) a opts) (\<lambda>settled.
     done_with ((written, scope), settled)))))))))"

section \<open>Revise (core/src/write/revise.ts)\<close>

text \<open>A parsed request: a move, without hash and user, or a successor.\<close>

datatype revise_request = MoveRequest move_write | SuccessorRequest revise_write

definition revise ::
  "run_env \<Rightarrow> ('raw \<Rightarrow> err + revise_request) \<Rightarrow> (string \<Rightarrow> string) \<Rightarrow> uid \<Rightarrow> 'raw \<Rightarrow> actor_kind \<Rightarrow> embed_options \<Rightarrow>
   ((moved_memory + revised_memory) \<times> bool, service_db) svc" where
  "revise env parse sha256 u input a opts =
     and_then (of_sum (parse input)) (\<lambda>req.
     and_then (check_access opts u) (\<lambda>_.
     case req of
       MoveRequest mv \<Rightarrow>
         and_then (meanwhile (rn_lull env 0)) (\<lambda>_.
         and_then (at_store (moveMemory (rn_gap env) (rn_time env) (rn_now env) (mv\<lparr>mv_user := u, mv_actor := a\<rparr>))) (\<lambda>moved.
         done_with (Inl moved, False)))
     | SuccessorRequest rv \<Rightarrow>
         and_then (check_budget env opts u (coalesce (eo_operation opts) EMBED_OPERATION)) (\<lambda>_.
         and_then (meanwhile (rn_lull env 0)) (\<lambda>_.
         and_then (at_store (reviseMemory (rn_gap env) (rn_time env) (rn_now env) (rv\<lparr>rv_in := (rv_in rv)\<lparr>mw_user := u,
           mw_actor := a, mw_hash := sha256 (mw_content (rv_in rv))\<rparr>\<rparr>))) (\<lambda>written.
         and_then (meanwhile (rn_lull env 4)) (\<lambda>_.
         and_then (kickEmbed env u (rm_id written) (mw_content (rv_in rv)) a opts) (\<lambda>settled.
         done_with (Inr written, settled))))))))"

section \<open>Repair (core/src/write/repair.ts)\<close>

definition DEFAULT_REPAIR_LIMIT :: nat where "DEFAULT_REPAIR_LIMIT = 500"

fun repair_each :: "run_env \<Rightarrow> uid \<Rightarrow> actor_kind \<Rightarrow> embed_options \<Rightarrow> (rid \<times> string) list \<Rightarrow> (nat \<times> nat, service_db) svc" where
  "repair_each env u a opts [] = done_with (0, 0)"
| "repair_each env u a opts ((i, content) # rows) =
     and_then (kickEmbed env u i content a opts) (\<lambda>landed.
     and_then (repair_each env u a opts rows) (\<lambda>(yes, no).
     done_with (if landed then (Suc yes, no) else (yes, Suc no))))"

text \<open>Scanned, landed, failed; a call without a gateway is a misuse.\<close>

definition retryFailedEmbeds ::
  "run_env \<Rightarrow> uid \<Rightarrow> embed_options \<Rightarrow> nat option \<Rightarrow> actor_kind option \<Rightarrow> (nat \<times> nat \<times> nat, service_db) svc" where
  "retryFailedEmbeds env u opts limit actor =
     (if eo_gateway opts = None then fail_with (GatewayFailed ''retryFailedEmbeds requires an injected gateway'')
      else and_then (\<lambda>w. (Inr (listEmbedFailedMemories u (coalesce limit DEFAULT_REPAIR_LIMIT) (sv_store w)), w)) (\<lambda>rows.
        and_then (repair_each env u (coalesce actor SystemActor) opts rows) (\<lambda>(yes, no).
        done_with (length rows, yes, no))))"

section \<open>The import facade (core/src/import/index.ts)\<close>

definition IMPORTER :: actor_kind where "IMPORTER = Importer"

definition IMPORT_EMBED_OPERATION :: string where "IMPORT_EMBED_OPERATION = ''import.embed''"

text \<open>A parsed import payload is the write it becomes, before user, hash and actor are set.\<close>

definition importMemory ::
  "run_env \<Rightarrow> ('raw \<Rightarrow> err + imported_memory) \<Rightarrow> (string \<Rightarrow> string) \<Rightarrow> uid \<Rightarrow> 'raw \<Rightarrow> embed_options \<Rightarrow> bool \<Rightarrow>
   (written_memory \<times> bool, service_db) svc" where
  "importMemory env parse sha256 u input opts skip =
     and_then (of_sum (parse input)) (\<lambda>p. let x = im_write p; op = coalesce (eo_operation opts) IMPORT_EMBED_OPERATION in
     and_then (check_access opts u) (\<lambda>_.
     and_then (if skip then done_with () else check_budget env opts u op) (\<lambda>_.
     and_then (if consumesLiveSlot x then of_sum (map_sum id fst (resolveResourceLimits (eo_limits opts) u)) else done_with None) (\<lambda>cap.
     and_then (meanwhile (rn_lull env 0)) (\<lambda>_.
     and_then (at_store (writeImportedMemory (rn_gap env) (rn_time env) (p\<lparr>im_write := x\<lparr>mw_user := u,
       mw_hash := sha256 (mw_content x), mw_actor := IMPORTER\<rparr>\<rparr>) cap)) (\<lambda>written.
     if skip then done_with (written, False)
     else and_then (meanwhile (rn_lull env 4)) (\<lambda>_.
       and_then (kickEmbed env u (wm_id written) (mw_content x) IMPORTER (opts\<lparr>eo_operation := Some op\<rparr>)) (\<lambda>settled.
       done_with (written, settled)))))))))"

definition importEvent :: "run_env \<Rightarrow> ('raw \<Rightarrow> err + imported_event) \<Rightarrow> uid \<Rightarrow> 'raw \<Rightarrow> (rid, service_db) svc" where
  "importEvent env parse u input =
     and_then (of_sum (parse input)) (\<lambda>p. at_store (appendImportedEvent (rn_time env) (p\<lparr>ie_user := u, ie_actor := IMPORTER\<rparr>)))"

definition importEdge :: "run_env \<Rightarrow> ('raw \<Rightarrow> err + imported_edge) \<Rightarrow> uid \<Rightarrow> 'raw \<Rightarrow> (unit, service_db) svc" where
  "importEdge env parse u input =
     and_then (of_sum (parse input)) (\<lambda>p. at_store (writeImportedEdge (rn_gap env) (rn_time env) (p\<lparr>ig_user := u, ig_created_by := IMPORTER\<rparr>)))"

definition importFact :: "run_env \<Rightarrow> ('raw \<Rightarrow> err + fact_write) \<Rightarrow> uid \<Rightarrow> 'raw \<Rightarrow> (rid, service_db) svc" where
  "importFact env parse u input =
     and_then (of_sum (parse input)) (\<lambda>p. at_store (insertImportedFact (rn_time env) (p\<lparr>fw_user := u\<rparr>)))"

section \<open>Provisioning (core/src/auth/provisioning.ts)\<close>

definition DEFAULT_SCOPES :: "string list" where "DEFAULT_SCOPES = [''personal'', ''work'']"

definition WELCOME_SCOPE :: string where "WELCOME_SCOPE = DEFAULT_SCOPES ! 0"

definition WELCOME_CONTENT :: string where
  "WELCOME_CONTENT = ''Welcome to 3ngram '' @ em_dash @ '' your memory that persists across AI sessions and tools. '' @
     ''Anything you ask an agent to remember lands here and stays searchable from any '' @
     ''conversation. Try asking your agent to recall this note, or save a new fact and '' @
     ''watch it appear. This note is yours: edit it or delete it whenever you like.''"

definition WELCOME_MEMORY :: remember_input where
  "WELCOME_MEMORY = \<lparr>ri_type = Note, ri_topic = ''Welcome to 3ngram'', ri_content = WELCOME_CONTENT, ri_scope = Some WELCOME_SCOPE,
     ri_project = None, ri_tags = [''welcome''], ri_run = RunOmitted, ri_due_at = None, ri_owner = None, ri_facts = None\<rparr>"

definition is_scope_conflict :: "err \<Rightarrow> bool" where
  "is_scope_conflict e = (case e of ScopeNameConflict _ \<Rightarrow> True | _ \<Rightarrow> False)"

definition is_duplicate :: "err \<Rightarrow> bool" where
  "is_duplicate e = (case e of DuplicateMemory _ \<Rightarrow> True | _ \<Rightarrow> False)"

definition create_default_scope ::
  "(nat \<Rightarrow> service_db \<Rightarrow> service_db) \<Rightarrow> instant \<Rightarrow> uid \<Rightarrow> string \<Rightarrow> (unit, service_db) svc" where
  "create_default_scope gap t u n =
     recover (and_then (createScope gap t u n []) (\<lambda>_. done_with ()))
       (\<lambda>e. if is_scope_conflict e then done_with () else fail_with e)"

fun for_services :: "('x \<Rightarrow> (unit, 'w) svc) \<Rightarrow> 'x list \<Rightarrow> (unit, 'w) svc" where
  "for_services f [] = done_with ()"
| "for_services f (x # xs) = and_then (f x) (\<lambda>_. for_services f xs)"

datatype provisioned = SeedCreated | SeedExists

text \<open>The welcome memory is validated like any payload; it satisfies its schema.\<close>

definition provisionVerifiedAccount ::
  "run_env \<Rightarrow> (nat \<Rightarrow> service_db \<Rightarrow> service_db) \<Rightarrow> (string \<Rightarrow> 'k::linorder) \<Rightarrow> (string \<Rightarrow> string) \<Rightarrow> uid \<Rightarrow> embed_options \<Rightarrow>
   (provisioned, service_db) svc" where
  "provisionVerifiedAccount env gap collate sha256 u opts =
     and_then (for_services (create_default_scope gap (rn_time env) u) DEFAULT_SCOPES) (\<lambda>_.
     recover (and_then (remember env collate Inr sha256 u WELCOME_MEMORY SystemActor opts) (\<lambda>_. done_with SeedCreated))
       (\<lambda>e. if is_duplicate e then done_with SeedExists else fail_with e))"

end
