(* ===== verification/ScopeSafety.thy ===== *)
theory ScopeSafety
  imports ScopePolicy CredentialReach
begin

text \<open>
  The registry and the policies under interleaving: the constraints of the three tables, and that an active
  default always names a registered scope. \<open>setting L w w'\<close> is one operation of this component, committed or
  rolled back, while others hold the policy locks of the users in \<open>L\<close>; \<open>settings\<close> any sequence of them. The
  statements of an account erasure on the policies, which take no policy lock, run in between.
\<close>

section \<open>All operations together\<close>

inductive setting :: "uid set \<Rightarrow> service_db \<Rightarrow> service_db \<Rightarrow> bool"
  and settings :: "uid set \<Rightarrow> service_db \<Rightarrow> service_db \<Rightarrow> bool" where
  settings_done: "settings L w w"
| settings_step: "setting L w v \<Longrightarrow> settings L v z \<Longrightarrow> settings L w z"
| set_elsewhere: "ad_retrieval (sv_auth v) = ad_retrieval (sv_auth w) \<Longrightarrow> ad_write_scope (sv_auth v) = ad_write_scope (sv_auth w) \<Longrightarrow>
    sv_scopes v = sv_scopes w \<Longrightarrow> setting L w v"
| set_erase_retrieval: "setting L w (put_policies ad_retrieval_update (sql_update (\<lambda>p. sp_user p = u) (reset_scope_policy now)) w)"
| set_erase_write: "setting L w (put_policies ad_write_scope_update (sql_update (\<lambda>p. sp_user p = u) (reset_scope_policy now)) w)"
| set_create: "(\<And>k w. settings L w (gap k w)) \<Longrightarrow> setting L w (snd (createScope gap t u n al w))"
| set_aliases: "(\<And>k w. settings L w (gap k w)) \<Longrightarrow> setting L w (snd (setScopeAliases gap u n al w))"
| set_rename: "u \<notin> L \<Longrightarrow> (\<And>w. settings L w (gap 0 w)) \<Longrightarrow> (\<And>k w. 0 < k \<Longrightarrow> settings (insert u L) w (gap k w)) \<Longrightarrow>
    setting L w (snd (renameScope gap t u frm to w))"
| set_delete: "u \<notin> L \<Longrightarrow> (\<And>w. settings L w (gap 0 w)) \<Longrightarrow> (\<And>k w. 0 < k \<Longrightarrow> settings (insert u L) w (gap k w)) \<Longrightarrow>
    setting L w (snd (deleteScope gap t u n w))"
| set_retrieval: "u \<notin> L \<Longrightarrow> (\<And>w. settings L w (gap 0 w)) \<Longrightarrow> (\<And>k w. 0 < k \<Longrightarrow> settings (insert u L) w (gap k w)) \<Longrightarrow>
    setting L w (snd (setRetrievalDefault gap (collate :: string \<Rightarrow> nat) t u mode scope w))"
| set_write: "u \<notin> L \<Longrightarrow> (\<And>w. settings L w (gap 0 w)) \<Longrightarrow> (\<And>k w. 0 < k \<Longrightarrow> settings (insert u L) w (gap k w)) \<Longrightarrow>
    setting L w (snd (setWriteDefault gap (collate :: string \<Rightarrow> nat) t u mode scope w))"

section \<open>What the constraints keep\<close>

definition policies_ok :: "scope_policy list \<Rightarrow> bool" where
  "policies_ok rows \<longleftrightarrow> distinct (map sp_user rows) \<and> (\<forall>p \<in> set rows. scope_consistency (sp_mode p) (sp_default p))"

definition settings_ok :: "service_db \<Rightarrow> bool" where
  "settings_ok w \<longleftrightarrow> distinct (map scope_key (sv_scopes w)) \<and>
     policies_ok (ad_retrieval (sv_auth w)) \<and> policies_ok (ad_write_scope (sv_auth w))"

definition registered :: "uid \<Rightarrow> service_db \<Rightarrow> string set" where
  "registered u w = {n. \<exists>r \<in> set (sv_scopes w). named u n r}"

definition active :: "uid \<Rightarrow> scope_policy list \<Rightarrow> string set" where
  "active u rows = {n. \<exists>p \<in> set rows. defaults_to u n p}"

definition retrieval_default :: "uid \<Rightarrow> service_db \<Rightarrow> string set" where
  "retrieval_default u w = active u (ad_retrieval (sv_auth w))"

definition write_default :: "uid \<Rightarrow> service_db \<Rightarrow> string set" where
  "write_default u w = active u (ad_write_scope (sv_auth w))"

definition defaults :: "uid \<Rightarrow> service_db \<Rightarrow> string set" where
  "defaults u w = retrieval_default u w \<union> write_default u w"

definition coherent :: "uid \<Rightarrow> service_db \<Rightarrow> bool" where
  "coherent u w \<longleftrightarrow> defaults u w \<subseteq> registered u w"

text \<open>While its lock is held, a user's names stay registered and nobody gives the user another default.\<close>

definition steady :: "uid \<Rightarrow> service_db \<Rightarrow> service_db \<Rightarrow> bool" where
  "steady u w w' \<longleftrightarrow> registered u w \<subseteq> registered u w' \<and> retrieval_default u w' \<subseteq> retrieval_default u w \<and>
     write_default u w' \<subseteq> write_default u w"

text \<open>What one user sees of a change, with or without its lock held.\<close>

definition sees :: "uid \<Rightarrow> bool \<Rightarrow> service_db \<Rightarrow> service_db \<Rightarrow> bool" where
  "sees u locked w w' \<longleftrightarrow> (coherent u w \<longrightarrow> coherent u w') \<and> (locked \<longrightarrow> steady u w w')"

definition settings_evolve :: "uid set \<Rightarrow> service_db \<Rightarrow> service_db \<Rightarrow> bool" where
  "settings_evolve L w w' \<longleftrightarrow> (settings_ok w \<longrightarrow> settings_ok w') \<and> (\<forall>u. sees u (u \<in> L) w w')"

lemma steady_refl: "steady u w w"
  by (simp add: steady_def)

lemma steady_trans: "steady u w v \<Longrightarrow> steady u v z \<Longrightarrow> steady u w z"
  by (auto simp: steady_def)

lemma steady_sees: "steady u w w' \<Longrightarrow> sees u locked w w'"
  by (auto simp: sees_def steady_def coherent_def defaults_def)

lemma sees_trans: "sees u l w v \<Longrightarrow> sees u l v z \<Longrightarrow> sees u l w z"
  by (auto simp: sees_def intro: steady_trans)

interpretation evolving: tx_preorder "settings_evolve L" for L
  by unfold_locales (auto simp: settings_evolve_def intro: steady_sees steady_refl sees_trans)

lemma settings_evolve_unlock: "settings_evolve (insert u L) w w' \<Longrightarrow> settings_evolve L w w'"
  by (auto simp: settings_evolve_def sees_def)

lemma evolve_steady: "(settings_ok w \<longrightarrow> settings_ok w') \<Longrightarrow> (\<And>v. steady v w w') \<Longrightarrow> settings_evolve L w w'"
  by (simp add: settings_evolve_def steady_sees)

text \<open>Which statement touches which part.\<close>

lemma put_policies_sel [simp]:
  "sv_scopes (put_policies put f w) = sv_scopes w"
  "registered v (put_policies put f w) = registered v w"
  "ad_retrieval (sv_auth (put_policies ad_retrieval_update f w)) = f (ad_retrieval (sv_auth w))"
  "ad_write_scope (sv_auth (put_policies ad_retrieval_update f w)) = ad_write_scope (sv_auth w)"
  "ad_retrieval (sv_auth (put_policies ad_write_scope_update f w)) = ad_retrieval (sv_auth w)"
  "ad_write_scope (sv_auth (put_policies ad_write_scope_update f w)) = f (ad_write_scope (sv_auth w))"
  by (simp_all add: put_policies_def registered_def)

lemma policies_ok_rows:
  "policies_ok rows \<Longrightarrow> scope_consistency mode d \<Longrightarrow> policies_ok (sql_update p (set_policy t mode d) rows)"
  "policies_ok rows \<Longrightarrow> policies_ok (sql_update p (reset_scope_policy now) rows)"
  "policies_ok rows \<Longrightarrow> scope_consistency mode d \<Longrightarrow> u \<notin> set (map sp_user rows) \<Longrightarrow> policies_ok (rows @ [new_policy t u mode d])"
  by (auto simp: policies_ok_def set_sql_update set_policy_def reset_scope_policy_def new_policy_def scope_consistency_def
      distinct_update_key)

text \<open>A statement that sets rows of \<open>u\<close> may only bring the default it writes.\<close>

lemma active_update: "active v (sql_update p f rows) = {n. \<exists>q \<in> set rows. defaults_to v n (if p q then f q else q)}"
  by (auto simp: active_def set_sql_update)

lemma defaults_to_set [simp]:
  "defaults_to v n (set_policy t mode d q) \<longleftrightarrow> sp_user q = v \<and> mode = ScopeDefault \<and> d = Some n"
  "\<not> defaults_to v n (reset_scope_policy now q)"
  "defaults_to v n (new_policy t u mode d) \<longleftrightarrow> v = u \<and> mode = ScopeDefault \<and> d = Some n"
  by (auto simp: defaults_to_def set_policy_def reset_scope_policy_def new_policy_def)

lemma defaults_to_user: "defaults_to v n q \<Longrightarrow> sp_user q = v"
  by (simp add: defaults_to_def)

definition written_default :: "scope_mode \<Rightarrow> string option \<Rightarrow> string set" where
  "written_default mode d = (if mode = ScopeDefault then set_option d else {})"

lemma active_reset: "active v (sql_update p (reset_scope_policy now) rows) \<subseteq> active v rows"
  by (auto simp: active_update active_def [of v rows] split: if_splits)

lemma active_other:
  assumes "\<And>q. p q \<Longrightarrow> sp_user q = u" and "v \<noteq> u"
  shows "active v (sql_update p (set_policy t mode d) rows) = active v rows"
proof -
  have "defaults_to v n (if p q then set_policy t mode d q else q) = defaults_to v n q" for n q
    using assms by (auto dest: defaults_to_user)
  then show ?thesis by (simp add: active_update active_def [of v rows])
qed

lemma active_upsert: "active u (sql_update (\<lambda>p. sp_user p = u) (set_policy t mode d) rows) \<subseteq> written_default mode d"
  by (auto simp: active_update written_default_def dest: defaults_to_user split: if_splits)

lemma active_replace:
  "active u (sql_update (defaults_to u n) (set_policy t mode d) rows) \<subseteq> (active u rows - {n}) \<union> written_default mode d"
  by (auto simp: active_update active_def [of u rows] written_default_def split: if_splits)

lemma active_new: "active v (rows @ [new_policy t u mode d]) = active v rows \<union> (if v = u then written_default mode d else {})"
  by (auto simp: active_def written_default_def)

section \<open>The statements\<close>

text \<open>How a returning statement changed the registry.\<close>

lemma found_scope_ret: "found_scope n rows w = Inr (r, w') \<longleftrightarrow> w' = w \<and> (\<exists>x xs. rows = x # xs \<and> r = toScopeRow x)"
  by (cases rows) (auto simp: found_scope_def)

lemma returning_some: "sql_returning p f rows \<noteq> [] \<longleftrightarrow> (\<exists>x \<in> set rows. p x)"
  by (auto simp: sql_returning_def filter_empty_conv)

lemma update_scopes_ret:
  "update_scopes p f w = Inr (rows, w') \<longleftrightarrow> rows = sql_returning p f (sv_scopes w) \<and>
     distinct (map scope_key (sql_update p f (sv_scopes w))) \<and> w' = w\<lparr>sv_scopes := sql_update p f (sv_scopes w)\<rparr>"
  by (auto simp: update_scopes_def Let_def)

lemma renameScope_db_ret:
  assumes "renameScope_db gap u frm to w = Inr (r, w')"
  shows "\<exists>x \<in> set (sv_scopes (gap 1 w)). named u frm x"
    and "w' = (gap 1 w)\<lparr>sv_scopes := sql_update (named u frm) (\<lambda>x. x\<lparr>sc_name := to\<rparr>) (sv_scopes (gap 1 w))\<rparr>"
    and "distinct (map scope_key (sv_scopes w'))"
  using assms returning_some [of "named u frm" "\<lambda>x. x\<lparr>sc_name := to\<rparr>" "sv_scopes (gap 1 w)"]
  by (auto simp: renameScope_db_def tx_Inr found_scope_ret update_scopes_ret)

lemma setScopeAliases_db_ret:
  assumes "setScopeAliases_db gap u n al w = Inr (r, w')"
  shows "w' = (gap 1 w)\<lparr>sv_scopes := sql_update (named u n) (\<lambda>x. x\<lparr>sc_aliases := al\<rparr>) (sv_scopes (gap 1 w))\<rparr>"
    and "distinct (map scope_key (sv_scopes w'))"
  using assms by (auto simp: setScopeAliases_db_def tx_Inr found_scope_ret update_scopes_ret)

lemma deleteScope_db_ret:
  assumes "deleteScope_db gap u n w = Inr ((), w')"
  shows "\<exists>x \<in> set (sv_scopes (gap 1 w)). named u n x"
    and "w' = (gap 1 w)\<lparr>sv_scopes := filter (\<lambda>x. \<not> named u n x) (sv_scopes (gap 1 w))\<rparr>"
  using assms by (auto simp: deleteScope_db_def tx_Inr delete_scopes_def filter_empty_conv)

lemma createScope_db_ret:
  assumes "createScope_db gap t u n al w = Inr (r, w')"
  shows "\<exists>x. scope_key x = (u, n) \<and> scope_key x \<notin> set (map scope_key (sv_scopes (gap 1 w))) \<and>
    w' = (gap 1 w)\<lparr>sv_scopes := sv_scopes (gap 1 w) @ [x], sv_next := Suc (sv_next (gap 1 w))\<rparr>"
proof -
  let ?x = "\<lparr>sc_id = sv_next (gap 1 w), sc_user = u, sc_name = n, sc_aliases = al, sc_created = t\<rparr>"
  have "scope_key ?x \<notin> set (map scope_key (sv_scopes (gap 1 w)))"
    and "w' = (gap 1 w)\<lparr>sv_scopes := sv_scopes (gap 1 w) @ [?x], sv_next := Suc (sv_next (gap 1 w))\<rparr>"
    using assms by (auto simp: createScope_db_def insert_scope_def Let_def tx_Inr split: if_splits)
  then show ?thesis by (intro exI [of _ ?x]) (simp add: scope_key_def)
qed

lemma upsert_ret:
  assumes "upsert_policy tab put t u mode d w = Inr (r, w')"
  shows "scope_consistency mode d" and "r = \<lparr>pr_mode = mode, pr_default = d, pr_updated = date_of_sql t\<rparr>"
    and "(u \<in> set (map sp_user (tab (sv_auth w))) \<and> w' = put_policies put (sql_update (\<lambda>p. sp_user p = u) (set_policy t mode d)) w) \<or>
      (u \<notin> set (map sp_user (tab (sv_auth w))) \<and> w' = put_policies put (\<lambda>rows. rows @ [new_policy t u mode d]) w)"
  using assms by (auto simp: upsert_policy_def Let_def split: if_splits)

lemma replace_ret:
  assumes "replace_default tab put t u n mode d w = Inr ((), w')" and "scope_consistency mode d"
  shows "w' = put_policies put (sql_update (defaults_to u n) (set_policy t mode d)) w"
  using assms by (auto simp: replace_default_def split: if_splits)

text \<open>What the registry's statements leave registered.\<close>

lemma registered_update:
  "registered v (w\<lparr>sv_scopes := sql_update p f rows\<rparr>) = {n. \<exists>x \<in> set rows. named v n (if p x then f x else x)}"
  by (auto simp: registered_def set_sql_update)

lemma registered_rename:
  assumes "\<exists>x \<in> set (sv_scopes w). named u frm x"
  shows "registered u (w\<lparr>sv_scopes := sql_update (named u frm) (\<lambda>x. x\<lparr>sc_name := to\<rparr>) (sv_scopes w)\<rparr>) =
    insert to (registered u w - {frm})"
proof -
  have "(if named u frm x then named u n (x\<lparr>sc_name := to\<rparr>) else named u n x) \<longleftrightarrow>
      named u frm x \<and> n = to \<or> named u n x \<and> n \<noteq> frm" for x n
    by (auto simp: named_def)
  then show ?thesis using assms unfolding registered_update by (auto simp: registered_def if_distrib [of "named u n" for n])
qed

lemma registered_others:
  assumes "v \<noteq> u" and "\<And>x. sc_user (f x) = sc_user x"
  shows "registered v (w\<lparr>sv_scopes := sql_update (named u n) f (sv_scopes w)\<rparr>) = registered v w"
proof -
  have "named v m (if named u n x then f x else x) = named v m x" for m x using assms by (auto simp: named_def)
  then show ?thesis unfolding registered_update by (simp add: registered_def)
qed

lemma registered_deleted:
  "v \<noteq> u \<Longrightarrow> registered v (w\<lparr>sv_scopes := filter (\<lambda>x. \<not> named u n x) (sv_scopes w)\<rparr>) = registered v w"
  by (auto simp: registered_def named_def)

lemma registered_relabel:
  "(\<And>x. sc_user (f x) = sc_user x \<and> sc_name (f x) = sc_name x) \<Longrightarrow>
   registered v (w\<lparr>sv_scopes := sql_update p f (sv_scopes w)\<rparr>) = registered v w"
  unfolding registered_update by (simp add: registered_def named_def)

lemma registered_delete:
  "registered u (w\<lparr>sv_scopes := filter (\<lambda>x. \<not> named u n x) (sv_scopes w)\<rparr>) = registered u w - {n}"
  by (auto simp: registered_def named_def)

section \<open>The operations\<close>

text \<open>The defaults depend on the account tables only, the registered names on the registry only.\<close>

lemma defaults_frame:
  "retrieval_default v (w\<lparr>sv_scopes := rows\<rparr>) = retrieval_default v w"
  "write_default v (w\<lparr>sv_scopes := rows\<rparr>) = write_default v w"
  "retrieval_default v (put_policies ad_write_scope_update f w) = retrieval_default v w"
  "write_default v (put_policies ad_retrieval_update f w) = write_default v w"
  by (simp_all add: retrieval_default_def write_default_def)

lemma default_tables:
  "retrieval_default v (put_policies ad_retrieval_update f w) = active v (f (ad_retrieval (sv_auth w)))"
  "write_default v (put_policies ad_write_scope_update f w) = active v (f (ad_write_scope (sv_auth w)))"
  by (simp_all add: retrieval_default_def write_default_def)

lemma ok_parts:
  "settings_ok w \<Longrightarrow> distinct (map scope_key rows) \<Longrightarrow> settings_ok (w\<lparr>sv_scopes := rows\<rparr>)"
  "settings_ok w \<Longrightarrow> (\<And>rows. policies_ok rows \<Longrightarrow> policies_ok (f rows)) \<Longrightarrow> settings_ok (put_policies ad_retrieval_update f w)"
  "settings_ok w \<Longrightarrow> (\<And>rows. policies_ok rows \<Longrightarrow> policies_ok (f rows)) \<Longrightarrow> settings_ok (put_policies ad_write_scope_update f w)"
  by (simp_all add: settings_ok_def)

text \<open>Statements without a lock: the registry gains a name, or its aliases change; an erasure resets a policy.\<close>

lemma evolve_create:
  assumes gap: "\<And>k w. settings_evolve L w (gap k w)"
  shows "settings_evolve L w (snd (createScope gap t u n al w))"
  unfolding createScope_def
proof (intro evolving.run_within withinI)
  fix w r w' assume "createScope_db gap t u n al w = Inr (r, w')"
  from createScope_db_ret [OF this] obtain x where x: "scope_key x \<notin> set (map scope_key (sv_scopes (gap 1 w)))"
    and w': "w' = (gap 1 w)\<lparr>sv_scopes := sv_scopes (gap 1 w) @ [x], sv_next := Suc (sv_next (gap 1 w))\<rparr>" by blast
  have "settings_evolve L (gap 1 w) w'"
  proof (rule evolve_steady)
    show "settings_ok (gap 1 w) \<longrightarrow> settings_ok w'" using x by (simp add: settings_ok_def w')
    show "steady v (gap 1 w) w'" for v
      by (auto simp: steady_def w' registered_def retrieval_default_def write_default_def)
  qed
  then show "settings_evolve L w w'" by (rule evolving.R_trans [OF gap])
qed

lemma evolve_aliases:
  assumes gap: "\<And>k w. settings_evolve L w (gap k w)"
  shows "settings_evolve L w (snd (setScopeAliases gap u n al w))"
  unfolding setScopeAliases_def
proof (intro evolving.run_within withinI)
  fix w r w' assume run: "setScopeAliases_db gap u n al w = Inr (r, w')"
  note ret = setScopeAliases_db_ret [OF run]
  have "settings_evolve L (gap 1 w) w'"
  proof (rule evolve_steady)
    show "settings_ok (gap 1 w) \<longrightarrow> settings_ok w'" using ret(2) by (simp add: settings_ok_def ret(1))
    show "steady v (gap 1 w) w'" for v by (simp add: steady_def ret(1) registered_relabel defaults_frame)
  qed
  then show "settings_evolve L w w'" by (rule evolving.R_trans [OF gap])
qed

lemma evolve_erase:
  "settings_evolve L w (put_policies ad_retrieval_update (sql_update p (reset_scope_policy now)) w)"
  "settings_evolve L w (put_policies ad_write_scope_update (sql_update p (reset_scope_policy now)) w)"
proof -
  show "settings_evolve L w (put_policies ad_retrieval_update (sql_update p (reset_scope_policy now)) w)"
  proof (rule evolve_steady)
    show "settings_ok w \<longrightarrow> settings_ok (put_policies ad_retrieval_update (sql_update p (reset_scope_policy now)) w)"
      by (intro impI ok_parts policies_ok_rows)
    show "steady v w (put_policies ad_retrieval_update (sql_update p (reset_scope_policy now)) w)" for v
      by (simp add: steady_def defaults_frame default_tables active_reset retrieval_default_def [of v w])
  qed
  show "settings_evolve L w (put_policies ad_write_scope_update (sql_update p (reset_scope_policy now)) w)"
  proof (rule evolve_steady)
    show "settings_ok w \<longrightarrow> settings_ok (put_policies ad_write_scope_update (sql_update p (reset_scope_policy now)) w)"
      by (intro impI ok_parts policies_ok_rows)
    show "steady v w (put_policies ad_write_scope_update (sql_update p (reset_scope_policy now)) w)" for v
      by (simp add: steady_def defaults_frame default_tables active_reset write_default_def [of v w])
  qed
qed

text \<open>An operation that holds the lock of \<open>u\<close>: other users see no change of its own, \<open>u\<close> a coherent result.\<close>

lemma evolve_locked:
  assumes "settings_evolve L w v" and "u \<notin> L" and "settings_ok v \<Longrightarrow> settings_ok z"
    and "\<And>x. x \<noteq> u \<Longrightarrow> sees x (x \<in> L) v z" and "coherent u v \<Longrightarrow> coherent u z"
  shows "settings_evolve L w z"
proof -
  have "sees x (x \<in> L) v z" for x using assms(2,4,5) by (cases "x = u") (auto simp: sees_def)
  then have "settings_evolve L v z" using assms(3) by (simp add: settings_evolve_def)
  with assms(1) show ?thesis by (rule evolving.R_trans)
qed

text \<open>What a wait under the lock of \<open>u\<close> changes for \<open>u\<close> and for the others.\<close>

lemma under_lock:
  assumes "settings_evolve (insert u L) w v"
  shows "steady u w v" and "sees x (x \<in> L) w v" and "settings_ok w \<Longrightarrow> settings_ok v"
  using assms settings_evolve_unlock [OF assms] by (auto simp: settings_evolve_def sees_def)

lemma listed_names: "n \<in> set (map sr_name (listScopes collate u w)) \<longleftrightarrow> n \<in> registered u w"
  by (auto simp: listScopes_def toScopeRow_def registered_def named_def)

lemma requireRegistered_ret:
  "requireRegistered collate u mode scope w = Inr ((), w') \<longleftrightarrow> w' = w \<and> written_default mode scope \<subseteq> registered u w"
  using listed_names [of _ collate u w] by (auto simp: requireRegistered_def written_default_def bind_tx_Inr split: option.splits)

lemma sees_own_policy:
  assumes "x \<noteq> u" and "\<And>rows. active x (f rows) = active x rows"
  shows "sees x l w (put_policies ad_retrieval_update f w)" and "sees x l w (put_policies ad_write_scope_update f w)"
proof -
  show "sees x l w (put_policies ad_retrieval_update f w)"
    by (rule steady_sees) (simp add: steady_def defaults_frame default_tables assms, simp add: retrieval_default_def)
  show "sees x l w (put_policies ad_write_scope_update f w)"
    by (rule steady_sees) (simp add: steady_def defaults_frame default_tables assms, simp add: write_default_def)
qed

text \<open>Setting a policy: the written_default default was registered under the lock, so it still is.\<close>

lemma evolve_setter:
  assumes "settings_evolve L w v" and gap: "settings_evolve (insert u L) v v'" and "u \<notin> L"
    and new: "written_default mode d \<subseteq> registered u v" and "scope_consistency mode d"
    and put: "put = ad_retrieval_update \<and> tab = ad_retrieval \<or> put = ad_write_scope_update \<and> tab = ad_write_scope"
    and z: "(u \<in> set (map sp_user (tab (sv_auth v'))) \<and> z = put_policies put (sql_update (\<lambda>p. sp_user p = u) (set_policy t mode d)) v') \<or>
      (u \<notin> set (map sp_user (tab (sv_auth v'))) \<and> z = put_policies put (\<lambda>rows. rows @ [new_policy t u mode d]) v')"
  shows "settings_evolve L w z"
proof (rule evolve_locked [OF assms(1,3)])
  note lock = under_lock [OF gap]
  show "settings_ok z" if "settings_ok v"
    using lock(3) [OF that] z put policies_ok_rows assms(5) by (auto simp: settings_ok_def)
  show "sees x (x \<in> L) v z" if "x \<noteq> u" for x
  proof (rule sees_trans [OF lock(2)])
    have "active x (sql_update (\<lambda>p. sp_user p = u) (set_policy t mode d) rows) = active x rows"
      "active x (rows @ [new_policy t u mode d]) = active x rows" for rows
      using that by (simp_all add: active_other active_new)
    with z put that show "sees x (x \<in> L) v' z" by (auto intro: sees_own_policy)
  qed
  show "coherent u z" if "coherent u v"
  proof -
    from steady_sees [OF lock(1), of True] that have "defaults u v' \<subseteq> registered u v'" by (simp add: sees_def coherent_def)
    moreover from lock(1) new have "written_default mode d \<subseteq> registered u v'" by (auto simp: steady_def)
    moreover from z put have "defaults u z \<subseteq> defaults u v' \<union> written_default mode d" "registered u z = registered u v'"
      using active_upsert [of u t mode d] by (auto simp: defaults_def defaults_frame default_tables active_new)
        (auto simp: retrieval_default_def write_default_def)
    ultimately show ?thesis by (auto simp: coherent_def)
  qed
qed

lemma evolve_setRetrievalDefault:
  assumes "u \<notin> L" and "\<And>w. settings_evolve L w (gap 0 w)" and "\<And>k w. 0 < k \<Longrightarrow> settings_evolve (insert u L) w (gap k w)"
  shows "settings_evolve L w (snd (setRetrievalDefault gap collate t u mode scope w))"
  unfolding setRetrievalDefault_def
proof (intro evolving.run_within withinI, goal_cases)
  case (1 w r z)
  then obtain a where new: "written_default mode scope \<subseteq> registered u (gap 0 w)"
    and set: "upsert_policy ad_retrieval ad_retrieval_update t u mode scope (gap 2 (gap 0 w)) = Inr (a, z)"
    by (auto simp: lockScopePolicies_def upsertRetrievalPolicy_def tx_Inr requireRegistered_ret)
  note upsert = upsert_ret [OF set]
  show ?case
    by (rule evolve_setter [where v = "gap 0 w" and v' = "gap 2 (gap 0 w)" and tab = ad_retrieval and put = ad_retrieval_update
          and t = t, OF assms(2) _ assms(1) new upsert(1) _ upsert(3)]) (use assms(3) in simp_all)
qed

lemma evolve_setWriteDefault:
  assumes "u \<notin> L" and "\<And>w. settings_evolve L w (gap 0 w)" and "\<And>k w. 0 < k \<Longrightarrow> settings_evolve (insert u L) w (gap k w)"
  shows "settings_evolve L w (snd (setWriteDefault gap collate t u mode scope w))"
  unfolding setWriteDefault_def
proof (intro evolving.run_within withinI, goal_cases)
  case (1 w r z)
  then obtain a where new: "written_default mode scope \<subseteq> registered u (gap 0 w)"
    and set: "upsert_policy ad_write_scope ad_write_scope_update t u mode scope (gap 3 (gap 0 w)) = Inr (a, z)"
    by (auto simp: lockScopePolicies_def upsertWriteScopePolicy_def tx_Inr requireRegistered_ret)
  note upsert = upsert_ret [OF set]
  show ?case
    by (rule evolve_setter [where v = "gap 0 w" and v' = "gap 3 (gap 0 w)" and tab = ad_write_scope and put = ad_write_scope_update
          and t = t, OF assms(2) _ assms(1) new upsert(1) _ upsert(3)]) (use assms(3) in simp_all)
qed

text \<open>
  A rename or a delete: the registry changes first, then both policies. \<open>n\<close> leaves the registry; what is
  written_default instead of \<open>n\<close> is registered.
\<close>

lemma evolve_registry:
  assumes "settings_evolve L w v" and g1: "settings_evolve (insert u L) v v1" and g2: "settings_evolve (insert u L) v2 v3"
    and g3: "settings_evolve (insert u L) v4 v5" and u: "u \<notin> L"
    and ok: "settings_ok v1 \<Longrightarrow> settings_ok v2" and other: "\<And>x. x \<noteq> u \<Longrightarrow> registered x v2 = registered x v1"
    and own: "registered u v2 = (registered u v1 - {n}) \<union> written_default mode d" and auth: "sv_auth v2 = sv_auth v1"
    and pair: "scope_consistency mode d"
    and v4: "v4 = put_policies ad_retrieval_update (sql_update (defaults_to u n) (set_policy t mode d)) v3"
    and z: "z = put_policies ad_write_scope_update (sql_update (defaults_to u n) (set_policy t mode d)) v5"
  shows "settings_evolve L w z"
proof (rule evolve_locked [OF assms(1) u])
  have same: "retrieval_default x v2 = retrieval_default x v1" "write_default x v2 = write_default x v1" for x
    by (simp_all add: retrieval_default_def write_default_def auth)
  show "settings_ok z" if "settings_ok v"
  proof -
    have "settings_ok v3" using under_lock(3) [OF g2] ok under_lock(3) [OF g1] that by blast
    then have "settings_ok v5" unfolding v4 [symmetric] using under_lock(3) [OF g3]
      ok_parts(2) [of v3 "sql_update (defaults_to u n) (set_policy t mode d)"] policies_ok_rows(1) [OF _ pair] v4 by blast
    then show ?thesis unfolding z by (rule ok_parts) (rule policies_ok_rows(1) [OF _ pair])
  qed
  show "sees x (x \<in> L) v z" if "x \<noteq> u" for x
  proof -
    have "steady x v1 v2" by (simp add: steady_def same other [OF that])
    moreover have "active x (sql_update (defaults_to u n) (set_policy t mode d) rows) = active x rows" for rows
      by (rule active_other [OF defaults_to_user that])
    then have "sees x (x \<in> L) v3 v4" "sees x (x \<in> L) v5 z" unfolding v4 z by (auto intro: sees_own_policy [OF that])
    ultimately show ?thesis
      using under_lock(2) [OF g1, of x] under_lock(2) [OF g2, of x] under_lock(2) [OF g3, of x]
      by (meson sees_trans steady_sees)
  qed
  show "coherent u z" if "coherent u v"
  proof -
    from steady_sees [OF under_lock(1) [OF g1], of True] that have "coherent u v1" by (simp add: sees_def)
    note s2 = under_lock(1) [OF g2, unfolded steady_def] and s3 = under_lock(1) [OF g3, unfolded steady_def]
    have rep: "retrieval_default u v4 \<subseteq> (retrieval_default u v3 - {n}) \<union> written_default mode d" "write_default u v4 = write_default u v3"
      "registered u v4 = registered u v3"
      unfolding v4 using active_replace by (simp_all add: defaults_frame default_tables) (simp add: retrieval_default_def)
    have rep': "write_default u z \<subseteq> (write_default u v5 - {n}) \<union> written_default mode d" "retrieval_default u z = retrieval_default u v5"
      "registered u z = registered u v5"
      unfolding z using active_replace by (simp_all add: defaults_frame default_tables) (simp add: write_default_def)
    have "registered u v1 - {n} \<union> written_default mode d \<subseteq> registered u z"
      using own s2 s3 rep(3) rep'(3) by auto
    moreover have "retrieval_default u z \<subseteq> (retrieval_default u v1 - {n}) \<union> written_default mode d"
      using rep(1) rep'(2) s2 s3 same by auto
    moreover have "write_default u z \<subseteq> (write_default u v1 - {n}) \<union> written_default mode d"
      using rep(2) rep'(1) s2 s3 same by auto
    ultimately show ?thesis
      using \<open>coherent u v1\<close> unfolding coherent_def defaults_def by blast
  qed
qed

lemma evolve_renameScope:
  assumes "u \<notin> L" and "\<And>w. settings_evolve L w (gap 0 w)" and under: "\<And>k w. 0 < k \<Longrightarrow> settings_evolve (insert u L) w (gap k w)"
  shows "settings_evolve L w (snd (renameScope gap t u frm to w))"
  unfolding renameScope_def
proof (intro evolving.run_within withinI, goal_cases)
  case (1 w r z)
  have pair: "scope_consistency ScopeDefault (Some to)" by (simp add: scope_consistency_def)
  from 1 obtain a v2 v4 where run: "renameScope_db gap u frm to (gap 0 w) = Inr (a, v2)"
    and retr: "replace_default ad_retrieval ad_retrieval_update t u frm ScopeDefault (Some to) (gap 2 v2) = Inr ((), v4)"
    and wr: "replace_default ad_write_scope ad_write_scope_update t u frm ScopeDefault (Some to) (gap 3 v4) = Inr ((), z)"
    by (auto simp: lockScopePolicies_def replaceRetrievalPolicyDefault_def replaceWriteScopePolicyDefault_def tx_Inr)
  note ret = renameScope_db_ret [OF run]
  have reg: "registered u v2 = (registered u (gap 1 (gap 0 w)) - {frm}) \<union> written_default ScopeDefault (Some to)"
    unfolding ret(2) using registered_rename [OF ret(1)] by (simp add: written_default_def)
  show ?case
  proof (rule evolve_registry [OF assms(2) under under under assms(1) _ _ reg _ pair replace_ret [OF retr pair] replace_ret [OF wr pair]])
    show "settings_ok v2" if "settings_ok (gap 1 (gap 0 w))" using that ret(3) by (simp add: settings_ok_def ret(2))
    show "registered x v2 = registered x (gap 1 (gap 0 w))" if "x \<noteq> u" for x
      unfolding ret(2) by (rule registered_others [OF that]) simp
  qed (simp_all add: ret(2))
qed

lemma evolve_deleteScope:
  assumes "u \<notin> L" and "\<And>w. settings_evolve L w (gap 0 w)" and under: "\<And>k w. 0 < k \<Longrightarrow> settings_evolve (insert u L) w (gap k w)"
  shows "settings_evolve L w (snd (deleteScope gap t u n w))"
  unfolding deleteScope_def
proof (intro evolving.run_within withinI, goal_cases)
  case (1 w r z)
  have pair: "scope_consistency ScopeRequire None" by (simp add: scope_consistency_def)
  from 1 obtain v2 v4 where run: "deleteScope_db gap u n (gap 0 w) = Inr ((), v2)"
    and retr: "replace_default ad_retrieval ad_retrieval_update t u n ScopeRequire None (gap 2 v2) = Inr ((), v4)"
    and wr: "replace_default ad_write_scope ad_write_scope_update t u n ScopeRequire None (gap 3 v4) = Inr ((), z)"
    by (auto simp: lockScopePolicies_def replaceRetrievalPolicyDefault_def replaceWriteScopePolicyDefault_def tx_Inr)
  note ret = deleteScope_db_ret [OF run]
  have reg: "registered u v2 = (registered u (gap 1 (gap 0 w)) - {n}) \<union> written_default ScopeRequire None"
    unfolding ret(2) registered_delete by (simp add: written_default_def)
  show ?case
  proof (rule evolve_registry [OF assms(2) under under under assms(1) _ _ reg _ pair replace_ret [OF retr pair] replace_ret [OF wr pair]])
    show "settings_ok v2" if "settings_ok (gap 1 (gap 0 w))"
      using that by (simp add: settings_ok_def ret(2) distinct_map_filter)
    show "registered x v2 = registered x (gap 1 (gap 0 w))" if "x \<noteq> u" for x
      unfolding ret(2) by (rule registered_deleted [OF that])
  qed (simp_all add: ret(2))
qed

lemma settings_evolves:
  shows "setting L w w' \<Longrightarrow> settings_evolve L w w'" and "settings L w w' \<Longrightarrow> settings_evolve L w w'"
proof (induction rule: setting_settings.inducts)
  case (settings_step L w v z)
  then show ?case by (blast intro: evolving.R_trans)
next
  case (set_elsewhere v w L)
  then show ?case
    by (intro evolve_steady)
      (simp_all add: settings_ok_def steady_def registered_def retrieval_default_def write_default_def)
qed (auto intro!: evolving.R_refl evolve_erase evolve_create evolve_aliases evolve_renameScope evolve_deleteScope
    evolve_setRetrievalDefault evolve_setWriteDefault)

end
