(* ===== verification/ScopeTheorems.thy ===== *)
theory ScopeTheorems
  imports ScopeSafety
begin

text \<open>
  What the registry and the policies guarantee: an active default is registered in every reachable state, a
  setter's policy is the one the next read resolves, a rename carries the defaults along and a delete makes
  them fail closed, a policy never lets an unscoped read through, and the recovery message fits its bound.
\<close>

section \<open>In every reachable state\<close>

lemma resolved_default: "resolveRetrievalPolicy collate u w = PolicyDefault d \<Longrightarrow> d \<in> retrieval_default u w"
  by (auto simp: resolveRetrievalPolicy_def getRetrievalPolicy_def get_policy_def toPolicyRow_def retrieval_default_def active_def
      defaults_to_def dest!: find_row_Some split: option.splits scope_mode.splits)

lemma resolved_write:
  "resolveWriteScope collate u None w = Inr d \<Longrightarrow>
   d \<in> write_default u w \<or> d = UNPOLICIED_WRITE_SCOPE \<and> fst (resolveWriteScopePolicy u w) = ScopeOff"
  by (auto simp: resolveWriteScope_def resolveWriteScopePolicy_def toWriteScopeSetting_def getWriteScopePolicy_def get_policy_def
      toPolicyRow_def write_default_def active_def defaults_to_def dest!: find_row_Some
      split: option.splits scope_mode.splits prod.splits if_splits)

text \<open>
  C17. A default in force is always the name of a registered scope of its user: after any interleaving of
  registry operations, policy changes and erasures, the scope that an unscoped read is narrowed to, and the
  scope that an unscoped write lands in unless the write policy is off, are in the registry.
\<close>

theorem defaults_are_registered:
  assumes "settings {} w w'" and "settings_ok w" and "\<And>u. coherent u w"
  shows "settings_ok w' \<and>
    (\<forall>u d. resolveRetrievalPolicy collate u w' = PolicyDefault d \<longrightarrow> d \<in> set (map sr_name (listScopes collate u w'))) \<and>
    (\<forall>u d. resolveWriteScope collate u None w' = Inr d \<longrightarrow>
       d \<in> set (map sr_name (listScopes collate u w')) \<or> d = UNPOLICIED_WRITE_SCOPE \<and> fst (resolveWriteScopePolicy u w') = ScopeOff)"
proof -
  have ok: "settings_ok w'" and coh: "coherent u w'" for u
    using settings_evolves(2) [OF assms(1)] assms(2,3) by (auto simp: settings_evolve_def sees_def)
  have "d \<in> registered u w'" if "resolveRetrievalPolicy collate u w' = PolicyDefault d" for u d
    using resolved_default [OF that] coh [of u] by (auto simp: coherent_def defaults_def)
  moreover have "d \<in> registered u w' \<or> d = UNPOLICIED_WRITE_SCOPE \<and> fst (resolveWriteScopePolicy u w') = ScopeOff"
    if "resolveWriteScope collate u None w' = Inr d" for u d
    using resolved_write [OF that] coh [of u] by (auto simp: coherent_def defaults_def)
  ultimately show ?thesis using ok unfolding listed_names by blast
qed

section \<open>Set, then resolve\<close>

lemma get_after_upsert:
  assumes "upsert_policy tab put t u mode d w = Inr (r, w')"
    and "\<And>f. tab (sv_auth (put_policies put f w)) = f (tab (sv_auth w))"
  shows "get_policy tab u w' = Some r"
proof -
  note ret = upsert_ret [OF assms(1)]
  from ret(3) show ?thesis
  proof
    assume hit: "u \<in> set (map sp_user (tab (sv_auth w))) \<and> w' = put_policies put (sql_update (\<lambda>p. sp_user p = u) (set_policy t mode d)) w"
    have "find_row (\<lambda>p. sp_user p = u) (tab (sv_auth w')) = map_option (set_policy t mode d) (find_row (\<lambda>p. sp_user p = u) (tab (sv_auth w)))"
      using hit assms(2) by (simp add: find_row_update_same set_policy_def)
    moreover obtain p where "find_row (\<lambda>p. sp_user p = u) (tab (sv_auth w)) = Some p"
      using hit by (cases "find_row (\<lambda>p. sp_user p = u) (tab (sv_auth w))") (auto simp: find_row_None)
    ultimately show ?thesis by (simp add: get_policy_def toPolicyRow_def set_policy_def ret(2))
  next
    assume miss: "u \<notin> set (map sp_user (tab (sv_auth w))) \<and> w' = put_policies put (\<lambda>rows. rows @ [new_policy t u mode d]) w"
    then have "find_row (\<lambda>p. sp_user p = u) (tab (sv_auth w)) = None" by (auto simp: find_row_None)
    with miss assms(2) show ?thesis
      by (simp add: get_policy_def find_row_append find_row_Cons toPolicyRow_def new_policy_def ret(2))
  qed
qed

definition effective :: "string list \<Rightarrow> scope_mode \<Rightarrow> string option \<Rightarrow> retrieval_policy" where
  "effective names mode scope = (case mode of ScopeOff \<Rightarrow> PolicyOff
     | ScopeDefault \<Rightarrow> (case scope of None \<Rightarrow> PolicyOff | Some d \<Rightarrow> PolicyDefault d) | ScopeRequire \<Rightarrow> PolicyRequire names)"

lemma resolve_effective:
  "resolveRetrievalPolicy collate u w = (case getRetrievalPolicy u w of None \<Rightarrow> PolicyOff
     | Some r \<Rightarrow> effective (map sr_name (listScopes collate u w)) (pr_mode r) (pr_default r))"
  by (simp add: resolveRetrievalPolicy_def effective_def split: option.split scope_mode.split)

lemma run_tx_case: "run_tx m w = (Inr a, w') \<Longrightarrow> m w = Inr (a, w')"
  by (simp add: run_tx_ok)

text \<open>
  A retrieval policy that was set is the one the next request resolves, whatever committed while the setter
  waited: mode and scope as given, with the registered names under \<open>require\<close>. A setter that fails changed
  nothing.
\<close>

theorem retrieval_round_trip:
  assumes "setRetrievalDefault gap collate t u mode scope w = (r, w')"
  shows "(case r of
      Inr stored \<Rightarrow> stored = (mode, scope) \<and> scope_consistency mode scope \<and>
        resolveRetrievalPolicy collate u w' = effective (map sr_name (listScopes collate u w')) mode scope
    | Inl e \<Rightarrow> w' = w)"
proof (cases r)
  case (Inl e)
  then show ?thesis using assms by (auto simp: setRetrievalDefault_def dest: run_tx_error)
next
  case (Inr stored)
  then obtain a where set: "upsert_policy ad_retrieval ad_retrieval_update t u mode scope (gap 2 (gap 0 w)) = Inr (a, w')"
    and stored: "stored = (pr_mode a, pr_default a)"
    using assms by (auto simp: setRetrievalDefault_def lockScopePolicies_def upsertRetrievalPolicy_def requireRegistered_ret tx_Inr run_tx_ok)
  have "getRetrievalPolicy u w' = Some a"
    unfolding getRetrievalPolicy_def by (rule get_after_upsert [OF set]) simp
  with stored upsert_ret(1,2) [OF set] Inr show ?thesis by (simp add: resolve_effective)
qed

text \<open>
  A write policy that was set decides where the next write without a scope lands: in \<open>personal\<close> when off, in
  the configured scope under \<open>default\<close>, nowhere under \<open>require\<close>. An explicit scope always wins, and the
  setter refuses a default that the registry does not hold when it holds the lock.
\<close>

theorem write_round_trip:
  assumes "setWriteDefault gap collate t u mode scope w = (Inr stored, w')"
  shows "stored = (mode, scope) \<and> resolveWriteScope collate u (Some explicit) w' = Inr explicit \<and>
    resolveWriteScope collate u None w' = (case mode of
        ScopeOff \<Rightarrow> Inr UNPOLICIED_WRITE_SCOPE
      | ScopeDefault \<Rightarrow> Inr (the scope)
      | ScopeRequire \<Rightarrow> Inl (UnscopedWrite (map sr_name (listScopes collate u w')))) \<and>
    (mode = ScopeDefault \<longrightarrow> (\<exists>d. scope = Some d \<and> d \<in> set (map sr_name (listScopes collate u (gap 0 w)))))"
proof -
  obtain a where set: "upsert_policy ad_write_scope ad_write_scope_update t u mode scope (gap 3 (gap 0 w)) = Inr (a, w')"
    and new: "written_default mode scope \<subseteq> registered u (gap 0 w)" and stored: "stored = (pr_mode a, pr_default a)"
    using assms by (auto simp: setWriteDefault_def lockScopePolicies_def upsertWriteScopePolicy_def requireRegistered_ret tx_Inr run_tx_ok)
  have get: "getWriteScopePolicy u w' = Some a"
    unfolding getWriteScopePolicy_def by (rule get_after_upsert [OF set]) simp
  note row = upsert_ret(1,2) [OF set]
  have "mode = ScopeDefault \<Longrightarrow> \<exists>d. scope = Some d \<and> d \<in> registered u (gap 0 w)"
    using row(1) new by (auto simp: scope_consistency_def written_default_def)
  then show ?thesis
    unfolding listed_names using row stored get
    by (auto simp: resolveWriteScope_def toWriteScopeSetting_def scope_consistency_def split: scope_mode.split option.split)
qed

section \<open>Reads under a policy\<close>

text \<open>A read under a policy is scoped; narrowing is reported, and an explicit scope is kept.\<close>

lemma filter_scoped:
  assumes "applyPolicyToScopeFilter (Some p) s = Inr (s', applied)" and "p \<noteq> PolicyOff"
  shows "s' \<noteq> None" and "s \<noteq> None \<Longrightarrow> s' = s \<and> applied = None" and "s = None \<Longrightarrow> applied = s'"
  using assms by (auto simp: applyPolicyToScopeFilter_def split: if_splits retrieval_policy.splits)

lemma selector_scoped:
  assumes "applyPolicyToSelector (Some p) sel = Inr (sel', applied)" and "p \<noteq> PolicyOff"
  shows "sel' \<noteq> SelAll" and "sel \<noteq> SelAll \<Longrightarrow> sel' = sel \<and> applied = None"
    and "sel = SelAll \<Longrightarrow> (\<exists>d. applied = Some d \<and> sel' = SelScope d)"
  using assms by (auto simp: applyPolicyToSelector_def split: if_splits retrieval_policy.splits)

section \<open>The recovery message\<close>

lemma decimal_length: "n < 10 ^ Suc k \<Longrightarrow> length (decimal n) \<le> Suc k"
proof (induction k arbitrary: n)
  case 0
  then show ?case by (simp add: decimal.simps [of n])
next
  case (Suc k)
  show ?case
  proof (cases "n < 10")
    case False
    have "n div 10 < 10 ^ Suc k" using Suc.prems by (simp add: less_mult_imp_div_less)
    then show ?thesis using Suc.IH [of "n div 10"] False by (simp add: decimal.simps [of n])
  qed (simp add: decimal.simps [of n])
qed

lemma longest_fitting_bound: "longest_fitting prefx names k = Some d \<Longrightarrow> length d \<le> MAX_REST_ERROR_DETAIL_LENGTH"
  by (induction k) (auto split: if_splits)

lemma longest_fitting_best:
  "longest_fitting prefx names k = Some d \<Longrightarrow> \<exists>j. 0 < j \<and> j \<le> k \<and> d = recovery_detail prefx names j \<and>
     (\<forall>i. j < i \<and> i \<le> k \<longrightarrow> MAX_REST_ERROR_DETAIL_LENGTH < length (recovery_detail prefx names i))"
proof (induction k)
  case (Suc k)
  show ?case
  proof (cases "length (recovery_detail prefx names (Suc k)) \<le> MAX_REST_ERROR_DETAIL_LENGTH")
    case True
    then show ?thesis using Suc.prems by (intro exI [of _ "Suc k"]) simp
  next
    case False
    then obtain j where "0 < j" "j \<le> k" "d = recovery_detail prefx names j"
      "\<forall>i. j < i \<and> i \<le> k \<longrightarrow> MAX_REST_ERROR_DETAIL_LENGTH < length (recovery_detail prefx names i)"
      using Suc by auto
    then show ?thesis using False by (intro exI [of _ j]) (auto simp: le_Suc_eq)
  qed
qed simp

lemma recovery_bound:
  assumes "length names < 2 ^ 32" and "length prefx \<le> 100"
  shows "length (formatScopeRecoveryDetail prefx names) \<le> MAX_REST_ERROR_DETAIL_LENGTH"
proof -
  have "length names < 10 ^ Suc 9" using assms(1) by simp
  then have "length (decimal (length names)) \<le> 10" using decimal_length [of "length names" 9] by simp
  then show ?thesis
    using assms(2) longest_fitting_bound
    by (auto simp: formatScopeRecoveryDetail_def em_dash_def MAX_REST_ERROR_DETAIL_LENGTH_def split: option.split)
qed

text \<open>
  The message of a refused unscoped read or write fits the 512 characters of an error detail, however many
  scopes there are and however long their names; it names at least one scope whenever one name fits.
\<close>

theorem recovery_detail_bounded:
  assumes "length names < 2 ^ 32"
  shows "length (formatUnscopedRetrievalDetail names) \<le> MAX_REST_ERROR_DETAIL_LENGTH \<and>
    length (formatUnscopedWriteDetail names) \<le> MAX_REST_ERROR_DETAIL_LENGTH \<and>
    (names \<noteq> [] \<and> length (recovery_detail UNSCOPED_WRITE_PREFIX names 1) \<le> MAX_REST_ERROR_DETAIL_LENGTH \<longrightarrow>
      (\<exists>j. 0 < j \<and> j \<le> min (length names) MAX_UNSCOPED_RECOVERY_SCOPES \<and>
        formatUnscopedWriteDetail names = recovery_detail UNSCOPED_WRITE_PREFIX names j))"
proof (intro conjI impI)
  show "length (formatUnscopedRetrievalDetail names) \<le> MAX_REST_ERROR_DETAIL_LENGTH"
    unfolding formatUnscopedRetrievalDetail_def
    by (rule recovery_bound [OF assms]) (simp add: UNSCOPED_RECOVERY_PREFIX_def em_dash_def)
  have short: "length UNSCOPED_WRITE_PREFIX \<le> 100" by (simp add: UNSCOPED_WRITE_PREFIX_def em_dash_def)
  then show "length (formatUnscopedWriteDetail names) \<le> MAX_REST_ERROR_DETAIL_LENGTH"
    using recovery_bound [OF assms short] by (auto simp: formatUnscopedWriteDetail_def MAX_REST_ERROR_DETAIL_LENGTH_def)
next
  assume fits: "names \<noteq> [] \<and> length (recovery_detail UNSCOPED_WRITE_PREFIX names 1) \<le> MAX_REST_ERROR_DETAIL_LENGTH"
  have some: "longest_fitting UNSCOPED_WRITE_PREFIX names (Suc k) \<noteq> None" for k
    using fits by (induction k) auto
  obtain k where k: "min (length names) MAX_UNSCOPED_RECOVERY_SCOPES = Suc k"
    using fits by (cases "min (length names) MAX_UNSCOPED_RECOVERY_SCOPES")
      (auto simp: MAX_UNSCOPED_RECOVERY_SCOPES_def min_def split: if_splits)
  then obtain d where d: "longest_fitting UNSCOPED_WRITE_PREFIX names (Suc k) = Some d" using some by blast
  then have "formatUnscopedWriteDetail names = d"
    using fits k by (simp add: formatUnscopedWriteDetail_def formatScopeRecoveryDetail_def)
  then show "\<exists>j. 0 < j \<and> j \<le> min (length names) MAX_UNSCOPED_RECOVERY_SCOPES \<and>
      formatUnscopedWriteDetail names = recovery_detail UNSCOPED_WRITE_PREFIX names j"
    using longest_fitting_best [OF d] unfolding k by blast
qed

section \<open>Rename and delete\<close>

lemma get_after_replace:
  assumes "\<And>f. tab (sv_auth (put_policies put f w)) = f (tab (sv_auth w))"
  shows "get_policy tab u (put_policies put (sql_update (defaults_to u n) (set_policy t mode d)) w) =
    map_option (\<lambda>r. if pr_mode r = ScopeDefault \<and> pr_default r = Some n
      then \<lparr>pr_mode = mode, pr_default = d, pr_updated = date_of_sql t\<rparr> else r) (get_policy tab u w)"
proof -
  have "find_row (\<lambda>p. sp_user p = u) (sql_update (defaults_to u n) (set_policy t mode d) (tab (sv_auth w))) =
      map_option (\<lambda>p. if defaults_to u n p then set_policy t mode d p else p) (find_row (\<lambda>p. sp_user p = u) (tab (sv_auth w)))"
    by (rule find_row_update) (simp add: set_policy_def)
  then show ?thesis
    by (cases "find_row (\<lambda>p. sp_user p = u) (tab (sv_auth w))")
      (auto simp: get_policy_def assms toPolicyRow_def set_policy_def defaults_to_def dest!: find_row_Some)
qed

lemma get_policy_registry: "get_policy tab u (w\<lparr>sv_scopes := rows\<rparr>) = get_policy tab u w"
  by (simp add: get_policy_def)

lemma get_policy_other:
  "get_policy ad_retrieval u (put_policies ad_write_scope_update f w) = get_policy ad_retrieval u w"
  "get_policy ad_write_scope u (put_policies ad_retrieval_update f w) = get_policy ad_write_scope u w"
  by (simp_all add: get_policy_def)

lemma listScopes_policies: "listScopes collate u (put_policies put f w) = listScopes collate u w"
  by (simp add: listScopes_def)

lemma names_after_delete:
  "map sr_name (listScopes collate u (w\<lparr>sv_scopes := filter (\<lambda>r. \<not> named u n r) (sv_scopes w)\<rparr>)) =
   filter (\<lambda>x. x \<noteq> n) (map sr_name (listScopes collate u w))"
proof -
  have "filter (\<lambda>r. sc_user r = u) (filter (\<lambda>r. \<not> named u n r) (sv_scopes w)) =
      filter (\<lambda>r. sc_name r \<noteq> n) (filter (\<lambda>r. sc_user r = u) (sv_scopes w))"
    by (auto simp: named_def intro: filter_cong)
  then show ?thesis
    by (simp add: listScopes_def filter_map comp_def toScopeRow_def filter_sort [symmetric])
qed

text \<open>What both policies become when the default \<open>n\<close> is replaced.\<close>

definition replaced :: "string \<Rightarrow> scope_mode \<Rightarrow> string option \<Rightarrow> scope_mode \<times> string option \<Rightarrow> scope_mode \<times> string option" where
  "replaced n mode d p = (if p = (ScopeDefault, Some n) then (mode, d) else p)"

definition setting_of :: "policy_row option \<Rightarrow> scope_mode \<times> string option" where
  "setting_of row = (case row of None \<Rightarrow> (ScopeOff, None) | Some r \<Rightarrow> (pr_mode r, pr_default r))"

lemma setting_of_replaced:
  "n' = Some n \<Longrightarrow> setting_of (map_option (\<lambda>r. if pr_mode r = ScopeDefault \<and> pr_default r = n'
      then \<lparr>pr_mode = mode, pr_default = d, pr_updated = t\<rparr> else r) row) = replaced n mode d (setting_of row)"
  by (auto simp: setting_of_def replaced_def split: option.split)

lemma deleteScope_quiet:
  "deleteScope (\<lambda>_ w. w) t u n w =
   (if n \<in> registered u w
    then (Inr (), put_policies ad_write_scope_update (sql_update (defaults_to u n) (set_policy t ScopeRequire None))
       (put_policies ad_retrieval_update (sql_update (defaults_to u n) (set_policy t ScopeRequire None))
         (w\<lparr>sv_scopes := filter (\<lambda>r. \<not> named u n r) (sv_scopes w)\<rparr>)))
    else (Inl (ScopeNotFound n), w))"
proof -
  have "filter (named u n) (sv_scopes w) = [] \<longleftrightarrow> n \<notin> registered u w" by (auto simp: registered_def filter_empty_conv)
  then show ?thesis
    by (simp add: deleteScope_def lockScopePolicies_def deleteScope_db_def delete_scopes_def replaceRetrievalPolicyDefault_def
        replaceWriteScopePolicyDefault_def replace_default_def scope_consistency_def run_tx_def bind_tx_def wait_for_def ret_def throw_def)
qed

text \<open>
  C18. Deleting a scope touches no memory and fails closed: a policy that defaulted to it demands an explicit scope from
  then on, so an unscoped read or write that went there is refused and never falls back to \<open>personal\<close>. Any
  other policy stays, and the recovery message no longer offers the name.
\<close>

theorem delete_fails_closed:
  assumes "deleteScope (\<lambda>_ w. w) t u n w = (Inr (), w')"
  shows "sv_store w' = sv_store w \<and>
    map sr_name (listScopes collate u w') = filter (\<lambda>x. x \<noteq> n) (map sr_name (listScopes collate u w)) \<and>
    setting_of (getRetrievalPolicy u w') = replaced n ScopeRequire None (setting_of (getRetrievalPolicy u w)) \<and>
    setting_of (getWriteScopePolicy u w') = replaced n ScopeRequire None (setting_of (getWriteScopePolicy u w)) \<and>
    (setting_of (getWriteScopePolicy u w) = (ScopeDefault, Some n) \<longrightarrow>
       resolveWriteScope collate u None w' = Inl (UnscopedWrite (map sr_name (listScopes collate u w')))) \<and>
    (resolveRetrievalPolicy collate u w = PolicyDefault n \<longrightarrow>
       applyPolicyToScopeFilter (Some (resolveRetrievalPolicy collate u w')) None =
         Inl (UnscopedRetrieval (map sr_name (listScopes collate u w'))))"
proof -
  let ?gone = "w\<lparr>sv_scopes := filter (\<lambda>r. \<not> named u n r) (sv_scopes w)\<rparr>"
  let ?f = "sql_update (defaults_to u n) (set_policy t ScopeRequire None)"
  let ?z = "put_policies ad_write_scope_update ?f (put_policies ad_retrieval_update ?f ?gone)"
  have w': "w' = ?z" using assms unfolding deleteScope_quiet by (simp split: if_splits)
  have retr: "getRetrievalPolicy u ?z = map_option (\<lambda>r. if pr_mode r = ScopeDefault \<and> pr_default r = Some n
      then \<lparr>pr_mode = ScopeRequire, pr_default = None, pr_updated = date_of_sql t\<rparr> else r) (getRetrievalPolicy u w)"
    unfolding getRetrievalPolicy_def get_policy_other by (subst get_after_replace) (simp_all add: get_policy_registry)
  have wrote: "getWriteScopePolicy u ?z = map_option (\<lambda>r. if pr_mode r = ScopeDefault \<and> pr_default r = Some n
      then \<lparr>pr_mode = ScopeRequire, pr_default = None, pr_updated = date_of_sql t\<rparr> else r) (getWriteScopePolicy u w)"
    unfolding getWriteScopePolicy_def by (subst get_after_replace) (simp_all add: get_policy_registry get_policy_other)
  have names: "map sr_name (listScopes collate u ?z) = filter (\<lambda>x. x \<noteq> n) (map sr_name (listScopes collate u w))"
    unfolding listScopes_policies by (rule names_after_delete)
  show ?thesis
    unfolding w' names retr wrote resolve_effective resolveWriteScope_def
  proof (intro conjI impI)
    show "sv_store ?z = sv_store w" by (simp add: sv_store_def put_policies_def)
  qed (auto simp: replaced_def setting_of_def toWriteScopeSetting_def applyPolicyToScopeFilter_def effective_def
      split: option.splits scope_mode.splits)
qed

lemma renameScope_ret:
  assumes "renameScope (\<lambda>_ w. w) t u frm to w = (Inr r, w')"
  shows "frm \<in> registered u w" and "w' = put_policies ad_write_scope_update (sql_update (defaults_to u frm) (set_policy t ScopeDefault (Some to)))
       (put_policies ad_retrieval_update (sql_update (defaults_to u frm) (set_policy t ScopeDefault (Some to)))
         (w\<lparr>sv_scopes := sql_update (named u frm) (\<lambda>x. x\<lparr>sc_name := to\<rparr>) (sv_scopes w)\<rparr>))"
proof -
  have pair: "scope_consistency ScopeDefault (Some to)" by (simp add: scope_consistency_def)
  obtain a v where run: "renameScope_db (\<lambda>_ w. w) u frm to w = Inr (a, v)"
    and retr: "replace_default ad_write_scope ad_write_scope_update t u frm ScopeDefault (Some to)
        (put_policies ad_retrieval_update (sql_update (defaults_to u frm) (set_policy t ScopeDefault (Some to))) v) = Inr ((), w')"
    using assms replace_ret [OF _ pair]
    by (auto simp: renameScope_def lockScopePolicies_def replaceRetrievalPolicyDefault_def replaceWriteScopePolicyDefault_def tx_Inr run_tx_ok)
  note ret = renameScope_db_ret [OF run]
  from ret(1) show "frm \<in> registered u w" by (auto simp: registered_def)
  show "w' = put_policies ad_write_scope_update (sql_update (defaults_to u frm) (set_policy t ScopeDefault (Some to)))
       (put_policies ad_retrieval_update (sql_update (defaults_to u frm) (set_policy t ScopeDefault (Some to)))
         (w\<lparr>sv_scopes := sql_update (named u frm) (\<lambda>x. x\<lparr>sc_name := to\<rparr>) (sv_scopes w)\<rparr>))"
    using replace_ret [OF retr pair] by (simp add: ret(2))
qed

text \<open>A rename carries both defaults to the new name, touches no memory and keeps every other name.\<close>

lemma rename_carries_defaults:
  assumes "renameScope (\<lambda>_ w. w) t u frm to w = (Inr r, w')"
  shows "sv_store w' = sv_store w" and "registered u w' = insert to (registered u w - {frm})"
    and "setting_of (getRetrievalPolicy u w') = replaced frm ScopeDefault (Some to) (setting_of (getRetrievalPolicy u w))"
    and "setting_of (getWriteScopePolicy u w') = replaced frm ScopeDefault (Some to) (setting_of (getWriteScopePolicy u w))"
proof -
  note ret = renameScope_ret [OF assms]
  show "sv_store w' = sv_store w" unfolding ret(2) by (simp add: sv_store_def put_policies_def)
  have "\<exists>x \<in> set (sv_scopes w). named u frm x" using ret(1) by (simp add: registered_def)
  from registered_rename [OF this] show "registered u w' = insert to (registered u w - {frm})" unfolding ret(2) by simp
  show "setting_of (getRetrievalPolicy u w') = replaced frm ScopeDefault (Some to) (setting_of (getRetrievalPolicy u w))"
    unfolding ret(2) getRetrievalPolicy_def get_policy_other
    by (subst get_after_replace) (simp_all add: get_policy_registry setting_of_replaced)
  show "setting_of (getWriteScopePolicy u w') = replaced frm ScopeDefault (Some to) (setting_of (getWriteScopePolicy u w))"
    unfolding ret(2) getWriteScopePolicy_def
    by (subst get_after_replace) (simp_all add: get_policy_registry get_policy_other setting_of_replaced)
qed

end
