(* ===== verification/BudgetTheorems.thy ===== *)
theory BudgetTheorems
  imports Budget
begin

text \<open>
  What the budget gate guarantees: a reservation fits under the cap up to the rounding of doubles, whatever
  committed while it waited for its lock; hence no interleaving of reservations, calls and releases spends
  more than the cap in an explicit window. The pre-check and the reservation decide alike, every metered
  operation has an estimate, and what a rolling window cannot see.
\<close>

section \<open>Rounding\<close>

text \<open>What the proofs use of doubles: the result of an operation is off by a relative error \<open>eps\<close> at most.\<close>

definition rounds :: "rat \<Rightarrow> rounding \<Rightarrow> bool" where
  "rounds eps fl \<longleftrightarrow> 0 \<le> eps \<and> eps < 1 \<and> (\<forall>x \<ge> 0. (1 - eps) * x \<le> fl x)"

lemma rounds_nonneg: "rounds eps fl \<Longrightarrow> 0 \<le> x \<Longrightarrow> 0 \<le> fl x"
  unfolding rounds_def by (metis diff_ge_0_iff_ge less_imp_le mult_nonneg_nonneg order_trans)

lemma rounds_lower:
  assumes "rounds eps fl" and "0 \<le> x" and "(1 - eps) ^ k * y \<le> x"
  shows "(1 - eps) ^ Suc k * y \<le> fl x"
proof -
  have "(1 - eps) ^ Suc k * y = (1 - eps) * ((1 - eps) ^ k * y)" by simp
  also have "\<dots> \<le> (1 - eps) * x" using assms(1,3) by (intro mult_left_mono) (simp_all add: rounds_def)
  also have "\<dots> \<le> fl x" using assms(1,2) by (simp add: rounds_def)
  finally show ?thesis .
qed

lemma power_weaken:
  assumes "rounds eps fl" and "0 \<le> (y :: rat)" and "j \<le> k"
  shows "(1 - eps) ^ k * y \<le> (1 - eps) ^ j * y"
  using assms by (intro mult_right_mono power_decreasing) (simp_all add: rounds_def)

text \<open>The sum the gate computes, in its order, against the exact one.\<close>

lemma gate_sum:
  assumes fl: "rounds eps fl" and "0 \<le> a" "0 \<le> b" "0 \<le> c" "0 \<le> d"
  shows "(1 - eps) ^ 4 * (a + b + c + d) \<le> fl (fl (fl (fl a + fl b) + fl c) + d)"
proof -
  note nn = rounds_nonneg [OF fl]
  have one: "(1 - eps) ^ 1 * x \<le> fl x" if "0 \<le> x" for x using rounds_lower [OF fl that, of 0 x] by simp
  have "(1 - eps) ^ 1 * (a + b) \<le> fl a + fl b"
    using one [OF assms(2)] one [OF assms(3)] by (simp add: distrib_left)
  then have two: "(1 - eps) ^ 2 * (a + b) \<le> fl (fl a + fl b)"
    using rounds_lower [OF fl, of "fl a + fl b" 1 "a + b"] nn assms by (simp add: numeral_2_eq_2)
  have "(1 - eps) ^ 2 * c \<le> fl c" using power_weaken [OF fl assms(4), of 1 2] one [OF assms(4)] by simp
  then have "(1 - eps) ^ 2 * (a + b + c) \<le> fl (fl a + fl b) + fl c" using two by (simp add: distrib_left)
  then have three: "(1 - eps) ^ 3 * (a + b + c) \<le> fl (fl (fl a + fl b) + fl c)"
    using rounds_lower [OF fl, of "fl (fl a + fl b) + fl c" 2 "a + b + c"] nn assms by (simp add: eval_nat_numeral)
  have "(1 - eps) ^ 3 * d \<le> d" using power_weaken [OF fl assms(5), of 0 3] by simp
  then have "(1 - eps) ^ 3 * (a + b + c + d) \<le> fl (fl (fl a + fl b) + fl c) + d" using three by (simp add: distrib_left)
  then show ?thesis
    using rounds_lower [OF fl, of "fl (fl (fl a + fl b) + fl c) + d" 3 "a + b + c + d"] nn assms by (simp add: eval_nat_numeral)
qed

lemma toFixed12_bounds: "toFixed12 x \<le> x + 1 / (2 * 10 ^ 12)" "0 \<le> x \<Longrightarrow> 0 \<le> toFixed12 x"
proof -
  have "of_int (round (x * 10 ^ 12)) \<le> x * 10 ^ 12 + 1 / 2" by (rule of_int_round_le)
  then show "toFixed12 x \<le> x + 1 / (2 * 10 ^ 12)" by (simp add: toFixed12_def field_simps)
  show "0 \<le> toFixed12 x" if "0 \<le> x"
  proof -
    have "0 \<le> x * 10 ^ 12 + 1 / 2" using that by simp
    then have "0 \<le> round (x * 10 ^ 12)" unfolding round_def by (simp only: le_floor_iff of_int_0)
    then show ?thesis by (simp add: toFixed12_def)
  qed
qed

section \<open>One reservation\<close>

text \<open>The charge of a window: priced spend, and \<open>F\<close> per unpriced row.\<close>

definition charge :: "rat \<Rightarrow> ledger_row list \<Rightarrow> rat" where
  "charge F rows = priced_sum rows + of_nat (unpriced_count rows) * F"

definition costs_ok :: "service_db \<Rightarrow> bool" where
  "costs_ok w \<longleftrightarrow> (\<forall>x \<in> set (sv_usage w). \<forall>c \<in> set_option (lu_cost x). 0 \<le> c) \<and> (\<forall>r \<in> set (sv_reservations w). 0 \<le> rv_cost r)"

lemma costs_nonneg:
  assumes "costs_ok w"
  shows "0 \<le> priced_sum (usage_in u se w)" and "0 \<le> reserved_sum (active_reservations t u w)"
  using assms
  by (auto simp: priced_sum_def reserved_sum_def usage_in_def active_reservations_def costs_ok_def
      intro!: sum_list_nonneg split: option.split)

definition held :: "instant \<Rightarrow> uid \<Rightarrow> rat \<Rightarrow> service_db \<Rightarrow> reservation" where
  "held t u est w = \<lparr>rv_id = sv_next w, rv_user = u, rv_cost = toFixed12 est, rv_created = t\<rparr>"

definition hold :: "instant \<Rightarrow> uid \<Rightarrow> rat \<Rightarrow> service_db \<Rightarrow> service_db" where
  "hold t u est w = w\<lparr>sv_reservations := sv_reservations w @ [held t u est w], sv_next := Suc (sv_next w)\<rparr>"

definition gate_total :: "rounding \<Rightarrow> instant \<Rightarrow> uid \<Rightarrow> nat \<Rightarrow> rat \<Rightarrow> rat \<Rightarrow> service_db \<Rightarrow> rat" where
  "gate_total fl t u n F est w = (let rows = usage_in u (window_of t n (budget_of u w)) w in
     fl (fl (fl (fl (priced_sum rows) + fl (of_nat (unpriced_count rows) * F)) + sumActiveReservations fl t u w) + est))"

lemma reserveBudget_run:
  "reserveBudget fl gap t u tier n cap est F w = (let v = gap w in
     if effective_cap fl u tier cap v < gate_total fl t u n F est v then (Inr None, v)
     else if user_row u (sv_auth v) = None then (Inl ForeignKeyViolation, w)
     else (Inr (Some (sv_next v)), hold t u est v))"
  by (simp add: reserveBudget_def gate_total_def Let_def run_tx_def bind_tx_def wait_for_def query_def ret_def
      insert_reservation_def hold_def held_def)

lemma gate_total_bound:
  assumes "rounds eps fl" and "costs_ok w" and "0 \<le> F" and "0 \<le> est"
  shows "(1 - eps) ^ 4 * (charge F (usage_in u (window_of t n (budget_of u w)) w) + reserved_sum (active_reservations t u w) + est)
    \<le> gate_total fl t u n F est w"
  using gate_sum [OF assms(1) costs_nonneg(1) [OF assms(2)] _ costs_nonneg(2) [OF assms(2)] assms(4)] assms(3)
  by (simp add: gate_total_def charge_def sumActiveReservations_def Let_def)

text \<open>
  A reservation that is granted fits: the spend recorded in the window, the charge for unpriced rows, every
  reservation in flight and the new estimate stay under the effective cap, up to four roundings of doubles,
  whatever other requests committed while this one waited for the lock. A refused one reserves nothing.
\<close>

theorem reservation_within_cap:
  assumes "reserveBudget fl gap t u tier n cap est F w = (r, w')" and "rounds eps fl"
    and "costs_ok (gap w)" and "0 \<le> F" and "0 \<le> est"
  shows "(case r of
      Inr (Some i) \<Rightarrow> w' = hold t u est (gap w) \<and> i = sv_next (gap w) \<and>
        (1 - eps) ^ 4 * (charge F (usage_in u (window_of t n (budget_of u (gap w))) (gap w)) +
           reserved_sum (active_reservations t u (gap w)) + est) \<le> effective_cap fl u tier cap (gap w)
    | Inr None \<Rightarrow> w' = gap w \<and> effective_cap fl u tier cap (gap w) < gate_total fl t u n F est (gap w)
    | Inl e \<Rightarrow> w' = w)"
  using assms(1) order_trans [OF gate_total_bound [OF assms(2-5), of u t n]]
  by (auto simp: reserveBudget_run Let_def split: if_splits)

section \<open>The gates\<close>

lemma assertWithinBudget_total:
  "assertWithinBudget fl outage t en u op w = (case maxCostUsdForOperation fl op of
       Inl e \<Rightarrow> Inl e
     | Inr est \<Rightarrow> (case en_limits en u of
           Inl _ \<Rightarrow> Inr ()
         | Inr lims \<Rightarrow> if \<not> outage \<and> effective_cap fl u (lm_tier lims) (en_cap en) w <
             gate_total fl t u (coalesce (lm_days lims) (en_days en)) (maxRegisteredCostUsd fl) est w
           then Inl (BudgetExceeded op) else Inr ()))"
  by (simp add: assertWithinBudget_def getBudgetAccounting_def effective_cap_def gate_total_def effectiveConsumed_def
      sumActiveReservations_def Let_def split: sum.split)

text \<open>
  C19. The pre-check of a write and the reservation before its call decide alike on the same state: both refuse an
  operation without a registered estimate, both let it pass when limits or usage cannot be read, and otherwise
  both refuse exactly when the next call would cross the cap.
\<close>

theorem gates_agree:
  "assertWithinBudget fl outage t en u op w =
     (case fst (reserveBudgetSlot fl outage (\<lambda>v. v) t en u op w) of Inl e \<Rightarrow> Inl e | Inr _ \<Rightarrow> Inr ())"
  by (auto simp: assertWithinBudget_total reserveBudgetSlot_def fail_with_def done_with_def reserveBudget_run Let_def
      split: sum.split)

text \<open>Every metered operation has an estimate, and the charge of an unpriced row is none below it.\<close>

lemma fold_max_bound: "(c :: rat) \<le> fold (\<lambda>(_, cost, _) m. max m cost) xs c"
  "(k, x, cl) \<in> set xs \<Longrightarrow> x \<le> fold (\<lambda>(_, cost, _) m. max m cost) xs c"
proof (induction xs arbitrary: c)
  case (Cons y ys)
  obtain k' x' cl' where y: "y = (k', x', cl')" by (cases y)
  { case 1 then show ?case using Cons.IH(1) [of "max c x'"] by (simp add: y) }
  { case 2 then show ?case using Cons.IH(1) [of "max c x'"] Cons.IH(2) [of "max c x'"] by (auto simp: y) }
qed simp_all

lemma estimate_bounded: "maxCostUsdForOperation fl op = Inr est \<Longrightarrow> est \<le> maxRegisteredCostUsd fl"
  unfolding maxRegisteredCostUsd_def
  by (auto simp: maxCostUsdForOperation_def split: option.splits prod.splits dest!: map_of_SomeD intro: fold_max_bound(2))

lemma metered_operations_registered: "assertMeteredOperationsRegistered = Inr ()"
  by (simp add: assertMeteredOperationsRegistered_def METERED_EMBED_OPERATIONS_def METERED_GENERATION_OPERATIONS_def
      METERED_JUDGMENT_OPERATIONS_def capabilityClassForOperation_def llmOperations_def)

section \<open>What a rolling window cannot see\<close>

text \<open>
  C21. Without an explicit window the reservation counts spend up to \<open>now()\<close>, the start of its transaction. Spend
  recorded later, in particular while it waits for the lock, is not counted; its reservation may be gone by
  then, and the decision is the one without that spend.
\<close>

theorem waiting_spend_is_invisible:
  assumes "explicit_window (budget_of u (gap w)) = None" and "\<forall>x \<in> set late. t \<le> lu_created x"
  shows "fst (reserveBudget fl (\<lambda>v. (gap v)\<lparr>sv_usage := sv_usage (gap v) @ late\<rparr>) t u tier n cap est F w) =
    fst (reserveBudget fl gap t u tier n cap est F w)"
proof -
  let ?v = "(gap w)\<lparr>sv_usage := sv_usage (gap w) @ late\<rparr>"
  have b: "budget_of u ?v = budget_of u (gap w)" by (simp add: budget_of_def)
  have "usage_in u (t - days n, t) ?v = usage_in u (t - days n, t) (gap w)"
    using assms(2) by (fastforce simp: usage_in_def filter_empty_conv)
  then have "gate_total fl t u n F est ?v = gate_total fl t u n F est (gap w)"
    unfolding gate_total_def b window_of_def assms(1) by (simp add: sumActiveReservations_def active_reservations_def)
  moreover have "effective_cap fl u tier cap ?v = effective_cap fl u tier cap (gap w)"
    by (simp add: effective_cap_def b selectTierCap_def Option.bind_def split: option.split)
  ultimately show ?thesis by (simp add: reserveBudget_run Let_def)
qed

section \<open>A whole window\<close>

text \<open>
  \<open>spending fl u se cap F n w0 S w\<close>: \<open>w\<close> is reached from \<open>w0\<close> by calls of user \<open>u\<close> in the explicit window \<open>se\<close>:
  each reserves, records what it spent, at most what it reserved, and releases; \<open>S\<close> are the reservations whose
  call has recorded its spend. Other tenants, and whatever leaves the ledger of \<open>u\<close> alone, run in between. A
  call does not outlive the lifetime of its reservation, which the source sets well above the slowest one.
\<close>

inductive spending ::
  "rounding \<Rightarrow> uid \<Rightarrow> instant \<times> instant \<Rightarrow> rat \<Rightarrow> rat \<Rightarrow> nat \<Rightarrow> service_db \<Rightarrow> rid set \<Rightarrow> service_db \<Rightarrow> bool"
  for fl u se cap F n w0 where
  sp_start: "spending fl u se cap F n w0 {} w0"
| sp_reserve: "spending fl u se cap F n w0 S w \<Longrightarrow> 0 \<le> est \<Longrightarrow> effective_cap fl u tier base w \<le> cap \<Longrightarrow>
    (\<And>r. r \<in> set (sv_reservations w) \<Longrightarrow> rv_user r = u \<Longrightarrow> rv_id r \<notin> S \<Longrightarrow> r \<in> set (active_reservations t u w)) \<Longrightarrow>
    spending fl u se cap F n w0 S (snd (reserveBudget fl (\<lambda>v. v) t u tier n base est F w))"
| sp_spend: "spending fl u se cap F n w0 S w \<Longrightarrow> r \<in> set (sv_reservations w) \<Longrightarrow> rv_user r = u \<Longrightarrow> rv_id r \<notin> S \<Longrightarrow>
    uw_cost x = Some c \<Longrightarrow> 0 \<le> c \<Longrightarrow> toFixed12 c \<le> rv_cost r \<Longrightarrow>
    spending fl u se cap F n w0 (insert (rv_id r) S) (snd (insertLlmUsage t u x w))"
| sp_release: "spending fl u se cap F n w0 S w \<Longrightarrow> spending fl u se cap F n w0 S (snd (releaseReservation u i w))"
| sp_other: "spending fl u se cap F n w0 S w \<Longrightarrow>
    filter (\<lambda>x. lu_user x = u) (sv_usage v) = filter (\<lambda>x. lu_user x = u) (sv_usage w) \<Longrightarrow>
    filter (\<lambda>r. rv_user r = u) (sv_reservations v) = filter (\<lambda>r. rv_user r = u) (sv_reservations w) \<Longrightarrow>
    budget_of u v = budget_of u w \<Longrightarrow> costs_ok v \<Longrightarrow> sv_next w \<le> sv_next v \<Longrightarrow>
    spending fl u se cap F n w0 S v"

definition in_flight :: "uid \<Rightarrow> rid set \<Rightarrow> service_db \<Rightarrow> reservation list" where
  "in_flight u S w = filter (\<lambda>r. rv_id r \<notin> S) (filter (\<lambda>r. rv_user r = u) (sv_reservations w))"

definition mine :: "uid \<Rightarrow> service_db \<Rightarrow> reservation list" where
  "mine u w = filter (\<lambda>r. rv_user r = u) (sv_reservations w)"

text \<open>The invariant: spend and the calls in flight stay under the bound.\<close>

definition under :: "uid \<Rightarrow> instant \<times> instant \<Rightarrow> rat \<Rightarrow> rat \<Rightarrow> rid set \<Rightarrow> service_db \<Rightarrow> bool" where
  "under u se F bound S w \<longleftrightarrow> explicit_window (budget_of u w) = Some se \<and> costs_ok w \<and>
     distinct (map rv_id (mine u w)) \<and> (\<forall>r \<in> set (mine u w). rv_id r < sv_next w) \<and> (\<forall>i \<in> S. i < sv_next w) \<and>
     charge F (usage_in u se w) + reserved_sum (in_flight u S w) \<le> bound"

definition ceiling_of :: "rat \<Rightarrow> rat \<Rightarrow> rat" where
  "ceiling_of eps cap = cap / (1 - eps) ^ 4 + 1 / (2 * 10 ^ 12)"

lemma sum_filter_le:
  assumes "\<And>r. r \<in> set xs \<Longrightarrow> p r \<Longrightarrow> q r" and "\<And>r. r \<in> set xs \<Longrightarrow> 0 \<le> rv_cost r"
  shows "reserved_sum (filter p xs) \<le> reserved_sum (filter q xs)"
  using assms
proof (induction xs)
  case (Cons r xs)
  then have "reserved_sum (filter p xs) \<le> reserved_sum (filter q xs)" by simp
  moreover have "0 \<le> rv_cost r" "p r \<Longrightarrow> q r" using Cons.prems by auto
  ultimately show ?case by (auto simp: reserved_sum_def)
qed (simp add: reserved_sum_def)

lemma in_flight_mine: "in_flight u S w = filter (\<lambda>r. rv_id r \<notin> S) (mine u w)"
  by (simp add: in_flight_def mine_def)

lemma mine_costs: "costs_ok w \<Longrightarrow> r \<in> set (mine u w) \<Longrightarrow> 0 \<le> rv_cost r"
  by (simp add: mine_def costs_ok_def)

lemma in_flight_nonneg: "costs_ok w \<Longrightarrow> 0 \<le> reserved_sum (in_flight u S w)"
  by (auto simp: in_flight_mine reserved_sum_def intro!: sum_list_nonneg dest: mine_costs)

text \<open>The call of one reservation recorded its spend.\<close>

lemma reserved_settle:
  assumes "distinct (map rv_id rows)" and "r \<in> set rows" and "rv_id r \<notin> S"
  shows "reserved_sum (filter (\<lambda>x. rv_id x \<notin> insert (rv_id r) S) rows) + rv_cost r = reserved_sum (filter (\<lambda>x. rv_id x \<notin> S) rows)"
  using assms
proof (induction rows)
  case (Cons y rows)
  show ?case
  proof (cases "y = r")
    case True
    then have "filter (\<lambda>x. rv_id x \<notin> insert (rv_id r) S) rows = filter (\<lambda>x. rv_id x \<notin> S) rows"
      using Cons.prems(1) by (intro filter_cong) (auto simp: rev_image_eqI)
    then show ?thesis using True Cons.prems(3) by (simp add: reserved_sum_def)
  next
    case False
    then have "r \<in> set rows" "rv_id y \<noteq> rv_id r" using Cons.prems by auto
    then show ?thesis using Cons by (auto simp: reserved_sum_def)
  qed
qed simp

lemma charge_append: "charge F (xs @ ys) = charge F xs + charge F ys"
  by (simp add: charge_def priced_sum_def unpriced_count_def distrib_right)

lemma under_reserve:
  assumes "under u se F (ceiling_of eps cap) S w" and fl: "rounds eps fl" and "0 \<le> F" "0 \<le> est"
    and cap: "effective_cap fl u tier base w \<le> cap"
    and live: "\<And>r. r \<in> set (sv_reservations w) \<Longrightarrow> rv_user r = u \<Longrightarrow> rv_id r \<notin> S \<Longrightarrow> r \<in> set (active_reservations t u w)"
  shows "under u se F (ceiling_of eps cap) S (snd (reserveBudget fl (\<lambda>v. v) t u tier n base est F w))"
proof (cases "snd (reserveBudget fl (\<lambda>v. v) t u tier n base est F w) = w")
  case False
  then have new: "snd (reserveBudget fl (\<lambda>v. v) t u tier n base est F w) = hold t u est w"
    and fits: "gate_total fl t u n F est w \<le> cap"
    using cap by (auto simp: reserveBudget_run Let_def split: if_splits)
  from assms(1) have win: "explicit_window (budget_of u w) = Some se" and ok: "costs_ok w"
    and ids: "distinct (map rv_id (mine u w))" "\<forall>r \<in> set (mine u w). rv_id r < sv_next w" "\<forall>i \<in> S. i < sv_next w"
    by (simp_all add: under_def)
  have "reserved_sum (in_flight u S w) \<le> reserved_sum (active_reservations t u w)"
    unfolding in_flight_def filter_filter active_reservations_def
  proof (rule sum_filter_le)
    show "rv_user r = u \<and> t - seconds RESERVATION_TTL_SECONDS < rv_created r"
      if "r \<in> set (sv_reservations w)" "rv_user r = u \<and> rv_id r \<notin> S" for r
      using live that by (auto simp: active_reservations_def)
  qed (use ok in \<open>simp add: costs_ok_def\<close>)
  then have "(1 - eps) ^ 4 * (charge F (usage_in u se w) + reserved_sum (in_flight u S w) + est) \<le>
      (1 - eps) ^ 4 * (charge F (usage_in u se w) + reserved_sum (active_reservations t u w) + est)"
    using fl by (intro mult_left_mono) (simp_all add: rounds_def)
  also have "\<dots> \<le> cap"
    using gate_total_bound [OF fl ok assms(3,4), of u t n] fits by (simp add: window_of_def win)
  finally have "charge F (usage_in u se w) + reserved_sum (in_flight u S w) + est \<le> cap / (1 - eps) ^ 4"
    using fl by (subst pos_le_divide_eq) (simp_all add: rounds_def mult.commute)
  then have "charge F (usage_in u se w) + reserved_sum (in_flight u S w) + toFixed12 est \<le> ceiling_of eps cap"
    using toFixed12_bounds(1) [of est] by (simp add: ceiling_of_def)
  moreover have "in_flight u S (hold t u est w) = in_flight u S w @ [held t u est w]" "mine u (hold t u est w) = mine u w @ [held t u est w]"
    using ids(3) by (auto simp: in_flight_def mine_def hold_def held_def)
  moreover have "usage_in u se (hold t u est w) = usage_in u se w" "budget_of u (hold t u est w) = budget_of u w"
    by (simp_all add: usage_in_def budget_of_def hold_def)
  moreover have "costs_ok (hold t u est w)" using ok toFixed12_bounds(2) [OF assms(4)] by (auto simp: costs_ok_def hold_def held_def)
  moreover have "sv_next (hold t u est w) = Suc (sv_next w)" "rv_id (held t u est w) = sv_next w" by (simp_all add: hold_def held_def)
  ultimately show ?thesis
    unfolding new using win ids by (auto simp: under_def reserved_sum_def held_def)
qed (use assms(1) in simp)

lemma under_spend:
  assumes "under u se F bound S w" and r: "r \<in> set (sv_reservations w)" "rv_user r = u" "rv_id r \<notin> S"
    and x: "uw_cost x = Some c" "0 \<le> c" "toFixed12 c \<le> rv_cost r"
  shows "under u se F bound (insert (rv_id r) S) (snd (insertLlmUsage t u x w))"
proof -
  let ?row = "(usage_of t u x)\<lparr>lu_id := sv_next w\<rparr>"
  let ?w' = "w\<lparr>sv_usage := sv_usage w @ [?row], sv_next := Suc (sv_next w)\<rparr>"
  from assms(1) have ids: "distinct (map rv_id (mine u w))" "\<forall>r \<in> set (mine u w). rv_id r < sv_next w" "\<forall>i \<in> S. i < sv_next w"
    and ok: "costs_ok w" and win: "explicit_window (budget_of u w) = Some se"
    and total: "charge F (usage_in u se w) + reserved_sum (in_flight u S w) \<le> bound" by (simp_all add: under_def)
  have "r \<in> set (mine u w)" using r by (simp add: mine_def)
  then have settled: "reserved_sum (in_flight u (insert (rv_id r) S) w) + rv_cost r = reserved_sum (in_flight u S w)"
    and below: "rv_id r < sv_next w"
    using reserved_settle [OF ids(1) _ r(3)] ids(2) by (simp_all add: in_flight_mine)
  have cost: "0 \<le> toFixed12 c" using x(2) by (rule toFixed12_bounds)
  have "usage_in u se ?w' = usage_in u se w \<or> usage_in u se ?w' = usage_in u se w @ [?row]"
    by (simp add: usage_in_def)
  then have "charge F (usage_in u se ?w') \<le> charge F (usage_in u se w) + toFixed12 c"
    using cost x(1) by (auto simp: charge_append) (simp add: charge_def priced_sum_def unpriced_count_def usage_of_def)
  then have "charge F (usage_in u se ?w') + reserved_sum (in_flight u (insert (rv_id r) S) ?w') \<le> bound"
    using total settled x(3) by (simp add: in_flight_def)
  moreover have "costs_ok ?w'" using ok cost x(1) by (auto simp: costs_ok_def usage_of_def)
  ultimately have "under u se F bound (insert (rv_id r) S) ?w'"
    using win ids below by (auto simp: under_def mine_def budget_of_def)
  moreover have "under u se F bound (insert (rv_id r) S) w"
    using assms(1) settled x(3) cost below by (auto simp: under_def)
  moreover have "snd (insertLlmUsage t u x w) \<in> {w, ?w'}"
    by (simp add: insertLlmUsage_def insert_usage_def run_tx_def usage_of_def)
  ultimately show ?thesis by auto
qed

lemma under_release:
  assumes "under u se F bound S w"
  shows "under u se F bound S (snd (releaseReservation u i w))"
proof -
  let ?w' = "w\<lparr>sv_reservations := filter (\<lambda>r. \<not> (rv_user r = u \<and> rv_id r = i)) (sv_reservations w)\<rparr>"
  have mine: "mine u ?w' = filter (\<lambda>r. rv_id r \<noteq> i) (mine u w)"
    by (auto simp: mine_def intro: filter_cong)
  have "in_flight u S ?w' = filter (\<lambda>r. rv_id r \<noteq> i \<and> rv_id r \<notin> S) (mine u w)"
    unfolding in_flight_mine mine by (auto intro: filter_cong)
  then have "reserved_sum (in_flight u S ?w') \<le> reserved_sum (in_flight u S w)"
    using assms by (auto simp: in_flight_mine under_def intro!: sum_filter_le dest: mine_costs)
  then have "under u se F bound S ?w'"
    using assms unfolding under_def mine
    by (auto simp: usage_in_def budget_of_def costs_ok_def distinct_map_filter)
  then show ?thesis by (simp add: releaseReservation_def)
qed

lemma under_other:
  assumes "under u se F bound S w"
    and "filter (\<lambda>x. lu_user x = u) (sv_usage v) = filter (\<lambda>x. lu_user x = u) (sv_usage w)"
    and "filter (\<lambda>r. rv_user r = u) (sv_reservations v) = filter (\<lambda>r. rv_user r = u) (sv_reservations w)"
    and "budget_of u v = budget_of u w" and "costs_ok v" and "sv_next w \<le> sv_next v"
  shows "under u se F bound S v"
proof -
  have split: "usage_in u se x = filter (\<lambda>y. fst se \<le> lu_created y \<and> lu_created y < snd se) (filter (\<lambda>y. lu_user y = u) (sv_usage x))" for x
    by (simp add: usage_in_def conj_commute conj_assoc)
  have "usage_in u se v = usage_in u se w" unfolding split assms(2) ..
  moreover have "mine u v = mine u w" by (simp add: mine_def assms(3))
  ultimately show ?thesis using assms(1,4-6) by (fastforce simp: under_def in_flight_mine)
qed

lemma spending_under:
  assumes "spending fl u se cap F n w0 S w" and "rounds eps fl" and "0 \<le> F"
    and "under u se F (ceiling_of eps cap) {} w0"
  shows "under u se F (ceiling_of eps cap) S w"
  using assms(1)
proof induction
  case (sp_reserve S w est tier base t)
  then show ?case by (intro under_reserve [OF _ assms(2,3)]) auto
next
  case (sp_spend S w r x c t)
  then show ?case by (intro under_spend) auto
next
  case (sp_release S w i)
  then show ?case by (intro under_release)
next
  case (sp_other S w v)
  then show ?case by (intro under_other [OF sp_other.IH]) auto
qed (rule assms(4))

text \<open>
  C10. The cap is a ceiling on spend. In an explicit window that starts with nothing in flight and no more charged
  than the cap, no interleaving of reservations, calls and releases records more than the cap, up to four
  roundings of doubles and half a picodollar: however many requests run at once, whether calls fail, spend less
  than reserved or are released late.
\<close>

theorem spend_stays_under_the_cap:
  assumes "spending fl u se cap F n w0 S w" and "rounds eps fl" and "0 \<le> F"
    and "explicit_window (budget_of u w0) = Some se" and "costs_ok w0" and "mine u w0 = []"
    and "charge F (usage_in u se w0) \<le> cap" and "0 \<le> cap"
  shows "charge F (usage_in u se w) \<le> cap / (1 - eps) ^ 4 + 1 / (2 * 10 ^ 12)"
proof -
  have "(1 - eps) ^ 4 * cap \<le> (1 - eps) ^ 0 * cap" by (rule power_weaken [OF assms(2,8)]) simp
  then have "cap \<le> cap / (1 - eps) ^ 4"
    using assms(2) by (subst pos_le_divide_eq) (simp_all add: rounds_def mult.commute)
  then have "charge F (usage_in u se w0) \<le> ceiling_of eps cap" using assms(7) by (simp add: ceiling_of_def)
  then have "under u se F (ceiling_of eps cap) {} w0"
    using assms(4-6) by (simp add: under_def in_flight_mine reserved_sum_def)
  from spending_under [OF assms(1-3) this]
  have "charge F (usage_in u se w) + reserved_sum (in_flight u S w) \<le> ceiling_of eps cap" "costs_ok w" by (simp_all add: under_def)
  with in_flight_nonneg [OF this(2), of u S] show ?thesis by (simp add: ceiling_of_def)
qed

end
