(* ===== verification/WriteServiceTheorems.thy ===== *)
theory WriteServiceTheorems
  imports WriteServices ScopeTheorems BudgetTheorems
begin

text \<open>
  What the composed write services guarantee: a refused \<open>remember\<close> writes and charges nothing, an accepted one
  lands in the scope the policy chose and does not depend on the embedding; the embedding task never throws,
  records one ledger row per answered call and keeps no reservation; repair accounts for every row; seeding an
  account twice changes nothing.
\<close>

lemma seed_errors:
  "is_scope_conflict e \<longleftrightarrow> (\<exists>n. e = ScopeNameConflict n)" "is_duplicate e \<longleftrightarrow> (\<exists>h. e = DuplicateMemory h)"
  by (simp_all add: is_scope_conflict_def is_duplicate_def split: err.split)

section \<open>The embedding task\<close>

definition undisturbed :: "run_env \<Rightarrow> bool" where
  "undisturbed env \<longleftrightarrow> rn_wait env = (\<lambda>w. w) \<and> rn_lull env = (\<lambda>_ w. w)"

lemma at_store_frame:
  assumes "at_store m w = (r, w')"
  shows "sv_usage w' = sv_usage w \<and> sv_reservations w' = sv_reservations w \<and> sv_next w' = sv_next w \<and> sv_scopes w' = sv_scopes w \<and>
    sv_budgets w' = sv_budgets w \<and> sv_tiers w' = sv_tiers w"
  using assms by (auto simp: at_store_def split: prod.splits)

lemma best_effort_Inr: "best_effort m w = (Inr (), snd (m w))"
  by (simp add: best_effort_def)

lemma snd_at_store:
  "sv_usage (snd (at_store m w)) = sv_usage w" "sv_reservations (snd (at_store m w)) = sv_reservations w"
  "sv_next (snd (at_store m w)) = sv_next w"
  by (simp_all add: at_store_def split: prod.splits)

lemma record_failure_run:
  "record_failure env u m a reason w =
     (Inr False, snd (at_store (recordEmbedFailure (rn_time env) u m a reason) (rn_lull env 3 w)))"
  by (simp add: record_failure_def and_then_def meanwhile_def best_effort_Inr done_with_def)

text \<open>The task never throws, and when it ends the reservation it took is gone, whatever others did meanwhile.\<close>

lemma runEmbed_ends:
  "\<exists>b. fst (runEmbed env u m content a gw opn budget w) = Inr b"
proof -
  have rec: "\<exists>b v. recover k (\<lambda>e. record_failure env u m a (f e)) x = (Inr b, v)"
    for k :: "(bool, service_db) svc" and f x
    by (cases "k x"; cases "fst (k x)") (auto simp: recover_def record_failure_run split: sum.split)
  have "\<exists>b. fst (finally_do (recover k (\<lambda>e. record_failure env u m a (f e))) g x) = Inr b"
    for k :: "(bool, service_db) svc" and f g x
    using rec [of k f x] by (auto simp: finally_do_def)
  then show ?thesis
    by (auto simp: runEmbed_def record_failure_run split: prod.splits sum.splits)
qed

lemma reserve_slot_cases:
  assumes "reserveBudgetSlot fl outage (\<lambda>v. v) t en u opn w = (r, v)"
  shows "(\<exists>e. r = Inl e \<and> v = w \<and> assertWithinBudget fl outage t en u opn w = Inl e) \<or>
    (r = Inr None \<and> v = w \<and> assertWithinBudget fl outage t en u opn w = Inr ()) \<or>
    (\<exists>est. r = Inr (Some (sv_next w)) \<and> v = hold t u est w \<and> assertWithinBudget fl outage t en u opn w = Inr ())"
  using assms
  by (auto simp: assertWithinBudget_total reserveBudgetSlot_def fail_with_def done_with_def reserveBudget_run Let_def
      split: sum.splits if_splits)

text \<open>The ledger after one attempt: a row when the gateway answered.\<close>

definition billed :: "run_env \<Rightarrow> uid \<Rightarrow> string \<Rightarrow> err + embed_result \<Rightarrow> ledger_row list" where
  "billed env u opn r = (case r of Inl _ \<Rightarrow> [] | Inr res \<Rightarrow> [usage_of (rn_time env) u (embed_usage (rn_fl env) opn res)])"

definition unnumbered :: "ledger_row list \<Rightarrow> ledger_row list" where
  "unnumbered rows = map (\<lambda>x. x\<lparr>lu_id := 0\<rparr>) rows"

definition tried :: "run_env \<Rightarrow> uid \<Rightarrow> rid \<Rightarrow> string \<Rightarrow> actor_kind \<Rightarrow> embed_gateway \<Rightarrow> string \<Rightarrow> (bool, service_db) svc" where
  "tried env u m content a gw opn = recover (embed_attempt env u m content gw opn)
     (\<lambda>e. record_failure env u m a (classifyEmbedFailure (rn_describe env e)))"

lemma tried_run:
  assumes "undisturbed env" and "user_row u (sv_auth w) \<noteq> None"
  shows "unnumbered (sv_usage (snd (tried env u m content a gw opn w))) =
      unnumbered (sv_usage w) @ billed env u opn (gw [content] opn) \<and>
    sv_reservations (snd (tried env u m content a gw opn w)) = sv_reservations w"
proof (cases "gw [content] opn")
  case (Inl e)
  then show ?thesis
    using assms(1)
    by (simp add: tried_def recover_def embed_attempt_def and_then_def of_sum_def record_failure_run snd_at_store undisturbed_def billed_def)
next
  case (Inr res)
  let ?row = "usage_of (rn_time env) u (embed_usage (rn_fl env) opn res)"
  let ?v = "w\<lparr>sv_usage := sv_usage w @ [?row\<lparr>lu_id := sv_next w\<rparr>], sv_next := Suc (sv_next w)\<rparr>"
  have "recordEmbedUsage env u opn res w = (Inr (), ?v)"
    using assms(2) by (simp add: recordEmbedUsage_def best_effort_Inr insertLlmUsage_def insert_usage_def run_tx_def usage_of_def)
  then have run: "embed_attempt env u m content gw opn w = (case ge_embeddings res of
       [] \<Rightarrow> fail_with (GatewayFailed ''gateway returned no embedding'')
     | vector # _ \<Rightarrow> at_store (updateMemoryEmbedding (rn_gap env) (rn_time env) u m vector)) ?v"
    using assms(1) Inr by (simp add: embed_attempt_def and_then_def of_sum_def meanwhile_def undisturbed_def)
  have "sv_usage (snd (tried env u m content a gw opn w)) = sv_usage ?v \<and> sv_reservations (snd (tried env u m content a gw opn w)) = sv_reservations ?v"
    using assms(1)
    by (cases "ge_embeddings res")
      (auto dest!: at_store_frame simp: tried_def recover_def run fail_with_def record_failure_run snd_at_store undisturbed_def split: prod.split sum.split)
  then show ?thesis using Inr by (simp add: unnumbered_def billed_def usage_of_def)
qed

text \<open>
  C12. A call is billed once and holds nothing afterwards. The task ends without throwing; when it was over the cap
  the gateway was not called and nothing is billed; otherwise the ledger gains exactly one row, with the cost of
  the tokens the gateway reports, when it answered, whether or not a vector came back or landed, and none when it
  failed. The reservations are those from before.
\<close>

theorem embed_accounting:
  assumes "undisturbed env" and "user_row u (sv_auth w) \<noteq> None" and "\<forall>r \<in> set (sv_reservations w). rv_id r < sv_next w"
    and "runEmbed env u m content a gw opn budget w = (r, w')"
  shows "(\<exists>landed. r = Inr landed) \<and> sv_reservations w' = sv_reservations w \<and>
    unnumbered (sv_usage w') = unnumbered (sv_usage w) @
      (if \<exists>en e. budget = Some en \<and> assertWithinBudget (rn_fl env) (rn_outage env) (rn_time env) en u opn w = Inl e
       then [] else billed env u opn (gw [content] opn))"
proof -
  have ends: "\<exists>landed. r = Inr landed" using runEmbed_ends [of env u m content a gw opn budget w] assms(4) by simp
  have free: "sv_reservations w' = sv_reservations w \<and> unnumbered (sv_usage w') = unnumbered (sv_usage w) @ billed env u opn (gw [content] opn)"
    if "runEmbed env u m content a gw opn budget w = finally_do (tried env u m content a gw opn) (\<lambda>z. z) w"
    using tried_run [OF assms(1,2), of m content a gw opn] assms(4) that by (auto simp: finally_do_def split: prod.splits)
  show ?thesis
  proof (cases budget)
    case None
    then have "runEmbed env u m content a gw opn budget w = finally_do (tried env u m content a gw opn) (\<lambda>z. z) w"
      by (simp add: runEmbed_def tried_def releaseBudgetReservation_def done_with_def)
    with free ends None show ?thesis by simp
  next
    case (Some en)
    obtain q v where slot: "reserveBudgetSlot (rn_fl env) (rn_outage env) (\<lambda>v. v) (rn_time env) en u opn w = (q, v)" by fastforce
    then have run: "runEmbed env u m content a gw opn budget w = (case q of
        Inl e \<Rightarrow> record_failure env u m a (classifyEmbedFailure (rn_describe env e)) v
      | Inr h \<Rightarrow> finally_do (tried env u m content a gw opn) (\<lambda>z. snd (releaseBudgetReservation u h z)) v)"
      using assms(1) Some by (simp add: runEmbed_def tried_def undisturbed_def split: sum.split)
    from reserve_slot_cases [OF slot] consider
        (refused) e where "q = Inl e" "v = w" "assertWithinBudget (rn_fl env) (rn_outage env) (rn_time env) en u opn w = Inl e"
      | (fails_open) "q = Inr None" "v = w" "assertWithinBudget (rn_fl env) (rn_outage env) (rn_time env) en u opn w = Inr ()"
      | (taken) est where "q = Inr (Some (sv_next w))" "v = hold (rn_time env) u est w"
          "assertWithinBudget (rn_fl env) (rn_outage env) (rn_time env) en u opn w = Inr ()" by blast
    then show ?thesis
    proof cases
      case refused
      then have "w' = snd (at_store (recordEmbedFailure (rn_time env) u m a (classifyEmbedFailure (rn_describe env e))) w)"
        using run assms(1,4) by (simp add: record_failure_run undisturbed_def)
      then show ?thesis using ends refused Some by (simp add: snd_at_store)
    next
      case fails_open
      then have "runEmbed env u m content a gw opn budget w = finally_do (tried env u m content a gw opn) (\<lambda>z. z) w"
        using run by (simp add: releaseBudgetReservation_def done_with_def)
      with free ends fails_open Some show ?thesis by simp
    next
      case taken
      let ?z = "snd (tried env u m content a gw opn v)"
      have w': "w' = ?z\<lparr>sv_reservations := filter (\<lambda>r. \<not> (rv_user r = u \<and> rv_id r = sv_next w)) (sv_reservations ?z)\<rparr>"
        using run taken(1) assms(4)
        by (auto simp: finally_do_def releaseBudgetReservation_def best_effort_Inr releaseReservation_def split: prod.splits)
      have "user_row u (sv_auth v) \<noteq> None" using assms(2) taken(2) by (simp add: hold_def)
      note step = tried_run [OF assms(1) this, of m content a gw opn]
      have "filter (\<lambda>r. \<not> (rv_user r = u \<and> rv_id r = sv_next w)) (sv_reservations w) = sv_reservations w"
        using assms(3) by (intro filter_True) auto
      then show ?thesis using ends step taken(2,3) Some by (simp add: w' hold_def held_def)
    qed
  qed
qed

section \<open>Remember\<close>

lemma kickEmbed_ends: "\<exists>b v. kickEmbed env u m content a opts w = (Inr b, v)"
proof (cases "eo_gateway opts")
  case (Some gw)
  then show ?thesis
    using runEmbed_ends [of env u m "take MAX_EMBED_INPUT_LENGTH content" a gw
      "coalesce (eo_operation opts) EMBED_OPERATION" "eo_budget opts" w]
    by (auto simp: kickEmbed_def record_failure_run) (metis prod.collapse)
qed (auto simp: kickEmbed_def done_with_def intro: exI [of _ False])

lemma at_store_writeMemory_error:
  "at_store (writeMemory gap t now x cap facts) w = (Inl e, w') \<Longrightarrow> w' = w"
  by (auto simp: at_store_def writeMemory_def split: prod.splits dest!: withTenant_error)

text \<open>The row of a successful write is in the table it leaves.\<close>

lemma written_row:
  assumes "writeMemory gap t now x cap facts s = (Inr r, s')"
  shows "(memory_row t x)\<lparr>mem_id := wm_id r\<rparr> \<in> set (tbl_memories s')"
proof -
  from assms have "writeMemory_tx gap t now x cap facts s = Inr (r, s')"
    by (simp add: writeMemory_def withTenant_ok map_error_Inr)
  then obtain run s1 s2 s3 where app: "insertMemoryWithEvent gap t x (native_event (sessionPayload run)) cap s1 = Inr (wm_id r, s2)"
    and facts: "only_facts s2 s3" and auto: "auto_commitment t x (wm_id r) s3 = Inr (wm_commitment r, s')"
    by (rule writeMemory_tx_Inr)
  from app have "(memory_row t x)\<lparr>mem_id := wm_id r\<rparr> \<in> set (tbl_memories s2)"
    by (auto simp: insertMemoryWithEvent_Inr Let_def)
  then show ?thesis using facts auto_commitment_Inr [OF auto] by (auto simp: only_facts_def)
qed

text \<open>The guards read; they change nothing.\<close>

lemma guards_run:
  "assertWriteGuards env opts u w = (r, w') \<Longrightarrow> w' = w"
  "assertWriteGuards env opts u w = (Inr (), w') \<Longrightarrow> (\<forall>g. eo_access opts = Some g \<longrightarrow> assertWrite g u = Inr ()) \<and>
     (\<forall>en. eo_budget opts = Some en \<longrightarrow> assertWithinBudget (rn_fl env) (rn_outage env) (rn_time env) en u
        (coalesce (eo_operation opts) EMBED_OPERATION) w = Inr ())"
  by (auto simp: assertWriteGuards_def check_access_def check_budget_def and_then_def of_sum_def done_with_def
      split: prod.splits sum.splits option.splits)

lemma at_store_Inr: "at_store m w = (Inr a, w') \<longleftrightarrow> (\<exists>s. m (sv_store w) = (Inr a, s) \<and> w' = put_store s w)"
  by (auto simp: at_store_def split: prod.splits)

lemma and_then_Inl:
  "and_then m f w = (Inl e, w') \<longleftrightarrow> m w = (Inl e, w') \<or> (\<exists>a v. m w = (Inr a, v) \<and> f a v = (Inl e, w'))"
  by (auto simp: and_then_def split: prod.splits sum.splits)

lemma step_Inl:
  "done_with x w = (Inl e, w') \<longleftrightarrow> False" "meanwhile g w = (Inl e, w') \<longleftrightarrow> False"
  "meanwhile g w = (Inr (), w') \<longleftrightarrow> w' = g w" "of_sum q w = (Inl e, w') \<longleftrightarrow> q = Inl e \<and> w' = w"
  by (auto simp: done_with_def meanwhile_def of_sum_def)

lemma kickEmbed_never_fails: "kickEmbed env u m content a opts w \<noteq> (Inl e, w')"
  using kickEmbed_ends [of env u m content a opts w] by auto

lemma remember_refused:
  "remember env collate parse sha256 u input a opts w = (Inl e, w') \<Longrightarrow> w' = w \<or> w' = rn_lull env 0 w"
  unfolding remember_def
  by (auto simp: and_then_Inl step_Inl of_sum_Inr kickEmbed_never_fails split: prod.splits
      dest: guards_run(1) at_store_writeMemory_error)

lemma remember_accepted:
  assumes "remember env collate parse sha256 u input a opts w = (Inr ((written, scope), settled), w')"
  shows "\<exists>p cap clients s. parse input = Inr p \<and> resolveWriteScope collate u (ri_scope p) w = Inr scope \<and>
    assertWriteGuards env opts u w = (Inr (), w) \<and> resolveResourceLimits (eo_limits opts) u = Inr (cap, clients) \<and>
    writeMemory (rn_gap env) (rn_time env) (rn_now env) (remember_write sha256 u p scope a) cap
      (map toFactWrite (coalesce (ri_facts p) [])) (sv_store (rn_lull env 0 w)) = (Inr written, s) \<and>
    w' = snd (kickEmbed env u (wm_id written) (ri_content p) a opts (rn_lull env 4 (put_store s (rn_lull env 0 w))))"
proof -
  from assms obtain p v cap clients z where
    "parse input = Inr p" "resolveWriteScope collate u (ri_scope p) w = Inr scope"
    "assertWriteGuards env opts u w = (Inr (), v)" "resolveResourceLimits (eo_limits opts) u = Inr (cap, clients)"
    "at_store (writeMemory (rn_gap env) (rn_time env) (rn_now env) (remember_write sha256 u p scope a) cap
      (map toFactWrite (coalesce (ri_facts p) []))) (rn_lull env 0 v) = (Inr written, z)"
    "kickEmbed env u (wm_id written) (ri_content p) a opts (rn_lull env 4 z) = (Inr settled, w')"
    unfolding remember_def and_then_Inr of_sum_Inr step_Inl by (auto simp: and_then_Inr step_Inl of_sum_Inr)
  moreover from this(3) have "v = w" by (rule guards_run(1))
  moreover from calculation(6) have "w' = snd (kickEmbed env u (wm_id written) (ri_content p) a opts (rn_lull env 4 z))" by simp
  ultimately show ?thesis unfolding at_store_Inr by blast
qed

text \<open>
  C11. A refused \<open>remember\<close> leaves nothing behind: no memory, no charge, no reservation, whichever of the schema, the
  scope policy, the access gate, the budget, the resource limit or the write refused it. An accepted one lands, with
  the content and hash of its input, in the scope that was given or else the one the write policy resolved before
  anything was written, after both gates let it pass, and its result names that scope.
\<close>

theorem remember_outcome:
  assumes "remember env collate parse sha256 u input a opts w = (r, w')"
  shows "(case r of
      Inl e \<Rightarrow> w' = w \<or> w' = rn_lull env 0 w
    | Inr ((written, scope), settled) \<Rightarrow> \<exists>p cap clients s m.
        parse input = Inr p \<and> resolveWriteScope collate u (ri_scope p) w = Inr scope \<and>
        (\<forall>g. eo_access opts = Some g \<longrightarrow> assertWrite g u = Inr ()) \<and>
        (\<forall>en. eo_budget opts = Some en \<longrightarrow> assertWithinBudget (rn_fl env) (rn_outage env) (rn_time env) en u
           (coalesce (eo_operation opts) EMBED_OPERATION) w = Inr ()) \<and>
        resolveResourceLimits (eo_limits opts) u = Inr (cap, clients) \<and>
        writeMemory (rn_gap env) (rn_time env) (rn_now env) (remember_write sha256 u p scope a) cap
          (map toFactWrite (coalesce (ri_facts p) [])) (sv_store (rn_lull env 0 w)) = (Inr written, s) \<and>
        m \<in> set (tbl_memories s) \<and> mem_id m = wm_id written \<and> mem_user m = u \<and> mem_scope m = scope \<and>
        mem_content m = ri_content p \<and> mem_hash m = sha256 (ri_content p) \<and> mem_valid_to m = None)"
proof (cases r)
  case (Inl e)
  then show ?thesis using remember_refused assms by simp
next
  case (Inr x)
  obtain written scope settled where x: "x = ((written, scope), settled)" by (metis prod.collapse)
  from remember_accepted [OF assms [unfolded Inr x]] obtain p cap clients s where
    run: "parse input = Inr p" "resolveWriteScope collate u (ri_scope p) w = Inr scope"
      "assertWriteGuards env opts u w = (Inr (), w)" "resolveResourceLimits (eo_limits opts) u = Inr (cap, clients)"
      "writeMemory (rn_gap env) (rn_time env) (rn_now env) (remember_write sha256 u p scope a) cap
        (map toFactWrite (coalesce (ri_facts p) [])) (sv_store (rn_lull env 0 w)) = (Inr written, s)" by blast
  let ?m = "(memory_row (rn_time env) (remember_write sha256 u p scope a))\<lparr>mem_id := wm_id written\<rparr>"
  have "?m \<in> set (tbl_memories s)" by (rule written_row [OF run(5)])
  moreover have "mem_id ?m = wm_id written" "mem_user ?m = u" "mem_scope ?m = scope" "mem_content ?m = ri_content p"
    "mem_hash ?m = sha256 (ri_content p)" "mem_valid_to ?m = None" by (simp_all add: memory_row_def remember_write_def)
  ultimately show ?thesis
    unfolding Inr x using run guards_run(2) [OF run(3)]
    by (simp only: sum.case prod.case)
      (intro exI [of _ p] exI [of _ cap] exI [of _ clients] exI [of _ s] exI [of _ ?m] conjI; simp)
qed

text \<open>
  Acknowledged before embedded: what the caller is told does not depend on the gateway, on whether there is one,
  whether it answers or what it answers.
\<close>

lemma ack_before_embed:
  "map_sum id fst (fst (remember env collate parse sha256 u input a (opts\<lparr>eo_gateway := gw\<rparr>) w)) =
   map_sum id fst (fst (remember env collate parse sha256 u input a opts w))"
proof -
  have embed: "\<exists>b v. kickEmbed env u m content a q x = (Inr b, v)" for m content q x by (rule kickEmbed_ends)
  have same: "assertWriteGuards env (opts\<lparr>eo_gateway := gw\<rparr>) u = assertWriteGuards env opts u"
    by (simp add: assertWriteGuards_def check_access_def check_budget_def)
  have last: "map_sum id fst (fst (and_then (kickEmbed env u m content a q) (\<lambda>b. done_with (k, b)) x)) = Inr k" for m content q k x
    using embed [of m content q x] by (auto simp: and_then_def done_with_def)
  show ?thesis
    unfolding remember_def same
    by (simp add: and_then_def [of "of_sum _"] and_then_def [of "assertWriteGuards _ _ _"] and_then_def [of "\<lambda>w. (resolveWriteScope _ _ _ w, w)"]
        and_then_def [of "meanwhile _"] and_then_def [of "at_store _"] last split: sum.split prod.split)
qed

section \<open>Repair\<close>

text \<open>Every scanned row is counted once, and a pass never throws.\<close>

lemma repair_each_counts: "\<exists>yes no v. repair_each env u a opts rows w = (Inr (yes, no), v) \<and> yes + no = length rows"
proof (induction rows arbitrary: w)
  case (Cons row rows)
  obtain i content where row: "row = (i, content)" by fastforce
  obtain b v where b: "kickEmbed env u i content a opts w = (Inr b, v)" using kickEmbed_ends by blast
  from Cons [of v] b show ?case by (auto simp: row and_then_def done_with_def)
qed (simp add: done_with_def)

lemma repair_accounts_for_every_row:
  assumes "eo_gateway opts \<noteq> None"
  shows "\<exists>scanned landed failed v. retryFailedEmbeds env u opts limit actor w = (Inr (scanned, landed, failed), v) \<and>
    scanned = landed + failed \<and> scanned \<le> coalesce limit DEFAULT_REPAIR_LIMIT"
proof -
  let ?rows = "listEmbedFailedMemories u (coalesce limit DEFAULT_REPAIR_LIMIT) (sv_store w)"
  obtain yes no v where "repair_each env u (coalesce actor SystemActor) opts ?rows w = (Inr (yes, no), v)" "yes + no = length ?rows"
    using repair_each_counts by blast
  then show ?thesis using assms
    by (auto simp: retryFailedEmbeds_def and_then_def done_with_def listEmbedFailedMemories_def)
qed

section \<open>Seeding an account\<close>

definition has_live :: "uid \<Rightarrow> string \<Rightarrow> store \<Rightarrow> bool" where
  "has_live u h s \<longleftrightarrow> (\<exists>m \<in> set (tbl_memories s). mem_user m = u \<and> live_with_hash h m)"

lemma attach_open_returns: "\<exists>r s'. resolveSessionProvenance no_gap u RunOmitted project now s = Inr (r, s') \<and> tbl_memories s' = tbl_memories s"
proof -
  have "\<exists>r s'. resolveSessionProvenance no_gap u RunOmitted project now s = Inr (r, s')"
    by (auto simp: resolveSessionProvenance_def attachSingleOpen_def heartbeat_def update_sessions_def bind_tx_def query_def
        ret_def Let_def wait_for_def no_gap_def split: list.split)
  then obtain r s' where run: "resolveSessionProvenance no_gap u RunOmitted project now s = Inr (r, s')" by blast
  moreover have "only_sessions s s'" by (rule withinD [OF only_sessions_resolve run])
  ultimately show ?thesis by (auto dest: only_sessionsD)
qed

lemma duplicate_refused:
  assumes "has_live (mw_user x) (mw_hash x) s" and "mw_run x = RunOmitted" and "mw_valid_to x = None"
  shows "writeMemory no_gap t now x cap facts s = (Inl (DuplicateMemory (mw_hash x)), s)"
proof -
  obtain r s1 where prov: "resolveSessionProvenance no_gap (mw_user x) RunOmitted (mw_project x) now s = Inr (r, s1)"
    and mems: "tbl_memories s1 = tbl_memories s" using attach_open_returns by blast
  obtain m where "m \<in> set (tbl_memories s1)" "mem_user m = mw_user x" "live_with_hash (mw_hash x) m"
    using assms(1) mems by (auto simp: has_live_def)
  then have "find_row (\<lambda>m. mem_user m = mw_user x \<and> live_with_hash (mw_hash x) m) (tbl_memories s1) \<noteq> None"
    by (auto simp: find_row_None)
  then have "duplicate_guard x s1 = Inl (DuplicateMemory (mw_hash x))"
    using assms(3) by (auto simp: duplicate_guard_def select_memory_def throw_def)
  then have "insertMemoryWithEvent no_gap t x ev cap s1 = Inl (DuplicateMemory (mw_hash x))" for ev
    by (simp add: insertMemoryWithEvent_def bind_tx_def ret_def no_gap_def wait_for_def)
  then show ?thesis
    using prov assms(2)
    by (simp add: writeMemory_def withTenant_def run_tx_def map_error_def writeMemory_tx_def bind_tx_def duplicate_of_def)
qed

text \<open>The embedding task keeps a live hash live, and the registry as it is.\<close>

lemma has_live_image:
  "has_live u h s \<longleftrightarrow> (u, h, None) \<in> (\<lambda>m. (mem_user m, mem_hash m, mem_valid_to m)) ` set (tbl_memories s)"
  by (auto simp: has_live_def live_with_hash_def)

lemma has_live_update:
  "has_live u h (s\<lparr>tbl_memories := sql_update p (embed_row t v) (tbl_memories s)\<rparr>) = has_live u h s"
proof -
  have "map (\<lambda>m. (mem_user m, mem_hash m, mem_valid_to m)) (sql_update p (embed_row t v) (tbl_memories s)) =
      map (\<lambda>m. (mem_user m, mem_hash m, mem_valid_to m)) (tbl_memories s)"
    by (rule sql_update_cong_key) (simp add: embed_row_def)
  from map_eq_image [OF this] show ?thesis by (simp add: has_live_image)
qed

lemma has_live_embed:
  assumes "has_live u h s"
  shows "has_live u h (snd (recordEmbedFailure t u' m a reason s))" and "has_live u h (snd (updateMemoryEmbedding no_gap t u' m v s))"
proof -
  show "has_live u h (snd (recordEmbedFailure t u' m a reason s))"
    using assms by (auto simp: recordEmbedFailure_def withTenant_def run_tx_def recordEmbedFailure_tx_def bind_tx_def
        insert_event_def Let_def ret_def has_live_def)
  show "has_live u h (snd (updateMemoryEmbedding no_gap t u' m v s))"
    using assms
    by (simp add: updateMemoryEmbedding_def withTenant_def run_tx_def updateMemoryEmbedding_tx_def bind_tx_def wait_for_def no_gap_def
        update_memories_def Let_def ret_def has_live_update)
qed

definition seeded_step :: "uid \<Rightarrow> string \<Rightarrow> service_db \<Rightarrow> service_db \<Rightarrow> bool" where
  "seeded_step u h w v \<longleftrightarrow> sv_scopes v = sv_scopes w \<and> (has_live u h (sv_store w) \<longrightarrow> has_live u h (sv_store v))"

interpretation seeding: svc_preorder "seeded_step u h" for u h
  by unfold_locales (auto simp: seeded_step_def)

lemma seeded_at_store:
  "(\<And>s. has_live u h s \<Longrightarrow> has_live u h (snd (m s))) \<Longrightarrow> keeps (seeded_step u h) (at_store m)"
  by (auto simp: keeps_def seeded_step_def at_store_def split: prod.split) (metis snd_conv)

lemma seeded_frame:
  "sv_scopes v = sv_scopes w \<Longrightarrow> sv_auth v = sv_auth w \<Longrightarrow> seeded_step u h w v"
  by (simp add: seeded_step_def sv_store_def)

lemma seeded_tasks:
  assumes "undisturbed env" and "rn_gap env = no_gap"
  shows "keeps (seeded_step u h) (record_failure env u' m a reason)"
    and "keeps (seeded_step u h) (embed_attempt env u' m content gw opn)"
    and "keeps (seeded_step u h) (\<lambda>w. case budget of None \<Rightarrow> (Inr None, w)
       | Some en \<Rightarrow> reserveBudgetSlot (rn_fl env) (rn_outage env) (rn_wait env) (rn_time env) en u' opn w)"
proof -
  have lull: "seeded_step u h w (rn_lull env k w)" for k w using assms(1) by (simp add: undisturbed_def seeded_frame)
  show "keeps (seeded_step u h) (record_failure env u' m a reason)"
    unfolding record_failure_def
    by (intro seeding.keeps_basics seeding.keeps_meanwhile seeded_at_store has_live_embed lull)
  have "keeps (seeded_step u h) (recordEmbedUsage env u' opn res)" for res
    by (auto simp: keeps_def recordEmbedUsage_def best_effort_def insertLlmUsage_def insert_usage_def run_tx_def intro!: seeded_frame)
  then show "keeps (seeded_step u h) (embed_attempt env u' m content gw opn)"
    unfolding embed_attempt_def assms(2)
    by (intro seeding.keeps_basics seeding.keeps_meanwhile lull)
      (auto intro!: seeding.keeps_basics seeded_at_store has_live_embed split: list.split)
  show "keeps (seeded_step u h) (\<lambda>w. case budget of None \<Rightarrow> (Inr None, w)
       | Some en \<Rightarrow> reserveBudgetSlot (rn_fl env) (rn_outage env) (rn_wait env) (rn_time env) en u' opn w)"
    unfolding keeps_def
  proof
    fix w
    show "seeded_step u h w (snd (case budget of None \<Rightarrow> (Inr None, w)
       | Some en \<Rightarrow> reserveBudgetSlot (rn_fl env) (rn_outage env) (rn_wait env) (rn_time env) en u' opn w))"
    proof (cases budget)
      case (Some en)
      obtain q v where slot: "reserveBudgetSlot (rn_fl env) (rn_outage env) (\<lambda>v. v) (rn_time env) en u' opn w = (q, v)" by fastforce
      from reserve_slot_cases [OF slot] have "seeded_step u h w v" by (auto simp: hold_def intro: seeded_frame)
      then show ?thesis using Some slot assms(1) by (simp add: undisturbed_def)
    qed (simp add: seeded_frame)
  qed
qed

lemma seeded_kickEmbed:
  assumes "undisturbed env" and "rn_gap env = no_gap"
  shows "keeps (seeded_step u h) (kickEmbed env u' m content a opts)"
proof -
  have rel: "seeded_step u h w (snd (releaseBudgetReservation u' k w))" for k w
    by (auto simp: releaseBudgetReservation_def releaseReservation_def best_effort_def done_with_def intro!: seeded_frame split: option.split)
  show ?thesis
    unfolding kickEmbed_def runEmbed_def
    by (intro seeding.keeps_option seeding.keeps_if seeding.keeps_basic seeding.keeps_outcome seeding.keeps_finally
        seeding.keeps_recover seeded_tasks [OF assms] rel)
qed

text \<open>Registering a default scope: the first time it appears, afterwards nothing happens.\<close>

lemma registered_keys: "n \<in> registered u w \<longleftrightarrow> (u, n) \<in> scope_key ` set (sv_scopes w)"
  by (auto simp: registered_def named_def scope_key_def)

definition new_scope :: "instant \<Rightarrow> uid \<Rightarrow> string \<Rightarrow> service_db \<Rightarrow> scope_row" where
  "new_scope t u n w = \<lparr>sc_id = sv_next w, sc_user = u, sc_name = n, sc_aliases = [], sc_created = t\<rparr>"

lemma createScope_db_run:
  "createScope_db (\<lambda>_ w. w) t u n [] w =
     (if n \<in> registered u w then Inl (ScopeNameConflict n)
      else if user_row u (sv_auth w) = None then Inl ForeignKeyViolation
      else Inr (toScopeRow (new_scope t u n w), w\<lparr>sv_scopes := sv_scopes w @ [new_scope t u n w], sv_next := Suc (sv_next w)\<rparr>))"
  by (simp add: createScope_db_def map_error_def insert_scope_def Let_def name_taken_def registered_keys new_scope_def scope_key_def)

lemma create_default_again:
  "n \<in> registered u w \<Longrightarrow> create_default_scope (\<lambda>_ w. w) t u n w = (Inr (), w)"
  by (simp add: create_default_scope_def seed_errors recover_def and_then_def createScope_def createScope_db_run run_tx_def done_with_def)

lemma create_default_ok:
  assumes "create_default_scope (\<lambda>_ w. w) t u n w = (Inr (), v)"
  shows "n \<in> registered u v" and "registered u w \<subseteq> registered u v"
proof -
  have "n \<in> registered u v \<and> registered u w \<subseteq> registered u v"
  proof (cases "createScope (\<lambda>_ w. w) t u n [] w")
    case (Pair r z)
    show ?thesis
    proof (cases r)
      case (Inr x)
      then have run: "createScope_db (\<lambda>_ w. w) t u n [] w = Inr (x, z)" using Pair by (simp add: createScope_def run_tx_ok)
      have "v = z" using assms Pair Inr by (simp add: create_default_scope_def recover_def and_then_def done_with_def)
      moreover obtain y where "scope_key y = (u, n)" "sv_scopes z = sv_scopes w @ [y]"
        using createScope_db_ret [OF run] by auto
      ultimately show ?thesis by (auto simp: registered_def named_def scope_key_def)
    next
      case (Inl e)
      then have "createScope_db (\<lambda>_ w. w) t u n [] w = Inl e" "z = w" using Pair by (auto simp: createScope_def run_tx_Inl)
      moreover from this(1) have "e = ScopeNameConflict n \<Longrightarrow> n \<in> registered u w"
        by (auto simp: createScope_db_run registered_keys split: if_splits)
      moreover have "e = ScopeNameConflict n \<or> e = ForeignKeyViolation"
        using calculation(1) by (simp add: createScope_db_run split: if_splits)
      ultimately show ?thesis
        using assms Pair Inl by (auto simp: create_default_scope_def seed_errors recover_def and_then_def done_with_def fail_with_def)
    qed
  qed
  then show "n \<in> registered u v" "registered u w \<subseteq> registered u v" by simp_all
qed

lemma default_scopes_ok:
  assumes "for_services (create_default_scope (\<lambda>_ w. w) t u) ns w = (Inr (), v)"
  shows "set ns \<subseteq> registered u v \<and> registered u w \<subseteq> registered u v"
  using assms
proof (induction ns arbitrary: w)
  case (Cons n ns)
  then obtain z where first: "create_default_scope (\<lambda>_ w. w) t u n w = (Inr (), z)"
    and rest: "for_services (create_default_scope (\<lambda>_ w. w) t u) ns z = (Inr (), v)" by (auto simp: and_then_Inr)
  from Cons.IH [OF rest] create_default_ok [OF first] show ?case by auto
qed simp

lemma default_scopes_again:
  "set ns \<subseteq> registered u w \<Longrightarrow> for_services (create_default_scope (\<lambda>_ w. w) t u) ns w = (Inr (), w)"
  by (induction ns) (simp_all add: done_with_def and_then_def create_default_again)

lemma guards_pass:
  assumes "\<forall>g. eo_access opts = Some g \<longrightarrow> assertWrite g u = Inr ()"
    and "\<forall>en. eo_budget opts = Some en \<longrightarrow> assertWithinBudget (rn_fl env) (rn_outage env) (rn_time env) en u
        (coalesce (eo_operation opts) EMBED_OPERATION) w = Inr ()"
  shows "assertWriteGuards env opts u w = (Inr (), w)"
  using assms by (auto simp: assertWriteGuards_def check_access_def check_budget_def and_then_def of_sum_def done_with_def split: option.split)

text \<open>Remembering the same content again.\<close>

lemma remember_duplicate:
  assumes "undisturbed env" and "rn_gap env = no_gap" and "parse input = Inr p" and "ri_run p = RunOmitted"
    and "resolveWriteScope collate u (ri_scope p) w = Inr scope" and "assertWriteGuards env opts u w = (Inr (), w)"
    and "resolveResourceLimits (eo_limits opts) u = Inr (cap, clients)" and "has_live u (sha256 (ri_content p)) (sv_store w)"
  shows "remember env collate parse sha256 u input a opts w = (Inl (DuplicateMemory (sha256 (ri_content p))), w)"
proof -
  let ?x = "remember_write sha256 u p scope a"
  have "has_live (mw_user ?x) (mw_hash ?x) (sv_store w)" "mw_run ?x = RunOmitted" "mw_valid_to ?x = None"
    using assms(4,8) by (simp_all add: remember_write_def)
  from duplicate_refused [OF this] show ?thesis
    using assms(1-7)
    by (simp add: remember_def and_then_def of_sum_def meanwhile_def undisturbed_def at_store_def remember_write_def)
qed

text \<open>
  C20. Seeding a verified account is idempotent: once it has run, running it again, as a retry after a failure at
  verification does, reports that the seed is there and changes nothing: no second welcome memory, no second
  scope, no embedding call and no ledger row.
\<close>

theorem provision_idempotent:
  assumes "provisionVerifiedAccount env (\<lambda>_ w. w) collate sha256 u opts w = (Inr x, w')"
    and "undisturbed env" and "rn_gap env = no_gap"
    and "\<forall>en. eo_budget opts = Some en \<longrightarrow> assertWithinBudget (rn_fl env) (rn_outage env) (rn_time env) en u
        (coalesce (eo_operation opts) EMBED_OPERATION) w' = Inr ()"
  shows "provisionVerifiedAccount env (\<lambda>_ w. w) collate sha256 u opts w' = (Inr SeedExists, w') \<and>
    set DEFAULT_SCOPES \<subseteq> set (map sr_name (listScopes collate u w'))"
proof -
  let ?seed = "remember env collate Inr sha256 u WELCOME_MEMORY SystemActor opts"
  from assms(1) obtain v where scopes: "for_services (create_default_scope (\<lambda>_ w. w) (rn_time env) u) DEFAULT_SCOPES w = (Inr (), v)"
    and seed: "recover (and_then ?seed (\<lambda>_. done_with SeedCreated))
       (\<lambda>e. if is_duplicate e then done_with SeedExists else fail_with e) v = (Inr x, w')"
    by (auto simp: provisionVerifiedAccount_def and_then_Inr)
  note names = default_scopes_ok [OF scopes, THEN conjunct1]
  have again: "provisionVerifiedAccount env (\<lambda>_ w. w) collate sha256 u opts w' = (Inr SeedExists, w') \<and>
      set DEFAULT_SCOPES \<subseteq> set (map sr_name (listScopes collate u w'))"
    if "sv_scopes w' = sv_scopes v" and "?seed w' = (Inl (DuplicateMemory h), w')" for h
  proof -
    have "set DEFAULT_SCOPES \<subseteq> registered u w'" using names that(1) by (simp add: registered_def)
    with that(2) listed_names [of _ collate u w'] show ?thesis
      by (auto simp: provisionVerifiedAccount_def seed_errors and_then_def default_scopes_again recover_def done_with_def)
  qed
  obtain r z where run: "?seed v = (r, z)" by fastforce
  show ?thesis
  proof (cases r)
    case (Inl e)
    then have "z = v" using remember_refused [of env collate Inr sha256 u WELCOME_MEMORY SystemActor opts v e z] run assms(2)
      by (auto simp: undisturbed_def)
    moreover from this seed run Inl obtain h where "e = DuplicateMemory h" "w' = v"
      by (auto simp: recover_def seed_errors and_then_def done_with_def fail_with_def split: if_splits)
    ultimately show ?thesis using again run Inl by simp
  next
    case (Inr y)
    then have w': "w' = z" using seed run by (simp add: recover_def and_then_def done_with_def)
    obtain written scope settled where "y = ((written, scope), settled)" by (metis prod.collapse)
    from remember_accepted [OF run [unfolded Inr this]] obtain cap clients s where
      scope: "resolveWriteScope collate u (ri_scope WELCOME_MEMORY) v = Inr scope"
      and guards: "assertWriteGuards env opts u v = (Inr (), v)" and lims: "resolveResourceLimits (eo_limits opts) u = Inr (cap, clients)"
      and wrote: "writeMemory (rn_gap env) (rn_time env) (rn_now env) (remember_write sha256 u WELCOME_MEMORY scope SystemActor) cap
        (map toFactWrite (coalesce (ri_facts WELCOME_MEMORY) [])) (sv_store (rn_lull env 0 v)) = (Inr written, s)"
      and z: "z = snd (kickEmbed env u (wm_id written) (ri_content WELCOME_MEMORY) SystemActor opts
        (rn_lull env 4 (put_store s (rn_lull env 0 v))))" by blast
    have "has_live u (sha256 (ri_content WELCOME_MEMORY)) s"
      using written_row [OF wrote] by (force simp: has_live_def live_with_hash_def memory_row_def remember_write_def)
    then have live: "sv_scopes z = sv_scopes v" "has_live u (sha256 (ri_content WELCOME_MEMORY)) (sv_store z)"
      using seeded_kickEmbed [OF assms(2,3), unfolded keeps_def seeded_step_def] assms(2)
      by (simp_all add: z undisturbed_def)
    have "assertWriteGuards env opts u z = (Inr (), z)"
      using guards_run(2) [OF guards] assms(4) w' by (intro guards_pass) auto
    moreover have "resolveWriteScope collate u (ri_scope WELCOME_MEMORY) z = Inr scope"
      using scope by (simp add: WELCOME_MEMORY_def resolveWriteScope_def)
    ultimately have "?seed z = (Inl (DuplicateMemory (sha256 (ri_content WELCOME_MEMORY))), z)"
      using lims live(2) by (intro remember_duplicate [OF assms(2,3)]) (auto simp: WELCOME_MEMORY_def)
    with live(1) w' show ?thesis using again [of "sha256 (ri_content WELCOME_MEMORY)"] by simp
  qed
qed

end
