(* ===== verification/ServiceScenario.thy ===== *)
theory ServiceScenario
  imports AccountScenario WriteServiceTheorems
begin

text \<open>
  The witnesses of the scope, budget and write-service properties: Ada's account of \<open>AccountScenario\<close> with two
  registered scopes, an explicit budget window and one plan. Doubles are exact here (\<open>\<lambda>x. x\<close>).
\<close>

declare One_nat_def [simp del]

section \<open>Scopes and policies\<close>

definition sv0 :: service_db where
  "sv0 = \<lparr>sv_auth = acc0, sv_scopes = [], sv_usage = [], sv_budgets = [], sv_tiers = [], sv_reservations = [], sv_next = 0\<rparr>"

definition sv1 :: service_db where "sv1 = snd (createScope (\<lambda>_ w. w) 500 1 ''work'' [] sv0)"

definition defaulted :: "(err + scope_mode \<times> string option) \<times> service_db" where
  "defaulted = setWriteDefault (\<lambda>_ w. w) (length :: string \<Rightarrow> nat) 600 1 ScopeDefault (Some ''work'') sv1"

definition sv2 :: service_db where "sv2 = snd defaulted"

theorem defaults_are_registered_witness:
  "settings {} sv0 sv2 \<and> resolveWriteScope length 1 None sv2 = Inr ''work'' \<and>
   ''work'' \<in> set (map sr_name (listScopes length 1 sv2))"
proof -
  have "setting {} sv0 sv1" unfolding sv1_def by (rule set_create) (rule settings_done)
  moreover have "setting {} sv1 sv2"
    unfolding sv2_def defaulted_def by (rule set_write) (auto intro: settings_done)
  ultimately have reach: "settings {} sv0 sv2" by (blast intro: settings_step settings_done)
  have ok: "settings_ok sv0" by code_simp
  have coh: "coherent u sv0" for u
    by (simp add: coherent_def defaults_def retrieval_default_def write_default_def active_def sv0_def acc0_def)
  have lands: "resolveWriteScope (length :: string \<Rightarrow> nat) 1 None sv2 = Inr ''work''" by code_simp
  have "''work'' \<noteq> UNPOLICIED_WRITE_SCOPE" by (simp add: UNPOLICIED_WRITE_SCOPE_def)
  with defaults_are_registered [OF reach ok coh, of "length :: string \<Rightarrow> nat"] lands reach show ?thesis by blast
qed

theorem write_round_trip_witness:
  "resolveWriteScope (length :: string \<Rightarrow> nat) 1 (Some ''home'') sv2 = Inr ''home'' \<and>
   resolveWriteScope (length :: string \<Rightarrow> nat) 1 None sv2 = Inr ''work''"
proof -
  have "fst defaulted = Inr (ScopeDefault, Some ''work'')" by code_simp
  then have "setWriteDefault (\<lambda>_ w. w) (length :: string \<Rightarrow> nat) 600 1 ScopeDefault (Some ''work'') sv1 = (Inr (ScopeDefault, Some ''work''), sv2)"
    unfolding sv2_def defaulted_def by (metis prod.collapse)
  from write_round_trip [OF this, of "''home''"] show ?thesis by simp
qed

definition deleted :: "(err + unit) \<times> service_db" where
  "deleted = deleteScope (\<lambda>_ w. w) 700 1 ''work'' sv2"

theorem delete_fails_closed_witness:
  "resolveWriteScope (length :: string \<Rightarrow> nat) 1 None (snd deleted) = Inl (UnscopedWrite [])"
proof -
  have "fst deleted = Inr ()" by code_simp
  then have run: "deleteScope (\<lambda>_ w. w) 700 1 ''work'' sv2 = (Inr (), snd deleted)"
    unfolding deleted_def by (metis prod.collapse)
  have was: "setting_of (getWriteScopePolicy 1 sv2) = (ScopeDefault, Some ''work'')" by code_simp
  have "map sr_name (listScopes (length :: string \<Rightarrow> nat) 1 sv2) = [''work'']" by code_simp
  with delete_fails_closed [OF run, of "length :: string \<Rightarrow> nat"] was show ?thesis by simp
qed

theorem recovery_detail_witness:
  "length (formatUnscopedWriteDetail (replicate 40 (replicate 64 (CHR ''a'')))) \<le> 512"
proof -
  have "length (replicate 40 (replicate 64 (CHR ''a''))) < 2 ^ 32" by simp
  from recovery_detail_bounded [OF this] show ?thesis by (simp add: MAX_REST_ERROR_DETAIL_LENGTH_def)
qed

section \<open>The budget\<close>

text \<open>A window from 0 to 1000 with a cap of one dollar; one call reserves three quarters and spends half.\<close>

definition bg0 :: service_db where
  "bg0 = sv0\<lparr>sv_budgets := [\<lparr>ub_user = 1, ub_cap = Some 1, ub_start = Some 0, ub_end = Some 1000, ub_updated = 0\<rparr>]\<rparr>"

definition exact :: rounding where "exact x = x"

lemma exact_rounds: "rounds 0 exact"
  by (simp add: rounds_def exact_def)

definition bg1 :: service_db where
  "bg1 = snd (reserveBudget exact (\<lambda>v. v) 100 1 None 30 5 (3 / 4) 0 bg0)"

definition spent :: usage_write where
  "spent = \<lparr>uw_operation = ''memory.embed'', uw_model = ''m'', uw_input = 1, uw_output = 0, uw_cost = Some (1 / 2)\<rparr>"

definition bg2 :: service_db where "bg2 = snd (insertLlmUsage 110 1 spent bg1)"

lemma budget_bg0: "budget_of 1 bg0 = Some \<lparr>ub_user = 1, ub_cap = Some 1, ub_start = Some 0, ub_end = Some 1000, ub_updated = 0\<rparr>"
  by (simp add: budget_of_def bg0_def find_row_Cons)

lemma ada_there: "user_row 1 (sv_auth bg0) = Some ada"
  by code_simp

lemma toFixed12_quarters: "toFixed12 (3 / 4) = 3 / 4" "toFixed12 (1 / 2) = 1 / 2"
  by (simp_all add: toFixed12_def round_def floor_eq_iff)

lemma bg1_eval: "bg1 = bg0\<lparr>sv_reservations := [\<lparr>rv_id = 0, rv_user = 1, rv_cost = 3 / 4, rv_created = 100\<rparr>], sv_next := 1\<rparr>"
  using ada_there
  by (simp add: bg1_def reserveBudget_run Let_def gate_total_def effective_cap_def budget_bg0 window_of_def explicit_window_def
      coalesce_def exact_def hold_def held_def toFixed12_quarters)
    (simp add: bg0_def sv0_def usage_in_def priced_sum_def unpriced_count_def sumActiveReservations_def active_reservations_def
      reserved_sum_def exact_def One_nat_def)

theorem spend_stays_under_the_cap_witness:
  "spending exact 1 (0, 1000) 1 0 30 bg0 {0} bg2 \<and> charge 0 (usage_in 1 (0, 1000) bg2) \<le> 1 + 1 / (2 * 10 ^ 12)"
proof -
  have cap: "effective_cap exact 1 None 5 bg0 \<le> 1" by (simp add: effective_cap_def budget_bg0 coalesce_def exact_def)
  have "spending exact 1 (0, 1000) 1 0 30 bg0 {} bg1"
    unfolding bg1_def
    by (rule sp_reserve [OF sp_start _ cap]) (simp_all add: bg0_def sv0_def)
  moreover have "\<lparr>rv_id = 0, rv_user = 1, rv_cost = 3 / 4, rv_created = 100\<rparr> \<in> set (sv_reservations bg1)"
    by (simp add: bg1_eval)
  ultimately have "spending exact 1 (0, 1000) 1 0 30 bg0 (insert (rv_id \<lparr>rv_id = 0, rv_user = 1, rv_cost = 3 / 4, rv_created = 100\<rparr>) {}) bg2"
    unfolding bg2_def by (rule sp_spend [where c = "1 / 2"]) (simp_all add: spent_def toFixed12_quarters)
  then have run: "spending exact 1 (0, 1000) 1 0 30 bg0 {0} bg2" by simp
  have "explicit_window (budget_of 1 bg0) = Some (0, 1000)"
    by (simp add: budget_bg0 explicit_window_def sql_of_date_def date_of_sql_def)
  moreover have "costs_ok bg0" "mine 1 bg0 = []" "charge 0 (usage_in 1 (0, 1000) bg0) \<le> 1"
    by (simp_all add: costs_ok_def mine_def charge_def usage_in_def priced_sum_def bg0_def sv0_def)
  ultimately show ?thesis using spend_stays_under_the_cap [OF run exact_rounds] run by simp
qed

text \<open>
  Without a window: three quarters are spent after the second request has started and before it holds the lock. It
  is granted half a dollar all the same, under a cap of one.
\<close>

definition late_row :: ledger_row where
  "late_row = \<lparr>lu_id = 9, lu_user = 1, lu_operation = ''search'', lu_model = ''m'', lu_input = 1, lu_output = 0,
     lu_cost = Some (3 / 4), lu_created = 101\<rparr>"

theorem waiting_spend_witness:
  "fst (reserveBudget exact (\<lambda>v. v\<lparr>sv_usage := sv_usage v @ [late_row]\<rparr>) 100 1 None 30 1 (1 / 2) 0 sv0) = Inr (Some 0) \<and>
   (1 :: rat) < 3 / 4 + 1 / 2"
proof -
  have "explicit_window (budget_of 1 sv0) = None" by (simp add: budget_of_def sv0_def explicit_window_def)
  moreover have "\<forall>x \<in> set [late_row]. 100 \<le> lu_created x" by (simp add: late_row_def)
  ultimately have same: "fst (reserveBudget exact (\<lambda>v. v\<lparr>sv_usage := sv_usage v @ [late_row]\<rparr>) 100 1 None 30 1 (1 / 2) 0 sv0) =
      fst (reserveBudget exact (\<lambda>v. v) 100 1 None 30 1 (1 / 2) 0 sv0)"
    by (rule waiting_spend_is_invisible [where gap = "\<lambda>v. v"])
  have "user_row 1 (sv_auth sv0) = Some ada" by code_simp
  then have "fst (reserveBudget exact (\<lambda>v. v) 100 1 None 30 1 (1 / 2) 0 sv0) = Inr (Some 0)"
    by (simp add: reserveBudget_run Let_def gate_total_def effective_cap_def budget_of_def window_of_def explicit_window_def
        coalesce_def exact_def)
      (simp add: sv0_def usage_in_def priced_sum_def unpriced_count_def sumActiveReservations_def active_reservations_def
        reserved_sum_def exact_def)
  with same show ?thesis by simp
qed

section \<open>The write services\<close>

definition sv_env :: run_env where
  "sv_env = \<lparr>rn_fl = exact, rn_outage = False, rn_gap = no_gap, rn_wait = (\<lambda>w. w), rn_lull = (\<lambda>_ w. w), rn_time = 1000, rn_now = 1,
     rn_describe = (\<lambda>_. NonError ''e'')\<rparr>"

definition sv_gateway :: embed_gateway where
  "sv_gateway texts key = Inr \<lparr>ge_embeddings = [[''1'']], ge_tokens = 8, ge_model = ''own-model''\<rparr>"

definition sv_options :: embed_options where
  "sv_options = \<lparr>eo_gateway = Some sv_gateway, eo_operation = None, eo_budget = None, eo_access = Some allowAllAccess, eo_limits = None\<rparr>"

definition parsed :: remember_input where
  "parsed = \<lparr>ri_type = Note, ri_topic = ''t'', ri_content = ''hello'', ri_scope = None, ri_project = None, ri_tags = [],
     ri_run = RunNull, ri_due_at = None, ri_owner = None, ri_facts = None\<rparr>"

lemma sv_env_quiet: "undisturbed sv_env" "rn_gap sv_env = no_gap"
  by (simp_all add: undisturbed_def sv_env_def)

definition embedded :: "(err + bool) \<times> service_db" where
  "embedded = runEmbed sv_env 1 7 ''hello'' UserMcp sv_gateway ''memory.embed'' None sv0"

theorem embed_accounting_witness:
  "length (sv_usage (snd embedded)) = 1 \<and> sv_reservations (snd embedded) = []"
proof -
  have "user_row 1 (sv_auth sv0) = Some ada" by code_simp
  then have ada: "user_row 1 (sv_auth sv0) \<noteq> None" by simp
  have ids: "\<forall>r \<in> set (sv_reservations sv0). rv_id r < sv_next sv0" by (simp add: sv0_def)
  have run: "runEmbed sv_env 1 7 ''hello'' UserMcp sv_gateway ''memory.embed'' None sv0 = (fst embedded, snd embedded)"
    by (simp add: embedded_def)
  from embed_accounting [OF sv_env_quiet(1) ada ids run]
  have rest: "sv_reservations (snd embedded) = sv_reservations sv0"
    and rows: "unnumbered (sv_usage (snd embedded)) = unnumbered (sv_usage sv0) @ billed sv_env 1 ''memory.embed'' (sv_gateway [''hello''] ''memory.embed'')"
    by simp_all
  from rest arg_cong [OF rows, of length] show ?thesis by (simp add: unnumbered_def billed_def sv_gateway_def sv0_def)
qed

definition remembered_sv :: "(err + ((written_memory \<times> string) \<times> bool)) \<times> service_db" where
  "remembered_sv = remember sv_env (length :: string \<Rightarrow> nat) Inr ((@) ''h:'') 1 parsed UserMcp sv_options sv2"

theorem remember_outcome_witness:
  "\<exists>written (s :: store) m. fst remembered_sv = Inr ((written, ''work''), True) \<and> m \<in> set (tbl_memories s) \<and> mem_id m = wm_id written \<and>
     mem_scope m = ''work'' \<and> mem_hash m = ''h:hello''"
proof -
  have "isl (fst remembered_sv) = False" "snd (fst (projr (fst remembered_sv))) = ''work''" "snd (projr (fst remembered_sv)) = True"
    by code_simp+
  then obtain written where r: "fst remembered_sv = Inr ((written, ''work''), True)"
    by (cases "fst remembered_sv") auto
  then have "remember sv_env (length :: string \<Rightarrow> nat) Inr ((@) ''h:'') 1 parsed UserMcp sv_options sv2 = (Inr ((written, ''work''), True), snd remembered_sv)"
    unfolding remembered_sv_def by (metis prod.collapse)
  from remember_outcome [OF this] obtain p s m where p: "(Inr parsed :: err + remember_input) = Inr p"
    and row: "m \<in> set (tbl_memories (s :: store))" "mem_id m = wm_id written" "mem_scope m = ''work''" and hash: "mem_hash m = ''h:'' @ ri_content p"
    unfolding sum.case prod.case by (elim exE conjE) (rule that; assumption)
  from p hash have "mem_hash m = ''h:hello''" by (auto simp: parsed_def)
  with r row show ?thesis by blast
qed

text \<open>A deployment without an embedding gateway seeds all the same.\<close>

definition unembedded :: embed_options where "unembedded = sv_options\<lparr>eo_gateway := None\<rparr>"

definition seeded :: "(err + provisioned) \<times> service_db" where
  "seeded = provisionVerifiedAccount sv_env (\<lambda>_ w. w) (length :: string \<Rightarrow> nat) ((@) ''h:'') 1 unembedded sv0"

theorem provision_witness:
  "fst seeded = Inr SeedCreated \<and>
   provisionVerifiedAccount sv_env (\<lambda>_ w. w) (length :: string \<Rightarrow> nat) ((@) ''h:'') 1 unembedded (snd seeded) = (Inr SeedExists, snd seeded)"
proof -
  have r: "fst seeded = Inr SeedCreated" by code_simp
  then have run: "provisionVerifiedAccount sv_env (\<lambda>_ w. w) (length :: string \<Rightarrow> nat) ((@) ''h:'') 1 unembedded sv0 = (Inr SeedCreated, snd seeded)"
    unfolding seeded_def by (metis prod.collapse)
  have "\<forall>en. eo_budget unembedded = Some en \<longrightarrow> assertWithinBudget (rn_fl sv_env) (rn_outage sv_env) (rn_time sv_env) en 1
      (coalesce (eo_operation unembedded) EMBED_OPERATION) (snd seeded) = Inr ()" by (simp add: unembedded_def sv_options_def)
  from provision_idempotent [OF run sv_env_quiet this] r show ?thesis by simp
qed

end
