(* ===== verification/KeysetPaging.thy ===== *)
theory KeysetPaging
  imports Prelude "HOL-Library.Product_Lexorder"
begin

text \<open>
  Keyset pagination, shared by the chronological listing, the ranked search and the proposal review: a page is the
  first rows strictly after a position in a total order, and says whether there are more. The locale
  \<open>keyset_source\<close> is what such a source promises about each page it reads; inside it, a walk that follows the
  positions is compared with the listing, also when the rows change between two pages.
\<close>

definition later :: "'k::linorder option \<Rightarrow> 'k \<Rightarrow> bool" where
  "later after k \<longleftrightarrow> (case after of None \<Rightarrow> True | Some a \<Rightarrow> a < k)"

text \<open>The pages of one walk: each is read in some state, from the position the page before it ended at.\<close>

inductive walks :: "('s \<Rightarrow> 'c option \<Rightarrow> 'r list \<times> 'c option \<times> bool) \<Rightarrow> 'c option \<Rightarrow> 's list \<Rightarrow> 'r list \<Rightarrow> bool" for fetch where
  last_page: "fetch s after = (page, c, False) \<Longrightarrow> walks fetch after [s] page"
| more_pages: "fetch s after = (page, c, True) \<Longrightarrow> walks fetch c ss rest \<Longrightarrow> walks fetch after (s # ss) (page @ rest)"

lemma sorted_take_last:
  assumes "sorted_wrt (<) (map fst xs)" and "0 < n" and "n \<le> length xs" and "x \<in> set xs"
  shows "x \<in> set (take n xs) \<and> fst x \<le> (fst (last (take n xs)) :: 'k::linorder) \<or> x \<notin> set (take n xs) \<and> fst (last (take n xs)) < fst x"
proof -
  obtain j where j: "j < length xs" "x = xs ! j" using assms(4) by (auto simp: in_set_conv_nth)
  have last: "last (take n xs) = xs ! (n - 1)"
    using assms(2,3) by (subst last_conv_nth) (auto simp: min_def)
  have less: "fst (xs ! i) < fst (xs ! k)" if "i < k" "k < length xs" for i k
    using sorted_wrt_nth_less [OF assms(1), of i k] that by simp
  show ?thesis
  proof (cases "j < n")
    case True
    then have "x \<in> set (take n xs)" using j by (auto simp: in_set_conv_nth)
    moreover have "fst x \<le> fst (last (take n xs))"
      using True less [of j "n - 1"] assms(2,3) j last by (cases "j = n - 1") (auto simp: less_imp_le)
    ultimately show ?thesis by simp
  next
    case False
    then have "fst (last (take n xs)) < fst x" using less [of "n - 1" j] assms(2) j last by simp
    moreover have "x \<notin> set (take n xs)"
    proof
      assume "x \<in> set (take n xs)"
      then obtain i where i: "i < n" "x = xs ! i" using assms(3) by (auto simp: in_set_conv_nth)
      then have "fst (xs ! i) < fst (xs ! j)" using False j(1) by (intro less) auto
      then show False using i j by simp
    qed
    ultimately show ?thesis by simp
  qed
qed

lemma sorted_keys_unique:
  assumes "sorted_wrt (<) (map fst xs)" and "sorted_wrt (<) (map fst ys)" and "set xs = set (ys :: ('k::linorder \<times> 'r) list)"
  shows "xs = ys"
proof -
  have "map fst xs = map fst ys"
    using assms by (intro sorted_distinct_set_unique) (auto simp: strict_sorted_iff)
  moreover have "inj_on fst (set xs \<union> set ys)"
    using assms(2,3) by (auto simp: strict_sorted_iff distinct_map)
  ultimately show ?thesis by (metis map_inj_on)
qed

locale keyset_source =
  fixes lim :: nat
    and ok :: "'s \<Rightarrow> bool"
    and fetch :: "'s \<Rightarrow> 'c option \<Rightarrow> 'r list \<times> 'c option \<times> bool"
    and key :: "'c \<Rightarrow> 'k::linorder"
    and pos :: "'s \<Rightarrow> ('k \<times> 'r) list"
  assumes positive: "0 < lim"
    and ordered: "ok s \<Longrightarrow> sorted_wrt (<) (map fst (pos s))"
    and fetched: "ok s \<Longrightarrow> fetch s after = (page, c, more) \<Longrightarrow>
      (let xs = filter (\<lambda>x. later (map_option key after) (fst x)) (pos s) in
        page = map snd (take lim xs) \<and> more = (lim < length xs) \<and> (more \<longrightarrow> map_option key c = Some (fst (last (take lim xs)))))"
begin

lemma pending_sorted: "ok s \<Longrightarrow> sorted_wrt (<) (map fst (filter (\<lambda>x. later after (fst x)) (pos s)))"
  using ordered [of s] by (auto simp: sorted_wrt_map sorted_wrt_filter)

text \<open>
  The trail of a walk: its rows with their positions, strictly ascending, each as some page saw it; and every
  position that every page could see is on it.
\<close>

lemma walk_trail:
  assumes "walks fetch after ss out" and "\<forall>s \<in> set ss. ok s"
  shows "\<exists>trail. map snd trail = out \<and> sorted_wrt (<) (map fst trail) \<and>
    (\<forall>x \<in> set trail. later (map_option key after) (fst x) \<and> (\<exists>s \<in> set ss. x \<in> set (pos s))) \<and>
    (\<forall>k. later (map_option key after) k \<and> (\<forall>s \<in> set ss. k \<in> fst ` set (pos s)) \<longrightarrow> k \<in> fst ` set trail)"
  using assms
proof (induction rule: walks.induct)
  case (last_page s after page c)
  let ?xs = "filter (\<lambda>x. later (map_option key after) (fst x)) (pos s)"
  have "page = map snd (take lim ?xs)" and "\<not> lim < length ?xs"
    using fetched [of s after page c False] last_page by (auto simp: Let_def)
  then have "page = map snd ?xs" by simp
  moreover have "sorted_wrt (<) (map fst ?xs)" using last_page by (intro pending_sorted) simp
  ultimately show ?case by (intro exI [of _ ?xs]) (auto simp: image_iff)
next
  case (more_pages s after page c ss rest)
  let ?xs = "filter (\<lambda>x. later (map_option key after) (fst x)) (pos s)"
  let ?tk = "take lim ?xs"
  have page: "page = map snd ?tk" and len: "lim < length ?xs" and c: "map_option key c = Some (fst (last ?tk))"
    using fetched [of s after page c True] more_pages by (auto simp: Let_def)
  have srt: "sorted_wrt (<) (map fst ?xs)" using more_pages.prems by (intro pending_sorted) simp
  note split = sorted_take_last [OF srt positive less_imp_le [OF len]]
  obtain trail where t: "map snd trail = rest" "sorted_wrt (<) (map fst trail)"
      "\<forall>x \<in> set trail. later (map_option key c) (fst x) \<and> (\<exists>s \<in> set ss. x \<in> set (pos s))"
      "\<forall>k. later (map_option key c) k \<and> (\<forall>s \<in> set ss. k \<in> fst ` set (pos s)) \<longrightarrow> k \<in> fst ` set trail"
    using more_pages.IH more_pages.prems by auto
  have below: "fst x \<le> fst (last ?tk)" if "x \<in> set ?tk" for x
    using split [of x] that by (auto dest: in_set_takeD)
  have nonempty: "last ?tk \<in> set ?tk" using positive len by (intro last_in_set) auto
  have "later (map_option key after) (fst (last ?tk))" using nonempty by (auto dest!: in_set_takeD)
  then have step: "later (map_option key after) k" if "later (map_option key c) k" for k using that c by (auto simp: later_def split: option.splits)
  show ?case
  proof (intro exI [of _ "?tk @ trail"] conjI allI impI ballI)
    show "map snd (?tk @ trail) = page @ rest" using page t(1) by simp
    have "sorted_wrt (<) (map fst ?tk)" using srt by (simp add: take_map [symmetric] sorted_wrt_take)
    moreover have "fst x < fst y" if "x \<in> set ?tk" "y \<in> set trail" for x y
      using below [OF that(1)] t(3) that(2) c by (force simp: later_def)
    ultimately show "sorted_wrt (<) (map fst (?tk @ trail))" using t(2) by (auto simp: sorted_wrt_append)
  next
    fix x assume "x \<in> set (?tk @ trail)"
    then show "later (map_option key after) (fst x)" using t(3) step by (auto dest!: in_set_takeD)
    show "\<exists>s \<in> set (s # ss). x \<in> set (pos s)" using \<open>x \<in> set (?tk @ trail)\<close> t(3) by (auto dest!: in_set_takeD)
  next
    fix k assume k: "later (map_option key after) k \<and> (\<forall>s \<in> set (s # ss). k \<in> fst ` set (pos s))"
    then obtain x where x: "x \<in> set ?xs" "fst x = k" by auto
    show "k \<in> fst ` set (?tk @ trail)"
    proof (cases "x \<in> set ?tk")
      case False
      then have "later (map_option key c) k" using split [OF x(1)] x(2) c by (auto simp: later_def)
      then show ?thesis using t(4) k by auto
    qed (use x in auto)
  qed
qed

text \<open>When nothing changes between the pages, the walk is the listing.\<close>

lemma walk_is_listing:
  assumes "walks fetch after ss out" and "\<forall>s \<in> set ss. ok s \<and> pos s = rows"
  shows "out = map snd (filter (\<lambda>x. later (map_option key after) (fst x)) rows)"
proof -
  obtain trail where t: "map snd trail = out" "sorted_wrt (<) (map fst trail)"
      "\<forall>x \<in> set trail. later (map_option key after) (fst x) \<and> (\<exists>s \<in> set ss. x \<in> set (pos s))"
      "\<forall>k. later (map_option key after) k \<and> (\<forall>s \<in> set ss. k \<in> fst ` set (pos s)) \<longrightarrow> k \<in> fst ` set trail"
    using walk_trail [OF assms(1)] assms(2) by blast
  obtain s where s: "s \<in> set ss" using assms(1) by (cases rule: walks.cases) auto
  then have srt: "sorted_wrt (<) (map fst rows)" using ordered [of s] assms(2) by auto
  have sub: "set trail \<subseteq> set (filter (\<lambda>x. later (map_option key after) (fst x)) rows)" using t(3) assms(2) by auto
  moreover have "x \<in> set trail" if "x \<in> set (filter (\<lambda>x. later (map_option key after) (fst x)) rows)" for x
  proof -
    have "fst x \<in> fst ` set trail" using t(4) that assms(2) by auto
    then obtain y where y: "y \<in> set trail" "fst y = fst x" by auto
    moreover have "inj_on fst (set rows)" using srt by (auto simp: strict_sorted_iff distinct_map)
    ultimately have "y = x" using sub that by (auto dest: inj_onD)
    then show ?thesis using y(1) by simp
  qed
  ultimately have "set trail = set (filter (\<lambda>x. later (map_option key after) (fst x)) rows)" by blast
  moreover have "sorted_wrt (<) (map fst (filter (\<lambda>x. later (map_option key after) (fst x)) rows))"
    using srt by (auto simp: sorted_wrt_map sorted_wrt_filter)
  ultimately show ?thesis using t(1,2) sorted_keys_unique by metis
qed

text \<open>A walk over an unchanging state ends, after at most one page more than there are rows.\<close>

lemma walk_ends:
  assumes "ok s"
  shows "\<exists>ss out. walks fetch after ss out \<and> set ss \<subseteq> {s} \<and> length ss \<le> Suc (length (filter (\<lambda>x. later (map_option key after) (fst x)) (pos s)))"
proof (induction "length (filter (\<lambda>x. later (map_option key after) (fst x)) (pos s))" arbitrary: after rule: less_induct)
  case less
  let ?xs = "filter (\<lambda>x. later (map_option key after) (fst x)) (pos s)"
  obtain page c more where f: "fetch s after = (page, c, more)" by (metis prod_cases3)
  show ?case
  proof (cases more)
    case False
    then show ?thesis using f last_page [of fetch s after page c] by (intro exI [of _ "[s]"] exI [of _ page]) auto
  next
    case True
    let ?tk = "take lim ?xs"
    have len: "lim < length ?xs" and c: "map_option key c = Some (fst (last ?tk))"
      using fetched [OF assms f] True by (auto simp: Let_def)
    have nonempty: "last ?tk \<in> set ?tk" using positive len by (intro last_in_set) auto
    then have last: "last ?tk \<in> set ?xs" by (auto dest: in_set_takeD)
    then have "later (map_option key after) k" if "later (map_option key c) k" for k
      using that c by (auto simp: later_def split: option.splits)
    then have "filter (\<lambda>x. later (map_option key c) (fst x)) (pos s) = filter (\<lambda>x. later (map_option key c) (fst x)) ?xs" by (auto intro: filter_cong)
    moreover have "length (filter (\<lambda>x. later (map_option key c) (fst x)) ?xs) < length ?xs"
      using last c by (intro length_filter_less [of "last ?tk"]) (auto simp: later_def)
    ultimately have fewer: "length (filter (\<lambda>x. later (map_option key c) (fst x)) (pos s)) < length ?xs" by simp
    from less [OF this] obtain ss out where "walks fetch c ss out" "set ss \<subseteq> {s}"
      "length ss \<le> Suc (length (filter (\<lambda>x. later (map_option key c) (fst x)) (pos s)))" by blast
    then show ?thesis
      using more_pages [of fetch s after page c ss out] f True fewer by (intro exI [of _ "s # ss"] exI [of _ "page @ out"]) auto
  qed
qed

end

end
