(* ===== verification/SearchSql.thy ===== *)
theory SearchSql
  imports WriteServices KeysetPaging
begin

text \<open>
  The retrieval queries (\<open>db/src/search.ts\<close>, \<open>search-list.ts\<close>): the eligibility predicate that every leg shares, the
  supersession flag, the single legs, the fused ranking with its keyset, the rows of a frozen ordering and the
  chronological listing.

  What PostgreSQL and its extensions compute over text and vectors is an \<open>engine\<close>: the text match and its rank, the
  cosine distance of two vector literals, the approximate nearest-neighbour scan of the index, the decay of an age,
  the topic match, and the roundings of \<open>double precision\<close> and \<open>real\<close>. Rows that a query leaves in any order among
  equals keep the order of the table.
\<close>

section \<open>The engine and the filters\<close>

type_synonym vector_text = string

record engine =
  eg_rank :: "string \<Rightarrow> memory \<Rightarrow> rat option"
  eg_distance :: "vector_text \<Rightarrow> vector_text \<Rightarrow> rat"
  eg_nearest :: "vector_text \<Rightarrow> nat \<Rightarrow> memory list \<Rightarrow> memory list"
  eg_decay :: "instant \<Rightarrow> rat"
  eg_topic :: "string \<Rightarrow> string \<Rightarrow> bool"
  eg_double :: rounding
  eg_real :: rounding

definition EMBEDDING_DIMENSIONS :: nat where "EMBEDDING_DIMENSIONS = 1536"

definition assertEmbeddingDimensions :: "string list \<Rightarrow> err + unit" where
  "assertEmbeddingDimensions v = (if length v = EMBEDDING_DIMENSIONS then Inr () else Inl (InvalidEmbedding (length v)))"

record search_as_of =
  ao_valid_at :: "jsdate option"
  ao_known_at :: "jsdate option"

record search_filters =
  sf_type :: "memory_type option"
  sf_types :: "memory_type list option"
  sf_scope :: "string option"
  sf_project :: "string option"
  sf_status :: "memory_status option"
  sf_as_of :: "search_as_of option"
  sf_after :: "jsdate option"
  sf_before :: "jsdate option"

definition no_filters :: search_filters where
  "no_filters = \<lparr>sf_type = None, sf_types = None, sf_scope = None, sf_project = None, sf_status = None, sf_as_of = None,
     sf_after = None, sf_before = None\<rparr>"

definition valid_at :: "search_filters \<Rightarrow> jsdate option" where
  "valid_at f = Option.bind (sf_as_of f) ao_valid_at"

definition known_at :: "search_filters \<Rightarrow> jsdate option" where
  "known_at f = Option.bind (sf_as_of f) ao_known_at"

definition hasTimeTravel :: "search_filters \<Rightarrow> bool" where
  "hasTimeTravel f \<longleftrightarrow> valid_at f \<noteq> None \<or> known_at f \<noteq> None"

text \<open>A condition that an absent filter does not add.\<close>

definition wanted :: "'a option \<Rightarrow> ('a \<Rightarrow> bool) \<Rightarrow> bool" where
  "wanted x p \<longleftrightarrow> (case x of None \<Rightarrow> True | Some a \<Rightarrow> p a)"

definition recordedRangePredicates :: "search_filters \<Rightarrow> memory \<Rightarrow> bool" where
  "recordedRangePredicates f m \<longleftrightarrow>
     wanted (sf_after f) (\<lambda>d. sql_of_date d \<le> mem_recorded_at m) \<and> wanted (sf_before f) (\<lambda>d. mem_recorded_at m \<le> sql_of_date d)"

definition rowEligibility :: "uid \<Rightarrow> search_filters \<Rightarrow> memory \<Rightarrow> bool" where
  "rowEligibility u f m \<longleftrightarrow> mem_user m = u \<and>
     (case sf_status f of Some st \<Rightarrow> mem_status m = st | None \<Rightarrow> hasTimeTravel f \<or> mem_status m = Active) \<and>
     wanted (valid_at f) (\<lambda>d. mem_valid_from m \<le> sql_of_date d \<and>
       (case mem_valid_to m of None \<Rightarrow> True | Some t \<Rightarrow> sql_of_date d < t)) \<and>
     wanted (known_at f) (\<lambda>d. mem_recorded_at m \<le> sql_of_date d) \<and>
     wanted (sf_type f) (\<lambda>x. mem_type m = x) \<and>
     wanted (sf_types f) (\<lambda>xs. mem_type m \<in> set xs) \<and>
     wanted (sf_scope f) (\<lambda>x. mem_scope m = x) \<and>
     wanted (sf_project f) (\<lambda>x. mem_project m = Some x) \<and>
     recordedRangePredicates f m"

definition supersededExists :: "store \<Rightarrow> memory \<Rightarrow> bool" where
  "supersededExists s m \<longleftrightarrow> mem_valid_to m \<noteq> None \<and>
     (\<exists>e \<in> set (tbl_edges s). edge_to e = mem_id m \<and> edge_user e = mem_user m \<and> edge_kind e \<in> {Supersedes, Updates})"

section \<open>Hits\<close>

record search_hit =
  sh_id :: rid
  sh_type :: memory_type
  sh_topic :: string
  sh_content :: string
  sh_score :: rat
  sh_vector :: "rat option"
  sh_scope :: string
  sh_project :: "string option"
  sh_commitment :: "commitment_status option"
  sh_superseded :: bool

definition mapHit :: "store \<Rightarrow> rat \<Rightarrow> rat option \<Rightarrow> commitment_status option \<Rightarrow> memory \<Rightarrow> search_hit" where
  "mapHit s score v c m = \<lparr>sh_id = mem_id m, sh_type = mem_type m, sh_topic = mem_topic m, sh_content = mem_content m,
     sh_score = score, sh_vector = v, sh_scope = mem_scope m, sh_project = mem_project m, sh_commitment = c,
     sh_superseded = supersededExists s m\<rparr>"

text \<open>\<open>LEFT JOIN commitments\<close>: one row per commitment of the memory, one without status when it has none.\<close>

definition left_join :: "store \<Rightarrow> memory \<Rightarrow> commitment_status option list" where
  "left_join s m = (case filter (\<lambda>c. com_user c = mem_user m \<and> com_memory c = mem_id m) (tbl_commitments s) of
       [] \<Rightarrow> [None] | cs \<Rightarrow> map (Some \<circ> com_status) cs)"

section \<open>The single legs\<close>

definition best_first :: "nat \<Rightarrow> ('r \<Rightarrow> rat) \<Rightarrow> 'r list \<Rightarrow> 'r list" where
  "best_first n score rows = take n (sort_key (\<lambda>r. - score r) rows)"

definition matched :: "engine \<Rightarrow> string \<Rightarrow> memory list \<Rightarrow> (memory \<times> rat) list" where
  "matched eg q ms = List.map_filter (\<lambda>m. map_option (Pair m) (eg_rank eg q m)) ms"

text \<open>The min-max normalization over the window of ranked rows, in \<open>real\<close>.\<close>

definition normalized :: "engine \<Rightarrow> (memory \<times> rat) list \<Rightarrow> (memory \<times> rat) list" where
  "normalized eg rows = (let lo = Min (set (map snd rows)); hi = Max (set (map snd rows)) in
     map (\<lambda>(m, r). (m, if hi = lo then 1 else eg_real eg (eg_real eg (r - lo) / eg_real eg (hi - lo)))) rows)"

definition active_rows :: "uid \<Rightarrow> store \<Rightarrow> memory list" where
  "active_rows u s = filter (\<lambda>m. mem_user m = u \<and> mem_status m = Active) (tbl_memories s)"

definition searchFts :: "engine \<Rightarrow> uid \<Rightarrow> string \<Rightarrow> nat \<Rightarrow> store \<Rightarrow> search_hit list" where
  "searchFts eg u q limit s = map (\<lambda>(m, r). mapHit s r None None m)
     (sort_key (\<lambda>x. - snd x) (normalized eg (best_first limit snd (matched eg q (active_rows u s)))))"

definition searchRecency :: "engine \<Rightarrow> instant \<Rightarrow> uid \<Rightarrow> nat \<Rightarrow> store \<Rightarrow> search_hit list" where
  "searchRecency eg t u limit s = map (\<lambda>m. mapHit s (eg_decay eg (t - mem_recorded_at m)) None None m)
     (best_first limit (\<lambda>m. of_int (mem_recorded_at m)) (active_rows u s))"

definition similarity :: "engine \<Rightarrow> vector_text \<Rightarrow> memory \<Rightarrow> rat" where
  "similarity eg v m = (case mem_embedding m of None \<Rightarrow> 0 | Some e \<Rightarrow> max 0 (eg_double eg (1 - eg_distance eg e v)))"

definition embedded_rows :: "memory list \<Rightarrow> memory list" where
  "embedded_rows ms = filter (\<lambda>m. mem_embedding m \<noteq> None) ms"

definition searchVector :: "engine \<Rightarrow> uid \<Rightarrow> string list \<Rightarrow> nat \<Rightarrow> store \<Rightarrow> err + search_hit list" where
  "searchVector eg u qe limit s = (case assertEmbeddingDimensions qe of
       Inl e \<Rightarrow> Inl e
     | Inr _ \<Rightarrow> let v = toVectorLiteral qe in
         Inr (map (\<lambda>m. mapHit s (similarity eg v m) None None m) (eg_nearest eg v limit (embedded_rows (active_rows u s)))))"

section \<open>Fusion\<close>

record fusion_weights =
  wt_fts :: rat
  wt_recency :: rat
  wt_vector :: rat
  wt_topic :: "rat option"

text \<open>The three fractions are the doubles next to 0.3, 0.2 and 0.5.\<close>

definition DEFAULT_FUSION_WEIGHTS :: "rounding \<Rightarrow> fusion_weights" where
  "DEFAULT_FUSION_WEIGHTS fl = \<lparr>wt_fts = 1, wt_recency = fl (3 / 10), wt_vector = 0, wt_topic = None\<rparr>"

definition DEFAULT_SUPERSESSION_PENALTY :: rat where "DEFAULT_SUPERSESSION_PENALTY = 2"

definition CANDIDATE_POOL_FLOOR :: nat where "CANDIDATE_POOL_FLOOR = 50"

definition pool_size :: "nat \<Rightarrow> nat" where
  "pool_size limit = max (limit * 4) CANDIDATE_POOL_FLOOR"

definition topic_weight :: "fusion_weights \<Rightarrow> rat" where
  "topic_weight w = (case wt_topic w of None \<Rightarrow> 0 | Some x \<Rightarrow> x)"

definition fts_leg :: "engine \<Rightarrow> string \<Rightarrow> nat \<Rightarrow> fusion_weights \<Rightarrow> memory list \<Rightarrow> (memory \<times> rat) list" where
  "fts_leg eg q pool w ms = normalized eg (if 0 < wt_fts w then best_first pool snd (matched eg q ms) else [])"

definition recency_pool :: "nat \<Rightarrow> fusion_weights \<Rightarrow> memory list \<Rightarrow> memory list" where
  "recency_pool pool w ms = (if 0 < wt_recency w then best_first pool (\<lambda>m. of_int (mem_recorded_at m)) ms else [])"

definition vector_pool :: "engine \<Rightarrow> vector_text option \<Rightarrow> nat \<Rightarrow> memory list \<Rightarrow> memory list" where
  "vector_pool eg qv pool ms = (case qv of None \<Rightarrow> [] | Some v \<Rightarrow> eg_nearest eg v pool (embedded_rows ms))"

definition candidate_ids :: "engine \<Rightarrow> string \<Rightarrow> vector_text option \<Rightarrow> nat \<Rightarrow> fusion_weights \<Rightarrow> memory list \<Rightarrow> rid list" where
  "candidate_ids eg q qv pool w ms =
     map mem_id (map fst (fts_leg eg q pool w ms) @ recency_pool pool w ms @ vector_pool eg qv pool ms)"

definition fts_score :: "(memory \<times> rat) list \<Rightarrow> memory \<Rightarrow> rat" where
  "fts_score leg m = coalesce (map_of (map (\<lambda>(x, r). (mem_id x, r)) leg) (mem_id m)) 0"

definition fused_score ::
  "engine \<Rightarrow> instant \<Rightarrow> string \<Rightarrow> vector_text option \<Rightarrow> fusion_weights \<Rightarrow> rat \<Rightarrow> store \<Rightarrow> (memory \<times> rat) list \<Rightarrow> memory \<Rightarrow> rat" where
  "fused_score eg t q qv w pen s leg m = (let fl = eg_double eg;
       vs = (case qv of None \<Rightarrow> 0 | Some v \<Rightarrow> similarity eg v m);
       ts = (if 0 < topic_weight w then fl ((if eg_topic eg q (mem_topic m) then 1 else 0) * topic_weight w) else 0) in
     fl (fl (fl (fl (fl (wt_fts w * fts_score leg m) + fl (wt_recency w * eg_decay eg (t - mem_recorded_at m))) +
       fl (wt_vector w * vs)) + ts) - (if supersededExists s m then pen else 0)))"

text \<open>The order of the result: score descending, then id.\<close>

definition rank_key :: "search_hit \<Rightarrow> rat \<times> rid" where
  "rank_key h = (- sh_score h, sh_id h)"

definition buildCursorPredicate :: "(rat \<times> rid) option \<Rightarrow> search_hit \<Rightarrow> bool" where
  "buildCursorPredicate cursor h \<longleftrightarrow> wanted cursor (\<lambda>(score, i). sh_score h < score \<or> sh_score h = score \<and> i < sh_id h)"

definition scored ::
  "engine \<Rightarrow> instant \<Rightarrow> uid \<Rightarrow> string \<Rightarrow> nat \<Rightarrow> fusion_weights \<Rightarrow> rat \<Rightarrow> vector_text option \<Rightarrow> search_filters \<Rightarrow> store \<Rightarrow>
   search_hit list" where
  "scored eg t u q pool w pen qv f s = (let ms = filter (rowEligibility u f) (tbl_memories s); leg = fts_leg eg q pool w ms;
       ids = candidate_ids eg q qv pool w ms in
     concat (map (\<lambda>m. map (\<lambda>c. mapHit s (fused_score eg t q qv w pen s leg m) (map_option (\<lambda>v. similarity eg v m) qv) c m)
       (left_join s m)) (filter (\<lambda>m. mem_id m \<in> set ids) ms)))"

definition searchFused ::
  "engine \<Rightarrow> instant \<Rightarrow> uid \<Rightarrow> string \<Rightarrow> nat \<Rightarrow> fusion_weights \<Rightarrow> rat \<Rightarrow> string list option \<Rightarrow> search_filters \<Rightarrow>
   (rat \<times> rid) option \<Rightarrow> bool \<Rightarrow> store \<Rightarrow> err + search_hit list" where
  "searchFused eg t u q limit w pen qe f cursor returnFullPool s = (let
       vectorActive = (0 < wt_vector w \<and> qe \<noteq> None); pool = pool_size limit in
     case (if vectorActive then assertEmbeddingDimensions (the qe) else Inr ()) of
       Inl e \<Rightarrow> Inl e
     | Inr _ \<Rightarrow> Inr (take (if returnFullPool then pool else limit) (sort_key rank_key
         (filter (buildCursorPredicate cursor)
           (scored eg t u q pool w pen (if vectorActive then map_option toVectorLiteral qe else None) f s)))))"

text \<open>The rows of a frozen ordering, in no particular order; \<open>score\<close> is a placeholder.\<close>

definition fetchHitsByIds :: "uid \<Rightarrow> rid list \<Rightarrow> search_filters \<Rightarrow> store \<Rightarrow> search_hit list" where
  "fetchHitsByIds u ids f s = (if ids = [] then [] else
     concat (map (\<lambda>m. map (\<lambda>c. mapHit s 0 None c m) (left_join s m))
       (filter (\<lambda>m. rowEligibility u f m \<and> mem_id m \<in> set ids) (tbl_memories s))))"

section \<open>The chronological listing (search-list.ts)\<close>

text \<open>A position is the recorded instant, in full precision, and the id; the order is descending in both.\<close>

type_synonym chronological_cursor = "instant \<times> rid"

definition listing_key :: "memory \<Rightarrow> int \<times> int" where
  "listing_key m = (- mem_recorded_at m, - int (mem_id m))"

definition liveGate :: "search_filters \<Rightarrow> memory \<Rightarrow> bool" where
  "liveGate f m \<longleftrightarrow> hasTimeTravel f \<or> mem_valid_to m = None"

definition buildChronologicalCursorPredicate :: "chronological_cursor option \<Rightarrow> memory \<Rightarrow> bool" where
  "buildChronologicalCursorPredicate cursor m \<longleftrightarrow> wanted cursor (\<lambda>(r, i).
     mem_recorded_at m < r \<or> mem_recorded_at m = r \<and> mem_id m < i)"

definition searchList ::
  "uid \<Rightarrow> nat \<Rightarrow> search_filters \<Rightarrow> store \<Rightarrow> chronological_cursor option \<Rightarrow> search_hit list \<times> chronological_cursor option \<times> bool" where
  "searchList u limit f s cursor = (let
       rows = sort_key listing_key (filter (\<lambda>m. rowEligibility u f m \<and> liveGate f m \<and> buildChronologicalCursorPredicate cursor m)
         (tbl_memories s));
       allRows = take (limit + 1) (concat (map (\<lambda>m. map (Pair m) (left_join s m)) rows));
       page = (if limit < length allRows then take limit allRows else allRows) in
     (map (\<lambda>(m, c). mapHit s 0 None c m) page,
      (if page = [] then None else Some (mem_recorded_at (fst (last page)), mem_id (fst (last page)))),
      limit < length allRows))"

end
