(* ===== verification/SearchService.thy ===== *)
theory SearchService
  imports SearchSql
begin

text \<open>
  The retrieval policy (\<open>core/src/read/search.ts\<close>, \<open>search-options.ts\<close>, \<open>search-results.ts\<close>, \<open>excerpt.ts\<close>,
  \<open>search-list.ts\<close>): resolved options, the metered query embedding, the ranked search, the dashboard's walk over an
  ordering frozen at its first page, and the chronological listing.

  Others commit between the transactions: \<open>rn_lull env\<close> before each, numbered by what it precedes, 0 the query, 1 the
  ledger row, and \<open>2 + k\<close> the slice of a frozen ordering at offset \<open>k\<close>. The ellipsis of an excerpt is the character
  0x85. A list of options that JavaScript leaves absent is an option here.
\<close>

section \<open>Excerpts (excerpt.ts)\<close>

definition MAX_EXCERPT_LENGTH :: nat where "MAX_EXCERPT_LENGTH = 600"

definition EXCERPT_MARKER :: string where "EXCERPT_MARKER = [char_of (0x85 :: nat)]"

definition high_surrogate :: "char \<Rightarrow> bool" where
  "high_surrogate c \<longleftrightarrow> 0xd800 \<le> (of_char c :: nat) \<and> (of_char c :: nat) \<le> 0xdbff"

text \<open>Excerpt, full length, and whether it was cut.\<close>

definition excerptContent :: "nat \<Rightarrow> string \<Rightarrow> string \<times> nat \<times> bool" where
  "excerptContent maxChars content =
     (if length content \<le> maxChars then (content, length content, False)
      else let kept = take (maxChars - length EXCERPT_MARKER) content;
             kept' = (if kept \<noteq> [] \<and> high_surrogate (last kept) then butlast kept else kept) in
        (kept' @ EXCERPT_MARKER, length content, True))"

section \<open>Options (search-options.ts)\<close>

definition DEFAULT_SEARCH_WEIGHTS :: "rounding \<Rightarrow> fusion_weights" where
  "DEFAULT_SEARCH_WEIGHTS fl = \<lparr>wt_fts = fl (2 / 10), wt_recency = 0, wt_vector = 1, wt_topic = None\<rparr>"

definition DEFAULT_SEARCH_SUPERSESSION_PENALTY :: rat where
  "DEFAULT_SEARCH_SUPERSESSION_PENALTY = DEFAULT_SUPERSESSION_PENALTY"

definition DEFAULT_LIMIT :: nat where "DEFAULT_LIMIT = 5"

record search_options =
  so_limit :: "nat option"
  so_cursor :: "(rat \<times> rid) option"
  so_weights :: "fusion_weights option"
  so_penalty :: "rat option"
  so_filters :: "search_filters option"
  so_budget :: "enforcement option"
  so_access :: "access_gate option"
  so_policy :: "retrieval_policy option"

text \<open>\<open>policyScope\<close> is absent in a state from before the binding, else the nullable scope.\<close>

record frozen_state =
  fz_ids :: "rid list"
  fz_scores :: "rat list"
  fz_off :: nat
  fz_scope :: "string option option"

record page_options =
  po_limit :: "nat option"
  po_filters :: "search_filters option"
  po_frozen :: "frozen_state option"
  po_budget :: "enforcement option"
  po_access :: "access_gate option"
  po_policy :: "retrieval_policy option"

definition resolvePolicyFilters ::
  "retrieval_policy option \<Rightarrow> search_filters option \<Rightarrow> err + (string option \<times> search_filters)" where
  "resolvePolicyFilters policy filters =
     map_sum id (\<lambda>(scope, applied). (applied, (case scope of
         None \<Rightarrow> coalesce filters no_filters | Some sc \<Rightarrow> (coalesce filters no_filters)\<lparr>sf_scope := Some sc\<rparr>)))
       (applyPolicyToScopeFilter policy (Option.bind filters sf_scope))"

definition queryTokenCount :: "string \<Rightarrow> nat" where
  "queryTokenCount q = length (pieces [] q)"

definition resolveWeights :: "string \<Rightarrow> fusion_weights \<Rightarrow> fusion_weights" where
  "resolveWeights q w = (if queryTokenCount q \<le> 2 \<and> wt_topic w = None then w\<lparr>wt_topic := Some (1 / 2)\<rparr> else w)"

record resolved_search =
  ro_applied :: "string option"
  ro_filters :: search_filters
  ro_limit :: nat
  ro_cursor :: "(rat \<times> rid) option"
  ro_weights :: fusion_weights
  ro_penalty :: rat

definition resolveSearchOptions :: "rounding \<Rightarrow> string \<Rightarrow> search_options \<Rightarrow> err + resolved_search" where
  "resolveSearchOptions fl q opts = map_sum id (\<lambda>(applied, filters).
     \<lparr>ro_applied = applied, ro_filters = filters, ro_limit = coalesce (so_limit opts) DEFAULT_LIMIT, ro_cursor = so_cursor opts,
      ro_weights = resolveWeights q (coalesce (so_weights opts) (DEFAULT_SEARCH_WEIGHTS fl)),
      ro_penalty = coalesce (so_penalty opts) DEFAULT_SEARCH_SUPERSESSION_PENALTY\<rparr>)
     (resolvePolicyFilters (so_policy opts) (so_filters opts))"

definition resolveDashboardPageOptions :: "rounding \<Rightarrow> string \<Rightarrow> page_options \<Rightarrow> err + resolved_search" where
  "resolveDashboardPageOptions fl q opts = map_sum id (\<lambda>(applied, filters).
     \<lparr>ro_applied = applied, ro_filters = filters, ro_limit = coalesce (po_limit opts) DEFAULT_LIMIT, ro_cursor = None,
      ro_weights = resolveWeights q (DEFAULT_SEARCH_WEIGHTS fl), ro_penalty = DEFAULT_SEARCH_SUPERSESSION_PENALTY\<rparr>)
     (resolvePolicyFilters (po_policy opts) (po_filters opts))"

section \<open>Results (search-results.ts)\<close>

record shaped_hit =
  sp_hit :: search_hit
  sp_length :: nat
  sp_truncated :: bool

definition shapeSearchHit :: "search_hit \<Rightarrow> shaped_hit" where
  "shapeSearchHit h = (case excerptContent MAX_EXCERPT_LENGTH (sh_content h) of (text_, n, clipped) \<Rightarrow>
     \<lparr>sp_hit = h\<lparr>sh_content := text_\<rparr>, sp_length = n, sp_truncated = clipped\<rparr>)"

datatype search_result = PlainHits "shaped_hit list" | ScopedHits "shaped_hit list" "string option"

definition shapeSearchResult :: "search_hit list \<Rightarrow> string option \<Rightarrow> bool \<Rightarrow> search_result" where
  "shapeSearchResult hits applied policyAware =
     (if policyAware then ScopedHits (map shapeSearchHit hits) applied else PlainHits (map shapeSearchHit hits))"

section \<open>Search (search.ts)\<close>

definition SEARCH_EMBED_OPERATION :: string where "SEARCH_EMBED_OPERATION = ''search''"

datatype embedding_source = InjectedGateway embed_gateway | Precomputed "string list"

definition embedQuery :: "run_env \<Rightarrow> uid \<Rightarrow> embed_gateway \<Rightarrow> string \<Rightarrow> enforcement option \<Rightarrow> (string list, service_db) svc" where
  "embedQuery env u gw q budget = (\<lambda>w.
     case (case budget of
         None \<Rightarrow> (Inr None, w)
       | Some en \<Rightarrow> reserveBudgetSlot (rn_fl env) (rn_outage env) (rn_wait env) (rn_time env) en u SEARCH_EMBED_OPERATION w) of
       (Inl e, v) \<Rightarrow> (Inl e, v)
     | (Inr h, v) \<Rightarrow> finally_do
         (and_then (of_sum (gw [q] SEARCH_EMBED_OPERATION)) (\<lambda>res.
          and_then (meanwhile (rn_lull env 1)) (\<lambda>_.
          and_then (best_effort (insertLlmUsage (rn_time env) u (embed_usage (rn_fl env) SEARCH_EMBED_OPERATION res))) (\<lambda>_.
          case ge_embeddings res of [] \<Rightarrow> fail_with (InvalidEmbedding 0) | vector # _ \<Rightarrow> done_with vector))))
         (\<lambda>z. snd (releaseBudgetReservation u h z)) v)"

text \<open>The query's vector, from either source, at the width of the column.\<close>

definition query_vector ::
  "run_env \<Rightarrow> uid \<Rightarrow> embedding_source \<Rightarrow> string \<Rightarrow> enforcement option \<Rightarrow> (string list, service_db) svc" where
  "query_vector env u source q budget =
     and_then (case source of InjectedGateway gw \<Rightarrow> embedQuery env u gw q budget | Precomputed v \<Rightarrow> done_with v) (\<lambda>v.
     if length v \<noteq> EMBEDDING_DIMENSIONS then fail_with (InvalidEmbedding (length v)) else done_with v)"

definition check_read :: "access_gate option \<Rightarrow> uid \<Rightarrow> (unit, service_db) svc" where
  "check_read access u = of_sum (case access of None \<Rightarrow> Inr () | Some g \<Rightarrow> assertRead g u)"

text \<open>One tenant transaction that only reads.\<close>

definition reading :: "(service_db \<Rightarrow> service_db) \<Rightarrow> (store \<Rightarrow> err + 'a) \<Rightarrow> ('a, service_db) svc" where
  "reading gap f = and_then (meanwhile gap) (\<lambda>_ w. (f (sv_store w), w))"

definition search ::
  "run_env \<Rightarrow> engine \<Rightarrow> uid \<Rightarrow> string \<Rightarrow> embedding_source \<Rightarrow> search_options \<Rightarrow> (search_result, service_db) svc" where
  "search env eg u q source opts =
     and_then (check_read (so_access opts) u) (\<lambda>_.
     and_then (of_sum (resolveSearchOptions (eg_double eg) q opts)) (\<lambda>r.
     and_then (query_vector env u source q (so_budget opts)) (\<lambda>v.
     and_then (reading (rn_lull env 0) (searchFused eg (rn_time env) u q (ro_limit r) (ro_weights r) (ro_penalty r) (Some v)
       (ro_filters r) (ro_cursor r) False)) (\<lambda>hits.
     done_with (shapeSearchResult hits (ro_applied r) (so_policy opts \<noteq> None))))))"

section \<open>The dashboard's walk (search.ts)\<close>

record frozen_ordering =
  fo_ids :: "rid list"
  fo_scores :: "rat list"
  fo_scope :: "string option"

record dashboard_page =
  dp_hits :: "shaped_hit list"
  dp_frozen :: frozen_ordering
  dp_next :: nat
  dp_more :: bool
  dp_applied :: "string option"

definition shouldRestartFrozenWalk :: "frozen_state \<Rightarrow> string option \<Rightarrow> bool" where
  "shouldRestartFrozenWalk fz applied = (case fz_scope fz of None \<Rightarrow> applied \<noteq> None | Some sc \<Rightarrow> sc \<noteq> applied)"

text \<open>The rows of one slice, in the frozen order, with the frozen scores and the offset after each.\<close>

definition slice_hits :: "frozen_state \<Rightarrow> nat \<Rightarrow> rid list \<Rightarrow> search_hit list \<Rightarrow> (shaped_hit \<times> nat) list" where
  "slice_hits fz cursor ids rows = (let byId = map_of (rev (map (\<lambda>r. (sh_id r, r)) rows)) in
     List.map_filter (\<lambda>(i, x). map_option (\<lambda>row. (shapeSearchHit (row\<lparr>sh_score :=
         (if cursor + i < length (fz_scores fz) then fz_scores fz ! (cursor + i) else sh_score row)\<rparr>), cursor + i + 1)) (byId x))
       (enumerate 0 ids))"

text \<open>A slice of \<open>limit\<close> ids; with \<open>limit = 0\<close>, which the schemas refuse, the loop would not advance.\<close>

function collectFrozenHits ::
  "run_env \<Rightarrow> uid \<Rightarrow> frozen_state \<Rightarrow> search_filters \<Rightarrow> nat \<Rightarrow> (shaped_hit \<times> nat) list \<Rightarrow> nat \<Rightarrow>
   ((shaped_hit \<times> nat) list \<times> nat, service_db) svc" where
  "collectFrozenHits env u fz f limit collected cursor w =
     (if length collected \<le> limit \<and> cursor < length (fz_ids fz) then
        if limit = 0 then (Inl Diverged, w) else
        let v = rn_lull env (2 + cursor) w; ids = take limit (drop cursor (fz_ids fz));
            more = slice_hits fz cursor ids (fetchHitsByIds u ids f (sv_store v)) in
        collectFrozenHits env u fz f limit (collected @ more) (cursor + length ids) v
      else (Inr (collected, cursor), w))"
  by pat_completeness auto

termination collectFrozenHits
  by (relation "measure (\<lambda>(env, u, fz, f, limit, collected, cursor, w). length (fz_ids fz) - cursor)") auto

declare collectFrozenHits.simps [simp del]

definition frozenDashboardPage ::
  "frozen_state \<Rightarrow> (shaped_hit \<times> nat) list \<Rightarrow> nat \<Rightarrow> nat \<Rightarrow> string option \<Rightarrow> dashboard_page" where
  "frozenDashboardPage fz collected cursor limit applied = (let more = limit < length collected; page = take limit collected in
     \<lparr>dp_hits = map fst page, dp_frozen = \<lparr>fo_ids = fz_ids fz, fo_scores = fz_scores fz, fo_scope = applied\<rparr>,
      dp_next = (if more then (if page = [] then cursor else snd (last page)) else length (fz_ids fz)),
      dp_more = more, dp_applied = applied\<rparr>)"

definition continueDashboardPage ::
  "run_env \<Rightarrow> uid \<Rightarrow> frozen_state \<Rightarrow> resolved_search \<Rightarrow> (dashboard_page, service_db) svc" where
  "continueDashboardPage env u fz r =
     and_then (collectFrozenHits env u fz (ro_filters r) (ro_limit r) [] (fz_off fz)) (\<lambda>(collected, cursor).
     done_with (frozenDashboardPage fz collected cursor (ro_limit r) (ro_applied r)))"

definition rankDashboardPage ::
  "run_env \<Rightarrow> engine \<Rightarrow> uid \<Rightarrow> string \<Rightarrow> embedding_source \<Rightarrow> enforcement option \<Rightarrow> resolved_search \<Rightarrow> (dashboard_page, service_db) svc" where
  "rankDashboardPage env eg u q source budget r =
     and_then (query_vector env u source q budget) (\<lambda>v.
     and_then (reading (rn_lull env 0) (searchFused eg (rn_time env) u q (ro_limit r) (ro_weights r) (ro_penalty r) (Some v)
       (ro_filters r) None True)) (\<lambda>ranked.
     done_with \<lparr>dp_hits = map shapeSearchHit (take (ro_limit r) ranked),
       dp_frozen = \<lparr>fo_ids = map sh_id ranked, fo_scores = map sh_score ranked, fo_scope = ro_applied r\<rparr>,
       dp_next = ro_limit r, dp_more = ro_limit r < length ranked, dp_applied = ro_applied r\<rparr>))"

definition searchDashboardPage ::
  "run_env \<Rightarrow> engine \<Rightarrow> uid \<Rightarrow> string \<Rightarrow> embedding_source \<Rightarrow> page_options \<Rightarrow> (dashboard_page, service_db) svc" where
  "searchDashboardPage env eg u q source opts =
     and_then (check_read (po_access opts) u) (\<lambda>_.
     and_then (of_sum (resolveDashboardPageOptions (eg_double eg) q opts)) (\<lambda>r.
     case po_frozen opts of
       Some fz \<Rightarrow> if \<not> shouldRestartFrozenWalk fz (ro_applied r) then continueDashboardPage env u fz r
         else rankDashboardPage env eg u q source (po_budget opts) r
     | None \<Rightarrow> rankDashboardPage env eg u q source (po_budget opts) r))"

section \<open>The chronological listing (search-list.ts)\<close>

record chronological_options =
  lo_limit :: "nat option"
  lo_cursor :: "chronological_cursor option"
  lo_filters :: "search_filters option"
  lo_access :: "access_gate option"
  lo_policy :: "retrieval_policy option"

record list_page =
  lp_hits :: "shaped_hit list"
  lp_more :: bool
  lp_next :: "chronological_cursor option"
  lp_applied :: "string option"

definition searchChronological :: "run_env \<Rightarrow> uid \<Rightarrow> chronological_options \<Rightarrow> (list_page, service_db) svc" where
  "searchChronological env u opts =
     and_then (check_read (lo_access opts) u) (\<lambda>_.
     and_then (of_sum (resolvePolicyFilters (lo_policy opts) (lo_filters opts))) (\<lambda>(applied, filters).
     and_then (reading (rn_lull env 0) (\<lambda>s. Inr (searchList u (coalesce (lo_limit opts) DEFAULT_LIMIT) filters s (lo_cursor opts))))
       (\<lambda>(hits, cursor, more).
     done_with \<lparr>lp_hits = map shapeSearchHit hits, lp_more = more, lp_next = cursor, lp_applied = applied\<rparr>)))"

end
