(* ===== verification/SearchTheorems.thy ===== *)
theory SearchTheorems
  imports SearchService Reachable "HOL-Library.Sublist"
begin

text \<open>
  What retrieval promises: every hit is an eligible row of its tenant, labelled as the store has it; a superseded
  memory never outranks a current one under the product's weights; a listing walked page by page over a changing
  store repeats nothing and skips nothing that was there throughout; a walk over a frozen ordering stays inside it.
\<close>

section \<open>One row per memory\<close>

lemma left_join_single:
  assumes "constraints s"
  shows "\<exists>c. left_join s m = [c]"
proof -
  let ?p = "\<lambda>c. com_user c = mem_user m \<and> com_memory c = mem_id m"
  have "distinct (map com_key (filter ?p (tbl_commitments s)))"
    using assms by (simp add: constraints_def commitments_ok_def distinct_map_filter)
  moreover have "com_key c = (mem_user m, mem_id m)" if "c \<in> set (filter ?p (tbl_commitments s))" for c
    using that by (simp add: com_key_def)
  ultimately have "length (filter ?p (tbl_commitments s)) \<le> 1"
    by (cases "filter ?p (tbl_commitments s)" rule: remdups_adj.cases) auto
  then show ?thesis unfolding left_join_def by (cases "filter ?p (tbl_commitments s)") auto
qed

definition status_of :: "store \<Rightarrow> memory \<Rightarrow> commitment_status option" where
  "status_of s m = hd (left_join s m)"

lemma left_join_status: "constraints s \<Longrightarrow> left_join s m = [status_of s m]"
  using left_join_single [of s m] by (auto simp: status_of_def)

lemma status_of_Some:
  assumes "status_of s m = Some st"
  shows "\<exists>c \<in> set (tbl_commitments s). com_user c = mem_user m \<and> com_memory c = mem_id m \<and> com_status c = st"
proof -
  let ?p = "\<lambda>c. com_user c = mem_user m \<and> com_memory c = mem_id m"
  obtain c cs where f: "filter ?p (tbl_commitments s) = c # cs" and "com_status c = st"
    using assms by (auto simp: status_of_def left_join_def split: list.splits)
  from arg_cong [OF f, of set] have "c \<in> set (tbl_commitments s)" "?p c" by auto
  then show ?thesis using \<open>com_status c = st\<close> by blast
qed

lemma memory_ids_distinct: "constraints s \<Longrightarrow> distinct (map mem_id (tbl_memories s))"
  by (simp add: constraints_def memories_ok_def ids_ok_def)

text \<open>A query result over one row per memory.\<close>

lemma joined_rows:
  assumes "constraints s"
  shows "concat (map (\<lambda>m. map (\<lambda>c. mapHit s (f m) (g m) c m) (left_join s m)) ms) =
    map (\<lambda>m. mapHit s (f m) (g m) (status_of s m) m) ms"
  by (induction ms) (simp_all add: left_join_status [OF assms])

lemma mapHit_sel [simp]:
  "sh_id (mapHit s r v c m) = mem_id m" "sh_score (mapHit s r v c m) = r" "sh_superseded (mapHit s r v c m) = supersededExists s m"
  "sh_commitment (mapHit s r v c m) = c" "sh_content (mapHit s r v c m) = mem_content m"
  by (simp_all add: mapHit_def)

lemma scored_rows:
  assumes "constraints s"
  shows "scored eg t u q pool w pen qv f s = (let ms = filter (rowEligibility u f) (tbl_memories s);
      leg = fts_leg eg q pool w ms; ids = candidate_ids eg q qv pool w ms in
    map (\<lambda>m. mapHit s (fused_score eg t q qv w pen s leg m) (map_option (\<lambda>v. similarity eg v m) qv) (status_of s m) m)
      (filter (\<lambda>m. mem_id m \<in> set ids) ms))"
  unfolding scored_def Let_def by (rule joined_rows [OF assms])

lemma scored_row:
  assumes "constraints s" and "h \<in> set (scored eg t u q pool w pen qv f s)"
  shows "\<exists>m score v. m \<in> set (tbl_memories s) \<and> rowEligibility u f m \<and> h = mapHit s score v (status_of s m) m"
  using assms(2) unfolding scored_rows [OF assms(1)] Let_def by auto

lemma scored_ids_distinct:
  assumes "constraints s"
  shows "distinct (map sh_id (scored eg t u q pool w pen qv f s))"
  by (simp add: scored_rows [OF assms] Let_def comp_def distinct_map_filter memory_ids_distinct [OF assms])

definition active_vector :: "fusion_weights \<Rightarrow> string list option \<Rightarrow> vector_text option" where
  "active_vector w qe = (if 0 < wt_vector w \<and> qe \<noteq> None then map_option toVectorLiteral qe else None)"

lemma searchFused_Inr:
  "searchFused eg t u q limit w pen qe f cursor full s = Inr hits \<Longrightarrow>
   hits = take (if full then pool_size limit else limit) (sort_key rank_key (filter (buildCursorPredicate cursor)
     (scored eg t u q (pool_size limit) w pen (active_vector w qe) f s)))"
  unfolding searchFused_def Let_def active_vector_def by (auto split: sum.splits if_splits)

lemma hit_from_scored:
  "searchFused eg t u q limit w pen qe f cursor full s = Inr hits \<Longrightarrow> h \<in> set hits \<Longrightarrow>
   h \<in> set (scored eg t u q (pool_size limit) w pen (active_vector w qe) f s) \<and> buildCursorPredicate cursor h"
  by (auto dest!: searchFused_Inr in_set_takeD)

text \<open>
  C16. A ranked search answers with rows of its tenant that satisfy every filter, each at most once, at most as many
  as asked for, best first with ties by id, only beyond the cursor; and each hit carries the content, the supersession
  flag and the commitment status that the store has for that memory.
\<close>

theorem search_is_exact:
  assumes "searchFused eg t u q limit w pen qe f cursor full s = Inr hits" and "constraints s"
  shows "distinct (map sh_id hits) \<and> length hits \<le> (if full then pool_size limit else limit) \<and> sorted (map rank_key hits) \<and>
    (\<forall>h \<in> set hits. buildCursorPredicate cursor h \<and>
      (\<exists>m \<in> set (tbl_memories s). mem_user m = u \<and> rowEligibility u f m \<and> sh_id h = mem_id m \<and> sh_content h = mem_content m \<and>
        sh_superseded h = supersededExists s m \<and> sh_commitment h = status_of s m))"
proof -
  let ?all = "scored eg t u q (pool_size limit) w pen (active_vector w qe) f s"
  let ?srt = "sort_key rank_key (filter (buildCursorPredicate cursor) ?all)"
  have hits: "hits = take (if full then pool_size limit else limit) ?srt"
    using searchFused_Inr [OF assms(1)] by simp
  have "distinct (map sh_id (filter (buildCursorPredicate cursor) ?all))"
    by (rule distinct_map_filter [OF scored_ids_distinct [OF assms(2)]])
  then have "distinct (map sh_id ?srt)" by (simp add: distinct_map)
  then have "distinct (map sh_id hits)" by (simp add: hits take_map [symmetric])
  moreover have "sorted (map rank_key ?srt)" by simp
  then have "sorted (map rank_key hits)" unfolding hits take_map [symmetric] by (rule sorted_wrt_take)
  moreover have "buildCursorPredicate cursor h \<and>
      (\<exists>m \<in> set (tbl_memories s). mem_user m = u \<and> rowEligibility u f m \<and> sh_id h = mem_id m \<and> sh_content h = mem_content m \<and>
        sh_superseded h = supersededExists s m \<and> sh_commitment h = status_of s m)" if "h \<in> set hits" for h
  proof -
    note mem = hit_from_scored [OF assms(1) that]
    obtain m score v where row: "m \<in> set (tbl_memories s)" "rowEligibility u f m" and h: "h = mapHit s score v (status_of s m) m"
      using scored_row [OF assms(2) mem [THEN conjunct1]] by auto
    have "mem_user m = u" using row(2) by (simp add: rowEligibility_def)
    with row mem show ?thesis by (intro conjI bexI [of _ m]) (simp_all add: h)
  qed
  moreover have "length hits \<le> (if full then pool_size limit else limit)" by (simp add: hits)
  ultimately show ?thesis by blast
qed

section \<open>Superseded memories sink\<close>

text \<open>
  What the ranking needs of the engine: monotone roundings that keep the quarters between -2 and 2, as binary floating
  point does, a cosine distance of at least 0, and a decay of at least 0.
\<close>

definition keeps_quarters :: "rounding \<Rightarrow> bool" where
  "keeps_quarters fl \<longleftrightarrow> mono fl \<and> (\<forall>n. -8 \<le> n \<and> n \<le> 8 \<longrightarrow> fl (of_int n / 4) = of_int n / 4)"

definition engine_ok :: "engine \<Rightarrow> bool" where
  "engine_ok eg \<longleftrightarrow> keeps_quarters (eg_double eg) \<and> keeps_quarters (eg_real eg) \<and> (\<forall>a b. 0 \<le> eg_distance eg a b) \<and> (\<forall>x. 0 \<le> eg_decay eg x)"

lemma keeps_bounds:
  assumes "keeps_quarters fl" and "-8 \<le> n" and "n \<le> 8"
  shows "of_int n / 4 \<le> x \<Longrightarrow> of_int n / 4 \<le> fl x" and "x \<le> of_int n / 4 \<Longrightarrow> fl x \<le> of_int n / 4"
proof -
  have "fl (of_int n / 4) = of_int n / 4" "mono fl" using assms by (simp_all add: keeps_quarters_def)
  then show "of_int n / 4 \<le> x \<Longrightarrow> of_int n / 4 \<le> fl x" and "x \<le> of_int n / 4 \<Longrightarrow> fl x \<le> of_int n / 4"
    by (metis monoD)+
qed

lemmas keeps_nonneg = keeps_bounds(1) [where n = 0, simplified]
lemmas keeps_le_1 = keeps_bounds(2) [where n = 4, simplified]

lemma normalized_range:
  assumes "keeps_quarters (eg_real eg)" and "(m, r) \<in> set (normalized eg rows)"
  shows "0 \<le> r \<and> r \<le> 1"
proof -
  let ?lo = "Min (set (map snd rows))" and ?hi = "Max (set (map snd rows))"
  obtain x where x: "(m, x) \<in> set rows"
    and r: "r = (if ?hi = ?lo then 1 else eg_real eg (eg_real eg (x - ?lo) / eg_real eg (?hi - ?lo)))"
    using assms(2) by (auto simp: normalized_def Let_def)
  have lo: "?lo \<le> x" and hi: "x \<le> ?hi" using x by (force intro: Min_le Max_ge)+
  have "0 \<le> eg_real eg (x - ?lo)" using keeps_nonneg [OF assms(1)] lo by simp
  moreover have "eg_real eg (x - ?lo) \<le> eg_real eg (?hi - ?lo)" using assms(1) hi by (simp add: keeps_quarters_def monoD)
  ultimately have "0 \<le> eg_real eg (x - ?lo) / eg_real eg (?hi - ?lo)" "eg_real eg (x - ?lo) / eg_real eg (?hi - ?lo) \<le> 1"
    by (auto simp: divide_le_eq_1 intro: divide_nonneg_nonneg)
  then show ?thesis using keeps_nonneg [OF assms(1)] keeps_le_1 [OF assms(1)] by (simp add: r)
qed

lemma fts_score_range:
  assumes "keeps_quarters (eg_real eg)"
  shows "0 \<le> fts_score (fts_leg eg q pool w ms) m \<and> fts_score (fts_leg eg q pool w ms) m \<le> 1"
proof (cases "map_of (map (\<lambda>(x, r). (mem_id x, r)) (fts_leg eg q pool w ms)) (mem_id m)")
  case (Some r)
  then have "(mem_id m, r) \<in> set (map (\<lambda>(x, r). (mem_id x, r)) (fts_leg eg q pool w ms))" by (rule map_of_SomeD)
  then obtain x where "(x, r) \<in> set (fts_leg eg q pool w ms)" by auto
  then have "0 \<le> r \<and> r \<le> 1" unfolding fts_leg_def by (rule normalized_range [OF assms])
  then show ?thesis using Some by (simp add: fts_score_def coalesce_def)
qed (simp add: fts_score_def coalesce_def)

lemma similarity_range:
  assumes "keeps_quarters (eg_double eg)" and "\<forall>a b. 0 \<le> eg_distance eg a b"
  shows "0 \<le> similarity eg v m \<and> similarity eg v m \<le> 1"
  using keeps_le_1 [OF assms(1)] assms(2) by (auto simp: similarity_def split: option.split)

text \<open>The product's weights: lexical at most a quarter, no recency, vector one, topic at most one half.\<close>

lemma product_score:
  assumes ok: "engine_ok eg" and w: "wt_fts w \<le> 1 / 4" "0 \<le> wt_fts w" "wt_recency w = 0" "wt_vector w = 1"
    and topic: "0 \<le> topic_weight w" "topic_weight w \<le> 1 / 2"
  shows "\<not> supersededExists s m \<Longrightarrow> 0 \<le> fused_score eg t q qv w 2 s (fts_leg eg q' pool w ms) m"
    and "supersededExists s m \<Longrightarrow> fused_score eg t q qv w 2 s (fts_leg eg q' pool w ms) m \<le> - 1 / 4"
proof -
  have k: "keeps_quarters (eg_double eg)" using ok by (simp add: engine_ok_def)
  note lower = keeps_bounds(1) [OF k, where n = 0, simplified]
  let ?fl = "eg_double eg"
  let ?f = "fts_score (fts_leg eg q' pool w ms) m"
  let ?vs = "case qv of None \<Rightarrow> 0 | Some v \<Rightarrow> similarity eg v m"
  let ?ts = "if 0 < topic_weight w then ?fl ((if eg_topic eg q (mem_topic m) then 1 else 0) * topic_weight w) else 0"
  have f: "0 \<le> ?f" "?f \<le> 1" using fts_score_range ok by (auto simp: engine_ok_def)
  have vs: "0 \<le> ?vs" "?vs \<le> 1" using similarity_range [of eg] ok by (auto simp: engine_ok_def split: option.split)
  have "wt_fts w * ?f \<le> 1 / 4 * 1" using f w by (intro mult_mono) auto
  then have a: "0 \<le> ?fl (wt_fts w * ?f)" "?fl (wt_fts w * ?f) \<le> 1 / 4"
    using keeps_bounds(2) [OF k, where n = 1] lower f w by simp_all
  have b: "?fl (wt_recency w * eg_decay eg (t - mem_recorded_at m)) = 0"
    using keeps_bounds [OF k, where n = 0 and x = 0] w by simp
  have c: "0 \<le> ?fl (wt_vector w * ?vs)" "?fl (wt_vector w * ?vs) \<le> 1"
    using keeps_le_1 [OF k] lower vs w by simp_all
  have ab: "0 \<le> ?fl (?fl (wt_fts w * ?f) + 0)" "?fl (?fl (wt_fts w * ?f) + 0) \<le> 1 / 4"
    using keeps_bounds(2) [OF k, where n = 1] lower a by simp_all
  have abc: "0 \<le> ?fl (?fl (?fl (wt_fts w * ?f) + 0) + ?fl (wt_vector w * ?vs))"
      "?fl (?fl (?fl (wt_fts w * ?f) + 0) + ?fl (wt_vector w * ?vs)) \<le> 5 / 4"
    using keeps_bounds(2) [OF k, where n = 5] lower ab c by simp_all
  have ts: "0 \<le> ?ts" "?ts \<le> 1 / 2"
    using keeps_bounds(2) [OF k, where n = 2] lower topic by simp_all
  let ?sum = "?fl (?fl (?fl (?fl (wt_fts w * ?f) + 0) + ?fl (wt_vector w * ?vs)) + ?ts)"
  have sum: "0 \<le> ?sum" "?sum \<le> 7 / 4"
    using keeps_bounds(2) [OF k, where n = 7] lower abc ts by simp_all
  have score: "fused_score eg t q qv w 2 s (fts_leg eg q' pool w ms) m = ?fl (?sum - (if supersededExists s m then 2 else 0))"
    unfolding fused_score_def Let_def b by (rule refl)
  show "\<not> supersededExists s m \<Longrightarrow> 0 \<le> fused_score eg t q qv w 2 s (fts_leg eg q' pool w ms) m"
    using score sum lower by simp
  show "supersededExists s m \<Longrightarrow> fused_score eg t q qv w 2 s (fts_leg eg q' pool w ms) m \<le> - 1 / 4"
    using score sum keeps_bounds(2) [OF k, where n = "-1"] by simp
qed

text \<open>The sorted result, read off the scores.\<close>

lemma scored_hit:
  "h \<in> set (scored eg t u q pool w pen qv f s) \<Longrightarrow>
   \<exists>m c. h = mapHit s (fused_score eg t q qv w pen s (fts_leg eg q pool w (filter (rowEligibility u f) (tbl_memories s))) m)
     (map_option (\<lambda>v. similarity eg v m) qv) c m"
  by (auto simp: scored_def Let_def)

definition product_weights :: "fusion_weights \<Rightarrow> bool" where
  "product_weights w \<longleftrightarrow> wt_fts w \<le> 1 / 4 \<and> 0 \<le> wt_fts w \<and> wt_recency w = 0 \<and> wt_vector w = 1 \<and>
     0 \<le> topic_weight w \<and> topic_weight w \<le> 1 / 2"

lemma default_product:
  assumes "engine_ok eg"
  shows "product_weights (resolveWeights q (DEFAULT_SEARCH_WEIGHTS (eg_double eg)))"
proof -
  have k: "keeps_quarters (eg_double eg)" using assms by (simp add: engine_ok_def)
  have "0 \<le> eg_double eg (2 / 10)" "eg_double eg (2 / 10) \<le> 1 / 4"
    using keeps_nonneg [OF k] keeps_bounds(2) [OF k, where n = 1 and x = "2 / 10"] by simp_all
  then show ?thesis by (simp add: product_weights_def DEFAULT_SEARCH_WEIGHTS_def resolveWeights_def topic_weight_def)
qed

lemma fused_tiers:
  assumes "searchFused eg t u q limit w 2 qe f cursor full s = Inr hits" and "engine_ok eg" and "product_weights w"
  shows "\<forall>h \<in> set hits. if sh_superseded h then sh_score h \<le> - 1 / 4 else 0 \<le> sh_score h"
    and "sorted_wrt (\<lambda>a b. sh_superseded a \<longrightarrow> sh_superseded b) hits"
proof -
  show tiers: "\<forall>h \<in> set hits. if sh_superseded h then sh_score h \<le> - 1 / 4 else 0 \<le> sh_score h"
  proof
    fix h assume "h \<in> set hits"
    from scored_hit [OF hit_from_scored [OF assms(1) this, THEN conjunct1]] show "if sh_superseded h then sh_score h \<le> - 1 / 4 else 0 \<le> sh_score h"
      using product_score [OF assms(2)] assms(3) by (auto simp: product_weights_def)
  qed
  have "sorted (map rank_key hits)"
    unfolding searchFused_Inr [OF assms(1)] take_map [symmetric] by (intro sorted_wrt_take) simp
  then have "sorted_wrt (\<lambda>a b. sh_score b \<le> sh_score a) hits"
    unfolding sorted_map by (rule sorted_wrt_mono_rel [rotated]) (auto simp: rank_key_def less_eq_prod_def)
  then show "sorted_wrt (\<lambda>a b. sh_superseded a \<longrightarrow> sh_superseded b) hits"
  proof (rule sorted_wrt_mono_rel [rotated])
    fix x y assume "x \<in> set hits" "y \<in> set hits" "sh_score y \<le> sh_score x"
    then show "sh_superseded x \<longrightarrow> sh_superseded y" using bspec [OF tiers, of x] bspec [OF tiers, of y] by (auto split: if_splits)
  qed
qed

fun result_hits :: "search_result \<Rightarrow> shaped_hit list" where
  "result_hits (PlainHits hs) = hs"
| "result_hits (ScopedHits hs _) = hs"

lemma shape_sel [simp]:
  "sh_id (sp_hit (shapeSearchHit h)) = sh_id h" "sh_score (sp_hit (shapeSearchHit h)) = sh_score h"
  "sh_superseded (sp_hit (shapeSearchHit h)) = sh_superseded h"
  by (simp_all add: shapeSearchHit_def split: prod.split)

lemma result_hits_shape: "result_hits (shapeSearchResult hits a p) = map shapeSearchHit hits"
  by (simp add: shapeSearchResult_def)

text \<open>
  C15. Superseded memories are ranked, not filtered, and never above a current one: under the product's weights and
  penalty, whatever the query, its vector, the filters and the position, no superseded hit precedes a current hit, and
  a score of its own keeps the two apart also across pages: at least 0 for a current hit, at most -1/4 for a superseded one.
\<close>

theorem superseded_never_outranks:
  assumes "search env eg u q source opts w = (Inr r, w')" and "so_weights opts = None" and "so_penalty opts = None" and "engine_ok eg"
  shows "sorted_wrt (\<lambda>a b. sh_superseded (sp_hit a) \<longrightarrow> sh_superseded (sp_hit b)) (result_hits r) \<and>
    (\<forall>h \<in> set (result_hits r). if sh_superseded (sp_hit h) then sh_score (sp_hit h) \<le> - 1 / 4 else 0 \<le> sh_score (sp_hit h))"
proof -
  from assms(1) obtain ro v hits z where ro: "resolveSearchOptions (eg_double eg) q opts = Inr ro"
    and run: "searchFused eg (rn_time env) u q (ro_limit ro) (ro_weights ro) (ro_penalty ro) (Some v) (ro_filters ro) (ro_cursor ro) False
      (sv_store z) = Inr hits"
    and r: "r = shapeSearchResult hits (ro_applied ro) (so_policy opts \<noteq> None)"
    unfolding search_def reading_def by (auto simp: and_then_Inr of_sum_Inr meanwhile_def done_with_def)
  have "ro_weights ro = resolveWeights q (DEFAULT_SEARCH_WEIGHTS (eg_double eg))" "ro_penalty ro = 2"
    using ro assms(2,3) by (auto simp: resolveSearchOptions_def map_sum_def coalesce_def DEFAULT_SEARCH_SUPERSESSION_PENALTY_def
        DEFAULT_SUPERSESSION_PENALTY_def split: sum.splits)
  with run have "searchFused eg (rn_time env) u q (ro_limit ro) (resolveWeights q (DEFAULT_SEARCH_WEIGHTS (eg_double eg))) 2 (Some v)
      (ro_filters ro) (ro_cursor ro) False (sv_store z) = Inr hits" by simp
  note tiers = fused_tiers [OF this assms(4) default_product [OF assms(4)]]
  from tiers(2) have "sorted_wrt (\<lambda>a b. sh_superseded (sp_hit a) \<longrightarrow> sh_superseded (sp_hit b)) (map shapeSearchHit hits)"
    by (simp add: sorted_wrt_map)
  moreover have "\<forall>h \<in> set (map shapeSearchHit hits). if sh_superseded (sp_hit h) then sh_score (sp_hit h) \<le> - 1 / 4 else 0 \<le> sh_score (sp_hit h)"
    using tiers(1) by (auto split: if_splits)
  ultimately show ?thesis unfolding r result_hits_shape by blast
qed

end
