(* ===== verification/SearchWalks.thy ===== *)
theory SearchWalks
  imports SearchTheorems
begin

text \<open>
  Pages over a store that others keep writing to: the chronological listing as a \<open>keyset_source\<close>, and the walk over
  an ordering frozen at its first page.
\<close>

section \<open>The chronological listing\<close>

definition listed_row :: "uid \<Rightarrow> search_filters \<Rightarrow> memory \<Rightarrow> bool" where
  "listed_row u f m \<longleftrightarrow> rowEligibility u f m \<and> liveGate f m"

definition listing :: "uid \<Rightarrow> search_filters \<Rightarrow> store \<Rightarrow> ((int \<times> int) \<times> search_hit) list" where
  "listing u f s = map (\<lambda>m. (listing_key m, mapHit s 0 None (status_of s m) m)) (sort_key listing_key (filter (listed_row u f) (tbl_memories s)))"

definition cursor_key :: "chronological_cursor \<Rightarrow> int \<times> int" where
  "cursor_key c = (- fst c, - int (snd c))"

lemma cursor_later:
  "buildChronologicalCursorPredicate c m \<longleftrightarrow> later (map_option cursor_key c) (listing_key m)"
  by (auto simp: buildChronologicalCursorPredicate_def wanted_def later_def cursor_key_def listing_key_def less_prod_def
      split: option.split)

lemma listing_pending:
  "filter (\<lambda>x. later k (fst x)) (listing u f s) = map (\<lambda>m. (listing_key m, mapHit s 0 None (status_of s m) m))
     (sort_key listing_key (filter (\<lambda>m. listed_row u f m \<and> later k (listing_key m)) (tbl_memories s)))"
  by (simp add: listing_def filter_map comp_def filter_sort conj_commute)

lemma searchList_page:
  assumes "constraints s"
  shows "searchList u n f s c = (let xs = filter (\<lambda>x. later (map_option cursor_key c) (fst x)) (listing u f s);
      page = map snd (take n xs) in
    (page, (if page = [] then None else Some (- fst (fst (last (take n xs))), sh_id (last page))), n < length xs))"
proof -
  let ?rows = "sort_key listing_key (filter (\<lambda>m. rowEligibility u f m \<and> liveGate f m \<and> buildChronologicalCursorPredicate c m) (tbl_memories s))"
  let ?xs = "filter (\<lambda>x. later (map_option cursor_key c) (fst x)) (listing u f s)"
  have xs: "?xs = map (\<lambda>m. (listing_key m, mapHit s 0 None (status_of s m) m)) ?rows"
    unfolding listing_pending by (simp add: listed_row_def cursor_later conj_assoc)
  have join: "concat (map (\<lambda>m. map (Pair m) (left_join s m)) ?rows) = map (\<lambda>m. (m, status_of s m)) ?rows"
    by (simp add: left_join_status [OF assms] comp_def concat_map_singleton)
  have same: "(if n < length (take (n + 1) zs) then take n (take (n + 1) zs) else take (n + 1) zs) = take n zs"
    "n < length (take (n + 1) zs) \<longleftrightarrow> n < length zs" for zs :: "(memory \<times> commitment_status option) list"
    by (auto simp: min_def)
  define R where "R = ?rows"
  note parts = join [folded R_def] xs [folded R_def]
  show ?thesis
    unfolding searchList_def Let_def R_def [symmetric] parts same take_map
    by (cases "take n R = []") (auto simp: comp_def last_map listing_key_def)
qed

interpretation chronological: keyset_source "Suc n" constraints "searchList u (Suc n) f" cursor_key "listing u f" for n u f
proof
  show "sorted_wrt (<) (map fst (listing u f s))" if "constraints s" for s
  proof -
    have "inj_on listing_key (set (filter (listed_row u f) (tbl_memories s)))"
      using memory_ids_distinct [OF that] by (auto simp: inj_on_def listing_key_def distinct_map)
    moreover have "distinct (filter (listed_row u f) (tbl_memories s))"
      using memory_ids_distinct [OF that] by (simp add: distinct_map)
    ultimately show ?thesis by (simp add: listing_def comp_def strict_sorted_iff distinct_map)
  qed
next
  fix s after page c more
  assume ok: "constraints s" and run: "searchList u (Suc n) f s after = (page, c, more)"
  let ?xs = "filter (\<lambda>x. later (map_option cursor_key after) (fst x)) (listing u f s)"
  have "(map snd (take (Suc n) ?xs), (if map snd (take (Suc n) ?xs) = [] then None
      else Some (- fst (fst (last (take (Suc n) ?xs))), sh_id (last (map snd (take (Suc n) ?xs))))), Suc n < length ?xs) = (page, c, more)"
    using run unfolding searchList_page [OF ok] Let_def .
  then have form: "page = map snd (take (Suc n) ?xs)" "more = (Suc n < length ?xs)"
    "c = (if map snd (take (Suc n) ?xs) = [] then None
      else Some (- fst (fst (last (take (Suc n) ?xs))), sh_id (last (map snd (take (Suc n) ?xs)))))"
    by (blast dest: sym)+
  have "map_option cursor_key c = Some (fst (last (take (Suc n) ?xs)))" if more
  proof -
    have ne: "take (Suc n) ?xs \<noteq> []" using form(2) that by auto
    then have "last (take (Suc n) ?xs) \<in> set ?xs" by (metis in_set_takeD last_in_set)
    then have "last (take (Suc n) ?xs) \<in> set (listing u f s)" by simp
    then obtain m where "last (take (Suc n) ?xs) = (listing_key m, mapHit s 0 None (status_of s m) m)" by (auto simp: listing_def)
    then show ?thesis unfolding form(3) using ne by (simp add: last_map cursor_key_def listing_key_def)
  qed
  with form(1,2) show "let xs = ?xs in page = map snd (take (Suc n) xs) \<and> more = (Suc n < length xs) \<and>
      (more \<longrightarrow> map_option cursor_key c = Some (fst (last (take (Suc n) xs))))"
    unfolding Let_def by blast
qed simp

text \<open>Along a run the recorded instant of a memory never changes.\<close>

lemma evolves_same_time:
  assumes "sorted_wrt evolves ss" and "\<forall>s \<in> set ss. constraints s" and "s \<in> set ss" "s' \<in> set ss"
    and "m \<in> set (tbl_memories s)" "m' \<in> set (tbl_memories s')" "mem_id m = mem_id m'"
  shows "mem_recorded_at m = mem_recorded_at m'"
proof -
  have step: "mem_recorded_at x = mem_recorded_at x'"
    if h: "evolves v v'" "constraints v'" "x \<in> set (tbl_memories v)" "x' \<in> set (tbl_memories v')" "mem_id x = mem_id x'" for v v' x x'
  proof -
    obtain y where y: "y \<in> set (tbl_memories v')" "mem_step x y"
      using h(1,3) by (auto simp: evolves_def dest: rows_evolve_mem)
    then have "y = x'"
      using memory_ids_distinct [OF h(2)] h(4,5) by (auto simp: mem_step_def distinct_map dest: inj_onD)
    then show ?thesis using y(2) by (simp add: mem_step_def)
  qed
  obtain i j where ij: "i < length ss" "s = ss ! i" "j < length ss" "s' = ss ! j"
    using assms(3,4) by (metis in_set_conv_nth)
  have refl: "evolves s s" by (rule hist.R_refl)
  consider "i < j" | "i = j" | "j < i" by linarith
  then show ?thesis
  proof cases
    case 1
    then have "evolves s s'" using assms(1) ij by (auto dest: sorted_wrt_nth_less)
    then show ?thesis using step assms(2,4-7) by blast
  next
    case 2
    then show ?thesis using step [OF refl] assms(2,3,5-7) ij by blast
  next
    case 3
    then have "evolves s' s" using assms(1) ij by (auto dest: sorted_wrt_nth_less)
    then show ?thesis using step assms(2,3,5-7) by metis
  qed
qed

lemma ops_chain:
  assumes "successively (ops us) ss" and "ss \<noteq> []" and "constraints (hd ss)"
  shows "sorted_wrt evolves ss" and "\<forall>s \<in> set ss. constraints s"
proof -
  have evo: "ops us s s' \<Longrightarrow> evolves s s'" for s s'
    by (rule op_respects(2) [OF hist.tenant_contract_axioms hist.R_refl evolves_trans])
  have keep: "ops us s s' \<Longrightarrow> constraints s \<Longrightarrow> constraints s'" for s s'
  proof -
    assume "ops us s s'"
    then have "inv_step s s'"
      by (rule op_respects(2) [OF inv.tenant_contract_axioms, rotated 2]) (auto simp: inv_step_def)
    then show "constraints s \<Longrightarrow> constraints s'" by (rule inv_stepD)
  qed
  have "successively evolves ss" using assms(1) evo by (auto intro: successively_mono)
  then show "sorted_wrt evolves ss"
    using successively_conv_sorted_wrt [of evolves ss] evolves_trans by (simp add: transp_def)
  show "\<forall>s \<in> set ss. constraints s"
    using assms
  proof (induction ss)
    case step: (Cons s ss)
    show ?case
    proof (cases ss)
      case (Cons s' rest)
      then have "constraints s'" using keep [of s s'] step.prems by simp
      then show ?thesis using step.IH step.prems Cons by simp
    qed (use step.prems in simp)
  qed simp
qed

text \<open>
  C14. The chronological listing repeats nothing and skips nothing, whatever is written between its pages: over any
  interleaving of the write operations, a walk that follows the cursors to the end returns each memory at most once,
  only memories that were eligible and current when their page was read, and every memory that was so at each page.
\<close>

theorem listing_walk:
  assumes "walks (searchList u limit f) None ss out" and "0 < limit" and "successively (ops us) ss" and "constraints (hd ss)"
  shows "distinct (map sh_id out) \<and>
    (\<forall>h \<in> set out. \<exists>s \<in> set ss. \<exists>m \<in> set (tbl_memories s). mem_id m = sh_id h \<and> rowEligibility u f m \<and> liveGate f m) \<and>
    (\<forall>i. (\<forall>s \<in> set ss. \<exists>m \<in> set (tbl_memories s). mem_id m = i \<and> rowEligibility u f m \<and> liveGate f m) \<longrightarrow> i \<in> sh_id ` set out)"
proof -
  obtain n where n: "limit = Suc n" using assms(2) by (cases limit) auto
  have ne: "ss \<noteq> []" using assms(1) by (cases rule: walks.cases) auto
  note chain = ops_chain [OF assms(3) ne assms(4)]
  obtain trail where t: "map snd trail = out" "sorted_wrt (<) (map fst trail)"
      "\<forall>x \<in> set trail. \<exists>s \<in> set ss. x \<in> set (listing u f s)"
      "\<forall>k. (\<forall>s \<in> set ss. k \<in> fst ` set (listing u f s)) \<longrightarrow> k \<in> fst ` set trail"
    using chronological.walk_trail [OF assms(1) [unfolded n] chain(2)] by (auto simp: later_def)
  have row: "\<exists>s \<in> set ss. \<exists>m \<in> set (tbl_memories s). listed_row u f m \<and> fst x = listing_key m \<and> sh_id (snd x) = mem_id m"
    if x: "x \<in> set trail" for x
  proof -
    from t(3) x obtain s where s: "s \<in> set ss" "x \<in> set (listing u f s)" by blast
    from s(2) obtain m where "m \<in> set (tbl_memories s)" "listed_row u f m" "x = (listing_key m, mapHit s 0 None (status_of s m) m)"
      unfolding listing_def by auto
    with s(1) show ?thesis by (intro bexI [of _ s] bexI [of _ m]) simp_all
  qed
  have "inj_on (sh_id \<circ> snd) (set trail)"
  proof (rule inj_onI)
    fix x y assume x: "x \<in> set trail" and y: "y \<in> set trail" and eq: "(sh_id \<circ> snd) x = (sh_id \<circ> snd) y"
    from row [OF x] obtain s m where s: "s \<in> set ss" "m \<in> set (tbl_memories s)" "fst x = listing_key m" "sh_id (snd x) = mem_id m" by blast
    from row [OF y] obtain s' m' where s': "s' \<in> set ss" "m' \<in> set (tbl_memories s')" "fst y = listing_key m'" "sh_id (snd y) = mem_id m'" by blast
    have id: "mem_id m = mem_id m'" using eq s(4) s'(4) by simp
    have "mem_recorded_at m = mem_recorded_at m'"
      by (rule evolves_same_time [OF chain s(1) s'(1) s(2) s'(2) id])
    then have "fst x = fst y" using id s(3) s'(3) by (simp add: listing_key_def)
    moreover have "inj_on fst (set trail)" using t(2) by (auto simp: strict_sorted_iff distinct_map)
    ultimately show "x = y" using x y by (auto dest: inj_onD)
  qed
  moreover have "distinct trail" using t(2) by (auto simp: strict_sorted_iff distinct_map)
  ultimately have "distinct (map sh_id out)" by (simp add: t(1) [symmetric] distinct_map)
  moreover have "\<forall>h \<in> set out. \<exists>s \<in> set ss. \<exists>m \<in> set (tbl_memories s). mem_id m = sh_id h \<and> rowEligibility u f m \<and> liveGate f m"
  proof
    fix h assume "h \<in> set out"
    then obtain x where x: "x \<in> set trail" "snd x = h" by (auto simp: t(1) [symmetric])
    from row [OF x(1)] obtain s m where "s \<in> set ss" "m \<in> set (tbl_memories s)" "listed_row u f m" "sh_id h = mem_id m"
      unfolding x(2) by blast
    then show "\<exists>s \<in> set ss. \<exists>m \<in> set (tbl_memories s). mem_id m = sh_id h \<and> rowEligibility u f m \<and> liveGate f m"
      unfolding listed_row_def by metis
  qed
  moreover have "i \<in> sh_id ` set out"
    if there: "\<forall>s \<in> set ss. \<exists>m \<in> set (tbl_memories s). mem_id m = i \<and> rowEligibility u f m \<and> liveGate f m" for i
  proof -
    obtain s0 where s0: "s0 \<in> set ss" using ne by (cases ss) auto
    then obtain m0 where m0: "m0 \<in> set (tbl_memories s0)" "mem_id m0 = i" using there by blast
    have "listing_key m0 \<in> fst ` set (listing u f s)" if s: "s \<in> set ss" for s
    proof -
      obtain m where m: "m \<in> set (tbl_memories s)" "mem_id m = i" "listed_row u f m"
        using there s by (auto simp: listed_row_def)
      have "mem_recorded_at m0 = mem_recorded_at m"
        using m m0 by (intro evolves_same_time [OF chain s0 s]) auto
      then have "listing_key m0 = listing_key m" using m0(2) m(2) by (simp add: listing_key_def)
      then show ?thesis using m by (auto simp: listing_def image_iff)
    qed
    then have "listing_key m0 \<in> fst ` set trail" using t(4) by blast
    then obtain x where x: "x \<in> set trail" "fst x = listing_key m0" by auto
    from row [OF x(1)] have "sh_id (snd x) = i" using x(2) m0(2) by (auto simp: listing_key_def)
    then show ?thesis using x(1) by (force simp: t(1) [symmetric])
  qed
  ultimately show ?thesis by blast
qed

section \<open>The walk over a frozen ordering\<close>

text \<open>A row of the frozen ordering that the current page would still return.\<close>

definition row_there :: "uid \<Rightarrow> search_filters \<Rightarrow> rid \<Rightarrow> service_db \<Rightarrow> bool" where
  "row_there u f i w \<longleftrightarrow> (\<exists>m \<in> set (tbl_memories (sv_store w)). mem_id m = i \<and> rowEligibility u f m)"

lemma fetched_ids: "sh_id ` set (fetchHitsByIds u ids f (sv_store w)) = {i \<in> set ids. row_there u f i w}"
proof -
  have ne: "left_join s m \<noteq> []" for s m by (simp add: left_join_def split: list.split)
  have img: "sh_id ` set (concat (map (\<lambda>m. map (\<lambda>c. mapHit s 0 None c m) (left_join s m)) ms)) = mem_id ` set ms" for s ms
    by (induction ms) (simp_all add: image_Un image_image image_constant_conv ne)
  show ?thesis
  proof (cases "ids = []")
    case False
    then show ?thesis unfolding fetchHitsByIds_def if_not_P [OF False] img by (auto simp: row_there_def)
  qed (simp add: fetchHitsByIds_def)
qed

definition entry :: "shaped_hit \<Rightarrow> rid \<times> rat" where
  "entry h = (sh_id (sp_hit h), sh_score (sp_hit h))"

text \<open>A slice yields the positions whose id was found, each with its id, its frozen score and the offset after it.\<close>

lemma slice_hits_entries:
  assumes "length (fz_scores fz) = length (fz_ids fz)" and "cursor + length ids \<le> length (fz_ids fz)"
    and "ids = take limit (drop cursor (fz_ids fz))"
  shows "map (\<lambda>(h, n). (entry h, n)) (slice_hits fz cursor ids rows) =
    map (\<lambda>k. (zip (fz_ids fz) (fz_scores fz) ! k, Suc k))
      (filter (\<lambda>k. fz_ids fz ! k \<in> sh_id ` set rows) [cursor..<cursor + length ids])"
proof -
  let ?by = "map_of (rev (map (\<lambda>r. (sh_id r, r)) rows))"
  have found: "(\<exists>row. ?by x = Some row) \<longleftrightarrow> x \<in> sh_id ` set rows" for x
  proof -
    have "(\<exists>row. ?by x = Some row) \<longleftrightarrow> ?by x \<noteq> None" by simp
    then show ?thesis unfolding map_of_eq_None_iff by (simp add: image_image)
  qed
  have by_id: "?by x = Some row \<Longrightarrow> sh_id row = x" for x row by (auto dest: map_of_SomeD)
  let ?g = "\<lambda>(i, x). map_option (\<lambda>row. (shapeSearchHit (row\<lparr>sh_score :=
         (if cursor + i < length (fz_scores fz) then fz_scores fz ! (cursor + i) else sh_score row)\<rparr>), cursor + i + 1)) (?by x)"
  have one: "map (\<lambda>(h, n). (entry h, n)) (List.map_filter ?g (map (\<lambda>k. (k, ids ! k)) ks)) =
      map (\<lambda>k. (zip (fz_ids fz) (fz_scores fz) ! (cursor + k), Suc (cursor + k))) (filter (\<lambda>k. ids ! k \<in> sh_id ` set rows) ks)"
    if "set ks \<subseteq> {..<length ids}" for ks
    using that
  proof (induction ks)
    case (Cons k ks)
    have k: "cursor + k < length (fz_ids fz)" "ids ! k = fz_ids fz ! (cursor + k)" using Cons.prems assms(2,3) by auto
    have z: "zip (fz_ids fz) (fz_scores fz) ! (cursor + k) = (ids ! k, fz_scores fz ! (cursor + k))" and len: "cursor + k < length (fz_scores fz)"
      using k assms(1) by simp_all
    have ih: "map (\<lambda>(h, n). (entry h, n)) (List.map_filter ?g (map (\<lambda>k. (k, ids ! k)) ks)) =
        map (\<lambda>k. (zip (fz_ids fz) (fz_scores fz) ! (cursor + k), Suc (cursor + k))) (filter (\<lambda>k. ids ! k \<in> sh_id ` set rows) ks)"
      using Cons.IH Cons.prems by simp
    show ?case
    proof (cases "?by (ids ! k)")
      case None
      then have no: "ids ! k \<notin> sh_id ` set rows" using found [of "ids ! k"] by simp
      have "List.map_filter ?g (map (\<lambda>k. (k, ids ! k)) (k # ks)) = List.map_filter ?g (map (\<lambda>k. (k, ids ! k)) ks)"
        using None by (simp add: map_filter_simps)
      then show ?thesis using ih no by simp
    next
      case (Some row)
      have yes: "ids ! k \<in> sh_id ` set rows" by (rule found [THEN iffD1, OF exI, OF Some])
      have same: "sh_id row = ids ! k" by (rule by_id [OF Some])
      have "List.map_filter ?g (map (\<lambda>k. (k, ids ! k)) (k # ks)) =
          (shapeSearchHit (row\<lparr>sh_score := fz_scores fz ! (cursor + k)\<rparr>), Suc (cursor + k)) # List.map_filter ?g (map (\<lambda>k. (k, ids ! k)) ks)"
        using Some len by (simp add: map_filter_simps)
      then show ?thesis using ih yes same z by (simp add: entry_def)
    qed
  qed (simp add: map_filter_simps)
  have "enumerate 0 ids = map (\<lambda>k. (k, ids ! k)) [0..<length ids]"
    by (rule nth_equalityI) (simp_all add: nth_enumerate_eq)
  then have "map (\<lambda>(h, n). (entry h, n)) (slice_hits fz cursor ids rows) =
      map (\<lambda>k. (zip (fz_ids fz) (fz_scores fz) ! (cursor + k), Suc (cursor + k))) (filter (\<lambda>k. ids ! k \<in> sh_id ` set rows) [0..<length ids])"
    unfolding slice_hits_def Let_def using one [of "[0..<length ids]"] by (simp add: atLeast0LessThan)
  also have "\<dots> = map (\<lambda>k. (zip (fz_ids fz) (fz_scores fz) ! k, Suc k))
      (filter (\<lambda>k. fz_ids fz ! k \<in> sh_id ` set rows) (map (\<lambda>k. k + cursor) [0..<length ids]))"
    using assms by (auto simp: filter_map comp_def add.commute intro!: map_cong filter_cong)
  also have "map (\<lambda>k. k + cursor) [0..<length ids] = [cursor..<cursor + length ids]"
    by (simp add: map_add_upt add.commute)
  finally show ?thesis .
qed

text \<open>Whatever happens, the row stays: it is there now and no step of \<open>E\<close> takes it away.\<close>

definition stays :: "uid \<Rightarrow> search_filters \<Rightarrow> (service_db \<Rightarrow> service_db \<Rightarrow> bool) \<Rightarrow> rid \<Rightarrow> bool" where
  "stays u f E i \<longleftrightarrow> (\<forall>v v'. E v v' \<longrightarrow> row_there u f i v \<longrightarrow> row_there u f i v')"

definition frozen_at :: "frozen_state \<Rightarrow> nat \<Rightarrow> rid \<times> rat" where
  "frozen_at fz k = zip (fz_ids fz) (fz_scores fz) ! k"

text \<open>The positions that a collection adds: ascending, within the part it walked, all those whose row stays.\<close>

lemma collect_positions:
  assumes "collectFrozenHits env u fz f limit collected cursor w = (Inr (out, cursor'), v)"
    and "length (fz_scores fz) = length (fz_ids fz)" and "cursor \<le> length (fz_ids fz)" and "\<And>k w. E w (rn_lull env k w)"
  shows "\<exists>ks. sorted_wrt (<) ks \<and> set ks \<subseteq> {cursor..<cursor'} \<and> cursor \<le> cursor' \<and> cursor' \<le> length (fz_ids fz) \<and>
    (limit < length out \<or> cursor' = length (fz_ids fz)) \<and>
    map (\<lambda>(h, n). (entry h, n)) out = map (\<lambda>(h, n). (entry h, n)) collected @ map (\<lambda>k. (frozen_at fz k, Suc k)) ks \<and>
    (\<forall>i. row_there u f i w \<and> stays u f E i \<longrightarrow> row_there u f i v \<and> (\<forall>k \<in> {cursor..<cursor'}. fz_ids fz ! k = i \<longrightarrow> k \<in> set ks))"
  using assms
proof (induction env u fz f limit collected cursor w rule: collectFrozenHits.induct)
  case (1 env u fz f limit collected cursor w)
  show ?case
  proof (cases "length collected \<le> limit \<and> cursor < length (fz_ids fz)")
    case False
    then have "out = collected" "cursor' = cursor" "v = w" using "1.prems"(1) by (auto simp: collectFrozenHits.simps [of env u fz f limit collected cursor w])
    then show ?thesis using False "1.prems"(3) by (intro exI [of _ "[]"]) auto
  next
    case True
    define x where "x = rn_lull env (2 + cursor) w"
    define ids where "ids = take limit (drop cursor (fz_ids fz))"
    define rows where "rows = fetchHitsByIds u ids f (sv_store x)"
    define more where "more = slice_hits fz cursor ids rows"
    note this_step = "1.prems"(1) [unfolded collectFrozenHits.simps [of env u fz f limit collected cursor w] if_P [OF True]]
    have lim: "limit \<noteq> 0"
    proof
      assume "limit = 0"
      from this_step [unfolded if_P [OF this]] show False by simp
    qed
    have run: "collectFrozenHits env u fz f limit (collected @ more) (cursor + length ids) x = (Inr (out, cursor'), v)"
      using this_step [unfolded if_not_P [OF lim] Let_def] by (simp only: x_def ids_def rows_def more_def)
    have le: "cursor + length ids \<le> length (fz_ids fz)" using True by (auto simp: ids_def)
    note entries = slice_hits_entries [OF "1.prems"(2) le ids_def, of rows, folded frozen_at_def more_def]
    let ?new = "filter (\<lambda>k. fz_ids fz ! k \<in> sh_id ` set rows) [cursor..<cursor + length ids]"
    from "1.IH" [OF True lim x_def ids_def more_def [unfolded rows_def] run "1.prems"(2) le "1.prems"(4)]
    obtain ks where ks: "sorted_wrt (<) ks" "set ks \<subseteq> {cursor + length ids..<cursor'}" "cursor + length ids \<le> cursor'"
        "cursor' \<le> length (fz_ids fz)" "limit < length out \<or> cursor' = length (fz_ids fz)"
        "map (\<lambda>(h, n). (entry h, n)) out = map (\<lambda>(h, n). (entry h, n)) (collected @ more) @ map (\<lambda>k. (frozen_at fz k, Suc k)) ks"
        "\<forall>i. row_there u f i x \<and> stays u f E i \<longrightarrow> row_there u f i v \<and> (\<forall>k \<in> {cursor + length ids..<cursor'}. fz_ids fz ! k = i \<longrightarrow> k \<in> set ks)"
      by blast
    show ?thesis
    proof (intro exI [of _ "?new @ ks"] conjI allI impI)
      have "sorted_wrt (<) ?new" by (simp add: sorted_wrt_filter)
      then show "sorted_wrt (<) (?new @ ks)" using ks(1,2) by (fastforce simp: sorted_wrt_append)
      show "set (?new @ ks) \<subseteq> {cursor..<cursor'}" using ks(2,3) by auto
      show "cursor \<le> cursor'" "cursor' \<le> length (fz_ids fz)" "limit < length out \<or> cursor' = length (fz_ids fz)" using ks by auto
      show "map (\<lambda>(h, n). (entry h, n)) out = map (\<lambda>(h, n). (entry h, n)) collected @ map (\<lambda>k. (frozen_at fz k, Suc k)) (?new @ ks)"
        using ks(6) entries by simp
    next
      fix i assume i: "row_there u f i w \<and> stays u f E i"
      have x: "row_there u f i x" using i "1.prems"(4) [of w "2 + cursor"] by (auto simp: stays_def x_def)
      then show "row_there u f i v" using ks(7) i by blast
      show "\<forall>k \<in> {cursor..<cursor'}. fz_ids fz ! k = i \<longrightarrow> k \<in> set (?new @ ks)"
      proof (intro ballI impI)
        fix k assume k: "k \<in> {cursor..<cursor'}" "fz_ids fz ! k = i"
        show "k \<in> set (?new @ ks)"
        proof (cases "k < cursor + length ids")
          case True
          then have "i \<in> set ids" using k by (auto simp: ids_def in_set_conv_nth intro!: exI [of _ "k - cursor"])
          then have "i \<in> sh_id ` set rows" using x by (simp add: rows_def fetched_ids)
          then show ?thesis using True k by auto
        next
          case False
          then show ?thesis using ks(7) x i k by auto
        qed
      qed
    qed
  qed
qed

text \<open>One page of a continuation, by the positions it shows.\<close>

lemma continue_positions:
  assumes "continueDashboardPage env u fz r w = (Inr p, v)" and "length (fz_scores fz) = length (fz_ids fz)"
    and "fz_off fz \<le> length (fz_ids fz)" and "\<And>k w. E w (rn_lull env k w)" and "ro_limit r \<noteq> 0"
  shows "\<exists>ks. sorted_wrt (<) ks \<and> set ks \<subseteq> {fz_off fz..<dp_next p} \<and> fz_off fz \<le> dp_next p \<and> dp_next p \<le> length (fz_ids fz) \<and>
    (\<not> dp_more p \<longrightarrow> dp_next p = length (fz_ids fz)) \<and> (dp_more p \<longrightarrow> length ks = ro_limit r) \<and>
    map entry (dp_hits p) = map (frozen_at fz) ks \<and>
    (\<forall>i. row_there u (ro_filters r) i w \<and> stays u (ro_filters r) E i \<longrightarrow>
       row_there u (ro_filters r) i v \<and> (\<forall>k \<in> {fz_off fz..<dp_next p}. fz_ids fz ! k = i \<longrightarrow> k \<in> set ks))"
proof -
  from assms(1) obtain out cursor where run: "collectFrozenHits env u fz (ro_filters r) (ro_limit r) [] (fz_off fz) w = (Inr (out, cursor), v)"
    and p: "p = frozenDashboardPage fz out cursor (ro_limit r) (ro_applied r)"
    unfolding continueDashboardPage_def by (auto simp: and_then_Inr done_with_def)
  from collect_positions [OF run assms(2,3), of E, OF assms(4)]
  obtain ks where ks: "sorted_wrt (<) ks" "set ks \<subseteq> {fz_off fz..<cursor}" "fz_off fz \<le> cursor" "cursor \<le> length (fz_ids fz)"
      "ro_limit r < length out \<or> cursor = length (fz_ids fz)"
      "map (\<lambda>(h, n). (entry h, n)) out = map (\<lambda>k. (frozen_at fz k, Suc k)) ks"
      "\<forall>i. row_there u (ro_filters r) i w \<and> stays u (ro_filters r) E i \<longrightarrow> row_there u (ro_filters r) i v \<and>
        (\<forall>k \<in> {fz_off fz..<cursor}. fz_ids fz ! k = i \<longrightarrow> k \<in> set ks)" by auto
  have len: "length ks = length out" using arg_cong [OF ks(6), of length] by simp
  have hits: "map (entry \<circ> fst) out = map (frozen_at fz) ks"
    using arg_cong [OF ks(6), of "map fst"] by (simp add: comp_def case_prod_beta)
  have offs: "map snd out = map Suc ks" using arg_cong [OF ks(6), of "map snd"] by (simp add: comp_def case_prod_beta)
  let ?n = "ro_limit r"
  show ?thesis
  proof (cases "?n < length out")
    case False
    then have "dp_hits p = map fst out" "dp_next p = length (fz_ids fz)" "\<not> dp_more p"
      by (simp_all add: p frozenDashboardPage_def Let_def)
    then show ?thesis using ks hits False by (intro exI [of _ ks]) auto
  next
    case more: True
    have p': "dp_hits p = map fst (take ?n out)" "dp_more p"
        "dp_next p = (if take ?n out = [] then cursor else snd (last (take ?n out)))"
      using more by (simp_all add: p frozenDashboardPage_def Let_def)
    let ?tk = "take ?n ks"
      have ne: "?tk \<noteq> []" "take ?n out \<noteq> []" using assms(5) more len by auto
      have "snd (last (take ?n out)) = last (map Suc ?tk)"
        unfolding last_map [OF ne(2), of snd, symmetric] take_map [symmetric] offs by (rule refl)
      then have nxt: "dp_next p = Suc (last ?tk)" using p'(3) ne by (simp add: last_map)
      have in_tk: "k \<in> set ?tk" if "k \<in> set ks" "k \<le> last ?tk" for k
      proof -
        have "sorted_wrt (<) (map fst (map (\<lambda>k. (k, ())) ks))" using ks(1) by (simp add: comp_def)
        from sorted_take_last [OF this, of ?n "(k, ())"] assms(5) more len that(1)
        have "(k, ()) \<in> set (take ?n (map (\<lambda>k. (k, ())) ks)) \<or> fst (last (take ?n (map (\<lambda>k. (k, ())) ks))) < k" by auto
        then show ?thesis using that(2) ne(1) by (auto simp: take_map last_map)
      qed
      have last_in: "last ?tk \<in> set ks" using ne(1) by (meson in_set_takeD last_in_set)
      have below: "k \<le> last ?tk" if "k \<in> set ?tk" for k
      proof -
        have "sorted ?tk" using ks(1) by (intro sorted_wrt_take) (simp add: strict_sorted_iff)
        then have "sorted (butlast ?tk @ [last ?tk])" using ne(1) by simp
        moreover have "k \<in> set (butlast ?tk @ [last ?tk])" using that ne(1) by simp
        ultimately show ?thesis by (auto simp: sorted_append)
      qed
      show ?thesis
      proof (intro exI [of _ ?tk] conjI allI impI)
        show "sorted_wrt (<) ?tk" using ks(1) by (rule sorted_wrt_take)
        show "set ?tk \<subseteq> {fz_off fz..<dp_next p}" using ks(2) below nxt by (auto dest: in_set_takeD simp: less_Suc_eq_le)
        show "fz_off fz \<le> dp_next p" "dp_next p \<le> length (fz_ids fz)" using ks(2,4) last_in nxt by auto
        show "map entry (dp_hits p) = map (frozen_at fz) ?tk"
          unfolding p'(1) by (simp add: take_map [symmetric] hits [symmetric] comp_def)
        show "length ?tk = ?n" using more len by simp
        show "dp_next p = length (fz_ids fz)" if "\<not> dp_more p" using that p' by simp
      next
        fix i assume i: "row_there u (ro_filters r) i w \<and> stays u (ro_filters r) E i"
        then show "row_there u (ro_filters r) i v" using ks(7) by blast
        show "\<forall>k \<in> {fz_off fz..<dp_next p}. fz_ids fz ! k = i \<longrightarrow> k \<in> set ?tk"
          using ks(2,7) i nxt last_in by (auto intro!: in_tk)
    qed
  qed
qed

text \<open>The state a page hands to the next one, inside the cursor.\<close>

definition next_state :: "dashboard_page \<Rightarrow> frozen_state" where
  "next_state p = \<lparr>fz_ids = fo_ids (dp_frozen p), fz_scores = fo_scores (dp_frozen p), fz_off = dp_next p, fz_scope = Some (fo_scope (dp_frozen p))\<rparr>"

text \<open>
  From a page on: everything the client sees when it follows the cursors to the end. Between two pages, and between
  the slices of one, the steps of \<open>E\<close> happen.
\<close>

inductive continues ::
  "(service_db \<Rightarrow> service_db \<Rightarrow> bool) \<Rightarrow> uid \<Rightarrow> string \<Rightarrow> page_options \<Rightarrow> dashboard_page \<Rightarrow> service_db \<Rightarrow> shaped_hit list \<Rightarrow> bool"
  for E u q opts where
  ends_here: "\<not> dp_more p \<Longrightarrow> continues E u q opts p v (dp_hits p)"
| goes_on: "dp_more p \<Longrightarrow> E v x \<Longrightarrow> (\<And>k y. E y (rn_lull env k y)) \<Longrightarrow>
    searchDashboardPage env eg u q source (opts\<lparr>po_frozen := Some (next_state p)\<rparr>) x = (Inr p', v') \<Longrightarrow>
    continues E u q opts p' v' rest \<Longrightarrow> continues E u q opts p v (dp_hits p @ rest)"

lemma next_page:
  assumes "searchDashboardPage env eg u q source (opts\<lparr>po_frozen := Some (next_state p)\<rparr>) x = (Inr p', v')"
    and "resolvePolicyFilters (po_policy opts) (po_filters opts) = Inr (applied, f)" and "fo_scope (dp_frozen p) = applied"
  shows "\<exists>r. continueDashboardPage env u (next_state p) r x = (Inr p', v') \<and> ro_filters r = f \<and>
    ro_limit r = coalesce (po_limit opts) DEFAULT_LIMIT \<and> dp_frozen p' = dp_frozen p"
proof -
  from assms(1) obtain r where r: "resolveDashboardPageOptions (eg_double eg) q (opts\<lparr>po_frozen := Some (next_state p)\<rparr>) = Inr r"
    and run: "(if \<not> shouldRestartFrozenWalk (next_state p) (ro_applied r) then continueDashboardPage env u (next_state p) r
         else rankDashboardPage env eg u q source (po_budget (opts\<lparr>po_frozen := Some (next_state p)\<rparr>)) r) x = (Inr p', v')"
    unfolding searchDashboardPage_def check_read_def by (auto simp: and_then_Inr of_sum_Inr split: option.splits)
  have sel: "ro_applied r = applied" "ro_filters r = f" "ro_limit r = coalesce (po_limit opts) DEFAULT_LIMIT"
    using r assms(2) by (auto simp: resolveDashboardPageOptions_def)
  have "\<not> shouldRestartFrozenWalk (next_state p) (ro_applied r)"
    by (simp add: shouldRestartFrozenWalk_def next_state_def assms(3) sel)
  with run have go: "continueDashboardPage env u (next_state p) r x = (Inr p', v')" by simp
  then have "dp_frozen p' = dp_frozen p"
    by (auto simp: continueDashboardPage_def and_then_Inr done_with_def frozenDashboardPage_def Let_def next_state_def sel(1) assms(3) [symmetric])
  with go sel show ?thesis by blast
qed

lemma continues_positions:
  assumes "continues E u q opts p v out" and "resolvePolicyFilters (po_policy opts) (po_filters opts) = Inr (applied, f)"
    and "po_limit opts \<noteq> Some 0" and "fo_scope (dp_frozen p) = applied" and "length (fo_scores (dp_frozen p)) = length (fo_ids (dp_frozen p))"
    and "if dp_more p then dp_next p \<le> length (fo_ids (dp_frozen p)) else length (fo_ids (dp_frozen p)) \<le> dp_next p"
  shows "\<exists>ks. sorted_wrt (<) ks \<and> set ks \<subseteq> {dp_next p..<length (fo_ids (dp_frozen p))} \<and>
    map entry out = map entry (dp_hits p) @ map (\<lambda>k. zip (fo_ids (dp_frozen p)) (fo_scores (dp_frozen p)) ! k) ks \<and>
    (\<forall>i. row_there u f i v \<and> stays u f E i \<longrightarrow> (\<forall>k \<in> {dp_next p..<length (fo_ids (dp_frozen p))}. fo_ids (dp_frozen p) ! k = i \<longrightarrow> k \<in> set ks))"
  using assms(1,4-)
proof (induction rule: continues.induct)
  case (ends_here p v)
  then show ?case by (intro exI [of _ "[]"]) auto
next
  case (goes_on p v x env eg source p' v' rest)
  from next_page [OF goes_on.hyps(4) assms(2) goes_on.prems(1)]
  obtain r where r: "continueDashboardPage env u (next_state p) r x = (Inr p', v')" "ro_filters r = f"
      "ro_limit r = coalesce (po_limit opts) DEFAULT_LIMIT" "dp_frozen p' = dp_frozen p" by blast
  have sel: "fz_ids (next_state p) = fo_ids (dp_frozen p)" "fz_scores (next_state p) = fo_scores (dp_frozen p)" "fz_off (next_state p) = dp_next p"
    by (simp_all add: next_state_def)
  have pos: "ro_limit r \<noteq> 0" using assms(3) by (auto simp: r(3) coalesce_def DEFAULT_LIMIT_def split: option.splits)
  have off: "dp_next p \<le> length (fo_ids (dp_frozen p))" using goes_on.prems(3) goes_on.hyps(1) by simp
  have lull: "E y (rn_lull env k y)" for k y using goes_on.hyps(3) .
  from continue_positions [of env u "next_state p" r x p' v' E, OF r(1) _ _ lull pos] goes_on.prems(2) off
  obtain ks where ks: "sorted_wrt (<) ks" "set ks \<subseteq> {dp_next p..<dp_next p'}" "dp_next p \<le> dp_next p'" "dp_next p' \<le> length (fo_ids (dp_frozen p))"
      "\<not> dp_more p' \<longrightarrow> dp_next p' = length (fo_ids (dp_frozen p))" "map entry (dp_hits p') = map (frozen_at (next_state p)) ks"
      "\<forall>i. row_there u f i x \<and> stays u f E i \<longrightarrow> row_there u f i v' \<and> (\<forall>k \<in> {dp_next p..<dp_next p'}. fo_ids (dp_frozen p) ! k = i \<longrightarrow> k \<in> set ks)"
    unfolding sel r(2) by blast
  have bound: "if dp_more p' then dp_next p' \<le> length (fo_ids (dp_frozen p')) else length (fo_ids (dp_frozen p')) \<le> dp_next p'"
    using ks(4,5) r(4) by simp
  from goes_on.IH bound goes_on.prems(1,2)
  obtain js where js: "sorted_wrt (<) js" "set js \<subseteq> {dp_next p'..<length (fo_ids (dp_frozen p))}"
      "map entry rest = map entry (dp_hits p') @ map (\<lambda>k. zip (fo_ids (dp_frozen p)) (fo_scores (dp_frozen p)) ! k) js"
      "\<forall>i. row_there u f i v' \<and> stays u f E i \<longrightarrow> (\<forall>k \<in> {dp_next p'..<length (fo_ids (dp_frozen p))}. fo_ids (dp_frozen p) ! k = i \<longrightarrow> k \<in> set js)"
    unfolding r(4) by blast
  show ?case
  proof (intro exI [of _ "ks @ js"] conjI allI impI ballI)
    show "sorted_wrt (<) (ks @ js)" using ks(1,2) js(1,2) by (fastforce simp: sorted_wrt_append)
    show "set (ks @ js) \<subseteq> {dp_next p..<length (fo_ids (dp_frozen p))}" using ks(2-4) js(2) by auto
    show "map entry (dp_hits p @ rest) = map entry (dp_hits p) @ map (\<lambda>k. zip (fo_ids (dp_frozen p)) (fo_scores (dp_frozen p)) ! k) (ks @ js)"
      using ks(6) js(3) by (simp add: frozen_at_def sel)
  next
    fix i k assume i: "row_there u f i v \<and> stays u f E i" and k: "k \<in> {dp_next p..<length (fo_ids (dp_frozen p))}" "fo_ids (dp_frozen p) ! k = i"
    have "row_there u f i x" using i goes_on.hyps(2) unfolding stays_def by blast
    then show "k \<in> set (ks @ js)" using ks(7) js(4) i k by (cases "k < dp_next p'") auto
  qed
qed

lemma first_page:
  assumes "searchDashboardPage env eg u q source opts w = (Inr p, v)" and "po_frozen opts = None"
    and "resolvePolicyFilters (po_policy opts) (po_filters opts) = Inr (applied, f)" and "constraints (sv_store v)"
  shows "distinct (fo_ids (dp_frozen p)) \<and> length (fo_scores (dp_frozen p)) = length (fo_ids (dp_frozen p)) \<and>
    fo_scope (dp_frozen p) = applied \<and> dp_next p = coalesce (po_limit opts) DEFAULT_LIMIT \<and>
    dp_more p = (dp_next p < length (fo_ids (dp_frozen p))) \<and>
    map entry (dp_hits p) = take (dp_next p) (zip (fo_ids (dp_frozen p)) (fo_scores (dp_frozen p))) \<and>
    (\<forall>i \<in> set (fo_ids (dp_frozen p)). row_there u f i v) \<and> sorted_wrt (\<ge>) (fo_scores (dp_frozen p))"
proof -
  from assms(1,2) obtain r where r: "resolveDashboardPageOptions (eg_double eg) q opts = Inr r"
    and run: "rankDashboardPage env eg u q source (po_budget opts) r w = (Inr p, v)"
    unfolding searchDashboardPage_def check_read_def by (auto simp: and_then_Inr of_sum_Inr split: option.splits)
  have sel: "ro_applied r = applied" "ro_filters r = f" "ro_limit r = coalesce (po_limit opts) DEFAULT_LIMIT"
    using r assms(3) by (auto simp: resolveDashboardPageOptions_def)
  from run obtain vec hits where hits: "searchFused eg (rn_time env) u q (ro_limit r) (ro_weights r) (ro_penalty r) (Some vec) f None True (sv_store v) = Inr hits"
    and p: "dp_hits p = map shapeSearchHit (take (ro_limit r) hits)"
      "dp_frozen p = \<lparr>fo_ids = map sh_id hits, fo_scores = map sh_score hits, fo_scope = ro_applied r\<rparr>"
      "dp_next p = ro_limit r" "dp_more p = (ro_limit r < length hits)"
    unfolding rankDashboardPage_def reading_def sel(2) by (auto simp: and_then_Inr meanwhile_def done_with_def)
  note exact = search_is_exact [OF hits assms(4)]
  have "row_there u f i v" if "i \<in> sh_id ` set hits" for i
  proof -
    from that obtain h where h: "h \<in> set hits" "sh_id h = i" by auto
    with exact obtain m where "m \<in> set (tbl_memories (sv_store v))" "rowEligibility u f m" "sh_id h = mem_id m" by blast
    then show ?thesis using h(2) by (auto simp: row_there_def)
  qed
  moreover have "zip (map sh_id hits) (map sh_score hits) = map (\<lambda>h. (sh_id h, sh_score h)) hits" by (simp add: zip_map_map zip_same_conv_map)
  moreover have "sorted_wrt (\<lambda>a b. sh_score b \<le> sh_score a) hits"
  proof (rule sorted_wrt_mono_rel)
    show "sorted_wrt (\<lambda>a b. rank_key a \<le> rank_key b) hits" using exact unfolding sorted_map by blast
  qed (auto simp: rank_key_def less_eq_prod_def)
  ultimately show ?thesis using exact p sel by (auto simp: entry_def take_map sorted_wrt_map)
qed

lemma positions_subseq:
  assumes "sorted_wrt (<) ks" and "set ks \<subseteq> {n..<length xs}"
  shows "subseq (map ((!) xs) ks) (drop n xs)"
  using assms
proof (induction ks arbitrary: n)
  case (Cons k ks)
  have k: "n \<le> k" "k < length xs" using Cons.prems(2) by auto
  have "subseq (map ((!) xs) ks) (drop (Suc k) xs)"
    using Cons.prems by (intro Cons.IH) (auto simp: Suc_le_eq)
  then have "subseq (map ((!) xs) (k # ks)) (drop k xs)" using k by (simp add: Cons_nth_drop_Suc [symmetric])
  moreover have "subseq (drop k xs) (drop n xs)"
    using k(1) suffix_drop [of "k - n" "drop n xs"] by (intro suffix_imp_subseq) simp
  ultimately show ?case by (rule subseq_order.order_trans)
qed simp

text \<open>
  C13. Walking the dashboard is stable whatever is written meanwhile: the hits of all pages, put together, are a
  subsequence of the one ranking that the first page froze, ids and scores included; so no memory appears twice and
  the order never changes. A memory of the ranking is skipped only when something took its row away: every id whose
  row no step removes from the filters is shown, and if no row is, the pages are exactly the ranking.
\<close>

theorem frozen_walk_is_stable:
  assumes "searchDashboardPage env eg u q source opts w = (Inr p, v)" and "po_frozen opts = None" and "po_limit opts \<noteq> Some 0"
    and "resolvePolicyFilters (po_policy opts) (po_filters opts) = Inr (applied, f)" and "constraints (sv_store v)"
    and "continues E u q opts p v out"
  shows "subseq (map entry out) (zip (fo_ids (dp_frozen p)) (fo_scores (dp_frozen p))) \<and>
    distinct (fo_ids (dp_frozen p)) \<and> sorted_wrt (\<ge>) (fo_scores (dp_frozen p)) \<and>
    (\<forall>i \<in> set (fo_ids (dp_frozen p)). stays u f E i \<longrightarrow> i \<in> fst ` entry ` set out) \<and>
    ((\<forall>i \<in> set (fo_ids (dp_frozen p)). stays u f E i) \<longrightarrow> map entry out = zip (fo_ids (dp_frozen p)) (fo_scores (dp_frozen p)))"
proof -
  let ?ids = "fo_ids (dp_frozen p)" and ?rank = "zip (fo_ids (dp_frozen p)) (fo_scores (dp_frozen p))" and ?n = "dp_next p"
  note first = first_page [OF assms(1,2,4,5)]
  have len: "length ?rank = length ?ids" using first by simp
  have bound: "if dp_more p then ?n \<le> length ?ids else length ?ids \<le> ?n" using first by auto
  from continues_positions [OF assms(6,4,3)] first bound
  obtain ks where ks: "sorted_wrt (<) ks" "set ks \<subseteq> {?n..<length ?ids}" "map entry out = take ?n ?rank @ map ((!) ?rank) ks"
      "\<forall>i. row_there u f i v \<and> stays u f E i \<longrightarrow> (\<forall>k \<in> {?n..<length ?ids}. ?ids ! k = i \<longrightarrow> k \<in> set ks)" by auto
  have "subseq (take ?n ?rank @ map ((!) ?rank) ks) (take ?n ?rank @ drop ?n ?rank)"
    using positions_subseq [of ks ?n ?rank] ks(1,2) len by (intro list_emb_append_mono) auto
  then have sub: "subseq (map entry out) ?rank" by (simp add: ks(3))
  have shown: "x \<in> set (map entry out)" if x: "x \<in> set ?rank" "stays u f E (fst x)" for x
  proof -
    obtain k where k: "k < length ?rank" "?rank ! k = x" using x(1) by (auto simp: in_set_conv_nth)
    have id: "?ids ! k = fst x" using k len first by (metis fst_conv length_zip nth_zip min.idem)
    show ?thesis
    proof (cases "k < ?n")
      case True
      then have "x \<in> set (take ?n ?rank)" using k by (auto simp: in_set_conv_nth intro!: exI [of _ k])
      then show ?thesis by (simp add: ks(3))
    next
      case False
      have "row_there u f (fst x) v" using first id k(1) len by (metis nth_mem)
      then have "k \<in> set ks" using ks(4) x(2) id False k(1) len by auto
      then show ?thesis using k(2) by (auto simp: ks(3))
    qed
  qed
  have ids: "fst ` set ?rank = set ?ids" using first by (metis list.set_map map_fst_zip)
  have each: "\<forall>i \<in> set ?ids. stays u f E i \<longrightarrow> i \<in> fst ` entry ` set out"
  proof (intro ballI impI)
    fix i assume "i \<in> set ?ids" "stays u f E i"
    moreover from this(1) ids obtain x where "x \<in> set ?rank" "fst x = i" by (metis imageE)
    ultimately show "i \<in> fst ` entry ` set out" using shown [of x] by auto
  qed
  have "map entry out = ?rank" if all: "\<forall>i \<in> set ?ids. stays u f E i"
  proof -
    have dist: "distinct ?rank" using first by (simp add: distinct_zipI1)
    have "set ?rank \<subseteq> set (map entry out)"
    proof
      fix x assume x: "x \<in> set ?rank"
      then have "fst x \<in> set ?ids" using ids by blast
      then show "x \<in> set (map entry out)" using shown [OF x] all by blast
    qed
    then have "card (set ?rank) \<le> card (set (map entry out))" by (intro card_mono) auto
    then have "length ?rank \<le> length (map entry out)" using distinct_card [OF dist] card_length [of "map entry out"] by simp
    then show ?thesis using list_emb_length [OF sub] by (intro subseq_same_length [OF sub]) (rule order_antisym)
  qed
  with each show ?thesis using sub first by blast
qed

end
