(* ===== verification/SearchScenario.thy ===== *)
theory SearchScenario
  imports ServiceScenario SearchWalks
begin

text \<open>
  The witnesses of the retrieval properties, on Ada's store after one revision: memory 1 superseded by the newest
  note, memory 4 current. The engine ranks a text match by the id, matches every topic, and computes exactly.
\<close>

declare One_nat_def [simp del]

definition plain :: engine where
  "plain = \<lparr>eg_rank = (\<lambda>_ m. Some (of_nat (mem_id m))), eg_distance = (\<lambda>_ _. 0), eg_nearest = (\<lambda>_ n ms. take n ms), eg_decay = (\<lambda>_. 0),
     eg_topic = (\<lambda>_ _. True), eg_double = exact, eg_real = exact\<rparr>"

lemma engine_ok_plain: "engine_ok plain"
  by (simp add: engine_ok_def keeps_quarters_def plain_def exact_def mono_def)

definition st6 :: store where "st6 = snd revised"

lemma constraints_st6: "constraints st6" by code_simp

definition lexical :: fusion_weights where "lexical = DEFAULT_FUSION_WEIGHTS exact"

definition ranked6 :: "search_hit list" where
  "ranked6 = projr (searchFused plain 9000 1 ''c'' 2 lexical 2 None no_filters None False st6)"

theorem search_is_exact_witness: "length ranked6 \<le> 2 \<and> (\<exists>h \<in> set ranked6. \<exists>m \<in> set (tbl_memories st6). sh_id h = mem_id m)"
proof -
  have "searchFused plain 9000 1 ''c'' 2 lexical 2 None no_filters None False st6 = Inr ranked6"
    unfolding ranked6_def by code_simp
  note exact_run = search_is_exact [OF this constraints_st6]
  have "ranked6 \<noteq> []" unfolding ranked6_def by code_simp
  then have "hd ranked6 \<in> set ranked6" by simp
  with exact_run show ?thesis by (simp only: if_False) blast
qed

text \<open>A search with a given vector; evaluation leaves the vector alone.\<close>

definition unit_vector :: "string list" where "unit_vector = replicate 1536 ''1''"

definition sv6 :: service_db where "sv6 = sv0\<lparr>sv_auth := acc0\<lparr>ad_store := st6\<rparr>\<rparr>"

lemma ranking6:
  "map (\<lambda>h. (sh_id h, sh_score h)) (sort_key rank_key (filter (buildCursorPredicate None)
     (scored plain 1000 1 ''c'' 50 (resolveWeights ''c'' (DEFAULT_SEARCH_WEIGHTS exact)) 2 (Some x) no_filters st6))) =
   [(6, 7 / 10), (4, 31 / 50), (1, - 3 / 2)]"
  by code_simp

text \<open>The literal is 1536 components wide, so its text stays unevaluated.\<close>

lemma fused6:
  assumes "pool_size n = 50"
  shows "\<exists>hits. searchFused plain 1000 1 ''c'' n (resolveWeights ''c'' (DEFAULT_SEARCH_WEIGHTS exact)) 2 (Some unit_vector) no_filters None full st6 = Inr hits \<and>
    map (\<lambda>h. (sh_id h, sh_score h)) hits = take (if full then 50 else n) [(6, 7 / 10), (4, 31 / 50), (1, - 3 / 2)]"
proof -
  have "0 < wt_vector (resolveWeights ''c'' (DEFAULT_SEARCH_WEIGHTS exact))"
    by (simp add: resolveWeights_def DEFAULT_SEARCH_WEIGHTS_def)
  moreover have "assertEmbeddingDimensions unit_vector = Inr ()"
    by (simp add: assertEmbeddingDimensions_def EMBEDDING_DIMENSIONS_def unit_vector_def)
  ultimately show ?thesis
    unfolding searchFused_def Let_def assms ranking6 [symmetric, of "toVectorLiteral unit_vector"] by (simp add: take_map)
qed

definition asked :: search_options where
  "asked = \<lparr>so_limit = None, so_cursor = None, so_weights = None, so_penalty = None, so_filters = None, so_budget = None,
     so_access = Some allowAllAccess, so_policy = None\<rparr>"

lemma pool6: "pool_size 5 = 50" "pool_size 1 = 50" by (simp_all add: pool_size_def CANDIDATE_POOL_FLOOR_def)

lemma sv6_store: "sv_store sv6 = st6" by (simp add: sv6_def sv_store_def)

lemma sv_env_sel: "rn_lull sv_env k w = w" "rn_time sv_env = 1000" by (simp_all add: sv_env_def)

lemma vector_given: "query_vector env u (Precomputed unit_vector) q b w = (Inr unit_vector, w)"
  by (simp add: query_vector_def unit_vector_def EMBEDDING_DIMENSIONS_def and_then_def done_with_def)

theorem superseded_never_outranks_witness:
  "\<exists>r. search sv_env plain 1 ''c'' (Precomputed unit_vector) asked sv6 = (Inr r, sv6) \<and> length (result_hits r) = 3 \<and>
     sorted_wrt (\<lambda>a b. sh_superseded (sp_hit a) \<longrightarrow> sh_superseded (sp_hit b)) (result_hits r)"
proof -
  obtain hits where hits: "searchFused plain 1000 1 ''c'' 5 (resolveWeights ''c'' (DEFAULT_SEARCH_WEIGHTS exact)) 2 (Some unit_vector) no_filters None False st6 = Inr hits"
    and ids: "map (\<lambda>h. (sh_id h, sh_score h)) hits = take 5 [(6, 7 / 10), (4, 31 / 50), (1, - 3 / 2)]"
    using fused6 [OF pool6(1), of False] by auto
  have "length hits = 3" using arg_cong [OF ids, of length] by simp
  moreover have run: "search sv_env plain 1 ''c'' (Precomputed unit_vector) asked sv6 = (Inr (PlainHits (map shapeSearchHit hits)), sv6)"
    by (simp add: search_def check_read_def asked_def allowAllAccess_def resolveSearchOptions_def resolvePolicyFilters_def applyPolicyToScopeFilter_def
        vector_given reading_def and_then_def of_sum_def meanwhile_def done_with_def sv_env_sel sv6_store coalesce_def DEFAULT_LIMIT_def
        DEFAULT_SEARCH_SUPERSESSION_PENALTY_def DEFAULT_SUPERSESSION_PENALTY_def plain_def [THEN arg_cong, of eg_double] hits shapeSearchResult_def)
  moreover have "so_weights asked = None" "so_penalty asked = None" by (simp_all add: asked_def)
  note superseded_never_outranks [OF run this engine_ok_plain]
  ultimately show ?thesis by simp
qed

section \<open>Walks\<close>

text \<open>A new note is committed between the first page of one and the second; the walk shows what was there.\<close>

definition st7 :: store where "st7 = snd (writeMemory no_gap 8000 8 (note_write Note ''h9'') None [] st6)"

lemma constraints_st7: "constraints st7" by code_simp

theorem listing_walk_witness:
  "\<exists>out. walks (searchList 1 1 no_filters) None [st6, st7] out \<and> distinct (map sh_id out) \<and> {4, 6} \<subseteq> sh_id ` set out"
proof -
  define p1 where "p1 = searchList 1 1 no_filters st6 None"
  define p2 where "p2 = searchList 1 1 no_filters st7 (fst (snd p1))"
  have more: "snd (snd p1) = True" "snd (snd p2) = False" unfolding p1_def p2_def by code_simp+
  have r1: "searchList 1 1 no_filters st6 None = (fst p1, fst (snd p1), True)"
    and r2: "searchList 1 1 no_filters st7 (fst (snd p1)) = (fst p2, fst (snd p2), False)"
    using more unfolding p1_def [symmetric] p2_def [symmetric] by (metis prod.collapse)+
  have walk: "walks (searchList 1 1 no_filters) None [st6, st7] (fst p1 @ fst p2)"
  proof -
    have "walks (searchList 1 1 no_filters) (fst (snd p1)) [st7] (fst p2)" using r2 by (rule last_page)
    with r1 show ?thesis by (rule more_pages)
  qed
  have "op {1} st6 st7" unfolding st7_def
    by (rule op_remember) (auto simp: note_write_def intro: ops_done)
  then have ops: "successively (ops {1}) [st6, st7]" by (auto intro: ops_step ops_done)
  have six: "\<exists>m \<in> set (tbl_memories s). mem_id m = 6 \<and> rowEligibility 1 no_filters m \<and> liveGate no_filters m"
    and four: "\<exists>m \<in> set (tbl_memories s). mem_id m = 4 \<and> rowEligibility 1 no_filters m \<and> liveGate no_filters m"
    if "s \<in> set [st6, st7]" for s
  proof -
    have "\<forall>s \<in> set [st6, st7]. \<forall>i \<in> {4, 6}. \<exists>m \<in> set (tbl_memories s). mem_id m = i \<and> rowEligibility 1 no_filters m \<and> liveGate no_filters m"
      by code_simp
    with that show "\<exists>m \<in> set (tbl_memories s). mem_id m = 6 \<and> rowEligibility 1 no_filters m \<and> liveGate no_filters m"
      and "\<exists>m \<in> set (tbl_memories s). mem_id m = 4 \<and> rowEligibility 1 no_filters m \<and> liveGate no_filters m" by blast+
  qed
  have "0 < (1::nat)" "constraints (hd [st6, st7])" using constraints_st6 by simp_all
  note result = listing_walk [OF walk this(1) ops this(2)]
  have "4 \<in> sh_id ` set (fst p1 @ fst p2)" "6 \<in> sh_id ` set (fst p1 @ fst p2)" using result six four by blast+
  then show ?thesis using walk result by blast
qed

definition paged :: page_options where
  "paged = \<lparr>po_limit = Some 1, po_filters = None, po_frozen = None, po_budget = None, po_access = Some allowAllAccess, po_policy = None\<rparr>"

definition sv7 :: service_db where "sv7 = put_store st7 sv6"

definition frozen6 :: "nat \<Rightarrow> frozen_state" where
  "frozen6 k = \<lparr>fz_ids = [6, 4, 1], fz_scores = [7 / 10, 31 / 50, - 3 / 2], fz_off = k, fz_scope = Some None\<rparr>"

definition onward :: "nat \<Rightarrow> (err + dashboard_page) \<times> service_db" where
  "onward k = searchDashboardPage sv_env plain 1 ''c'' (Precomputed []) (paged\<lparr>po_frozen := Some (frozen6 k)\<rparr>) sv7"

definition between :: "service_db \<Rightarrow> service_db \<Rightarrow> bool" where
  "between v v' \<longleftrightarrow> v' = v \<or> v' = sv7"

theorem frozen_walk_is_stable_witness:
  "\<exists>p out. fst (searchDashboardPage sv_env plain 1 ''c'' (Precomputed unit_vector) paged sv6) = Inr p \<and>
     continues between 1 ''c'' paged p sv6 out \<and> map (fst \<circ> entry) out = [6, 4, 1]"
proof -
  obtain hits where hits: "searchFused plain 1000 1 ''c'' 1 (resolveWeights ''c'' (DEFAULT_SEARCH_WEIGHTS exact)) 2 (Some unit_vector) no_filters None True st6 = Inr hits"
    and ids: "map (\<lambda>h. (sh_id h, sh_score h)) hits = [(6, 7 / 10), (4, 31 / 50), (1, - 3 / 2)]"
    using fused6 [OF pool6(2), of True] by auto
  define p where "p = \<lparr>dp_hits = map shapeSearchHit (take 1 hits), dp_frozen = \<lparr>fo_ids = map sh_id hits, fo_scores = map sh_score hits, fo_scope = None\<rparr>,
     dp_next = 1, dp_more = 1 < length hits, dp_applied = None\<rparr>"
  have run: "searchDashboardPage sv_env plain 1 ''c'' (Precomputed unit_vector) paged sv6 = (Inr p, sv6)"
    by (simp add: searchDashboardPage_def check_read_def paged_def allowAllAccess_def resolveDashboardPageOptions_def resolvePolicyFilters_def
        applyPolicyToScopeFilter_def rankDashboardPage_def vector_given reading_def and_then_def of_sum_def meanwhile_def done_with_def sv_env_sel
        sv6_store coalesce_def DEFAULT_SEARCH_SUPERSESSION_PENALTY_def DEFAULT_SUPERSESSION_PENALTY_def plain_def [THEN arg_cong, of eg_double] hits p_def)
  have lists: "map sh_id hits = [6, 4, 1]" "map sh_score hits = [7 / 10, 31 / 50, - 3 / 2]"
    using arg_cong [OF ids, of "map fst"] arg_cong [OF ids, of "map snd"] by (simp_all add: comp_def)
  have len: "length hits = 3" using arg_cong [OF ids, of length] by simp
  define p2 where "p2 = projr (fst (onward 1))"
  define p3 where "p3 = projr (fst (onward 2))"
  have facts: "onward 1 = (Inr p2, sv7)" "onward 2 = (Inr p3, sv7)" "next_state p2 = frozen6 2" "dp_more p2" "\<not> dp_more p3"
    unfolding p2_def p3_def by code_simp+
  have first: "next_state p = frozen6 1" "dp_more p" by (simp_all add: next_state_def p_def frozen6_def lists len)
  have lull: "between y (rn_lull sv_env k y)" for k y by (simp add: between_def sv_env_sel)
  have w3: "continues between 1 ''c'' paged p3 sv7 (dp_hits p3)" by (rule ends_here [OF facts(5)])
  have w2: "continues between 1 ''c'' paged p2 sv7 (dp_hits p2 @ dp_hits p3)"
    by (rule goes_on [OF facts(4) _ lull facts(2) [unfolded onward_def, folded facts(3)] w3]) (simp add: between_def)
  have walk: "continues between 1 ''c'' paged p sv6 (dp_hits p @ dp_hits p2 @ dp_hits p3)"
    by (rule goes_on [OF first(2) _ lull facts(1) [unfolded onward_def, folded first(1)] w2]) (simp add: between_def)
  have there: "\<forall>i \<in> set [6, 4, 1]. row_there 1 no_filters i sv7" by code_simp
  have "stays 1 no_filters between i" if "i \<in> set [6, 4, 1]" for i
    using bspec [OF there that] by (auto simp: stays_def between_def)
  then have all: "\<forall>i \<in> set (fo_ids (dp_frozen p)). stays 1 no_filters between i" by (simp add: p_def lists)
  have opts: "po_frozen paged = None" "po_limit paged \<noteq> Some 0" "resolvePolicyFilters (po_policy paged) (po_filters paged) = Inr (None, no_filters)"
    by (simp_all add: paged_def resolvePolicyFilters_def applyPolicyToScopeFilter_def coalesce_def)
  have "constraints (sv_store sv6)" using constraints_st6 by (simp add: sv6_store)
  from frozen_walk_is_stable [OF run opts this walk] all
  have "map entry (dp_hits p @ dp_hits p2 @ dp_hits p3) = zip [6, 4, 1] [7 / 10, 31 / 50, - 3 / 2]"
    by (simp add: p_def lists)
  from arg_cong [OF this, of "map fst"] have "map (fst \<circ> entry) (dp_hits p @ dp_hits p2 @ dp_hits p3) = [6, 4, 1]" by simp
  with run walk show ?thesis by (metis fst_conv)
qed

end
