(* ===== verification/Spec2Isabelle.thy ===== *)
theory Spec2Isabelle
  imports CloserScenario AccountScenario ProposalScenario ServiceScenario SearchScenario
begin

text \<open>
  A model of the server side of 3ngram, a memory backend for coding agents: the SQL layer (\<open>packages/db\<close>) and
  the services above it (\<open>packages/core\<close>), as functions on the tables, with the interleavings that its row locks
  and compare-and-set updates are written for.

  \<^bold>\<open>The program and its parts.\<close> A tenant remembers memories (append only), revises them (a revision closes the
  predecessor and appends a successor linked by a typed edge), moves and archives them. A memory of type
  commitment carries an obligation with a state machine. Agents work in sessions: a session has a lease, a
  natural key and an activation epoch, and a write attributed to a session renews or resurrects it. When a session
  ends, a Stop hook runs a triage handshake over the events the session caused; what it misses the closer
  judges later with a language model and either resolves commitments or stages proposals. A reviewer accepts or
  rejects proposals of four kinds. An account owns credentials (login sessions, API keys, OAuth codes and
  tokens, reset and verification tokens); erasing it redacts its content and ends every credential.

  \<^bold>\<open>State and statements.\<close> \<open>Store\<close> holds the rows as records named like the tables of
  \<open>packages/db/src/schema\<close>, a \<open>store\<close> of table lists, and one function per kind of SQL statement that checks what
  PostgreSQL checks: CHECK constraints, unique and partial unique indexes, foreign keys, the commitment trigger.
  \<open>Prelude\<close> has the transaction monad: a body is a function from a store to an error or a value with a new
  store; \<open>run_tx\<close> and \<open>withTenant\<close> roll back on an error. \<open>Services\<close> has the monad of the services, which run
  several transactions and keep what the earlier ones committed. A read or write of the source becomes one
  statement, every early return and throw a branch.

  \<^bold>\<open>Interleaving.\<close> A statement that waits for a lock is preceded by \<open>wait_for (gap k)\<close>: \<open>gap k\<close> is what other
  transactions commit during that wait, an argument of every operation. The waits are numbered: 0 to 3 the lock
  attempts of a session attach (\<open>MAX_ATTACH_LOCK_ATTEMPTS = 3\<close>), 4 the cap lock, 5 the window between the duplicate
  check and the INSERT, 6 the predecessor's row, 7 the commitment's row, 8 the account lifecycle lock, 9 a memory's
  row, 10 an archived blocker, 11 to 13 the statements of \<open>CommitmentsDb\<close>, 14 an edge's index entry, 15 an embedded
  row, 16 the endpoints of an edge, 17 the source of a proposed fact, 18 the memories a retention verdict names.
  Under READ COMMITTED every statement sees what committed before it; the model reads the store afresh after a
  wait and only then. Services take what commits between their transactions the same way (\<open>world\<close>, \<open>rn_lull\<close>); the
  scope operations number their own waits (\<open>ScopePolicy\<close>), and a reservation has one, for the user's advisory lock.

  \<^bold>\<open>Contracts.\<close> \<open>StoreContract\<close> states the locale \<open>tenant_contract\<close>: a preorder on stores that every statement of
  a tenant respects. Each component proves once, inside the locale, that its operations respect it. Its three
  interpretations are on the model's own statements: constraints are kept (\<open>inv\<close>), other tenants' rows are
  untouched (\<open>tenant\<close>), and history only grows (\<open>hist\<close>). \<open>Reachable\<close> closes all operations under interleaving
  (\<open>op\<close>, \<open>ops\<close>) and turns each interpretation into a theorem about every reachable store by one rule induction.
  \<open>tx_preorder\<close> (Prelude) is the part of that interface that is about transactions only; \<open>svc_preorder\<close>,
  \<open>classify_contract\<close> and \<open>closer_contract\<close> are the same for services and for the closer over its injected
  repository.

  \<^bold>\<open>Theories.\<close>
  \<^item> \<open>CommitmentFsm\<close>: the state machine and the trigger (\<open>schema/src/commitment.ts\<close>, \<open>db/src/fsm-trigger.ts\<close>).
  \<^item> \<open>SessionProvenance\<close>, \<open>SessionLifecycle\<close>, \<open>SessionRows\<close>, \<open>SessionEvents\<close>, \<open>SessionTriage\<close>, \<open>SessionCloser\<close>: the session
    files of \<open>db/src\<close> of the same names: leases and attach, open, close and heartbeat, the events of a run and
    their pages, the triage handshake, and the closer's claim, finish and failure statements.
  \<^item> \<open>FactsWrite\<close>, \<open>MemoryWrite\<close>, \<open>MemoryRevise\<close>, \<open>ReviseConcurrency\<close>: the write path (\<open>facts-write.ts\<close>,
    \<open>memory-write.ts\<close>, \<open>memory-edges.ts\<close>, \<open>memory-revise.ts\<close>), the last one with the races a revision can lose.
  \<^item> \<open>CommitmentsDb\<close>, \<open>CommitmentService\<close>: commitments in SQL and the retry loop of \<open>core/src/write/commitments.ts\<close>.
  \<^item> \<open>MemoryDisposition\<close>, \<open>MemoryImport\<close>: archive and reaffirm in batches, the import writes and the embedding column.
  \<^item> \<open>ResolutionProposals\<close>, \<open>EdgeProposals\<close>, \<open>ReviewProposals\<close>: the four kinds of proposals and the review surface.
  \<^item> \<open>CloserPass\<close>, \<open>CloserSafety\<close>: the closer and the sweep (\<open>core/src/admin/session-closer*.ts\<close>, \<open>session-sweep.ts\<close>) over an
    injected repository, then over the database.
  \<^item> \<open>Credentials\<close>, \<open>OAuthGrants\<close>, \<open>AccountErasure\<close>: the account tables and their statements (\<open>db/src/auth-*.ts\<close>,
    \<open>account-delete.ts\<close>, the resolvers in \<open>db/migrations\<close>); \<open>CredentialReach\<close>, \<open>AccountSafety\<close>, \<open>AccountTheorems\<close>,
    \<open>AccountInvariant\<close>: their closure under interleaving and what it keeps.
  \<^item> \<open>OAuthProvider\<close>, \<open>AccountServices\<close>: the OAuth provider and the account services of \<open>core/src/auth\<close>;
    \<open>GrantTheorems\<close>, \<open>AccountPolicies\<close>, \<open>LoginTheorems\<close>: what they guarantee.
  \<^item> \<open>ServiceDb\<close>: the account tables, the scope registry, the ledger, budgets and reservations as one state; services
    that run several transactions on it.
  \<^item> \<open>ScopePolicy\<close>, \<open>ScopeSafety\<close>, \<open>ScopeTheorems\<close>: the registry, the retrieval and write policies and their enforcement
    (\<open>db/src/scopes.ts\<close>, \<open>retrieval-policy.ts\<close>, \<open>write-scope-policy.ts\<close>, \<open>core/src/scope\<close>), closed under interleaving.
  \<^item> \<open>Budget\<close>, \<open>BudgetTheorems\<close>: the budget gate (\<open>llm/src/operations.ts\<close>, \<open>db/src/budget-read.ts\<close>, \<open>llm-usage.ts\<close>,
    \<open>core/src/budget\<close>).
  \<^item> \<open>WriteServices\<close>, \<open>WriteServiceTheorems\<close>: remember, revise, the embedding task, repair, import and provisioning
    (\<open>core/src/write\<close>, \<open>core/src/import\<close>, \<open>core/src/auth/provisioning.ts\<close>) over all of the above.
  \<^item> \<open>KeysetPaging\<close>, \<open>SearchSql\<close>, \<open>SearchService\<close>: keyset pagination as an interface, the retrieval queries
    (\<open>db/src/search.ts\<close>, \<open>search-list.ts\<close>) and the services over them (\<open>core/src/read/search*.ts\<close>, \<open>excerpt.ts\<close>);
    \<open>SearchTheorems\<close>, \<open>SearchWalks\<close>: what a result promises and what a walk over several pages does.
  \<^item> \<open>Scenario\<close>, \<open>CloserScenario\<close>, \<open>AccountScenario\<close>, \<open>ProposalScenario\<close>, \<open>ServiceScenario\<close>, \<open>SearchScenario\<close>: concrete stores on which every property with
    a hypothesis is applied.

  \<^bold>\<open>What the lemmas show.\<close> Effect theorems give the exact store an operation leaves (\<open>..._effect\<close>, \<open>..._quiet\<close>,
  \<open>..._run\<close>); contract lemmas (\<open>within_...\<close>) that it respects any tenant contract; safety theorems hold under
  interference, either of any kind or of the kind the held locks allow, which is then a named hypothesis.

  \<^bold>\<open>The account closure.\<close> \<open>creds H us L\<close> is any sequence of account operations that mints only hashes outside \<open>H\<close>,
  by users in \<open>us\<close>; \<open>L\<close> lists the users whose lifecycle lock is held by a waiting transaction: an operation that
  needs that lock does not commit meanwhile. Hashes are fresh, which is the documented property of the random
  tokens they digest.

  \<^bold>\<open>Bounds.\<close> Loops are structural: \<open>MAX_ATTACH_LOCK_ATTEMPTS = 3\<close>, \<open>MAX_TRANSITION_ATTEMPTS = 3\<close>,
  \<open>MAX_UNVERIFIED_PASSWORD_REPLACE_ATTEMPTS = 3\<close> are the source's own bounds. The event walk is bounded by the
  ceiling of 500 ids in pages of 100; \<open>LISTING_PAGES = 5\<close> is therefore enough fuel, which \<open>closer_listing_ends\<close>
  proves whatever is appended between pages. A disposition batch has at most 50 ids.

  \<^bold>\<open>Numbers.\<close> SQL instants are integers of microseconds and JavaScript dates of milliseconds (\<open>sql_of_date\<close>,
  \<open>date_of_sql\<close>), since the code's ordering depends on the difference. Counters are natural numbers: none of
  them comes near 2^53. Probabilities are the rationals of their doubles. Money is rational: numeric columns are exact,
  every sum or product that the code computes in doubles goes through a rounding \<open>fl\<close>, of which the theorems assume
  the relative error bound of IEEE arithmetic (\<open>rounds\<close>) where they need it.

  \<^bold>\<open>Parameters.\<close> The language model gateway and the parse of its reply, the budget checks of the closer, the embedding
  gateway, the engine of retrieval (text match and rank, vector distance and index scan, decay, topic match and the two
  roundings), the parse of a payload by its schema, the resolver of a platform's limits and its access policy, the
  collation of names, password hashing, SHA digests and random bytes, the breach service, JWT signing and verification, URL parsing, the md5 of an
  index expression. Each is an argument of the definitions that use it.

  \<^bold>\<open>Not modelled.\<close> The briefing and the other single reads; the zod schemas, which are calls of a validation library; the REST and
  MCP transports, the worker and the command line, the editor plugin, logging, metrics and configuration, which hold
  no state of their own; deadlocks and lock order (a waiting transaction is assumed to get its lock); isolation
  anomalies inside a single statement beyond the re-read after a wait. The per-key advisory lock of \<open>insertFacts\<close> is
  taken for granted.
\<close>

end
